(* ===== verification/Prelude.thy ===== *)
theory Prelude
  imports Main "HOL-Library.Word" "HOL-Library.Monad_Syntax"
begin

text \<open>
  Shared vocabulary of the development.

  \<^item> the machine integers of the C sources (\<open>__u8\<close> to \<open>__u64\<close>) as words;
  \<^item> packet memory: the bytes between \<open>data\<close> and \<open>data_end\<close> as a list, with loads and
    stores that fail (\<open>None\<close>) outside these bounds, so that an access the BPF verifier would
    have to reject is visible as a failing run and memory safety is a theorem;
  \<^item> the weakest precondition \<open>wp\<close> of a run in the option monad: \<open>wp m Q\<close> says that the run
    \<open>m\<close> does not fail and that its result satisfies \<open>Q\<close>. The collection \<open>wp\<close> holds its
    equations for the monad and for packet accesses;
  \<^item> little-endian encodings of 16- and 32-bit words and their round trips.
\<close>

unbundle bit_operations_syntax

type_synonym u8 = "8 word"
type_synonym u16 = "16 word"
type_synonym u32 = "32 word"
type_synonym u64 = "64 word"

type_synonym packet = "u8 list"

section \<open>Runs that may fail\<close>

named_theorems wp_simps \<open>weakest preconditions of the option monad and of packet accesses\<close>

definition wp :: "'a option \<Rightarrow> ('a \<Rightarrow> bool) \<Rightarrow> bool" where
  "wp m Q = (case m of None \<Rightarrow> False | Some x \<Rightarrow> Q x)"

lemma wp_None [simp]: "wp None Q = False"
  by (simp add: wp_def)

lemma wp_Some [simp]: "wp (Some x) Q = Q x"
  by (simp add: wp_def)

lemma wp_bind [simp]: "wp (Option.bind m f) Q = wp m (\<lambda>x. wp (f x) Q)"
  by (cases m) simp_all

lemma wp_if [wp_simps]: "wp (if b then m else n) Q = (if b then wp m Q else wp n Q)"
  by simp

lemma wp_map_option [simp]: "wp (map_option f m) Q = wp m (\<lambda>x. Q (f x))"
  by (cases m) simp_all

lemma wp_case_option [wp_simps]:
  "wp (case x of None \<Rightarrow> m | Some y \<Rightarrow> f y) Q = (case x of None \<Rightarrow> wp m Q | Some y \<Rightarrow> wp (f y) Q)"
  by (cases x) simp_all

lemma wp_case_prod [wp_simps]: "wp (case x of (a, b) \<Rightarrow> f a b) Q = (case x of (a, b) \<Rightarrow> wp (f a b) Q)"
  by (cases x) simp

lemma wp_case_sum [wp_simps]:
  "wp (case x of Inl a \<Rightarrow> f a | Inr b \<Rightarrow> g b) Q =
   (case x of Inl a \<Rightarrow> wp (f a) Q | Inr b \<Rightarrow> wp (g b) Q)"
  by (cases x) simp_all

lemma wp_mono: "wp m P \<Longrightarrow> (\<And>x. P x \<Longrightarrow> Q x) \<Longrightarrow> wp m Q"
  by (cases m) simp_all

lemma wp_bindI: "wp m P \<Longrightarrow> (\<And>x. P x \<Longrightarrow> wp (f x) Q) \<Longrightarrow> wp (Option.bind m f) Q"
  by (cases m) simp_all

lemma wp_conj: "wp m P \<Longrightarrow> wp m Q \<Longrightarrow> wp m (\<lambda>x. P x \<and> Q x)"
  by (cases m) simp_all

lemma wpD: "wp m Q \<Longrightarrow> m = Some x \<Longrightarrow> Q x"
  by simp

lemma wp_iff: "wp m Q \<longleftrightarrow> (\<exists>x. m = Some x \<and> Q x)"
  by (cases m) simp_all

text \<open>Reading through a pointer that may be \<open>NULL\<close> is the identity on options.\<close>

definition deref :: "'a option \<Rightarrow> 'a option" where
  "deref x = x"

lemma wp_deref [wp_simps]: "wp (deref x) Q = (\<exists>y. x = Some y \<and> Q y)"
  by (simp add: deref_def wp_iff)

section \<open>Packet memory\<close>

definition slice :: "'a list \<Rightarrow> nat \<Rightarrow> nat \<Rightarrow> 'a list" where
  "slice p off n = take n (drop off p)"

definition put :: "'a list \<Rightarrow> nat \<Rightarrow> 'a list \<Rightarrow> 'a list" where
  "put p off bs = take off p @ bs @ drop (off + length bs) p"

definition ldn :: "packet \<Rightarrow> nat \<Rightarrow> nat \<Rightarrow> u8 list option" where
  "ldn p off n = (if off + n \<le> length p then Some (slice p off n) else None)"

definition stn :: "packet \<Rightarrow> nat \<Rightarrow> u8 list \<Rightarrow> packet option" where
  "stn p off bs = (if off + length bs \<le> length p then Some (put p off bs) else None)"

lemma wp_ldn [wp_simps]: "wp (ldn p off n) Q = (off + n \<le> length p \<and> Q (slice p off n))"
  by (simp add: ldn_def)

lemma wp_stn [wp_simps]: "wp (stn p off bs) Q = (off + length bs \<le> length p \<and> Q (put p off bs))"
  by (simp add: stn_def)

lemma length_slice [simp]: "off + n \<le> length p \<Longrightarrow> length (slice p off n) = n"
  by (simp add: slice_def)

lemma length_put [simp]: "off + length bs \<le> length p \<Longrightarrow> length (put p off bs) = length p"
  by (simp add: put_def)

lemma nth_slice [simp]: "i < n \<Longrightarrow> off + n \<le> length p \<Longrightarrow> slice p off n ! i = p ! (off + i)"
  by (simp add: slice_def)

lemma slice_put_same [simp]:
  "off + length bs \<le> length p \<Longrightarrow> n = length bs \<Longrightarrow> slice (put p off bs) off n = bs"
  by (simp add: slice_def put_def)

lemma slice_put_before [simp]:
  "a + n \<le> off \<Longrightarrow> off + length bs \<le> length p \<Longrightarrow> slice (put p off bs) a n = slice p a n"
  by (rule nth_equalityI) (auto simp: slice_def put_def nth_append)

lemma slice_put_after [simp]:
  assumes "off + length bs \<le> a" "off + length bs \<le> length p"
  shows "slice (put p off bs) a n = slice p a n"
  using assms by (simp add: slice_def put_def min_def)

lemma drop_put [simp]:
  assumes "off + length bs \<le> a" "off + length bs \<le> length p"
  shows "drop a (put p off bs) = drop a p"
  using assms by (simp add: put_def min_def)

lemma take_put [simp]: "a \<le> off \<Longrightarrow> off \<le> length p \<Longrightarrow> take a (put p off bs) = take a p"
  by (simp add: put_def min_def)

lemma slice_all: "n = length p \<Longrightarrow> slice p 0 n = p"
  by (simp add: slice_def)

lemma slice_slice [simp]: "b + m \<le> n \<Longrightarrow> slice (slice p a n) b m = slice p (a + b) m"
  by (simp add: slice_def drop_take min_def add.commute)

lemma drop_slice_split: "a + n \<le> length p \<Longrightarrow> drop a p = slice p a n @ drop (a + n) p"
  by (metis add.commute append_take_drop_id drop_drop slice_def)

section \<open>Little-endian words\<close>

definition le16 :: "u8 list \<Rightarrow> u16" where
  "le16 bs = ucast (bs ! 0) OR push_bit 8 (ucast (bs ! 1))"

definition le32 :: "u8 list \<Rightarrow> u32" where
  "le32 bs = ucast (bs ! 0) OR push_bit 8 (ucast (bs ! 1)) OR
     push_bit 16 (ucast (bs ! 2)) OR push_bit 24 (ucast (bs ! 3))"

definition bytes16 :: "u16 \<Rightarrow> u8 list" where
  "bytes16 w = [ucast w, ucast (drop_bit 8 w)]"

definition bytes32 :: "u32 \<Rightarrow> u8 list" where
  "bytes32 w = [ucast w, ucast (drop_bit 8 w), ucast (drop_bit 16 w), ucast (drop_bit 24 w)]"

lemma length_bytes16 [simp]: "length (bytes16 w) = 2"
  by (simp add: bytes16_def)

lemma length_bytes32 [simp]: "length (bytes32 w) = 4"
  by (simp add: bytes32_def)

lemma le16_bytes16 [simp]: "le16 (bytes16 w) = w"
  by (rule bit_word_eqI) (auto simp: le16_def bytes16_def bit_simps)

lemma le32_bytes32 [simp]: "le32 (bytes32 w) = w"
  by (rule bit_word_eqI) (auto simp: le32_def bytes32_def bit_simps not_less less_diff_conv2,
      metis le_add_diff_inverse not_less)

lemma bit_u8_high [simp]: "8 \<le> n \<Longrightarrow> \<not> bit (a :: u8) n"
  by (auto dest: bit_imp_le_length)

lemma bit_u16_high [simp]: "16 \<le> n \<Longrightarrow> \<not> bit (a :: u16) n"
  by (auto dest: bit_imp_le_length)

lemma bytes16_le16: "bytes16 (le16 [a, b]) = [a, b]"
  by (auto simp: le16_def bytes16_def bit_simps intro!: bit_word_eqI)

lemma bytes32_le32: "bytes32 (le32 [a, b, c, d]) = [a, b, c, d]"
  by (auto simp: le32_def bytes32_def bit_simps intro!: bit_word_eqI)

end
