(* ===== verification/Balancer_Consts.thy ===== *)
theory Balancer_Consts
  imports Prelude
begin

text \<open>
  The constants of \<open>src/katran/lib/bpf/balancer_consts.h\<close>, at the width the code uses them,
  with the default value of every overridable macro, the optional features as a record of
  build flags, the XDP action codes of \<open>bpf.h\<close> and the byte-order macros of
  \<open>bpf_endian.h\<close> for a little-endian target (the target the constants \<open>BE_ETH_P_IP\<close>,
  \<open>PCKT_FRAGMENTED\<close> and \<open>IPIP_V4_PREFIX\<close> are written for).
\<close>

section \<open>Ethernet, IP and fragment constants\<close>

definition BE_ETH_P_IP :: u16 where [simp]: "BE_ETH_P_IP = 8"

definition BE_ETH_P_IPV6 :: u16 where [simp]: "BE_ETH_P_IPV6 = 56710"

definition GUEV1_IPV6MASK :: u8 where [simp]: "GUEV1_IPV6MASK = 0x30"

definition PCKT_FRAGMENTED :: u16 where [simp]: "PCKT_FRAGMENTED = 65343"

definition IPV4_HDR_LEN_NO_OPT :: nat where [simp]: "IPV4_HDR_LEN_NO_OPT = 20"

text \<open>Protocol numbers of \<open>linux/in.h\<close> and ICMP types of \<open>linux/icmp.h\<close>, \<open>linux/icmpv6.h\<close>.\<close>

definition IPPROTO_ICMP :: u8 where [simp]: "IPPROTO_ICMP = 1"
definition IPPROTO_IPIP :: u8 where [simp]: "IPPROTO_IPIP = 4"
definition IPPROTO_TCP :: u8 where [simp]: "IPPROTO_TCP = 6"
definition IPPROTO_UDP :: u8 where [simp]: "IPPROTO_UDP = 17"
definition IPPROTO_IPV6 :: u8 where [simp]: "IPPROTO_IPV6 = 41"
definition IPPROTO_FRAGMENT :: u8 where [simp]: "IPPROTO_FRAGMENT = 44"
definition IPPROTO_ICMPV6 :: u8 where [simp]: "IPPROTO_ICMPV6 = 58"
definition ICMP_ECHOREPLY :: u8 where [simp]: "ICMP_ECHOREPLY = 0"
definition ICMP_DEST_UNREACH :: u8 where [simp]: "ICMP_DEST_UNREACH = 3"
definition ICMP_FRAG_NEEDED :: u8 where [simp]: "ICMP_FRAG_NEEDED = 4"
definition ICMP_ECHO :: u8 where [simp]: "ICMP_ECHO = 8"
definition ICMPV6_DEST_UNREACH :: u8 where [simp]: "ICMPV6_DEST_UNREACH = 1"
definition ICMPV6_PKT_TOOBIG :: u8 where [simp]: "ICMPV6_PKT_TOOBIG = 2"
definition ICMPV6_ECHO_REQUEST :: u8 where [simp]: "ICMPV6_ECHO_REQUEST = 128"
definition ICMPV6_ECHO_REPLY :: u8 where [simp]: "ICMPV6_ECHO_REPLY = 129"

text \<open>Header sizes in bytes.\<close>

definition sizeof_eth_hdr :: nat where [simp]: "sizeof_eth_hdr = 14"
definition sizeof_iphdr :: nat where [simp]: "sizeof_iphdr = 20"
definition sizeof_ipv6hdr :: nat where [simp]: "sizeof_ipv6hdr = 40"
definition sizeof_udphdr :: nat where [simp]: "sizeof_udphdr = 8"
definition sizeof_tcphdr :: nat where [simp]: "sizeof_tcphdr = 20"
definition sizeof_icmphdr :: nat where [simp]: "sizeof_icmphdr = 8"
definition sizeof_icmp6hdr :: nat where [simp]: "sizeof_icmp6hdr = 8"

section \<open>Map sizes\<close>

definition RING_SIZE :: u32 where [simp]: "RING_SIZE = 65537"

definition MAX_VIPS :: u32 where [simp]: "MAX_VIPS = 512"

definition MAX_REALS :: u32 where [simp]: "MAX_REALS = 4096"

definition MAX_QUIC_REALS :: u32 where [simp]: "MAX_QUIC_REALS = 65535"

definition CTL_MAP_SIZE :: u32 where [simp]: "CTL_MAP_SIZE = 16"

definition SUBPROGRAMS_ARRAY_SIZE :: u32 where [simp]: "SUBPROGRAMS_ARRAY_SIZE = 1"

definition RECIRCULATION_INDEX :: u32 where [simp]: "RECIRCULATION_INDEX = 0"

definition CH_RINGS_SIZE :: u32 where [simp]: "CH_RINGS_SIZE = MAX_VIPS * RING_SIZE"

definition STATS_MAP_SIZE :: u32 where [simp]: "STATS_MAP_SIZE = MAX_VIPS * 2"

definition MAX_SUPPORTED_CPUS :: u32 where [simp]: "MAX_SUPPORTED_CPUS = 128"

section \<open>Timeouts and flags\<close>

definition ONE_SEC :: u64 where [simp]: "ONE_SEC = 1000000000"

definition LRU_UDP_TIMEOUT :: u64 where [simp]: "LRU_UDP_TIMEOUT = 30000000000"

definition F_IPV6 :: u8 where [simp]: "F_IPV6 = 1"

definition F_HASH_NO_SRC_PORT :: u32 where [simp]: "F_HASH_NO_SRC_PORT = 1"

definition F_LRU_BYPASS :: u32 where [simp]: "F_LRU_BYPASS = 2"

definition F_QUIC_VIP :: u32 where [simp]: "F_QUIC_VIP = 4"

definition F_HASH_DPORT_ONLY :: u32 where [simp]: "F_HASH_DPORT_ONLY = 8"

definition F_SRC_ROUTING :: u32 where [simp]: "F_SRC_ROUTING = 16"

definition F_ICMP :: u8 where [simp]: "F_ICMP = 1"

definition F_SYN_SET :: u8 where [simp]: "F_SYN_SET = 2"

definition DEFAULT_TTL :: u8 where [simp]: "DEFAULT_TTL = 64"

section \<open>QUIC\<close>

definition QUIC_LONG_HEADER :: u8 where [simp]: "QUIC_LONG_HEADER = 0x80"

definition QUIC_HANDSHAKE :: u8 where [simp]: "QUIC_HANDSHAKE = 0x20"

definition QUIC_PACKET_TYPE_MASK :: u8 where [simp]: "QUIC_PACKET_TYPE_MASK = 0x30"

definition QUIC_VERSION_MVFST_OLD :: u32 where [simp]: "QUIC_VERSION_MVFST_OLD = 0xfaceb000"

definition QUIC_MIN_CONNID_LEN :: u8 where [simp]: "QUIC_MIN_CONNID_LEN = 8"

definition QUIC_CONNID_VERSION :: u8 where [simp]: "QUIC_CONNID_VERSION = 1"

section \<open>Packet sizes and counters\<close>

definition MAX_PCKT_SIZE :: nat where [simp]: "MAX_PCKT_SIZE = 1514"

definition ICMP_TOOBIG_SIZE :: nat where [simp]: "ICMP_TOOBIG_SIZE = 98"

definition ICMP6_TOOBIG_SIZE :: nat where [simp]: "ICMP6_TOOBIG_SIZE = 262"

definition ICMP6_TOOBIG_PAYLOAD_SIZE :: nat where
  [simp]: "ICMP6_TOOBIG_PAYLOAD_SIZE = ICMP6_TOOBIG_SIZE - 6"

definition ICMP_TOOBIG_PAYLOAD_SIZE :: nat where
  [simp]: "ICMP_TOOBIG_PAYLOAD_SIZE = ICMP_TOOBIG_SIZE - 6"

definition LRU_CNTRS :: u32 where [simp]: "LRU_CNTRS = 0"
definition LRU_MISS_CNTR :: u32 where [simp]: "LRU_MISS_CNTR = 1"
definition NEW_CONN_RATE_CNTR :: u32 where [simp]: "NEW_CONN_RATE_CNTR = 2"
definition FALLBACK_LRU_CNTR :: u32 where [simp]: "FALLBACK_LRU_CNTR = 3"
definition ICMP_TOOBIG_CNTRS :: u32 where [simp]: "ICMP_TOOBIG_CNTRS = 4"
definition LPM_SRC_CNTRS :: u32 where [simp]: "LPM_SRC_CNTRS = 5"
definition REMOTE_ENCAP_CNTRS :: u32 where [simp]: "REMOTE_ENCAP_CNTRS = 6"
definition QUIC_ROUTE_STATS :: u32 where [simp]: "QUIC_ROUTE_STATS = 7"
definition MAX_CONN_RATE :: u64 where [simp]: "MAX_CONN_RATE = 125000"

section \<open>Encapsulation\<close>

definition IPIP_V4_PREFIX :: u32 where [simp]: "IPIP_V4_PREFIX = 4268"

definition IPIP_V6_PREFIX1 :: u32 where [simp]: "IPIP_V6_PREFIX1 = 1"
definition IPIP_V6_PREFIX2 :: u32 where [simp]: "IPIP_V6_PREFIX2 = 0"
definition IPIP_V6_PREFIX3 :: u32 where [simp]: "IPIP_V6_PREFIX3 = 0"

definition DEFAULT_TOS :: u8 where [simp]: "DEFAULT_TOS = 0"

definition GUE_DPORT :: u16 where [simp]: "GUE_DPORT = 6080"

definition GUE_CSUM :: u16 where [simp]: "GUE_CSUM = 0"

definition INIT_JHASH_SEED :: u32 where [simp]: "INIT_JHASH_SEED = CH_RINGS_SIZE"

definition INIT_JHASH_SEED_V6 :: u32 where [simp]: "INIT_JHASH_SEED_V6 = MAX_VIPS"

definition V4_SRC_INDEX :: u32 where [simp]: "V4_SRC_INDEX = 0"

definition V6_SRC_INDEX :: u32 where [simp]: "V6_SRC_INDEX = 1"

section \<open>Build flags\<close>

text \<open>
  The \<open>-D\<close> switches of the build. \<open>ICMP_TOOBIG\<close> is the event number that
  \<open>REPORT_PACKET_TOOBIG\<close> passes on: \<open>introspection.h\<close> uses this name without defining it, so
  an introspection build has to supply it.
\<close>

record build_flags =
  ICMP_TOOBIG_GENERATION :: bool
  LPM_SRC_LOOKUP :: bool
  INLINE_DECAP :: bool
  INLINE_DECAP_IPIP :: bool
  INLINE_DECAP_GUE :: bool
  GUE_ENCAP :: bool
  KATRAN_INTROSPECTION :: bool
  ICMP_TOOBIG :: u32

definition resolve_flags :: "build_flags \<Rightarrow> build_flags" where
  "resolve_flags b =
     (let b = (if LPM_SRC_LOOKUP b \<and> \<not> INLINE_DECAP b \<and> \<not> INLINE_DECAP_GUE b
               then b\<lparr>INLINE_DECAP := True\<rparr> else b);
          b = (if INLINE_DECAP b then b\<lparr>INLINE_DECAP_IPIP := True\<rparr> else b)
      in b)"

text \<open>The default build: every optional feature off.\<close>

definition default_build :: build_flags where
  "default_build = \<lparr>ICMP_TOOBIG_GENERATION = False, LPM_SRC_LOOKUP = False, INLINE_DECAP = False,
     INLINE_DECAP_IPIP = False, INLINE_DECAP_GUE = False, GUE_ENCAP = False,
     KATRAN_INTROSPECTION = False, ICMP_TOOBIG = 0\<rparr>"

section \<open>Actions\<close>

datatype xdp_action = XDP_ABORTED | XDP_DROP | XDP_PASS | XDP_TX | XDP_REDIRECT

text \<open>
  The \<open>int action\<close> of the parsing helpers: an XDP action (not negative) or
  \<open>FURTHER_PROCESSING\<close> (-1).
\<close>

datatype step = Return xdp_action | FURTHER_PROCESSING

text \<open>
  How a program ends: with an action, or by asking for a jump into slot \<open>i\<close> of the program
  array \<open>katran_subprograms\<close>. A jump that succeeds never returns; the statement after one
  that fails is \<open>return XDP_PASS\<close>, so the request is the last thing a program does.
\<close>

datatype outcome = Finish xdp_action | Tail_call u32

section \<open>Byte order\<close>

definition bswap16 :: "u16 \<Rightarrow> u16" where
  "bswap16 x = push_bit 8 x OR drop_bit 8 x"

definition bswap32 :: "u32 \<Rightarrow> u32" where
  "bswap32 x = push_bit 24 x OR (push_bit 8 x AND 0xFF0000) OR (drop_bit 8 x AND 0xFF00) OR drop_bit 24 x"

definition bpf_htons :: "u16 \<Rightarrow> u16" where "bpf_htons x = bswap16 x"

definition bpf_ntohs :: "u16 \<Rightarrow> u16" where "bpf_ntohs x = bswap16 x"

definition bpf_htonl :: "u32 \<Rightarrow> u32" where "bpf_htonl x = bswap32 x"

lemma bswap16_bswap16 [simp]: "bswap16 (bswap16 x) = x"
  by (rule bit_word_eqI) (auto simp: bswap16_def bit_simps)

lemma bpf_ntohs_htons [simp]: "bpf_ntohs (bpf_htons x) = x"
  by (simp add: bpf_ntohs_def bpf_htons_def)

lemma resolve_flags_idem: "resolve_flags (resolve_flags b) = resolve_flags b"
  by (simp add: resolve_flags_def Let_def)

end
