(* ===== verification/Headers.thy ===== *)
theory Headers
  imports Balancer_Consts
begin

text \<open>
  The structs of \<open>balancer_structs.h\<close> and the packet headers the code overlays on packet
  memory. A union is the record of its widest member; the narrower members are projections
  (\<open>src\<close> is word 0 of \<open>srcv6\<close>, \<open>ports\<close> joins the two 16-bit ports).

  Each header has a decoder from its bytes and an encoder to them. Reading \<open>iph->field\<close> is
  loading and decoding the header at its offset, writing a field is loading, updating and
  storing it back. The round-trip lemmas make the two views interchangeable.
\<close>

section \<open>Structs of the balancer\<close>

text \<open>Sixteen bytes as the four words the code copies around (\<open>__be32 addr[4]\<close>).\<close>

record in6 =
  s6_0 :: u32
  s6_1 :: u32
  s6_2 :: u32
  s6_3 :: u32

definition in6_zero :: in6 where
  "in6_zero = \<lparr>s6_0 = 0, s6_1 = 0, s6_2 = 0, s6_3 = 0\<rparr>"

record flow_key =
  srcv6 :: in6
  dstv6 :: in6
  port16_0 :: u16
  port16_1 :: u16
  proto :: u8

definition flow_src :: "flow_key \<Rightarrow> u32" where "flow_src f = s6_0 (srcv6 f)"

definition flow_ports :: "flow_key \<Rightarrow> u32" where
  "flow_ports f = ucast (port16_0 f) OR push_bit 16 (ucast (port16_1 f))"

definition flow_zero :: flow_key where
  "flow_zero = \<lparr>srcv6 = in6_zero, dstv6 = in6_zero, port16_0 = 0, port16_1 = 0, proto = 0\<rparr>"

record packet_description =
  flow :: flow_key
  real_index :: u32
  pflags :: u8
  tos :: u8

definition packet_description_zero :: packet_description where
  "packet_description_zero = \<lparr>flow = flow_zero, real_index = 0, pflags = 0, tos = 0\<rparr>"

record ctl_value =
  ctl_u64 :: u64

definition ctl_mac :: "ctl_value \<Rightarrow> u8 list" where
  "ctl_mac c = map (\<lambda>i. ucast (drop_bit (8 * i) (ctl_u64 c))) [0..<6]"

record vip_definition =
  vipv6 :: in6
  vip_port :: u16
  vip_proto :: u8

record vip_meta =
  vip_flags :: u32
  vip_num :: u32

record real_pos_lru =
  pos :: u32
  atime :: u64

record real_definition =
  real_dstv6 :: in6
  real_flags :: u8

definition real_dst :: "real_definition \<Rightarrow> u32" where "real_dst r = s6_0 (real_dstv6 r)"

record lb_stats =
  v1 :: u64
  v2 :: u64

record v4_lpm_key =
  prefixlen4 :: u32
  addr4 :: u32

record v6_lpm_key =
  prefixlen6 :: u32
  addr6 :: in6

text \<open>\<open>struct address\<close> is its 16-byte member.\<close>

type_synonym address = in6

record event_metadata =
  md_event :: u32
  md_pkt_size :: u32
  md_data_len :: u32

section \<open>Packet headers\<close>

record iphdr =
  iph_version :: "4 word"
  iph_ihl :: "4 word"
  iph_tos :: u8
  iph_tot_len :: u16
  iph_id :: u16
  iph_frag_off :: u16
  iph_ttl :: u8
  iph_protocol :: u8
  iph_check :: u16
  iph_saddr :: u32
  iph_daddr :: u32

definition nibbles :: "4 word \<Rightarrow> 4 word \<Rightarrow> u8" where
  "nibbles hi lo = push_bit 4 (ucast hi) OR ucast lo"

definition dec_iphdr :: "u8 list \<Rightarrow> iphdr" where
  "dec_iphdr b = \<lparr>iph_version = ucast (drop_bit 4 (b ! 0)), iph_ihl = ucast (b ! 0),
     iph_tos = b ! 1, iph_tot_len = le16 (slice b 2 2), iph_id = le16 (slice b 4 2),
     iph_frag_off = le16 (slice b 6 2), iph_ttl = b ! 8, iph_protocol = b ! 9,
     iph_check = le16 (slice b 10 2), iph_saddr = le32 (slice b 12 4),
     iph_daddr = le32 (slice b 16 4)\<rparr>"

definition enc_iphdr :: "iphdr \<Rightarrow> u8 list" where
  "enc_iphdr h = [nibbles (iph_version h) (iph_ihl h), iph_tos h] @ bytes16 (iph_tot_len h) @
     bytes16 (iph_id h) @ bytes16 (iph_frag_off h) @ [iph_ttl h, iph_protocol h] @
     bytes16 (iph_check h) @ bytes32 (iph_saddr h) @ bytes32 (iph_daddr h)"

definition dec_in6 :: "u8 list \<Rightarrow> in6" where
  "dec_in6 b = \<lparr>s6_0 = le32 (slice b 0 4), s6_1 = le32 (slice b 4 4),
     s6_2 = le32 (slice b 8 4), s6_3 = le32 (slice b 12 4)\<rparr>"

definition enc_in6 :: "in6 \<Rightarrow> u8 list" where
  "enc_in6 a = bytes32 (s6_0 a) @ bytes32 (s6_1 a) @ bytes32 (s6_2 a) @ bytes32 (s6_3 a)"

record ipv6hdr =
  ip6_version :: "4 word"
  ip6_priority :: "4 word"
  ip6_flow_lbl0 :: u8
  ip6_flow_lbl1 :: u8
  ip6_flow_lbl2 :: u8
  ip6_payload_len :: u16
  ip6_nexthdr :: u8
  ip6_hop_limit :: u8
  ip6_saddr :: in6
  ip6_daddr :: in6

definition dec_ipv6hdr :: "u8 list \<Rightarrow> ipv6hdr" where
  "dec_ipv6hdr b = \<lparr>ip6_version = ucast (drop_bit 4 (b ! 0)), ip6_priority = ucast (b ! 0),
     ip6_flow_lbl0 = b ! 1, ip6_flow_lbl1 = b ! 2, ip6_flow_lbl2 = b ! 3,
     ip6_payload_len = le16 (slice b 4 2), ip6_nexthdr = b ! 6, ip6_hop_limit = b ! 7,
     ip6_saddr = dec_in6 (slice b 8 16), ip6_daddr = dec_in6 (slice b 24 16)\<rparr>"

definition enc_ipv6hdr :: "ipv6hdr \<Rightarrow> u8 list" where
  "enc_ipv6hdr h = [nibbles (ip6_version h) (ip6_priority h), ip6_flow_lbl0 h, ip6_flow_lbl1 h,
     ip6_flow_lbl2 h] @ bytes16 (ip6_payload_len h) @ [ip6_nexthdr h, ip6_hop_limit h] @
     enc_in6 (ip6_saddr h) @ enc_in6 (ip6_daddr h)"

record udphdr =
  udp_source :: u16
  udp_dest :: u16
  udp_len :: u16
  udp_check :: u16

definition dec_udphdr :: "u8 list \<Rightarrow> udphdr" where
  "dec_udphdr b = \<lparr>udp_source = le16 (slice b 0 2), udp_dest = le16 (slice b 2 2),
     udp_len = le16 (slice b 4 2), udp_check = le16 (slice b 6 2)\<rparr>"

definition enc_udphdr :: "udphdr \<Rightarrow> u8 list" where
  "enc_udphdr h = bytes16 (udp_source h) @ bytes16 (udp_dest h) @ bytes16 (udp_len h) @
     bytes16 (udp_check h)"

text \<open>The fields the code reads of \<open>struct tcphdr\<close>: both ports and the SYN bit.\<close>

record tcphdr =
  tcp_source :: u16
  tcp_dest :: u16
  tcp_syn :: bool

definition dec_tcphdr :: "u8 list \<Rightarrow> tcphdr" where
  "dec_tcphdr b = \<lparr>tcp_source = le16 (slice b 0 2), tcp_dest = le16 (slice b 2 2),
     tcp_syn = bit (b ! 13) 1\<rparr>"

text \<open>
  \<open>struct icmphdr\<close> and \<open>struct icmp6hdr\<close> share their layout: type, code, checksum and four
  bytes of message-dependent data (for \<^emph>\<open>fragmentation needed\<close> the last two are the MTU, for
  \<^emph>\<open>packet too big\<close> all four are).
\<close>

record icmphdr =
  icmp_type :: u8
  icmp_code :: u8
  icmp_checksum :: u16
  icmp_un0 :: u16
  icmp_un1 :: u16

definition dec_icmphdr :: "u8 list \<Rightarrow> icmphdr" where
  "dec_icmphdr b = \<lparr>icmp_type = b ! 0, icmp_code = b ! 1, icmp_checksum = le16 (slice b 2 2),
     icmp_un0 = le16 (slice b 4 2), icmp_un1 = le16 (slice b 6 2)\<rparr>"

definition enc_icmphdr :: "icmphdr \<Rightarrow> u8 list" where
  "enc_icmphdr h = [icmp_type h, icmp_code h] @ bytes16 (icmp_checksum h) @
     bytes16 (icmp_un0 h) @ bytes16 (icmp_un1 h)"

section \<open>Typed loads and stores\<close>

definition ld8 :: "packet \<Rightarrow> nat \<Rightarrow> u8 option" where
  "ld8 p off = map_option (\<lambda>b. b ! 0) (ldn p off 1)"

definition ld16 :: "packet \<Rightarrow> nat \<Rightarrow> u16 option" where
  "ld16 p off = map_option le16 (ldn p off 2)"

definition st16 :: "packet \<Rightarrow> nat \<Rightarrow> u16 \<Rightarrow> packet option" where
  "st16 p off v = stn p off (bytes16 v)"

definition ld_iphdr :: "packet \<Rightarrow> nat \<Rightarrow> iphdr option" where
  "ld_iphdr p off = map_option dec_iphdr (ldn p off sizeof_iphdr)"

definition st_iphdr :: "packet \<Rightarrow> nat \<Rightarrow> iphdr \<Rightarrow> packet option" where
  "st_iphdr p off h = stn p off (enc_iphdr h)"

definition ld_ipv6hdr :: "packet \<Rightarrow> nat \<Rightarrow> ipv6hdr option" where
  "ld_ipv6hdr p off = map_option dec_ipv6hdr (ldn p off sizeof_ipv6hdr)"

definition st_ipv6hdr :: "packet \<Rightarrow> nat \<Rightarrow> ipv6hdr \<Rightarrow> packet option" where
  "st_ipv6hdr p off h = stn p off (enc_ipv6hdr h)"

definition ld_udphdr :: "packet \<Rightarrow> nat \<Rightarrow> udphdr option" where
  "ld_udphdr p off = map_option dec_udphdr (ldn p off sizeof_udphdr)"

definition st_udphdr :: "packet \<Rightarrow> nat \<Rightarrow> udphdr \<Rightarrow> packet option" where
  "st_udphdr p off h = stn p off (enc_udphdr h)"

definition ld_tcphdr :: "packet \<Rightarrow> nat \<Rightarrow> tcphdr option" where
  "ld_tcphdr p off = map_option dec_tcphdr (ldn p off sizeof_tcphdr)"

definition ld_icmphdr :: "packet \<Rightarrow> nat \<Rightarrow> icmphdr option" where
  "ld_icmphdr p off = map_option dec_icmphdr (ldn p off sizeof_icmphdr)"

definition st_icmphdr :: "packet \<Rightarrow> nat \<Rightarrow> icmphdr \<Rightarrow> packet option" where
  "st_icmphdr p off h = stn p off (enc_icmphdr h)"

section \<open>Encoder lengths and round trips\<close>

lemma length_enc [simp]:
  "length (enc_iphdr h) = 20" "length (enc_in6 a) = 16" "length (enc_ipv6hdr h6) = 40"
  "length (enc_udphdr u) = 8" "length (enc_icmphdr i) = 8"
  by (simp_all add: enc_iphdr_def enc_in6_def enc_ipv6hdr_def enc_udphdr_def enc_icmphdr_def)

lemma nibbles_hi [simp]: "ucast (drop_bit 4 (nibbles hi lo)) = hi"
  by (rule bit_word_eqI) (auto simp: nibbles_def bit_simps dest: bit_imp_le_length)

lemma nibbles_lo [simp]: "ucast (nibbles hi lo) = lo"
  by (rule bit_word_eqI) (auto simp: nibbles_def bit_simps)

lemma nibbles_join [simp]: "nibbles (ucast (drop_bit 4 b)) (ucast b) = b"
  by (rule bit_word_eqI) (auto simp: nibbles_def bit_simps)

lemma slice_append [simp]:
  "n \<le> length xs \<Longrightarrow> slice (xs @ ys) 0 n = take n xs"
  "length xs \<le> off \<Longrightarrow> slice (xs @ ys) off n = slice ys (off - length xs) n"
  by (simp_all add: slice_def)

lemma slice_Cons [simp]:
  "slice (x # xs) (numeral k) n = slice xs (numeral k - 1) n"
  "slice (x # xs) (Suc m) n = slice xs m n"
  by (simp_all add: slice_def drop_Cons')

lemma slice_0 [simp]: "slice xs 0 n = take n xs"
  by (simp add: slice_def)

lemma dec_enc_in6 [simp]: "dec_in6 (enc_in6 a) = a"
  by (simp add: dec_in6_def enc_in6_def)

lemma dec_enc_iphdr [simp]: "dec_iphdr (enc_iphdr h) = h"
  by (simp add: dec_iphdr_def enc_iphdr_def nth_append)

lemma dec_enc_ipv6hdr [simp]: "dec_ipv6hdr (enc_ipv6hdr h) = h"
  by (simp add: dec_ipv6hdr_def enc_ipv6hdr_def nth_append)

lemma list_of_length_20:
  assumes "length b = 20"
  obtains b0 b1 b2 b3 b4 b5 b6 b7 b8 b9 b10 b11 b12 b13 b14 b15 b16 b17 b18 b19
  where "b = [b0, b1, b2, b3, b4, b5, b6, b7, b8, b9, b10, b11, b12, b13, b14, b15, b16, b17, b18, b19]"
  using assms by (auto simp: numeral_eq_Suc length_Suc_conv)

lemma enc_dec_iphdr: "length b = 20 \<Longrightarrow> enc_iphdr (dec_iphdr b) = b"
  by (erule list_of_length_20) (simp add: dec_iphdr_def enc_iphdr_def bytes16_le16 bytes32_le32)

lemma dec_enc_udphdr [simp]: "dec_udphdr (enc_udphdr h) = h"
  by (simp add: dec_udphdr_def enc_udphdr_def)

lemma dec_enc_icmphdr [simp]: "dec_icmphdr (enc_icmphdr h) = h"
  by (simp add: dec_icmphdr_def enc_icmphdr_def)

end
