(* ===== verification/Csum.thy ===== *)
theory Csum
  imports Headers
begin

text \<open>
  The checksum helpers of \<open>src/katran/lib/bpf/csum_helpers.h\<close> and what they compute: the
  16-bit one's complement sum of RFC 1071. \<open>words16\<close> reads a byte buffer as the little-endian
  words the C loop runs over. The kernel helper \<open>bpf_csum_diff(0, 0, to, size, seed)\<close> is the
  parameter \<open>D\<close>; \<open>csum_diff_ok\<close> states its documented behaviour.
\<close>

section \<open>Definitions\<close>

fun words16 :: "u8 list \<Rightarrow> u16 list" where
  "words16 (a # b # bs) = le16 [a, b] # words16 bs"
| "words16 bs = []"

definition csum_fold_step :: "u64 \<Rightarrow> u64" where
  "csum_fold_step csum = (if drop_bit 16 csum \<noteq> 0 then (csum AND 0xffff) + drop_bit 16 csum else csum)"

definition csum_fold_helper :: "u64 \<Rightarrow> u16" where
  "csum_fold_helper csum = ucast (NOT ((csum_fold_step ^^ 4) csum))"

definition min_helper :: "int \<Rightarrow> int \<Rightarrow> int" where
  "min_helper a b = (if a < b then a else b)"

definition ipv4_csum :: "(u8 list \<Rightarrow> u32 \<Rightarrow> u64) \<Rightarrow> u8 list \<Rightarrow> u64 \<Rightarrow> u64" where
  "ipv4_csum D dat csum = ucast (csum_fold_helper (D dat (ucast csum)))"

definition ipv4_csum_inline :: "iphdr \<Rightarrow> u64 \<Rightarrow> u64" where
  "ipv4_csum_inline iph csum =
     ucast (csum_fold_helper (foldl (\<lambda>c w. c + ucast w) csum (words16 (enc_iphdr iph))))"

definition ipv4_l4_csum :: "(u8 list \<Rightarrow> u32 \<Rightarrow> u64) \<Rightarrow> u8 list \<Rightarrow> u32 \<Rightarrow> u64 \<Rightarrow> iphdr \<Rightarrow> u64" where
  "ipv4_l4_csum D dat data_size csum iph =
     (let csum = D (bytes32 (iph_saddr iph)) (ucast csum);
          csum = D (bytes32 (iph_daddr iph)) (ucast csum);
          csum = D (bytes32 (bswap32 (ucast (iph_protocol iph)))) (ucast csum);
          csum = D (bytes32 (bswap32 data_size)) (ucast csum);
          csum = D dat (ucast csum)
      in ucast (csum_fold_helper csum))"

definition ipv6_csum :: "(u8 list \<Rightarrow> u32 \<Rightarrow> u64) \<Rightarrow> u8 list \<Rightarrow> u32 \<Rightarrow> u64 \<Rightarrow> ipv6hdr \<Rightarrow> u64" where
  "ipv6_csum D dat data_size csum ip6h =
     (let csum = D (enc_in6 (ip6_saddr ip6h)) (ucast csum);
          csum = D (enc_in6 (ip6_daddr ip6h)) (ucast csum);
          csum = D (bytes32 (bswap32 data_size)) (ucast csum);
          csum = D (bytes32 (bswap32 (ucast (ip6_nexthdr ip6h)))) (ucast csum);
          csum = D dat (ucast csum)
      in ucast (csum_fold_helper csum))"

section \<open>Specification\<close>

text \<open>
  The sum of the words, and when a receiver accepts it: its one's complement sum is all ones,
  that is, the sum is a positive multiple of 65535.
\<close>

definition wsum :: "u8 list \<Rightarrow> nat" where
  "wsum bs = sum_list (map unat (words16 bs))"

definition csum_valid :: "nat \<Rightarrow> bool" where
  "csum_valid s \<longleftrightarrow> s \<noteq> 0 \<and> s mod 65535 = 0"

definition csum_diff_ok :: "(u8 list \<Rightarrow> u32 \<Rightarrow> u64) \<Rightarrow> bool" where
  "csum_diff_ok D \<longleftrightarrow> (\<forall>bs s. length bs mod 4 = 0 \<longrightarrow>
     unat (D bs s) < 2 ^ 32 \<and>
     unat (D bs s) mod 65535 = (wsum bs + unat s) mod 65535 \<and>
     (D bs s = 0 \<longleftrightarrow> wsum bs = 0 \<and> s = 0))"

text \<open>A helper that satisfies it.\<close>

definition ref_csum_diff :: "u8 list \<Rightarrow> u32 \<Rightarrow> u64" where
  "ref_csum_diff bs s = (let t = wsum bs + unat s in of_nat (if t = 0 then 0 else (t - 1) mod 65535 + 1))"

section \<open>The folding loop\<close>

lemma unat_drop_bit_16: "unat (drop_bit 16 (c :: u64)) = unat c div 65536"
proof -
  have "unat (drop_bit 16 c) = drop_bit 16 (unat c)" by (rule unat_drop_bit_eq)
  also have "\<dots> = unat c div 2 ^ 16" by (rule drop_bit_eq_div)
  finally show ?thesis by simp
qed

lemma unat_and_ffff: "unat ((c :: u64) AND 0xffff) = unat c mod 65536"
proof -
  have "(0xffff :: u64) = mask 16" by (simp add: mask_eq_exp_minus_1)
  then have "c AND 0xffff = take_bit 16 c" by (simp only: take_bit_eq_mask)
  then have "unat (c AND 0xffff) = take_bit 16 (unat c)"
    by (simp only: unsigned_take_bit_eq)
  then show ?thesis by (simp add: take_bit_eq_mod)
qed

lemma unat_fold_step:
  "unat (csum_fold_step c) = (if unat c div 65536 = 0 then unat c else unat c mod 65536 + unat c div 65536)"
proof -
  have hi: "unat (drop_bit 16 c) = unat c div 65536"
    by (rule unat_drop_bit_16)
  have lo: "unat (c AND 0xffff) = unat c mod 65536"
    by (rule unat_and_ffff)
  have bound: "unat c mod 65536 + unat c div 65536 < 2 ^ 64"
    using unsigned_less [of c, where ?'a = nat] by simp
  have "unat ((c AND 0xffff) + drop_bit 16 c) = unat c mod 65536 + unat c div 65536"
    using bound by (simp only: unat_word_ariths hi lo) simp
  moreover have "drop_bit 16 c \<noteq> 0 \<longleftrightarrow> unat c div 65536 \<noteq> 0"
    by (metis hi unat_eq_0)
  ultimately show ?thesis by (simp add: csum_fold_step_def)
qed

text \<open>One round of the loop on natural numbers.\<close>

definition nfold :: "nat \<Rightarrow> nat" where
  "nfold n = (if n div 65536 = 0 then n else n mod 65536 + n div 65536)"

lemma nfold_cong: "nfold n mod 65535 = n mod 65535"
proof -
  define q r where "q = n div 65536" and "r = n mod 65536"
  have n: "n = (r + q) + 65535 * q"
    by (simp add: q_def r_def)
  have "((r + q) + 65535 * q) mod 65535 = (r + q) mod 65535"
    by (rule mod_mult_self2)
  then show ?thesis
    unfolding nfold_def q_def [symmetric] r_def [symmetric] using n by auto
qed

lemma nfold_zero: "nfold n = 0 \<longleftrightarrow> n = 0"
  by (auto simp: nfold_def)

lemma nfold_bound:
  assumes "n \<le> 65536 * m + 65534" "1 \<le> m"
  shows "nfold n \<le> m + 65534"
proof -
  define q r where "q = n div 65536" and "r = n mod 65536"
  have n: "n = 65536 * q + r" and r: "r < 65536"
    by (simp_all add: q_def r_def)
  have "q + r \<le> m + 65534"
    using assms n r by (cases "q < m") auto
  moreover have "q = 0 \<Longrightarrow> n \<le> 65535" using n r by simp
  ultimately show ?thesis
    using assms(2) unfolding nfold_def q_def [symmetric] r_def [symmetric] by auto
qed

lemma nfold4_small:
  assumes "n < 2 ^ 64"
  shows "(nfold ^^ 4) n < 65536"
proof -
  have "nfold n \<le> 2 ^ 48 + 65534"
    by (rule nfold_bound) (use assms in auto)
  then have "nfold (nfold n) \<le> 2 ^ 32 + 65534"
    by - (rule nfold_bound, auto)
  then have "nfold (nfold (nfold n)) \<le> 2 ^ 16 + 65534"
    by - (rule nfold_bound, auto)
  then have "nfold (nfold (nfold (nfold n))) \<le> 1 + 65534"
    by - (rule nfold_bound, auto)
  moreover have "(nfold ^^ 4) n = nfold (nfold (nfold (nfold n)))"
    by (simp add: numeral_eq_Suc)
  ultimately show ?thesis by simp
qed
lemma unat_fold_steps: "unat ((csum_fold_step ^^ k) c) = (nfold ^^ k) (unat c)"
  by (induction k) (simp_all add: unat_fold_step nfold_def)

lemma nfolds_cong: "(nfold ^^ k) n mod 65535 = n mod 65535"
  by (induction k) (simp_all add: nfold_cong)

lemma nfolds_zero: "(nfold ^^ k) n = 0 \<longleftrightarrow> n = 0"
  by (induction k) (simp_all add: nfold_zero)

lemma unat_not_u16: "unat (NOT (x :: u16)) = 65535 - unat x"
proof -
  have "NOT x = - 1 - x" by (simp add: not_eq_complement)
  moreover have "x \<le> - 1" by simp
  ultimately have "unat (NOT x) = unat (- 1 :: u16) - unat x" by (metis unat_sub)
  then show ?thesis by (simp add: unsigned_minus_1_eq_mask mask_eq_exp_minus_1)
qed

lemma unat_csum_fold_helper: "unat (csum_fold_helper c) = 65535 - (nfold ^^ 4) (unat c)"
proof -
  let ?w = "(csum_fold_step ^^ 4) c"
  have small: "unat ?w < 65536"
    unfolding unat_fold_steps by (rule nfold4_small) (use unsigned_less [of c, where ?'a = nat] in simp)
  have "(ucast (NOT ?w) :: u16) = NOT (ucast ?w)"
    by (rule bit_word_eqI) (simp add: bit_simps)
  moreover have "unat (ucast ?w :: u16) = unat ?w"
    using small by (simp add: unsigned_ucast_eq take_bit_eq_mod)
  ultimately show ?thesis
    by (simp add: csum_fold_helper_def unat_not_u16 unat_fold_steps)
qed

text \<open>Adding the folded complement to the sum completes it.\<close>

lemma csum_completes: "csum_valid (unat c + unat (csum_fold_helper c))"
proof -
  define f where "f = (nfold ^^ 4) (unat c)"
  have le: "f \<le> 65535"
    using nfold4_small [of "unat c"] unsigned_less [of c, where ?'a = nat] by (simp add: f_def)
  have z: "f = 0 \<longleftrightarrow> unat c = 0" by (simp only: f_def nfolds_zero)
  have "(unat c + (65535 - f)) mod 65535 = (f + (65535 - f)) mod 65535"
    by (rule mod_add_cong) (simp_all add: f_def nfolds_cong)
  then show ?thesis
    using le z by (auto simp: csum_valid_def unat_csum_fold_helper f_def [symmetric])
qed

text \<open>The receiver's test: folding the whole sum gives zero exactly on valid sums.\<close>

lemma csum_fold_zero_iff: "csum_fold_helper c = 0 \<longleftrightarrow> csum_valid (unat c)"
proof -
  define f where "f = (nfold ^^ 4) (unat c)"
  have le: "f \<le> 65535"
    using nfold4_small [of "unat c"] unsigned_less [of c, where ?'a = nat] by (simp add: f_def)
  have z: "f = 0 \<longleftrightarrow> unat c = 0" by (simp only: f_def nfolds_zero)
  have m: "f mod 65535 = unat c mod 65535" by (simp only: f_def nfolds_cong)
  have "csum_fold_helper c = 0 \<longleftrightarrow> unat (csum_fold_helper c) = 0" by (simp add: unat_eq_0)
  also have "\<dots> \<longleftrightarrow> f = 65535" using le by (auto simp: unat_csum_fold_helper f_def)
  also have "\<dots> \<longleftrightarrow> f \<noteq> 0 \<and> f mod 65535 = 0" using le by (auto simp: mod_eq_0_iff_dvd dest: dvd_imp_le)
  also have "\<dots> \<longleftrightarrow> csum_valid (unat c)" unfolding csum_valid_def m z by simp
  finally show ?thesis .
qed

section \<open>Sums of buffers\<close>

lemma words16_append: "even (length xs) \<Longrightarrow> words16 (xs @ ys) = words16 xs @ words16 ys"
  by (induction xs rule: words16.induct) simp_all

lemma wsum_append: "even (length xs) \<Longrightarrow> wsum (xs @ ys) = wsum xs + wsum ys"
  by (simp add: wsum_def words16_append)

lemma wsum_bytes16 [simp]: "wsum (bytes16 w) = unat w"
  using le16_bytes16 [of w] by (simp add: wsum_def bytes16_def)

lemma wsum_pair: "wsum [a, b] = unat (le16 [a, b])"
  by (simp add: wsum_def)

lemma wsum_bound: "wsum bs \<le> 65535 * (length bs div 2)"
proof (induction bs rule: words16.induct)
  case (1 a b bs)
  have "unat (le16 [a, b]) \<le> 65535"
    using unsigned_less [of "le16 [a, b]", where ?'a = nat] by simp
  with 1 show ?case by (simp add: wsum_def)
qed (simp_all add: wsum_def)

lemma unat_foldl_words:
  assumes "unat c + sum_list (map unat ws) < 2 ^ 64"
  shows "unat (foldl (\<lambda>c w. c + ucast w) c (ws :: u16 list) :: u64) = unat c + sum_list (map unat ws)"
  using assms
proof (induction ws arbitrary: c)
  case (Cons w ws)
  have w: "unat (ucast w :: u64) = unat w"
    by (simp add: unsigned_ucast_eq take_bit_nat_eq_self_iff)
      (rule order.strict_trans, rule unsigned_less, simp)
  have "unat (c + ucast w) = unat c + unat w"
    using Cons.prems by (simp add: unat_word_ariths w)
  with Cons show ?case by simp
qed simp

section \<open>The helpers complete a sum\<close>

lemma enc_iphdr_check_split:
  "wsum (enc_iphdr h) = wsum (enc_iphdr (h\<lparr>iph_check := 0\<rparr>)) + unat (iph_check h)"
proof -
  let ?pre = "[nibbles (iph_version h) (iph_ihl h), iph_tos h] @ bytes16 (iph_tot_len h) @
     bytes16 (iph_id h) @ bytes16 (iph_frag_off h) @ [iph_ttl h, iph_protocol h]"
  let ?post = "bytes32 (iph_saddr h) @ bytes32 (iph_daddr h)"
  have "enc_iphdr (h\<lparr>iph_check := c\<rparr>) = ?pre @ bytes16 c @ ?post" for c
    by (simp add: enc_iphdr_def)
  then have "wsum (enc_iphdr (h\<lparr>iph_check := c\<rparr>)) = wsum ?pre + unat c + wsum ?post" for c
    by (simp add: wsum_append [of ?pre] wsum_append [of "bytes16 c"] del: append.simps append_assoc)
  from this [of "iph_check h"] this [of 0] show ?thesis by simp
qed

lemma ipv4_csum_inline_valid:
  assumes "iph_check h = 0"
  shows "csum_valid (wsum (enc_iphdr (h\<lparr>iph_check := ucast (ipv4_csum_inline h 0)\<rparr>)))"
proof -
  let ?S = "foldl (\<lambda>c w. c + ucast w) 0 (words16 (enc_iphdr h)) :: u64"
  have "wsum (enc_iphdr h) < 2 ^ 64"
    using wsum_bound [of "enc_iphdr h"] by simp
  then have S: "unat ?S = wsum (enc_iphdr h)"
    by (subst unat_foldl_words) (simp_all add: wsum_def)
  have same: "enc_iphdr (h\<lparr>iph_check := 0\<rparr>) = enc_iphdr h"
    by (simp add: enc_iphdr_def assms)
  have "(ucast (ucast (csum_fold_helper ?S) :: u64) :: u16) = csum_fold_helper ?S"
    by (rule bit_word_eqI) (simp add: bit_simps)
  then have "wsum (enc_iphdr (h\<lparr>iph_check := ucast (ipv4_csum_inline h 0)\<rparr>)) =
      wsum (enc_iphdr h) + unat (csum_fold_helper ?S)"
    by (subst enc_iphdr_check_split) (simp add: ipv4_csum_inline_def same)
  then show ?thesis using csum_completes [of ?S] S by simp
qed

text \<open>\<open>csum_acc r n\<close>: the 64-bit accumulator \<open>r\<close> holds the sum \<open>n\<close> up to multiples of 65535.\<close>

definition csum_acc :: "u64 \<Rightarrow> nat \<Rightarrow> bool" where
  "csum_acc r n \<longleftrightarrow> unat r < 2 ^ 32 \<and> unat r mod 65535 = n mod 65535 \<and> (r = 0 \<longleftrightarrow> n = 0)"

lemma csum_acc_0: "csum_acc 0 0"
  by (simp add: csum_acc_def)

lemma csum_acc_step:
  assumes D: "csum_diff_ok D" and acc: "csum_acc r n" and len: "length bs mod 4 = 0"
  shows "csum_acc (D bs (ucast r)) (n + wsum bs)"
proof -
  have r: "unat (ucast r :: u32) = unat r"
    using acc by (simp add: csum_acc_def unsigned_ucast_eq take_bit_nat_eq_self_iff)
  then have z: "(ucast r :: u32) = 0 \<longleftrightarrow> r = 0" by (metis unat_eq_0)
  have "(wsum bs + unat r) mod 65535 = (n + wsum bs) mod 65535"
    using acc unfolding csum_acc_def by (metis add.commute mod_add_left_eq)
  then show ?thesis
    using D acc len unfolding csum_acc_def csum_diff_ok_def by (auto simp: r z)
qed

lemma csum_acc_valid:
  assumes "csum_acc r n"
  shows "csum_valid (n + unat (csum_fold_helper r))"
proof -
  have v: "csum_valid (unat r + unat (csum_fold_helper r))" by (rule csum_completes)
  have "(n + unat (csum_fold_helper r)) mod 65535 = (unat r + unat (csum_fold_helper r)) mod 65535"
    using assms unfolding csum_acc_def by (metis mod_add_left_eq)
  moreover have "n = 0 \<longleftrightarrow> unat r = 0" using assms by (simp add: csum_acc_def unat_eq_0)
  ultimately show ?thesis using v unfolding csum_valid_def by (metis add_is_0)
qed

lemma ucast_ucast_u16 [simp]: "(ucast (ucast (w :: u16) :: u64) :: u16) = w"
  by (rule bit_word_eqI) (simp add: bit_simps)

lemma ipv4_csum_valid:
  assumes "csum_diff_ok D" "length dat mod 4 = 0"
  shows "csum_valid (wsum dat + unat (ucast (ipv4_csum D dat 0) :: u16))"
  using csum_acc_valid [OF csum_acc_step [OF assms(1) csum_acc_0 assms(2)]]
  by (simp add: ipv4_csum_def)

definition pseudo_sum6 :: "ipv6hdr \<Rightarrow> u32 \<Rightarrow> nat" where
  "pseudo_sum6 h n = wsum (enc_in6 (ip6_saddr h)) + wsum (enc_in6 (ip6_daddr h)) +
     wsum (bytes32 (bswap32 n)) + wsum (bytes32 (bswap32 (ucast (ip6_nexthdr h))))"

lemma ipv6_csum_valid:
  assumes D: "csum_diff_ok D" and len: "length dat mod 4 = 0"
  shows "csum_valid (pseudo_sum6 h n + wsum dat + unat (ucast (ipv6_csum D dat n 0 h) :: u16))"
proof -
  note step = csum_acc_step [OF D]
  have a1: "csum_acc (D (enc_in6 (ip6_saddr h)) (ucast (0 :: u64))) (0 + wsum (enc_in6 (ip6_saddr h)))"
    by (rule step [OF csum_acc_0]) simp
  note a2 = step [OF a1, of "enc_in6 (ip6_daddr h)", simplified]
  note a3 = step [OF a2, of "bytes32 (bswap32 n)", simplified]
  note a4 = step [OF a3, of "bytes32 (bswap32 (ucast (ip6_nexthdr h)))", simplified]
  note a5 = csum_acc_valid [OF step [OF a4 len]]
  show ?thesis using a5 by (simp add: ipv6_csum_def Let_def pseudo_sum6_def add.assoc)
qed

lemma ref_csum_diff_ok: "csum_diff_ok ref_csum_diff"
proof -
  have "unat (ref_csum_diff bs s) < 2 ^ 32 \<and>
     unat (ref_csum_diff bs s) mod 65535 = (wsum bs + unat s) mod 65535 \<and>
     (ref_csum_diff bs s = 0 \<longleftrightarrow> wsum bs = 0 \<and> s = 0)" for bs s
  proof -
    define t where "t = wsum bs + unat s"
    define u where "u = (if t = 0 then 0 else (t - 1) mod 65535 + 1)"
    have "(t - 1) mod 65535 < 65535" by simp
    then have u: "u \<le> 65535" unfolding u_def by (simp only: split: if_split) linarith
    have un: "unat (of_nat u :: u64) = u"
      using u by (simp add: unat_of_nat take_bit_nat_eq_self_iff)
    have "u mod 65535 = t mod 65535"
    proof (cases "t = 0")
      case False
      then have "u mod 65535 = ((t - 1) mod 65535 + 1) mod 65535" by (simp only: u_def if_False)
      also have "\<dots> = (t - 1 + 1) mod 65535" by (rule mod_add_left_eq)
      finally show ?thesis using False by simp
    qed (simp add: u_def)
    moreover have "(of_nat u :: u64) = 0 \<longleftrightarrow> t = 0"
      unfolding unat_eq_0 [symmetric] un by (simp add: u_def)
    ultimately show ?thesis
      using u un by (simp add: ref_csum_diff_def Let_def t_def [symmetric] u_def [symmetric])
        (auto simp: t_def unat_eq_0)
  qed
  then show ?thesis by (simp add: csum_diff_ok_def)
qed

section \<open>The sum of an IPv4 header, field by field\<close>

lemma unat_u8_lt: "unat (a :: u8) < 256"
  using unsigned_less [of a, where ?'a = nat] by simp

lemma unat_ucast_u8: "unat (ucast (a :: u8) :: u16) = unat a"
  using unat_u8_lt [of a] by (simp add: unsigned_ucast_eq take_bit_nat_eq_self)

lemma unat_le16: "unat (le16 [a, b]) = unat a + 256 * unat b"
proof -
  have "ucast a + push_bit 8 (ucast b) = (ucast a OR push_bit 8 (ucast b) :: u16)"
    by (rule disjunctive_add) (auto simp: bit_simps)
  then have "le16 [a, b] = ucast a + ucast b * 256" by (simp add: le16_def push_bit_eq_mult)
  then show ?thesis
    using unat_u8_lt [of a] unat_u8_lt [of b] by (simp add: unat_word_ariths unat_ucast_u8)
qed

lemma wsum_enc_iphdr: "wsum (enc_iphdr h) = unat (nibbles (iph_version h) (iph_ihl h)) + 256 * unat (iph_tos h) +
   unat (iph_tot_len h) + unat (iph_id h) + unat (iph_frag_off h) + unat (iph_ttl h) +
   256 * unat (iph_protocol h) + unat (iph_check h) + wsum (bytes32 (iph_saddr h)) + wsum (bytes32 (iph_daddr h))"
proof -
  have "wsum ([a, b] @ xs) = unat a + 256 * unat b + wsum xs" for a b xs
    by (subst wsum_append) (simp_all add: wsum_pair unat_le16)
  then have c: "wsum (a # b # xs) = unat a + 256 * unat b + wsum xs" for a b xs by simp
  show ?thesis by (simp add: enc_iphdr_def c wsum_append)
qed

end
