(* ===== verification/Bpf_State.thy ===== *)
theory Bpf_State
  imports Headers Csum
begin

text \<open>
  The state an XDP program of katran works on and the kernel it calls.

  \<^item> \<open>bpf_state\<close>: the packet, the BPF maps declared in \<open>balancer_maps.h\<close> and
    \<open>control_data_maps.h\<close> as partial functions (\<open>bpf_map_lookup_elem\<close> is application, a
    \<open>NULL\<close> result is \<open>None\<close>, a write through the returned pointer is an update of the entry;
    a per-CPU array is the slice of the CPU that runs the program), the events sent to
    \<open>event_pipe\<close> and the number of clock readings so far.
  \<^item> \<open>bpf_helpers\<close>: the kernel helpers whose code is not part of the repository, as
    parameters: moving the packet ends, the checksum helper, the clock (its \<open>n\<close>-th reading),
    the CPU number, the update of an LRU map (which may evict), and longest-prefix lookup.
  \<^item> the documented behaviour some theorems rely on: \<open>adjust_head_ok\<close>, \<open>adjust_tail_ok\<close>,
    \<open>lru_update_ok\<close>, and the sizes of the array maps \<open>arrays_ok\<close>.
\<close>

type_synonym lru_map = "flow_key \<rightharpoonup> real_pos_lru"

record bpf_helpers =
  xdp_adjust_head :: "packet \<Rightarrow> int \<Rightarrow> packet option"
  xdp_adjust_tail :: "packet \<Rightarrow> int \<Rightarrow> packet option"
  csum_diff :: "u8 list \<Rightarrow> u32 \<Rightarrow> u64"
  ktime_get_ns :: "nat \<Rightarrow> u64"
  smp_processor_id :: u32
  lru_update :: "lru_map \<Rightarrow> flow_key \<Rightarrow> real_pos_lru \<Rightarrow> lru_map"
  lpm_lookup_v4 :: "(v4_lpm_key \<rightharpoonup> u32) \<Rightarrow> v4_lpm_key \<Rightarrow> u32 option"
  lpm_lookup_v6 :: "(v6_lpm_key \<rightharpoonup> u32) \<Rightarrow> v6_lpm_key \<Rightarrow> u32 option"

record bpf_event =
  ev_meta :: event_metadata
  ev_data :: "u8 list"

record bpf_state =
  pkt :: packet
  clock_reads :: nat
  event_pipe :: "bpf_event list"
  vip_map :: "vip_definition \<rightharpoonup> vip_meta"
  lru_maps_mapping :: "u32 \<rightharpoonup> lru_map"
  fallback_lru_cache :: lru_map
  ch_rings :: "u32 \<rightharpoonup> u32"
  reals :: "u32 \<rightharpoonup> real_definition"
  reals_stats :: "u32 \<rightharpoonup> lb_stats"
  stats :: "u32 \<rightharpoonup> lb_stats"
  quic_mapping :: "u32 \<rightharpoonup> u32"
  lpm_src_v4 :: "v4_lpm_key \<rightharpoonup> u32"
  lpm_src_v6 :: "v6_lpm_key \<rightharpoonup> u32"
  ctl_array :: "u32 \<rightharpoonup> ctl_value"
  decap_dst :: "address \<rightharpoonup> u32"
  pckt_srcs :: "u32 \<rightharpoonup> real_definition"

section \<open>Documented behaviour of the kernel\<close>

text \<open>
  \<open>bpf_xdp_adjust_head\<close> moves the start of the packet: a negative delta prepends that many
  bytes of unspecified content, a positive one drops bytes from the front.
\<close>

definition adjust_head_ok :: "(packet \<Rightarrow> int \<Rightarrow> packet option) \<Rightarrow> bool" where
  "adjust_head_ok f \<longleftrightarrow> (\<forall>p d q. f p d = Some q \<longrightarrow>
     (if d < 0 then length q = length p + nat (- d) \<and> drop (nat (- d)) q = p
      else nat d \<le> length p \<and> q = drop (nat d) p))"

text \<open>\<open>bpf_xdp_adjust_tail\<close> shortens the packet by \<open>- delta\<close> bytes at its end.\<close>

definition adjust_tail_ok :: "(packet \<Rightarrow> int \<Rightarrow> packet option) \<Rightarrow> bool" where
  "adjust_tail_ok f \<longleftrightarrow> (\<forall>p d q. f p d = Some q \<longrightarrow> d \<le> 0 \<and> nat (- d) \<le> length p \<and>
     q = take (length p - nat (- d)) p)"

text \<open>An update of an LRU map stores the new entry; other entries may be evicted, never changed.\<close>

definition lru_update_ok :: "(lru_map \<Rightarrow> flow_key \<Rightarrow> real_pos_lru \<Rightarrow> lru_map) \<Rightarrow> bool" where
  "lru_update_ok f \<longleftrightarrow> (\<forall>m k v. f m k v k = Some v \<and> (\<forall>k'. k' \<noteq> k \<longrightarrow> f m k v k' \<in> {None, m k'}))"

text \<open>A lookup in an array map finds an entry exactly below \<open>max_entries\<close>.\<close>

definition array_map :: "u32 \<Rightarrow> (u32 \<rightharpoonup> 'v) \<Rightarrow> bool" where
  "array_map n m \<longleftrightarrow> (\<forall>k. m k \<noteq> None \<longleftrightarrow> k < n)"

definition arrays_ok :: "bpf_state \<Rightarrow> bool" where
  "arrays_ok s \<longleftrightarrow> array_map CH_RINGS_SIZE (ch_rings s) \<and> array_map MAX_REALS (reals s) \<and>
     array_map MAX_REALS (reals_stats s) \<and> array_map STATS_MAP_SIZE (stats s) \<and>
     array_map MAX_QUIC_REALS (quic_mapping s) \<and> array_map CTL_MAP_SIZE (ctl_array s) \<and>
     array_map 2 (pckt_srcs s)"

section \<open>A reference kernel\<close>

text \<open>
  A kernel that meets the documented behaviour: 256 bytes of zeroed headroom are always left,
  a packet keeps at least an Ethernet header, LRU maps never evict, prefix lookups match the
  full-length key. It runs the witnesses.
\<close>

definition ref_adjust_head :: "packet \<Rightarrow> int \<Rightarrow> packet option" where
  "ref_adjust_head p d =
     (if d < 0 then (if d < -256 then None else Some (replicate (nat (- d)) 0 @ p))
      else if nat d + 14 \<le> length p then Some (drop (nat d) p) else None)"

definition ref_adjust_tail :: "packet \<Rightarrow> int \<Rightarrow> packet option" where
  "ref_adjust_tail p d =
     (if 0 < d \<or> length p < nat (- d) + 14 then None else Some (take (length p - nat (- d)) p))"

definition ref_helpers :: bpf_helpers where
  "ref_helpers = \<lparr>xdp_adjust_head = ref_adjust_head, xdp_adjust_tail = ref_adjust_tail,
     csum_diff = ref_csum_diff, ktime_get_ns = (\<lambda>n. of_nat (1000 * n)), smp_processor_id = 0,
     lru_update = (\<lambda>m k v. m(k \<mapsto> v)), lpm_lookup_v4 = (\<lambda>m k. m k),
     lpm_lookup_v6 = (\<lambda>m k. m k)\<rparr>"

lemma ref_adjust_head_ok: "adjust_head_ok ref_adjust_head"
  by (auto simp: adjust_head_ok_def ref_adjust_head_def)

lemma ref_adjust_tail_ok: "adjust_tail_ok ref_adjust_tail"
  by (auto simp: adjust_tail_ok_def ref_adjust_tail_def)

lemma ref_lru_update_ok: "lru_update_ok (lru_update ref_helpers)"
  by (auto simp: lru_update_ok_def ref_helpers_def)

section \<open>Consequences\<close>

lemma adjust_head_push:
  assumes "adjust_head_ok f" "f p d = Some q" "d < 0"
  shows "length q = length p + nat (- d)" and "drop (nat (- d)) q = p"
  using assms by (auto simp: adjust_head_ok_def)

lemma adjust_head_pop:
  assumes "adjust_head_ok f" "f p d = Some q" "0 \<le> d"
  shows "nat d \<le> length p" and "q = drop (nat d) p"
  using assms unfolding adjust_head_ok_def by (metis not_le)+

lemma array_map_dom: "array_map n m \<longleftrightarrow> dom m = {k. k < n}"
  by (auto simp: array_map_def)

lemma array_mapD: "array_map n m \<Longrightarrow> k < n \<Longrightarrow> \<exists>v. m k = Some v"
  by (auto simp: array_map_def)

lemma array_map_update [simp]: "array_map n m \<Longrightarrow> m k = Some v \<Longrightarrow> array_map n (m(k \<mapsto> w))"
  by (auto simp: array_map_def)

end
