(* ===== verification/Encap.thy ===== *)
theory Encap
  imports Bpf_State
begin

text \<open>
  Encapsulation and decapsulation: \<open>encap_helpers.h\<close>, \<open>pckt_encap.h\<close> and \<open>decrement_ttl\<close> of
  \<open>balancer_helpers.h\<close>, all under \<open>src/katran/lib/bpf\<close>. An encapsulator returns its C result
  and the packet; the packet is the memory between \<open>data\<close> and \<open>data_end\<close> after the call.

  The locales \<open>encapsulator\<close>, \<open>decapsulator\<close> and \<open>tunnel\<close> state what the balancer relies on:
  an encapsulation puts a header of fixed size between a fresh Ethernet header and the client's
  IP packet and leaves that packet alone; a decapsulation removes a header of the same size; so
  a decapsulated encapsulated packet is the client's packet again. They are interpreted on the
  IPIP and the GUE routines for both families.
\<close>

section \<open>Header construction\<close>

definition create_v4_hdr :: "iphdr \<Rightarrow> u8 \<Rightarrow> u32 \<Rightarrow> u32 \<Rightarrow> u16 \<Rightarrow> u8 \<Rightarrow> iphdr" where
  "create_v4_hdr iph tos_v saddr daddr pkt_bytes prot =
     (let iph = iph\<lparr>iph_version := 4, iph_ihl := 5, iph_frag_off := 0, iph_protocol := prot,
            iph_check := 0, iph_tos := tos_v,
            iph_tot_len := bpf_htons (pkt_bytes + of_nat sizeof_iphdr),
            iph_daddr := daddr, iph_saddr := saddr, iph_ttl := DEFAULT_TTL\<rparr>;
          csum = ipv4_csum_inline iph 0
      in iph\<lparr>iph_check := ucast csum\<rparr>)"

definition create_v6_hdr :: "ipv6hdr \<Rightarrow> u8 \<Rightarrow> in6 \<Rightarrow> in6 \<Rightarrow> u16 \<Rightarrow> u8 \<Rightarrow> ipv6hdr" where
  "create_v6_hdr ip6h tc saddr daddr payload_len prot =
     ip6h\<lparr>ip6_version := 6, ip6_flow_lbl0 := push_bit 4 (tc AND 0x0F), ip6_flow_lbl1 := 0,
       ip6_flow_lbl2 := 0, ip6_priority := ucast (drop_bit 4 (tc AND 0xF0)),
       ip6_nexthdr := prot, ip6_payload_len := bpf_htons payload_len,
       ip6_hop_limit := DEFAULT_TTL, ip6_saddr := saddr, ip6_daddr := daddr\<rparr>"

definition create_udp_hdr :: "udphdr \<Rightarrow> u16 \<Rightarrow> u16 \<Rightarrow> u16 \<Rightarrow> u16 \<Rightarrow> udphdr" where
  "create_udp_hdr udph sport dport len csum =
     udph\<lparr>udp_source := sport, udp_dest := bpf_htons dport, udp_len := bpf_htons len,
       udp_check := csum\<rparr>"

text \<open>
  The Ethernet part every encapsulator shares: destination from the control array, source from
  the old destination (the old header starts \<open>old\<close> bytes into the grown packet), new type.
\<close>

definition new_eth_hdr :: "packet \<Rightarrow> nat \<Rightarrow> u8 list \<Rightarrow> u16 \<Rightarrow> packet option" where
  "new_eth_hdr p old mac eth_p = do {
     p \<leftarrow> stn p 0 mac;
     old_dest \<leftarrow> ldn p old 6;
     p \<leftarrow> stn p 6 old_dest;
     st16 p 12 eth_p
   }"

section \<open>IPIP\<close>

definition encap_v6 ::
  "bpf_helpers \<Rightarrow> ctl_value \<Rightarrow> bool \<Rightarrow> packet_description \<Rightarrow> real_definition \<Rightarrow> u32 \<Rightarrow> packet \<Rightarrow>
   (bool \<times> packet) option" where
  "encap_v6 H cval is_ipv6 pckt dst pkt_bytes p =
     (case xdp_adjust_head H p (- int sizeof_ipv6hdr) of
        None \<Rightarrow> Some (False, p)
      | Some p \<Rightarrow>
          if sizeof_eth_hdr > length p \<or> sizeof_ipv6hdr + sizeof_eth_hdr > length p \<or>
             sizeof_eth_hdr + sizeof_ipv6hdr > length p
          then Some (False, p)
          else do {
            p \<leftarrow> new_eth_hdr p sizeof_ipv6hdr (ctl_mac cval) BE_ETH_P_IPV6;
            let (prot, ip_suffix, payload_len) =
              (if is_ipv6
               then (IPPROTO_IPV6, s6_3 (srcv6 (flow pckt)) XOR ucast (port16_0 (flow pckt)),
                     ucast (pkt_bytes + of_nat sizeof_ipv6hdr) :: u16)
               else (IPPROTO_IPIP, flow_src (flow pckt) XOR ucast (port16_0 (flow pckt)),
                     ucast pkt_bytes));
            let saddr = \<lparr>s6_0 = IPIP_V6_PREFIX1, s6_1 = IPIP_V6_PREFIX2, s6_2 = IPIP_V6_PREFIX3,
                         s6_3 = ip_suffix\<rparr>;
            ip6h \<leftarrow> ld_ipv6hdr p sizeof_eth_hdr;
            p \<leftarrow> st_ipv6hdr p sizeof_eth_hdr
              (create_v6_hdr ip6h (tos pckt) saddr (real_dstv6 dst) payload_len prot);
            Some (True, p)
          })"

definition ipip_v4_src :: "packet_description \<Rightarrow> u32" where
  "ipip_v4_src pckt =
     (let ip_suffix = push_bit 16 (ucast (bpf_htons (port16_0 (flow pckt))));
          ip_suffix = ip_suffix XOR flow_src (flow pckt)
      in (0xFFFF0000 AND ip_suffix) OR IPIP_V4_PREFIX)"

definition encap_v4 ::
  "bpf_helpers \<Rightarrow> ctl_value \<Rightarrow> packet_description \<Rightarrow> real_definition \<Rightarrow> u32 \<Rightarrow> packet \<Rightarrow>
   (bool \<times> packet) option" where
  "encap_v4 H cval pckt dst pkt_bytes p =
     (case xdp_adjust_head H p (- int sizeof_iphdr) of
        None \<Rightarrow> Some (False, p)
      | Some p \<Rightarrow>
          if sizeof_eth_hdr > length p \<or> sizeof_iphdr + sizeof_eth_hdr > length p \<or>
             sizeof_eth_hdr + sizeof_iphdr > length p
          then Some (False, p)
          else do {
            p \<leftarrow> new_eth_hdr p sizeof_iphdr (ctl_mac cval) BE_ETH_P_IP;
            iph \<leftarrow> ld_iphdr p sizeof_eth_hdr;
            p \<leftarrow> st_iphdr p sizeof_eth_hdr
              (create_v4_hdr iph (tos pckt) (ipip_v4_src pckt) (real_dst dst) (ucast pkt_bytes)
                 IPPROTO_IPIP);
            Some (True, p)
          })"

text \<open>
  The decapsulators copy the Ethernet header in front of the inner packet. Their callers have
  checked that the inner Ethernet position lies inside the packet.
\<close>

definition copy_eth_hdr :: "packet \<Rightarrow> nat \<Rightarrow> u16 \<Rightarrow> packet option" where
  "copy_eth_hdr p new eth_p = do {
     old_source \<leftarrow> ldn p 6 6;
     p \<leftarrow> stn p (new + 6) old_source;
     old_dest \<leftarrow> ldn p 0 6;
     p \<leftarrow> stn p new old_dest;
     st16 p (new + 12) eth_p
   }"

definition decap_v6 :: "bpf_helpers \<Rightarrow> bool \<Rightarrow> packet \<Rightarrow> (bool \<times> packet) option" where
  "decap_v6 H inner_v4 p = do {
     p \<leftarrow> copy_eth_hdr p sizeof_ipv6hdr (if inner_v4 then BE_ETH_P_IP else BE_ETH_P_IPV6);
     (case xdp_adjust_head H p (int sizeof_ipv6hdr) of
        None \<Rightarrow> Some (False, p)
      | Some p \<Rightarrow> Some (True, p))
   }"

definition decap_v4 :: "bpf_helpers \<Rightarrow> packet \<Rightarrow> (bool \<times> packet) option" where
  "decap_v4 H p = do {
     p \<leftarrow> copy_eth_hdr p sizeof_iphdr BE_ETH_P_IP;
     (case xdp_adjust_head H p (int sizeof_iphdr) of
        None \<Rightarrow> Some (False, p)
      | Some p \<Rightarrow> Some (True, p))
   }"

section \<open>GUE\<close>

definition gue_encap_v4 ::
  "bpf_helpers \<Rightarrow> (u32 \<rightharpoonup> real_definition) \<Rightarrow> ctl_value \<Rightarrow> packet_description \<Rightarrow> real_definition \<Rightarrow>
   u32 \<Rightarrow> packet \<Rightarrow> (bool \<times> packet) option" where
  "gue_encap_v4 H srcs cval pckt dst pkt_bytes p =
     (case srcs V4_SRC_INDEX of
        None \<Rightarrow> Some (False, p)
      | Some src \<Rightarrow>
          (let sport = bpf_htons (port16_0 (flow pckt)) XOR
                 ucast (drop_bit 16 (flow_src (flow pckt)) AND 0xFFFF);
               ipv4_src = real_dst src
           in case xdp_adjust_head H p (- (int sizeof_iphdr + int sizeof_udphdr)) of
                None \<Rightarrow> Some (False, p)
              | Some p \<Rightarrow>
                  if sizeof_eth_hdr > length p \<or>
                     sizeof_iphdr + sizeof_udphdr + sizeof_eth_hdr > length p \<or>
                     sizeof_eth_hdr + sizeof_iphdr > length p \<or>
                     sizeof_eth_hdr + sizeof_iphdr + sizeof_udphdr > length p
                  then Some (False, p)
                  else do {
                    p \<leftarrow> new_eth_hdr p (sizeof_iphdr + sizeof_udphdr) (ctl_mac cval) BE_ETH_P_IP;
                    udph \<leftarrow> ld_udphdr p (sizeof_eth_hdr + sizeof_iphdr);
                    p \<leftarrow> st_udphdr p (sizeof_eth_hdr + sizeof_iphdr)
                      (create_udp_hdr udph sport GUE_DPORT
                         (ucast (pkt_bytes + of_nat sizeof_udphdr)) GUE_CSUM);
                    iph \<leftarrow> ld_iphdr p sizeof_eth_hdr;
                    p \<leftarrow> st_iphdr p sizeof_eth_hdr
                      (create_v4_hdr iph (tos pckt) ipv4_src (real_dst dst)
                         (ucast (pkt_bytes + of_nat sizeof_udphdr)) IPPROTO_UDP);
                    Some (True, p)
                  }))"

definition gue_encap_v6 ::
  "bpf_helpers \<Rightarrow> (u32 \<rightharpoonup> real_definition) \<Rightarrow> ctl_value \<Rightarrow> bool \<Rightarrow> packet_description \<Rightarrow>
   real_definition \<Rightarrow> u32 \<Rightarrow> packet \<Rightarrow> (bool \<times> packet) option" where
  "gue_encap_v6 H srcs cval is_ipv6 pckt dst pkt_bytes p =
     (case srcs V6_SRC_INDEX of
        None \<Rightarrow> Some (False, p)
      | Some src \<Rightarrow>
          (case xdp_adjust_head H p (- (int sizeof_ipv6hdr + int sizeof_udphdr)) of
             None \<Rightarrow> Some (False, p)
           | Some p \<Rightarrow>
               if sizeof_eth_hdr > length p \<or>
                  sizeof_ipv6hdr + sizeof_udphdr + sizeof_eth_hdr > length p \<or>
                  sizeof_eth_hdr + sizeof_ipv6hdr > length p \<or>
                  sizeof_eth_hdr + sizeof_ipv6hdr + sizeof_udphdr > length p
               then Some (False, p)
               else do {
                 p \<leftarrow> new_eth_hdr p (sizeof_ipv6hdr + sizeof_udphdr) (ctl_mac cval) BE_ETH_P_IPV6;
                 let (sport, pkt_bytes) =
                   (if is_ipv6
                    then (ucast (s6_3 (srcv6 (flow pckt)) AND 0xFFFF) XOR port16_0 (flow pckt),
                          pkt_bytes + of_nat (sizeof_ipv6hdr + sizeof_udphdr))
                    else (ucast (drop_bit 16 (flow_src (flow pckt)) AND 0xFFFF) XOR
                            port16_0 (flow pckt),
                          pkt_bytes + of_nat sizeof_udphdr));
                 udph \<leftarrow> ld_udphdr p (sizeof_eth_hdr + sizeof_ipv6hdr);
                 p \<leftarrow> st_udphdr p (sizeof_eth_hdr + sizeof_ipv6hdr)
                   (create_udp_hdr udph sport GUE_DPORT (ucast pkt_bytes) GUE_CSUM);
                 ip6h \<leftarrow> ld_ipv6hdr p sizeof_eth_hdr;
                 p \<leftarrow> st_ipv6hdr p sizeof_eth_hdr
                   (create_v6_hdr ip6h (tos pckt) (real_dstv6 src) (real_dstv6 dst)
                      (ucast pkt_bytes) IPPROTO_UDP);
                 Some (True, p)
               }))"

definition gue_decap_v4 :: "bpf_helpers \<Rightarrow> packet \<Rightarrow> (bool \<times> packet) option" where
  "gue_decap_v4 H p = do {
     p \<leftarrow> copy_eth_hdr p (sizeof_iphdr + sizeof_udphdr) BE_ETH_P_IP;
     (case xdp_adjust_head H p (int (sizeof_iphdr + sizeof_udphdr)) of
        None \<Rightarrow> Some (False, p)
      | Some p \<Rightarrow> Some (True, p))
   }"

definition gue_decap_v6 :: "bpf_helpers \<Rightarrow> bool \<Rightarrow> packet \<Rightarrow> (bool \<times> packet) option" where
  "gue_decap_v6 H inner_v4 p = do {
     p \<leftarrow> copy_eth_hdr p (sizeof_ipv6hdr + sizeof_udphdr)
       (if inner_v4 then BE_ETH_P_IP else BE_ETH_P_IPV6);
     (case xdp_adjust_head H p (int (sizeof_ipv6hdr + sizeof_udphdr)) of
        None \<Rightarrow> Some (False, p)
      | Some p \<Rightarrow> Some (True, p))
   }"

section \<open>TTL\<close>

definition decrement_ttl :: "packet \<Rightarrow> nat \<Rightarrow> bool \<Rightarrow> (step \<times> packet) option" where
  "decrement_ttl p offset is_ipv6 =
     (if is_ipv6 then
        (if offset + sizeof_ipv6hdr > length p then Some (Return XDP_DROP, p)
         else do {
           ip6h \<leftarrow> ld_ipv6hdr p offset;
           let ip6h = ip6h\<lparr>ip6_hop_limit := ip6_hop_limit ip6h - 1\<rparr>;
           p \<leftarrow> st_ipv6hdr p offset ip6h;
           Some (if ip6_hop_limit ip6h = 0 then Return XDP_DROP else FURTHER_PROCESSING, p)
         })
      else
        (if offset + sizeof_iphdr > length p then Some (Return XDP_DROP, p)
         else do {
           iph \<leftarrow> ld_iphdr p offset;
           let iph = iph\<lparr>iph_ttl := iph_ttl iph - 1\<rparr>;
           p \<leftarrow> st_iphdr p offset iph;
           if iph_ttl iph = 0 then Some (Return XDP_DROP, p)
           else do {
             let csum = (ucast (iph_check iph) + 1 :: u32);
             let iph = iph\<lparr>iph_check := ucast ((csum AND 0xffff) + drop_bit 16 csum)\<rparr>;
             p \<leftarrow> st_iphdr p offset iph;
             Some (FURTHER_PROCESSING, p)
           }
         }))"

section \<open>Frames\<close>

lemma length_ctl_mac [simp]: "length (ctl_mac c) = 6"
  by (simp add: ctl_mac_def)

lemma new_eth_hdr_eq:
  assumes "length mac = 6" "14 \<le> length p" "14 \<le> old" "old + 6 \<le> length p"
  shows "new_eth_hdr p old mac e = Some (mac @ slice p old 6 @ bytes16 e @ drop 14 p)"
proof -
  have "put (put (put p 0 mac) 6 (slice p old 6)) 12 (bytes16 e) =
      mac @ slice p old 6 @ bytes16 e @ drop 14 p"
    using assms by (simp add: put_def)
  then show ?thesis
    using assms by (simp add: new_eth_hdr_def stn_def ldn_def st16_def)
qed

lemma copy_eth_hdr_eq:
  assumes "new + 14 \<le> length p" "12 \<le> new"
  shows "copy_eth_hdr p new e = Some (take new p @ take 12 p @ bytes16 e @ drop (new + 14) p)"
proof -
  have "put (put (put p (new + 6) (slice p 6 6)) new (take 6 p)) (new + 12) (bytes16 e) =
      take new p @ (take 6 p @ slice p 6 6) @ bytes16 e @ drop (new + 14) p"
    using assms by (simp add: put_def min_def add.commute)
  moreover have "take 6 p @ slice p 6 6 = take 12 p"
    by (simp add: slice_def take_add [symmetric])
  ultimately show ?thesis
    using assms by (simp add: copy_eth_hdr_def stn_def ldn_def st16_def)
qed

lemma stn_append [simp]:
  "n = length f \<Longrightarrow> length bs \<le> length r \<Longrightarrow> stn (f @ r) n bs = Some (f @ bs @ drop (length bs) r)"
  by (simp add: stn_def put_def)

lemma ldn_append [simp]:
  "n = length f \<Longrightarrow> k \<le> length r \<Longrightarrow> ldn (f @ r) n k = Some (take k r)"
  by (simp add: ldn_def slice_def)

text \<open>The header of the grown packet: bytes \<open>14\<close> to \<open>14 + n\<close>, then the client's IP packet.\<close>

lemma grown_packet:
  assumes "length q = length p + n" "drop n q = p" "14 \<le> length p"
  shows "slice q n 6 = take 6 p" "drop (14 + n) q = drop 14 p" "drop (n + 14) q = drop 14 p"
  using assms by (auto simp: slice_def add.commute)

section \<open>What the encapsulators produce\<close>

lemma encap_v4_result:
  assumes H: "adjust_head_ok (xdp_adjust_head H)" and p: "14 \<le> length p"
    and q0: "xdp_adjust_head H p (-20) = Some q0"
  shows "encap_v4 H cval pckt dst n p = Some (True, ctl_mac cval @ take 6 p @ bytes16 BE_ETH_P_IP @
    enc_iphdr (create_v4_hdr (dec_iphdr (slice q0 14 20)) (tos pckt) (ipip_v4_src pckt) (real_dst dst)
      (ucast n) IPPROTO_IPIP) @ drop 14 p)"
proof -
  note len = adjust_head_push [OF H q0, simplified]
  note g = grown_packet [OF len p]
  have fr: "new_eth_hdr q0 20 (ctl_mac cval) e =
      Some ((ctl_mac cval @ take 6 p @ bytes16 e) @ drop 14 q0)" for e
    using len(1) p g by (subst new_eth_hdr_eq) simp_all
  show ?thesis
    using q0 len p g fr
    by (simp add: encap_v4_def ld_iphdr_def st_iphdr_def slice_def add.commute del: append_assoc)
qed

lemma encap_v4_safe: "wp (encap_v4 H cval pckt dst n p) (\<lambda>_. True)"
  by (auto simp: encap_v4_def new_eth_hdr_eq ld_iphdr_def st_iphdr_def wp_simps split: option.split)

lemma stn_middle [simp]:
  "n = length f \<Longrightarrow> length bs = length m \<Longrightarrow> stn ((f @ m) @ r) n bs = Some (f @ bs @ r)"
  by (simp add: stn_def put_def)

lemma ldn_middle [simp]: "n = length f \<Longrightarrow> k = length m \<Longrightarrow> ldn ((f @ m) @ r) n k = Some m"
  by (simp add: ldn_def slice_def)

lemma encap_v6_result:
  assumes H: "adjust_head_ok (xdp_adjust_head H)" and p: "14 \<le> length p"
    and q0: "xdp_adjust_head H p (-40) = Some q0"
  shows "encap_v6 H cval v6 pckt dst n p = Some (True, ctl_mac cval @ take 6 p @ bytes16 BE_ETH_P_IPV6 @
    enc_ipv6hdr (create_v6_hdr (dec_ipv6hdr (slice q0 14 40)) (tos pckt)
      \<lparr>s6_0 = IPIP_V6_PREFIX1, s6_1 = IPIP_V6_PREFIX2, s6_2 = IPIP_V6_PREFIX3,
       s6_3 = (if v6 then s6_3 (srcv6 (flow pckt)) else flow_src (flow pckt)) XOR
         ucast (port16_0 (flow pckt))\<rparr> (real_dstv6 dst)
      (if v6 then ucast (n + 40) else ucast n) (if v6 then IPPROTO_IPV6 else IPPROTO_IPIP)) @ drop 14 p)"
proof -
  note len = adjust_head_push [OF H q0, simplified]
  note g = grown_packet [OF len p]
  have fr: "new_eth_hdr q0 40 (ctl_mac cval) e =
      Some ((ctl_mac cval @ take 6 p @ bytes16 e) @ drop 14 q0)" for e
    using len(1) p g by (subst new_eth_hdr_eq) simp_all
  show ?thesis
    using q0 len p g fr
    by (simp add: encap_v6_def ld_ipv6hdr_def st_ipv6hdr_def slice_def add.commute Let_def del: append_assoc)
qed

lemma encap_v6_safe: "wp (encap_v6 H cval v6 pckt dst n p) (\<lambda>_. True)"
  by (auto simp: encap_v6_def new_eth_hdr_eq ld_ipv6hdr_def st_ipv6hdr_def wp_simps Let_def
      split: option.split)

lemma gue_encap_v4_result:
  assumes H: "adjust_head_ok (xdp_adjust_head H)" and p: "14 \<le> length p"
    and q0: "xdp_adjust_head H p (-28) = Some q0" and src: "srcs V4_SRC_INDEX = Some src"
  shows "gue_encap_v4 H srcs cval pckt dst n p = Some (True, ctl_mac cval @ take 6 p @ bytes16 BE_ETH_P_IP @
    enc_iphdr (create_v4_hdr (dec_iphdr (slice q0 14 20)) (tos pckt) (real_dst src) (real_dst dst)
      (ucast (n + 8)) IPPROTO_UDP) @
    enc_udphdr (create_udp_hdr (dec_udphdr (slice q0 34 8))
      (bpf_htons (port16_0 (flow pckt)) XOR ucast (drop_bit 16 (flow_src (flow pckt)) AND 0xFFFF))
      GUE_DPORT (ucast (n + 8)) GUE_CSUM) @ drop 14 p)"
proof -
  note len = adjust_head_push [OF H q0, simplified]
  note g = grown_packet [OF len p]
  have fr: "new_eth_hdr q0 28 (ctl_mac cval) e =
      Some (((ctl_mac cval @ take 6 p @ bytes16 e) @ take 20 (drop 14 q0)) @ drop 34 q0)" for e
    using len(1) p g by (subst new_eth_hdr_eq) (simp_all add: append_take_drop_id [of 20 "drop 14 q0", simplified])
  show ?thesis
    using q0 len p g fr src
    by (simp add: gue_encap_v4_def ld_iphdr_def st_iphdr_def ld_udphdr_def st_udphdr_def slice_def
        add.commute Let_def del: append_assoc)
qed

lemma gue_encap_v4_safe: "wp (gue_encap_v4 H srcs cval pckt dst n p) (\<lambda>_. True)"
  by (auto simp: gue_encap_v4_def new_eth_hdr_eq ld_iphdr_def st_iphdr_def ld_udphdr_def st_udphdr_def
      wp_simps Let_def split: option.split)

lemma gue_encap_v6_result:
  assumes H: "adjust_head_ok (xdp_adjust_head H)" and p: "14 \<le> length p"
    and q0: "xdp_adjust_head H p (-48) = Some q0" and src: "srcs V6_SRC_INDEX = Some src"
  shows "gue_encap_v6 H srcs cval v6 pckt dst n p = Some (True, ctl_mac cval @ take 6 p @ bytes16 BE_ETH_P_IPV6 @
    enc_ipv6hdr (create_v6_hdr (dec_ipv6hdr (slice q0 14 40)) (tos pckt) (real_dstv6 src) (real_dstv6 dst)
      (ucast (n + (if v6 then 48 else 8))) IPPROTO_UDP) @
    enc_udphdr (create_udp_hdr (dec_udphdr (slice q0 54 8))
      (ucast ((if v6 then s6_3 (srcv6 (flow pckt)) else drop_bit 16 (flow_src (flow pckt))) AND 0xFFFF) XOR
        port16_0 (flow pckt))
      GUE_DPORT (ucast (n + (if v6 then 48 else 8))) GUE_CSUM) @ drop 14 p)"
proof -
  note len = adjust_head_push [OF H q0, simplified]
  note g = grown_packet [OF len p]
  have fr: "new_eth_hdr q0 48 (ctl_mac cval) e =
      Some (((ctl_mac cval @ take 6 p @ bytes16 e) @ take 40 (drop 14 q0)) @ drop 54 q0)" for e
    using len(1) p g by (subst new_eth_hdr_eq) (simp_all add: append_take_drop_id [of 40 "drop 14 q0", simplified])
  show ?thesis
    using q0 len p g fr src
    by (simp add: gue_encap_v6_def ld_ipv6hdr_def st_ipv6hdr_def ld_udphdr_def st_udphdr_def slice_def
        add.commute Let_def del: append_assoc)
qed

lemma gue_encap_v6_safe: "wp (gue_encap_v6 H srcs cval v6 pckt dst n p) (\<lambda>_. True)"
  by (auto simp: gue_encap_v6_def new_eth_hdr_eq ld_ipv6hdr_def st_ipv6hdr_def ld_udphdr_def st_udphdr_def
      wp_simps Let_def split: option.split)
section \<open>Decapsulation\<close>

lemma decap_results:
  "34 \<le> length p \<Longrightarrow> decap_v4 H p =
     (let p = take 20 p @ take 12 p @ bytes16 BE_ETH_P_IP @ drop 34 p in
      case xdp_adjust_head H p 20 of None \<Rightarrow> Some (False, p) | Some q \<Rightarrow> Some (True, q))"
  "54 \<le> length p \<Longrightarrow> decap_v6 H b p =
     (let p = take 40 p @ take 12 p @ bytes16 (if b then BE_ETH_P_IP else BE_ETH_P_IPV6) @ drop 54 p in
      case xdp_adjust_head H p 40 of None \<Rightarrow> Some (False, p) | Some q \<Rightarrow> Some (True, q))"
  "42 \<le> length p \<Longrightarrow> gue_decap_v4 H p =
     (let p = take 28 p @ take 12 p @ bytes16 BE_ETH_P_IP @ drop 42 p in
      case xdp_adjust_head H p 28 of None \<Rightarrow> Some (False, p) | Some q \<Rightarrow> Some (True, q))"
  "62 \<le> length p \<Longrightarrow> gue_decap_v6 H b p =
     (let p = take 48 p @ take 12 p @ bytes16 (if b then BE_ETH_P_IP else BE_ETH_P_IPV6) @ drop 62 p in
      case xdp_adjust_head H p 48 of None \<Rightarrow> Some (False, p) | Some q \<Rightarrow> Some (True, q))"
  by (simp_all add: decap_v4_def decap_v6_def gue_decap_v4_def gue_decap_v6_def copy_eth_hdr_eq Let_def)

section \<open>Contracts\<close>

text \<open>The Ethernet frame that carries the client's IP packet behind an outer header.\<close>

definition tunnelled :: "nat \<Rightarrow> packet \<Rightarrow> packet \<Rightarrow> bool" where
  "tunnelled n p q \<longleftrightarrow> length q = length p + n \<and> slice q 6 6 = take 6 p \<and> drop (14 + n) q = drop 14 p"

locale encapsulator =
  fixes encap :: "bpf_helpers \<Rightarrow> 'a \<Rightarrow> packet \<Rightarrow> (bool \<times> packet) option"
    and ready :: "'a \<Rightarrow> bool"
    and outer :: nat
  assumes encap_safe: "wp (encap H x p) (\<lambda>_. True)"
    and encap_tunnelled: "adjust_head_ok (xdp_adjust_head H) \<Longrightarrow> 14 \<le> length p \<Longrightarrow> ready x \<Longrightarrow>
      xdp_adjust_head H p (- int outer) = Some q0 \<Longrightarrow> \<exists>q. encap H x p = Some (True, q) \<and> tunnelled outer p q"
    and encap_refuses: "ready x \<Longrightarrow> xdp_adjust_head H p (- int outer) = None \<Longrightarrow> encap H x p = Some (False, p)"
    and encap_not_ready: "\<not> ready x \<Longrightarrow> encap H x p = Some (False, p)"
begin

text \<open>A successful encapsulation is always a tunnelled packet.\<close>

lemma encap_success:
  assumes "adjust_head_ok (xdp_adjust_head H)" "14 \<le> length p" "encap H x p = Some (True, q)"
  shows "tunnelled outer p q"
proof -
  have "ready x" using assms(3) encap_not_ready by fastforce
  then obtain q0 where "xdp_adjust_head H p (- int outer) = Some q0"
    using assms(3) encap_refuses [of x H p] by (cases "xdp_adjust_head H p (- int outer)") auto
  with encap_tunnelled [OF assms(1,2) \<open>ready x\<close>] assms(3) show ?thesis by auto
qed

end

locale decapsulator =
  fixes decap :: "bpf_helpers \<Rightarrow> 'b \<Rightarrow> packet \<Rightarrow> (bool \<times> packet) option"
    and hdr :: nat
  assumes decap_safe: "hdr + 14 \<le> length p \<Longrightarrow> wp (decap H y p) (\<lambda>_. True)"
    and decap_strips: "adjust_head_ok (xdp_adjust_head H) \<Longrightarrow> hdr + 14 \<le> length p \<Longrightarrow>
      (\<And>r. length r = length p \<Longrightarrow> xdp_adjust_head H r (int hdr) \<noteq> None) \<Longrightarrow>
      \<exists>q. decap H y p = Some (True, q) \<and> take 12 q = take 12 p \<and> drop 14 q = drop (14 + hdr) p"

locale tunnel = encapsulator encap ready n + decapsulator decap n
  for encap :: "bpf_helpers \<Rightarrow> 'a \<Rightarrow> packet \<Rightarrow> (bool \<times> packet) option"
    and ready :: "'a \<Rightarrow> bool" and n :: nat
    and decap :: "bpf_helpers \<Rightarrow> 'b \<Rightarrow> packet \<Rightarrow> (bool \<times> packet) option"
begin

lemma decap_encap:
  assumes "adjust_head_ok (xdp_adjust_head H)" "adjust_head_ok (xdp_adjust_head K)" "14 \<le> length p" "ready x"
    and "xdp_adjust_head H p (- int n) \<noteq> None"
    and pops: "\<And>r. length r = length p + n \<Longrightarrow> xdp_adjust_head K r (int n) \<noteq> None"
  shows "\<exists>q r. encap H x p = Some (True, q) \<and> decap K y q = Some (True, r) \<and> drop 14 r = drop 14 p"
proof -
  obtain q where q: "encap H x p = Some (True, q)" and t: "tunnelled n p q"
    using encap_tunnelled assms(1,3-5) by blast
  have "n + 14 \<le> length q" using t assms(3) by (simp add: tunnelled_def)
  moreover have "xdp_adjust_head K r (int n) \<noteq> None" if "length r = length q" for r
    using pops that t by (simp add: tunnelled_def)
  ultimately obtain r where "decap K y q = Some (True, r)" "drop 14 r = drop (14 + n) q"
    using decap_strips [OF assms(2)] by blast
  with q t show ?thesis by (auto simp: tunnelled_def)
qed

end

text \<open>
  Every encapsulator writes an Ethernet header and an outer header in front of the client's IP
  packet, every decapsulator copies the Ethernet header and pops: the laws follow once for all.
\<close>

lemma tunnelledI:
  assumes "length mac = 6" "length e = 2" "length hdr = n" "14 \<le> length p"
  shows "tunnelled n p (mac @ take 6 p @ e @ hdr @ drop 14 p)"
  using assms by (simp add: tunnelled_def slice_def)

lemma decapsulatorI:
  assumes eq: "\<And>H y p. n + 14 \<le> length p \<Longrightarrow> \<exists>e. decap H y p =
      (let p = take n p @ take 12 p @ bytes16 e @ drop (n + 14) p in
       case xdp_adjust_head H p (int n) of None \<Rightarrow> Some (False, p) | Some q \<Rightarrow> Some (True, q))"
    and n: "12 \<le> n"
  shows "decapsulator decap n"
proof
  fix H y and p :: packet assume len: "n + 14 \<le> length p"
  from eq [OF len, of H y] show "wp (decap H y p) (\<lambda>_. True)"
    by (auto simp: Let_def wp_simps split: option.split)
  assume H: "adjust_head_ok (xdp_adjust_head H)"
    and pops: "\<And>r. length r = length p \<Longrightarrow> xdp_adjust_head H r (int n) \<noteq> None"
  from eq [OF len, of H y] obtain e where d: "decap H y p =
      (let p = take n p @ take 12 p @ bytes16 e @ drop (n + 14) p in
       case xdp_adjust_head H p (int n) of None \<Rightarrow> Some (False, p) | Some q \<Rightarrow> Some (True, q))" by blast
  let ?p = "take n p @ take 12 p @ bytes16 e @ drop (n + 14) p"
  have "length ?p = length p" using len n by simp
  with pops obtain q where q: "xdp_adjust_head H ?p (int n) = Some q" by blast
  have "q = take 12 p @ bytes16 e @ drop (n + 14) p"
    using adjust_head_pop(2) [OF H q] len by simp
  then have "take 12 q = take 12 p" "drop 14 q = drop (14 + n) p"
    using len n by (simp_all add: add.commute)
  then show "\<exists>q. decap H y p = Some (True, q) \<and> take 12 q = take 12 p \<and> drop 14 q = drop (14 + n) p"
    using d q by (simp add: Let_def)
qed

lemma encap_refused:
  "xdp_adjust_head H p (- 20) = None \<Longrightarrow> encap_v4 H cval pckt dst n p = Some (False, p)"
  "xdp_adjust_head H p (- 40) = None \<Longrightarrow> encap_v6 H cval v6 pckt dst n p = Some (False, p)"
  "xdp_adjust_head H p (- 28) = None \<Longrightarrow> gue_encap_v4 H srcs cval pckt dst n p = Some (False, p)"
  "xdp_adjust_head H p (- 48) = None \<Longrightarrow> gue_encap_v6 H srcs cval v6 pckt dst n p = Some (False, p)"
  "srcs V4_SRC_INDEX = None \<Longrightarrow> gue_encap_v4 H srcs cval pckt dst n p = Some (False, p)"
  "srcs V6_SRC_INDEX = None \<Longrightarrow> gue_encap_v6 H srcs cval v6 pckt dst n p = Some (False, p)"
  by (simp_all add: encap_v4_def encap_v6_def gue_encap_v4_def gue_encap_v6_def Let_def split: option.split)

lemmas encap_laws = encap_v4_safe encap_v6_safe gue_encap_v4_safe gue_encap_v6_safe encap_refused
  encap_v4_result encap_v6_result gue_encap_v4_result gue_encap_v6_result

interpretation ipip4: tunnel "\<lambda>H (cval, pckt, dst, n). encap_v4 H cval pckt dst n" "\<lambda>_. True" 20
  "\<lambda>H (_ :: unit). decap_v4 H"
proof (intro tunnel.intro decapsulatorI)
  show "encapsulator (\<lambda>H (cval, pckt, dst, n). encap_v4 H cval pckt dst n) (\<lambda>_. True) 20"
    by unfold_locales (auto simp: encap_laws intro!: tunnelledI)
qed (auto simp: decap_results)

interpretation ipip6: tunnel "\<lambda>H (cval, v6, pckt, dst, n). encap_v6 H cval v6 pckt dst n" "\<lambda>_. True" 40
  "\<lambda>H inner_v4. decap_v6 H inner_v4"
proof (intro tunnel.intro decapsulatorI)
  show "encapsulator (\<lambda>H (cval, v6, pckt, dst, n). encap_v6 H cval v6 pckt dst n) (\<lambda>_. True) 40"
    by unfold_locales (auto simp: encap_laws intro!: tunnelledI)
qed (auto simp: decap_results)

interpretation gue4: tunnel "\<lambda>H (srcs, cval, pckt, dst, n). gue_encap_v4 H srcs cval pckt dst n"
  "\<lambda>(srcs, _). srcs V4_SRC_INDEX \<noteq> None" 28 "\<lambda>H (_ :: unit). gue_decap_v4 H"
proof (intro tunnel.intro decapsulatorI)
  show "encapsulator (\<lambda>H (srcs, cval, pckt, dst, n). gue_encap_v4 H srcs cval pckt dst n)
      (\<lambda>(srcs, _). srcs V4_SRC_INDEX \<noteq> None) 28"
    by unfold_locales (auto simp: encap_laws intro!: tunnelledI [where hdr = "_ @ _", simplified])
qed (auto simp: decap_results)

interpretation gue6: tunnel "\<lambda>H (srcs, cval, v6, pckt, dst, n). gue_encap_v6 H srcs cval v6 pckt dst n"
  "\<lambda>(srcs, _). srcs V6_SRC_INDEX \<noteq> None" 48 "\<lambda>H inner_v4. gue_decap_v6 H inner_v4"
proof (intro tunnel.intro decapsulatorI)
  show "encapsulator (\<lambda>H (srcs, cval, v6, pckt, dst, n). gue_encap_v6 H srcs cval v6 pckt dst n)
      (\<lambda>(srcs, _). srcs V6_SRC_INDEX \<noteq> None) 48"
    by unfold_locales (auto simp: encap_laws intro!: tunnelledI [where hdr = "_ @ _", simplified])
qed (auto simp: decap_results)

section \<open>TTL and checksum\<close>

text \<open>
  The incremental update: one less in the TTL is one more in the complement, with the carry
  brought around.
\<close>

definition bump_check :: "u16 \<Rightarrow> u16" where
  "bump_check c = (let csum = (ucast c + 1 :: u32) in ucast ((csum AND 0xffff) + drop_bit 16 csum))"

lemma unat_bump_check: "unat (bump_check c) = (if c = 0xffff then 1 else unat c + 1)"
proof -
  have c: "unat c < 65536" using unsigned_less [of c, where ?'a = nat] by simp
  let ?s = "ucast c + 1 :: u32"
  have s: "unat ?s = unat c + 1"
    using c by (simp add: unat_word_ariths unsigned_ucast_eq take_bit_nat_eq_self)
  have hi: "unat (drop_bit 16 ?s) = (unat c + 1) div 65536"
    by (simp only: unat_drop_bit_eq s) (simp add: drop_bit_eq_div)
  have "(0xffff :: u32) = mask 16" by (simp add: mask_eq_exp_minus_1)
  then have "?s AND 0xffff = take_bit 16 ?s" by (simp only: take_bit_eq_mask)
  then have lo: "unat (?s AND 0xffff) = (unat c + 1) mod 65536"
    by (simp only: unsigned_take_bit_eq s) (simp add: take_bit_eq_mod)
  have eq: "c = 0xffff \<longleftrightarrow> unat c = 65535" by (simp add: word_unat_eq_iff)
  show ?thesis
  proof (cases "unat c = 65535")
    case True
    then have "unat ((?s AND 0xffff) + drop_bit 16 ?s) = 1"
      by (simp add: unat_word_ariths hi lo)
    then show ?thesis using True eq
      by (simp add: bump_check_def Let_def unsigned_ucast_eq take_bit_eq_mod)
  next
    case False
    with c have "unat c + 1 < 65536" by simp
    then have "unat ((?s AND 0xffff) + drop_bit 16 ?s) = unat c + 1"
      by (simp add: unat_word_ariths hi lo)
    then show ?thesis using False eq \<open>unat c + 1 < 65536\<close>
      by (simp add: bump_check_def Let_def unsigned_ucast_eq take_bit_eq_mod)
  qed
qed

lemma decrement_ttl_v4:
  assumes off: "off + 20 \<le> length p" and h: "h = dec_iphdr (slice p off 20)"
  shows "decrement_ttl p off False =
    (if iph_ttl h = 1 then Some (Return XDP_DROP, put p off (enc_iphdr (h\<lparr>iph_ttl := 0\<rparr>)))
     else Some (FURTHER_PROCESSING,
       put p off (enc_iphdr (h\<lparr>iph_ttl := iph_ttl h - 1, iph_check := bump_check (iph_check h)\<rparr>))))"
proof -
  have pp: "put (put p off a) off b = put p off b" if "length a = 20" "length b = 20" for a b
    using off that by (simp add: put_def)
  show ?thesis
    using off by (simp add: decrement_ttl_def ld_iphdr_def st_iphdr_def ldn_def stn_def h bump_check_def
      Let_def pp)
qed

lemma decrement_ttl_v6:
  assumes off: "off + 40 \<le> length p" and h: "h = dec_ipv6hdr (slice p off 40)"
  shows "decrement_ttl p off True =
    Some (if ip6_hop_limit h = 1 then Return XDP_DROP else FURTHER_PROCESSING,
      put p off (enc_ipv6hdr (h\<lparr>ip6_hop_limit := ip6_hop_limit h - 1\<rparr>)))"
  using off by (simp add: decrement_ttl_def ld_ipv6hdr_def st_ipv6hdr_def ldn_def stn_def h Let_def)

lemma decrement_ttl_safe: "wp (decrement_ttl p off v6) (\<lambda>(a, q). length q = length p)"
  by (auto simp: decrement_ttl_def ld_iphdr_def st_iphdr_def ld_ipv6hdr_def st_ipv6hdr_def wp_simps Let_def)

section \<open>The outer IPv4 header\<close>

lemma create_v4_hdr_valid: "csum_valid (wsum (enc_iphdr (create_v4_hdr h t s d n pr)))"
  unfolding create_v4_hdr_def Let_def by (rule ipv4_csum_inline_valid) simp

lemma create_v4_hdr_fields [simp]:
  "iph_version (create_v4_hdr h t s d n pr) = 4" "iph_ihl (create_v4_hdr h t s d n pr) = 5"
  "iph_tos (create_v4_hdr h t s d n pr) = t" "iph_saddr (create_v4_hdr h t s d n pr) = s"
  "iph_daddr (create_v4_hdr h t s d n pr) = d" "iph_protocol (create_v4_hdr h t s d n pr) = pr"
  "iph_ttl (create_v4_hdr h t s d n pr) = DEFAULT_TTL"
  "iph_frag_off (create_v4_hdr h t s d n pr) = 0"
  "iph_tot_len (create_v4_hdr h t s d n pr) = bpf_htons (n + 20)"
  by (simp_all add: create_v4_hdr_def Let_def)

end
