(* ===== verification/Pckt_Parsing.thy ===== *)
theory Pckt_Parsing
  imports Headers
begin

text \<open>
  The transport-header parsers of \<open>src/katran/lib/bpf/pckt_parsing.h\<close>. A parser takes the
  packet and the packet description and returns its C result with the updated description;
  \<open>None\<close> would be an access outside the packet. \<open>parse_quic\<close> returns the C \<open>int\<close>: -1 for
  \<open>FURTHER_PROCESSING\<close>, otherwise the 16-bit server id taken from the connection id.
\<close>

section \<open>Definitions\<close>

definition is_icmp :: "packet_description \<Rightarrow> bool" where
  "is_icmp pckt \<longleftrightarrow> pflags pckt AND F_ICMP \<noteq> 0"

definition calc_offset :: "bool \<Rightarrow> bool \<Rightarrow> nat" where
  "calc_offset is_ipv6 icmp =
     (let off = sizeof_eth_hdr in
      if is_ipv6 then
        (let off = off + sizeof_ipv6hdr
         in if icmp then off + (sizeof_icmp6hdr + sizeof_ipv6hdr) else off)
      else
        (let off = off + sizeof_iphdr
         in if icmp then off + (sizeof_icmphdr + sizeof_iphdr) else off))"

definition set_ports :: "u16 \<Rightarrow> u16 \<Rightarrow> packet_description \<Rightarrow> packet_description" where
  "set_ports p0 p1 pckt = pckt\<lparr>flow := (flow pckt)\<lparr>port16_0 := p0, port16_1 := p1\<rparr>\<rparr>"

definition parse_udp :: "packet \<Rightarrow> bool \<Rightarrow> packet_description \<Rightarrow> (bool \<times> packet_description) option" where
  "parse_udp p is_ipv6 pckt =
     (let icmp = is_icmp pckt; off = calc_offset is_ipv6 icmp in
      if off + sizeof_udphdr > length p then Some (False, pckt)
      else do {
        udp \<leftarrow> ld_udphdr p off;
        Some (True,
          if \<not> icmp then set_ports (udp_source udp) (udp_dest udp) pckt
          else set_ports (udp_dest udp) (udp_source udp) pckt)
      })"

definition parse_tcp :: "packet \<Rightarrow> bool \<Rightarrow> packet_description \<Rightarrow> (bool \<times> packet_description) option" where
  "parse_tcp p is_ipv6 pckt =
     (let icmp = is_icmp pckt; off = calc_offset is_ipv6 icmp in
      if off + sizeof_tcphdr > length p then Some (False, pckt)
      else do {
        tcp \<leftarrow> ld_tcphdr p off;
        let pckt = (if tcp_syn tcp then pckt\<lparr>pflags := pflags pckt OR F_SYN_SET\<rparr> else pckt);
        Some (True,
          if \<not> icmp then set_ports (tcp_source tcp) (tcp_dest tcp) pckt
          else set_ports (tcp_dest tcp) (tcp_source tcp) pckt)
      })"

text \<open>
  The packed QUIC headers: flags, version (4 bytes), connection id lengths and the first eight
  bytes of the destination connection id for a long header; flags and connection id for a
  short one.
\<close>

record quic_long_header =
  ql_flags :: u8
  ql_version :: u32
  ql_conn_id_lens :: u8
  ql_dst_connection_id :: "u8 list"

definition sizeof_quic_long_header :: nat where [simp]: "sizeof_quic_long_header = 14"

definition dec_quic_long_header :: "u8 list \<Rightarrow> quic_long_header" where
  "dec_quic_long_header b = \<lparr>ql_flags = b ! 0, ql_version = le32 (slice b 1 4),
     ql_conn_id_lens = b ! 5, ql_dst_connection_id = slice b 6 8\<rparr>"

record quic_short_header =
  qs_flags :: u8
  qs_connection_id :: "u8 list"

definition sizeof_quic_short_header :: nat where [simp]: "sizeof_quic_short_header = 9"

definition dec_quic_short_header :: "u8 list \<Rightarrow> quic_short_header" where
  "dec_quic_short_header b = \<lparr>qs_flags = b ! 0, qs_connection_id = slice b 1 8\<rparr>"

text \<open>
  The server id in a connection id: the version in the top two bits of the first byte, then
  sixteen bits. The C expression works on \<open>int\<close> after promotion.
\<close>

definition quic_server_id :: "u8 list \<Rightarrow> int" where
  "quic_server_id connId =
     (if drop_bit 6 (connId ! 0) = QUIC_CONNID_VERSION
      then (push_bit 10 (uint (connId ! 0 AND 0x3F)) OR push_bit 2 (uint (connId ! 1)) OR
        drop_bit 6 (uint (connId ! 2)))
      else -1)"

definition parse_quic :: "packet \<Rightarrow> bool \<Rightarrow> packet_description \<Rightarrow> int option" where
  "parse_quic p is_ipv6 pckt =
     (let off = calc_offset is_ipv6 (is_icmp pckt); quic_data = off + sizeof_udphdr in
      if quic_data + 1 > length p then Some (-1)
      else do {
        pkt_type \<leftarrow> ld8 p quic_data;
        if pkt_type AND QUIC_LONG_HEADER = QUIC_LONG_HEADER then
          (if quic_data + sizeof_quic_long_header > length p then Some (-1)
           else if pkt_type AND QUIC_PACKET_TYPE_MASK < QUIC_HANDSHAKE then Some (-1)
           else do {
             lh \<leftarrow> map_option dec_quic_long_header (ldn p quic_data sizeof_quic_long_header);
             if ql_version lh = QUIC_VERSION_MVFST_OLD then
               (if drop_bit 4 (ql_conn_id_lens lh) < QUIC_MIN_CONNID_LEN then Some (-1)
                else Some (quic_server_id (ql_dst_connection_id lh)))
             else if ql_conn_id_lens lh < QUIC_MIN_CONNID_LEN then Some (-1)
             else Some (quic_server_id (ql_dst_connection_id lh))
           })
        else
          (if quic_data + sizeof_quic_short_header > length p then Some (-1)
           else do {
             sh \<leftarrow> map_option dec_quic_short_header (ldn p quic_data sizeof_quic_short_header);
             Some (quic_server_id (qs_connection_id sh))
           })
      })"

section \<open>Memory safety and frames\<close>

named_theorems parser_defs \<open>definitions of the packet parsers\<close>

lemmas [parser_defs] = parse_udp_def parse_tcp_def parse_quic_def ld8_def ld_udphdr_def
  ld_tcphdr_def Let_def

text \<open>What a transport parser leaves alone: the addresses, the protocol, the tos and the index.\<close>

definition same_l3 :: "packet_description \<Rightarrow> packet_description \<Rightarrow> bool" where
  "same_l3 a b \<longleftrightarrow> srcv6 (flow a) = srcv6 (flow b) \<and> dstv6 (flow a) = dstv6 (flow b) \<and>
     proto (flow a) = proto (flow b) \<and> tos a = tos b \<and> real_index a = real_index b"

lemma parse_udp_safe: "wp (parse_udp p v6 pckt) (\<lambda>(ok, q). same_l3 q pckt \<and> pflags q = pflags pckt)"
  by (auto simp: parser_defs wp_simps set_ports_def same_l3_def)

lemma parse_tcp_safe: "wp (parse_tcp p v6 pckt) (\<lambda>(ok, q). same_l3 q pckt)"
  by (auto simp: parser_defs wp_simps set_ports_def same_l3_def)

lemma parse_quic_safe: "wp (parse_quic p v6 pckt) (\<lambda>_. True)"
  by (auto simp: parser_defs wp_simps)

section \<open>The QUIC server id\<close>

text \<open>The connection id that carries a 16-bit server id, as the comment of the source lays it out.\<close>

definition mk_conn_id :: "u16 \<Rightarrow> u8 list" where
  "mk_conn_id sid = [push_bit 6 QUIC_CONNID_VERSION OR ucast (drop_bit 10 sid), ucast (drop_bit 2 sid), ucast (push_bit 6 sid)]"

lemma and_3F: "x AND 0x3F = take_bit 6 (x :: u8)"
proof -
  have "(0x3F :: u8) = mask 6" by (simp add: mask_eq_exp_minus_1)
  then show ?thesis by (simp only: take_bit_eq_mask)
qed

lemma bit_64D: "bit (64 :: 'a::semiring_bits) n \<Longrightarrow> n = 6"
proof -
  have "(64 :: 'a) = 2 ^ 6" by simp
  moreover assume "bit (64 :: 'a) n"
  ultimately show ?thesis by (simp only: bit_exp_iff)
qed

text \<open>Read as a word, the C expression on \<open>int\<close> needs sixteen bits only.\<close>

lemma quic_server_id_word:
  assumes "drop_bit 6 (c ! 0) = QUIC_CONNID_VERSION"
  shows "quic_server_id c = uint (push_bit 10 (ucast (c ! 0)) OR push_bit 2 (ucast (c ! 1)) OR
    drop_bit 6 (ucast (c ! 2)) :: u16)"
  using assms unfolding quic_server_id_def and_3F
  by (auto simp: bit_simps intro!: bit_eqI dest: bit_imp_le_length)
    (auto dest!: bit_imp_le_length)

lemma quic_server_id_range: "quic_server_id c = -1 \<or> (0 \<le> quic_server_id c \<and> quic_server_id c < 65536)"
proof (cases "drop_bit 6 (c ! 0) = QUIC_CONNID_VERSION")
  case True
  let ?w = "push_bit 10 (ucast (c ! 0)) OR push_bit 2 (ucast (c ! 1)) OR drop_bit 6 (ucast (c ! 2)) :: u16"
  have "uint ?w < 65536" using uint_lt2p [of ?w] by simp
  then show ?thesis using quic_server_id_word [OF True] by simp
next
  case False
  then show ?thesis by (simp add: quic_server_id_def)
qed

lemma quic_server_id_mk: "quic_server_id (mk_conn_id sid @ rest) = uint sid"
proof -
  let ?c = "mk_conn_id sid @ rest"
  have ver: "drop_bit 6 (?c ! 0) = QUIC_CONNID_VERSION"
    by (auto simp: mk_conn_id_def bit_simps intro!: bit_word_eqI dest: bit_imp_le_length)
  have "(push_bit 10 (ucast (?c ! 0)) OR push_bit 2 (ucast (?c ! 1)) OR
    drop_bit 6 (ucast (?c ! 2)) :: u16) = sid"
    (is "?w = sid")
  proof (rule bit_word_eqI)
    fix n assume "n < LENGTH(16)"
    then have n: "n < 16" by simp
    consider "n < 2" | "2 \<le> n \<and> n < 10" | "10 \<le> n" by linarith
    then consider "n < 2" | k where "n = 2 + k" "k < 8" | k where "n = 10 + k" "k < 6"
      using n by cases (auto simp: le_iff_add)
    then show "bit ?w n = bit sid n"
      by cases (auto simp: mk_conn_id_def bit_simps dest: bit_64D)
  qed
  then show ?thesis by (simp only: quic_server_id_word [OF ver])
qed

end
