(* ===== verification/Handle_Icmp.thy ===== *)
theory Handle_Icmp
  imports Encap Pckt_Parsing
begin

text \<open>
  ICMP: \<open>src/katran/lib/bpf/handle_icmp.h\<close>. Echo requests are answered in place, a packet that
  is too big is turned into an ICMP error for its sender, and an ICMP error from the network is
  parsed so that it follows the flow it is about: the description takes the addresses of the
  quoted packet with source and destination exchanged.
\<close>

section \<open>Definitions\<close>

definition swap_mac_and_send :: "packet \<Rightarrow> (xdp_action \<times> packet) option" where
  "swap_mac_and_send p = do {
     tmp_mac \<leftarrow> ldn p 6 6;
     eth_dest \<leftarrow> ldn p 0 6;
     p \<leftarrow> stn p 6 eth_dest;
     p \<leftarrow> stn p 0 tmp_mac;
     Some (XDP_TX, p)
   }"

definition swap_mac :: "packet \<Rightarrow> nat \<Rightarrow> packet option" where
  "swap_mac p orig_eth = do {
     orig_dest \<leftarrow> ldn p orig_eth 6;
     p \<leftarrow> stn p 6 orig_dest;
     orig_source \<leftarrow> ldn p (orig_eth + 6) 6;
     p \<leftarrow> stn p 0 orig_source;
     eth_p \<leftarrow> ld16 p (orig_eth + 12);
     st16 p 12 eth_p
   }"

definition send_icmp_reply :: "packet \<Rightarrow> (xdp_action \<times> packet) option" where
  "send_icmp_reply p =
     (if sizeof_eth_hdr + sizeof_iphdr + sizeof_icmphdr > length p then Some (XDP_DROP, p)
      else do {
        icmp \<leftarrow> ld_icmphdr p (sizeof_eth_hdr + sizeof_iphdr);
        p \<leftarrow> st_icmphdr p (sizeof_eth_hdr + sizeof_iphdr)
          (icmp\<lparr>icmp_type := ICMP_ECHOREPLY, icmp_checksum := icmp_checksum icmp + 0x0008\<rparr>);
        iph \<leftarrow> ld_iphdr p sizeof_eth_hdr;
        let iph = iph\<lparr>iph_ttl := DEFAULT_TTL, iph_daddr := iph_saddr iph,
                      iph_saddr := iph_daddr iph, iph_check := 0\<rparr>;
        let csum = ipv4_csum_inline iph 0;
        p \<leftarrow> st_iphdr p sizeof_eth_hdr (iph\<lparr>iph_check := ucast csum\<rparr>);
        swap_mac_and_send p
      })"

definition send_icmp6_reply :: "packet \<Rightarrow> (xdp_action \<times> packet) option" where
  "send_icmp6_reply p =
     (if sizeof_eth_hdr + sizeof_ipv6hdr + sizeof_icmp6hdr > length p then Some (XDP_DROP, p)
      else do {
        icmp \<leftarrow> ld_icmphdr p (sizeof_eth_hdr + sizeof_ipv6hdr);
        p \<leftarrow> st_icmphdr p (sizeof_eth_hdr + sizeof_ipv6hdr)
          (icmp\<lparr>icmp_type := ICMPV6_ECHO_REPLY, icmp_checksum := icmp_checksum icmp - 0x0001\<rparr>);
        ip6h \<leftarrow> ld_ipv6hdr p sizeof_eth_hdr;
        p \<leftarrow> st_ipv6hdr p sizeof_eth_hdr
          (ip6h\<lparr>ip6_hop_limit := DEFAULT_TTL, ip6_saddr := ip6_daddr ip6h,
                ip6_daddr := ip6_saddr ip6h\<rparr>);
        swap_mac_and_send p
      })"

definition send_icmp4_too_big :: "bpf_helpers \<Rightarrow> packet \<Rightarrow> (xdp_action \<times> packet) option" where
  "send_icmp4_too_big H p =
     (let headroom = sizeof_iphdr + sizeof_icmphdr in
      case xdp_adjust_head H p (0 - int headroom) of
        None \<Rightarrow> Some (XDP_DROP, p)
      | Some p \<Rightarrow>
          if ICMP_TOOBIG_SIZE + headroom > length p then Some (XDP_DROP, p)
          else do {
            p \<leftarrow> swap_mac p headroom;
            let iph_off = sizeof_eth_hdr;
            let icmp_off = iph_off + sizeof_iphdr;
            let orig_off = icmp_off + sizeof_icmphdr;
            icmp \<leftarrow> ld_icmphdr p icmp_off;
            let icmp = icmp\<lparr>icmp_type := ICMP_DEST_UNREACH, icmp_code := ICMP_FRAG_NEEDED,
                  icmp_un1 := bpf_htons (of_nat (MAX_PCKT_SIZE - sizeof_eth_hdr)), icmp_checksum := 0\<rparr>;
            p \<leftarrow> st_icmphdr p icmp_off icmp;
            payload \<leftarrow> ldn p icmp_off ICMP_TOOBIG_PAYLOAD_SIZE;
            let csum = ipv4_csum (csum_diff H) payload 0;
            p \<leftarrow> st_icmphdr p icmp_off (icmp\<lparr>icmp_checksum := ucast csum\<rparr>);
            iph \<leftarrow> ld_iphdr p iph_off;
            orig_iph \<leftarrow> ld_iphdr p orig_off;
            let iph = iph\<lparr>iph_ttl := DEFAULT_TTL, iph_daddr := iph_saddr orig_iph,
                  iph_saddr := iph_daddr orig_iph, iph_version := 4, iph_ihl := 5,
                  iph_protocol := IPPROTO_ICMP, iph_tos := 0,
                  iph_tot_len := bpf_htons (of_nat (ICMP_TOOBIG_SIZE + headroom - sizeof_eth_hdr)),
                  iph_check := 0\<rparr>;
            p \<leftarrow> st_iphdr p iph_off iph;
            hdr \<leftarrow> ldn p iph_off sizeof_iphdr;
            let csum = ipv4_csum (csum_diff H) hdr 0;
            p \<leftarrow> st_iphdr p iph_off (iph\<lparr>iph_check := ucast csum\<rparr>);
            Some (XDP_TX, p)
          })"

definition send_icmp6_too_big :: "bpf_helpers \<Rightarrow> packet \<Rightarrow> (xdp_action \<times> packet) option" where
  "send_icmp6_too_big H p =
     (let headroom = sizeof_ipv6hdr + sizeof_icmp6hdr in
      case xdp_adjust_head H p (0 - int headroom) of
        None \<Rightarrow> Some (XDP_DROP, p)
      | Some p \<Rightarrow>
          if ICMP6_TOOBIG_SIZE + headroom > length p then Some (XDP_DROP, p)
          else do {
            p \<leftarrow> swap_mac p headroom;
            let ip6_off = sizeof_eth_hdr;
            let icmp_off = ip6_off + sizeof_ipv6hdr;
            let orig_off = icmp_off + sizeof_icmp6hdr;
            ip6h \<leftarrow> ld_ipv6hdr p ip6_off;
            orig_ip6h \<leftarrow> ld_ipv6hdr p orig_off;
            let ip6h = ip6h\<lparr>ip6_version := 6, ip6_priority := 0, ip6_nexthdr := IPPROTO_ICMPV6,
                  ip6_hop_limit := DEFAULT_TTL,
                  ip6_payload_len := bpf_htons (of_nat ICMP6_TOOBIG_PAYLOAD_SIZE),
                  ip6_flow_lbl0 := 0, ip6_flow_lbl1 := 0, ip6_flow_lbl2 := 0,
                  ip6_daddr := ip6_saddr orig_ip6h, ip6_saddr := ip6_daddr orig_ip6h\<rparr>;
            p \<leftarrow> st_ipv6hdr p ip6_off ip6h;
            icmp \<leftarrow> ld_icmphdr p icmp_off;
            let mtu = bpf_htonl (of_nat (MAX_PCKT_SIZE - sizeof_eth_hdr));
            let icmp = icmp\<lparr>icmp_type := ICMPV6_PKT_TOOBIG, icmp_code := 0,
                  icmp_un0 := ucast mtu, icmp_un1 := ucast (drop_bit 16 mtu), icmp_checksum := 0\<rparr>;
            p \<leftarrow> st_icmphdr p icmp_off icmp;
            payload \<leftarrow> ldn p icmp_off ICMP6_TOOBIG_PAYLOAD_SIZE;
            let csum = ipv6_csum (csum_diff H) payload (of_nat ICMP6_TOOBIG_PAYLOAD_SIZE) 0 ip6h;
            p \<leftarrow> st_icmphdr p icmp_off (icmp\<lparr>icmp_checksum := ucast csum\<rparr>);
            Some (XDP_TX, p)
          })"

definition send_icmp_too_big ::
  "bpf_helpers \<Rightarrow> packet \<Rightarrow> bool \<Rightarrow> nat \<Rightarrow> (xdp_action \<times> packet) option" where
  "send_icmp_too_big H p is_ipv6 pckt_size =
     (let offset = int pckt_size - (if is_ipv6 then int ICMP6_TOOBIG_SIZE else int ICMP_TOOBIG_SIZE) in
      case xdp_adjust_tail H p (0 - offset) of
        None \<Rightarrow> Some (XDP_DROP, p)
      | Some p \<Rightarrow> if is_ipv6 then send_icmp6_too_big H p else send_icmp4_too_big H p)"

definition parse_icmpv6 ::
  "packet \<Rightarrow> nat \<Rightarrow> packet_description \<Rightarrow> (step \<times> packet \<times> packet_description) option" where
  "parse_icmpv6 p off pckt =
     (if off + sizeof_icmp6hdr > length p then Some (Return XDP_DROP, p, pckt)
      else do {
        icmp \<leftarrow> ld_icmphdr p off;
        if icmp_type icmp = ICMPV6_ECHO_REQUEST then do {
          (a, p) \<leftarrow> send_icmp6_reply p;
          Some (Return a, p, pckt)
        }
        else if icmp_type icmp \<noteq> ICMPV6_PKT_TOOBIG \<and> icmp_type icmp \<noteq> ICMPV6_DEST_UNREACH
        then Some (Return XDP_PASS, p, pckt)
        else (let off = off + sizeof_icmp6hdr in
          if off + sizeof_ipv6hdr > length p then Some (Return XDP_DROP, p, pckt)
          else do {
            ip6h \<leftarrow> ld_ipv6hdr p off;
            Some (FURTHER_PROCESSING, p,
              pckt\<lparr>flow := (flow pckt)\<lparr>proto := ip6_nexthdr ip6h, srcv6 := ip6_daddr ip6h,
                     dstv6 := ip6_saddr ip6h\<rparr>,
                   pflags := pflags pckt OR F_ICMP\<rparr>)
          })
      })"

definition set_flow_v4 :: "u32 \<Rightarrow> u32 \<Rightarrow> flow_key \<Rightarrow> flow_key" where
  "set_flow_v4 s d f = f\<lparr>srcv6 := (srcv6 f)\<lparr>s6_0 := s\<rparr>, dstv6 := (dstv6 f)\<lparr>s6_0 := d\<rparr>\<rparr>"

definition parse_icmp ::
  "packet \<Rightarrow> nat \<Rightarrow> packet_description \<Rightarrow> (step \<times> packet \<times> packet_description) option" where
  "parse_icmp p off pckt =
     (if off + sizeof_icmphdr > length p then Some (Return XDP_DROP, p, pckt)
      else do {
        icmp \<leftarrow> ld_icmphdr p off;
        if icmp_type icmp = ICMP_ECHO then do {
          (a, p) \<leftarrow> send_icmp_reply p;
          Some (Return a, p, pckt)
        }
        else if icmp_type icmp \<noteq> ICMP_DEST_UNREACH then Some (Return XDP_PASS, p, pckt)
        else (let off = off + sizeof_icmphdr in
          if off + sizeof_iphdr > length p then Some (Return XDP_DROP, p, pckt)
          else do {
            iph \<leftarrow> ld_iphdr p off;
            if iph_ihl iph \<noteq> 5 then Some (Return XDP_DROP, p, pckt)
            else Some (FURTHER_PROCESSING, p,
              pckt\<lparr>flow := set_flow_v4 (iph_daddr iph) (iph_saddr iph)
                     ((flow pckt)\<lparr>proto := iph_protocol iph\<rparr>),
                   pflags := pflags pckt OR F_ICMP\<rparr>)
          })
      })"

section \<open>Memory safety\<close>

named_theorems hdr_access \<open>loads and stores of headers\<close>

lemmas [hdr_access] = ld16_def st16_def ld_iphdr_def st_iphdr_def ld_ipv6hdr_def st_ipv6hdr_def
  ld_udphdr_def st_udphdr_def ld_tcphdr_def ld_icmphdr_def st_icmphdr_def Let_def

lemma swap_mac_and_send_safe:
  "14 \<le> length p \<Longrightarrow> wp (swap_mac_and_send p) (\<lambda>(a, q). a = XDP_TX \<and> length q = length p)"
  by (simp add: swap_mac_and_send_def wp_simps)

lemma send_icmp_reply_safe: "wp (send_icmp_reply p) (\<lambda>(a, q). length q = length p)"
  by (auto simp: send_icmp_reply_def hdr_access wp_simps intro!: wp_mono [OF swap_mac_and_send_safe])

lemma send_icmp6_reply_safe: "wp (send_icmp6_reply p) (\<lambda>(a, q). length q = length p)"
  by (auto simp: send_icmp6_reply_def hdr_access wp_simps intro!: wp_mono [OF swap_mac_and_send_safe])

lemma send_icmp4_too_big_safe: "wp (send_icmp4_too_big H p) (\<lambda>_. True)"
  by (auto simp: send_icmp4_too_big_def swap_mac_def hdr_access wp_simps split: option.split)

lemma send_icmp6_too_big_safe: "wp (send_icmp6_too_big H p) (\<lambda>_. True)"
  by (auto simp: send_icmp6_too_big_def swap_mac_def hdr_access wp_simps split: option.split)

lemma send_icmp_too_big_safe: "wp (send_icmp_too_big H p v6 n) (\<lambda>_. True)"
  by (simp add: send_icmp_too_big_def wp_simps send_icmp4_too_big_safe send_icmp6_too_big_safe Let_def
      split: option.split)

lemma parse_icmpv6_safe: "wp (parse_icmpv6 p off pckt) (\<lambda>(a, q, pckt'). length q = length p \<and> (a = FURTHER_PROCESSING \<longrightarrow> q = p))"
  by (auto simp: parse_icmpv6_def hdr_access wp_simps intro!: wp_mono [OF send_icmp6_reply_safe])

lemma parse_icmp_safe: "wp (parse_icmp p off pckt) (\<lambda>(a, q, pckt'). length q = length p \<and> (a = FURTHER_PROCESSING \<longrightarrow> q = p))"
  by (auto simp: parse_icmp_def hdr_access wp_simps intro!: wp_mono [OF send_icmp_reply_safe])

end
