(* ===== verification/Jhash.thy ===== *)
theory Jhash
  imports Headers
begin

text \<open>
  Jenkins' hash, \<open>src/katran/lib/linux_includes/jhash.h\<close>: the rotation, the two mixing macros,
  the hash of a byte buffer and of two words.
\<close>

definition rol32 :: "u32 \<Rightarrow> nat \<Rightarrow> u32" where
  "rol32 w shift = push_bit shift w OR drop_bit ((32 - shift mod 32) mod 32) w"

type_synonym jstate = "u32 \<times> u32 \<times> u32"

fun jhash_mix :: "jstate \<Rightarrow> jstate" where
  "jhash_mix (a, b, c) =
     (let a = a - c; a = a XOR rol32 c 4; c = c + b;
          b = b - a; b = b XOR rol32 a 6; a = a + c;
          c = c - b; c = c XOR rol32 b 8; b = b + a;
          a = a - c; a = a XOR rol32 c 16; c = c + b;
          b = b - a; b = b XOR rol32 a 19; a = a + c;
          c = c - b; c = c XOR rol32 b 4; b = b + a
      in (a, b, c))"

fun jhash_final :: "jstate \<Rightarrow> jstate" where
  "jhash_final (a, b, c) =
     (let c = c XOR b; c = c - rol32 b 14;
          a = a XOR c; a = a - rol32 c 11;
          b = b XOR a; b = b - rol32 a 25;
          c = c XOR b; c = c - rol32 b 16;
          a = a XOR c; a = a - rol32 c 4;
          b = b XOR a; b = b - rol32 a 14;
          c = c XOR b; c = c - rol32 b 24
      in (a, b, c))"

definition JHASH_INITVAL :: u32 where [simp]: "JHASH_INITVAL = 0xdeadbeef"

text \<open>
  The loop of \<open>jhash\<close> consumes twelve bytes while more than twelve are left; \<open>k\<close> is the rest
  of the buffer, its length the counter \<open>length\<close>. The \<open>switch\<close> that follows falls through: it
  adds byte \<open>i\<close> exactly when at least \<open>i + 1\<close> bytes are left, and mixes unless none is.
\<close>

function jhash_loop :: "u8 list \<Rightarrow> jstate \<Rightarrow> u8 list \<times> jstate" where
  "jhash_loop k (a, b, c) =
     (if length k > 12 then
        jhash_loop (drop 12 k)
          (jhash_mix (a + le32 (slice k 0 4), b + le32 (slice k 4 4), c + le32 (slice k 8 4)))
      else (k, (a, b, c)))"
  by pat_completeness auto
termination
  by (relation "measure (\<lambda>(k, s). length k)") auto

definition tail_byte :: "u8 list \<Rightarrow> nat \<Rightarrow> nat \<Rightarrow> u32" where
  "tail_byte k i sh = (if i < length k then push_bit sh (ucast (k ! i)) else 0)"

definition jhash_tail :: "u8 list \<Rightarrow> jstate \<Rightarrow> u32" where
  "jhash_tail k s =
     (let (a, b, c) = s;
          c = c + tail_byte k 11 24 + tail_byte k 10 16 + tail_byte k 9 8 + tail_byte k 8 0;
          b = b + tail_byte k 7 24 + tail_byte k 6 16 + tail_byte k 5 8 + tail_byte k 4 0;
          a = a + tail_byte k 3 24 + tail_byte k 2 16 + tail_byte k 1 8 + tail_byte k 0 0
      in if k = [] then c else snd (snd (jhash_final (a, b, c))))"

definition jhash :: "u8 list \<Rightarrow> u32 \<Rightarrow> u32" where
  "jhash key initval =
     (let i = JHASH_INITVAL + of_nat (length key) + initval;
          (k, s) = jhash_loop key (i, i, i)
      in jhash_tail k s)"

definition jhash_nwords :: "u32 \<Rightarrow> u32 \<Rightarrow> u32 \<Rightarrow> u32 \<Rightarrow> u32" where
  "jhash_nwords a b c initval =
     snd (snd (jhash_final (a + initval, b + initval, c + initval)))"

definition jhash_2words :: "u32 \<Rightarrow> u32 \<Rightarrow> u32 \<Rightarrow> u32" where
  "jhash_2words a b initval = jhash_nwords a b 0 (initval + JHASH_INITVAL + 8)"

definition jhash_1word :: "u32 \<Rightarrow> u32 \<Rightarrow> u32" where
  "jhash_1word a initval = jhash_nwords a 0 0 (initval + JHASH_INITVAL + 4)"

declare jhash_loop.simps [simp del] jhash_mix.simps [simp del] jhash_final.simps [simp del]

section \<open>The rotation is a rotation\<close>

lemma rol32_word_rotl:
  assumes "shift < 32"
  shows "rol32 w shift = word_rotl shift w"
proof (rule bit_word_eqI)
  fix n assume n: "n < LENGTH(32)"
  have rot: "bit (word_rotl shift w) n = bit w ((n + (32 - shift)) mod 32)"
    using n assms by (cases "shift = 0") (simp_all add: bit_word_rotl_iff)
  show "bit (rol32 w shift) n \<longleftrightarrow> bit (word_rotl shift w) n"
  proof (cases "shift \<le> n")
    case True
    with n have "(n + (32 - shift)) mod 32 = n - shift"
      using assms by (simp add: mod_if)
    with True n assms show ?thesis
      unfolding rot
      by (cases "shift = 0") (auto simp: rol32_def bit_simps dest: bit_imp_le_length)
  next
    case False
    with n assms have "(n + (32 - shift)) mod 32 = n + (32 - shift)"
      by (simp add: mod_if)
    with False n assms show ?thesis
      unfolding rot by (auto simp: rol32_def bit_simps add.commute)
  qed
qed

text \<open>What is left for the \<open>switch\<close> is at most twelve bytes, and none only for an empty key.\<close>

lemma jhash_loop_rest:
  "length (fst (jhash_loop k s)) \<le> 12 \<and> (fst (jhash_loop k s) = [] \<longleftrightarrow> k = [])"
proof (induction k s rule: jhash_loop.induct)
  case (1 k a b c)
  show ?case
  proof (cases "length k > 12")
    case True
    with 1 have "k \<noteq> []" "drop 12 k \<noteq> []" by auto
    with True 1 show ?thesis by (subst (1 2) jhash_loop.simps) simp
  next
    case False
    then show ?thesis by (simp add: jhash_loop.simps)
  qed
qed

end
