(* ===== verification/Xdp_Program.thy ===== *)
theory Xdp_Program
  imports Balancer_Consts
begin

text \<open>
  XDP programs under the kernel: tail calls, packets that arrive one after the other, and the
  contract every program of the repository meets. A program runs on a state \<open>'s\<close>; it fails
  (\<open>None\<close>) when it makes an access the kernel would have to refuse.
\<close>

section \<open>Running a program\<close>

text \<open>
  Tail calls: \<open>prog\<close> runs again as long as slot \<open>RECIRCULATION_INDEX\<close> of the program array is
  filled and fewer than \<open>limit\<close> jumps were made (\<open>bpf.h\<close> documents the kernel's 32); a jump
  that is refused falls through to \<open>return XDP_PASS\<close> in \<open>recirculate\<close>.
\<close>

definition MAX_TAIL_CALL_CNT :: nat where [simp]: "MAX_TAIL_CALL_CNT = 32"

fun run_tail_calls ::
  "(u32 \<Rightarrow> bool) \<Rightarrow> ('s \<Rightarrow> (outcome \<times> 's) option) \<Rightarrow> nat \<Rightarrow> 's \<Rightarrow> (xdp_action \<times> 's) option" where
  "run_tail_calls filled prog limit s = do {
     (r, s) \<leftarrow> prog s;
     (case r of
        Finish a \<Rightarrow> Some (a, s)
      | Tail_call i \<Rightarrow>
          if filled i then
            (case limit of 0 \<Rightarrow> Some (XDP_PASS, s) | Suc n \<Rightarrow> run_tail_calls filled prog n s)
          else Some (XDP_PASS, s))
   }"

declare run_tail_calls.simps [simp del]

text \<open>A CPU serves packets in the order of their arrival; \<open>arrive\<close> places a packet in the state.\<close>

fun serve ::
  "('p \<Rightarrow> 's \<Rightarrow> 's) \<Rightarrow> ('s \<Rightarrow> (xdp_action \<times> 's) option) \<Rightarrow> 'p list \<Rightarrow> 's \<Rightarrow> (xdp_action list \<times> 's) option" where
  "serve arrive prog [] s = Some ([], s)"
| "serve arrive prog (p # ps) s = do {
     (a, s) \<leftarrow> prog (arrive p s);
     (as, s) \<leftarrow> serve arrive prog ps s;
     Some (a # as, s)
   }"

section \<open>The contract\<close>

lemma run_tail_calls_safe:
  assumes "\<And>s. wp (prog s) (\<lambda>(a, t). R s t)" "\<And>s t u. R s t \<Longrightarrow> R t u \<Longrightarrow> R s u"
  shows "wp (run_tail_calls filled prog n s) (\<lambda>(a, t). R s t)"
proof (induction n arbitrary: s)
  case 0
  show ?case by (subst run_tail_calls.simps) (auto split: outcome.split intro!: wp_mono [OF assms(1)])
next
  case (Suc n)
  have "wp (run_tail_calls filled prog n t) (\<lambda>(a, t). R s t)" if "R s t" for t
    using that by (auto intro!: wp_mono [OF Suc] intro: assms(2))
  then show ?case
    by (subst run_tail_calls.simps) (auto split: outcome.split intro!: wp_mono [OF assms(1)])
qed

text \<open>
  A program that never fails and keeps a transitive relation between the state before and
  after. Tail calls and sequences of packets inherit both: every packet gets a verdict.
\<close>

locale xdp_program =
  fixes prog :: "'s \<Rightarrow> (outcome \<times> 's) option" and keeps :: "'s \<Rightarrow> 's \<Rightarrow> bool"
  assumes safe: "wp (prog s) (\<lambda>(a, t). keeps s t)"
    and keeps_refl: "keeps s s"
    and keeps_trans: "keeps s t \<Longrightarrow> keeps t u \<Longrightarrow> keeps s u"
begin

lemma run_safe: "wp (run_tail_calls filled prog n s) (\<lambda>(a, t). keeps s t)"
  by (rule run_tail_calls_safe [OF safe]) (rule keeps_trans)

lemma serve_safe:
  assumes "\<And>p s. keeps s (arrive p s)"
  shows "wp (serve arrive (run_tail_calls filled prog n) ps s)
    (\<lambda>(as, t). length as = length ps \<and> keeps s t)"
proof (induction ps arbitrary: s)
  case Nil
  show ?case by (simp add: keeps_refl)
next
  case (Cons p ps)
  have rest: "wp (serve arrive (run_tail_calls filled prog n) ps t)
      (\<lambda>(as, u). length as = length ps \<and> keeps s u)" if "keeps (arrive p s) t" for t
    using that by (auto intro!: wp_mono [OF Cons] intro: keeps_trans assms)
  show ?case
    by (auto intro!: wp_mono [OF run_safe] wp_mono [OF rest])
qed

end

end
