(* ===== verification/Balancer.thy ===== *)
theory Balancer
  imports Handle_Icmp Jhash Xdp_Program
begin

text \<open>
  The load balancer program: \<open>src/katran/lib/bpf/balancer_kern.c\<close>, with \<open>submit_event\<close> and
  \<open>recirculate\<close> of \<open>balancer_helpers.h\<close> and the macros of \<open>introspection.h\<close>.

  Every function works on the state of \<open>Bpf_State\<close>; the parameters \<open>B\<close> and \<open>H\<close> are the build
  flags and the kernel helpers. A function that can leave \<open>process_packet\<close> early returns
  \<open>Inl\<close> of the action; \<open>None\<close> is an access outside the packet, through a \<open>NULL\<close> pointer or to
  an uninitialised variable, and the \<open>_safe\<close> lemmas show that it does not occur.
\<close>

section \<open>Events and counters\<close>

definition MAX_EVENT_SIZE :: u32 where [simp]: "MAX_EVENT_SIZE = 128"

definition TCP_NONSYN_LRUMISS :: u32 where [simp]: "TCP_NONSYN_LRUMISS = 0"

definition submit_event :: "u32 \<Rightarrow> u32 \<Rightarrow> bool \<Rightarrow> bpf_state \<Rightarrow> bpf_state" where
  "submit_event event_id sz metadata_only s =
     (case ctl_array s 5 of
        None \<Rightarrow> s
      | Some gk \<Rightarrow>
          if ctl_u64 gk = 0 then s
          else (let data_len = (if metadata_only then 0 else of_int (min_helper (sint sz) (sint MAX_EVENT_SIZE)));
                    md = \<lparr>md_event = event_id, md_pkt_size = sz, md_data_len = data_len\<rparr>
                in s\<lparr>event_pipe := event_pipe s @ [\<lparr>ev_meta = md, ev_data = take (unat data_len) (pkt s)\<rparr>]\<rparr>))"

definition REPORT_EVENT :: "build_flags \<Rightarrow> u32 \<Rightarrow> u32 \<Rightarrow> bool \<Rightarrow> bpf_state \<Rightarrow> bpf_state" where
  "REPORT_EVENT B event sz meta_only s =
     (if KATRAN_INTROSPECTION B then submit_event event sz meta_only s else s)"

text \<open>\<open>data_stats->v1 += a; data_stats->v2 += b\<close> through a pointer to entry \<open>k\<close> of \<open>stats\<close>.\<close>

definition stat_add :: "u32 \<Rightarrow> u64 \<Rightarrow> u64 \<Rightarrow> bpf_state \<Rightarrow> bpf_state option" where
  "stat_add k a b s = do {
     d \<leftarrow> deref (stats s k);
     Some (s\<lparr>stats := (stats s)(k \<mapsto> \<lparr>v1 = v1 d + a, v2 = v2 d + b\<rparr>)\<rparr>)
   }"

definition real_stat_add :: "u32 \<Rightarrow> u64 \<Rightarrow> u64 \<Rightarrow> bpf_state \<Rightarrow> bpf_state option" where
  "real_stat_add k a b s = do {
     d \<leftarrow> deref (reals_stats s k);
     Some (s\<lparr>reals_stats := (reals_stats s)(k \<mapsto> \<lparr>v1 = v1 d + a, v2 = v2 d + b\<rparr>)\<rparr>)
   }"

section \<open>Choosing the real\<close>

definition get_packet_hash :: "packet_description \<Rightarrow> bool \<Rightarrow> u32" where
  "get_packet_hash pckt hash_16bytes =
     (if hash_16bytes
      then jhash_2words (jhash (enc_in6 (srcv6 (flow pckt))) INIT_JHASH_SEED_V6)
             (flow_ports (flow pckt)) INIT_JHASH_SEED
      else jhash_2words (flow_src (flow pckt)) (flow_ports (flow pckt)) INIT_JHASH_SEED)"

definition is_under_flood :: "bpf_helpers \<Rightarrow> u64 \<Rightarrow> bpf_state \<Rightarrow> bool \<times> u64 \<times> bpf_state" where
  "is_under_flood H cur_time s =
     (let conn_rate_key = MAX_VIPS + NEW_CONN_RATE_CNTR in
      case stats s conn_rate_key of
        None \<Rightarrow> (True, cur_time, s)
      | Some st \<Rightarrow>
          (let cur_time = ktime_get_ns H (clock_reads s);
               s = s\<lparr>clock_reads := clock_reads s + 1\<rparr>
           in if cur_time - v2 st > ONE_SEC
              then (False, cur_time, s\<lparr>stats := (stats s)(conn_rate_key \<mapsto> \<lparr>v1 = 1, v2 = cur_time\<rparr>)\<rparr>)
              else (v1 st + 1 > MAX_CONN_RATE, cur_time,
                    s\<lparr>stats := (stats s)(conn_rate_key \<mapsto> st\<lparr>v1 := v1 st + 1\<rparr>)\<rparr>)))"

text \<open>The \<open>void *lru_map\<close> of \<open>process_packet\<close>: the inner map of a CPU or the fallback map.\<close>

datatype lru_ref = Per_cpu u32 | Fallback

definition lru_get :: "lru_ref \<Rightarrow> bpf_state \<Rightarrow> lru_map option" where
  "lru_get r s = (case r of Per_cpu cpu \<Rightarrow> lru_maps_mapping s cpu | Fallback \<Rightarrow> Some (fallback_lru_cache s))"

definition lru_set :: "lru_ref \<Rightarrow> lru_map \<Rightarrow> bpf_state \<Rightarrow> bpf_state" where
  "lru_set r m s = (case r of
       Per_cpu cpu \<Rightarrow> s\<lparr>lru_maps_mapping := (lru_maps_mapping s)(cpu \<mapsto> m)\<rparr>
     | Fallback \<Rightarrow> s\<lparr>fallback_lru_cache := m\<rparr>)"

text \<open>The source-routing block of \<open>get_packet_dst\<close>: the real of the longest matching prefix.\<close>

definition src_route :: "bpf_helpers \<Rightarrow> packet_description \<Rightarrow> bool \<Rightarrow> bpf_state \<Rightarrow> u32 option \<times> bpf_state" where
  "src_route H pckt is_ipv6 s =
     (let lpm_val = (if is_ipv6
            then lpm_lookup_v6 H (lpm_src_v6 s) \<lparr>prefixlen6 = 128, addr6 = srcv6 (flow pckt)\<rparr>
            else lpm_lookup_v4 H (lpm_src_v4 s) \<lparr>prefixlen4 = 32, addr4 = flow_src (flow pckt)\<rparr>);
          stats_key = MAX_VIPS + LPM_SRC_CNTRS
      in (lpm_val,
          case stats s stats_key of
            None \<Rightarrow> s
          | Some d \<Rightarrow> s\<lparr>stats := (stats s)(stats_key \<mapsto>
              (if lpm_val \<noteq> None then d\<lparr>v2 := v2 d + 1\<rparr> else d\<lparr>v1 := v1 d + 1\<rparr>))\<rparr>))"

definition dport_only_flow :: "flow_key \<Rightarrow> flow_key" where
  "dport_only_flow f = f\<lparr>port16_0 := port16_1 f, srcv6 := in6_zero\<rparr>"

definition get_packet_dst ::
  "build_flags \<Rightarrow> bpf_helpers \<Rightarrow> packet_description \<Rightarrow> vip_meta \<Rightarrow> bool \<Rightarrow> lru_ref \<Rightarrow> bpf_state \<Rightarrow>
   (real_definition option \<times> packet_description \<times> bpf_state) option" where
  "get_packet_dst B H pckt vip_info is_ipv6 lru s =
     (let (under_flood, cur_time, s) = is_under_flood H 0 s;
          (src_found, s) =
            (if LPM_SRC_LOOKUP B \<and> vip_flags vip_info AND F_SRC_ROUTING \<noteq> 0 \<and> \<not> under_flood
             then src_route H pckt is_ipv6 s else (None, s));
          pckt =
            (if src_found = None \<and> vip_flags vip_info AND F_HASH_DPORT_ONLY \<noteq> 0
             then pckt\<lparr>flow := dport_only_flow (flow pckt)\<rparr> else pckt);
          real_pos =
            (case src_found of
               Some key \<Rightarrow> Some key
             | None \<Rightarrow> (let hash = get_packet_hash pckt is_ipv6 mod RING_SIZE;
                            key = RING_SIZE * vip_num vip_info + hash
                        in ch_rings s key))
      in case real_pos of
           None \<Rightarrow> Some (None, pckt, s)
         | Some key \<Rightarrow>
             (let pckt = pckt\<lparr>real_index := key\<rparr> in
              case reals s key of
                None \<Rightarrow> Some (None, pckt, s)
              | Some real \<Rightarrow>
                  if vip_flags vip_info AND F_LRU_BYPASS = 0 \<and> \<not> under_flood
                  then do {
                    m \<leftarrow> deref (lru_get lru s);
                    let new_dst_lru =
                      \<lparr>pos = key, atime = (if proto (flow pckt) = IPPROTO_UDP then cur_time else 0)\<rparr>;
                    Some (Some real, pckt, lru_set lru (lru_update H m (flow pckt) new_dst_lru) s)
                  }
                  else Some (Some real, pckt, s)))"

definition connection_table_lookup ::
  "bpf_helpers \<Rightarrow> packet_description \<Rightarrow> lru_ref \<Rightarrow> bpf_state \<Rightarrow>
   (real_definition option \<times> packet_description \<times> bpf_state) option" where
  "connection_table_lookup H pckt lru s = do {
     m \<leftarrow> deref (lru_get lru s);
     (case m (flow pckt) of
        None \<Rightarrow> Some (None, pckt, s)
      | Some dst_lru \<Rightarrow>
          (let udp = (proto (flow pckt) = IPPROTO_UDP);
               cur_time = ktime_get_ns H (clock_reads s);
               s = (if udp then s\<lparr>clock_reads := clock_reads s + 1\<rparr> else s)
           in if udp \<and> cur_time - atime dst_lru > LRU_UDP_TIMEOUT then Some (None, pckt, s)
              else (let s = (if udp then lru_set lru (m(flow pckt \<mapsto> dst_lru\<lparr>atime := cur_time\<rparr>)) s else s);
                        key = pos dst_lru
                    in Some (reals s key, pckt\<lparr>real_index := key\<rparr>, s))))
   }"

section \<open>Headers and inline decapsulation\<close>

definition process_l3_headers ::
  "packet \<Rightarrow> nat \<Rightarrow> bool \<Rightarrow> packet_description \<Rightarrow> (step \<times> packet \<times> packet_description \<times> u16) option" where
  "process_l3_headers p off is_ipv6 pckt =
     (if is_ipv6 then
        (if off + sizeof_ipv6hdr > length p then Some (Return XDP_DROP, p, pckt, 0)
         else do {
           ip6h \<leftarrow> ld_ipv6hdr p off;
           let pckt = pckt\<lparr>flow := (flow pckt)\<lparr>proto := ip6_nexthdr ip6h\<rparr>,
                 tos := (push_bit 4 (ucast (ip6_priority ip6h)) AND 0xF0) OR
                        (drop_bit 4 (ip6_flow_lbl0 ip6h) AND 0x0F)\<rparr>;
           let pkt_bytes = bpf_ntohs (ip6_payload_len ip6h);
           let off = off + sizeof_ipv6hdr;
           if ip6_nexthdr ip6h = IPPROTO_FRAGMENT then Some (Return XDP_DROP, p, pckt, pkt_bytes)
           else if ip6_nexthdr ip6h = IPPROTO_ICMPV6 then do {
             (action, p, pckt) \<leftarrow> parse_icmpv6 p off pckt;
             Some (action, p, pckt, pkt_bytes)
           }
           else Some (FURTHER_PROCESSING, p,
             pckt\<lparr>flow := (flow pckt)\<lparr>srcv6 := ip6_saddr ip6h, dstv6 := ip6_daddr ip6h\<rparr>\<rparr>, pkt_bytes)
         })
      else
        (if off + sizeof_iphdr > length p then Some (Return XDP_DROP, p, pckt, 0)
         else do {
           iph \<leftarrow> ld_iphdr p off;
           if iph_ihl iph \<noteq> 5 then Some (Return XDP_DROP, p, pckt, 0)
           else do {
             let pckt = pckt\<lparr>flow := (flow pckt)\<lparr>proto := iph_protocol iph\<rparr>, tos := iph_tos iph\<rparr>;
             let pkt_bytes = bpf_ntohs (iph_tot_len iph);
             let off = off + IPV4_HDR_LEN_NO_OPT;
             if iph_frag_off iph AND PCKT_FRAGMENTED \<noteq> 0 then Some (Return XDP_DROP, p, pckt, pkt_bytes)
             else if iph_protocol iph = IPPROTO_ICMP then do {
               (action, p, pckt) \<leftarrow> parse_icmp p off pckt;
               Some (action, p, pckt, pkt_bytes)
             }
             else Some (FURTHER_PROCESSING, p,
               pckt\<lparr>flow := set_flow_v4 (iph_saddr iph) (iph_daddr iph) (flow pckt)\<rparr>, pkt_bytes)
           }
         }))"

text \<open>A zeroed 16-byte address union whose 4-byte member is assigned.\<close>

definition in6_v4 :: "u32 \<Rightarrow> in6" where
  "in6_v4 a = in6_zero\<lparr>s6_0 := a\<rparr>"

definition dst_addr :: "packet_description \<Rightarrow> bool \<Rightarrow> in6" where
  "dst_addr pckt is_ipv6 = (if is_ipv6 then dstv6 (flow pckt) else in6_v4 (s6_0 (dstv6 (flow pckt))))"

definition check_decap_dst :: "packet_description \<Rightarrow> bool \<Rightarrow> bool \<Rightarrow> bpf_state \<Rightarrow> step \<times> bool \<times> bpf_state" where
  "check_decap_dst pckt is_ipv6 pass s =
     (case decap_dst s (dst_addr pckt is_ipv6) of
        None \<Rightarrow> (FURTHER_PROCESSING, pass, s)
      | Some flags \<Rightarrow>
          (case stat_add (MAX_VIPS + REMOTE_ENCAP_CNTRS) 1 0 s of
             None \<Rightarrow> (Return XDP_DROP, False, s)
           | Some s \<Rightarrow> (FURTHER_PROCESSING, False, s)))"

definition recirculate :: outcome where
  "recirculate = Tail_call RECIRCULATION_INDEX"

text \<open>The common end of both decapsulators: drop, pass to the kernel or run the program again.\<close>

definition after_decap :: "step \<Rightarrow> bool \<Rightarrow> outcome" where
  "after_decap action pass =
     (case action of
        Return a \<Rightarrow> Finish a
      | FURTHER_PROCESSING \<Rightarrow> if pass then Finish XDP_PASS else recirculate)"

definition process_encaped_ipip_pckt ::
  "bpf_helpers \<Rightarrow> packet \<Rightarrow> bool \<Rightarrow> u8 \<Rightarrow> bool \<Rightarrow> (outcome \<times> packet) option" where
  "process_encaped_ipip_pckt H p is_ipv6 protocol pass =
     (if protocol = IPPROTO_IPIP then
        (if is_ipv6 then
           (let offset = sizeof_ipv6hdr + sizeof_eth_hdr in
            if offset > length p then Some (Finish XDP_DROP, p)
            else do {
              (action, p) \<leftarrow> decrement_ttl p offset False;
              (ok, p) \<leftarrow> decap_v6 H True p;
              Some (if \<not> ok then Finish XDP_DROP else after_decap action pass, p)
            })
         else
           (let offset = sizeof_iphdr + sizeof_eth_hdr in
            if offset > length p then Some (Finish XDP_DROP, p)
            else do {
              (action, p) \<leftarrow> decrement_ttl p offset False;
              (ok, p) \<leftarrow> decap_v4 H p;
              Some (if \<not> ok then Finish XDP_DROP else after_decap action pass, p)
            }))
      else if protocol = IPPROTO_IPV6 then
        (let offset = sizeof_ipv6hdr + sizeof_eth_hdr in
         if offset > length p then Some (Finish XDP_DROP, p)
         else do {
           (action, p) \<leftarrow> decrement_ttl p offset True;
           (ok, p) \<leftarrow> decap_v6 H False p;
           Some (if \<not> ok then Finish XDP_DROP else after_decap action pass, p)
         })
      else None)"

definition process_encaped_gue_pckt ::
  "bpf_helpers \<Rightarrow> packet \<Rightarrow> bool \<Rightarrow> bool \<Rightarrow> (outcome \<times> packet) option" where
  "process_encaped_gue_pckt H p is_ipv6 pass =
     (if is_ipv6 then
        (let offset = sizeof_ipv6hdr + sizeof_eth_hdr + sizeof_udphdr in
         if offset + 1 > length p then Some (Finish XDP_DROP, p)
         else do {
           b \<leftarrow> ld8 p offset;
           let v6 = (b AND GUEV1_IPV6MASK \<noteq> 0);
           (action, p) \<leftarrow> decrement_ttl p offset v6;
           (ok, p) \<leftarrow> gue_decap_v6 H (\<not> v6) p;
           Some (if \<not> ok then Finish XDP_DROP else after_decap action pass, p)
         })
      else
        (let offset = sizeof_iphdr + sizeof_eth_hdr + sizeof_udphdr in
         if offset > length p then Some (Finish XDP_DROP, p)
         else do {
           (action, p) \<leftarrow> decrement_ttl p offset False;
           (ok, p) \<leftarrow> gue_decap_v4 H p;
           Some (if \<not> ok then Finish XDP_DROP else after_decap action pass, p)
         }))"

section \<open>The packet path\<close>

text \<open>
  \<open>process_packet\<close> in the order of the source: the VIP lookup, the size check, the QUIC route,
  the choice of the real by connection table or consistent hash, encapsulation and counters.
\<close>

definition vip_lookup ::
  "(vip_definition \<rightharpoonup> vip_meta) \<Rightarrow> packet_description \<Rightarrow> bool \<Rightarrow> (vip_meta \<times> packet_description) option" where
  "vip_lookup vips pckt is_ipv6 =
     (let vip = \<lparr>vipv6 = dst_addr pckt is_ipv6, vip_port = port16_1 (flow pckt),
                 vip_proto = proto (flow pckt)\<rparr> in
      case vips vip of
        Some vip_info \<Rightarrow> Some (vip_info, pckt)
      | None \<Rightarrow>
          (case vips (vip\<lparr>vip_port := 0\<rparr>) of
             None \<Rightarrow> None
           | Some vip_info \<Rightarrow>
               Some (vip_info,
                 if vip_flags vip_info AND F_HASH_DPORT_ONLY = 0
                 then pckt\<lparr>flow := (flow pckt)\<lparr>port16_1 := 0\<rparr>\<rparr> else pckt)))"

definition packet_too_big ::
  "build_flags \<Rightarrow> bpf_helpers \<Rightarrow> bool \<Rightarrow> bpf_state \<Rightarrow> (xdp_action \<times> bpf_state) option" where
  "packet_too_big B H is_ipv6 s =
     (let s = REPORT_EVENT B (ICMP_TOOBIG B) (of_nat (length (pkt s))) False s in
      if ICMP_TOOBIG_GENERATION B then
        (let stats_key = MAX_VIPS + ICMP_TOOBIG_CNTRS in
         case stat_add stats_key (if is_ipv6 then 0 else 1) (if is_ipv6 then 1 else 0) s of
           None \<Rightarrow> Some (XDP_DROP, s)
         | Some s \<Rightarrow> do {
             (a, p) \<leftarrow> send_icmp_too_big H (pkt s) is_ipv6 (length (pkt s));
             Some (a, s\<lparr>pkt := p\<rparr>)
           })
      else Some (XDP_DROP, s))"

definition quic_route ::
  "packet_description \<Rightarrow> vip_meta \<Rightarrow> bool \<Rightarrow> bpf_state \<Rightarrow>
   ((xdp_action + real_definition option \<times> packet_description) \<times> bpf_state) option" where
  "quic_route pckt vip_info is_ipv6 s =
     (if vip_flags vip_info AND F_QUIC_VIP = 0 then Some (Inr (None, pckt), s)
      else (let quic_stats_key = MAX_VIPS + QUIC_ROUTE_STATS in
        if stats s quic_stats_key = None then Some (Inl XDP_DROP, s)
        else do {
          real_index_v \<leftarrow> parse_quic (pkt s) is_ipv6 pckt;
          if real_index_v > 0 then
            (case quic_mapping s (of_int real_index_v) of
               Some key \<Rightarrow>
                 (let pckt = pckt\<lparr>real_index := key\<rparr> in
                  case reals s key of
                    None \<Rightarrow> Some (Inl XDP_DROP, s)
                  | Some dst \<Rightarrow> do {
                      s \<leftarrow> stat_add quic_stats_key 0 1 s;
                      Some (Inr (Some dst, pckt), s)
                    })
             | None \<Rightarrow> do {
                 s \<leftarrow> stat_add quic_stats_key 1 0 s;
                 Some (Inr (None, pckt), s)
               })
          else do {
            s \<leftarrow> stat_add quic_stats_key 1 0 s;
            Some (Inr (None, pckt), s)
          }
        }))"

text \<open>The LRU map of the CPU, or the fallback map and its counter.\<close>

definition pick_lru :: "bpf_helpers \<Rightarrow> bpf_state \<Rightarrow> (xdp_action + lru_ref) \<times> bpf_state" where
  "pick_lru H s =
     (let cpu_num = smp_processor_id H in
      case lru_maps_mapping s cpu_num of
        Some m \<Rightarrow> (Inr (Per_cpu cpu_num), s)
      | None \<Rightarrow>
          (case stat_add (MAX_VIPS + FALLBACK_LRU_CNTR) 1 0 s of
             None \<Rightarrow> (Inl XDP_DROP, s)
           | Some s \<Rightarrow> (Inr Fallback, s)))"

text \<open>Counting a miss of a TCP packet; \<open>None\<close> is the early \<open>return XDP_DROP\<close>.\<close>

definition count_tcp_miss :: "build_flags \<Rightarrow> packet_description \<Rightarrow> bpf_state \<Rightarrow> bpf_state option" where
  "count_tcp_miss B pckt s =
     (if proto (flow pckt) \<noteq> IPPROTO_TCP then Some s
      else (let lru_stats_key = MAX_VIPS + LRU_MISS_CNTR in
        if pflags pckt AND F_SYN_SET \<noteq> 0 then stat_add lru_stats_key 1 0 s
        else if stats s lru_stats_key = None then None
        else stat_add lru_stats_key 0 1
               (REPORT_EVENT B TCP_NONSYN_LRUMISS (of_nat (length (pkt s))) False s)))"

text \<open>A packet without an entry in the connection table gets a real from the ring.\<close>

definition new_real ::
  "build_flags \<Rightarrow> bpf_helpers \<Rightarrow> packet_description \<Rightarrow> vip_meta \<Rightarrow> bool \<Rightarrow> lru_ref \<Rightarrow> bpf_state \<Rightarrow>
   ((xdp_action + real_definition \<times> packet_description) \<times> bpf_state) option" where
  "new_real B H pckt vip_info is_ipv6 lru s =
     (case count_tcp_miss B pckt s of
        None \<Rightarrow> Some (Inl XDP_DROP, s)
      | Some s \<Rightarrow> do {
          (dst, pckt, s) \<leftarrow> get_packet_dst B H pckt vip_info is_ipv6 lru s;
          (case dst of
             None \<Rightarrow> Some (Inl XDP_DROP, s)
           | Some real \<Rightarrow> do {
               s \<leftarrow> stat_add (MAX_VIPS + LRU_CNTRS) 0 1 s;
               Some (Inr (real, pckt), s)
             })
        })"

definition select_real ::
  "build_flags \<Rightarrow> bpf_helpers \<Rightarrow> packet_description \<Rightarrow> vip_meta \<Rightarrow> bool \<Rightarrow> bpf_state \<Rightarrow>
   ((xdp_action + real_definition \<times> packet_description) \<times> bpf_state) option" where
  "select_real B H pckt vip_info is_ipv6 s =
     (let pckt = (if vip_flags vip_info AND F_HASH_NO_SRC_PORT \<noteq> 0
                  then pckt\<lparr>flow := (flow pckt)\<lparr>port16_0 := 0\<rparr>\<rparr> else pckt) in
      case pick_lru H s of
        (Inl a, s) \<Rightarrow> Some (Inl a, s)
      | (Inr lru, s) \<Rightarrow> do {
          (dst, pckt, s) \<leftarrow>
            (if pflags pckt AND F_SYN_SET = 0 \<and> vip_flags vip_info AND F_LRU_BYPASS = 0
             then connection_table_lookup H pckt lru s else Some (None, pckt, s));
          (case dst of
             Some real \<Rightarrow> Some (Inr (real, pckt), s)
           | None \<Rightarrow> new_real B H pckt vip_info is_ipv6 lru s)
        })"

definition PCKT_ENCAP_V4 ::
  "build_flags \<Rightarrow> bpf_helpers \<Rightarrow> ctl_value \<Rightarrow> packet_description \<Rightarrow> real_definition \<Rightarrow> u32 \<Rightarrow> bpf_state \<Rightarrow>
   (bool \<times> bpf_state) option" where
  "PCKT_ENCAP_V4 B H cval pckt dst pkt_bytes s =
     map_option (\<lambda>(ok, p). (ok, s\<lparr>pkt := p\<rparr>))
       (if GUE_ENCAP B then gue_encap_v4 H (pckt_srcs s) cval pckt dst pkt_bytes (pkt s)
        else encap_v4 H cval pckt dst pkt_bytes (pkt s))"

definition PCKT_ENCAP_V6 ::
  "build_flags \<Rightarrow> bpf_helpers \<Rightarrow> ctl_value \<Rightarrow> bool \<Rightarrow> packet_description \<Rightarrow> real_definition \<Rightarrow> u32 \<Rightarrow>
   bpf_state \<Rightarrow> (bool \<times> bpf_state) option" where
  "PCKT_ENCAP_V6 B H cval is_ipv6 pckt dst pkt_bytes s =
     map_option (\<lambda>(ok, p). (ok, s\<lparr>pkt := p\<rparr>))
       (if GUE_ENCAP B then gue_encap_v6 H (pckt_srcs s) cval is_ipv6 pckt dst pkt_bytes (pkt s)
        else encap_v6 H cval is_ipv6 pckt dst pkt_bytes (pkt s))"

definition forward_to_real ::
  "build_flags \<Rightarrow> bpf_helpers \<Rightarrow> packet_description \<Rightarrow> vip_meta \<Rightarrow> bool \<Rightarrow> real_definition \<Rightarrow> u16 \<Rightarrow>
   bpf_state \<Rightarrow> (xdp_action \<times> bpf_state) option" where
  "forward_to_real B H pckt vip_info is_ipv6 dst pkt_bytes s =
     (case ctl_array s 0 of
        None \<Rightarrow> Some (XDP_DROP, s)
      | Some cval \<Rightarrow> do {
          (ok, s) \<leftarrow>
            (if real_flags dst AND F_IPV6 \<noteq> 0
             then PCKT_ENCAP_V6 B H cval is_ipv6 pckt dst (ucast pkt_bytes) s
             else PCKT_ENCAP_V4 B H cval pckt dst (ucast pkt_bytes) s);
          if \<not> ok then Some (XDP_DROP, s)
          else (case stat_add (vip_num vip_info) 1 (ucast pkt_bytes) s of
              None \<Rightarrow> Some (XDP_DROP, s)
            | Some s \<Rightarrow>
                (case real_stat_add (real_index pckt) 1 (ucast pkt_bytes) s of
                   None \<Rightarrow> Some (XDP_DROP, s)
                 | Some s \<Rightarrow> Some (XDP_TX, s)))
        })"

text \<open>The part of \<open>process_packet\<close> that follows a successful VIP lookup.\<close>

definition process_vip_packet ::
  "build_flags \<Rightarrow> bpf_helpers \<Rightarrow> packet_description \<Rightarrow> vip_meta \<Rightarrow> bool \<Rightarrow> u16 \<Rightarrow> bpf_state \<Rightarrow>
   (xdp_action \<times> bpf_state) option" where
  "process_vip_packet B H pckt vip_info is_ipv6 pkt_bytes s =
     (if length (pkt s) > MAX_PCKT_SIZE then packet_too_big B H is_ipv6 s
      else (case stat_add (MAX_VIPS + LRU_CNTRS) 1 0 s of
          None \<Rightarrow> Some (XDP_DROP, s)
        | Some s \<Rightarrow> do {
            (r, s) \<leftarrow> quic_route pckt vip_info is_ipv6 s;
            (case r of
               Inl a \<Rightarrow> Some (a, s)
             | Inr (Some dst, pckt) \<Rightarrow> forward_to_real B H pckt vip_info is_ipv6 dst pkt_bytes s
             | Inr (None, pckt) \<Rightarrow> do {
                 (r, s) \<leftarrow> select_real B H pckt vip_info is_ipv6 s;
                 (case r of
                    Inl a \<Rightarrow> Some (a, s)
                  | Inr (dst, pckt) \<Rightarrow> forward_to_real B H pckt vip_info is_ipv6 dst pkt_bytes s)
               })
          }))"

text \<open>The two inline decapsulation blocks; \<open>bool pass = true\<close> is their initial value.\<close>

definition inline_decap ::
  "(packet \<Rightarrow> bool \<Rightarrow> (outcome \<times> packet) option) \<Rightarrow> packet_description \<Rightarrow> bool \<Rightarrow> bpf_state \<Rightarrow>
   (outcome \<times> bpf_state) option" where
  "inline_decap process pckt is_ipv6 s =
     (case check_decap_dst pckt is_ipv6 True s of
        (Return a, pass, s) \<Rightarrow> Some (Finish a, s)
      | (FURTHER_PROCESSING, pass, s) \<Rightarrow>
          map_option (\<lambda>(r, p). (r, s\<lparr>pkt := p\<rparr>)) (process (pkt s) pass))"

text \<open>The transport header and the VIP it leads to.\<close>

definition process_l4 ::
  "build_flags \<Rightarrow> bpf_helpers \<Rightarrow> packet_description \<Rightarrow> bool \<Rightarrow> u16 \<Rightarrow> bpf_state \<Rightarrow>
   (outcome \<times> bpf_state) option" where
  "process_l4 B H pckt is_ipv6 pkt_bytes s =
     (let protocol = proto (flow pckt) in
      if protocol = IPPROTO_TCP \<or> protocol = IPPROTO_UDP then do {
        (ok, pckt) \<leftarrow> (if protocol = IPPROTO_TCP then parse_tcp (pkt s) is_ipv6 pckt
                        else parse_udp (pkt s) is_ipv6 pckt);
        if \<not> ok then Some (Finish XDP_DROP, s)
        else if INLINE_DECAP_GUE B \<and> protocol = IPPROTO_UDP \<and>
                port16_1 (flow pckt) = bpf_htons GUE_DPORT
        then inline_decap (\<lambda>p. process_encaped_gue_pckt H p is_ipv6) pckt is_ipv6 s
        else
          (case vip_lookup (vip_map s) pckt is_ipv6 of
             None \<Rightarrow> Some (Finish XDP_PASS, s)
           | Some (vip_info, pckt) \<Rightarrow>
               map_option (\<lambda>(a, s). (Finish a, s))
                 (process_vip_packet B H pckt vip_info is_ipv6 pkt_bytes s))
      }
      else Some (Finish XDP_PASS, s))"

definition process_packet ::
  "build_flags \<Rightarrow> bpf_helpers \<Rightarrow> nat \<Rightarrow> bool \<Rightarrow> bpf_state \<Rightarrow> (outcome \<times> bpf_state) option" where
  "process_packet B H off is_ipv6 s = do {
     (action, p, pckt, pkt_bytes) \<leftarrow> process_l3_headers (pkt s) off is_ipv6 packet_description_zero;
     let s = s\<lparr>pkt := p\<rparr>;
     (case action of
        Return a \<Rightarrow> Some (Finish a, s)
      | FURTHER_PROCESSING \<Rightarrow>
          (let protocol = proto (flow pckt) in
           if INLINE_DECAP_IPIP B \<and> (protocol = IPPROTO_IPIP \<or> protocol = IPPROTO_IPV6)
           then inline_decap (\<lambda>p. process_encaped_ipip_pckt H p is_ipv6 protocol) pckt is_ipv6 s
           else process_l4 B H pckt is_ipv6 pkt_bytes s))
   }"

definition balancer_ingress :: "build_flags \<Rightarrow> bpf_helpers \<Rightarrow> bpf_state \<Rightarrow> (outcome \<times> bpf_state) option" where
  "balancer_ingress B H s =
     (let nh_off = sizeof_eth_hdr in
      if nh_off > length (pkt s) then Some (Finish XDP_DROP, s)
      else do {
        eth_proto \<leftarrow> ld16 (pkt s) 12;
        if eth_proto = BE_ETH_P_IP then process_packet B H nh_off False s
        else if eth_proto = BE_ETH_P_IPV6 then process_packet B H nh_off True s
        else Some (Finish XDP_PASS, s)
      })"

definition balancer_run ::
  "build_flags \<Rightarrow> bpf_helpers \<Rightarrow> (u32 \<Rightarrow> bool) \<Rightarrow> bpf_state \<Rightarrow> (xdp_action \<times> bpf_state) option" where
  "balancer_run B H filled s = run_tail_calls filled (balancer_ingress B H) MAX_TAIL_CALL_CNT s"

section \<open>The frame of the data plane\<close>

text \<open>
  What no run of the program changes: the tables the control plane writes, and the set of
  entries of the counter maps and of the per-CPU connection tables.
\<close>

definition dp_frame :: "bpf_state \<Rightarrow> bpf_state \<Rightarrow> bool" where
  "dp_frame s t \<longleftrightarrow> vip_map t = vip_map s \<and> ch_rings t = ch_rings s \<and> reals t = reals s \<and>
     quic_mapping t = quic_mapping s \<and> lpm_src_v4 t = lpm_src_v4 s \<and> lpm_src_v6 t = lpm_src_v6 s \<and>
     ctl_array t = ctl_array s \<and> decap_dst t = decap_dst s \<and> pckt_srcs t = pckt_srcs s \<and>
     dom (stats t) = dom (stats s) \<and> dom (reals_stats t) = dom (reals_stats s) \<and>
     dom (lru_maps_mapping t) = dom (lru_maps_mapping s)"

lemma dp_frame_refl [simp]: "dp_frame s s"
  by (simp add: dp_frame_def)

lemma dp_frame_trans: "dp_frame s t \<Longrightarrow> dp_frame t u \<Longrightarrow> dp_frame s u"
  by (simp add: dp_frame_def)

lemma dp_frame_pkt [simp]: "dp_frame s (t\<lparr>pkt := p\<rparr>) = dp_frame s t" "dp_frame (s\<lparr>pkt := p\<rparr>) t = dp_frame s t"
  by (simp_all add: dp_frame_def)

lemma dp_frame_clock [simp]: "dp_frame s (t\<lparr>clock_reads := n\<rparr>) = dp_frame s t"
  by (simp add: dp_frame_def)

lemma dp_frame_events [simp]: "dp_frame s (t\<lparr>event_pipe := e\<rparr>) = dp_frame s t"
  by (simp add: dp_frame_def)

lemma dp_frame_stats [simp]:
  "stats t k \<noteq> None \<Longrightarrow> dp_frame s (t\<lparr>stats := (stats t)(k \<mapsto> d)\<rparr>) = dp_frame s t"
  "reals_stats t k \<noteq> None \<Longrightarrow> dp_frame s (t\<lparr>reals_stats := (reals_stats t)(k \<mapsto> d)\<rparr>) = dp_frame s t"
  by (simp_all add: dp_frame_def domIff insert_absorb)

lemma dp_frame_doms:
  assumes "dp_frame s t"
  shows "dom (stats t) = dom (stats s)" "dom (lru_maps_mapping t) = dom (lru_maps_mapping s)"
  using assms by (simp_all add: dp_frame_def)

lemma dp_frame_stats_dom: "dp_frame s t \<Longrightarrow> stats t k = None \<longleftrightarrow> stats s k = None"
  by (metis domIff dp_frame_doms(1))

lemma dp_frame_lru_set [simp]:
  "lru_get r t \<noteq> None \<Longrightarrow> dp_frame s (lru_set r m t) = dp_frame s t"
  by (cases r) (simp_all add: dp_frame_def lru_get_def lru_set_def domIff insert_absorb)

lemma lru_get_lru_set [simp]: "lru_get r (lru_set r m s) = Some m"
  by (cases r) (simp_all add: lru_get_def lru_set_def)

lemma dp_frame_lru_get: "dp_frame s t \<Longrightarrow> lru_get r t = None \<longleftrightarrow> lru_get r s = None"
  by (cases r) (simp_all add: lru_get_def, metis domIff dp_frame_doms(2))

lemma dp_frame_lruI: "dp_frame s t \<Longrightarrow> lru_get r s \<noteq> None \<Longrightarrow> lru_get r t \<noteq> None"
  by (metis dp_frame_lru_get)

text \<open>Up to the encapsulation the packet and the counters of VIPs and reals stay as they are.\<close>

definition dp_quiet :: "bpf_state \<Rightarrow> bpf_state \<Rightarrow> bool" where
  "dp_quiet s t \<longleftrightarrow> dp_frame s t \<and> pkt t = pkt s \<and> reals_stats t = reals_stats s \<and>
     (\<forall>k. k < MAX_VIPS \<longrightarrow> stats t k = stats s k)"

lemma dp_quiet_refl [simp]: "dp_quiet s s"
  by (simp add: dp_quiet_def)

lemma dp_quiet_trans [trans]: "dp_quiet s t \<Longrightarrow> dp_quiet t u \<Longrightarrow> dp_quiet s u"
  by (auto simp: dp_quiet_def intro: dp_frame_trans)

lemma dp_quietD: "dp_quiet s t \<Longrightarrow> dp_frame s t"
  by (simp add: dp_quiet_def)

lemma dp_quiet_lru: "dp_quiet s t \<Longrightarrow> lru_get r s \<noteq> None \<Longrightarrow> lru_get r t \<noteq> None"
  by (metis dp_quietD dp_frame_lruI)

lemma dp_quiet_stats: "dp_quiet s t \<Longrightarrow> stats s k \<noteq> None \<Longrightarrow> stats t k \<noteq> None"
  by (metis dp_quietD dp_frame_stats_dom)

lemma dp_quiet_lru_set: "lru_get r s \<noteq> None \<Longrightarrow> dp_quiet s (lru_set r m s)"
  by (cases r) (simp_all add: dp_quiet_def lru_set_def dp_frame_def lru_get_def domIff insert_absorb)

lemma dp_quiet_clock [simp]: "dp_quiet s (s\<lparr>clock_reads := n\<rparr>)"
  by (simp add: dp_quiet_def)

lemma stat_add_None: "stat_add k a b s = None \<longleftrightarrow> stats s k = None"
  by (cases "stats s k") (simp_all add: stat_add_def deref_def)

lemma stat_add_frame: "stat_add k a b s = Some t \<Longrightarrow> dp_frame s t"
  by (auto simp: stat_add_def deref_def bind_eq_Some_conv)

lemma real_stat_add_frame: "real_stat_add k a b s = Some t \<Longrightarrow> dp_frame s t"
  by (auto simp: real_stat_add_def deref_def bind_eq_Some_conv)

lemma stat_add_quiet: "stat_add k a b s = Some t \<Longrightarrow> \<not> k < MAX_VIPS \<Longrightarrow> dp_quiet s t"
  by (auto simp: stat_add_def deref_def bind_eq_Some_conv dp_quiet_def)

lemma stat_add_safe: "stats s k \<noteq> None \<Longrightarrow> \<not> k < MAX_VIPS \<Longrightarrow> wp (stat_add k a b s) (dp_quiet s)"
  using stat_add_quiet by (cases "stat_add k a b s") (simp_all add: stat_add_None)

lemma REPORT_EVENT_quiet [simp]: "dp_quiet s (REPORT_EVENT B e n m s)"
  by (auto simp: REPORT_EVENT_def submit_event_def dp_quiet_def Let_def split: option.split)

lemma is_under_flood_quiet: "is_under_flood H c s = (b, c', t) \<Longrightarrow> dp_quiet s t"
  by (auto simp: is_under_flood_def dp_frame_def dp_quiet_def Let_def split: option.splits if_splits)

lemma src_route_quiet: "src_route H pckt v6 s = (r, t) \<Longrightarrow> dp_quiet s t"
  by (auto simp: src_route_def dp_quiet_def Let_def split: option.splits if_splits)

lemma get_packet_dst_safe:
  assumes "lru_get lru s \<noteq> None"
  shows "wp (get_packet_dst B H pckt vip v6 lru s) (\<lambda>(r, q, t). dp_quiet s t)"
proof -
  obtain fl c s1 where fl: "is_under_flood H 0 s = (fl, c, s1)" by (metis prod_cases3)
  obtain found s2 where src: "(if LPM_SRC_LOOKUP B \<and> vip_flags vip AND F_SRC_ROUTING \<noteq> 0 \<and> \<not> fl
      then src_route H pckt v6 s1 else (None, s1)) = (found, s2)" by (metis prod.exhaust)
  have q: "dp_quiet s s2"
    using is_under_flood_quiet [OF fl] src src_route_quiet [of H pckt v6 s1 found s2]
    by (auto split: if_splits intro: dp_quiet_trans)
  have l: "lru_get lru s2 \<noteq> None" using dp_quiet_lru [OF q assms] .
  have "dp_quiet s (lru_set lru m s2)" for m
    using dp_quiet_trans [OF q dp_quiet_lru_set [OF l]] .
  then show ?thesis using q l
    unfolding get_packet_dst_def Let_def fl src prod.case
    by (auto simp: wp_simps split: option.split)
qed

lemma lru_get_clock [simp]: "lru_get lru (s\<lparr>clock_reads := n\<rparr>) = lru_get lru s"
  by (cases lru) (simp_all add: lru_get_def)

lemma connection_table_lookup_safe:
  assumes "lru_get lru s \<noteq> None"
  shows "wp (connection_table_lookup H pckt lru s) (\<lambda>(r, q, t). dp_quiet s t)"
proof -
  have "dp_quiet s (lru_set lru m (s\<lparr>clock_reads := n\<rparr>))" for m n
    by (rule dp_quiet_trans [OF dp_quiet_clock dp_quiet_lru_set]) (simp only: lru_get_clock assms not_False_eq_True)
  then show ?thesis using assms
    by (auto simp: connection_table_lookup_def wp_simps Let_def split: option.split)
qed

lemma pick_lru_quiet:
  "pick_lru H s = (r, t) \<Longrightarrow> dp_quiet s t \<and> (\<forall>lru. r = Inr lru \<longrightarrow> lru_get lru t \<noteq> None)"
  by (auto simp: pick_lru_def lru_get_def Let_def dest: stat_add_quiet split: option.splits)

lemma count_tcp_miss_quiet: "count_tcp_miss B pckt s = Some t \<Longrightarrow> dp_quiet s t"
  by (auto simp: count_tcp_miss_def Let_def split: if_splits
    dest!: stat_add_quiet intro: dp_quiet_trans [OF REPORT_EVENT_quiet])

lemma quic_route_safe: "wp (quic_route pckt vip v6 s) (\<lambda>(r, t). dp_quiet s t)"
  by (auto simp: quic_route_def wp_simps Let_def intro!: wp_mono [OF parse_quic_safe] wp_mono [OF stat_add_safe]
        split: option.split)

lemma new_real_safe:
  assumes "lru_get lru s \<noteq> None" "stats s (MAX_VIPS + LRU_CNTRS) \<noteq> None"
  shows "wp (new_real B H pckt vip v6 lru s) (\<lambda>(r, t). dp_quiet s t)"
proof (cases "count_tcp_miss B pckt s")
  case (Some t)
  note q = count_tcp_miss_quiet [OF this]
  have "wp (stat_add (MAX_VIPS + LRU_CNTRS) 0 1 u) (dp_quiet s)" if "dp_quiet t u" for u
    using dp_quiet_trans [OF q that] assms(2) 
    by - (rule wp_mono [OF stat_add_safe], auto intro: dp_quiet_trans dest: dp_quiet_stats)
  then show ?thesis using dp_quiet_lru [OF q assms(1)] q
    unfolding new_real_def Some
    by (auto intro!: wp_mono [OF get_packet_dst_safe] intro: dp_quiet_trans split: option.split)
qed (simp add: new_real_def)

lemma select_real_safe:
  assumes "stats s (MAX_VIPS + LRU_CNTRS) \<noteq> None"
  shows "wp (select_real B H pckt vip v6 s) (\<lambda>(r, t). dp_quiet s t)"
proof -
  obtain l s1 where l: "pick_lru H s = (l, s1)" by fastforce
  note f1 = pick_lru_quiet [OF l]
  show ?thesis
  proof (cases l)
    case (Inl a)
    then show ?thesis using l f1 by (simp add: select_real_def Let_def wp_simps)
  next
    case (Inr lru)
    then have lru: "lru_get lru s1 \<noteq> None" using f1 by blast
    have new: "wp (new_real B H q vip v6 lru t) (\<lambda>(r, t). dp_quiet s t)" if "dp_quiet s1 t" for q t
      using dp_quiet_lru [OF that lru] dp_quiet_stats [OF dp_quiet_trans [OF conjunct1 [OF f1] that] assms]
       f1 that by - (rule wp_mono [OF new_real_safe], auto intro: dp_quiet_trans)
    have ctl: "wp (connection_table_lookup H q lru s1) (\<lambda>(r, q, t). dp_quiet s1 t)" for q
      using connection_table_lookup_safe [OF lru] .
    show ?thesis
      unfolding select_real_def Let_def l Inr using f1
      by (auto simp: new intro!: wp_mono [OF ctl] intro: dp_quiet_trans split: option.split)
  qed
qed

lemma forward_to_real_safe:
  "wp (forward_to_real B H pckt vip v6 dst n s) (\<lambda>(a, t). dp_frame s t)"
  by (auto simp: forward_to_real_def PCKT_ENCAP_V4_def PCKT_ENCAP_V6_def wp_simps
      dest!: stat_add_frame real_stat_add_frame intro: dp_frame_trans
      intro!: wp_mono [OF encap_v4_safe] wp_mono [OF encap_v6_safe] wp_mono [OF gue_encap_v4_safe] wp_mono [OF gue_encap_v6_safe]
      split: option.split)

lemma packet_too_big_safe: "wp (packet_too_big B H v6 s) (\<lambda>(a, t). dp_frame s t)"
proof -
  have "dp_frame s (REPORT_EVENT B e n m s)" for e n m
    by (rule dp_quietD) simp
  then show ?thesis
    by (auto simp: packet_too_big_def wp_simps Let_def dest!: stat_add_frame
      intro!: wp_mono [OF send_icmp_too_big_safe] intro: dp_frame_trans split: option.split)
qed

lemma process_l3_headers_safe:
  "wp (process_l3_headers p off v6 pckt) (\<lambda>(a, q, pk, n). length q = length p \<and> (a = FURTHER_PROCESSING \<longrightarrow> q = p))"
  by (auto simp: process_l3_headers_def hdr_access wp_simps
      intro!: wp_mono [OF parse_icmpv6_safe] wp_mono [OF parse_icmp_safe])

lemma check_decap_dst_quiet: "check_decap_dst pckt v6 pass s = (a, b, t) \<Longrightarrow> dp_quiet s t"
  by (auto simp: check_decap_dst_def dest: stat_add_quiet split: option.splits)

lemma decap_safe:
  "54 \<le> length p \<Longrightarrow> wp (decap_v6 H i p) (\<lambda>_. True)" "34 \<le> length p \<Longrightarrow> wp (decap_v4 H p) (\<lambda>_. True)"
  "62 \<le> length p \<Longrightarrow> wp (gue_decap_v6 H i p) (\<lambda>_. True)" "42 \<le> length p \<Longrightarrow> wp (gue_decap_v4 H p) (\<lambda>_. True)"
  by (auto simp: decap_v6_def decap_v4_def gue_decap_v6_def gue_decap_v4_def copy_eth_hdr_eq wp_simps split: option.split)

lemma process_encaped_ipip_pckt_safe:
  "protocol \<in> {IPPROTO_IPIP, IPPROTO_IPV6} \<Longrightarrow> wp (process_encaped_ipip_pckt H p v6 protocol pass) (\<lambda>_. True)"
  by (auto simp: process_encaped_ipip_pckt_def Let_def wp_simps
     intro!: wp_mono [OF decrement_ttl_safe] wp_mono [OF decap_safe(1)] wp_mono [OF decap_safe(2)])

lemma process_encaped_gue_pckt_safe: "wp (process_encaped_gue_pckt H p v6 pass) (\<lambda>_. True)"
  by (auto simp: process_encaped_gue_pckt_def ld8_def Let_def wp_simps
     intro!: wp_mono [OF decrement_ttl_safe] wp_mono [OF decap_safe(3)] wp_mono [OF decap_safe(4)])

lemma process_vip_packet_safe:
  "wp (process_vip_packet B H pckt vip v6 n s) (\<lambda>(a, t). dp_frame s t)"
proof (cases "stat_add (MAX_VIPS + LRU_CNTRS) 1 0 s")
  case None
  then show ?thesis by (simp add: process_vip_packet_def wp_simps packet_too_big_safe)
next
  case (Some s1)
  have q: "dp_quiet s s1" using stat_add_quiet [OF Some] by simp
  have st: "stats s1 (MAX_VIPS + LRU_CNTRS) \<noteq> None"
    using Some dp_quiet_stats [OF q] by (metis option.distinct(1) stat_add_None)
  have fwd: "wp (forward_to_real B H pk vip v6 dst n t) (\<lambda>(a, t). dp_frame s t)" if "dp_quiet s1 t" for pk dst t
    using dp_quietD [OF dp_quiet_trans [OF q that]]
    by - (rule wp_mono [OF forward_to_real_safe], auto intro: dp_frame_trans)
  have sel: "wp (select_real B H pk vip v6 t) (\<lambda>(r, t). dp_quiet s1 t)" if "dp_quiet s1 t" for pk t
    using dp_quiet_stats [OF that st] that
    by - (rule wp_mono [OF select_real_safe], auto intro: dp_quiet_trans)
  have fin: "dp_quiet s1 t \<Longrightarrow> dp_frame s t" for t
    using dp_quietD [OF dp_quiet_trans [OF q]] .
  show ?thesis
    unfolding process_vip_packet_def Some
    by (auto simp: packet_too_big_safe fwd fin split: sum.split option.split
        intro!: wp_mono [OF quic_route_safe] wp_mono [OF sel])
qed

lemma inline_decap_safe:
  assumes "\<And>p b. wp (process p b) (\<lambda>_. True)"
  shows "wp (inline_decap process pckt v6 s) (\<lambda>(a, t). dp_frame s t)"
  by (auto simp: inline_decap_def split: prod.split step.split intro!: wp_mono [OF assms]
    dest!: check_decap_dst_quiet dp_quietD)

lemma process_l4_safe: "wp (process_l4 B H pckt v6 n s) (\<lambda>(a, t). dp_frame s t)"
proof -
  have parse: "wp (parse_tcp p v6 pk) (\<lambda>_. True)" "wp (parse_udp p v6 pk) (\<lambda>_. True)" for p pk
    by (auto intro: wp_mono [OF parse_tcp_safe] wp_mono [OF parse_udp_safe])
  show ?thesis
    by (auto simp: process_l4_def Let_def inline_decap_safe process_encaped_gue_pckt_safe split: option.split
       intro!: wp_mono [OF parse(1)] wp_mono [OF parse(2)] wp_mono [OF process_vip_packet_safe])
qed

lemma process_packet_safe: "wp (process_packet B H off v6 s) (\<lambda>(a, t). dp_frame s t)"
proof -
  have "wp (inline_decap (\<lambda>p. process_encaped_ipip_pckt H p v6 q) pckt v6 s) (\<lambda>(a, t). dp_frame s t)"
    if "q = IPPROTO_IPIP \<or> q = IPPROTO_IPV6" for q pckt
    using that by (intro inline_decap_safe process_encaped_ipip_pckt_safe) auto
  then show ?thesis
    by (auto simp: process_packet_def process_l4_safe Let_def split: step.split
        intro!: wp_mono [OF process_l3_headers_safe])
qed

lemma balancer_ingress_safe: "wp (balancer_ingress B H s) (\<lambda>(a, t). dp_frame s t)"
  by (auto simp: balancer_ingress_def ld16_def wp_simps process_packet_safe)

interpretation balancer: xdp_program "balancer_ingress B H" dp_frame for B H
  by unfold_locales (rule balancer_ingress_safe, rule dp_frame_refl, rule dp_frame_trans)

end
