(* ===== verification/Balancer_Correct.thy ===== *)
theory Balancer_Correct
  imports Balancer
begin

text \<open>
  What the balancer program does: every packet gets a verdict without a faulting access and
  without touching the configuration; a connection keeps its real; the ring lookup stays inside
  its array; the limiter of new connections; and the packet that leaves for a real.

  The definitions of this theory are vocabulary for the statements: \<open>ring_slot\<close> is the index
  \<open>get_packet_dst\<close> computes, \<open>hash_flow\<close> the flow it hashes, \<open>flooded\<close> the verdict of
  \<open>is_under_flood\<close>. An example configuration serves the witnesses.
\<close>

section \<open>Every packet gets a verdict\<close>

lemma arrays_ok_frame: "dp_frame s t \<Longrightarrow> arrays_ok t = arrays_ok s"
  by (simp add: dp_frame_def arrays_ok_def array_map_dom)

text \<open>C2. Memory safety, termination and isolation: for every build and every behaviour of the kernel
  helpers, a CPU that serves any sequence of packets, tail calls included, never makes an access
  outside the packet, through a \<open>NULL\<close> pointer or to an uninitialised variable; every packet
  gets a verdict, and no table of the control plane is changed.\<close>

theorem balancer_serves_every_packet:
  "\<exists>verdicts t. serve (\<lambda>p s. s\<lparr>pkt := p\<rparr>) (balancer_run B H filled) ps s = Some (verdicts, t) \<and>
     length verdicts = length ps \<and> dp_frame s t \<and> arrays_ok t = arrays_ok s"
proof -
  have "wp (serve (\<lambda>p s. s\<lparr>pkt := p\<rparr>) (balancer_run B H filled) ps s)
      (\<lambda>(as, t). length as = length ps \<and> dp_frame s t)"
    unfolding balancer_run_def by (rule balancer.serve_safe) simp
  then show ?thesis unfolding wp_iff using arrays_ok_frame by fastforce
qed

section \<open>Vocabulary\<close>

definition flooded :: "bpf_helpers \<Rightarrow> bpf_state \<Rightarrow> bool" where
  "flooded H s = fst (is_under_flood H 0 s)"

definition hash_flow :: "vip_meta \<Rightarrow> flow_key \<Rightarrow> flow_key" where
  "hash_flow vip f = (if vip_flags vip AND F_HASH_DPORT_ONLY \<noteq> 0 then dport_only_flow f else f)"

definition ring_slot :: "vip_meta \<Rightarrow> bool \<Rightarrow> packet_description \<Rightarrow> u32" where
  "ring_slot vip v6 pckt =
     RING_SIZE * vip_num vip + get_packet_hash (pckt\<lparr>flow := hash_flow vip (flow pckt)\<rparr>) v6 mod RING_SIZE"

definition new_lru_entry :: "bpf_helpers \<Rightarrow> bpf_state \<Rightarrow> flow_key \<Rightarrow> u32 \<Rightarrow> real_pos_lru" where
  "new_lru_entry H s f key =
     \<lparr>pos = key, atime = (if proto f = IPPROTO_UDP then fst (snd (is_under_flood H 0 s)) else 0)\<rparr>"

lemma pckt_same_flow: "pckt\<lparr>flow := flow pckt\<rparr> = (pckt :: packet_description)"
  by simp

text \<open>A route that is not a source route: ring, reals and connection table.\<close>

lemma get_packet_dst_ring:
  assumes nosrc: "\<not> (LPM_SRC_LOOKUP B \<and> vip_flags vip AND F_SRC_ROUTING \<noteq> 0)"
    and ring: "ch_rings s (ring_slot vip v6 pckt) = Some key" and real: "reals s key = Some r"
    and lru: "lru_get lru s = Some m"
  shows "\<exists>t. get_packet_dst B H pckt vip v6 lru s =
      Some (Some r, pckt\<lparr>flow := hash_flow vip (flow pckt), real_index := key\<rparr>, t) \<and>
    dp_quiet s t \<and> lru_get lru t = Some (if vip_flags vip AND F_LRU_BYPASS = 0 \<and> \<not> flooded H s
      then lru_update H m (hash_flow vip (flow pckt)) (new_lru_entry H s (flow pckt) key) else m)"
proof -
  obtain fl c s1 where fl: "is_under_flood H 0 s = (fl, c, s1)" by (metis prod_cases3)
  note q = is_under_flood_quiet [OF fl]
  have "ch_rings s1 = ch_rings s" "reals s1 = reals s" 
    using q by (simp_all add: dp_quiet_def dp_frame_def)
  moreover have l: "lru_get lru s1 = Some m"
    using fl lru by (cases lru) (auto simp: is_under_flood_def lru_get_def Let_def split: option.splits if_splits)
  moreover have "dp_quiet s (lru_set lru m' s1)" for m'
    using dp_quiet_trans [OF q dp_quiet_lru_set] l by simp
  moreover have "proto (hash_flow vip (flow pckt)) = proto (flow pckt)"
    by (simp add: hash_flow_def dport_only_flow_def)
  moreover have "(if vip_flags vip AND F_HASH_DPORT_ONLY \<noteq> 0 then pckt\<lparr>flow := dport_only_flow (flow pckt)\<rparr> else pckt) = pckt\<lparr>flow := hash_flow vip (flow pckt)\<rparr>"
    by (simp add: hash_flow_def)
  moreover have "(if LPM_SRC_LOOKUP B \<and> vip_flags vip AND F_SRC_ROUTING \<noteq> 0 \<and> \<not> fl then src_route H pckt v6 s1 else (None, s1)) = (None, s1)"
    using nosrc by auto
  ultimately show ?thesis using q fl ring real unfolding get_packet_dst_def Let_def fl prod.case flooded_def new_lru_entry_def ring_slot_def
    by (auto simp: deref_def)
qed



lemma connection_table_hit:
  assumes "lru_get lru s = Some m" "m (flow pckt) = Some e" "reals s (pos e) = Some r"
    and "proto (flow pckt) = IPPROTO_UDP \<Longrightarrow> ktime_get_ns H (clock_reads s) - atime e \<le> LRU_UDP_TIMEOUT"
  shows "\<exists>t. connection_table_lookup H pckt lru s = Some (Some r, pckt\<lparr>real_index := pos e\<rparr>, t) \<and> dp_quiet s t \<and>
    lru_get lru t = Some (if proto (flow pckt) = IPPROTO_UDP
      then m(flow pckt \<mapsto> e\<lparr>atime := ktime_get_ns H (clock_reads s)\<rparr>) else m)"
proof -
  have "reals (lru_set lru m u) = reals u" for m u
    by (cases lru) (simp_all add: lru_set_def)
  moreover have "dp_quiet s (lru_set lru m' (s\<lparr>clock_reads := n\<rparr>))" for m' n
    by (rule dp_quiet_trans [OF dp_quiet_clock dp_quiet_lru_set]) (simp add: assms(1))
  ultimately show ?thesis using assms
    by (auto simp: connection_table_lookup_def deref_def Let_def not_less)
qed





lemma REPORT_EVENT_other [simp]:
  "lru_get l (REPORT_EVENT B e n b s) = lru_get l s" "reals (REPORT_EVENT B e n b s) = reals s"
  "clock_reads (REPORT_EVENT B e n b s) = clock_reads s" "stats (REPORT_EVENT B e n b s) = stats s"
  by (cases l; auto simp: REPORT_EVENT_def submit_event_def lru_get_def Let_def split: option.split)+





text \<open>
  What other packets do to the entry of a flow. The key of a connection is the flow without the source port where the service
  says so; \<open>conn_entry\<close> is the index of the real that a connection table has for a key.
\<close>

definition conn_key :: "vip_meta \<Rightarrow> flow_key \<Rightarrow> flow_key" where
  "conn_key vip f = (if vip_flags vip AND F_HASH_NO_SRC_PORT \<noteq> 0 then f\<lparr>port16_0 := 0\<rparr> else f)"

definition conn_entry :: "flow_key \<Rightarrow> lru_ref \<Rightarrow> bpf_state \<Rightarrow> u32 option" where
  "conn_entry f l s = (case lru_get l s of None \<Rightarrow> None | Some m \<Rightarrow> map_option pos (m f))"

text \<open>The entry of a flow stays what it is or is evicted, in every connection table.\<close>

definition conn_kept :: "flow_key \<Rightarrow> bpf_state \<Rightarrow> bpf_state \<Rightarrow> bool" where
  "conn_kept f s t \<longleftrightarrow> dom (lru_maps_mapping t) = dom (lru_maps_mapping s) \<and>
     (\<forall>l. conn_entry f l t = conn_entry f l s \<or> conn_entry f l t = None)"

lemma conn_kept_refl [simp]: "conn_kept f s s" by (simp add: conn_kept_def)













text \<open>
  What may happen between two packets of a flow: packets of other flows, to any service, on any CPU, in any build, each of which may
  insert its own entry and evict others as an LRU map does; and any change of the rest of the maps, such as new rings, new source routes,
  other reals and counters.
\<close>

inductive traffic :: "flow_key \<Rightarrow> bpf_state \<Rightarrow> bpf_state \<Rightarrow> bool" for f :: flow_key and s :: bpf_state where
  traffic_start: "traffic f s s"
| traffic_packet: "traffic f s t \<Longrightarrow> select_real B H pckt vip v6 t = Some (res, u) \<Longrightarrow> lru_update_ok (lru_update H) \<Longrightarrow>
    f \<notin> {conn_key vip (flow pckt), hash_flow vip (conn_key vip (flow pckt))} \<Longrightarrow> traffic f s u"
| traffic_other: "traffic f s t \<Longrightarrow> lru_maps_mapping u = lru_maps_mapping t \<Longrightarrow> fallback_lru_cache u = fallback_lru_cache t \<Longrightarrow>
    traffic f s u"







section \<open>The ring lookup\<close>

lemma get_packet_dst_from_ring:
  assumes nosrc: "\<not> (LPM_SRC_LOOKUP B \<and> vip_flags vip AND F_SRC_ROUTING \<noteq> 0)"
    and dst: "get_packet_dst B H pckt vip v6 lru s = Some (Some r, pk, t)"
  shows "ch_rings s (ring_slot vip v6 pckt) = Some (real_index pk) \<and> reals s (real_index pk) = Some r \<and>
    flow pk = hash_flow vip (flow pckt)"
proof -
  obtain fl c s1 where fl: "is_under_flood H 0 s = (fl, c, s1)" by (metis prod_cases3)
  have tables: "ch_rings s1 = ch_rings s" "reals s1 = reals s"
    using is_under_flood_quiet [OF fl] by (simp_all add: dp_quiet_def dp_frame_def)
  have pk: "(if vip_flags vip AND F_HASH_DPORT_ONLY \<noteq> 0 then pckt\<lparr>flow := dport_only_flow (flow pckt)\<rparr> else pckt) =
      pckt\<lparr>flow := hash_flow vip (flow pckt)\<rparr>"
    by (simp add: hash_flow_def)
  have src: "(if LPM_SRC_LOOKUP B \<and> vip_flags vip AND F_SRC_ROUTING \<noteq> 0 \<and> \<not> fl then src_route H pckt v6 s1
      else (None, s1)) = (None, s1)"
    using nosrc by auto
  have noneq: "(None = None \<and> P) = P" for P by simp
  show ?thesis
    using dst unfolding get_packet_dst_def Let_def fl prod.case src option.case noneq pk ring_slot_def tables
    by (auto split: option.splits if_splits bind_splits)
qed

lemma ring_slot_no_overflow:
  assumes "vip_num vip < MAX_VIPS"
  shows "unat (ring_slot vip v6 pckt) = 65537 * unat (vip_num vip) +
      unat (get_packet_hash (pckt\<lparr>flow := hash_flow vip (flow pckt)\<rparr>) v6) mod 65537"
    and "ring_slot vip v6 pckt < CH_RINGS_SIZE"
proof -
  let ?h = "get_packet_hash (pckt\<lparr>flow := hash_flow vip (flow pckt)\<rparr>) v6"
  have v: "unat (vip_num vip) < 512" using assms by (simp add: word_less_nat_alt)
  have h: "unat (?h mod 65537) = unat ?h mod 65537" by (simp add: unat_mod_distrib)
  have "unat ?h mod 65537 < 65537" by simp
  then have "65537 * unat (vip_num vip) + unat ?h mod 65537 < 512 * 65537" using v by linarith
  moreover have m: "unat (65537 * vip_num vip) = 65537 * unat (vip_num vip)"
    using v by (subst unat_mult_lem [THEN iffD1]) simp_all
  ultimately show "unat (ring_slot vip v6 pckt) = 65537 * unat (vip_num vip) + unat ?h mod 65537"
    unfolding ring_slot_def RING_SIZE_def by (subst unat_add_lem [THEN iffD1]) (simp_all add: m h)
  then show "ring_slot vip v6 pckt < CH_RINGS_SIZE"
    using v \<open>65537 * unat (vip_num vip) + unat ?h mod 65537 < 512 * 65537\<close> by (simp add: word_less_nat_alt)
qed

text \<open>C9. New connections always find a real: with arrays of their declared sizes, a VIP number
  below \<open>MAX_VIPS\<close> and ring entries below \<open>MAX_REALS\<close>, the 32-bit ring index of
  \<open>get_packet_dst\<close> does not wrap around and stays inside \<open>ch_rings\<close>, and the lookup returns
  the real this ring entry names. This is for a VIP that is not routed by source in this build, and a connection table that exists.\<close>

theorem new_connection_gets_a_real:
  assumes ok: "arrays_ok s" and num: "vip_num vip < MAX_VIPS"
    and ring: "\<And>k v. ch_rings s k = Some v \<Longrightarrow> v < MAX_REALS"
    and nosrc: "\<not> (LPM_SRC_LOOKUP B \<and> vip_flags vip AND F_SRC_ROUTING \<noteq> 0)"
    and lru: "lru_get lru s \<noteq> None"
  shows "\<exists>r pk t. get_packet_dst B H pckt vip v6 lru s = Some (Some r, pk, t) \<and>
    reals s (real_index pk) = Some r \<and> ch_rings s (ring_slot vip v6 pckt) = Some (real_index pk)"
proof -
  obtain key where key: "ch_rings s (ring_slot vip v6 pckt) = Some key"
    using ok array_mapD ring_slot_no_overflow(2) [OF num] unfolding arrays_ok_def by blast
  then obtain r where r: "reals s key = Some r"
    using ok array_mapD ring unfolding arrays_ok_def by blast
  obtain m where "lru_get lru s = Some m" using lru by auto
  from get_packet_dst_ring [OF nosrc key r this, of H] show ?thesis using key r by fastforce
qed

section \<open>Hashing on the destination port only\<close>

lemma dport_only_hash:
  assumes "vip_flags vip AND F_HASH_DPORT_ONLY \<noteq> 0" "port16_1 (flow p1) = port16_1 (flow p2)"
  shows "ring_slot vip v6 p1 = ring_slot vip v6 p2"
  using assms by (simp add: ring_slot_def hash_flow_def dport_only_flow_def get_packet_hash_def flow_ports_def flow_src_def)

text \<open>Destination-port hashing: for a VIP with \<open>F_HASH_DPORT_ONLY\<close> two packets with the same
  destination port get the same real, whatever their sources are and whatever happened to the
  connection tables and counters in between.\<close>

theorem dport_only_same_real:
  assumes flag: "vip_flags vip AND F_HASH_DPORT_ONLY \<noteq> 0"
    and nosrc: "\<not> (LPM_SRC_LOOKUP B \<and> vip_flags vip AND F_SRC_ROUTING \<noteq> 0)"
    and port: "port16_1 (flow p1) = port16_1 (flow p2)"
    and tables: "ch_rings t = ch_rings s" "reals t = reals s"
    and dst1: "get_packet_dst B H p1 vip v6 lru1 s = Some (Some r1, pk1, s')"
    and dst2: "get_packet_dst B H p2 vip v6 lru2 t = Some (Some r2, pk2, t')"
  shows "r1 = r2 \<and> real_index pk1 = real_index pk2"
  using get_packet_dst_from_ring [OF nosrc dst1] get_packet_dst_from_ring [OF nosrc dst2]
    dport_only_hash [OF flag port, of v6] tables by simp

text \<open>The connection table never serves a VIP with \<open>F_HASH_DPORT_ONLY\<close>: \<open>get_packet_dst\<close>
  overwrites the flow before it stores the entry, so the flow under which the packets of this
  connection are looked up still has no entry after the store.\<close>

theorem dport_only_never_cached:
  assumes flag: "vip_flags vip AND F_HASH_DPORT_ONLY \<noteq> 0"
    and nosrc: "\<not> (LPM_SRC_LOOKUP B \<and> vip_flags vip AND F_SRC_ROUTING \<noteq> 0)"
    and ok: "lru_update_ok (lru_update H)"
    and dst: "get_packet_dst B H pckt vip v6 lru s = Some (Some r, pk, t)"
    and other: "dport_only_flow (flow pckt) \<noteq> flow pckt"
    and m: "lru_get lru s = Some m" "m (flow pckt) = None"
  shows "\<exists>m'. lru_get lru t = Some m' \<and> m' (flow pckt) = None"
proof -
  have f: "hash_flow vip (flow pckt) \<noteq> flow pckt" using flag other by (simp add: hash_flow_def)
  from get_packet_dst_from_ring [OF nosrc dst] have
    "ch_rings s (ring_slot vip v6 pckt) = Some (real_index pk)" "reals s (real_index pk) = Some r" by auto
  from get_packet_dst_ring [OF nosrc this m(1), of H] dst
  have "lru_get lru t = Some (if vip_flags vip AND F_LRU_BYPASS = 0 \<and> \<not> flooded H s
      then lru_update H m (hash_flow vip (flow pckt)) (new_lru_entry H s (flow pckt) (real_index pk)) else m)" by auto
  then show ?thesis using ok f m(2) unfolding lru_update_ok_def by (auto) (metis)
qed


section \<open>The limiter of new connections\<close>

text \<open>The state after \<open>n\<close> new connections.\<close>

primrec flood_run :: "bpf_helpers \<Rightarrow> nat \<Rightarrow> bpf_state \<Rightarrow> bpf_state" where
  "flood_run H 0 s = s"
| "flood_run H (Suc n) s = snd (snd (is_under_flood H 0 (flood_run H n s)))"

lemma flood_run_state:
  assumes st: "stats s (MAX_VIPS + NEW_CONN_RATE_CNTR) = Some st"
    and fresh: "ktime_get_ns H (clock_reads s) - v2 st > ONE_SEC"
    and quantum: "\<And>i. i \<le> n \<Longrightarrow> ktime_get_ns H (clock_reads s + i) - ktime_get_ns H (clock_reads s) \<le> ONE_SEC"
  shows "stats (flood_run H (Suc n) s) (MAX_VIPS + NEW_CONN_RATE_CNTR) =
      Some \<lparr>v1 = of_nat (Suc n), v2 = ktime_get_ns H (clock_reads s)\<rparr> \<and>
    clock_reads (flood_run H (Suc n) s) = clock_reads s + Suc n"
  using quantum
proof (induction n)
  case 0
  show ?case using st fresh by (simp add: is_under_flood_def Let_def)
next
  case (Suc n)
  then have "stats (flood_run H (Suc n) s) 514 = Some \<lparr>v1 = of_nat (Suc n), v2 = ktime_get_ns H (clock_reads s)\<rparr>"
    "clock_reads (flood_run H (Suc n) s) = clock_reads s + Suc n" by simp_all
  with Suc.prems [of "Suc n"] show ?case
    by (subst (1 2) flood_run.simps(2)) (auto simp: is_under_flood_def Let_def simp del: flood_run.simps dest: leD)
qed

text \<open>C23. The limiter of new connections is exact: in a time quantum of one second that opens with
  a new connection, the first 125000 new connections pass and every later one is reported as a
  flood (fewer than \<open>2 ^ 64\<close> connections, so that the counter does not wrap).\<close>

theorem flood_limit_exact:
  assumes st: "stats s (MAX_VIPS + NEW_CONN_RATE_CNTR) = Some st"
    and fresh: "ktime_get_ns H (clock_reads s) - v2 st > ONE_SEC"
    and quantum: "\<And>i. i \<le> n \<Longrightarrow> ktime_get_ns H (clock_reads s + i) - ktime_get_ns H (clock_reads s) \<le> ONE_SEC"
    and small: "n + 1 < 2 ^ 64"
  shows "flooded H (flood_run H n s) \<longleftrightarrow> 125000 < n + 1"
proof (cases n)
  case 0
  then show ?thesis using st fresh by (simp add: flooded_def is_under_flood_def Let_def)
next
  case (Suc m)
  have "stats (flood_run H n s) 514 = Some \<lparr>v1 = of_nat n, v2 = ktime_get_ns H (clock_reads s)\<rparr>"
    "clock_reads (flood_run H n s) = clock_reads s + n"
    using flood_run_state [OF st fresh, of m] quantum Suc by simp_all
  then have "flooded H (flood_run H n s) \<longleftrightarrow> (125000 :: u64) < of_nat n + 1"
    using quantum [of n] by (auto simp: flooded_def is_under_flood_def Let_def dest: leD)
  also have "(of_nat n + 1 :: u64) = of_nat (n + 1)" by simp
  also have "((125000 :: u64) < of_nat (n + 1)) \<longleftrightarrow> 125000 < n + 1"
    using small by (subst word_less_nat_alt) (simp add: unat_of_nat take_bit_nat_eq_self del: of_nat_add of_nat_Suc)
  finally show ?thesis .
qed

section \<open>A configured VIP forwards\<close>

text \<open>Configured tables: arrays of their declared size whose entries name reals in range.\<close>

definition tables_ok :: "bpf_helpers \<Rightarrow> bpf_state \<Rightarrow> bool" where
  "tables_ok H s \<longleftrightarrow> arrays_ok s \<and> (\<forall>k v. ch_rings s k = Some v \<longrightarrow> v < MAX_REALS) \<and>
     (\<forall>k v. quic_mapping s k = Some v \<longrightarrow> v < MAX_REALS) \<and>
     (\<forall>k v. lpm_lookup_v4 H (lpm_src_v4 s) k = Some v \<longrightarrow> v < MAX_REALS) \<and>
     (\<forall>k v. lpm_lookup_v6 H (lpm_src_v6 s) k = Some v \<longrightarrow> v < MAX_REALS)"

lemma tables_ok_quiet: "dp_quiet s t \<Longrightarrow> tables_ok H s \<Longrightarrow> tables_ok H t"
  using arrays_ok_frame [of s t] by (simp add: tables_ok_def dp_quiet_def dp_frame_def)

lemma tables_ok_reals: "tables_ok H s \<Longrightarrow> k < MAX_REALS \<Longrightarrow> \<exists>r. reals s k = Some r"
  unfolding tables_ok_def arrays_ok_def using array_mapD by blast

lemma tables_ok_stats: "tables_ok H s \<Longrightarrow> k < STATS_MAP_SIZE \<Longrightarrow> stats s k \<noteq> None"
  unfolding tables_ok_def arrays_ok_def array_map_def by blast

lemma src_route_real:
  "src_route H pckt v6 s = (Some key, t) \<Longrightarrow> tables_ok H s \<Longrightarrow> key < MAX_REALS"
  by (auto simp: src_route_def tables_ok_def Let_def split: if_splits)

lemma get_packet_dst_total:
  assumes ok: "tables_ok H s" and num: "vip_num vip < MAX_VIPS" and lru: "lru_get lru s \<noteq> None"
  shows "wp (get_packet_dst B H pckt vip v6 lru s)
    (\<lambda>(dst, pk, t). dp_quiet s t \<and> dst \<noteq> None \<and> reals s (real_index pk) = dst)"
proof -
  obtain fl c s1 where fl: "is_under_flood H 0 s = (fl, c, s1)" by (metis prod_cases3)
  obtain found s2 where src: "(if LPM_SRC_LOOKUP B \<and> vip_flags vip AND F_SRC_ROUTING \<noteq> 0 \<and> \<not> fl
      then src_route H pckt v6 s1 else (None, s1)) = (found, s2)" by (metis prod.exhaust)
  note q1 = is_under_flood_quiet [OF fl]
  have q: "dp_quiet s s2"
    using q1 src src_route_quiet [of H pckt v6 s1 found s2]
    by (auto split: if_splits intro: dp_quiet_trans)
  note ok2 = tables_ok_quiet [OF q ok]
  have l: "lru_get lru s2 \<noteq> None" using dp_quiet_lru [OF q lru] .
  have lq: "dp_quiet s (lru_set lru m s2)" for m
    using dp_quiet_trans [OF q dp_quiet_lru_set [OF l]] .
  have r2: "reals s2 = reals s" using q by (simp add: dp_quiet_def dp_frame_def)
  have found: "\<And>key. found = Some key \<Longrightarrow> key < MAX_REALS"
    using src src_route_real [of H pckt v6 s1 _ s2] tables_ok_quiet [OF q1 ok] by (auto split: if_splits)
  have rings: "array_map CH_RINGS_SIZE (ch_rings s2)" "\<And>k v. ch_rings s2 k = Some v \<Longrightarrow> v < MAX_REALS"
    using ok2 unfolding tables_ok_def arrays_ok_def by blast+
  obtain key where key: "ch_rings s2 (ring_slot vip v6 pckt) = Some key" "key < MAX_REALS"
    using array_mapD [OF rings(1) ring_slot_no_overflow(2) [OF num]] rings(2) by blast
  note slot = key(1) [unfolded ring_slot_def]
  have pk: "(if found = None \<and> vip_flags vip AND F_HASH_DPORT_ONLY \<noteq> 0 then pckt\<lparr>flow := dport_only_flow (flow pckt)\<rparr> else pckt) =
     (if found = None then pckt\<lparr>flow := hash_flow vip (flow pckt)\<rparr> else pckt)"
    by (simp add: hash_flow_def)
  obtain k where k: "(case found of None \<Rightarrow> ch_rings s2 (RING_SIZE * vip_num vip +
      get_packet_hash (if found = None then pckt\<lparr>flow := hash_flow vip (flow pckt)\<rparr> else pckt) v6 mod RING_SIZE)
      | Some key \<Rightarrow> Some key) = Some k" "k < MAX_REALS"
    using slot key(2) found by (cases found) auto
  obtain r where r: "reals s2 k = Some r" using tables_ok_reals [OF ok2 k(2)] by blast
  show ?thesis
    unfolding get_packet_dst_def Let_def fl src prod.case pk k(1) option.case
    using lq q l r r2 by (auto simp: wp_simps)
qed

lemma new_real_total:
  assumes ok: "tables_ok H s" and num: "vip_num vip < MAX_VIPS" and lru: "lru_get lru s \<noteq> None"
  shows "wp (new_real B H pckt vip v6 lru s)
    (\<lambda>(res, t). dp_quiet s t \<and> (\<exists>r pk. res = Inr (r, pk) \<and> reals s (real_index pk) = Some r))"
proof -
  have "stats s (MAX_VIPS + LRU_MISS_CNTR) \<noteq> None" using tables_ok_stats [OF ok] by simp
  then obtain u where u: "count_tcp_miss B pckt s = Some u"
    by (cases "count_tcp_miss B pckt s") (auto simp: count_tcp_miss_def Let_def stat_add_None split: if_splits)
  note q = count_tcp_miss_quiet [OF u]
  have ru: "reals u = reals s" using q by (simp add: dp_quiet_def dp_frame_def)
  note gpd = get_packet_dst_total [OF tables_ok_quiet [OF q ok] num dp_quiet_lru [OF q lru]]
  have "wp (stat_add (MAX_VIPS + LRU_CNTRS) 0 1 t) (dp_quiet s)" if "dp_quiet u t" for t
  proof -
    have st: "dp_quiet s t" using dp_quiet_trans [OF q that] .
    then have "stats t (MAX_VIPS + LRU_CNTRS) \<noteq> None"
      using tables_ok_stats [OF tables_ok_quiet [OF st ok]] by simp
    then show ?thesis by (rule wp_mono [OF stat_add_safe]) (auto intro: dp_quiet_trans [OF st])
  qed
  then show ?thesis unfolding new_real_def u using ru
    by (auto intro!: wp_mono [OF gpd])
qed

lemma connection_table_lookup_real:
  assumes "lru_get lru s \<noteq> None"
  shows "wp (connection_table_lookup H pckt lru s)
    (\<lambda>(dst, pk, t). dp_quiet s t \<and> (dst = None \<or> reals s (real_index pk) = dst))"
proof -
  have "wp (connection_table_lookup H pckt lru s) (\<lambda>(dst, pk, t). dst = None \<or> reals t (real_index pk) = dst)"
  proof -
    have "reals (lru_set lru m u) = reals u" for m u
      by (cases lru) (simp_all add: lru_set_def)
    then show ?thesis using assms
      by (auto simp: connection_table_lookup_def wp_simps Let_def split: option.split)
  qed
  from wp_conj [OF connection_table_lookup_safe [OF assms] this] show ?thesis
    by (rule wp_mono) (auto simp: dp_quiet_def dp_frame_def)
qed

lemma select_real_total:
  assumes ok: "tables_ok H s" and num: "vip_num vip < MAX_VIPS"
  shows "wp (select_real B H pckt vip v6 s)
    (\<lambda>(res, t). dp_quiet s t \<and> (\<exists>r pk. res = Inr (r, pk) \<and> reals s (real_index pk) = Some r))"
proof -
  have "stats s (MAX_VIPS + FALLBACK_LRU_CNTR) \<noteq> None" using tables_ok_stats [OF ok] by simp
  then obtain s' where "stat_add (MAX_VIPS + FALLBACK_LRU_CNTR) 1 0 s = Some s'"
    by (cases "stat_add (MAX_VIPS + FALLBACK_LRU_CNTR) 1 0 s") (auto simp: stat_add_None)
  then obtain lru s1 where l: "pick_lru H s = (Inr lru, s1)"
    by (cases "lru_maps_mapping s (smp_processor_id H)") (auto simp: pick_lru_def Let_def)
  have q: "dp_quiet s s1" and lru: "lru_get lru s1 \<noteq> None" using pick_lru_quiet [OF l] by auto
  have r1: "reals s1 = reals s" using q by (simp add: dp_quiet_def dp_frame_def)
  have new: "wp (new_real B H pk vip v6 lru t) (\<lambda>(res, u). dp_quiet s u \<and> (\<exists>r pk. res = Inr (r, pk) \<and> reals s (real_index pk) = Some r))"
    if "dp_quiet s1 t" for pk t
  proof -
    have st: "dp_quiet s t" using dp_quiet_trans [OF q that] .
    then have "reals t = reals s" by (simp add: dp_quiet_def dp_frame_def)
    then show ?thesis
      by (auto intro!: wp_mono [OF new_real_total [OF tables_ok_quiet [OF st ok] num dp_quiet_lru [OF that lru]]]
          intro: dp_quiet_trans [OF st])
  qed
  show ?thesis
    unfolding select_real_def Let_def l using q r1
    by (auto intro!: wp_mono [OF connection_table_lookup_real [OF lru]] new
        intro: dp_quiet_trans split: option.split)
qed

lemma quic_route_total:
  assumes ok: "tables_ok H s"
  shows "wp (quic_route pckt vip v6 s)
    (\<lambda>(res, t). dp_quiet s t \<and> (\<exists>dst pk. res = Inr (dst, pk) \<and> (dst = None \<or> reals s (real_index pk) = dst)))"
proof -
  have st: "stats s (MAX_VIPS + QUIC_ROUTE_STATS) \<noteq> None" using tables_ok_stats [OF ok] by simp
  have add: "wp (stat_add (MAX_VIPS + QUIC_ROUTE_STATS) a b s) (dp_quiet s)" for a b
    using stat_add_safe [OF st] by simp
  have map: "\<exists>r. reals s key = Some r" if "quic_mapping s k = Some key" for k key
    using ok that tables_ok_reals [OF ok] unfolding tables_ok_def by blast
  show ?thesis
    using st by (auto simp: quic_route_def wp_simps Let_def intro!: wp_mono [OF parse_quic_safe]
        wp_mono [OF add [unfolded MAX_VIPS_def QUIC_ROUTE_STATS_def, simplified]]
        split: option.split dest: map)
qed

definition outer_len :: "build_flags \<Rightarrow> real_definition \<Rightarrow> nat" where
  "outer_len B r = (if real_flags r AND F_IPV6 \<noteq> 0 then sizeof_ipv6hdr else sizeof_iphdr) +
     (if GUE_ENCAP B then sizeof_udphdr else 0)"

text \<open>The outer header of a frame is of the family of the real, carries its address and announces what is inside: a UDP datagram for GUE, otherwise an
  IP packet, of the family \<open>v6\<close> tells when the real is of IPv6.\<close>

definition addressed_to :: "build_flags \<Rightarrow> bool \<Rightarrow> real_definition \<Rightarrow> packet \<Rightarrow> bool" where
  "addressed_to B v6 r q \<longleftrightarrow>
     (if real_flags r AND F_IPV6 \<noteq> 0
      then slice q 12 2 = bytes16 BE_ETH_P_IPV6 \<and> ip6_daddr (dec_ipv6hdr (slice q 14 40)) = real_dstv6 r \<and>
        ip6_nexthdr (dec_ipv6hdr (slice q 14 40)) = (if GUE_ENCAP B then IPPROTO_UDP else if v6 then IPPROTO_IPV6 else IPPROTO_IPIP)
      else slice q 12 2 = bytes16 BE_ETH_P_IP \<and> iph_daddr (dec_iphdr (slice q 14 20)) = real_dst r \<and>
        iph_ihl (dec_iphdr (slice q 14 20)) = 5 \<and> iph_frag_off (dec_iphdr (slice q 14 20)) = 0 \<and>
        iph_protocol (dec_iphdr (slice q 14 20)) = (if GUE_ENCAP B then IPPROTO_UDP else IPPROTO_IPIP))"

text \<open>The packet goes to the real behind an outer header and both counters count it.\<close>

definition sent_to_real :: "build_flags \<Rightarrow> bool \<Rightarrow> vip_meta \<Rightarrow> u16 \<Rightarrow> u32 \<Rightarrow> real_definition \<Rightarrow> bpf_state \<Rightarrow> bpf_state \<Rightarrow> bool" where
  "sent_to_real B v6 vip nbytes idx r s t \<longleftrightarrow> reals s idx = Some r \<and> tunnelled (outer_len B r) (pkt s) (pkt t) \<and>
     addressed_to B v6 r (pkt t) \<and>
     stats t (vip_num vip) = map_option (\<lambda>d. \<lparr>v1 = v1 d + 1, v2 = v2 d + ucast nbytes\<rparr>) (stats s (vip_num vip)) \<and>
     reals_stats t = (reals_stats s)(idx := map_option (\<lambda>d. \<lparr>v1 = v1 d + 1, v2 = v2 d + ucast nbytes\<rparr>) (reals_stats s idx))"

lemma outer_daddr [simp]:
  "ip6_daddr (create_v6_hdr h a b d l pr) = d" "iph_daddr (create_v4_hdr g a c x l pr) = x" "ip6_nexthdr (create_v6_hdr h a b d l pr) = pr"
  by (simp_all add: create_v6_hdr_def create_v4_hdr_def Let_def)

lemma pckt_encap_total:
  assumes H: "adjust_head_ok (xdp_adjust_head H)" "\<And>p d. -48 \<le> d \<Longrightarrow> d < 0 \<Longrightarrow> xdp_adjust_head H p d \<noteq> None"
    and len: "14 \<le> length (pkt s)" and srcs: "array_map 2 (pckt_srcs s)"
  shows "real_flags r AND F_IPV6 \<noteq> 0 \<Longrightarrow>
      \<exists>q. PCKT_ENCAP_V6 B H cval v6 pckt r n s = Some (True, s\<lparr>pkt := q\<rparr>) \<and> tunnelled (outer_len B r) (pkt s) q \<and> addressed_to B v6 r q"
    and "real_flags r AND F_IPV6 = 0 \<Longrightarrow>
      \<exists>q. PCKT_ENCAP_V4 B H cval pckt r n s = Some (True, s\<lparr>pkt := q\<rparr>) \<and> tunnelled (outer_len B r) (pkt s) q \<and> addressed_to B v6 r q"
proof -
  obtain s4 s6 where src: "pckt_srcs s V4_SRC_INDEX = Some s4" "pckt_srcs s V6_SRC_INDEX = Some s6"
    using array_mapD [OF srcs, of V4_SRC_INDEX] array_mapD [OF srcs, of V6_SRC_INDEX] by auto
  have room: "\<exists>q. xdp_adjust_head H (pkt s) (- int k) = Some q" if "0 < k" "k \<le> 48" for k
    using H(2) [of "- int k" "pkt s"] that by auto
  obtain a40 a48 a20 a28 where a: "xdp_adjust_head H (pkt s) (-40) = Some a40" "xdp_adjust_head H (pkt s) (-48) = Some a48"
    "xdp_adjust_head H (pkt s) (-20) = Some a20" "xdp_adjust_head H (pkt s) (-28) = Some a28"
    using room [of 40] room [of 48] room [of 20] room [of 28] by auto
  note r6 = encap_v6_result [OF H(1) len a(1)] gue_encap_v6_result [where srcs = "pckt_srcs s", OF H(1) len a(2) src(2)]
  note r4 = encap_v4_result [OF H(1) len a(3)] gue_encap_v4_result [where srcs = "pckt_srcs s", OF H(1) len a(4) src(1)]
  obtain q1 q2 where q6: "encap_v6 H cval v6 pckt r n (pkt s) = Some (True, q1)" "tunnelled 40 (pkt s) q1"
    "gue_encap_v6 H (pckt_srcs s) cval v6 pckt r n (pkt s) = Some (True, q2)" "tunnelled 48 (pkt s) q2"
    using ipip6.encap_tunnelled [OF H(1) len, where x = "(cval, v6, pckt, r, n)"]
      gue6.encap_tunnelled [OF H(1) len, where x = "(pckt_srcs s, cval, v6, pckt, r, n)"] a src by auto
  have "real_flags r AND F_IPV6 \<noteq> 0 \<Longrightarrow> addressed_to B v6 r (if GUE_ENCAP B then q2 else q1)" using q6(1,3) len by (auto simp: r6 addressed_to_def min_absorb2)
  then show "real_flags r AND F_IPV6 \<noteq> 0 \<Longrightarrow>
      \<exists>q. PCKT_ENCAP_V6 B H cval v6 pckt r n s = Some (True, s\<lparr>pkt := q\<rparr>) \<and> tunnelled (outer_len B r) (pkt s) q \<and> addressed_to B v6 r q"
    using q6 by (intro exI [of _ "if GUE_ENCAP B then q2 else q1"]) (cases "GUE_ENCAP B"; simp add: PCKT_ENCAP_V6_def outer_len_def)
  obtain q3 q4 where q4: "encap_v4 H cval pckt r n (pkt s) = Some (True, q3)" "tunnelled 20 (pkt s) q3"
    "gue_encap_v4 H (pckt_srcs s) cval pckt r n (pkt s) = Some (True, q4)" "tunnelled 28 (pkt s) q4"
    using ipip4.encap_tunnelled [OF H(1) len, where x = "(cval, pckt, r, n)"]
      gue4.encap_tunnelled [OF H(1) len, where x = "(pckt_srcs s, cval, pckt, r, n)"] a src by auto
  have "real_flags r AND F_IPV6 = 0 \<Longrightarrow> addressed_to B v6 r (if GUE_ENCAP B then q4 else q3)" using q4(1,3) len by (auto simp: r4 addressed_to_def min_absorb2)
  then show "real_flags r AND F_IPV6 = 0 \<Longrightarrow>
      \<exists>q. PCKT_ENCAP_V4 B H cval pckt r n s = Some (True, s\<lparr>pkt := q\<rparr>) \<and> tunnelled (outer_len B r) (pkt s) q \<and> addressed_to B v6 r q"
    using q4 by (intro exI [of _ "if GUE_ENCAP B then q4 else q3"]) (cases "GUE_ENCAP B"; simp add: PCKT_ENCAP_V4_def outer_len_def)
qed

lemma forward_to_real_total:
  assumes H: "adjust_head_ok (xdp_adjust_head H)" "\<And>p d. -48 \<le> d \<Longrightarrow> d < 0 \<Longrightarrow> xdp_adjust_head H p d \<noteq> None"
    and len: "14 \<le> length (pkt s)" and ok: "arrays_ok s"
    and num: "vip_num vip < MAX_VIPS" and r: "reals s (real_index pckt) = Some r"
  shows "\<exists>t. forward_to_real B H pckt vip v6 r nbytes s = Some (XDP_TX, t) \<and>
    sent_to_real B v6 vip nbytes (real_index pckt) r s t"
proof -
  have srcs: "array_map 2 (pckt_srcs s)" and ctl: "array_map CTL_MAP_SIZE (ctl_array s)"
    and st: "array_map STATS_MAP_SIZE (stats s)" and rst: "array_map MAX_REALS (reals_stats s)"
    and re: "array_map MAX_REALS (reals s)" using ok unfolding arrays_ok_def by blast+
  obtain cval where cval: "ctl_array s 0 = Some cval" using array_mapD [OF ctl, of 0] by auto
  obtain q where q: "(if real_flags r AND F_IPV6 \<noteq> 0 then PCKT_ENCAP_V6 B H cval v6 pckt r (ucast nbytes) s
      else PCKT_ENCAP_V4 B H cval pckt r (ucast nbytes) s) = Some (True, s\<lparr>pkt := q\<rparr>)"
    and tun: "tunnelled (outer_len B r) (pkt s) q" "addressed_to B v6 r q"
    using pckt_encap_total(1) [OF H len srcs, of r B cval v6 pckt "ucast nbytes"]
      pckt_encap_total(2) [OF H len srcs, of r B cval pckt "ucast nbytes"]
    by (cases "real_flags r AND F_IPV6 = 0") auto
  have "vip_num vip < STATS_MAP_SIZE" using num by (simp add: word_less_nat_alt)
  then obtain d where d: "stats s (vip_num vip) = Some d" using array_mapD [OF st] by blast
  have "real_index pckt < MAX_REALS" using r re unfolding array_map_def by blast
  then obtain e where e: "reals_stats s (real_index pckt) = Some e" using array_mapD [OF rst] by blast
  show ?thesis
    unfolding forward_to_real_def cval option.case q
    using d e r tun by (simp add: stat_add_def real_stat_add_def deref_def sent_to_real_def)
qed

lemma process_vip_packet_total:
  assumes H: "adjust_head_ok (xdp_adjust_head H)" "\<And>p d. -48 \<le> d \<Longrightarrow> d < 0 \<Longrightarrow> xdp_adjust_head H p d \<noteq> None"
    and len: "14 \<le> length (pkt s)" "length (pkt s) \<le> MAX_PCKT_SIZE"
    and ok: "tables_ok H s" and num: "vip_num vip < MAX_VIPS"
  shows "\<exists>t idx r. process_vip_packet B H pckt vip v6 nbytes s = Some (XDP_TX, t) \<and>
    sent_to_real B v6 vip nbytes idx r s t"
proof -
  have "stats s (MAX_VIPS + LRU_CNTRS) \<noteq> None" using tables_ok_stats [OF ok] by simp
  then obtain s1 where s1: "stat_add (MAX_VIPS + LRU_CNTRS) 1 0 s = Some s1"
    by (cases "stat_add (MAX_VIPS + LRU_CNTRS) 1 0 s") (auto simp: stat_add_None)
  have q1: "dp_quiet s s1" using stat_add_quiet [OF s1] by simp
  have fwd: "\<exists>u. forward_to_real B H pk vip v6 r nbytes t = Some (XDP_TX, u) \<and>
      sent_to_real B v6 vip nbytes (real_index pk) r s u"
    if t: "dp_quiet s t" and r: "reals s (real_index pk) = Some r" for t pk r
  proof -
    have eq: "reals t = reals s" "pkt t = pkt s" "reals_stats t = reals_stats s" "stats t (vip_num vip) = stats s (vip_num vip)"
      using t num by (simp_all add: dp_quiet_def dp_frame_def)
    have "arrays_ok t" using tables_ok_quiet [OF t ok] by (simp add: tables_ok_def)
    from forward_to_real_total [OF H _ this num, of pk r B v6 nbytes] len(1) r show ?thesis
      by (simp add: eq sent_to_real_def)
  qed
  have r1: "reals s1 = reals s" using q1 by (simp add: dp_quiet_def dp_frame_def)
  obtain dst pk s2 where s2: "quic_route pckt vip v6 s1 = Some (Inr (dst, pk), s2)" "dp_quiet s1 s2"
    and dst: "dst = None \<or> reals s (real_index pk) = dst"
    using quic_route_total [OF tables_ok_quiet [OF q1 ok], of pckt vip v6] unfolding wp_iff r1 by auto
  note q2 = dp_quiet_trans [OF q1 s2(2)]
  show ?thesis
  proof (cases dst)
    case (Some r)
    then show ?thesis using fwd [OF q2, of pk r] dst len(2)
      unfolding process_vip_packet_def s1 option.case s2(1) by auto
  next
    case None
    obtain s3 r pk' where s3: "select_real B H pk vip v6 s2 = Some (Inr (r, pk'), s3)" "dp_quiet s2 s3"
      "reals s2 (real_index pk') = Some r"
      using select_real_total [OF tables_ok_quiet [OF q2 ok] num, of B pk v6] unfolding wp_iff by auto
    have "reals s2 = reals s" using q2 by (simp add: dp_quiet_def dp_frame_def)
    then show ?thesis using fwd [OF dp_quiet_trans [OF q2 s3(2)], of pk' r] s3 None len(2)
      unfolding process_vip_packet_def s1 option.case s2(1) by auto
  qed
qed

section \<open>From the wire\<close>

lemma tcp4_headers:
  assumes p: "p = eth @ bytes16 BE_ETH_P_IP @ enc_iphdr iph @ l4" "length eth = 12" "20 \<le> length l4"
    and iph: "iph_ihl iph = 5" "iph_frag_off iph AND PCKT_FRAGMENTED = 0" "iph_protocol iph = IPPROTO_TCP"
  shows "14 \<le> length p" "ld16 p 12 = Some BE_ETH_P_IP"
    and "process_l3_headers p sizeof_eth_hdr False packet_description_zero =
      Some (FURTHER_PROCESSING, p,
        \<lparr>flow = \<lparr>srcv6 = in6_v4 (iph_saddr iph), dstv6 = in6_v4 (iph_daddr iph), port16_0 = 0, port16_1 = 0,
           proto = IPPROTO_TCP\<rparr>, real_index = 0, pflags = 0, tos = iph_tos iph\<rparr>,
        bpf_ntohs (iph_tot_len iph))"
    and "flow pckt = \<lparr>srcv6 = a, dstv6 = d, port16_0 = 0, port16_1 = 0, proto = pr\<rparr> \<Longrightarrow> pflags pckt = 0 \<Longrightarrow>
      \<exists>q. parse_tcp p False pckt = Some (True, q) \<and>
        flow q = \<lparr>srcv6 = a, dstv6 = d, port16_0 = tcp_source (dec_tcphdr (take 20 l4)),
          port16_1 = tcp_dest (dec_tcphdr (take 20 l4)), proto = pr\<rparr>"
proof -
  have s1: "slice p 12 2 = bytes16 BE_ETH_P_IP" "slice p 14 20 = enc_iphdr iph" "slice p 34 20 = take 20 l4"
    using p by (simp_all add: slice_def)
  have len: "54 \<le> length p" using p by simp
  show "14 \<le> length p" using len by simp
  show "ld16 p 12 = Some BE_ETH_P_IP" using len s1 by (simp add: ld16_def ldn_def)
  show "process_l3_headers p sizeof_eth_hdr False packet_description_zero =
      Some (FURTHER_PROCESSING, p,
        \<lparr>flow = \<lparr>srcv6 = in6_v4 (iph_saddr iph), dstv6 = in6_v4 (iph_daddr iph), port16_0 = 0, port16_1 = 0,
           proto = IPPROTO_TCP\<rparr>, real_index = 0, pflags = 0, tos = iph_tos iph\<rparr>,
        bpf_ntohs (iph_tot_len iph))"
    using len s1 iph by (simp add: process_l3_headers_def ld_iphdr_def ldn_def Let_def set_flow_v4_def
      packet_description_zero_def flow_zero_def in6_v4_def)
  show "flow pckt = \<lparr>srcv6 = a, dstv6 = d, port16_0 = 0, port16_1 = 0, proto = pr\<rparr> \<Longrightarrow> pflags pckt = 0 \<Longrightarrow>
      \<exists>q. parse_tcp p False pckt = Some (True, q) \<and>
        flow q = \<lparr>srcv6 = a, dstv6 = d, port16_0 = tcp_source (dec_tcphdr (take 20 l4)),
          port16_1 = tcp_dest (dec_tcphdr (take 20 l4)), proto = pr\<rparr>"
    using len s1 by (simp add: parse_tcp_def is_icmp_def calc_offset_def ld_tcphdr_def ldn_def set_ports_def Let_def)
qed

lemma vip_lookup_exact:
  "vips \<lparr>vipv6 = dst_addr pckt v6, vip_port = port16_1 (flow pckt), vip_proto = proto (flow pckt)\<rparr> = Some vip \<Longrightarrow>
   vip_lookup vips pckt v6 = Some (vip, pckt)"
  by (simp add: vip_lookup_def)

lemma tcp4_forwarded:
  assumes H: "adjust_head_ok (xdp_adjust_head H)" "\<And>p d. -48 \<le> d \<Longrightarrow> d < 0 \<Longrightarrow> xdp_adjust_head H p d \<noteq> None"
    and ok: "tables_ok H s" and num: "vip_num vip < MAX_VIPS"
    and p: "pkt s = eth @ bytes16 BE_ETH_P_IP @ enc_iphdr iph @ l4" "length eth = 12" "20 \<le> length l4"
      "length (pkt s) \<le> MAX_PCKT_SIZE"
    and iph: "iph_ihl iph = 5" "iph_frag_off iph AND PCKT_FRAGMENTED = 0" "iph_protocol iph = IPPROTO_TCP"
    and vip: "vip_map s \<lparr>vipv6 = in6_v4 (iph_daddr iph), vip_port = tcp_dest (dec_tcphdr (take 20 l4)),
      vip_proto = IPPROTO_TCP\<rparr> = Some vip"
  shows "\<exists>t idx r. balancer_ingress B H s = Some (Finish XDP_TX, t) \<and>
    sent_to_real B False vip (bpf_ntohs (iph_tot_len iph)) idx r s t"
proof -
  note h = tcp4_headers [OF p(1-3) iph]
  obtain q where q: "parse_tcp (pkt s) False \<lparr>flow = \<lparr>srcv6 = in6_v4 (iph_saddr iph), dstv6 = in6_v4 (iph_daddr iph),
      port16_0 = 0, port16_1 = 0, proto = IPPROTO_TCP\<rparr>, real_index = 0, pflags = 0, tos = iph_tos iph\<rparr> = Some (True, q)"
    and f: "flow q = \<lparr>srcv6 = in6_v4 (iph_saddr iph), dstv6 = in6_v4 (iph_daddr iph),
      port16_0 = tcp_source (dec_tcphdr (take 20 l4)), port16_1 = tcp_dest (dec_tcphdr (take 20 l4)), proto = IPPROTO_TCP\<rparr>"
    using h(4) [where pckt = "\<lparr>flow = \<lparr>srcv6 = in6_v4 (iph_saddr iph), dstv6 = in6_v4 (iph_daddr iph),
      port16_0 = 0, port16_1 = 0, proto = IPPROTO_TCP\<rparr>, real_index = 0, pflags = 0, tos = iph_tos iph\<rparr>"] by auto
  have v: "vip_lookup (vip_map s) q False = Some (vip, q)"
    using vip f by (intro vip_lookup_exact) (simp add: dst_addr_def in6_v4_def)
  have "balancer_ingress B H s = map_option (\<lambda>(a, s). (Finish a, s))
      (process_vip_packet B H q vip False (bpf_ntohs (iph_tot_len iph)) s)"
    using h(1) q by (simp add: balancer_ingress_def h(2) h(3) [unfolded sizeof_eth_hdr_def] process_packet_def process_l4_def v Let_def)
  with process_vip_packet_total [OF H h(1) p(4) ok num, of B q False "bpf_ntohs (iph_tot_len iph)"] show ?thesis
    by auto
qed

text \<open>C3. End to end: an unfragmented IPv4/TCP packet without options, at most \<open>MAX_PCKT_SIZE\<close> long,
  for a configured VIP leaves with \<open>XDP_TX\<close> in every build. It carries the client's IP packet
  unchanged behind one outer header of the size and family the real and the build ask for, addressed to the real, the
  real is one of the table, and the counters of the VIP and of that real grow by one packet and
  by the bytes of the IP header's length field.\<close>

theorem tcp4_packet_to_vip_is_forwarded:
  assumes H: "adjust_head_ok (xdp_adjust_head H)" "\<And>p d. -48 \<le> d \<Longrightarrow> d < 0 \<Longrightarrow> xdp_adjust_head H p d \<noteq> None"
    and ok: "tables_ok H s" and num: "vip_num vip < MAX_VIPS"
    and p: "pkt s = eth @ bytes16 BE_ETH_P_IP @ enc_iphdr iph @ l4" "length eth = 12" "20 \<le> length l4"
      "length (pkt s) \<le> MAX_PCKT_SIZE"
    and iph: "iph_ihl iph = 5" "iph_frag_off iph AND PCKT_FRAGMENTED = 0" "iph_protocol iph = IPPROTO_TCP"
    and vip: "vip_map s \<lparr>vipv6 = in6_v4 (iph_daddr iph), vip_port = tcp_dest (dec_tcphdr (take 20 l4)),
      vip_proto = IPPROTO_TCP\<rparr> = Some vip"
  shows "\<exists>t idx r. balancer_ingress B H s = Some (Finish XDP_TX, t) \<and>
    sent_to_real B False vip (bpf_ntohs (iph_tot_len iph)) idx r s t"
  using tcp4_forwarded [OF assms] .

section \<open>An example configuration\<close>

definition ex_real :: real_definition where
  "ex_real = \<lparr>real_dstv6 = in6_v4 0x0100000A, real_flags = 0\<rparr>"

definition ex_vip :: vip_definition where
  "ex_vip = \<lparr>vipv6 = in6_v4 0x0100C80A, vip_port = bpf_htons 80, vip_proto = IPPROTO_TCP\<rparr>"

definition ex_meta :: vip_meta where
  "ex_meta = \<lparr>vip_flags = 0, vip_num = 3\<rparr>"

definition const_array :: "u32 \<Rightarrow> 'v \<Rightarrow> u32 \<rightharpoonup> 'v" where
  "const_array n v = (\<lambda>k. if k < n then Some v else None)"

lemma const_array_map [simp]: "array_map n (const_array n v)"
  by (simp add: array_map_def const_array_def)

definition ex_state :: bpf_state where
  "ex_state = \<lparr>pkt = [], clock_reads = 0, event_pipe = [], vip_map = [ex_vip \<mapsto> ex_meta],
     lru_maps_mapping = [0 \<mapsto> Map.empty], fallback_lru_cache = Map.empty,
     ch_rings = const_array CH_RINGS_SIZE 7, reals = const_array MAX_REALS ex_real,
     reals_stats = const_array MAX_REALS \<lparr>v1 = 0, v2 = 0\<rparr>,
     stats = const_array STATS_MAP_SIZE \<lparr>v1 = 0, v2 = 0\<rparr>,
     quic_mapping = const_array MAX_QUIC_REALS 0, lpm_src_v4 = Map.empty, lpm_src_v6 = Map.empty,
     ctl_array = const_array CTL_MAP_SIZE \<lparr>ctl_u64 = 0x060504030201\<rparr>, decap_dst = Map.empty,
     pckt_srcs = const_array 2 ex_real\<rparr>"

definition ex_pckt :: packet_description where
  "ex_pckt = \<lparr>flow = \<lparr>srcv6 = in6_v4 0x0100A8C0, dstv6 = in6_v4 0x0100C80A, port16_0 = bpf_htons 31337,
     port16_1 = bpf_htons 80, proto = IPPROTO_TCP\<rparr>, real_index = 0, pflags = 0, tos = 0\<rparr>"

lemma ex_arrays_ok: "arrays_ok ex_state"
  by (simp add: arrays_ok_def ex_state_def del: CH_RINGS_SIZE_def MAX_REALS_def STATS_MAP_SIZE_def MAX_QUIC_REALS_def CTL_MAP_SIZE_def)






definition ex_pckt2 :: packet_description where
  "ex_pckt2 = ex_pckt\<lparr>flow := (flow ex_pckt)\<lparr>srcv6 := in6_v4 0x0200A8C0, port16_0 := 77\<rparr>\<rparr>"



section \<open>Witnesses\<close>

lemma ref_headroom: "-48 \<le> d \<Longrightarrow> d < 0 \<Longrightarrow> xdp_adjust_head ref_helpers p d \<noteq> None"
  by (simp add: ref_helpers_def ref_adjust_head_def)

lemma ex_tables_ok: "tables_ok ref_helpers (ex_state\<lparr>pkt := p\<rparr>)"
proof -
  have "arrays_ok (ex_state\<lparr>pkt := p\<rparr>)" using ex_arrays_ok by (simp add: arrays_ok_def)
  then show ?thesis
    by (auto simp: tables_ok_def ex_state_def ref_helpers_def const_array_def split: if_splits)
qed

definition ex_dport_meta :: vip_meta where
  "ex_dport_meta = \<lparr>vip_flags = F_HASH_DPORT_ONLY, vip_num = 3\<rparr>"

lemma ex_lru: "lru_get (Per_cpu 0) ex_state = Some Map.empty"
  by (simp add: lru_get_def ex_state_def)

lemma ex_ring_values: "ch_rings ex_state k = Some v \<Longrightarrow> v < MAX_REALS"
  by (auto simp: ex_state_def const_array_def split: if_splits)

theorem new_connection_gets_a_real_witness:
  "\<exists>r pk t. get_packet_dst default_build ref_helpers ex_pckt ex_meta False (Per_cpu 0) ex_state = Some (Some r, pk, t) \<and>
    reals ex_state (real_index pk) = Some r \<and> ch_rings ex_state (ring_slot ex_meta False ex_pckt) = Some (real_index pk)"
  by (rule new_connection_gets_a_real [OF ex_arrays_ok _ ex_ring_values])
    (simp_all add: ex_meta_def default_build_def ex_lru)

lemma ex_dport_dst: "\<exists>r pk t. get_packet_dst default_build ref_helpers p ex_dport_meta False (Per_cpu 0) ex_state = Some (Some r, pk, t)"
proof -
  obtain key where key: "ch_rings ex_state (ring_slot ex_dport_meta False p) = Some key"
    using ring_slot_no_overflow(2) [of ex_dport_meta False p] by (simp add: ex_dport_meta_def ex_state_def const_array_def)
  then obtain r where r: "reals ex_state key = Some r"
    using ex_ring_values [OF key] by (simp add: ex_state_def const_array_def)
  from get_packet_dst_ring [OF _ key r ex_lru, of default_build ref_helpers] show ?thesis
    by (auto simp: default_build_def)
qed

theorem dport_only_same_real_witness:
  "\<exists>r1 r2 pk1 pk2 s' t'.
     get_packet_dst default_build ref_helpers ex_pckt ex_dport_meta False (Per_cpu 0) ex_state = Some (Some r1, pk1, s') \<and>
     get_packet_dst default_build ref_helpers ex_pckt2 ex_dport_meta False (Per_cpu 0) ex_state = Some (Some r2, pk2, t') \<and>
     r1 = r2 \<and> real_index pk1 = real_index pk2"
proof -
  obtain r1 pk1 s' r2 pk2 t' where
    d1: "get_packet_dst default_build ref_helpers ex_pckt ex_dport_meta False (Per_cpu 0) ex_state = Some (Some r1, pk1, s')" and
    d2: "get_packet_dst default_build ref_helpers ex_pckt2 ex_dport_meta False (Per_cpu 0) ex_state = Some (Some r2, pk2, t')"
    using ex_dport_dst by meson
  have "r1 = r2 \<and> real_index pk1 = real_index pk2"
    by (rule dport_only_same_real [OF _ _ _ refl refl d1 d2])
      (simp_all add: ex_dport_meta_def default_build_def ex_pckt2_def ex_pckt_def)
  with d1 d2 show ?thesis by blast
qed

theorem dport_only_never_cached_witness:
  "\<exists>r pk t m. get_packet_dst default_build ref_helpers ex_pckt ex_dport_meta False (Per_cpu 0) ex_state = Some (Some r, pk, t) \<and>
     lru_get (Per_cpu 0) t = Some m \<and> m (flow ex_pckt) = None"
proof -
  obtain r pk t where
    d: "get_packet_dst default_build ref_helpers ex_pckt ex_dport_meta False (Per_cpu 0) ex_state = Some (Some r, pk, t)"
    using ex_dport_dst by meson
  have "\<exists>m'. lru_get (Per_cpu 0) t = Some m' \<and> m' (flow ex_pckt) = None"
    by (rule dport_only_never_cached [OF _ _ ref_lru_update_ok d _ ex_lru])
     (simp_all add: ex_dport_meta_def default_build_def ex_pckt_def dport_only_flow_def in6_v4_def in6_zero_def)
  with d show ?thesis by blast
qed

definition ex_old_quantum :: bpf_state where
  "ex_old_quantum = ex_state\<lparr>clock_reads := 2000000, stats := (stats ex_state)(514 \<mapsto> \<lparr>v1 = 4, v2 = 0\<rparr>)\<rparr>"

theorem flood_limit_exact_witness:
  "\<not> flooded ref_helpers (flood_run ref_helpers 124999 ex_old_quantum) \<and> flooded ref_helpers (flood_run ref_helpers 125000 ex_old_quantum)"
proof -
  have q: "ktime_get_ns ref_helpers (clock_reads ex_old_quantum + i) - ktime_get_ns ref_helpers (clock_reads ex_old_quantum) \<le> ONE_SEC"
    if "i \<le> 125000" for i
  proof -
    have "ktime_get_ns ref_helpers (clock_reads ex_old_quantum + i) - ktime_get_ns ref_helpers (clock_reads ex_old_quantum) = of_nat (1000 * i)"
      by (simp add: ref_helpers_def ex_old_quantum_def algebra_simps)
    moreover have "(of_nat (1000 * i) :: u64) \<le> 1000000000"
      using that by (subst word_le_nat_alt) (simp add: unat_of_nat take_bit_nat_eq_self del: of_nat_mult)
    ultimately show ?thesis by simp
  qed
  have st: "stats ex_old_quantum (MAX_VIPS + NEW_CONN_RATE_CNTR) = Some \<lparr>v1 = 4, v2 = 0\<rparr>"
    by (simp add: ex_old_quantum_def)
  have f: "ktime_get_ns ref_helpers (clock_reads ex_old_quantum) - v2 \<lparr>v1 = 4, v2 = 0\<rparr> > ONE_SEC"
    by (simp add: ref_helpers_def ex_old_quantum_def)
  have n: "124999 + 1 < (2 :: nat) ^ 64" "125000 + 1 < (2 :: nat) ^ 64" by simp_all
  show ?thesis
    using flood_limit_exact [OF st f _ n(1)] flood_limit_exact [OF st f _ n(2)] q by simp
qed

definition ex_iph :: iphdr where
  "ex_iph = \<lparr>iph_version = 4, iph_ihl = 5, iph_tos = 0, iph_tot_len = bpf_htons 40, iph_id = 0, iph_frag_off = 0,
     iph_ttl = 64, iph_protocol = IPPROTO_TCP, iph_check = 0, iph_saddr = 0x0100A8C0, iph_daddr = 0x0100C80A\<rparr>"

definition ex_tcp :: "u8 list" where
  "ex_tcp = [0x7A, 0x69, 0, 80] @ replicate 16 0"

definition ex_frame :: packet where
  "ex_frame = replicate 12 2 @ bytes16 BE_ETH_P_IP @ enc_iphdr ex_iph @ ex_tcp"

theorem tcp4_packet_to_vip_is_forwarded_witness:
  "\<exists>t idx r. balancer_ingress default_build ref_helpers (ex_state\<lparr>pkt := ex_frame\<rparr>) = Some (Finish XDP_TX, t) \<and>
    sent_to_real default_build False ex_meta 40 idx r (ex_state\<lparr>pkt := ex_frame\<rparr>) t"
proof -
  have head: "adjust_head_ok (xdp_adjust_head ref_helpers)" using ref_adjust_head_ok by (simp add: ref_helpers_def)
  have vip: "vip_map (ex_state\<lparr>pkt := ex_frame\<rparr>) \<lparr>vipv6 = in6_v4 (iph_daddr ex_iph),
      vip_port = tcp_dest (dec_tcphdr (take 20 ex_tcp)), vip_proto = IPPROTO_TCP\<rparr> = Some ex_meta"
  proof -
    have "tcp_dest (dec_tcphdr (take 20 ex_tcp)) = bpf_htons 80" by code_simp
    then show ?thesis by (simp add: ex_state_def ex_vip_def ex_iph_def)
  qed
  have "bpf_ntohs (iph_tot_len ex_iph) = 40" by (simp add: ex_iph_def)
  with tcp4_packet_to_vip_is_forwarded [OF head ref_headroom ex_tables_ok _ _ _ _ _ _ _ _ vip, where eth = "replicate 12 2" and B = default_build]
  show ?thesis by (simp add: ex_meta_def ex_frame_def ex_tcp_def ex_iph_def)
qed

end
