(* ===== verification/Wire_Correct.thy ===== *)
theory Wire_Correct
  imports Handle_Icmp
begin

text \<open>
  What is on the wire: the checksum fold, the outer header of the tunnel, transparency of the
  tunnels, the TTL decrement, ICMP echo replies and too-big errors, the flow of an ICMP error and
  the QUIC server id. Each property of a wire format is stated with the receiver's view of it:
  \<open>csum_valid\<close> is the receiver's checksum test, \<open>dec_iphdr\<close> and \<open>dec_icmphdr\<close> read the header
  back from the bytes.
\<close>

section \<open>Checksums\<close>

text \<open>C19. The checksum fold: for every 64-bit accumulator, four folds leave a 16-bit value whose
  complement completes the accumulated words to a valid Internet checksum, and the fold of a
  message that already carries its checksum is 0 exactly when the message is valid.\<close>

theorem csum_fold_correct:
  "csum_valid (unat c + unat (csum_fold_helper c)) \<and> (csum_fold_helper c = 0 \<longleftrightarrow> csum_valid (unat c))"
  by (simp add: csum_completes csum_fold_zero_iff)

section \<open>The outer header\<close>

lemma ipip_v4_src_prefix: "take 2 (bytes32 (ipip_v4_src pckt)) = [172, 16]"
proof -
  have a: "ucast ((0xFFFF0000 AND x) OR (4268 :: u32)) = (172 :: u8)" for x
  proof (rule bit_word_eqI)
    fix n assume "n < LENGTH(8)"
    then have "n \<in> {0,1,2,3,4,5,6,7}" by auto
    then show "bit (ucast ((0xFFFF0000 AND x) OR (4268 :: u32)) :: u8) n = bit (172 :: u8) n"
      by (auto simp: bit_simps)
  qed
  have b: "ucast (drop_bit 8 ((0xFFFF0000 AND x) OR (4268 :: u32))) = (16 :: u8)" for x
  proof (rule bit_word_eqI)
    fix n assume "n < LENGTH(8)"
    then have "n \<in> {0,1,2,3,4,5,6,7}" by auto
    then show "bit (ucast (drop_bit 8 ((0xFFFF0000 AND x) OR (4268 :: u32))) :: u8) n = bit (16 :: u8) n"
      by (auto simp: bit_simps)
  qed
  show ?thesis unfolding bytes32_def ipip_v4_src_def Let_def IPIP_V4_PREFIX_def
    by (simp only: numeral_2_eq_2 take_Suc_Cons take_0 a b)
qed

text \<open>IPIP encapsulation for an IPv4 real: the new frame goes to the router's MAC address from the
  old destination MAC, then an option-free IPv4 header with a valid checksum, protocol IPIP,
  TTL 64, the client's tos, the length of the client's packet plus 20, a source in 172.16/16 and
  the real's address as destination, then the client's IP packet byte for byte.\<close>

theorem encap_v4_frame:
  assumes H: "adjust_head_ok (xdp_adjust_head H)" and p: "14 \<le> length p"
    and room: "xdp_adjust_head H p (-20) \<noteq> None"
  shows "\<exists>h. encap_v4 H cval pckt dst n p =
      Some (True, ctl_mac cval @ take 6 p @ bytes16 BE_ETH_P_IP @ enc_iphdr h @ drop 14 p) \<and>
    csum_valid (wsum (enc_iphdr h)) \<and> iph_version h = 4 \<and> iph_ihl h = 5 \<and> iph_protocol h = IPPROTO_IPIP \<and>
    iph_ttl h = DEFAULT_TTL \<and> iph_tos h = tos pckt \<and> iph_frag_off h = 0 \<and>
    bpf_ntohs (iph_tot_len h) = ucast n + 20 \<and> take 2 (bytes32 (iph_saddr h)) = [172, 16] \<and>
    iph_daddr h = real_dst dst"
proof -
  obtain q0 where q0: "xdp_adjust_head H p (-20) = Some q0" using room by auto
  show ?thesis
    by (rule exI, rule conjI, rule encap_v4_result [OF H p q0])
      (simp add: create_v4_hdr_valid ipip_v4_src_prefix)
qed

section \<open>Tunnels\<close>

text \<open>C17. IPIP tunnels are transparent: a receiver that runs \<open>decap_v4\<close> or \<open>decap_v6\<close> on what
  \<open>encap_v4\<close> or \<open>encap_v6\<close> produced gets the client's IP packet back unchanged, byte for byte behind the Ethernet header.\<close>

theorem ipip_round_trip:
  assumes H: "adjust_head_ok (xdp_adjust_head H)" "adjust_head_ok (xdp_adjust_head K)" and p: "14 \<le> length p"
    and push: "\<And>d. -40 \<le> d \<Longrightarrow> d < 0 \<Longrightarrow> xdp_adjust_head H p d \<noteq> None"
    and pop: "\<And>r d. 0 < d \<Longrightarrow> d \<le> 40 \<Longrightarrow> length r = length p + nat d \<Longrightarrow> xdp_adjust_head K r d \<noteq> None"
  shows "(\<exists>q r. encap_v4 H cval pckt dst n p = Some (True, q) \<and> decap_v4 K q = Some (True, r) \<and> drop 14 r = drop 14 p) \<and>
    (\<exists>q r. encap_v6 H cval v6 pckt dst n p = Some (True, q) \<and> decap_v6 K (\<not> v6) q = Some (True, r) \<and> drop 14 r = drop 14 p)"
  using ipip4.decap_encap [OF H p _ push pop, where x = "(cval, pckt, dst, n)"]
    ipip6.decap_encap [OF H p _ push pop, where x = "(cval, v6, pckt, dst, n)" and y = "\<not> v6"] by simp

text \<open>C18. GUE tunnels are transparent in the same way once the source addresses are configured.\<close>

theorem gue_round_trip:
  assumes H: "adjust_head_ok (xdp_adjust_head H)" "adjust_head_ok (xdp_adjust_head K)" and p: "14 \<le> length p"
    and srcs: "srcs V4_SRC_INDEX \<noteq> None" "srcs V6_SRC_INDEX \<noteq> None"
    and push: "\<And>d. -48 \<le> d \<Longrightarrow> d < 0 \<Longrightarrow> xdp_adjust_head H p d \<noteq> None"
    and pop: "\<And>r d. 0 < d \<Longrightarrow> d \<le> 48 \<Longrightarrow> length r = length p + nat d \<Longrightarrow> xdp_adjust_head K r d \<noteq> None"
  shows "(\<exists>q r. gue_encap_v4 H srcs cval pckt dst n p = Some (True, q) \<and> gue_decap_v4 K q = Some (True, r) \<and> drop 14 r = drop 14 p) \<and>
    (\<exists>q r. gue_encap_v6 H srcs cval v6 pckt dst n p = Some (True, q) \<and> gue_decap_v6 K (\<not> v6) q = Some (True, r) \<and> drop 14 r = drop 14 p)"
  using gue4.decap_encap [OF H p _ push pop, where x = "(srcs, cval, pckt, dst, n)"]
    gue6.decap_encap [OF H p _ push pop, where x = "(srcs, cval, v6, pckt, dst, n)" and y = "\<not> v6"] srcs by simp

section \<open>TTL\<close>

text \<open>The TTL decrement of inline decapsulation: with a TTL of at least 2 and a valid header
  checksum the packet goes on with the TTL one less and the incrementally updated checksum valid
  again, and no byte outside the header changes.\<close>

theorem decrement_ttl_keeps_checksum:
  assumes off: "off + 20 \<le> length p" and valid: "csum_valid (wsum (slice p off 20))"
    and ttl: "2 \<le> iph_ttl (dec_iphdr (slice p off 20))"
  shows "\<exists>q. decrement_ttl p off False = Some (FURTHER_PROCESSING, q) \<and> csum_valid (wsum (slice q off 20)) \<and>
    (\<exists>c. dec_iphdr (slice q off 20) = (dec_iphdr (slice p off 20))
      \<lparr>iph_ttl := iph_ttl (dec_iphdr (slice p off 20)) - 1, iph_check := c\<rparr>) \<and>
    take off q = take off p \<and> drop (off + 20) q = drop (off + 20) p"
proof -
  define h where h: "h = dec_iphdr (slice p off 20)"
  let ?h = "h\<lparr>iph_ttl := iph_ttl h - 1, iph_check := bump_check (iph_check h)\<rparr>"
  have t: "unat (iph_ttl h - 1) + 1 = unat (iph_ttl h)" "iph_ttl h \<noteq> 1"
    using ttl by (auto simp: h unat_sub word_le_nat_alt)
  have old: "csum_valid (wsum (enc_iphdr h))"
    using valid off by (simp add: h enc_dec_iphdr)
  have "csum_valid (wsum (enc_iphdr ?h))"
  proof (cases "iph_check h = 0xffff")
    case True
    then have "wsum (enc_iphdr ?h) + 65535 = wsum (enc_iphdr h)"
      using t by (simp add: wsum_enc_iphdr unat_bump_check)
    moreover have "wsum (enc_iphdr ?h) \<noteq> 0"
      using True by (simp add: wsum_enc_iphdr unat_bump_check)
    ultimately show ?thesis using old by (metis csum_valid_def mod_add_self2)
  next
    case False
    then have "wsum (enc_iphdr ?h) = wsum (enc_iphdr h)"
      using t by (simp add: wsum_enc_iphdr unat_bump_check)
    with old show ?thesis by simp
  qed
  then show ?thesis
    using off t decrement_ttl_v4 [OF off h] by (auto simp: h)
qed

text \<open>A packet that arrives with TTL 0 is not dropped: the TTL wraps around to 255, the packet
  goes on, and a header checksum that was valid is no longer valid.\<close>

theorem decrement_ttl_zero_wraps:
  assumes off: "off + 20 \<le> length p" and valid: "csum_valid (wsum (slice p off 20))"
    and ttl: "iph_ttl (dec_iphdr (slice p off 20)) = 0"
  shows "\<exists>q. decrement_ttl p off False = Some (FURTHER_PROCESSING, q) \<and>
    iph_ttl (dec_iphdr (slice q off 20)) = 255 \<and> \<not> csum_valid (wsum (slice q off 20))"
proof -
  define h where h: "h = dec_iphdr (slice p off 20)"
  let ?h = "h\<lparr>iph_ttl := iph_ttl h - 1, iph_check := bump_check (iph_check h)\<rparr>"
  have old: "wsum (enc_iphdr h) mod 65535 = 0"
    using valid off by (simp add: h enc_dec_iphdr csum_valid_def)
  have t: "iph_ttl h = 0" using ttl by (simp add: h)
  have m1: "unat (- 1 :: u8) = 255" by (simp add: unsigned_minus_1_eq_mask mask_eq_exp_minus_1)
  have "wsum (enc_iphdr ?h) mod 65535 \<noteq> 0"
  proof (cases "iph_check h = 0xffff")
    case True
    then have "wsum (enc_iphdr ?h) + 65535 = wsum (enc_iphdr h) + 256"
      using t by (simp add: wsum_enc_iphdr unat_bump_check m1)
    then have "wsum (enc_iphdr ?h) mod 65535 = (wsum (enc_iphdr h) + 256) mod 65535"
      by (metis mod_add_self2)
    also have "\<dots> = 256" using old by (simp add: mod_add_left_eq [of "wsum (enc_iphdr h)", symmetric])
    finally show ?thesis by simp
  next
    case False
    then have "wsum (enc_iphdr ?h) = wsum (enc_iphdr h) + 256"
      using t by (simp add: wsum_enc_iphdr unat_bump_check m1)
    also have "\<dots> mod 65535 = 256" using old by (simp add: mod_add_left_eq [of "wsum (enc_iphdr h)", symmetric])
    finally show ?thesis by simp
  qed
  then show ?thesis
    using off t decrement_ttl_v4 [OF off h] by (simp add: csum_valid_def)
qed

section \<open>Echo replies\<close>

lemma list_of_length_8:
  assumes "length b = 8"
  obtains b0 b1 b2 b3 b4 b5 b6 b7 where "b = [b0, b1, b2, b3, b4, b5, b6, b7]"
  using assms by (auto simp: numeral_eq_Suc length_Suc_conv)

lemma enc_dec_icmphdr: "length b = 8 \<Longrightarrow> enc_icmphdr (dec_icmphdr b) = b"
  by (erule list_of_length_8) (simp add: dec_icmphdr_def enc_icmphdr_def bytes16_le16)

lemma wsum_Cons2: "wsum (a # b # xs) = unat a + 256 * unat b + wsum xs"
  by (simp add: wsum_def unat_le16)

lemma wsum_enc_icmphdr: "wsum (enc_icmphdr h) = unat (icmp_type h) + 256 * unat (icmp_code h) +
   unat (icmp_checksum h) + unat (icmp_un0 h) + unat (icmp_un1 h)"
  by (simp add: enc_icmphdr_def wsum_Cons2 wsum_append)

lemma swap_mac_and_send_result:
  assumes "14 \<le> length p"
  shows "swap_mac_and_send p = Some (XDP_TX, slice p 6 6 @ take 6 p @ drop 12 p)"
proof -
  have "put (put p 6 (take 6 p)) 0 (slice p 6 6) = slice p 6 6 @ take 6 p @ drop 12 p"
    using assms by (simp add: put_def)
  then show ?thesis using assms by (simp add: swap_mac_and_send_def ldn_def stn_def)
qed

lemma send_icmp_reply_result:
  assumes "42 \<le> length p"
  defines "i \<equiv> dec_icmphdr (slice p 34 8)" and "h \<equiv> dec_iphdr (slice p 14 20)"
  shows "\<exists>h'. send_icmp_reply p = Some (XDP_TX, slice p 6 6 @ take 6 p @ slice p 12 2 @ enc_iphdr h' @
      enc_icmphdr (i\<lparr>icmp_type := ICMP_ECHOREPLY, icmp_checksum := icmp_checksum i + 8\<rparr>) @ drop 42 p) \<and>
    csum_valid (wsum (enc_iphdr h')) \<and> iph_saddr h' = iph_daddr h \<and> iph_daddr h' = iph_saddr h \<and> iph_ttl h' = DEFAULT_TTL"
proof -
  define i' where "i' = i\<lparr>icmp_type := ICMP_ECHOREPLY, icmp_checksum := icmp_checksum i + 8\<rparr>"
  define h0 where "h0 = h\<lparr>iph_ttl := DEFAULT_TTL, iph_daddr := iph_saddr h, iph_saddr := iph_daddr h, iph_check := 0\<rparr>"
  define h' where "h' = h0\<lparr>iph_check := ucast (ipv4_csum_inline h0 0)\<rparr>"
  define q where "q = put (put p 34 (enc_icmphdr i')) 14 (enc_iphdr h')"
  have lq: "length q = length p" using assms(1) by (simp add: q_def)
  have "send_icmp_reply p = swap_mac_and_send q"
    using assms(1) by (simp add: send_icmp_reply_def ld_icmphdr_def st_icmphdr_def ld_iphdr_def st_iphdr_def
        ldn_def stn_def Let_def q_def h'_def h0_def i'_def i_def h_def)
  also have "\<dots> = Some (XDP_TX, slice q 6 6 @ take 6 q @ drop 12 q)"
    using assms(1) lq by (intro swap_mac_and_send_result) simp
  also have "slice q 6 6 @ take 6 q @ drop 12 q =
      slice p 6 6 @ take 6 p @ slice p 12 2 @ enc_iphdr h' @ enc_icmphdr i' @ drop 42 p"
    using assms(1) by (simp add: q_def put_def slice_def drop_take)
  finally show ?thesis
    using ipv4_csum_inline_valid [of h0] by (auto simp: i'_def h'_def h0_def)
qed

text \<open>Echo replies: a valid ICMP echo request of even length is answered with \<open>XDP_TX\<close>, MAC and IP
  addresses exchanged, type 0, a valid IPv4 header checksum and the same data. The ICMP checksum
  of the answer is valid exactly when the checksum field of the request is below \<open>0xFFF8\<close> as the
  little-endian machine reads it: the addition of 8 drops the end-around carry.\<close>

theorem echo_reply_checksum:
  assumes len: "42 \<le> length p" "even (length p)" and valid: "csum_valid (wsum (drop 34 p))"
    and echo: "icmp_type (dec_icmphdr (slice p 34 8)) = ICMP_ECHO"
  shows "\<exists>q. send_icmp_reply p = Some (XDP_TX, q) \<and> slice q 0 6 = slice p 6 6 \<and> slice q 6 6 = slice p 0 6 \<and>
    csum_valid (wsum (slice q 14 20)) \<and>
    iph_saddr (dec_iphdr (slice q 14 20)) = iph_daddr (dec_iphdr (slice p 14 20)) \<and>
    iph_daddr (dec_iphdr (slice q 14 20)) = iph_saddr (dec_iphdr (slice p 14 20)) \<and>
    icmp_type (dec_icmphdr (slice q 34 8)) = ICMP_ECHOREPLY \<and> drop 42 q = drop 42 p \<and>
    (csum_valid (wsum (drop 34 q)) \<longleftrightarrow> icmp_checksum (dec_icmphdr (slice p 34 8)) < 0xFFF8)"
proof -
  define i where "i = dec_icmphdr (slice p 34 8)"
  let ?i = "i\<lparr>icmp_type := ICMP_ECHOREPLY, icmp_checksum := icmp_checksum i + 8\<rparr>"
  define h where "h = dec_iphdr (slice p 14 20)"
  obtain h' where r: "send_icmp_reply p = Some (XDP_TX, slice p 6 6 @ take 6 p @ slice p 12 2 @ enc_iphdr h' @
      enc_icmphdr ?i @ drop 42 p)" and h': "csum_valid (wsum (enc_iphdr h'))"
      "iph_saddr h' = iph_daddr h" "iph_daddr h' = iph_saddr h"
    using send_icmp_reply_result [OF len(1)] unfolding i_def h_def by blast
  have "drop 34 p = enc_icmphdr i @ drop 42 p"
    using len(1) drop_slice_split [of 34 8 p] by (simp add: i_def enc_dec_icmphdr)
  then have old: "csum_valid (wsum (enc_icmphdr i) + wsum (drop 42 p))" using valid by (simp add: wsum_append)
  have "csum_valid (wsum (enc_icmphdr ?i) + wsum (drop 42 p)) \<longleftrightarrow> icmp_checksum i < 0xFFF8"
  proof (cases "icmp_checksum i < 0xFFF8")
    case True
    then have "unat (icmp_checksum i + 8) = unat (icmp_checksum i) + 8"
      by (simp add: word_less_nat_alt unat_word_ariths)
    then have "wsum (enc_icmphdr ?i) = wsum (enc_icmphdr i)"
      using echo by (simp add: wsum_enc_icmphdr i_def [symmetric])
    then show ?thesis using old True by simp
  next
    case False
    then have "65528 \<le> unat (icmp_checksum i)" "unat (icmp_checksum i) < 65536"
      using unsigned_less [of "icmp_checksum i", where ?'a = nat] by (simp_all add: word_less_nat_alt not_less)
    then have "unat (icmp_checksum i + 8) + 65536 = unat (icmp_checksum i) + 8"
      by (auto simp: unat_word_ariths mod_if)
    then have "(wsum (enc_icmphdr ?i) + wsum (drop 42 p) + 1) + 65535 = wsum (enc_icmphdr i) + wsum (drop 42 p)"
      using echo by (simp add: wsum_enc_icmphdr i_def [symmetric])
    then have "(wsum (enc_icmphdr ?i) + wsum (drop 42 p) + 1) mod 65535 = 0"
      using old unfolding csum_valid_def by (metis mod_add_self2)
    then have "(wsum (enc_icmphdr ?i) + wsum (drop 42 p)) mod 65535 \<noteq> 0"
      by (metis mod_add_left_eq add_0 mod_less one_less_numeral_iff semiring_norm(77) zero_neq_one)
    then show ?thesis using False by (simp add: csum_valid_def)
  qed
  then show ?thesis unfolding i_def [symmetric] h_def [symmetric]
    using r h' len(1) by (auto simp: wsum_append)
qed

section \<open>Packet too big\<close>

lemma put_head: "length bs = 14 \<Longrightarrow> 14 \<le> length p \<Longrightarrow> put p 0 bs = bs @ drop 14 p"
  by (simp add: put_def)

lemma swap_mac_result:
  assumes len: "28 + 14 \<le> length q" "14 \<le> orig" "orig + 14 \<le> length q"
  shows "swap_mac q orig = Some (slice q (orig + 6) 6 @ slice q orig 6 @ slice q (orig + 12) 2 @ drop 14 q)"
proof -
  have le: "length b = 2 \<Longrightarrow> bytes16 (le16 b) = b" for b
    by (auto simp: numeral_2_eq_2 length_Suc_conv bytes16_le16)
  have a: "slice (put q 6 x) (orig + 6) 6 = slice q (orig + 6) 6" if "length x = 6" for x
    using that len by simp
  have b: "slice (put (put q 6 x) 0 y) (orig + 12) 2 = slice q (orig + 12) 2" if "length x = 6" "length y = 6" for x y
    using that len by simp
  have "put (put (put q 6 (slice q orig 6)) 0 (slice q (orig + 6) 6)) 12 (slice q (orig + 12) 2) =
      slice q (orig + 6) 6 @ slice q orig 6 @ slice q (orig + 12) 2 @ drop 14 q"
    using len by (simp add: put_def)
  then show ?thesis using len
    by (simp add: swap_mac_def ld16_def st16_def ldn_def stn_def a b le)
qed

lemma send_icmp4_too_big_result:
  assumes H: "adjust_head_ok (xdp_adjust_head H)" "csum_diff_ok (csum_diff H)" and len: "98 \<le> length p"
    and room: "xdp_adjust_head H p (-28) \<noteq> None"
  shows "\<exists>h i. send_icmp4_too_big H p = Some (XDP_TX, slice p 6 6 @ take 6 p @ slice p 12 2 @ enc_iphdr h @ enc_icmphdr i @ drop 14 p) \<and>
    csum_valid (wsum (enc_iphdr h)) \<and> csum_valid (wsum (enc_icmphdr i @ slice p 14 84)) \<and>
    iph_saddr h = iph_daddr (dec_iphdr (slice p 14 20)) \<and> iph_daddr h = iph_saddr (dec_iphdr (slice p 14 20)) \<and>
    iph_protocol h = IPPROTO_ICMP \<and> iph_version h = 4 \<and> iph_ihl h = 5 \<and> iph_ttl h = DEFAULT_TTL \<and>
    bpf_ntohs (iph_tot_len h) = 112 \<and>
    icmp_type i = ICMP_DEST_UNREACH \<and> icmp_code i = ICMP_FRAG_NEEDED \<and> bpf_ntohs (icmp_un1 i) = 1500"
proof -
  obtain q0 where q0: "xdp_adjust_head H p (-28) = Some q0" using room by auto
  have l0: "length q0 = length p + 28" "drop 28 q0 = p" using adjust_head_push [OF H(1) q0] by simp_all
  define E where "E = slice p 6 6 @ take 6 p @ slice p 12 2"
  define a where "a = slice q0 14 20"
  define b where "b = slice q0 34 8"
  define R where "R = drop 14 p"
  have lens: "length E = 14" "length a = 20" "length b = 8" "84 \<le> length R" "length R = length p - 14"
    using len l0 by (simp_all add: E_def a_def b_def R_def)
  have tail: "drop 14 q0 = a @ b @ R"
  proof -
    have "drop 42 q0 = R" by (simp add: R_def flip: l0(2))
    then show ?thesis
      using drop_slice_split [of 14 20 q0] drop_slice_split [of 34 8 q0] l0 len by (simp add: a_def b_def)
  qed
  have sl: "slice q0 (28 + k) n = slice p k n" for k n
    using l0(2) by (metis add.commute drop_drop slice_def)
  have sw: "swap_mac q0 28 = Some (E @ a @ b @ R)"
    using swap_mac_result [of q0 28] l0(1) len sl [of 6 6] sl [of 0 6] sl [of 12 2] tail
    by (simp add: E_def)
  define i0 where "i0 = (dec_icmphdr b)\<lparr>icmp_type := ICMP_DEST_UNREACH, icmp_code := ICMP_FRAG_NEEDED,
     icmp_un1 := bpf_htons 1500, icmp_checksum := 0\<rparr>"
  define i where "i = i0\<lparr>icmp_checksum := ucast (ipv4_csum (csum_diff H) (enc_icmphdr i0 @ take 84 R) 0)\<rparr>"
  define orig where "orig = dec_iphdr (take 20 R)"
  define h0 where "h0 = (dec_iphdr a)\<lparr>iph_ttl := DEFAULT_TTL, iph_daddr := iph_saddr orig,
                  iph_saddr := iph_daddr orig, iph_version := 4, iph_ihl := 5,
                  iph_protocol := IPPROTO_ICMP, iph_tos := 0, iph_tot_len := bpf_htons 112, iph_check := 0\<rparr>"
  define h where "h = h0\<lparr>iph_check := ucast (ipv4_csum (csum_diff H) (enc_iphdr h0) 0)\<rparr>"
  have "send_icmp4_too_big H p = Some (XDP_TX, E @ enc_iphdr h @ enc_icmphdr i @ R)"
    using q0 l0(1) len lens sw
    by (simp add: send_icmp4_too_big_def ld_icmphdr_def st_icmphdr_def ld_iphdr_def st_iphdr_def ldn_def stn_def
       slice_def put_def Let_def i_def i0_def h_def h0_def orig_def)
  moreover have "csum_valid (wsum (enc_iphdr h))"
    using ipv4_csum_valid [OF H(2), of "enc_iphdr h0"] enc_iphdr_check_split [of h] by (simp add: h_def h0_def)
  moreover have "csum_valid (wsum (enc_icmphdr i @ take 84 R))"
    using ipv4_csum_valid [OF H(2), of "enc_icmphdr i0 @ take 84 R"] lens
    by (simp add: i_def wsum_append wsum_enc_icmphdr) (simp add: i0_def ac_simps)
  moreover have "take 84 R = slice p 14 84" "take 20 R = slice p 14 20" by (simp_all add: R_def slice_def)
  ultimately show ?thesis
    by (intro exI [of _ h] exI [of _ i]) (simp add: h_def h0_def i_def i0_def orig_def E_def R_def)
qed

text \<open>C20. Too-big packets: an IPv4 packet that is too big is answered with an ICMP
  \<^emph>\<open>fragmentation needed\<close> for an MTU of 1500 that quotes its first 84 bytes. The answer goes back
  to the sender's MAC and IP address, and its IPv4 and ICMP checksums are valid whatever the
  fresh headroom contained.\<close>

theorem too_big_reply_v4:
  assumes H: "adjust_head_ok (xdp_adjust_head H)" "adjust_tail_ok (xdp_adjust_tail H)" "csum_diff_ok (csum_diff H)"
    and len: "98 < length p" and cut: "xdp_adjust_tail H p (98 - int (length p)) \<noteq> None"
    and room: "\<And>q. length q = 98 \<Longrightarrow> xdp_adjust_head H q (-28) \<noteq> None"
  shows "\<exists>h i. send_icmp_too_big H p False (length p) =
      Some (XDP_TX, slice p 6 6 @ slice p 0 6 @ slice p 12 2 @ enc_iphdr h @ enc_icmphdr i @ slice p 14 84) \<and>
    csum_valid (wsum (enc_iphdr h)) \<and> csum_valid (wsum (enc_icmphdr i @ slice p 14 84)) \<and>
    iph_saddr h = iph_daddr (dec_iphdr (slice p 14 20)) \<and> iph_daddr h = iph_saddr (dec_iphdr (slice p 14 20)) \<and>
    iph_protocol h = IPPROTO_ICMP \<and> bpf_ntohs (iph_tot_len h) = 112 \<and>
    icmp_type i = ICMP_DEST_UNREACH \<and> icmp_code i = ICMP_FRAG_NEEDED \<and> bpf_ntohs (icmp_un1 i) = 1500"
proof -
  obtain q where q: "xdp_adjust_tail H p (98 - int (length p)) = Some q" using cut by auto
  have qt: "q = take 98 p"
    using H(2) q len unfolding adjust_tail_ok_def by (fastforce simp: nat_diff_distrib)
  have send: "send_icmp_too_big H p False (length p) = send_icmp4_too_big H q"
    using q by (simp add: send_icmp_too_big_def)
  have lq: "98 \<le> length q" "length q = 98" using len by (simp_all add: qt)
  have sl: "slice q k n = slice p k n" if "k + n \<le> 98" for k n
    using that by (simp add: qt slice_def drop_take)
  have "drop 14 q = slice p 14 84" by (simp add: qt slice_def drop_take)
  moreover have "take 6 q = slice p 0 6" by (simp add: qt)
  ultimately show ?thesis
    using send_icmp4_too_big_result [OF H(1,3) lq(1) room [OF lq(2)]] unfolding send
    by (auto simp: sl)
qed

section \<open>ICMP errors follow their flow\<close>

lemma set_ports_flow: "flow (set_ports a b pk) = (flow pk)\<lparr>port16_0 := a, port16_1 := b\<rparr>" "pflags (set_ports a b pk) = pflags pk"
  by (simp_all add: set_ports_def)

text \<open>C21. ICMP errors follow the connection they are about: when a router reports over IPv4 that a destination cannot be reached for a packet
  the server sent (\<open>VIP:port \<rightarrow> client:port\<close>), the flow the balancer extracts from the quoted
  headers is the flow of the client's packets (\<open>client:port \<rightarrow> VIP:port\<close>), for TCP and UDP.\<close>

theorem icmp_error_has_client_flow:
  assumes len: "off = 34" "34 + 8 + 20 + 20 \<le> length p"
    and icmp: "icmp_type (dec_icmphdr (slice p 34 8)) = ICMP_DEST_UNREACH"
    and quoted: "slice p 42 20 = enc_iphdr sent" "iph_ihl sent = 5"
    and ports: "slice p 62 2 = bytes16 sport" "slice p 64 2 = bytes16 dport"
  shows "\<exists>pk. parse_icmp p off pckt = Some (FURTHER_PROCESSING, p, pk) \<and>
    (\<exists>pk'. parse_tcp p False pk = Some (True, pk') \<and>
      flow pk' = (set_flow_v4 (iph_daddr sent) (iph_saddr sent) (flow pckt))
        \<lparr>proto := iph_protocol sent, port16_0 := dport, port16_1 := sport\<rparr>) \<and>
    (\<exists>pk'. parse_udp p False pk = Some (True, pk') \<and>
      flow pk' = (set_flow_v4 (iph_daddr sent) (iph_saddr sent) (flow pckt))
        \<lparr>proto := iph_protocol sent, port16_0 := dport, port16_1 := sport\<rparr>)"
proof -
  define pk where "pk = pckt\<lparr>flow := set_flow_v4 (iph_daddr sent) (iph_saddr sent)
      ((flow pckt)\<lparr>proto := iph_protocol sent\<rparr>), pflags := pflags pckt OR F_ICMP\<rparr>"
  have parse: "parse_icmp p off pckt = Some (FURTHER_PROCESSING, p, pk)"
    using len icmp quoted by (simp add: parse_icmp_def ld_icmphdr_def ld_iphdr_def ldn_def Let_def pk_def)
  have icmp: "is_icmp pk" by (simp add: is_icmp_def pk_def and_one_eq mod_2_eq_odd even_or_iff)
  have ports: "take 2 (slice p 62 20) = bytes16 sport" "take 2 (slice p 62 8) = bytes16 sport" "slice p 64 2 = bytes16 dport"
    using ports by (simp_all add: slice_def)
  have flow: "flow pk = (set_flow_v4 (iph_daddr sent) (iph_saddr sent) (flow pckt))\<lparr>proto := iph_protocol sent\<rparr>"
    by (simp add: pk_def set_flow_v4_def)
  have off: "calc_offset False True = 62" by (simp add: calc_offset_def)
  have "\<exists>pk'. parse_tcp p False pk = Some (True, pk') \<and> flow pk' = (flow pk)\<lparr>port16_0 := dport, port16_1 := sport\<rparr>"
    using len(2) by (simp add: parse_tcp_def icmp off ld_tcphdr_def ldn_def dec_tcphdr_def ports set_ports_flow Let_def)
  moreover have "\<exists>pk'. parse_udp p False pk = Some (True, pk') \<and> flow pk' = (flow pk)\<lparr>port16_0 := dport, port16_1 := sport\<rparr>"
    using len(2) by (simp add: parse_udp_def icmp off ld_udphdr_def ldn_def dec_udphdr_def ports set_ports_flow Let_def)
  ultimately show ?thesis using parse by (simp add: flow)
qed

section \<open>QUIC\<close>

text \<open>C22. QUIC routing: a short-header packet (first bit 0) whose connection id carries the 16-bit server
  id \<open>sid\<close> in the documented layout is parsed to exactly \<open>sid\<close>, in both families; and every
  result of the parser is -1 or a 16-bit server id.\<close>

theorem parse_quic_server_id:
  assumes off: "off = calc_offset is_ipv6 (is_icmp pckt) + 8" and len: "off + 9 \<le> length p"
    and short: "p ! off AND QUIC_LONG_HEADER \<noteq> QUIC_LONG_HEADER"
    and conn: "slice p (off + 1) 8 = mk_conn_id sid @ rest"
  shows "parse_quic p is_ipv6 pckt = Some (uint sid) \<and>
    (\<exists>r. parse_quic q v6 pk = Some r \<and> (r = -1 \<or> 0 \<le> r \<and> r < 65536))"
proof -
  have "slice (slice p off 9) 1 8 = mk_conn_id sid @ rest" using conn by simp
  then have "parse_quic p is_ipv6 pckt = Some (uint sid)"
    using off len short by (simp add: parse_quic_def ld8_def ldn_def dec_quic_short_header_def quic_server_id_mk Let_def)
  moreover have "wp (parse_quic q v6 pk) (\<lambda>r. r = -1 \<or> 0 \<le> r \<and> r < 65536)"
    using quic_server_id_range by (auto simp: parser_defs wp_simps)
  ultimately show ?thesis by (simp add: wp_iff)
qed

section \<open>Witnesses\<close>

lemma ref_head_ok: "adjust_head_ok (xdp_adjust_head ref_helpers)" "adjust_tail_ok (xdp_adjust_tail ref_helpers)"
  "csum_diff_ok (csum_diff ref_helpers)"
  by (simp_all add: ref_helpers_def ref_adjust_head_ok ref_adjust_tail_ok ref_csum_diff_ok)

lemma ref_head_room: "-256 \<le> d \<Longrightarrow> d < 0 \<Longrightarrow> xdp_adjust_head ref_helpers p d \<noteq> None"
  "0 < d \<Longrightarrow> nat d + 14 \<le> length p \<Longrightarrow> xdp_adjust_head ref_helpers p d \<noteq> None"
  by (auto simp: ref_helpers_def ref_adjust_head_def)

lemma wsum_Nil: "wsum [] = 0"
  by (simp add: wsum_def)

definition ex_dst :: real_definition where
  "ex_dst = \<lparr>real_dstv6 = in6_zero\<lparr>s6_0 := 0x0100000A\<rparr>, real_flags = 0\<rparr>"

theorem encap_v4_frame_witness:
  "\<exists>h. encap_v4 ref_helpers \<lparr>ctl_u64 = 5\<rparr> packet_description_zero ex_dst 20 (replicate 34 0) =
      Some (True, ctl_mac \<lparr>ctl_u64 = 5\<rparr> @ take 6 (replicate 34 0) @ bytes16 BE_ETH_P_IP @ enc_iphdr h @ drop 14 (replicate 34 0)) \<and>
    csum_valid (wsum (enc_iphdr h)) \<and> iph_daddr h = 0x0100000A"
  using encap_v4_frame [OF ref_head_ok(1), of "replicate 34 0" "\<lparr>ctl_u64 = 5\<rparr>" packet_description_zero ex_dst 20]
    ref_head_room(1) [of "-20" "replicate 34 0"]
  by (auto simp: ex_dst_def real_dst_def)

theorem ipip_round_trip_witness:
  "\<exists>q r. encap_v4 ref_helpers \<lparr>ctl_u64 = 5\<rparr> packet_description_zero ex_dst 20 (replicate 34 7) = Some (True, q) \<and>
     decap_v4 ref_helpers q = Some (True, r) \<and> drop 14 r = drop 14 (replicate 34 7)"
  by (rule conjunct1 [OF ipip_round_trip [OF ref_head_ok(1) ref_head_ok(1)]])
    (simp_all add: ref_head_room)

theorem gue_round_trip_witness:
  "\<exists>q r. gue_encap_v4 ref_helpers (\<lambda>_. Some ex_dst) \<lparr>ctl_u64 = 5\<rparr> packet_description_zero ex_dst 20 (replicate 34 7) = Some (True, q) \<and>
     gue_decap_v4 ref_helpers q = Some (True, r) \<and> drop 14 r = drop 14 (replicate 34 7)"
  by (rule conjunct1 [OF gue_round_trip [OF ref_head_ok(1) ref_head_ok(1)]])
    (simp_all add: ref_head_room)

definition ex_hdr :: "u8 \<Rightarrow> u8 \<Rightarrow> u8 list" where
  "ex_hdr t c = [0x45, 0, 0, 20, 0, 0, 0, 0, t, 6, c, 0xE5, 0, 0, 0, 0, 0, 0, 0, 0]"

theorem decrement_ttl_keeps_checksum_witness:
  "\<exists>q. decrement_ttl (ex_hdr 64 0x7A) 0 False = Some (FURTHER_PROCESSING, q) \<and> csum_valid (wsum (slice q 0 20))"
proof -
  have "csum_valid (wsum (slice (ex_hdr 64 0x7A) 0 20))" "2 \<le> iph_ttl (dec_iphdr (slice (ex_hdr 64 0x7A) 0 20))" "0 + 20 \<le> length (ex_hdr 64 0x7A)"
    by (simp_all add: ex_hdr_def dec_iphdr_def csum_valid_def wsum_Cons2 wsum_Nil)
  from decrement_ttl_keeps_checksum [OF this(3,1,2)] show ?thesis by blast
qed

theorem decrement_ttl_zero_wraps_witness:
  "\<exists>q. decrement_ttl (ex_hdr 0 0xBA) 0 False = Some (FURTHER_PROCESSING, q) \<and>
    iph_ttl (dec_iphdr (slice q 0 20)) = 255 \<and> \<not> csum_valid (wsum (slice q 0 20))"
proof -
  have "0 + 20 \<le> length (ex_hdr 0 0xBA)" "csum_valid (wsum (slice (ex_hdr 0 0xBA) 0 20))" "iph_ttl (dec_iphdr (slice (ex_hdr 0 0xBA) 0 20)) = 0"
    by (simp_all add: ex_hdr_def dec_iphdr_def csum_valid_def wsum_Cons2 wsum_Nil)
  from decrement_ttl_zero_wraps [OF this] show ?thesis .
qed

definition ex_echo :: "u8 list \<Rightarrow> packet" where
  "ex_echo bs = replicate 34 0 @ [8, 0] @ bs"

theorem echo_reply_checksum_witness:
  "(\<exists>q. send_icmp_reply (ex_echo [0xF7, 0xFF, 0, 0, 0, 0]) = Some (XDP_TX, q) \<and> csum_valid (wsum (drop 34 q))) \<and>
   (\<exists>q. send_icmp_reply (ex_echo [0xF8, 0xFF, 0xFE, 0xFF, 0, 0]) = Some (XDP_TX, q) \<and> \<not> csum_valid (wsum (drop 34 q)))"
proof -
  let ?a = "ex_echo [0xF7, 0xFF, 0, 0, 0, 0]" and ?b = "ex_echo [0xF8, 0xFF, 0xFE, 0xFF, 0, 0]"
  have a: "42 \<le> length ?a" "even (length ?a)" "csum_valid (wsum (drop 34 ?a))" "icmp_type (dec_icmphdr (slice ?a 34 8)) = ICMP_ECHO"
    "icmp_checksum (dec_icmphdr (slice ?a 34 8)) < 0xFFF8"
    by (simp_all add: ex_echo_def csum_valid_def wsum_Cons2 wsum_Nil dec_icmphdr_def slice_def le16_def)
  have b: "42 \<le> length ?b" "even (length ?b)" "csum_valid (wsum (drop 34 ?b))" "icmp_type (dec_icmphdr (slice ?b 34 8)) = ICMP_ECHO"
    "\<not> icmp_checksum (dec_icmphdr (slice ?b 34 8)) < 0xFFF8"
    by (simp_all add: ex_echo_def csum_valid_def wsum_Cons2 wsum_Nil dec_icmphdr_def slice_def le16_def)
  show ?thesis using echo_reply_checksum [OF a(1-4)] echo_reply_checksum [OF b(1-4)] a(5) b(5) by blast
qed

theorem too_big_reply_v4_witness:
  "\<exists>h i. send_icmp_too_big ref_helpers (replicate 1600 1) False 1600 = Some (XDP_TX,
      slice (replicate 1600 1) 6 6 @ slice (replicate 1600 1) 0 6 @ slice (replicate 1600 1) 12 2 @ enc_iphdr h @ enc_icmphdr i @ slice (replicate 1600 1) 14 84) \<and>
    csum_valid (wsum (enc_iphdr h)) \<and> csum_valid (wsum (enc_icmphdr i @ slice (replicate 1600 1) 14 84))"
proof -
  have "xdp_adjust_tail ref_helpers (replicate 1600 1) (98 - int (length (replicate 1600 (1 :: u8)))) \<noteq> None"
    by (simp add: ref_helpers_def ref_adjust_tail_def)
  from too_big_reply_v4 [OF ref_head_ok _ this ref_head_room(1)] show ?thesis by auto
qed

definition ex_sent :: iphdr where
  "ex_sent = \<lparr>iph_version = 4, iph_ihl = 5, iph_tos = 0, iph_tot_len = 0, iph_id = 0, iph_frag_off = 0, iph_ttl = 64,
     iph_protocol = IPPROTO_TCP, iph_check = 0, iph_saddr = 0x0100C80A, iph_daddr = 0x0100A8C0\<rparr>"

definition ex_icmp_error :: packet where
  "ex_icmp_error = replicate 34 0 @ [3, 4, 0, 0, 0, 0, 0, 0] @ enc_iphdr ex_sent @ bytes16 80 @ bytes16 777 @ replicate 16 0"

theorem icmp_error_has_client_flow_witness:
  "\<exists>pk pk'. parse_icmp ex_icmp_error 34 packet_description_zero = Some (FURTHER_PROCESSING, ex_icmp_error, pk) \<and>
    parse_tcp ex_icmp_error False pk = Some (True, pk') \<and>
    flow_src (flow pk') = 0x0100A8C0 \<and> port16_0 (flow pk') = 777 \<and> port16_1 (flow pk') = 80"
proof -
  have "34 + 8 + 20 + 20 \<le> length ex_icmp_error" "icmp_type (dec_icmphdr (slice ex_icmp_error 34 8)) = ICMP_DEST_UNREACH"
    "slice ex_icmp_error 42 20 = enc_iphdr ex_sent" "iph_ihl ex_sent = 5"
    "slice ex_icmp_error 62 2 = bytes16 80" "slice ex_icmp_error 64 2 = bytes16 777"
    by (simp_all add: ex_icmp_error_def ex_sent_def slice_def dec_icmphdr_def)
  from icmp_error_has_client_flow [OF refl this, of packet_description_zero] show ?thesis
    by (fastforce simp: ex_sent_def flow_src_def set_flow_v4_def)
qed

theorem parse_quic_server_id_witness:
  "parse_quic (replicate 43 0 @ mk_conn_id 4711 @ replicate 8 0) False packet_description_zero = Some 4711"
proof -
  have "42 = calc_offset False (is_icmp packet_description_zero) + 8"
    by (simp add: calc_offset_def is_icmp_def packet_description_zero_def)
  from parse_quic_server_id [OF this, of "replicate 43 0 @ mk_conn_id 4711 @ replicate 8 0" 4711 "replicate 5 0"] show ?thesis
    by (simp add: mk_conn_id_def slice_def nth_append)
qed

end
