(* ===== verification/Decap.thy ===== *)
theory Decap
  imports Encap Xdp_Program
begin

text \<open>
  The decapsulation program of the reals, \<open>src/katran/decap/bpf/decap_kern.c\<close> with
  \<open>decap_maps.h\<close>, and the two small XDP programs \<open>xdp_root.c\<close> and \<open>xdp_pktcntr.c\<close>. Functions
  of \<open>decap_kern.c\<close> that share their name with one of \<open>balancer_kern.c\<close> carry the prefix
  \<open>decap_\<close>.
\<close>

section \<open>xdpdecap\<close>

record decap_stats =
  ds_decap_v4 :: u64
  ds_decap_v6 :: u64
  ds_total :: u64

record decap_state =
  dpkt :: packet
  dstats :: "u32 \<rightharpoonup> decap_stats"

text \<open>The result is the action and \<open>pckt.flow.proto\<close>, which only counts when processing goes on.\<close>

definition decap_process_l3_headers :: "packet \<Rightarrow> nat \<Rightarrow> bool \<Rightarrow> (step \<times> u8) option" where
  "decap_process_l3_headers p off is_ipv6 =
     (if is_ipv6 then
        (if off + sizeof_ipv6hdr > length p then Some (Return XDP_DROP, 0)
         else do {
           ip6h \<leftarrow> ld_ipv6hdr p off;
           let protocol = ip6_nexthdr ip6h;
           if protocol = IPPROTO_FRAGMENT then Some (Return XDP_DROP, protocol)
           else Some (FURTHER_PROCESSING, protocol)
         })
      else
        (if off + sizeof_iphdr > length p then Some (Return XDP_DROP, 0)
         else do {
           iph \<leftarrow> ld_iphdr p off;
           if iph_ihl iph \<noteq> 5 then Some (Return XDP_DROP, 0)
           else (let protocol = iph_protocol iph in
             if iph_frag_off iph AND PCKT_FRAGMENTED \<noteq> 0 then Some (Return XDP_DROP, protocol)
             else Some (FURTHER_PROCESSING, protocol))
         }))"

definition process_encaped_pckt :: "bpf_helpers \<Rightarrow> packet \<Rightarrow> bool \<Rightarrow> u8 \<Rightarrow> (step \<times> packet) option" where
  "process_encaped_pckt H p is_ipv6 protocol =
     (if protocol = IPPROTO_IPIP then
        (if is_ipv6 then
           (if sizeof_ipv6hdr + sizeof_eth_hdr > length p then Some (Return XDP_DROP, p)
            else do {
              (ok, p) \<leftarrow> decap_v6 H True p;
              Some (if ok then FURTHER_PROCESSING else Return XDP_DROP, p)
            })
         else
           (if sizeof_iphdr + sizeof_eth_hdr > length p then Some (Return XDP_DROP, p)
            else do {
              (ok, p) \<leftarrow> decap_v4 H p;
              Some (if ok then FURTHER_PROCESSING else Return XDP_DROP, p)
            }))
      else if protocol = IPPROTO_IPV6 then
        (if sizeof_ipv6hdr + sizeof_eth_hdr > length p then Some (Return XDP_DROP, p)
         else do {
           (ok, p) \<leftarrow> decap_v6 H False p;
           Some (if ok then FURTHER_PROCESSING else Return XDP_DROP, p)
         })
      else Some (FURTHER_PROCESSING, p))"

definition decap_process_packet ::
  "bpf_helpers \<Rightarrow> nat \<Rightarrow> bool \<Rightarrow> decap_state \<Rightarrow> (xdp_action \<times> decap_state) option" where
  "decap_process_packet H off is_ipv6 s = do {
     (action, protocol) \<leftarrow> decap_process_l3_headers (dpkt s) off is_ipv6;
     (case action of
        Return a \<Rightarrow> Some (a, s)
      | FURTHER_PROCESSING \<Rightarrow>
          (case dstats s 0 of
             None \<Rightarrow> Some (XDP_PASS, s)
           | Some d \<Rightarrow>
               (let d = d\<lparr>ds_total := ds_total d + 1\<rparr> in
                if protocol = IPPROTO_IPIP \<or> protocol = IPPROTO_IPV6 then do {
                  let d = (if is_ipv6 then d\<lparr>ds_decap_v6 := ds_decap_v6 d + 1\<rparr>
                           else d\<lparr>ds_decap_v4 := ds_decap_v4 d + 1\<rparr>);
                  (action, p) \<leftarrow> process_encaped_pckt H (dpkt s) is_ipv6 protocol;
                  let s = s\<lparr>dpkt := p, dstats := (dstats s)(0 \<mapsto> d)\<rparr>;
                  Some (case action of Return a \<Rightarrow> a | FURTHER_PROCESSING \<Rightarrow> XDP_PASS, s)
                }
                else Some (XDP_PASS, s\<lparr>dstats := (dstats s)(0 \<mapsto> d)\<rparr>))))
   }"

definition xdpdecap :: "bpf_helpers \<Rightarrow> decap_state \<Rightarrow> (xdp_action \<times> decap_state) option" where
  "xdpdecap H s =
     (let nh_off = sizeof_eth_hdr in
      if nh_off > length (dpkt s) then Some (XDP_DROP, s)
      else do {
        eth_proto \<leftarrow> ld16 (dpkt s) 12;
        if eth_proto = BE_ETH_P_IP then decap_process_packet H nh_off False s
        else if eth_proto = BE_ETH_P_IPV6 then decap_process_packet H nh_off True s
        else Some (XDP_PASS, s)
      })"

section \<open>xdp_root\<close>

definition ROOT_ARRAY_SIZE :: nat where [simp]: "ROOT_ARRAY_SIZE = 3"

text \<open>The unrolled loop: a tail call that succeeds ends the program, one that fails falls through.\<close>

fun xdp_root_loop :: "(u32 \<Rightarrow> bool) \<Rightarrow> u32 list \<Rightarrow> outcome" where
  "xdp_root_loop filled [] = Finish XDP_PASS"
| "xdp_root_loop filled (i # is) = (if filled i then Tail_call i else xdp_root_loop filled is)"

definition xdp_root :: "(u32 \<Rightarrow> bool) \<Rightarrow> outcome" where
  "xdp_root filled = xdp_root_loop filled (map of_nat [0..<ROOT_ARRAY_SIZE])"

section \<open>xdp_pktcntr\<close>

record pktcntr_state =
  pc_ctl_array :: "u32 \<rightharpoonup> u32"
  pc_cntrs_array :: "u32 \<rightharpoonup> u64"

definition pktcntr :: "pktcntr_state \<Rightarrow> xdp_action \<times> pktcntr_state" where
  "pktcntr s =
     (case pc_ctl_array s 0 of
        None \<Rightarrow> (XDP_PASS, s)
      | Some flag \<Rightarrow>
          if flag = 0 then (XDP_PASS, s)
          else (case pc_cntrs_array s 0 of
              None \<Rightarrow> (XDP_PASS, s)
            | Some v \<Rightarrow> (XDP_PASS, s\<lparr>pc_cntrs_array := (pc_cntrs_array s)(0 \<mapsto> v + 1)\<rparr>)))"

section \<open>Safety\<close>

lemma decap_process_l3_headers_safe: "wp (decap_process_l3_headers p off v6) (\<lambda>_. True)"
  by (auto simp: decap_process_l3_headers_def ld_iphdr_def ld_ipv6hdr_def wp_simps Let_def)

lemma process_encaped_pckt_safe: "wp (process_encaped_pckt H p v6 protocol) (\<lambda>_. True)"
  by (auto simp: process_encaped_pckt_def decap_v4_def decap_v6_def copy_eth_hdr_eq wp_simps split: option.split)

text \<open>The program only touches the packet and entry 0 of its counters, which it never removes.\<close>

definition decap_keeps :: "decap_state \<Rightarrow> decap_state \<Rightarrow> bool" where
  "decap_keeps s t \<longleftrightarrow> dom (dstats t) = dom (dstats s) \<and> (\<forall>k. k \<noteq> 0 \<longrightarrow> dstats t k = dstats s k)"

lemma xdpdecap_safe: "wp (xdpdecap H s) (\<lambda>(a, t). decap_keeps s t)"
proof -
  have "wp (decap_process_packet H off v6 s) (\<lambda>(a, t). decap_keeps s t)" for off v6
    by (auto simp: decap_process_packet_def decap_keeps_def Let_def
        intro!: wp_mono [OF decap_process_l3_headers_safe] wp_mono [OF process_encaped_pckt_safe]
        split: step.split option.split)
  then show ?thesis by (simp add: xdpdecap_def ld16_def wp_simps decap_keeps_def)
qed

interpretation decap: xdp_program "\<lambda>s. map_option (\<lambda>(a, t). (Finish a, t)) (xdpdecap H s)" decap_keeps for H
proof unfold_locales
  show "wp (map_option (\<lambda>(a, t). (Finish a, t)) (xdpdecap H s)) (\<lambda>(a, t). decap_keeps s t)" for s
    by (auto intro!: wp_mono [OF xdpdecap_safe])
qed (auto simp: decap_keeps_def)

interpretation pktcntr: xdp_program "\<lambda>s. (case pktcntr s of (a, t) \<Rightarrow> Some (Finish a, t))"
  "\<lambda>s t. pc_ctl_array t = pc_ctl_array s \<and> dom (pc_cntrs_array t) = dom (pc_cntrs_array s)"
  by unfold_locales (auto simp: pktcntr_def split: option.split)

section \<open>Properties\<close>

lemma run_tail_calls_finish:
  "run_tail_calls filled (\<lambda>s. map_option (\<lambda>(a, t). (Finish a, t)) (g s)) n = g"
proof
  show "run_tail_calls filled (\<lambda>s. map_option (\<lambda>(a, t). (Finish a, t)) (g s)) n s = g s" for s
    by (subst run_tail_calls.simps) (cases "g s", auto)
qed

text \<open>The decapsulation program is memory safe: on any sequence of packets and whatever the kernel
  helpers do, no access leaves the packet, every packet gets a verdict, and only counter 0 changes.\<close>

theorem xdpdecap_serves_every_packet:
  "\<exists>verdicts t. serve (\<lambda>p s. s\<lparr>dpkt := p\<rparr>) (xdpdecap H) ps s = Some (verdicts, t) \<and>
     length verdicts = length ps \<and> decap_keeps s t"
  using decap.serve_safe [of "\<lambda>p s. s\<lparr>dpkt := p\<rparr>" "\<lambda>_. False" H 0 ps s]
  by (auto simp: run_tail_calls_finish wp_iff decap_keeps_def)

lemma decap_pops_v4:
  assumes K: "adjust_head_ok (xdp_adjust_head K)" and len: "34 \<le> length q" and eth: "slice q 12 2 = bytes16 BE_ETH_P_IP"
    and h: "iph_ihl (dec_iphdr (slice q 14 20)) = 5" "iph_frag_off (dec_iphdr (slice q 14 20)) = 0" "iph_protocol (dec_iphdr (slice q 14 20)) = IPPROTO_IPIP"
    and s: "dpkt s = q" "dstats s 0 = Some d" and pop: "\<And>r. length r = length q \<Longrightarrow> xdp_adjust_head K r 20 \<noteq> None"
  shows "\<exists>t. xdpdecap K s = Some (XDP_PASS, t) \<and> drop 14 (dpkt t) = drop 34 q \<and> ld16 (dpkt t) 12 = Some BE_ETH_P_IP \<and>
    dstats t 0 = Some (d\<lparr>ds_decap_v4 := ds_decap_v4 d + 1, ds_total := ds_total d + 1\<rparr>)"
proof -
  define r where "r = take 20 q @ take 12 q @ bytes16 BE_ETH_P_IP @ drop 34 q"
  have "length r = length q" using len by (simp add: r_def)
  then obtain u where u: "xdp_adjust_head K r 20 = Some u" using pop by blast
  have ur: "u = drop 20 r" using adjust_head_pop [OF K u] by simp
  have dec: "decap_v4 K q = Some (True, u)"
    using decap_results(1) [OF len, of K] u by (simp add: r_def Let_def)
  have "ld16 q 12 = Some BE_ETH_P_IP" using len eth by (simp add: ld16_def ldn_def)
  moreover have "drop 14 u = drop 34 q" "ld16 u 12 = Some BE_ETH_P_IP"
    using len by (simp_all add: ur r_def ld16_def ldn_def slice_def)
  ultimately show ?thesis
    using len s h dec by (simp add: xdpdecap_def decap_process_packet_def decap_process_l3_headers_def
       process_encaped_pckt_def ld_iphdr_def ldn_def Let_def)
qed

lemma decap_pops_v6:
  assumes K: "adjust_head_ok (xdp_adjust_head K)" and len: "54 \<le> length q" and eth: "slice q 12 2 = bytes16 BE_ETH_P_IPV6"
    and h: "ip6_nexthdr (dec_ipv6hdr (slice q 14 40)) = IPPROTO_IPIP"
    and s: "dpkt s = q" "dstats s 0 = Some d" and pop: "\<And>r. length r = length q \<Longrightarrow> xdp_adjust_head K r 40 \<noteq> None"
  shows "\<exists>t. xdpdecap K s = Some (XDP_PASS, t) \<and> drop 14 (dpkt t) = drop 54 q \<and> ld16 (dpkt t) 12 = Some BE_ETH_P_IP \<and>
    dstats t 0 = Some (d\<lparr>ds_decap_v6 := ds_decap_v6 d + 1, ds_total := ds_total d + 1\<rparr>)"
proof -
  define r where "r = take 40 q @ take 12 q @ bytes16 BE_ETH_P_IP @ drop 54 q"
  have "length r = length q" using len by (simp add: r_def)
  then obtain u where u: "xdp_adjust_head K r 40 = Some u" using pop by blast
  have ur: "u = drop 40 r" using adjust_head_pop [OF K u] by simp
  have dec: "decap_v6 K True q = Some (True, u)"
    using decap_results(2) [OF len, of K True] u by (simp add: r_def Let_def)
  have "ld16 q 12 = Some BE_ETH_P_IPV6" using len eth by (simp add: ld16_def ldn_def)
  moreover have "drop 14 u = drop 54 q" "ld16 u 12 = Some BE_ETH_P_IP"
    using len by (simp_all add: ur r_def ld16_def ldn_def slice_def)
  ultimately show ?thesis
    using len s h dec by (simp add: xdpdecap_def decap_process_packet_def decap_process_l3_headers_def
       process_encaped_pckt_def ld_ipv6hdr_def ldn_def Let_def)
qed
text \<open>Delivery: a real that runs \<open>xdpdecap\<close> passes to its stack exactly the client's IP packet that
  the balancer encapsulated with \<open>encap_v4\<close>, as an IPv4 frame, and counts it as decapsulated.\<close>

theorem decap_delivers_client_packet:
  assumes H: "adjust_head_ok (xdp_adjust_head H)" "adjust_head_ok (xdp_adjust_head K)" and p: "14 \<le> length p"
    and enc: "encap_v4 H cval pckt dst n p = Some (True, q)"
    and s: "dpkt s = q" "dstats s 0 = Some d"
    and pop: "\<And>r. length r = length q \<Longrightarrow> xdp_adjust_head K r 20 \<noteq> None"
  shows "\<exists>t. xdpdecap K s = Some (XDP_PASS, t) \<and> drop 14 (dpkt t) = drop 14 p \<and> ld16 (dpkt t) 12 = Some BE_ETH_P_IP \<and>
    dstats t 0 = Some (d\<lparr>ds_decap_v4 := ds_decap_v4 d + 1, ds_total := ds_total d + 1\<rparr>)"
proof -
  obtain q0 where q0: "xdp_adjust_head H p (-20) = Some q0"
    using enc by (cases "xdp_adjust_head H p (-20)") (auto simp: encap_v4_def)
  define h where "h = create_v4_hdr (dec_iphdr (slice q0 14 20)) (tos pckt) (ipip_v4_src pckt) (real_dst dst) (ucast n) IPPROTO_IPIP"
  have q: "q = ctl_mac cval @ take 6 p @ bytes16 BE_ETH_P_IP @ enc_iphdr h @ drop 14 p"
    using encap_v4_result [OF H(1) p q0, of cval pckt dst n] enc by (simp add: h_def)
  have len: "34 \<le> length q" using p by (simp add: q)
  have sl: "slice q 12 2 = bytes16 BE_ETH_P_IP" "slice q 14 20 = enc_iphdr h" "drop 34 q = drop 14 p"
    using p by (simp_all add: q slice_def)
  show ?thesis using decap_pops_v4 [OF H(2) len sl(1) _ _ _ s pop] by (simp add: sl h_def)
qed

text \<open>An IPv6 packet inside an IPv4 one (protocol 41) is cut: the program takes an IPv6 outer header
  for granted and removes 40 bytes, 20 of which belong to the inner IPv6 header.\<close>

theorem decap_6in4_cuts_inner_header:
  assumes K: "adjust_head_ok (xdp_adjust_head K)" and len: "54 \<le> length p"
    and eth: "ld16 p 12 = Some BE_ETH_P_IP"
    and iph: "slice p 14 20 = enc_iphdr h" "iph_ihl h = 5" "iph_frag_off h = 0" "iph_protocol h = IPPROTO_IPV6"
    and s: "dpkt s = p" "dstats s 0 = Some d"
    and pop: "\<And>r. length r = length p \<Longrightarrow> xdp_adjust_head K r 40 \<noteq> None"
  shows "\<exists>t. xdpdecap K s = Some (XDP_PASS, t) \<and> drop 14 (dpkt t) = drop 20 (drop 34 p)"
proof -
  define r where "r = take 40 p @ take 12 p @ bytes16 BE_ETH_P_IPV6 @ drop 54 p"
  have "length r = length p" using len by (simp add: r_def)
  then obtain u where u: "xdp_adjust_head K r 40 = Some u" using pop by blast
  have ur: "u = drop 40 r" using adjust_head_pop [OF K u] by simp
  have dec: "decap_v6 K False p = Some (True, u)"
    using decap_results(2) [OF len, of K False] u by (simp add: r_def Let_def)
  have "drop 14 u = drop 54 p" using len by (simp add: ur r_def)
  then show ?thesis
    using len s eth iph dec by (simp add: xdpdecap_def decap_process_packet_def decap_process_l3_headers_def
       process_encaped_pckt_def ld_iphdr_def ldn_def Let_def)
qed

text \<open>The root program hands the packet to the first filled slot of its array, and passes it to the
  kernel when no slot is filled.\<close>

theorem xdp_root_first_filled:
  "xdp_root filled = (if filled 0 then Tail_call 0 else if filled 1 then Tail_call 1
     else if filled 2 then Tail_call 2 else Finish XDP_PASS)"
  by (simp add: xdp_root_def upt_rec numeral_eq_Suc)

text \<open>The packet counter counts every packet while its flag is set: after any number of packets the
  counter has grown by that number, modulo \<open>2 ^ 64\<close>, and every packet passes.\<close>

theorem pktcntr_counts:
  assumes "pc_ctl_array s 0 = Some flag" "flag \<noteq> 0" "pc_cntrs_array s 0 = Some v"
  shows "\<exists>t. serve (\<lambda>(_ :: packet) s. s) (\<lambda>s. Some (pktcntr s)) ps s = Some (replicate (length ps) XDP_PASS, t) \<and>
    pc_cntrs_array t 0 = Some (v + of_nat (length ps)) \<and> pc_ctl_array t = pc_ctl_array s"
  using assms
proof (induction ps arbitrary: s v)
  case (Cons p ps)
  let ?s = "s\<lparr>pc_cntrs_array := (pc_cntrs_array s)(0 \<mapsto> v + 1)\<rparr>"
  have "pktcntr s = (XDP_PASS, ?s)" using Cons.prems by (simp add: pktcntr_def)
  with Cons.IH [of ?s "v + 1"] Cons.prems show ?case by (auto simp: algebra_simps)
qed simp

section \<open>Witnesses\<close>

lemma ref_pop: "int n + 14 \<le> int (length r) \<Longrightarrow> xdp_adjust_head ref_helpers r (int n) \<noteq> None"
  by (simp add: ref_helpers_def ref_adjust_head_def)

definition ex_decap_state :: "packet \<Rightarrow> decap_state" where
  "ex_decap_state p = \<lparr>dpkt = p, dstats = [0 \<mapsto> \<lparr>ds_decap_v4 = 0, ds_decap_v6 = 0, ds_total = 0\<rparr>]\<rparr>"

definition ex_decap_real :: real_definition where
  "ex_decap_real = \<lparr>real_dstv6 = in6_zero\<lparr>s6_0 := 0x0100000A\<rparr>, real_flags = 0\<rparr>"

theorem decap_delivers_client_packet_witness:
  "\<exists>q t. encap_v4 ref_helpers \<lparr>ctl_u64 = 5\<rparr> packet_description_zero ex_decap_real 20 (replicate 34 7) = Some (True, q) \<and>
     xdpdecap ref_helpers (ex_decap_state q) = Some (XDP_PASS, t) \<and> drop 14 (dpkt t) = drop 14 (replicate 34 7)"
proof -
  have head: "adjust_head_ok (xdp_adjust_head ref_helpers)" using ref_adjust_head_ok by (simp add: ref_helpers_def)
  obtain q0 where "xdp_adjust_head ref_helpers (replicate 34 7) (-20) = Some q0"
    by (simp add: ref_helpers_def ref_adjust_head_def)
  from encap_v4_result [OF head _ this, of "\<lparr>ctl_u64 = 5\<rparr>" packet_description_zero ex_decap_real 20]
  obtain q where q: "encap_v4 ref_helpers \<lparr>ctl_u64 = 5\<rparr> packet_description_zero ex_decap_real 20 (replicate 34 7) = Some (True, q)"
    and len: "length q = 54" by auto
  have "\<exists>t. xdpdecap ref_helpers (ex_decap_state q) = Some (XDP_PASS, t) \<and> drop 14 (dpkt t) = drop 14 (replicate 34 7) \<and>
      ld16 (dpkt t) 12 = Some BE_ETH_P_IP \<and>
      dstats t 0 = Some (\<lparr>ds_decap_v4 = 0, ds_decap_v6 = 0, ds_total = 0\<rparr>\<lparr>ds_decap_v4 := ds_decap_v4 \<lparr>ds_decap_v4 = 0, ds_decap_v6 = 0, ds_total = 0\<rparr> + 1,
        ds_total := ds_total \<lparr>ds_decap_v4 = 0, ds_decap_v6 = 0, ds_total = 0\<rparr> + 1\<rparr>)"
    by (rule decap_delivers_client_packet [OF head head _ q]) (use len ref_pop [of 20] in \<open>simp_all add: ex_decap_state_def\<close>)
  with q show ?thesis by blast
qed

definition ex_outer :: iphdr where
  "ex_outer = \<lparr>iph_version = 4, iph_ihl = 5, iph_tos = 0, iph_tot_len = 0, iph_id = 0,
     iph_frag_off = 0, iph_ttl = 64, iph_protocol = IPPROTO_IPV6, iph_check = 0, iph_saddr = 1, iph_daddr = 2\<rparr>"

definition ex_6in4 :: packet where
  "ex_6in4 = replicate 12 0 @ bytes16 BE_ETH_P_IP @ enc_iphdr ex_outer @ replicate 40 6"

theorem decap_6in4_cuts_inner_header_witness:
  "\<exists>t. xdpdecap ref_helpers (ex_decap_state ex_6in4) = Some (XDP_PASS, t) \<and> drop 14 (dpkt t) = drop 20 (drop 34 ex_6in4)"
proof -
  have head: "adjust_head_ok (xdp_adjust_head ref_helpers)" using ref_adjust_head_ok by (simp add: ref_helpers_def)
  have "slice ex_6in4 14 20 = enc_iphdr ex_outer"
    "ld16 ex_6in4 12 = Some BE_ETH_P_IP" "length ex_6in4 = 74"
    by (simp_all add: ex_6in4_def slice_def ld16_def ldn_def)
  then show ?thesis
    by (intro decap_6in4_cuts_inner_header [OF head, where h = ex_outer])
      (use ref_pop [of 40] in \<open>simp_all add: ex_decap_state_def ex_outer_def\<close>)
qed

theorem pktcntr_counts_witness:
  "\<exists>t. serve (\<lambda>(_ :: packet) s. s) (\<lambda>s. Some (pktcntr s)) [[], [1]] \<lparr>pc_ctl_array = [0 \<mapsto> 1], pc_cntrs_array = [0 \<mapsto> 5]\<rparr> =
      Some ([XDP_PASS, XDP_PASS], t) \<and> pc_cntrs_array t 0 = Some 7"
  using pktcntr_counts [of "\<lparr>pc_ctl_array = [0 \<mapsto> 1], pc_cntrs_array = [0 \<mapsto> 5]\<rparr>" 1 5 "[[], [1]]"] by auto

end
