(* ===== verification/Healthcheck.thy ===== *)
theory Healthcheck
  imports Encap
begin

text \<open>
  The health-checking programs of the traffic-control hook, all under \<open>src/katran/lib/bpf\<close>:
  \<open>healthchecking_kern.c\<close> with \<open>healthchecking_helpers.h\<close> builds the tunnel header itself,
  \<open>healthchecking_ipip.c\<close> leaves it to the kernel's tunnel devices. A health check is a local
  packet whose mark names the real under test.

  The kernel helper \<open>bpf_skb_adjust_room\<close> is the parameter \<open>A\<close>: \<open>A p n\<close> makes room for \<open>n\<close>
  bytes behind the Ethernet header or fails. What it documents is \<open>adjust_room_ok\<close>.
\<close>

section \<open>State\<close>

definition HC_MAIN_INTF_POSITION :: u32 where [simp]: "HC_MAIN_INTF_POSITION = 3"

definition HC_MAX_PACKET_SIZE :: u32 where [simp]: "HC_MAX_PACKET_SIZE = 1474"

definition GENERIC_STATS_INDEX :: u32 where [simp]: "GENERIC_STATS_INDEX = 0"

definition V6DADDR :: u8 where [simp]: "V6DADDR = 1"

definition HC_SRC_MAC_POS :: u32 where [simp]: "HC_SRC_MAC_POS = 0"

definition HC_DST_MAC_POS :: u32 where [simp]: "HC_DST_MAC_POS = 1"

definition MAX_PACKET_SIZE :: u32 where [simp]: "MAX_PACKET_SIZE = 1474"

record hc_real_definition =
  v6daddr :: in6
  hc_real_flags :: u8

definition hc_daddr :: "hc_real_definition \<Rightarrow> u32" where
  "hc_daddr r = s6_0 (v6daddr r)"

record hc_stats =
  pckts_processed :: u64
  pckts_dropped :: u64
  pckts_skipped :: u64
  pckts_too_big :: u64

text \<open>A tunnel key as \<open>bpf_skb_set_tunnel_key\<close> receives it.\<close>

record bpf_tunnel_key =
  tunnel_ttl :: u8
  remote :: in6
  tuninfo_ipv6 :: bool

text \<open>\<open>struct __sk_buff\<close> (the linear data, the length, the mark, the tunnel key) and the maps.\<close>

record hc_state =
  skb_data :: packet
  skb_len :: u32
  skb_mark :: u32
  skb_tunnel_key :: "bpf_tunnel_key option"
  hc_ctrl_map :: "u32 \<rightharpoonup> u32"
  hc_reals_map :: "u32 \<rightharpoonup> hc_real_definition"
  hc_pckt_srcs_map :: "u32 \<rightharpoonup> hc_real_definition"
  hc_pckt_macs :: "u32 \<rightharpoonup> u8 list"
  hc_stats_map :: "u32 \<rightharpoonup> hc_stats"

datatype tc_action = TC_ACT_UNSPEC | TC_ACT_SHOT | Redirect u32

definition adjust_room_ok :: "(packet \<Rightarrow> nat \<Rightarrow> packet option) \<Rightarrow> bool" where
  "adjust_room_ok A \<longleftrightarrow> (\<forall>p n q. 14 \<le> length p \<longrightarrow> A p n = Some q \<longrightarrow>
     length q = length p + n \<and> take 14 q = take 14 p \<and> drop (14 + n) q = drop 14 p)"

section \<open>Encapsulation\<close>

definition hc_encap_ipip ::
  "(packet \<Rightarrow> nat \<Rightarrow> packet option) \<Rightarrow> hc_real_definition \<Rightarrow> bool \<Rightarrow> hc_state \<Rightarrow> (bool \<times> hc_state) option" where
  "hc_encap_ipip A real is_ipv6 s =
     (let pkt_len = (ucast (skb_len s - of_nat sizeof_eth_hdr) :: u16) in
      if hc_real_flags real = V6DADDR then
        (case hc_pckt_srcs_map s V6_SRC_INDEX of
           None \<Rightarrow> Some (False, s)
         | Some src \<Rightarrow>
             (case A (skb_data s) sizeof_ipv6hdr of
                None \<Rightarrow> Some (False, s)
              | Some p \<Rightarrow>
                  (let s = s\<lparr>skb_data := p, skb_len := skb_len s + of_nat sizeof_ipv6hdr\<rparr> in
                   if sizeof_eth_hdr + sizeof_ipv6hdr > length p then Some (False, s)
                   else do {
                     p \<leftarrow> st16 p 12 BE_ETH_P_IPV6;
                     ip6h \<leftarrow> ld_ipv6hdr p sizeof_eth_hdr;
                     p \<leftarrow> st_ipv6hdr p sizeof_eth_hdr
                       (create_v6_hdr ip6h DEFAULT_TOS (v6daddr src) (v6daddr real) pkt_len
                          (if is_ipv6 then IPPROTO_IPV6 else IPPROTO_IPIP));
                     Some (True, s\<lparr>skb_data := p\<rparr>)
                   })))
      else
        (case hc_pckt_srcs_map s V4_SRC_INDEX of
           None \<Rightarrow> Some (False, s)
         | Some src \<Rightarrow>
             (case A (skb_data s) sizeof_iphdr of
                None \<Rightarrow> Some (False, s)
              | Some p \<Rightarrow>
                  (let s = s\<lparr>skb_data := p, skb_len := skb_len s + of_nat sizeof_iphdr\<rparr> in
                   if sizeof_eth_hdr + sizeof_iphdr > length p then Some (False, s)
                   else do {
                     iph \<leftarrow> ld_iphdr p sizeof_eth_hdr;
                     p \<leftarrow> st_iphdr p sizeof_eth_hdr
                       (create_v4_hdr iph DEFAULT_TOS (hc_daddr src) (hc_daddr real) pkt_len IPPROTO_IPIP);
                     Some (True, s\<lparr>skb_data := p\<rparr>)
                   }))))"

definition gue_sport :: "u32 \<Rightarrow> u16" where
  "gue_sport seed = ucast ((seed XOR drop_bit 16 seed) AND 0xFFFF)"

definition hc_encap_gue ::
  "(packet \<Rightarrow> nat \<Rightarrow> packet option) \<Rightarrow> hc_real_definition \<Rightarrow> bool \<Rightarrow> hc_state \<Rightarrow> (bool \<times> hc_state) option" where
  "hc_encap_gue A real is_ipv6 s =
     (let pkt_len = (ucast (skb_len s - of_nat sizeof_eth_hdr) :: u16) in
      if hc_real_flags real = V6DADDR then
        (let sport = gue_sport (s6_0 (v6daddr real) OR s6_3 (v6daddr real)) in
         case hc_pckt_srcs_map s V6_SRC_INDEX of
           None \<Rightarrow> Some (False, s)
         | Some src \<Rightarrow>
             (case A (skb_data s) (sizeof_ipv6hdr + sizeof_udphdr) of
                None \<Rightarrow> Some (False, s)
              | Some p \<Rightarrow>
                  (let s = s\<lparr>skb_data := p, skb_len := skb_len s + of_nat (sizeof_ipv6hdr + sizeof_udphdr)\<rparr> in
                   if sizeof_eth_hdr + sizeof_ipv6hdr + sizeof_udphdr > length p then Some (False, s)
                   else do {
                     p \<leftarrow> st16 p 12 BE_ETH_P_IPV6;
                     let pkt_len = pkt_len + of_nat sizeof_udphdr;
                     udph \<leftarrow> ld_udphdr p (sizeof_eth_hdr + sizeof_ipv6hdr);
                     p \<leftarrow> st_udphdr p (sizeof_eth_hdr + sizeof_ipv6hdr)
                       (create_udp_hdr udph sport GUE_DPORT pkt_len 0);
                     ip6h \<leftarrow> ld_ipv6hdr p sizeof_eth_hdr;
                     p \<leftarrow> st_ipv6hdr p sizeof_eth_hdr
                       (create_v6_hdr ip6h DEFAULT_TOS (v6daddr src) (v6daddr real) pkt_len IPPROTO_UDP);
                     Some (True, s\<lparr>skb_data := p\<rparr>)
                   })))
      else
        (let sport = gue_sport (hc_daddr real) in
         case hc_pckt_srcs_map s V4_SRC_INDEX of
           None \<Rightarrow> Some (False, s)
         | Some src \<Rightarrow>
             (case A (skb_data s) (sizeof_iphdr + sizeof_udphdr) of
                None \<Rightarrow> Some (False, s)
              | Some p \<Rightarrow>
                  (let s = s\<lparr>skb_data := p, skb_len := skb_len s + of_nat (sizeof_iphdr + sizeof_udphdr)\<rparr> in
                   if sizeof_eth_hdr + sizeof_iphdr + sizeof_udphdr > length p then Some (False, s)
                   else do {
                     let pkt_len = pkt_len + of_nat sizeof_udphdr;
                     udph \<leftarrow> ld_udphdr p (sizeof_eth_hdr + sizeof_iphdr);
                     p \<leftarrow> st_udphdr p (sizeof_eth_hdr + sizeof_iphdr)
                       (create_udp_hdr udph sport GUE_DPORT pkt_len 0);
                     iph \<leftarrow> ld_iphdr p sizeof_eth_hdr;
                     p \<leftarrow> st_iphdr p sizeof_eth_hdr
                       (create_v4_hdr iph DEFAULT_TOS (hc_daddr src) (hc_daddr real) pkt_len IPPROTO_UDP);
                     Some (True, s\<lparr>skb_data := p\<rparr>)
                   }))))"

definition HC_ENCAP ::
  "build_flags \<Rightarrow> (packet \<Rightarrow> nat \<Rightarrow> packet option) \<Rightarrow> hc_real_definition \<Rightarrow> bool \<Rightarrow> hc_state \<Rightarrow>
   (bool \<times> hc_state) option" where
  "HC_ENCAP B = (if GUE_ENCAP B then hc_encap_gue else hc_encap_ipip)"

section \<open>The programs\<close>

text \<open>\<open>prog_stats->f += 1\<close> through the pointer the program got from \<open>hc_stats_map\<close>.\<close>

definition hc_count :: "(hc_stats \<Rightarrow> hc_stats) \<Rightarrow> hc_state \<Rightarrow> hc_state option" where
  "hc_count f s = do {
     d \<leftarrow> deref (hc_stats_map s GENERIC_STATS_INDEX);
     Some (s\<lparr>hc_stats_map := (hc_stats_map s)(GENERIC_STATS_INDEX \<mapsto> f d)\<rparr>)
   }"

definition hc_skip :: "hc_state \<Rightarrow> (tc_action \<times> hc_state) option" where
  "hc_skip s = map_option (Pair TC_ACT_UNSPEC) (hc_count (\<lambda>d. d\<lparr>pckts_skipped := pckts_skipped d + 1\<rparr>) s)"

definition hc_drop :: "hc_state \<Rightarrow> (tc_action \<times> hc_state) option" where
  "hc_drop s = map_option (Pair TC_ACT_SHOT) (hc_count (\<lambda>d. d\<lparr>pckts_dropped := pckts_dropped d + 1\<rparr>) s)"

definition hc_too_big :: "hc_state \<Rightarrow> (tc_action \<times> hc_state) option" where
  "hc_too_big s = map_option (Pair TC_ACT_SHOT)
     (hc_count (\<lambda>d. d\<lparr>pckts_dropped := pckts_dropped d + 1, pckts_too_big := pckts_too_big d + 1\<rparr>) s)"

text \<open>
  \<open>healthchecker\<close> of \<open>healthchecking_kern.c\<close>; \<open>hc_send\<close> is its second half, from the Ethernet
  header on, for a probe whose real, interface and MAC addresses were found.
\<close>

definition hc_send ::
  "build_flags \<Rightarrow> (packet \<Rightarrow> nat \<Rightarrow> packet option) \<Rightarrow> hc_real_definition \<Rightarrow> u32 \<Rightarrow> u8 list \<Rightarrow> u8 list \<Rightarrow>
   hc_state \<Rightarrow> (tc_action \<times> hc_state) option" where
  "hc_send B A real intf_ifindex esrc edst s =
     (if sizeof_eth_hdr > length (skb_data s) then hc_drop s
      else do {
        h_proto \<leftarrow> ld16 (skb_data s) 12;
        let is_ipv6 = (h_proto = BE_ETH_P_IPV6);
        let s = s\<lparr>skb_mark := 0\<rparr>;
        (ok, s) \<leftarrow> HC_ENCAP B A real is_ipv6 s;
        if \<not> ok then hc_drop s
        else if sizeof_eth_hdr > length (skb_data s) then hc_drop s
        else do {
          p \<leftarrow> stn (skb_data s) 6 (take 6 esrc);
          p \<leftarrow> stn p 0 (take 6 edst);
          s \<leftarrow> hc_count (\<lambda>d. d\<lparr>pckts_processed := pckts_processed d + 1\<rparr>) (s\<lparr>skb_data := p\<rparr>);
          Some (Redirect intf_ifindex, s)
        }
      })"

definition healthchecker ::
  "build_flags \<Rightarrow> (packet \<Rightarrow> nat \<Rightarrow> packet option) \<Rightarrow> hc_state \<Rightarrow> (tc_action \<times> hc_state) option" where
  "healthchecker B A s =
     (if hc_stats_map s GENERIC_STATS_INDEX = None then Some (TC_ACT_UNSPEC, s)
      else if skb_mark s = 0 then hc_skip s
      else
        (case hc_reals_map s (skb_mark s) of
           None \<Rightarrow> hc_skip s
         | Some real \<Rightarrow>
             if skb_len s > HC_MAX_PACKET_SIZE then hc_too_big s
             else
               (case hc_ctrl_map s HC_MAIN_INTF_POSITION of
                  None \<Rightarrow> hc_drop s
                | Some intf_ifindex \<Rightarrow>
                    (case hc_pckt_macs s HC_SRC_MAC_POS of
                       None \<Rightarrow> hc_drop s
                     | Some esrc \<Rightarrow>
                         (case hc_pckt_macs s HC_DST_MAC_POS of
                            None \<Rightarrow> hc_drop s
                          | Some edst \<Rightarrow> hc_send B A real intf_ifindex esrc edst s)))))"

text \<open>\<open>healthchecker\<close> of \<open>healthchecking_ipip.c\<close>.\<close>

definition healthchecker_ipip :: "hc_state \<Rightarrow> (tc_action \<times> hc_state) option" where
  "healthchecker_ipip s =
     (if hc_stats_map s GENERIC_STATS_INDEX = None then Some (TC_ACT_UNSPEC, s)
      else if skb_mark s = 0 then hc_skip s
      else
        (case hc_reals_map s (skb_mark s) of
           None \<Rightarrow> hc_skip s
         | Some real \<Rightarrow>
             if skb_len s > MAX_PACKET_SIZE then hc_too_big s
             else
               (case hc_ctrl_map s 1 of
                  None \<Rightarrow> hc_drop s
                | Some v4_intf_ifindex \<Rightarrow>
                    (case hc_ctrl_map s 2 of
                       None \<Rightarrow> hc_drop s
                     | Some v6_intf_ifindex \<Rightarrow>
                         (let v6 = (hc_real_flags real = V6DADDR);
                              tkey = \<lparr>tunnel_ttl = DEFAULT_TTL,
                                remote = (if v6 then v6daddr real else in6_zero\<lparr>s6_0 := hc_daddr real\<rparr>),
                                tuninfo_ipv6 = v6\<rparr>;
                              ifindex = (if v6 then v6_intf_ifindex else v4_intf_ifindex)
                          in do {
                            s \<leftarrow> hc_count (\<lambda>d. d\<lparr>pckts_processed := pckts_processed d + 1\<rparr>) (s\<lparr>skb_mark := 0\<rparr>);
                            Some (Redirect ifindex, s\<lparr>skb_tunnel_key := Some tkey\<rparr>)
                          })))))"

section \<open>Counting\<close>

text \<open>What a verdict adds to the counters: exactly one of processed, dropped and skipped.\<close>

definition hc_counted :: "tc_action \<Rightarrow> hc_stats \<Rightarrow> hc_stats \<Rightarrow> bool" where
  "hc_counted a d d' \<longleftrightarrow> (case a of
       TC_ACT_UNSPEC \<Rightarrow> d' = d\<lparr>pckts_skipped := pckts_skipped d + 1\<rparr>
     | TC_ACT_SHOT \<Rightarrow> \<exists>n. d' = d\<lparr>pckts_dropped := pckts_dropped d + 1, pckts_too_big := n\<rparr>
     | Redirect i \<Rightarrow> d' = d\<lparr>pckts_processed := pckts_processed d + 1\<rparr>)"

definition hc_ends :: "hc_stats \<Rightarrow> (tc_action \<times> hc_state) option \<Rightarrow> bool" where
  "hc_ends d m = wp m (\<lambda>(a, t). \<exists>d'. hc_stats_map t GENERIC_STATS_INDEX = Some d' \<and> hc_counted a d d' \<and>
     (\<forall>i. a = Redirect i \<longrightarrow> skb_mark t = 0))"

lemma hc_stats_eta: "\<exists>n. d\<lparr>pckts_dropped := x\<rparr> = d\<lparr>pckts_dropped := x, pckts_too_big := n\<rparr>"
  by (rule exI [of _ "pckts_too_big d"]) simp

lemma hc_ends_simple:
  assumes "hc_stats_map s GENERIC_STATS_INDEX = Some d"
  shows "hc_ends d (hc_skip s)" "hc_ends d (hc_drop s)" "hc_ends d (hc_too_big s)"
  using assms hc_stats_eta
  by (auto simp: hc_ends_def hc_skip_def hc_drop_def hc_too_big_def hc_count_def hc_counted_def deref_def)

lemma hc_encap_safe:
  "wp (HC_ENCAP B A real v6 s) (\<lambda>(ok, t). hc_stats_map t = hc_stats_map s \<and> skb_mark t = skb_mark s)"
  by (auto simp: HC_ENCAP_def hc_encap_ipip_def hc_encap_gue_def st16_def ld_iphdr_def st_iphdr_def ld_ipv6hdr_def st_ipv6hdr_def
      ld_udphdr_def st_udphdr_def Let_def wp_simps split: option.split)

lemma hc_send_ends:
  assumes "hc_stats_map s GENERIC_STATS_INDEX = Some d"
  shows "hc_ends d (hc_send B A real i esrc edst s)"
proof -
  have fin: "hc_ends d (do {
          p \<leftarrow> stn (skb_data t) 6 (take 6 esrc);
          p \<leftarrow> stn p 0 (take 6 edst);
          s \<leftarrow> hc_count (\<lambda>d. d\<lparr>pckts_processed := pckts_processed d + 1\<rparr>) (t\<lparr>skb_data := p\<rparr>);
          Some (Redirect i, s) })"
    if "hc_stats_map t GENERIC_STATS_INDEX = Some d" "skb_mark t = 0" "14 \<le> length (skb_data t)" for t
    using that by (auto simp: hc_ends_def hc_count_def hc_counted_def deref_def wp_simps)
  show ?thesis
    using assms hc_ends_simple(2) fin unfolding hc_send_def hc_ends_def
    by (auto simp: ld16_def wp_simps Let_def intro!: wp_mono [OF hc_encap_safe])
qed

text \<open>C25. The health checker is memory safe and counts: with its counters present it gives every packet a
  verdict whatever \<open>bpf_skb_adjust_room\<close> does, without a faulting access, and the verdict is
  counted once: skipped for \<open>TC_ACT_UNSPEC\<close>, dropped for \<open>TC_ACT_SHOT\<close>, processed for a redirect.
  A redirected packet has its mark cleared. Both for the program that builds the tunnel header
  and for the one that sets a tunnel key.\<close>

theorem healthchecker_counts_every_packet:
  assumes "hc_stats_map s GENERIC_STATS_INDEX = Some d"
  shows "hc_ends d (healthchecker B A s) \<and> hc_ends d (healthchecker_ipip s)"
proof
  show "hc_ends d (healthchecker B A s)"
    using assms by (simp add: healthchecker_def hc_ends_simple hc_send_ends split: option.split)
  have "hc_ends d (do {
        s \<leftarrow> hc_count (\<lambda>d. d\<lparr>pckts_processed := pckts_processed d + 1\<rparr>) (s\<lparr>skb_mark := 0\<rparr>);
        Some (Redirect i, s\<lparr>skb_tunnel_key := Some k\<rparr>) })" for i k
    using assms by (auto simp: hc_ends_def hc_count_def hc_counted_def deref_def)
  then show "hc_ends d (healthchecker_ipip s)"
    using assms by (simp add: healthchecker_ipip_def hc_ends_simple Let_def split: option.split)
qed

text \<open>No recursion: a probe that was redirected is left alone when it passes the hook again.\<close>

theorem redirected_probe_is_skipped:
  assumes first: "healthchecker B A s = Some (Redirect i, t)"
  shows "\<exists>u. healthchecker B A t = Some (TC_ACT_UNSPEC, u) \<and> skb_data u = skb_data t"
proof -
  obtain d where d: "hc_stats_map s GENERIC_STATS_INDEX = Some d"
    using first by (cases "hc_stats_map s GENERIC_STATS_INDEX") (auto simp: healthchecker_def)
  have "hc_ends d (healthchecker B A s)"
    using d by (simp add: healthchecker_def hc_ends_simple hc_send_ends split: option.split)
  then show ?thesis
    using first by (auto simp: hc_ends_def healthchecker_def hc_skip_def hc_count_def deref_def)
qed

section \<open>The probe\<close>

text \<open>The probe of an IPv4 real: the IPIP build puts an IPv4 header with a valid checksum, protocol
  IPIP, the configured source and the real's address between the Ethernet header and the probe,
  sets both MAC addresses, clears the mark and redirects to the main interface. The probe
  itself is unchanged.\<close>

theorem probe_of_v4_real:
  assumes A: "adjust_room_ok A" "A (skb_data s) 20 = Some q0" and B: "\<not> GUE_ENCAP B"
    and maps: "hc_stats_map s GENERIC_STATS_INDEX = Some d" "hc_reals_map s (skb_mark s) = Some real"
      "hc_ctrl_map s HC_MAIN_INTF_POSITION = Some intf" "hc_pckt_macs s HC_SRC_MAC_POS = Some esrc"
      "hc_pckt_macs s HC_DST_MAC_POS = Some edst" "hc_pckt_srcs_map s V4_SRC_INDEX = Some src"
    and skb: "skb_mark s \<noteq> 0" "skb_len s \<le> HC_MAX_PACKET_SIZE" "14 \<le> length (skb_data s)"
    and v4: "hc_real_flags real \<noteq> V6DADDR" and mac: "length esrc = 6" "length edst = 6"
  shows "\<exists>t h. healthchecker B A s = Some (Redirect intf, t) \<and> skb_mark t = 0 \<and>
    skb_data t = edst @ esrc @ slice (skb_data s) 12 2 @ enc_iphdr h @ drop 14 (skb_data s) \<and>
    csum_valid (wsum (enc_iphdr h)) \<and> iph_protocol h = IPPROTO_IPIP \<and> iph_saddr h = hc_daddr src \<and>
    iph_daddr h = hc_daddr real \<and> bpf_ntohs (iph_tot_len h) = ucast (skb_len s - 14) + 20"
proof -
  define p where "p = skb_data s"
  have "drop (14 + 20) q0 = drop 14 p" and q0: "length q0 = length p + 20" "take 14 q0 = take 14 p"
    using A skb(3) unfolding adjust_room_ok_def p_def by blast+
  then have q0: "length q0 = length p + 20" "take 14 q0 = take 14 p" "drop 34 q0 = drop 14 p" by simp_all
  define h where "h = create_v4_hdr (dec_iphdr (slice q0 14 20)) DEFAULT_TOS (hc_daddr src) (hc_daddr real)
      (ucast (skb_len s - 14)) IPPROTO_IPIP"
  define q where "q = put q0 14 (enc_iphdr h)"
  have enc: "HC_ENCAP B A real v (s\<lparr>skb_mark := 0\<rparr>) =
      Some (True, s\<lparr>skb_mark := 0, skb_data := q, skb_len := skb_len s + 20\<rparr>)" for v
    using A(2) B v4 maps(6) q0(1) skb(3)
    by (simp add: HC_ENCAP_def hc_encap_ipip_def ld_iphdr_def st_iphdr_def ldn_def stn_def h_def q_def p_def Let_def)
  have lq: "length q = length p + 20" using q0(1) skb(3) by (simp add: q_def p_def)
  have "put (put q 6 esrc) 0 edst = edst @ esrc @ drop 12 q" using lq mac by (simp add: put_def)
  moreover have "drop 12 q = slice p 12 2 @ enc_iphdr h @ drop 14 p"
  proof -
    have "take 14 q0 = take 12 p @ slice p 12 2"
      using q0(2) take_add [of 12 2 p] by (simp add: slice_def)
    then show ?thesis using q0 skb(3) by (simp add: q_def put_def p_def)
  qed
  moreover have "csum_valid (wsum (enc_iphdr h))" by (simp add: h_def create_v4_hdr_valid)
  ultimately show ?thesis
    using maps skb(1,3) leD [OF skb(2)] enc lq mac
    by (intro exI [of _ "s\<lparr>skb_mark := 0, skb_data := edst @ esrc @ drop 12 q, skb_len := skb_len s + 20,
        hc_stats_map := (hc_stats_map s)(0 \<mapsto> d\<lparr>pckts_processed := pckts_processed d + 1\<rparr>)\<rparr>"] exI [of _ h])
      (simp add: healthchecker_def hc_send_def ld16_def ldn_def stn_def hc_count_def deref_def Let_def p_def h_def)
qed

section \<open>Witnesses\<close>

definition ex_room :: "packet \<Rightarrow> nat \<Rightarrow> packet option" where
  "ex_room p n = Some (take 14 p @ replicate n 0 @ drop 14 p)"

lemma ex_room_ok: "adjust_room_ok ex_room"
  by (auto simp: adjust_room_ok_def ex_room_def)

definition ex_hc_state :: hc_state where
  "ex_hc_state = \<lparr>skb_data = replicate 12 0 @ bytes16 BE_ETH_P_IP @ replicate 40 9, skb_len = 54, skb_mark = 5, skb_tunnel_key = None,
     hc_ctrl_map = [3 \<mapsto> 2], hc_reals_map = [5 \<mapsto> \<lparr>v6daddr = in6_zero\<lparr>s6_0 := 7\<rparr>, hc_real_flags = 0\<rparr>],
     hc_pckt_srcs_map = [0 \<mapsto> \<lparr>v6daddr = in6_zero, hc_real_flags = 0\<rparr>],
     hc_pckt_macs = [0 \<mapsto> replicate 6 1, 1 \<mapsto> replicate 6 2],
     hc_stats_map = [0 \<mapsto> \<lparr>pckts_processed = 0, pckts_dropped = 0, pckts_skipped = 0, pckts_too_big = 0\<rparr>]\<rparr>"

theorem healthchecker_counts_every_packet_witness:
  "hc_ends \<lparr>pckts_processed = 0, pckts_dropped = 0, pckts_skipped = 0, pckts_too_big = 0\<rparr>
     (healthchecker default_build ex_room ex_hc_state)"
  by (rule conjunct1 [OF healthchecker_counts_every_packet]) (simp add: ex_hc_state_def)

lemma ex_room_20: "ex_room (skb_data ex_hc_state) 20 = Some (take 14 (skb_data ex_hc_state) @ replicate 20 0 @ drop 14 (skb_data ex_hc_state))"
  by (simp add: ex_room_def)

lemma ex_hc_maps:
  "hc_stats_map ex_hc_state GENERIC_STATS_INDEX = Some \<lparr>pckts_processed = 0, pckts_dropped = 0, pckts_skipped = 0, pckts_too_big = 0\<rparr>"
  "hc_reals_map ex_hc_state (skb_mark ex_hc_state) = Some \<lparr>v6daddr = in6_zero\<lparr>s6_0 := 7\<rparr>, hc_real_flags = 0\<rparr>"
  "hc_ctrl_map ex_hc_state HC_MAIN_INTF_POSITION = Some 2" "hc_pckt_macs ex_hc_state HC_SRC_MAC_POS = Some (replicate 6 1)"
  "hc_pckt_macs ex_hc_state HC_DST_MAC_POS = Some (replicate 6 2)"
  "hc_pckt_srcs_map ex_hc_state V4_SRC_INDEX = Some \<lparr>v6daddr = in6_zero, hc_real_flags = 0\<rparr>"
  by (simp_all add: ex_hc_state_def)

theorem probe_of_v4_real_witness:
  "\<exists>t h. healthchecker default_build ex_room ex_hc_state = Some (Redirect 2, t) \<and> skb_mark t = 0 \<and>
    csum_valid (wsum (enc_iphdr h)) \<and> iph_daddr h = 7"
proof -
  have "\<not> GUE_ENCAP default_build" "skb_mark ex_hc_state \<noteq> 0" "skb_len ex_hc_state \<le> HC_MAX_PACKET_SIZE"
    "14 \<le> length (skb_data ex_hc_state)"
    by (simp_all add: default_build_def ex_hc_state_def)
  from probe_of_v4_real [OF ex_room_ok ex_room_20 this(1) ex_hc_maps this(2-4)]
  show ?thesis by (auto simp: hc_daddr_def)
qed

lemma ex_hc_redirects: "\<exists>t. healthchecker default_build ex_room ex_hc_state = Some (Redirect 2, t)"
proof -
  define q where "q = take 14 (skb_data ex_hc_state) @ replicate 20 0 @ drop 14 (skb_data ex_hc_state)"
  have l: "length q = 74" by (simp add: q_def ex_hc_state_def)
  show ?thesis using ex_hc_maps
    by (simp add: healthchecker_def hc_send_def HC_ENCAP_def hc_encap_ipip_def default_build_def ex_room_20 ld16_def ldn_def stn_def
     ld_iphdr_def st_iphdr_def hc_count_def deref_def Let_def q_def [symmetric] l) (simp add: ex_hc_state_def)
qed

theorem redirected_probe_is_skipped_witness:
  "\<exists>t u. healthchecker default_build ex_room ex_hc_state = Some (Redirect 2, t) \<and>
     healthchecker default_build ex_room t = Some (TC_ACT_UNSPEC, u) \<and> skb_data u = skb_data t"
  using ex_hc_redirects redirected_probe_is_skipped by blast

end
