(* ===== verification/Maglev.thy ===== *)
theory Maglev
  imports Prelude
begin

text \<open>
  Consistent hashing: \<open>src/katran/lib/MurmurHash3.cpp\<close> and \<open>src/katran/lib/CHHelpers.cpp\<close>.

  \<open>GenerateMaglevHash\<close> is three nested loops. The innermost one (\<open>while (result[cur] >= 0)\<close>)
  and the outermost one (\<open>for (;;)\<close>) may run forever, so both are partial functions into
  \<open>option\<close>, where \<open>None\<close> is a run that does not end; that they end is a theorem about
  prime ring sizes. Arithmetic is that of \<open>uint32_t\<close> and \<open>uint64_t\<close>.
\<close>

section \<open>MurmurHash3\<close>

definition rotl64 :: "u64 \<Rightarrow> nat \<Rightarrow> u64" where
  "rotl64 x r = push_bit r x OR drop_bit (64 - r) x"

definition murmur_fmix :: "u64 \<Rightarrow> u64" where
  "murmur_fmix h =
     (let h = h XOR drop_bit 33 h; h = h * 0xff51afd7ed558ccd; h = h XOR drop_bit 33 h;
          h = h * 0xc4ceb9fe1a85ec53; h = h XOR drop_bit 33 h
      in h)"

definition MurmurHash3_x64_64 :: "u64 \<Rightarrow> u64 \<Rightarrow> u32 \<Rightarrow> u64" where
  "MurmurHash3_x64_64 A B seed =
     (let h1 = ucast seed; h2 = ucast seed;
          c1 = 0x87c37b91114253d5; c2 = 0x4cf5ad432745937f;
          k1 = A * c1; k1 = rotl64 k1 31; k1 = k1 * c2; h1 = h1 XOR k1;
          h1 = rotl64 h1 27; h1 = h1 + h2; h1 = h1 * 5 + 0x52dce729;
          k2 = B * c2; k2 = rotl64 k2 33; k2 = k2 * c1; h2 = h2 XOR k2;
          h2 = rotl64 h2 31; h2 = h2 + h1; h2 = h2 * 5 + 0x38495ab5;
          h1 = h1 XOR 16; h2 = h2 XOR 16;
          h1 = h1 + h2; h2 = h2 + h1;
          h1 = murmur_fmix h1; h2 = murmur_fmix h2
      in h1 + h2)"

section \<open>CHHelpers\<close>

definition kDefaultChRingSize :: u32 where [simp]: "kDefaultChRingSize = 65537"

record Endpoint =
  ep_num :: u32
  ep_weight :: u32
  ep_hash :: u64

definition kHashSeed0 :: u32 where [simp]: "kHashSeed0 = 0"
definition kHashSeed1 :: u32 where [simp]: "kHashSeed1 = 2307"
definition kHashSeed2 :: u32 where [simp]: "kHashSeed2 = 42"
definition kHashSeed3 :: u32 where [simp]: "kHashSeed3 = 2718281828"

text \<open>\<open>permutation[2 * pos]\<close> and \<open>permutation[2 * pos + 1]\<close>.\<close>

definition genMaglevPermuation :: "Endpoint \<Rightarrow> u32 \<Rightarrow> u32 \<times> u32" where
  "genMaglevPermuation endpoint ring_size =
     (let offset_hash = MurmurHash3_x64_64 (ep_hash endpoint) (ucast kHashSeed2) kHashSeed0;
          offset = offset_hash mod ucast ring_size;
          skip_hash = MurmurHash3_x64_64 (ep_hash endpoint) (ucast kHashSeed3) kHashSeed1;
          skip = skip_hash mod ucast (ring_size - 1) + 1
      in (ucast offset, ucast skip))"

text \<open>One row of the working vectors: the endpoint, its permutation and its entry of \<open>next\<close>.\<close>

record maglev_row =
  row_num :: u32
  row_weight :: u32
  row_offset :: u32
  row_skip :: u32
  row_next :: u32

text \<open>The probe: \<open>cur\<close> runs through the permutation until it meets a free slot.\<close>

partial_function (option) find_slot :: "u32 \<Rightarrow> u32 \<Rightarrow> u32 \<Rightarrow> int list \<Rightarrow> u32 \<Rightarrow> (u32 \<times> u32) option" where
  "find_slot ring_size offset skip result nxt =
     (let cur = (offset + nxt * skip) mod ring_size in
      if result ! unat cur \<ge> 0 then find_slot ring_size offset skip result (nxt + 1)
      else Some (nxt, cur))"

text \<open>
  The loop over \<open>j\<close> for one endpoint: \<open>j\<close> is the number of turns left. The flag says that
  \<open>runs == ring_size\<close> was met and the whole function returns.
\<close>

fun take_turns ::
  "u32 \<Rightarrow> maglev_row \<Rightarrow> nat \<Rightarrow> int list \<Rightarrow> u32 \<Rightarrow> u32 \<Rightarrow> (bool \<times> int list \<times> u32 \<times> u32) option" where
  "take_turns ring_size row 0 result nxt runs = Some (False, result, nxt, runs)"
| "take_turns ring_size row (Suc j) result nxt runs = do {
     (nxt, cur) \<leftarrow> find_slot ring_size (row_offset row) (row_skip row) result nxt;
     let result = result[unat cur := sint (row_num row)];
     let nxt = nxt + 1;
     let runs = runs + 1;
     if runs = ring_size then Some (True, result, nxt, runs)
     else take_turns ring_size row j result nxt runs
   }"

text \<open>One pass over the endpoints; every endpoint ends it with weight 1.\<close>

fun maglev_round ::
  "u32 \<Rightarrow> maglev_row list \<Rightarrow> int list \<Rightarrow> u32 \<Rightarrow> (bool \<times> maglev_row list \<times> int list \<times> u32) option" where
  "maglev_round ring_size [] result runs = Some (False, [], result, runs)"
| "maglev_round ring_size (row # rows) result runs = do {
     (fin, result, nxt, runs) \<leftarrow> take_turns ring_size row (unat (row_weight row)) result (row_next row) runs;
     let row = row\<lparr>row_next := nxt, row_weight := 1\<rparr>;
     if fin then Some (True, row # rows, result, runs)
     else do {
       (fin, rows, result, runs) \<leftarrow> maglev_round ring_size rows result runs;
       Some (fin, row # rows, result, runs)
     }
   }"

partial_function (option) maglev_loop :: "u32 \<Rightarrow> maglev_row list \<Rightarrow> int list \<Rightarrow> u32 \<Rightarrow> int list option" where
  "maglev_loop ring_size rows result runs = do {
     (fin, rows, result, runs) \<leftarrow> maglev_round ring_size rows result runs;
     if fin then Some result else maglev_loop ring_size rows result runs
   }"

definition maglev_rows :: "Endpoint list \<Rightarrow> u32 \<Rightarrow> maglev_row list" where
  "maglev_rows endpoints ring_size =
     map (\<lambda>e. case genMaglevPermuation e ring_size of (offset, skip) \<Rightarrow>
       \<lparr>row_num = ep_num e, row_weight = ep_weight e, row_offset = offset, row_skip = skip, row_next = 0\<rparr>)
     endpoints"

definition GenerateMaglevHash :: "Endpoint list \<Rightarrow> u32 \<Rightarrow> int list option" where
  "GenerateMaglevHash endpoints ring_size =
     (let result = replicate (unat ring_size) (-1) in
      case endpoints of
        [] \<Rightarrow> Some result
      | [e] \<Rightarrow> Some (map (\<lambda>_. sint (ep_num e)) result)
      | _ \<Rightarrow> maglev_loop ring_size (maglev_rows endpoints ring_size) result 0)"

section \<open>The permutation\<close>

text \<open>A prime number, by its residues.\<close>

definition prime_ring :: "nat \<Rightarrow> bool" where
  "prime_ring n \<longleftrightarrow> 1 < n \<and> (\<forall>d. 0 < d \<and> d < n \<longrightarrow> coprime d n)"

text \<open>The \<open>k\<close>-th slot an endpoint prefers, without wrap-around.\<close>

definition slot :: "u32 \<Rightarrow> maglev_row \<Rightarrow> nat \<Rightarrow> nat" where
  "slot n row k = (unat (row_offset row) + k * unat (row_skip row)) mod unat n"

text \<open>A permutation inside the ring whose positions fit 32 bits.\<close>

definition row_ok :: "u32 \<Rightarrow> maglev_row \<Rightarrow> bool" where
  "row_ok n row \<longleftrightarrow> 0 < unat (row_skip row) \<and> unat (row_skip row) < unat n \<and>
     unat (row_offset row) + (unat n - 1) * unat (row_skip row) < 2 ^ 32 \<and> 0 \<le> sint (row_num row)"

lemma slot_less: "0 < unat n \<Longrightarrow> slot n row k < unat n"
  by (simp add: slot_def)

lemma slot_word:
  assumes ok: "row_ok n row" and k: "unat k < unat n"
  shows "unat ((row_offset row + k * row_skip row) mod n) = slot n row (unat k)"
proof -
  have "unat k * unat (row_skip row) \<le> (unat n - 1) * unat (row_skip row)"
    using k by (intro mult_right_mono) auto
  then have small: "unat (row_offset row) + unat k * unat (row_skip row) < 2 ^ 32"
    using ok unfolding row_ok_def by linarith
  then have m: "unat (k * row_skip row) = unat k * unat (row_skip row)"
    by (subst unat_mult_lem [THEN iffD1]) simp_all
  have "unat (row_offset row + k * row_skip row) = unat (row_offset row) + unat k * unat (row_skip row)"
    using small m by (subst unat_add_lem [THEN iffD1]) simp_all
  then show ?thesis by (simp add: slot_def unat_mod_distrib)
qed

lemma slot_inj:
  assumes prime: "prime_ring (unat n)" and ok: "row_ok n row"
  shows "inj_on (slot n row) {..<unat n}"
proof -
  let ?s = "unat (row_skip row)" and ?o = "unat (row_offset row)"
  have cop: "coprime ?s (unat n)" using prime ok by (simp add: prime_ring_def row_ok_def)
  have "i = j" if "i \<le> j" "j < unat n" "slot n row i = slot n row j" for i j
  proof -
    have "(?o + j * ?s) mod unat n = (?o + i * ?s) mod unat n" using that by (simp add: slot_def)
    moreover have "?o + i * ?s \<le> ?o + j * ?s" using that(1) by simp
    ultimately have "unat n dvd (?o + j * ?s) - (?o + i * ?s)" by (simp only: mod_eq_dvd_iff_nat)
    then have "unat n dvd (j - i) * ?s" by (simp add: diff_mult_distrib)
    then have dvd: "unat n dvd j - i"
      using cop by (simp add: coprime_dvd_mult_left_iff coprime_commute)
    have "j - i < unat n" using that(2) by (rule less_imp_diff_less)
    then have "\<not> 0 < j - i" using nat_dvd_not_less dvd by blast
    then show ?thesis using that(1) by simp
  qed
  then show ?thesis by (intro inj_onI) (metis lessThan_iff nat_le_linear)
qed

lemma slot_surj:
  assumes prime: "prime_ring (unat n)" and ok: "row_ok n row" and c: "c < unat n"
  shows "\<exists>k < unat n. slot n row k = c"
proof -
  have "slot n row ` {..<unat n} \<subseteq> {..<unat n}" using c by (auto intro: slot_less)
  then have "slot n row ` {..<unat n} = {..<unat n}"
    by (rule endo_inj_surj [OF finite_lessThan _ slot_inj [OF prime ok]])
  then show ?thesis using c by (metis imageE lessThan_iff)
qed

section \<open>The probe ends\<close>

lemma find_slot_ends:
  assumes ok: "row_ok n row" and k: "k < unat n" "result ! slot n row k < 0"
    and below: "unat nxt \<le> k" "\<forall>i < unat nxt. result ! slot n row i \<ge> 0"
  shows "\<exists>nxt' cur. find_slot n (row_offset row) (row_skip row) result nxt = Some (nxt', cur) \<and>
    unat nxt' < unat n \<and> unat cur = slot n row (unat nxt') \<and> result ! unat cur < 0 \<and>
    (\<forall>i < unat nxt'. result ! slot n row i \<ge> 0)"
  using below
proof (induction "k - unat nxt" arbitrary: nxt rule: less_induct)
  case less
  let ?cur = "(row_offset row + nxt * row_skip row) mod n"
  have cur: "unat ?cur = slot n row (unat nxt)" using slot_word [OF ok] less.prems(1) k(1) by simp
  show ?case
  proof (cases "result ! unat ?cur < 0")
    case True
    then show ?thesis using less.prems k(1) cur
      by (subst find_slot.simps) (auto simp: Let_def intro!: exI [of _ nxt])
  next
    case False
    then have lt: "unat nxt < k" using k(2) cur less.prems(1) by (metis le_neq_implies_less)
    then have "unat nxt + 1 < 2 ^ 32" using k(1) unsigned_less [of n, where ?'a = nat] by simp
    then have s: "unat (nxt + 1) = unat nxt + 1" by (simp add: unat_word_ariths)
    have "\<forall>i < unat (nxt + 1). result ! slot n row i \<ge> 0"
      using less.prems(2) False cur by (auto simp: s less_Suc_eq)
    with less.hyps [of "nxt + 1"] lt s show ?thesis
      using False by (subst find_slot.simps) (auto simp: Let_def)
  qed
qed

section \<open>Turns\<close>

definition filled :: "int list \<Rightarrow> nat" where
  "filled result = length (filter (\<lambda>x. 0 \<le> x) result)"

text \<open>A later result keeps every slot that was filled.\<close>

definition extends :: "int list \<Rightarrow> int list \<Rightarrow> bool" where
  "extends r r' \<longleftrightarrow> length r' = length r \<and> (\<forall>c < length r. 0 \<le> r ! c \<longrightarrow> r' ! c = r ! c)"

lemma extends_refl [simp]: "extends r r"
  by (simp add: extends_def)

lemma extends_trans: "extends r s \<Longrightarrow> extends s t \<Longrightarrow> extends r t"
  by (simp add: extends_def)

definition probed :: "u32 \<Rightarrow> int list \<Rightarrow> maglev_row \<Rightarrow> u32 \<Rightarrow> bool" where
  "probed n result row nxt \<longleftrightarrow> unat nxt \<le> unat n \<and> (\<forall>i < unat nxt. 0 \<le> result ! slot n row i)"

lemma probed_extends: "probed n r row nxt \<Longrightarrow> extends r r' \<Longrightarrow> length r = unat n \<Longrightarrow> 0 < unat n \<Longrightarrow> probed n r' row nxt"
  by (auto simp: probed_def extends_def slot_less)

lemma filled_update:
  assumes "c < length r" "r ! c < 0" "0 \<le> x"
  shows "filled (r[c := x]) = filled r + 1" "extends r (r[c := x])"
    "count_list (r[c := x]) x = count_list r x + 1" "y \<noteq> x \<Longrightarrow> 0 \<le> y \<Longrightarrow> count_list (r[c := x]) y = count_list r y"
    "set (r[c := x]) \<subseteq> insert x (set r)"
proof -
  have r: "r = take c r @ r ! c # drop (Suc c) r" and r': "r[c := x] = take c r @ x # drop (Suc c) r"
    using assms(1) by (simp_all add: id_take_nth_drop upd_conv_take_nth_drop)
  have f: "filled (xs @ z # ys) = filled xs + (if 0 \<le> z then 1 else 0) + filled ys" for xs ys z
    by (simp add: filled_def)
  show "filled (r[c := x]) = filled r + 1" using assms by (subst (2) r, subst r') (simp add: f)
  show "count_list (r[c := x]) x = count_list r x + 1" using assms by (subst (2) r, subst r') simp
  show "y \<noteq> x \<Longrightarrow> 0 \<le> y \<Longrightarrow> count_list (r[c := x]) y = count_list r y"
    using assms by (subst (2) r, subst r') simp
  show "extends r (r[c := x])" using assms(2) unfolding extends_def by (metis length_list_update linorder_not_less nth_list_update_neq)
  show "set (r[c := x]) \<subseteq> insert x (set r)" by (rule set_update_subset_insert)
qed

lemma free_slot:
  assumes "filled r < length r"
  shows "\<exists>c < length r. r ! c < 0"
proof (rule ccontr)
  assume "\<not> ?thesis"
  then have "\<forall>x \<in> set r. 0 \<le> x" by (metis in_set_conv_nth linorder_not_less)
  then have "filter (\<lambda>x. 0 \<le> x) r = r" by simp
  then show False using assms by (simp add: filled_def)
qed

text \<open>
  What \<open>j\<close> turns of one endpoint do: they end, they fill \<open>j\<close> more slots with its number (or all
  that are left, and then the function returns), and they touch nothing else.
\<close>

definition turns_done :: "u32 \<Rightarrow> maglev_row \<Rightarrow> nat \<Rightarrow> int list \<Rightarrow> u32 \<Rightarrow> bool \<Rightarrow> int list \<Rightarrow> u32 \<Rightarrow> u32 \<Rightarrow> bool" where
  "turns_done n row j result runs fin result' nxt' runs' \<longleftrightarrow>
     extends result result' \<and> filled result' = unat runs' \<and> unat runs' = min (unat runs + j) (unat n) \<and>
     (fin \<longleftrightarrow> unat n \<le> unat runs + j) \<and> probed n result' row nxt' \<and>
     count_list result' (sint (row_num row)) = count_list result (sint (row_num row)) + (unat runs' - unat runs) \<and>
     (\<forall>y. y \<noteq> sint (row_num row) \<longrightarrow> 0 \<le> y \<longrightarrow> count_list result' y = count_list result y) \<and>
     set result' \<subseteq> insert (sint (row_num row)) (set result)"

lemma take_turns_ends:
  assumes "prime_ring (unat n)" "row_ok n row" "length result = unat n"
    "filled result = unat runs" "unat runs < unat n" "probed n result row nxt"
  shows "\<exists>fin result' nxt' runs'. take_turns n row j result nxt runs = Some (fin, result', nxt', runs') \<and>
    turns_done n row j result runs fin result' nxt' runs'"
  using assms(3-)
proof (induction j arbitrary: result nxt runs)
  case 0
  then show ?case by (auto simp: turns_done_def)
next
  case (Suc j)
  obtain c where c: "c < unat n" "result ! c < 0" using free_slot [of result] Suc.prems by auto
  obtain k where k: "k < unat n" "slot n row k = c" using slot_surj [OF assms(1,2) c(1)] by blast
  have "unat nxt \<le> k" using Suc.prems(4) c(2) k(2) unfolding probed_def by (metis linorder_not_less)
  then obtain nxt1 cur where f: "find_slot n (row_offset row) (row_skip row) result nxt = Some (nxt1, cur)"
    and nxt1: "unat nxt1 < unat n" "unat cur = slot n row (unat nxt1)" "result ! unat cur < 0"
      "\<forall>i < unat nxt1. 0 \<le> result ! slot n row i"
    using find_slot_ends [OF assms(2) k(1)] k(2) c(2) Suc.prems(4) unfolding probed_def by blast
  have n0: "0 < unat n" using nxt1(1) by simp
  let ?x = "sint (row_num row)" and ?r = "result[unat cur := sint (row_num row)]"
  have cur: "unat cur < length result" using slot_less [OF n0] nxt1(2) Suc.prems(1) by simp
  have x: "0 \<le> ?x" using assms(2) by (simp add: row_ok_def)
  note upd = filled_update [OF cur nxt1(3) x]
  have big: "unat n < 2 ^ 32" using unsigned_less [of n, where ?'a = nat] by simp
  have r1: "unat (runs + 1) = unat runs + 1" and n1: "unat (nxt1 + 1) = unat nxt1 + 1"
    using Suc.prems(3) nxt1(1) big by (simp_all add: unat_word_ariths)
  have pr: "probed n ?r row (nxt1 + 1)"
    using nxt1 cur upd(2) x unfolding probed_def extends_def n1
    by (auto simp: less_Suc_eq slot_less [OF n0] Suc.prems(1))
  show ?case
  proof (cases "runs + 1 = n")
    case True
    then have "unat n = unat runs + 1" using r1 by simp
    then show ?thesis using True f upd pr Suc.prems r1
      by (auto simp: turns_done_def Let_def)
  next
    case False
    then have lt: "unat (runs + 1) < unat n" using r1 Suc.prems(3) by (metis Suc_eq_plus1 Suc_lessI word_unat_eq_iff)
    from Suc.IH [of ?r "runs + 1" "nxt1 + 1"] lt pr upd(1) r1 Suc.prems obtain fin r' nxt' runs' where
      t: "take_turns n row j ?r (nxt1 + 1) (runs + 1) = Some (fin, r', nxt', runs')"
      and d: "turns_done n row j ?r (runs + 1) fin r' nxt' runs'" by auto
    have "turns_done n row (Suc j) result runs fin r' nxt' runs'"
      using d upd extends_trans [OF upd(2)] Suc.prems(3) unfolding turns_done_def r1
      by auto
    then show ?thesis using f t False by (auto simp: Let_def)
  qed
qed

section \<open>Rounds\<close>

text \<open>How many of the slots that are left each endpoint of a round gets.\<close>

fun gains :: "nat \<Rightarrow> nat list \<Rightarrow> nat list" where
  "gains left [] = []"
| "gains left (w # ws) = min w left # gains (left - w) ws"

lemma length_gains [simp]: "length (gains left ws) = length ws"
  by (induction ws arbitrary: left) simp_all

definition rows_ok :: "u32 \<Rightarrow> int list \<Rightarrow> maglev_row list \<Rightarrow> bool" where
  "rows_ok n result rows \<longleftrightarrow> (\<forall>row \<in> set rows. row_ok n row \<and> probed n result row (row_next row)) \<and>
     distinct (map (\<lambda>row. sint (row_num row)) rows)"

definition row_nums :: "maglev_row list \<Rightarrow> int list" where
  "row_nums rows = map (\<lambda>row. sint (row_num row)) rows"

definition row_weights :: "maglev_row list \<Rightarrow> nat list" where
  "row_weights rows = map (\<lambda>row. unat (row_weight row)) rows"

text \<open>The same endpoints, all with weight 1.\<close>

definition round_done :: "u32 \<Rightarrow> maglev_row list \<Rightarrow> int list \<Rightarrow> u32 \<Rightarrow> bool \<Rightarrow> maglev_row list \<Rightarrow> int list \<Rightarrow> u32 \<Rightarrow> bool" where
  "round_done n rows result runs fin rows' result' runs' \<longleftrightarrow>
     extends result result' \<and> filled result' = unat runs' \<and>
     unat runs' = min (unat runs + sum_list (row_weights rows)) (unat n) \<and>
     (fin \<longleftrightarrow> unat n \<le> unat runs + sum_list (row_weights rows)) \<and>
     row_nums rows' = row_nums rows \<and>
     (\<not> fin \<longrightarrow> rows_ok n result' rows' \<and> row_weights rows' = replicate (length rows) 1) \<and>
     (\<forall>i < length rows. count_list result' (row_nums rows ! i) =
        count_list result (row_nums rows ! i) + gains (unat n - unat runs) (row_weights rows) ! i) \<and>
     (\<forall>y. y \<notin> set (row_nums rows) \<longrightarrow> 0 \<le> y \<longrightarrow> count_list result' y = count_list result y) \<and>
     set result' \<subseteq> set (row_nums rows) \<union> set result"

lemma rows_ok_extends:
  "rows_ok n r rows \<Longrightarrow> extends r r' \<Longrightarrow> length r = unat n \<Longrightarrow> 0 < unat n \<Longrightarrow> rows_ok n r' rows"
  by (auto simp: rows_ok_def intro: probed_extends)

lemma gains_0: "gains 0 ws = replicate (length ws) 0"
  by (induction ws) simp_all

lemma row_nums_nth:
  assumes "rows_ok n result (row # rows)" "i < length rows"
  shows "row_nums rows ! i \<noteq> sint (row_num row)" "0 \<le> row_nums rows ! i"
proof -
  have eq: "row_nums rows ! i = sint (row_num (rows ! i))" using assms(2) by (simp add: row_nums_def)
  have mem: "rows ! i \<in> set rows" using assms(2) by simp
  then have "sint (row_num (rows ! i)) \<in> (\<lambda>row. sint (row_num row)) ` set rows" by (rule imageI)
  then show "row_nums rows ! i \<noteq> sint (row_num row)" using assms(1) unfolding eq rows_ok_def by auto
  show "0 \<le> row_nums rows ! i" using assms(1) mem unfolding eq rows_ok_def row_ok_def by simp
qed

text \<open>The endpoint's turns take all that is left: the round stops there.\<close>

lemma round_done_stop:
  assumes ok: "rows_ok n result (row # rows)"
    and d: "turns_done n row (unat (row_weight row)) result runs True r1 nxt1 runs1"
  shows "round_done n (row # rows) result runs True (row\<lparr>row_next := nxt1, row_weight := 1\<rparr> # rows) r1 runs1"
proof -
  have le: "unat n \<le> unat runs + unat (row_weight row)" using d by (simp add: turns_done_def)
  then have "gains (unat n - unat runs) (row_weights (row # rows)) = (unat n - unat runs) # replicate (length rows) 0"
    by (simp add: row_weights_def gains_0)
  with le d row_nums_nth [OF ok] show ?thesis
    unfolding round_done_def turns_done_def
    by (auto simp: row_nums_def row_weights_def nth_Cons split: nat.split)
qed

text \<open>The endpoint's turns leave free slots: the other endpoints go on.\<close>

lemma round_counts_step:
  assumes ok: "rows_ok n result (row # rows)" and lt: "unat runs + unat (row_weight row) < unat n"
    and d: "turns_done n row (unat (row_weight row)) result runs False r1 nxt1 runs1"
    and d2: "round_done n rows r1 runs1 fin2 rows2 r2 runs2" and i: "i < length (row # rows)"
  shows "count_list r2 (row_nums (row # rows) ! i) =
    count_list result (row_nums (row # rows) ! i) + gains (unat n - unat runs) (row_weights (row # rows)) ! i"
proof -
  let ?x = "sint (row_num row)"
  have x: "?x \<notin> set (row_nums rows)" "0 \<le> ?x" using ok by (auto simp: rows_ok_def row_nums_def row_ok_def)
  have "unat runs1 = unat runs + unat (row_weight row)" using d lt by (simp add: turns_done_def)
  then have g: "gains (unat n - unat runs) (row_weights (row # rows)) =
      (unat runs1 - unat runs) # gains (unat n - unat runs1) (row_weights rows)"
    using lt by (simp add: row_weights_def)
  have c0: "count_list r2 ?x = count_list r1 ?x" using d2 x by (simp add: round_done_def)
  have c1: "count_list r1 ?x = count_list result ?x + (unat runs1 - unat runs)" using d by (simp add: turns_done_def)
  have cn: "count_list r1 y = count_list result y" if "y \<noteq> ?x" "0 \<le> y" for y using d that by (simp add: turns_done_def)
  show ?thesis
  proof (cases i)
    case 0
    then show ?thesis unfolding g using c0 c1 by (simp add: row_nums_def)
  next
    case (Suc k)
    then have k: "k < length rows" using i by simp
    have "count_list r2 (row_nums rows ! k) = count_list r1 (row_nums rows ! k) + gains (unat n - unat runs1) (row_weights rows) ! k"
      using d2 k by (simp add: round_done_def)
    then show ?thesis unfolding g using cn row_nums_nth [OF ok k] k Suc by (simp add: row_nums_def)
  qed
qed

lemma round_done_step:
  assumes ok: "rows_ok n result (row # rows)" and len: "length result = unat n"
    and d: "turns_done n row (unat (row_weight row)) result runs False r1 nxt1 runs1"
    and d2: "round_done n rows r1 runs1 fin2 rows2 r2 runs2"
  shows "round_done n (row # rows) result runs fin2 (row\<lparr>row_next := nxt1, row_weight := 1\<rparr> # rows2) r2 runs2"
    (is "round_done _ _ _ _ _ (?row # _) _ _")
  unfolding round_done_def
proof (intro conjI)
  have lt: "unat runs + unat (row_weight row) < unat n" using d by (simp add: turns_done_def not_le)
  then have runs1: "unat runs1 = unat runs + unat (row_weight row)" "unat runs1 < unat n" "0 < unat n"
    using d by (simp_all add: turns_done_def)
  have ext: "extends result r1" "extends r1 r2" using d d2 by (simp_all add: turns_done_def round_done_def)
  then show "extends result r2" by (rule extends_trans)
  have len1: "length r1 = unat n" using ext(1) len by (simp add: extends_def)
  show "filled r2 = unat runs2" using d2 by (simp add: round_done_def)
  show "unat runs2 = min (unat runs + sum_list (row_weights (row # rows))) (unat n)"
    "fin2 = (unat n \<le> unat runs + sum_list (row_weights (row # rows)))"
    using d2 runs1 by (simp_all add: round_done_def row_weights_def add.assoc)
  show "row_nums (?row # rows2) = row_nums (row # rows)" using d2 by (simp add: round_done_def row_nums_def)
  show "\<not> fin2 \<longrightarrow> rows_ok n r2 (?row # rows2) \<and> row_weights (?row # rows2) = replicate (length (row # rows)) 1"
  proof
    assume "\<not> fin2"
    then have r2: "rows_ok n r2 rows2" "row_weights rows2 = replicate (length rows) 1" "row_nums rows2 = row_nums rows"
      using d2 by (simp_all add: round_done_def)
    have "probed n r2 row nxt1" using probed_extends [OF _ ext(2) len1 runs1(3)] d by (simp add: turns_done_def)
    then have "row_ok n ?row" "probed n r2 ?row nxt1"
      using ok by (simp_all add: rows_ok_def row_ok_def probed_def slot_def)
    moreover have "sint (row_num row) \<notin> set (row_nums rows2)"
      using ok r2(3) by (auto simp: rows_ok_def row_nums_def)
    ultimately show "rows_ok n r2 (?row # rows2) \<and> row_weights (?row # rows2) = replicate (length (row # rows)) 1"
      using r2(1,2) by (simp add: rows_ok_def row_nums_def row_weights_def)
  qed
  show "\<forall>i < length (row # rows). count_list r2 (row_nums (row # rows) ! i) =
      count_list result (row_nums (row # rows) ! i) + gains (unat n - unat runs) (row_weights (row # rows)) ! i"
    using round_counts_step [OF ok lt d d2] by blast
  show "\<forall>y. y \<notin> set (row_nums (row # rows)) \<longrightarrow> 0 \<le> y \<longrightarrow> count_list r2 y = count_list result y"
    "set r2 \<subseteq> set (row_nums (row # rows)) \<union> set result"
    using d d2 by (auto simp: round_done_def turns_done_def row_nums_def)
qed

lemma maglev_round_ends:
  assumes "prime_ring (unat n)" "rows_ok n result rows" "length result = unat n"
    "filled result = unat runs" "unat runs < unat n"
  shows "\<exists>fin rows' result' runs'. maglev_round n rows result runs = Some (fin, rows', result', runs') \<and>
    round_done n rows result runs fin rows' result' runs'"
  using assms(2-)
proof (induction rows arbitrary: result runs)
  case Nil
  then show ?case by (auto simp: round_done_def row_nums_def row_weights_def)
next
  case (Cons row rows)
  let ?w = "unat (row_weight row)"
  have row: "row_ok n row" "probed n result row (row_next row)" and rows: "rows_ok n result rows"
    using Cons.prems(1) by (auto simp: rows_ok_def)
  obtain fin r1 nxt1 runs1 where t: "take_turns n row ?w result (row_next row) runs = Some (fin, r1, nxt1, runs1)"
    and d: "turns_done n row ?w result runs fin r1 nxt1 runs1"
    using take_turns_ends [OF assms(1) row(1) Cons.prems(2-4) row(2)] by blast
  show ?case
  proof (cases fin)
    case True
    with round_done_stop [OF Cons.prems(1)] d t show ?thesis by (auto simp: Let_def)
  next
    case False
    then have ext1: "extends result r1" and runs1: "unat runs1 < unat n" "filled r1 = unat runs1"
      using d by (simp_all add: turns_done_def)
    have "rows_ok n r1 rows" "length r1 = unat n"
      using rows_ok_extends [OF rows ext1 Cons.prems(2)] ext1 Cons.prems(2,4) by (simp_all add: extends_def)
    with Cons.IH [of r1 runs1] runs1 obtain fin2 rows2 r2 runs2 where
      m: "maglev_round n rows r1 runs1 = Some (fin2, rows2, r2, runs2)" and d2: "round_done n rows r1 runs1 fin2 rows2 r2 runs2"
      by blast
    have "round_done n (row # rows) result runs fin2 (row\<lparr>row_next := nxt1, row_weight := 1\<rparr> # rows2) r2 runs2"
      using round_done_step [OF Cons.prems(1,2) _ d2] d False by simp
    then show ?thesis using t False m by (auto simp: Let_def)
  qed
qed

section \<open>The whole ring\<close>

text \<open>The share of endpoint \<open>i\<close> of \<open>m\<close> when \<open>left\<close> slots are dealt one by one.\<close>

definition even_share :: "nat \<Rightarrow> nat \<Rightarrow> nat \<Rightarrow> nat" where
  "even_share left m i = left div m + (if i < left mod m then 1 else 0)"

lemma even_share_last: "left \<le> m \<Longrightarrow> i < m \<Longrightarrow> even_share left m i = (if i < left then 1 else 0)"
  by (cases "left = m") (auto simp: even_share_def)

lemma even_share_step: "m < left \<Longrightarrow> 0 < m \<Longrightarrow> even_share left m i = Suc (even_share (left - m) m i)"
  by (simp add: even_share_def le_div_geq le_mod_geq)

lemma gains_ones: "i < m \<Longrightarrow> gains left (replicate m (Suc 0)) ! i = (if i < left then 1 else 0)"
proof (induction m arbitrary: left i)
  case (Suc m)
  then show ?case by (cases i) auto
qed simp

lemma gains_enough: "sum_list ws \<le> left \<Longrightarrow> gains left ws = ws"
  by (induction ws arbitrary: left) simp_all

text \<open>What the outer loop delivers: a full ring.\<close>

definition ring_done :: "u32 \<Rightarrow> int list \<Rightarrow> int list \<Rightarrow> int list \<Rightarrow> (nat \<Rightarrow> nat) \<Rightarrow> bool" where
  "ring_done n nums result ring share \<longleftrightarrow>
     extends result ring \<and> filled ring = unat n \<and> set ring \<subseteq> set nums \<union> set result \<and>
     (\<forall>i < length nums. count_list ring (nums ! i) = count_list result (nums ! i) + share i)"

lemma ring_done_round:
  assumes "round_done n rows result runs False rows' result' runs'"
    and "ring_done n (row_nums rows') result' ring share"
  shows "ring_done n (row_nums rows) result ring
    (\<lambda>i. gains (unat n - unat runs) (row_weights rows) ! i + share i)"
  using assms extends_trans [of result result' ring] unfolding ring_done_def round_done_def
  by (auto simp: row_nums_def)

lemma ring_done_last:
  assumes "round_done n rows result runs True rows' result' runs'"
  shows "ring_done n (row_nums rows) result result' (\<lambda>i. gains (unat n - unat runs) (row_weights rows) ! i)"
  using assms unfolding ring_done_def round_done_def by (simp add: row_nums_def)

lemma ring_done_cong:
  "ring_done n nums result ring f \<Longrightarrow> (\<And>i. i < length nums \<Longrightarrow> f i = g i) \<Longrightarrow> ring_done n nums result ring g"
  by (simp add: ring_done_def)

lemma maglev_loop_ends:
  assumes prime: "prime_ring (unat n)" and m: "0 < length rows"
    and "rows_ok n result rows" "length result = unat n" "filled result = unat runs" "unat runs < unat n"
    and "row_weights rows = replicate (length rows) 1"
  shows "\<exists>ring. maglev_loop n rows result runs = Some ring \<and>
    ring_done n (row_nums rows) result ring (even_share (unat n - unat runs) (length rows))"
  using m assms(3-)
proof (induction "unat n - unat runs" arbitrary: rows result runs rule: less_induct)
  case less
  let ?left = "unat n - unat runs" and ?m = "length rows"
  obtain fin rows' result' runs' where r: "maglev_round n rows result runs = Some (fin, rows', result', runs')"
    and d: "round_done n rows result runs fin rows' result' runs'"
    using maglev_round_ends [OF prime less.prems(2-5)] by blast
  have w: "sum_list (row_weights rows) = ?m" using less.prems(6) by (simp add: sum_list_replicate)
  have len: "length rows' = ?m" "length result' = unat n"
    using d less.prems(3) by (auto simp: round_done_def row_nums_def extends_def dest: map_eq_imp_length_eq)
  have lnums: "length (row_nums rows) = ?m" by (simp add: row_nums_def)
  show ?case
  proof (cases fin)
    case True
    then have "?left \<le> ?m" using d w by (auto simp: round_done_def)
    then have "ring_done n (row_nums rows) result result' (even_share ?left ?m)"
      using d True by (intro ring_done_cong [OF ring_done_last [of n rows result runs rows' result' runs']])
        (simp_all add: less.prems(6) gains_ones even_share_last lnums)
    then show ?thesis using r True by (subst maglev_loop.simps) simp
  next
    case False
    then have runs': "unat runs' = unat runs + ?m" "unat runs' < unat n"
      and ok: "rows_ok n result' rows'" "row_weights rows' = replicate (length rows') 1" "filled result' = unat runs'"
      using d w len by (auto simp: round_done_def)
    have smaller: "unat n - unat runs' < ?left" using runs' less.prems(1) by linarith
    obtain ring where ring: "maglev_loop n rows' result' runs' = Some ring"
      "ring_done n (row_nums rows') result' ring (even_share (unat n - unat runs') (length rows'))"
      using less.hyps [of runs' rows' result', OF smaller] runs' ok len less.prems(1) by auto
    have "?m < ?left" "unat n - unat runs' = ?left - ?m" using runs' by simp_all
    then have "ring_done n (row_nums rows) result ring (even_share ?left ?m)"
      using d False less.prems(1) by (intro ring_done_cong [OF ring_done_round [of n rows result runs, OF _ ring(2)]])
        (simp_all add: less_trans [of _ ?m ?left] less.prems(6) gains_ones even_share_step lnums len)
    then show ?thesis using r False ring(1) by (subst maglev_loop.simps) simp
  qed
qed

text \<open>The share of an endpoint: its turns of the first round, then an even deal of what is left.\<close>

definition ring_share :: "nat \<Rightarrow> nat list \<Rightarrow> nat \<Rightarrow> nat" where
  "ring_share n ws i = gains n ws ! i + even_share (n - sum_list ws) (length ws) i"

lemma maglev_loop_first:
  assumes prime: "prime_ring (unat n)" and m: "0 < length rows" and ok: "rows_ok n result rows"
    and result: "result = replicate (unat n) (-1)"
  shows "\<exists>ring. maglev_loop n rows result 0 = Some ring \<and>
    ring_done n (row_nums rows) result ring (ring_share (unat n) (row_weights rows))"
proof -
  have n: "0 < unat n" using prime by (simp add: prime_ring_def)
  have len: "length result = unat n" "filled result = unat (0::u32)" using result by (simp_all add: filled_def)
  obtain fin rows' result' runs' where r: "maglev_round n rows result 0 = Some (fin, rows', result', runs')"
    and d: "round_done n rows result 0 fin rows' result' runs'"
    using maglev_round_ends [OF prime ok len] n by auto
  have len': "length rows' = length rows" "length result' = unat n"
    using d len(1) by (auto simp: round_done_def row_nums_def extends_def dest: map_eq_imp_length_eq)
  have l [simp]: "length (row_nums rows) = length rows" "length (row_weights rows) = length rows"
    by (simp_all add: row_nums_def row_weights_def)
  show ?thesis
  proof (cases fin)
    case True
    then have "unat n - sum_list (row_weights rows) = 0" using d by (simp add: round_done_def)
    then have "ring_done n (row_nums rows) result result' (ring_share (unat n) (row_weights rows))"
      using d True by (intro ring_done_cong [OF ring_done_last [of n rows result 0 rows' result' runs']])
        (simp_all add: ring_share_def even_share_def)
    then show ?thesis using r True by (subst maglev_loop.simps) simp
  next
    case False
    then have runs': "unat runs' = sum_list (row_weights rows)" "unat runs' < unat n"
      and ok': "rows_ok n result' rows'" "row_weights rows' = replicate (length rows') 1" "filled result' = unat runs'"
      using d len' by (auto simp: round_done_def)
    obtain ring where ring: "maglev_loop n rows' result' runs' = Some ring"
      "ring_done n (row_nums rows') result' ring (even_share (unat n - unat runs') (length rows'))"
      using maglev_loop_ends [OF prime _ ok'(1) len'(2) ok'(3) runs'(2) ok'(2)] m len' by auto
    then have "ring_done n (row_nums rows) result ring (ring_share (unat n) (row_weights rows))"
      using d False by (intro ring_done_cong [OF ring_done_round [of n rows result 0, OF _ ring(2)]])
        (simp_all add: ring_share_def runs' len')
    then show ?thesis using r False ring(1) by (subst maglev_loop.simps) simp
  qed
qed

text \<open>The positions of the endpoint's permutation fit \<open>uint32_t\<close>.\<close>

definition fits32 :: "u32 \<Rightarrow> Endpoint \<Rightarrow> bool" where
  "fits32 n e \<longleftrightarrow> (case genMaglevPermuation e n of (offset, skip) \<Rightarrow>
     unat offset + (unat n - 1) * unat skip < 2 ^ 32)"

lemma genMaglevPermuation_range:
  assumes "1 < unat n" "genMaglevPermuation e n = (offset, skip)"
  shows "unat offset < unat n" "0 < unat skip" "unat skip < unat n"
proof -
  let ?o = "MurmurHash3_x64_64 (ep_hash e) (ucast kHashSeed2) kHashSeed0 mod ucast n"
    and ?s = "MurmurHash3_x64_64 (ep_hash e) (ucast kHashSeed3) kHashSeed1 mod ucast (n - 1)"
  have big: "unat n < 2 ^ 32" using unsigned_less [of n, where ?'a = nat] by simp
  have n1: "unat (n - 1) = unat n - 1" using assms(1) by (metis not_less_zero unat_0 unat_minus_one)
  have up: "unat (ucast x :: u64) = unat x" for x :: u32
    using unsigned_less [of x, where ?'a = nat] by (simp add: unsigned_ucast_eq take_bit_nat_eq_self)
  have o1: "unat ?o < unat n" using assms(1) by (simp add: unat_mod_distrib up)
  have s1: "unat ?s < unat n - 1" using assms(1) n1 by (simp add: unat_mod_distrib up)
  then have s2: "unat (?s + 1) = unat ?s + 1" using big by (simp add: unat_word_ariths)
  have "offset = ucast ?o" "skip = ucast (?s + 1)" using assms(2) by (simp_all add: genMaglevPermuation_def Let_def)
  then have "unat offset = unat ?o" "unat skip = unat ?s + 1"
    using o1 s1 big s2 by (simp_all only: unsigned_ucast_eq take_bit_nat_eq_self) (auto simp: take_bit_nat_eq_self)
  then show "unat offset < unat n" "0 < unat skip" "unat skip < unat n" using o1 s1 by simp_all
qed

text \<open>Up to 65536 slots nothing overflows.\<close>

lemma fits32_small:
  assumes "1 < unat n" "unat n \<le> 65536"
  shows "fits32 n e"
proof -
  obtain offset skip where p: "genMaglevPermuation e n = (offset, skip)" by force
  note r = genMaglevPermuation_range [OF assms(1) p]
  have "(unat n - 1) * unat skip \<le> 65535 * 65535" using r assms by (intro mult_le_mono) auto
  moreover have "unat offset \<le> 65535" using r assms by linarith
  ultimately show ?thesis by (simp add: fits32_def p)
qed

lemma sint_ep_num:
  assumes "unat (ep_num e) < 2 ^ 31"
  shows "sint (ep_num e) = uint (ep_num e)"
proof -
  have "unat (ep_num e) < 2147483648" using assms by simp
  moreover have "int (unat (ep_num e)) = uint (ep_num e)" by simp
  ultimately have "uint (ep_num e) < 2147483648" by linarith
  moreover have "- (2 ^ 31) \<le> uint (ep_num e)" by (rule order_trans [OF _ unsigned_greater_eq]) simp
  ultimately show ?thesis by (simp add: sint_uint signed_take_bit_int_eq_self)
qed

lemma maglev_rows_ok:
  assumes n: "1 < unat n" and fit: "\<forall>e \<in> set es. fits32 n e \<and> unat (ep_num e) < 2 ^ 31"
    and dist: "distinct (map ep_num es)"
  shows "rows_ok n result (maglev_rows es n)"
    "row_nums (maglev_rows es n) = map (\<lambda>e. uint (ep_num e)) es"
    "row_weights (maglev_rows es n) = map (\<lambda>e. unat (ep_weight e)) es"
proof -
  have sint: "sint (ep_num e) = uint (ep_num e)" if "e \<in> set es" for e
    using sint_ep_num [of e] fit that by simp
  show nums: "row_nums (maglev_rows es n) = map (\<lambda>e. uint (ep_num e)) es"
    using sint by (simp add: row_nums_def maglev_rows_def split: prod.split)
  show "row_weights (maglev_rows es n) = map (\<lambda>e. unat (ep_weight e)) es"
    by (simp add: row_weights_def maglev_rows_def split_def)
  have "row_ok n row \<and> probed n result row (row_next row)" if "row \<in> set (maglev_rows es n)" for row
    using that fit genMaglevPermuation_range [OF n] sint
    by (auto simp: maglev_rows_def row_ok_def probed_def fits32_def split: prod.splits)
  moreover have "distinct (map (\<lambda>e. uint (ep_num e)) es)"
    using dist by (simp add: distinct_map inj_on_def word_uint_eq_iff)
  ultimately show "rows_ok n result (maglev_rows es n)"
    using nums by (simp add: rows_ok_def row_nums_def)
qed

lemma sum_list_gains: "sum_list (gains left ws) = min left (sum_list ws)"
  by (induction ws arbitrary: left) auto

text \<open>A ring size with no divisor up to its square root is prime.\<close>

lemma prime_ring_trial:
  assumes n: "1 < n" and trial: "\<forall>d \<in> {2..s}. \<not> d dvd n" and s: "n < (s + 1) * (s + 1)"
  shows "prime_ring n"
  unfolding prime_ring_def
proof (intro conjI allI impI n)
  fix d assume d: "0 < d \<and> d < n"
  show "coprime d n"
  proof (rule ccontr)
    assume nc: "\<not> coprime d n"
    let ?g = "gcd d n"
    have "?g \<noteq> 1" using nc by (metis coprime_iff_gcd_eq_1)
    moreover have "?g \<noteq> 0" "?g \<le> d" using d by (simp_all add: dvd_imp_le)
    ultimately have g: "2 \<le> ?g" "?g < n" using d by linarith+
    obtain h where h: "n = ?g * h" by (metis dvdE gcd_dvd2)
    then have h2: "2 \<le> h" using g n by (cases h; cases "h - 1") auto
    have "s < ?g" using trial g(1) by (metis atLeastAtMost_iff gcd_dvd2 linorder_not_less)
    moreover have "s < h" using trial h2 h by (metis atLeastAtMost_iff dvd_triv_right linorder_not_less)
    ultimately have "(s + 1) * (s + 1) \<le> ?g * h" by (intro mult_le_mono) simp_all
    then show False using s h by simp
  qed
qed

lemma kDefaultChRingSize_prime: "prime_ring (unat kDefaultChRingSize)"
proof -
  have "list_all (\<lambda>d. 65537 mod d \<noteq> (0::int)) [2..256]" by code_simp
  then have trial: "\<not> d dvd 65537" if "2 \<le> d" "d \<le> 256" for d :: int
    using that unfolding list_all_iff set_upto by (metis atLeastAtMost_iff dvd_imp_mod_0)
  have "\<not> d dvd 65537" if "d \<in> {2..256}" for d :: nat
    using trial [of "int d"] that by (metis atLeastAtMost_iff int_dvd_int_iff of_nat_le_iff of_nat_numeral)
  then show ?thesis by (intro prime_ring_trial [where s = 256]) simp_all
qed

lemma ring_share_single: "ring_share n [w] 0 = n"
  by (simp add: ring_share_def even_share_def)

lemma filled_all: "filled r = length r \<Longrightarrow> x \<in> set r \<Longrightarrow> 0 \<le> x"
  unfolding filled_def by (metis length_filter_less nat_less_le)


definition ring_inputs :: "u32 \<Rightarrow> Endpoint list \<Rightarrow> bool" where
  "ring_inputs n es \<longleftrightarrow> prime_ring (unat n) \<and> es \<noteq> [] \<and> distinct (map ep_num es) \<and>
     (\<forall>e \<in> set es. fits32 n e \<and> unat (ep_num e) < 2 ^ 31)"

lemma GenerateMaglevHash_ends:
  assumes "ring_inputs n es"
  shows "\<exists>ring. GenerateMaglevHash es n = Some ring \<and> length ring = unat n \<and>
    set ring \<subseteq> set (map (\<lambda>e. uint (ep_num e)) es) \<and>
    (\<forall>i < length es. count_list ring (uint (ep_num (es ! i))) =
      ring_share (unat n) (map (\<lambda>e. unat (ep_weight e)) es) i)"
proof -
  let ?empty = "replicate (unat n) (-1) :: int list" and ?nums = "map (\<lambda>e. uint (ep_num e)) es"
  note in_ok = assms [unfolded ring_inputs_def]
  consider e where "es = [e]" | e f rest where "es = e # f # rest" using in_ok by (metis list.exhaust)
  then show ?thesis
  proof cases
    case 1
    then have "GenerateMaglevHash es n = Some (replicate (unat n) (uint (ep_num e)))"
      using in_ok sint_ep_num [of e] by (simp add: GenerateMaglevHash_def map_replicate_const)
    then show ?thesis using 1 by (auto simp: ring_share_single count_list_eq_length_filter)
  next
    case 2
    then have g: "GenerateMaglevHash es n = maglev_loop n (maglev_rows es n) ?empty 0"
      by (simp add: GenerateMaglevHash_def)
    have n: "1 < unat n" using in_ok by (simp add: prime_ring_def)
    note rows = maglev_rows_ok [OF n, of es]
    have "0 < length (maglev_rows es n)" using in_ok by (simp add: maglev_rows_def)
    with maglev_loop_first [of n "maglev_rows es n" ?empty] rows in_ok obtain ring where
      ring: "maglev_loop n (maglev_rows es n) ?empty 0 = Some ring"
        "ring_done n ?nums ?empty ring (ring_share (unat n) (map (\<lambda>e. unat (ep_weight e)) es))"
      by auto
    have len: "length ring = unat n" and full: "filled ring = unat n" and
      sub: "set ring \<subseteq> set ?nums \<union> set ?empty"
      using ring(2) by (simp_all only: ring_done_def extends_def length_replicate)
    have "-1 \<notin> set ring" using filled_all [of ring "-1"] len full by auto
    then have "set ring \<subseteq> set ?nums" using sub by auto
    moreover have "count_list ?empty (uint k) = 0" for k :: u32
    proof -
      have "0 \<le> uint k" by simp
      then have "uint k \<noteq> -1" by linarith
      then show ?thesis by (simp add: count_list_0_iff)
    qed
    ultimately show ?thesis using g ring len unfolding ring_done_def by simp
  qed
qed

text \<open>C7. On a prime ring (the default size 65537 is one) whose permutations do not overflow
  \<open>uint32_t\<close>, \<open>GenerateMaglevHash\<close> returns, whatever the weights and hashes are, a ring with no
  hole: every slot carries the number of one of the endpoints.\<close>

theorem maglev_ring_is_full:
  assumes "prime_ring (unat n)" "es \<noteq> []" "distinct (map ep_num es)"
    and "\<forall>e \<in> set es. fits32 n e \<and> unat (ep_num e) < 2 ^ 31"
  shows "\<exists>ring. GenerateMaglevHash es n = Some ring \<and> length ring = unat n \<and>
    (\<forall>c < unat n. \<exists>e \<in> set es. ring ! c = uint (ep_num e))"
proof -
  have "ring_inputs n es" using assms by (simp add: ring_inputs_def)
  then obtain ring where "GenerateMaglevHash es n = Some ring" "length ring = unat n"
    "set ring \<subseteq> set (map (\<lambda>e. uint (ep_num e)) es)"
    using GenerateMaglevHash_ends by blast
  then show ?thesis by (metis (no_types, lifting) imageE in_mono list.set_map nth_mem)
qed

text \<open>C8. The slots of each endpoint are exact: its weight counts once, in the first round, and the
  slots that are then left are dealt out evenly, one by one. A weight is a head start, not
  the frequency of the endpoint on the ring.\<close>

theorem maglev_slots_exact:
  assumes "prime_ring (unat n)" "es \<noteq> []" "distinct (map ep_num es)"
    and "\<forall>e \<in> set es. fits32 n e \<and> unat (ep_num e) < 2 ^ 31"
    and "W = (\<Sum>e\<leftarrow>es. unat (ep_weight e))" "W \<le> unat n" "i < length es"
  shows "\<exists>ring. GenerateMaglevHash es n = Some ring \<and>
    count_list ring (uint (ep_num (es ! i))) = unat (ep_weight (es ! i)) +
      (unat n - W) div length es + (if i < (unat n - W) mod length es then 1 else 0)"
proof -
  let ?ws = "map (\<lambda>e. unat (ep_weight e)) es"
  have "ring_inputs n es" using assms by (simp add: ring_inputs_def)
  then obtain ring where "GenerateMaglevHash es n = Some ring"
    "count_list ring (uint (ep_num (es ! i))) = ring_share (unat n) ?ws i"
    using GenerateMaglevHash_ends assms(7) by blast
  moreover have "gains (unat n) ?ws = ?ws" using assms(5,6) by (intro gains_enough) simp
  ultimately show ?thesis using assms(5,7) by (simp add: ring_share_def even_share_def)
qed

lemma never_next_slot:
  fixes j q r x :: nat
  assumes q: "x + j * 65536 = 65537 * q + r" and j: "j < 65536"
  shows "r \<noteq> x + 1"
proof
  assume "r = x + 1"
  then have eq: "int j * 65536 = 65537 * int q + 1" using q by linarith
  define d where "d = int j - int q"
  have e: "65536 * d = int q + 1" using eq unfolding d_def right_diff_distrib by linarith
  then have "1 \<le> d" by linarith
  moreover have "int j = int q + d" by (simp add: d_def)
  ultimately show False using e j by linarith
qed

lemma overflowing_positions:
  fixes nxt :: u32
  assumes off: "unat offset < 65536"
  shows "unat ((offset + nxt * 65536) mod 65537) < 65537" "unat ((offset + nxt * 65536) mod 65537) \<noteq> unat offset + 1"
proof -
  define j where "j = unat nxt mod 65536"
  have j: "j < 65536" by (simp add: j_def)
  have "unat nxt * 65536 mod (65536 * 65536) = j * 65536" by (simp only: j_def mult_mod_left)
  then have "unat (nxt * 65536) = j * 65536" by (simp add: unat_word_ariths)
  then have "unat (offset + nxt * 65536) = unat offset + j * 65536"
    using j off by (subst unat_add_lem [THEN iffD1]) simp_all
  then have u: "unat ((offset + nxt * 65536) mod 65537) = (unat offset + j * 65536) mod 65537"
    by (simp add: unat_mod_distrib)
  then show "unat ((offset + nxt * 65536) mod 65537) < 65537" by simp
  have "unat offset + j * 65536 = 65537 * ((unat offset + j * 65536) div 65537) + (unat offset + j * 65536) mod 65537"
    by (simp only: mult_div_mod_eq)
  then show "unat ((offset + nxt * 65536) mod 65537) \<noteq> unat offset + 1"
    unfolding u by (rule never_next_slot) (rule j)
qed

text \<open>C26. The bound on the permutation is needed. An endpoint of the default ring whose skip is
  65536 multiplies modulo 2^32 and so never visits the slot after its offset: when that is the
  only free slot left, the probe of \<open>GenerateMaglevHash\<close> runs forever.\<close>

theorem probe_may_not_end:
  assumes "unat offset < 65536" "\<forall>c < 65537. c \<noteq> unat offset + 1 \<longrightarrow> 0 \<le> result ! c"
  shows "find_slot kDefaultChRingSize offset 65536 result nxt = None"
proof -
  let ?P = "\<lambda>n off skip r (nxt :: u32) (y :: u32 \<times> u32). \<not> (n = 65537 \<and> off = offset \<and> skip = 65536 \<and> r = result)"
  have "?P n off skip r nxt y" if "find_slot n off skip r nxt = Some y" for n off skip r nxt y
    using that
  proof (rule find_slot.raw_induct [where P = ?P, rotated])
    fix f :: "u32 \<Rightarrow> u32 \<Rightarrow> u32 \<Rightarrow> int list \<Rightarrow> u32 \<Rightarrow> (u32 \<times> u32) option" and n off skip r nxt y
    assume IH: "\<And>n off skip r nxt y. f n off skip r nxt = Some y \<Longrightarrow> ?P n off skip r nxt y"
      and step: "(let cur = (off + nxt * skip) mod n in if 0 \<le> r ! unat cur then f n off skip r (nxt + 1)
        else Some (nxt, cur)) = Some y"
    show "?P n off skip r nxt y"
    proof
      assume eq: "n = 65537 \<and> off = offset \<and> skip = 65536 \<and> r = result"
      then have "0 \<le> r ! unat ((off + nxt * skip) mod n)"
        using assms overflowing_positions [of offset nxt] by auto
      then show False using IH [of n off skip r "nxt + 1" y] step eq by (simp add: Let_def)
    qed
  qed
  then show ?thesis by (metis kDefaultChRingSize_def not_None_eq)
qed

section \<open>Every ring that is returned is full\<close>

text \<open>
  Whenever the computation of a ring returns, for any size and any permutation, every slot has the
  number of an endpoint.
\<close>

lemma find_slot_free:
  "find_slot n offset skip result nxt = Some (nxt', cur) \<Longrightarrow> n \<noteq> 0 \<Longrightarrow> cur < n \<and> result ! unat cur < 0"
proof -
  let ?P = "\<lambda>n (offset :: u32) (skip :: u32) result (nxt :: u32) y. n \<noteq> 0 \<longrightarrow> snd y < n \<and> result ! unat (snd y) < (0 :: int)"
  have "?P n offset skip result nxt y" if "find_slot n offset skip result nxt = Some y" for n offset skip result nxt y
    using that
  proof (rule find_slot.raw_induct [where P = ?P, rotated])
    fix f :: "u32 \<Rightarrow> u32 \<Rightarrow> u32 \<Rightarrow> int list \<Rightarrow> u32 \<Rightarrow> (u32 \<times> u32) option" and n off skip r nxt y
    assume IH: "\<And>n off skip r nxt y. f n off skip r nxt = Some y \<Longrightarrow> ?P n off skip r nxt y"
      and step: "(let cur = (off + nxt * skip) mod n in if 0 \<le> r ! unat cur then f n off skip r (nxt + 1)
        else Some (nxt, cur)) = Some y"
    have "n \<noteq> 0 \<Longrightarrow> x mod n < n" for x by (simp add: word_less_nat_alt unat_mod unat_gt_0)
    then show "?P n off skip r nxt y"
      using IH [of n off skip r "nxt + 1" y] step by (auto simp: Let_def split: if_splits)
  qed
  then show "find_slot n offset skip result nxt = Some (nxt', cur) \<Longrightarrow> n \<noteq> 0 \<Longrightarrow> ?thesis" by fastforce
qed

definition filling :: "u32 \<Rightarrow> int set \<Rightarrow> int list \<Rightarrow> u32 \<Rightarrow> bool" where
  "filling n nums result runs \<longleftrightarrow> length result = unat n \<and> filled result = unat runs \<and> set result \<subseteq> insert (-1) nums"

lemma take_turns_fills:
  assumes "take_turns n row j result nxt runs = Some (fin, result', nxt', runs')" "n \<noteq> 0"
    and "filling n nums result runs" "sint (row_num row) \<in> nums" "0 \<le> sint (row_num row)"
  shows "filling n nums result' runs' \<and> (fin \<longrightarrow> runs' = n)"
  using assms(1,3)
proof (induction j arbitrary: result nxt runs)
  case (Suc j)
  let ?x = "sint (row_num row)"
  obtain nxt1 cur where f: "find_slot n (row_offset row) (row_skip row) result nxt = Some (nxt1, cur)"
    using Suc.prems(1) by (auto simp: bind_eq_Some_conv)
  note free = find_slot_free [OF f assms(2)]
  let ?r = "result[unat cur := ?x]"
  have c: "unat cur < length result" using free Suc.prems(2) by (simp add: filling_def word_less_nat_alt)
  have u: "filled ?r = filled result + 1" using filled_update(1) [OF c] free assms(5) by simp
  have "filled ?r \<le> length ?r" unfolding filled_def by (rule length_filter_le)
  then have "unat (runs + 1) = unat runs + 1"
    using u Suc.prems(2) unsigned_less [of n, where ?'a = nat] by (simp add: filling_def unat_word_ariths)
  then have fill: "filling n nums ?r (runs + 1)"
    using Suc.prems(2) u assms(4) set_update_subset_insert [of result "unat cur" ?x] by (auto simp: filling_def)
  show ?case
    using Suc.IH [of ?r "nxt1 + 1" "runs + 1"] Suc.prems(1) fill by (auto simp: f Let_def split: if_splits)
qed simp

lemma maglev_round_fills:
  assumes "maglev_round n rows result runs = Some (fin, rows', result', runs')" "n \<noteq> 0" "filling n nums result runs"
    and "\<forall>row \<in> set rows. sint (row_num row) \<in> nums \<and> 0 \<le> sint (row_num row)"
  shows "filling n nums result' runs' \<and> (fin \<longrightarrow> runs' = n) \<and>
    (\<forall>row \<in> set rows'. sint (row_num row) \<in> nums \<and> 0 \<le> sint (row_num row))"
  using assms(1,3,4)
proof (induction rows arbitrary: rows' result runs)
  case (Cons row rows)
  obtain fin1 r1 nxt1 runs1 where
    t: "take_turns n row (unat (row_weight row)) result (row_next row) runs = Some (fin1, r1, nxt1, runs1)"
    using Cons.prems(1) by (auto simp: bind_eq_Some_conv)
  have fill: "filling n nums r1 runs1 \<and> (fin1 \<longrightarrow> runs1 = n)"
    using take_turns_fills [OF t assms(2) Cons.prems(2)] Cons.prems(3) by simp
  show ?case
  proof (cases fin1)
    case True
    then show ?thesis using Cons.prems(1,3) t fill by auto
  next
    case False
    then obtain rows1 where m: "maglev_round n rows r1 runs1 = Some (fin, rows1, result', runs')"
      and rows': "rows' = row\<lparr>row_next := nxt1, row_weight := 1\<rparr> # rows1"
      using Cons.prems(1) t by (auto simp: bind_eq_Some_conv)
    show ?thesis using Cons.IH [OF m] fill Cons.prems(3) rows' by simp
  qed
qed simp

lemma maglev_loop_fills:
  assumes "maglev_loop n rows result runs = Some ring" "n \<noteq> 0" "filling n nums result runs"
    and "\<forall>row \<in> set rows. sint (row_num row) \<in> nums \<and> 0 \<le> sint (row_num row)"
  shows "set ring \<subseteq> nums"
proof -
  let ?ok = "\<lambda>rows. \<forall>row \<in> set rows. sint (row_num row) \<in> nums \<and> 0 \<le> sint (row_num row)"
  let ?P = "\<lambda>n rows result runs ring. n \<noteq> 0 \<longrightarrow> filling n nums result runs \<longrightarrow> ?ok rows \<longrightarrow> set ring \<subseteq> nums"
  have "?P n rows result runs ring"
    using assms(1)
  proof (rule maglev_loop.raw_induct [where P = ?P, rotated])
    fix f :: "u32 \<Rightarrow> maglev_row list \<Rightarrow> int list \<Rightarrow> u32 \<Rightarrow> int list option" and n rows result runs ring
    assume IH: "\<And>n rows result runs ring. f n rows result runs = Some ring \<Longrightarrow> ?P n rows result runs ring"
      and step: "do { (fin, rows, result, runs) \<leftarrow> maglev_round n rows result runs;
        if fin then Some result else f n rows result runs } = Some ring"
    obtain fin rows1 r1 runs1 where m: "maglev_round n rows result runs = Some (fin, rows1, r1, runs1)"
      using step by (auto simp: bind_eq_Some_conv)
    show "?P n rows result runs ring"
    proof (intro impI)
      assume a: "n \<noteq> 0" "filling n nums result runs" "?ok rows"
      note fills = maglev_round_fills [OF m a]
      show "set ring \<subseteq> nums"
      proof (cases fin)
        case True
        then have "ring = r1" "filled r1 = length r1" "set r1 \<subseteq> insert (-1) nums" using step m fills by (auto simp: filling_def)
        then show ?thesis using filled_all [of r1 "-1"] by auto
      next
        case False
        then show ?thesis using step m IH [of n rows1 r1 runs1 ring] fills a(1) by simp
      qed
    qed
  qed
  then show ?thesis using assms by blast
qed

lemma GenerateMaglevHash_full:
  assumes g: "GenerateMaglevHash es n = Some ring" and es: "es \<noteq> []" "\<forall>e \<in> set es. unat (ep_num e) < 2 ^ 31" and n: "n \<noteq> 0"
  shows "set ring \<subseteq> (\<lambda>e. uint (ep_num e)) ` set es"
proof (cases "\<exists>e. es = [e]")
  case True
  then show ?thesis using g es sint_ep_num by (auto simp: GenerateMaglevHash_def)
next
  case False
  let ?nums = "(\<lambda>e. uint (ep_num e)) ` set es"
  have loop: "maglev_loop n (maglev_rows es n) (replicate (unat n) (-1)) 0 = Some ring"
    using g False es(1) by (auto simp: GenerateMaglevHash_def Let_def split: list.splits)
  have rows: "sint (row_num row) \<in> ?nums \<and> 0 \<le> sint (row_num row)" if "row \<in> set (maglev_rows es n)" for row
    using that es(2) sint_ep_num by (fastforce simp: maglev_rows_def split: prod.splits)
  have "filling n ?nums (replicate (unat n) (-1)) 0" by (auto simp: filling_def filled_def)
  then show ?thesis using maglev_loop_fills [OF loop n] rows by blast
qed

section \<open>Witnesses\<close>

definition ex_endpoints :: "Endpoint list" where
  "ex_endpoints = [\<lparr>ep_num = 1, ep_weight = 2, ep_hash = 10\<rparr>, \<lparr>ep_num = 4, ep_weight = 1, ep_hash = 20\<rparr>,
     \<lparr>ep_num = 6, ep_weight = 0, ep_hash = 31\<rparr>]"

lemma ex_prime: "prime_ring (unat (7 :: u32))"
proof -
  have "{2..2} = {2 :: nat}" by auto
  then show ?thesis by (intro prime_ring_trial [where s = 2]) auto
qed

lemma ex_fits: "\<forall>e \<in> set ex_endpoints. fits32 7 e \<and> unat (ep_num e) < 2 ^ 31"
  by (simp add: ex_endpoints_def fits32_small)

lemma ex_distinct: "distinct (map ep_num ex_endpoints)" "ex_endpoints \<noteq> []"
  by (simp_all add: ex_endpoints_def)

theorem maglev_ring_is_full_witness:
  "\<exists>ring. GenerateMaglevHash ex_endpoints 7 = Some ring \<and> length ring = 7 \<and>
    (\<forall>c < 7. \<exists>e \<in> set ex_endpoints. ring ! c = uint (ep_num e))"
  using maglev_ring_is_full [OF ex_prime ex_distinct(2,1) ex_fits] by simp

theorem maglev_slots_exact_witness:
  "\<exists>ring. GenerateMaglevHash ex_endpoints 7 = Some ring \<and> count_list ring 1 = 4"
  using maglev_slots_exact [OF ex_prime ex_distinct(2,1) ex_fits, of 3 0] by (simp add: ex_endpoints_def)

theorem probe_may_not_end_witness:
  "find_slot kDefaultChRingSize 5 65536 ((replicate 65537 0)[6 := -1]) 0 = None"
  by (rule probe_may_not_end) (simp_all add: nth_list_update)

end
