(* ===== verification/Vip.thy ===== *)
theory Vip
  imports Maglev "HOL-Library.AList" "HOL-Library.Multiset"
begin

text \<open>
  One virtual service: \<open>src/katran/lib/Vip.h\<close> and \<open>Vip.cpp\<close>. The object keeps its reals with weight
  and hash, and the ring that was last computed; an update returns the positions of the ring
  that changed, which \<open>KatranLb\<close> writes into the BPF array \<open>ch_rings\<close>.

  \<open>reals_\<close> is an \<open>std::unordered_map\<close>. Its contents are an association list; the order in which a
  loop visits it is the parameter \<open>iter\<close> of the operations that loop, any function that returns
  a permutation of the contents. \<open>std::sort\<close> is not stable, so ties may come out in any order; as
  \<open>iter\<close> ranges over all orders the stable \<open>sort_key\<close> covers them. \<open>None\<close> is a call that does not
  return, because \<open>GenerateMaglevHash\<close> does not.
\<close>

record RealPos =
  rp_real :: u32
  rp_pos :: u32

datatype ModifyAction = ADD | DEL

record UpdateReal =
  ur_action :: ModifyAction
  updatedReal :: Endpoint

record VipRealMeta =
  vrm_weight :: u32
  vrm_hash :: u64

type_synonym reals_map = "(u32 \<times> VipRealMeta) list"

record Vip =
  vipNum :: u32
  vipFlags :: u32
  chRingSize :: u32
  vip_reals :: reals_map
  chRing :: "int list"

definition Vip_new :: "u32 \<Rightarrow> u32 \<Rightarrow> u32 \<Rightarrow> Vip" where
  "Vip_new num flags ring_size =
     \<lparr>vipNum = num, vipFlags = flags, chRingSize = ring_size, vip_reals = [], chRing = replicate (unat ring_size) (-1)\<rparr>"

definition setVipFlags :: "u32 \<Rightarrow> Vip \<Rightarrow> Vip" where
  "setVipFlags flags v = v\<lparr>vipFlags := vipFlags v OR flags\<rparr>"

definition clearVipFlags :: "Vip \<Rightarrow> Vip" where
  "clearVipFlags v = v\<lparr>vipFlags := 0\<rparr>"

definition unsetVipFlags :: "u32 \<Rightarrow> Vip \<Rightarrow> Vip" where
  "unsetVipFlags flags v = v\<lparr>vipFlags := vipFlags v AND NOT flags\<rparr>"

definition getReals :: "(reals_map \<Rightarrow> reals_map) \<Rightarrow> Vip \<Rightarrow> u32 list" where
  "getReals iter v = map fst (iter (vip_reals v))"

definition getRealsAndWeight :: "(reals_map \<Rightarrow> reals_map) \<Rightarrow> Vip \<Rightarrow> Endpoint list" where
  "getRealsAndWeight iter v =
     map (\<lambda>(num, r). \<lparr>ep_num = num, ep_weight = vrm_weight r, ep_hash = vrm_hash r\<rparr>) (iter (vip_reals v))"

text \<open>
  One element of the loop over \<open>ureals\<close>: \<open>reals_[num]\<close> inserts a value-initialised entry when the
  key is missing, so an \<open>ADD\<close> always leaves an entry behind.
\<close>

definition apply_ureal :: "UpdateReal \<Rightarrow> reals_map \<times> bool \<Rightarrow> reals_map \<times> bool" where
  "apply_ureal u s = (case s of (reals, changed) \<Rightarrow>
     let e = updatedReal u in
     (case ur_action u of
       DEL \<Rightarrow> (AList.delete (ep_num e) reals, True)
     | ADD \<Rightarrow>
         let cur = (case map_of reals (ep_num e) of None \<Rightarrow> \<lparr>vrm_weight = 0, vrm_hash = 0\<rparr> | Some r \<Rightarrow> r)
         in if vrm_weight cur \<noteq> ep_weight e
            then (AList.update (ep_num e) \<lparr>vrm_weight = ep_weight e, vrm_hash = ep_hash e\<rparr> reals, True)
            else (AList.update (ep_num e) cur reals, changed)))"

definition compareEndpoints :: "Endpoint \<Rightarrow> Endpoint \<Rightarrow> bool" where
  "compareEndpoints a b \<longleftrightarrow> ep_hash a < ep_hash b"

definition live_endpoints :: "reals_map \<Rightarrow> Endpoint list" where
  "live_endpoints reals =
     map (\<lambda>(num, r). \<lparr>ep_num = num, ep_weight = vrm_weight r, ep_hash = vrm_hash r\<rparr>)
       (filter (\<lambda>(num, r). vrm_weight r \<noteq> 0) reals)"

definition getEndpoints :: "(reals_map \<Rightarrow> reals_map) \<Rightarrow> UpdateReal list \<Rightarrow> Vip \<Rightarrow> Endpoint list \<times> Vip" where
  "getEndpoints iter ureals v =
     (case fold apply_ureal ureals (vip_reals v, False) of (reals, changed) \<Rightarrow>
       (if changed then sort_key ep_hash (live_endpoints (iter reals)) else [], v\<lparr>vip_reals := reals\<rparr>))"

text \<open>The loop that compares the new and the old ring.\<close>

definition ring_delta :: "u32 \<Rightarrow> int list \<Rightarrow> int list \<Rightarrow> RealPos list \<times> int list" where
  "ring_delta ring_size new_ring ring =
     fold (\<lambda>i (delta, ring).
         if new_ring ! i \<noteq> ring ! i
         then (delta @ [\<lparr>rp_real = word_of_int (new_ring ! i), rp_pos = word_of_nat i\<rparr>], ring[i := new_ring ! i])
         else (delta, ring))
       [0..<unat ring_size] ([], ring)"

definition batchRealsUpdate ::
  "(reals_map \<Rightarrow> reals_map) \<Rightarrow> UpdateReal list \<Rightarrow> Vip \<Rightarrow> (RealPos list \<times> Vip) option" where
  "batchRealsUpdate iter ureals v =
     (case getEndpoints iter ureals v of (endpoints, v) \<Rightarrow>
       if endpoints \<noteq> [] then do {
         new_ch_ring \<leftarrow> GenerateMaglevHash endpoints (chRingSize v);
         let (delta, ring) = ring_delta (chRingSize v) new_ch_ring (chRing v);
         Some (delta, v\<lparr>chRing := ring\<rparr>)
       }
       else Some ([], v))"

definition addReal :: "(reals_map \<Rightarrow> reals_map) \<Rightarrow> Endpoint \<Rightarrow> Vip \<Rightarrow> (RealPos list \<times> Vip) option" where
  "addReal iter real = batchRealsUpdate iter [\<lparr>ur_action = ADD, updatedReal = real\<rparr>]"

text \<open>\<open>delReal\<close> leaves the weight and the hash of the update uninitialised; they are the parameter \<open>junk\<close>.\<close>

definition delReal :: "(reals_map \<Rightarrow> reals_map) \<Rightarrow> Endpoint \<Rightarrow> u32 \<Rightarrow> Vip \<Rightarrow> (RealPos list \<times> Vip) option" where
  "delReal iter junk realNum = batchRealsUpdate iter [\<lparr>ur_action = DEL, updatedReal = junk\<lparr>ep_num := realNum\<rparr>\<rparr>]"

section \<open>The delta\<close>

lemma take_turns_length:
  "take_turns n row j result nxt runs = Some (fin, result', nxt', runs') \<Longrightarrow> length result' = length result"
proof (induction j arbitrary: result nxt runs)
  case (Suc j)
  then obtain nxt1 cur where "find_slot n (row_offset row) (row_skip row) result nxt = Some (nxt1, cur)"
    by (auto simp: bind_eq_Some_conv)
  with Suc.prems Suc.IH [of "result[unat cur := sint (row_num row)]" "nxt1 + 1" "runs + 1"] show ?case
    by (auto simp: Let_def split: if_splits)
qed simp

lemma maglev_round_length:
  "maglev_round n rows result runs = Some (fin, rows', result', runs') \<Longrightarrow> length result' = length result"
proof (induction rows arbitrary: result runs fin rows')
  case (Cons row rows)
  obtain fin1 r1 nxt1 runs1 where
    t: "take_turns n row (unat (row_weight row)) result (row_next row) runs = Some (fin1, r1, nxt1, runs1)"
    using Cons.prems by (auto simp: bind_eq_Some_conv)
  show ?case
  proof (cases fin1)
    case True
    with Cons.prems t take_turns_length [OF t] show ?thesis by (simp add: Let_def)
  next
    case False
    with Cons.prems t obtain fin2 rows2 where "maglev_round n rows r1 runs1 = Some (fin2, rows2, result', runs')"
      by (auto simp: Let_def bind_eq_Some_conv)
    then show ?thesis using Cons.IH take_turns_length [OF t] by metis
  qed
qed simp

lemma maglev_loop_length: "maglev_loop n rows result runs = Some ring \<Longrightarrow> length ring = length result"
proof (rule maglev_loop.raw_induct [where P = "\<lambda>n rows result runs ring. length ring = length result", rotated])
  fix f :: "u32 \<Rightarrow> maglev_row list \<Rightarrow> int list \<Rightarrow> u32 \<Rightarrow> int list option" and n rows result runs ring
  assume IH: "\<And>n rows result runs ring. f n rows result runs = Some ring \<Longrightarrow> length ring = length result"
    and step: "do { (fin, rows, result, runs) \<leftarrow> maglev_round n rows result runs;
      if fin then Some result else f n rows result runs } = Some ring"
  obtain fin rows1 r1 runs1 where m: "maglev_round n rows result runs = Some (fin, rows1, r1, runs1)"
    using step by (auto simp: bind_eq_Some_conv)
  then show "length ring = length result"
    using step IH [of n rows1 r1 runs1 ring] maglev_round_length [OF m] by (cases fin) simp_all
qed

lemma GenerateMaglevHash_length: "GenerateMaglevHash es n = Some ring \<Longrightarrow> length ring = unat n"
  by (auto simp: GenerateMaglevHash_def Let_def split: list.splits dest: maglev_loop_length)

definition changed_pos :: "int list \<Rightarrow> int list \<Rightarrow> nat \<Rightarrow> bool" where
  "changed_pos ring new_ring i \<longleftrightarrow> new_ring ! i \<noteq> ring ! i"

definition pos_entry :: "int list \<Rightarrow> nat \<Rightarrow> RealPos" where
  "pos_entry ring i = \<lparr>rp_real = word_of_int (ring ! i), rp_pos = word_of_nat i\<rparr>"

text \<open>The delta between two rings, in ascending positions.\<close>

definition delta_between :: "int list \<Rightarrow> int list \<Rightarrow> RealPos list" where
  "delta_between ring new_ring = map (pos_entry new_ring) (filter (changed_pos ring new_ring) [0..<length ring])"

lemma ring_delta_prefix:
  assumes "length new_ring = length ring" "k \<le> length ring"
  shows "fold (\<lambda>i (delta, ring).
         if new_ring ! i \<noteq> ring ! i
         then (delta @ [\<lparr>rp_real = word_of_int (new_ring ! i), rp_pos = word_of_nat i\<rparr>], ring[i := new_ring ! i])
         else (delta, ring))
       [0..<k] ([], ring) =
    (map (pos_entry new_ring) (filter (changed_pos ring new_ring) [0..<k]), take k new_ring @ drop k ring)"
  using assms(2)
proof (induction k)
  case (Suc k)
  then have k: "k < length ring" by simp
  have nth: "(take k new_ring @ drop k ring) ! k = ring ! k" using k assms(1) by (simp add: nth_append)
  have upd: "(take k new_ring @ drop k ring)[k := x] = take k new_ring @ x # drop (Suc k) ring" for x
    using k assms(1) by (simp add: list_update_append Cons_nth_drop_Suc [symmetric])
  have tk: "take (Suc k) new_ring = take k new_ring @ [new_ring ! k]" using k assms(1) by (simp add: take_Suc_conv_app_nth)
  show ?case
    using Suc k assms(1) nth upd by (auto simp: changed_pos_def pos_entry_def tk Cons_nth_drop_Suc [symmetric])
qed simp

lemma ring_delta_eq:
  assumes "length ring = unat n" "length new_ring = unat n"
  shows "ring_delta n new_ring ring = (delta_between ring new_ring, new_ring)"
  unfolding ring_delta_def delta_between_def using ring_delta_prefix [of new_ring ring "length ring"] assms by simp

definition ring_fits :: "Vip \<Rightarrow> bool" where
  "ring_fits v \<longleftrightarrow> length (chRing v) = unat (chRingSize v)"

lemma batchRealsUpdate_delta:
  assumes "ring_fits v" "batchRealsUpdate iter ureals v = Some (delta, v')"
  shows "ring_fits v'" "chRingSize v' = chRingSize v" "vipNum v' = vipNum v" "vipFlags v' = vipFlags v"
    "delta = delta_between (chRing v) (chRing v')"
proof -
  obtain es v1 where g: "getEndpoints iter ureals v = (es, v1)" by force
  then have v1: "v1 = v\<lparr>vip_reals := vip_reals v1\<rparr>"
    by (cases "fold apply_ureal ureals (vip_reals v, False)") (auto simp: getEndpoints_def)
  have "chRing v1 = chRing v" "chRingSize v1 = chRingSize v" "vipNum v1 = vipNum v" "vipFlags v1 = vipFlags v"
    by (subst v1, simp)+
  moreover have "delta_between r r = []" for r by (simp add: delta_between_def changed_pos_def)
  ultimately show "ring_fits v'" "chRingSize v' = chRingSize v" "vipNum v' = vipNum v" "vipFlags v' = vipFlags v"
    "delta = delta_between (chRing v) (chRing v')"
    using assms by (auto simp: batchRealsUpdate_def g ring_fits_def bind_eq_Some_conv ring_delta_eq
      GenerateMaglevHash_length split: if_splits)
qed

section \<open>The ring in the data plane follows the ring in the object\<close>

text \<open>The caller writes each entry of a delta into its array.\<close>

definition write_delta :: "RealPos list \<Rightarrow> u32 list \<Rightarrow> u32 list" where
  "write_delta delta arr = fold (\<lambda>p arr. arr[unat (rp_pos p) := rp_real p]) delta arr"

definition mirrors :: "u32 list \<Rightarrow> int list \<Rightarrow> bool" where
  "mirrors arr ring \<longleftrightarrow> length arr = length ring \<and>
     (\<forall>i < length ring. 0 \<le> ring ! i \<longrightarrow> arr ! i = word_of_int (ring ! i))"

lemma write_delta_length: "length (write_delta delta arr) = length arr"
  by (induction delta arbitrary: arr) (simp_all add: write_delta_def)

lemma write_delta_nth:
  assumes "\<forall>i \<in> set is. i < 2 ^ 32" "c < length arr"
  shows "write_delta (map (pos_entry ring) is) arr ! c = (if c \<in> set is then word_of_int (ring ! c) else arr ! c)"
  using assms
proof (induction "is" arbitrary: arr)
  case (Cons i "is")
  then have i: "unat (word_of_nat i :: u32) = i" by (simp add: unat_of_nat)
  have "write_delta (map (pos_entry ring) (i # is)) arr = write_delta (map (pos_entry ring) is) (arr[i := word_of_int (ring ! i)])"
    using i by (simp add: write_delta_def pos_entry_def)
  with Cons show ?case by (auto simp: nth_list_update)
qed (simp add: write_delta_def)

lemma write_delta_mirrors:
  assumes "mirrors arr ring" "length new_ring = length ring" "length ring < 2 ^ 32"
  shows "mirrors (write_delta (delta_between ring new_ring) arr) new_ring"
proof -
  let ?is = "filter (changed_pos ring new_ring) [0..<length ring]"
  have small: "\<forall>i \<in> set ?is. i < 2 ^ 32" using assms(3) by auto
  note w = write_delta_nth [OF small, of _ arr new_ring]
  have len: "length arr = length new_ring" using assms by (simp add: mirrors_def)
  show ?thesis
    unfolding mirrors_def delta_between_def
  proof (intro conjI allI impI)
    show "length (write_delta (map (pos_entry new_ring) ?is) arr) = length new_ring" using len by (simp add: write_delta_length)
    fix i assume i: "i < length new_ring" "0 \<le> new_ring ! i"
    then show "write_delta (map (pos_entry new_ring) ?is) arr ! i = word_of_int (new_ring ! i)"
      using w [of i] assms len by (auto simp: mirrors_def changed_pos_def)
  qed
qed

text \<open>A caller that passes updates on and writes every delta it gets.\<close>

fun follow :: "('u \<Rightarrow> 'v \<Rightarrow> (RealPos list \<times> 'v) option) \<Rightarrow> 'u list \<Rightarrow> 'v \<times> u32 list \<Rightarrow> ('v \<times> u32 list) option" where
  "follow update [] (v, arr) = Some (v, arr)"
| "follow update (u # us) (v, arr) = do {
     (delta, v) \<leftarrow> update u v;
     follow update us (v, write_delta delta arr)
   }"

locale ring_owner =
  fixes update :: "'u \<Rightarrow> 'v \<Rightarrow> (RealPos list \<times> 'v) option"
    and ring :: "'v \<Rightarrow> int list"
    and ok :: "'v \<Rightarrow> bool"
  assumes ring_small: "ok v \<Longrightarrow> length (ring v) < 2 ^ 32"
    and update_ok: "ok v \<Longrightarrow> update u v = Some (delta, v') \<Longrightarrow> ok v' \<and> length (ring v') = length (ring v)"
    and update_delta: "ok v \<Longrightarrow> update u v = Some (delta, v') \<Longrightarrow> delta = delta_between (ring v) (ring v')"
begin

lemma follow_mirrors:
  "ok v \<Longrightarrow> mirrors arr (ring v) \<Longrightarrow> follow update us (v, arr) = Some (v', arr') \<Longrightarrow> ok v' \<and> mirrors arr' (ring v')"
proof (induction us arbitrary: v arr)
  case (Cons u us)
  then obtain delta v1 where u: "update u v = Some (delta, v1)" by (auto simp: bind_eq_Some_conv)
  have "mirrors (write_delta delta arr) (ring v1)"
    using write_delta_mirrors [OF Cons.prems(2)] update_ok [OF Cons.prems(1) u] ring_small [OF Cons.prems(1)]
      update_delta [OF Cons.prems(1) u] by simp
  with Cons.IH [of v1 "write_delta delta arr"] Cons.prems(3) u update_ok [OF Cons.prems(1) u] show ?case by simp
qed simp

end

interpretation vip_ring: ring_owner "batchRealsUpdate iter" chRing ring_fits for iter
proof
  fix v u delta v' assume ok: "ring_fits v"
  show "length (chRing v) < 2 ^ 32"
    using ok unsigned_less [of "chRingSize v", where ?'a = nat] by (simp add: ring_fits_def)
  assume u: "batchRealsUpdate iter u v = Some (delta, v')"
  show "ring_fits v' \<and> length (chRing v') = length (chRing v)"
    using batchRealsUpdate_delta [OF ok u] ok by (simp add: ring_fits_def)
  show "delta = delta_between (chRing v) (chRing v')" by (rule batchRealsUpdate_delta(5) [OF ok u])
qed

section \<open>The reals of a service\<close>

definition reals_wf :: "Vip \<Rightarrow> bool" where
  "reals_wf v \<longleftrightarrow> distinct (map fst (vip_reals v))"

lemma apply_ureal_distinct: "distinct (map fst (fst s)) \<Longrightarrow> distinct (map fst (fst (apply_ureal u s)))"
  by (auto simp: apply_ureal_def Let_def distinct_update distinct_delete split: ModifyAction.split option.split prod.split)

lemma fold_apply_ureal_distinct:
  "distinct (map fst (fst s)) \<Longrightarrow> distinct (map fst (fst (fold apply_ureal us s)))"
  by (induction us arbitrary: s) (simp_all add: apply_ureal_distinct)

text \<open>What an update of one real says of the contents.\<close>

lemma apply_ureal_other: "ep_num (updatedReal u) \<noteq> num \<Longrightarrow> map_of (fst (apply_ureal u s)) num = map_of (fst s) num"
  by (auto simp: apply_ureal_def Let_def update_conv' delete_conv' split: ModifyAction.split option.split prod.split)

lemma apply_ureal_own:
  "case ur_action u of
     DEL \<Rightarrow> map_of (fst (apply_ureal u s)) (ep_num (updatedReal u)) = None
   | ADD \<Rightarrow> \<exists>r. map_of (fst (apply_ureal u s)) (ep_num (updatedReal u)) = Some r \<and> vrm_weight r = ep_weight (updatedReal u)"
  by (auto simp: apply_ureal_def Let_def update_conv' delete_conv' split: ModifyAction.split option.split prod.split)

lemma fold_apply_ureal_other:
  "\<forall>u \<in> set us. ep_num (updatedReal u) \<noteq> num \<Longrightarrow> map_of (fst (fold apply_ureal us s)) num = map_of (fst s) num"
  by (induction us arbitrary: s) (simp_all add: apply_ureal_other)

lemma getEndpoints_reals: "vip_reals (snd (getEndpoints iter us v)) = fst (fold apply_ureal us (vip_reals v, False))"
  by (simp add: getEndpoints_def split: prod.split)

lemma batchRealsUpdate_reals:
  "batchRealsUpdate iter us v = Some (delta, v') \<Longrightarrow> vip_reals v' = fst (fold apply_ureal us (vip_reals v, False))"
  using getEndpoints_reals [of iter us v]
  by (auto simp: batchRealsUpdate_def bind_eq_Some_conv split_def Let_def split: if_splits)

lemma set_live_endpoints:
  "ep \<in> set (live_endpoints reals) \<longleftrightarrow> (\<exists>num r. (num, r) \<in> set reals \<and> vrm_weight r \<noteq> 0 \<and>
     ep = \<lparr>ep_num = num, ep_weight = vrm_weight r, ep_hash = vrm_hash r\<rparr>)"
  by (force simp: live_endpoints_def)

lemma live_endpoints_distinct: "distinct (map fst reals) \<Longrightarrow> distinct (map ep_num (live_endpoints reals))"
proof -
  have "map ep_num (live_endpoints reals) = map fst (filter (\<lambda>(num, r). vrm_weight r \<noteq> 0) reals)"
    by (auto simp: live_endpoints_def)
  then show "distinct (map fst reals) \<Longrightarrow> ?thesis" by (simp add: distinct_map_filter)
qed

text \<open>After any batch of updates that returns, the last update of a real decides: after an
  \<open>ADD\<close> the real is there with the weight that was asked for, after a \<open>DEL\<close> it is gone. Reals that
  the batch does not name keep their entry, and no real is stored twice.\<close>

theorem batch_last_update_decides:
  assumes "reals_wf v" "batchRealsUpdate iter (us @ u # rest) v = Some (delta, v')"
    and "\<forall>u' \<in> set rest. ep_num (updatedReal u') \<noteq> ep_num (updatedReal u)"
  shows "reals_wf v' \<and>
    map_option vrm_weight (map_of (vip_reals v') (ep_num (updatedReal u))) =
      (case ur_action u of ADD \<Rightarrow> Some (ep_weight (updatedReal u)) | DEL \<Rightarrow> None) \<and>
    (\<forall>num. num \<notin> (\<lambda>u. ep_num (updatedReal u)) ` set (us @ u # rest) \<longrightarrow>
      map_of (vip_reals v') num = map_of (vip_reals v) num)"
proof (intro conjI allI impI)
  note r = batchRealsUpdate_reals [OF assms(2)]
  show "reals_wf v'" unfolding reals_wf_def r using assms(1) by (intro fold_apply_ureal_distinct) (simp add: reals_wf_def)
  show "map_option vrm_weight (map_of (vip_reals v') (ep_num (updatedReal u))) =
       (case ur_action u of ADD \<Rightarrow> Some (ep_weight (updatedReal u)) | DEL \<Rightarrow> None)"
    using apply_ureal_own [of u "fold apply_ureal us (vip_reals v, False)"]
    by (auto simp: r fold_apply_ureal_other [OF assms(3)] split: ModifyAction.splits)
  fix num assume "num \<notin> (\<lambda>u. ep_num (updatedReal u)) ` set (us @ u # rest)"
  then show "map_of (vip_reals v') num = map_of (vip_reals v) num"
    unfolding r by (subst fold_apply_ureal_other) auto
qed

text \<open>The endpoints that the ring is computed from.\<close>

definition ring_endpoints :: "(reals_map \<Rightarrow> reals_map) \<Rightarrow> UpdateReal list \<Rightarrow> Vip \<Rightarrow> Endpoint list" where
  "ring_endpoints iter us v = sort_key ep_hash (live_endpoints (iter (fst (fold apply_ureal us (vip_reals v, False)))))"

lemma batchRealsUpdate_changed:
  assumes "snd (fold apply_ureal us (vip_reals v, False))" "ring_endpoints iter us v \<noteq> []"
    and "GenerateMaglevHash (ring_endpoints iter us v) (chRingSize v) = Some ring" "ring_fits v"
  shows "\<exists>delta v'. batchRealsUpdate iter us v = Some (delta, v') \<and> chRing v' = ring"
proof -
  obtain reals where f: "fold apply_ureal us (vip_reals v, False) = (reals, True)"
    using assms(1) by (metis (full_types) prod.collapse)
  then have g: "getEndpoints iter us v = (ring_endpoints iter us v, v\<lparr>vip_reals := reals\<rparr>)"
    by (simp add: getEndpoints_def ring_endpoints_def)
  show ?thesis
    unfolding batchRealsUpdate_def g
    using assms(2-4) GenerateMaglevHash_length [OF assms(3)]
    by (simp add: ring_delta_eq ring_fits_def)
qed

lemma live_endpoints_perm: "mset (iter reals) = mset reals \<Longrightarrow> mset (live_endpoints (iter reals)) = mset (live_endpoints reals)"
  by (simp add: live_endpoints_def)

text \<open>C24. The iteration order of the hash table does not reach the data plane: as long as the
  hashes of the reals differ, any two orders give the same delta and the same ring.\<close>

theorem batch_order_independent:
  assumes "\<forall>reals. mset (iter reals) = mset reals" "\<forall>reals. mset (iter' reals) = mset reals"
    and "distinct (map (\<lambda>(num, r). vrm_hash r) (fst (fold apply_ureal us (vip_reals v, False))))"
  shows "batchRealsUpdate iter us v = batchRealsUpdate iter' us v"
proof -
  obtain reals changed where f: "fold apply_ureal us (vip_reals v, False) = (reals, changed)" by force
  have "map ep_hash (live_endpoints reals) = map (\<lambda>(num, r). vrm_hash r) (filter (\<lambda>(num, r). vrm_weight r \<noteq> 0) reals)"
    by (simp add: live_endpoints_def split_def)
  then have "distinct (map ep_hash (live_endpoints reals))" using assms(3) by (simp add: f distinct_map_filter)
  then have inj: "inj_on ep_hash (set (live_endpoints reals))" by (simp add: distinct_map)
  have "sort_key ep_hash (live_endpoints (it reals)) = sort_key ep_hash (live_endpoints reals)"
    if "mset (it reals) = mset reals" for it
    using live_endpoints_perm [of it, OF that] inj
    by (intro sort_key_inj_key_eq) (auto dest: mset_eq_setD)
  then have "getEndpoints iter us v = getEndpoints iter' us v" using assms(1,2) by (simp add: getEndpoints_def f)
  then show ?thesis by (simp add: batchRealsUpdate_def)
qed

lemma follow_keeps:
  "ring_fits v \<Longrightarrow> reals_wf v \<Longrightarrow> follow (batchRealsUpdate iter) us (v, arr) = Some (v', arr') \<Longrightarrow>
    reals_wf v' \<and> chRingSize v' = chRingSize v"
proof (induction us arbitrary: v arr)
  case (Cons u us)
  then obtain delta v1 where u: "batchRealsUpdate iter u v = Some (delta, v1)" by (auto simp: bind_eq_Some_conv)
  have "reals_wf v1"
    using batchRealsUpdate_reals [OF u] fold_apply_ureal_distinct [of "(vip_reals v, False)" u] Cons.prems(2)
    by (simp add: reals_wf_def)
  with Cons.IH [of v1 "write_delta delta arr"] Cons.prems(3) u batchRealsUpdate_delta [OF Cons.prems(1) u]
  show ?case by simp
qed simp

lemma Vip_new_ok:
  "ring_fits (Vip_new num flags n)" "reals_wf (Vip_new num flags n)"
  "length arr = unat n \<Longrightarrow> mirrors arr (chRing (Vip_new num flags n))"
  by (auto simp: Vip_new_def ring_fits_def reals_wf_def mirrors_def)

text \<open>One update that returns: each slot of the new ring has a real that is there with a weight.\<close>

definition serves :: "Vip \<Rightarrow> nat \<Rightarrow> bool" where
  "serves v c \<longleftrightarrow> (\<exists>num r. chRing v ! c = uint num \<and> map_of (vip_reals v) num = Some r \<and> vrm_weight r \<noteq> 0)"

lemma ring_endpoints_live:
  assumes "\<forall>reals. mset (iter reals) = mset reals" "batchRealsUpdate iter us v = Some (delta, v')"
  shows "set (ring_endpoints iter us v) = set (live_endpoints (vip_reals v'))"
proof -
  have "mset (ring_endpoints iter us v) = mset (live_endpoints (vip_reals v'))"
    unfolding ring_endpoints_def batchRealsUpdate_reals [OF assms(2)] using assms(1) by (simp add: live_endpoints_perm)
  then show ?thesis by (rule mset_eq_setD)
qed

lemma batch_slots:
  assumes iter: "\<forall>reals. mset (iter reals) = mset reals" and v: "ring_fits v" "reals_wf v" "chRingSize v \<noteq> 0"
    and u: "batchRealsUpdate iter us v = Some (delta, v')"
    and es: "snd (fold apply_ureal us (vip_reals v, False))" "ring_endpoints iter us v \<noteq> []"
      "\<forall>e \<in> set (ring_endpoints iter us v). unat (ep_num e) < 2 ^ 31"
  shows "\<forall>c < unat (chRingSize v). serves v' c"
proof (intro allI impI)
  fix c assume c: "c < unat (chRingSize v)"
  obtain ring where g: "GenerateMaglevHash (ring_endpoints iter us v) (chRingSize v) = Some ring"
    using u es(1,2) by (cases "fold apply_ureal us (vip_reals v, False)")
      (auto simp: batchRealsUpdate_def getEndpoints_def ring_endpoints_def bind_eq_Some_conv)
  then have ring: "chRing v' = ring" using batchRealsUpdate_changed [OF es(1,2) g v(1)] u by simp
  have "ring ! c \<in> set ring" using c GenerateMaglevHash_length [OF g] by simp
  then obtain e where e: "e \<in> set (ring_endpoints iter us v)" "ring ! c = uint (ep_num e)"
    using GenerateMaglevHash_full [OF g es(2,3) v(3)] by auto
  have d: "distinct (map fst (vip_reals v'))"
    unfolding batchRealsUpdate_reals [OF u] using v(2) by (intro fold_apply_ureal_distinct) (simp add: reals_wf_def)
  have "e \<in> set (live_endpoints (vip_reals v'))" using e(1) ring_endpoints_live [OF iter u] by simp
  then obtain r where "(ep_num e, r) \<in> set (vip_reals v')" "vrm_weight r \<noteq> 0" by (auto simp: set_live_endpoints)
  then show "serves v' c" unfolding serves_def using d e(2) ring by (metis map_of_is_SomeI)
qed

text \<open>
  The ring of a service that has a real with a weight serves only such reals: this is kept by every
  update, also by one that changes no weight and leaves the ring as it is.
\<close>

definition has_live :: "Vip \<Rightarrow> bool" where
  "has_live v \<longleftrightarrow> (\<exists>num r. map_of (vip_reals v) num = Some r \<and> vrm_weight r \<noteq> 0)"

definition ring_current :: "Vip \<Rightarrow> bool" where
  "ring_current v \<longleftrightarrow> (has_live v \<longrightarrow> (\<forall>c < unat (chRingSize v). serves v c))"

lemma apply_ureal_idle:
  assumes "\<not> snd (apply_ureal u s)"
  shows "\<not> snd s" "(map_of (fst (apply_ureal u s)) num = Some r \<and> vrm_weight r \<noteq> 0) = (map_of (fst s) num = Some r \<and> vrm_weight r \<noteq> 0)"
  using assms by (auto simp: apply_ureal_def Let_def update_conv' split: prod.splits ModifyAction.splits if_splits option.splits)

lemma fold_apply_ureal_idle:
  assumes "\<not> snd (fold apply_ureal us s)"
  shows "\<not> snd s \<and> (\<forall>num r. (map_of (fst (fold apply_ureal us s)) num = Some r \<and> vrm_weight r \<noteq> 0) =
    (map_of (fst s) num = Some r \<and> vrm_weight r \<noteq> 0))"
  using assms
proof (induction us arbitrary: s)
  case (Cons u us)
  then have IH: "\<not> snd (apply_ureal u s) \<and> (\<forall>num r. (map_of (fst (fold apply_ureal (u # us) s)) num = Some r \<and> vrm_weight r \<noteq> 0) =
    (map_of (fst (apply_ureal u s)) num = Some r \<and> vrm_weight r \<noteq> 0))" by simp
  then show ?case using apply_ureal_idle [of u s] by blast
qed simp

lemma batch_current:
  assumes iter: "\<forall>reals. mset (iter reals) = mset reals" and v: "ring_fits v" "reals_wf v" "chRingSize v \<noteq> 0" "ring_current v"
    and u: "batchRealsUpdate iter us v = Some (delta, v')" and small: "\<forall>(num, r) \<in> set (vip_reals v'). unat num < 2 ^ 31"
  shows "ring_current v'"
proof (cases "snd (fold apply_ureal us (vip_reals v, False))")
  case True
  note live = ring_endpoints_live [OF iter u]
  have size: "chRingSize v' = chRingSize v" by (rule batchRealsUpdate_delta(2) [OF v(1) u])
  show ?thesis
  proof (cases "ring_endpoints iter us v = []")
    case True
    then have "live_endpoints (vip_reals v') = []" using live by simp
    then have "\<forall>(num, r) \<in> set (vip_reals v'). vrm_weight r = 0" by (auto simp: live_endpoints_def filter_empty_conv)
    then have "\<not> has_live v'" by (auto simp: has_live_def dest: map_of_SomeD)
    then show ?thesis by (simp add: ring_current_def)
  next
    case False
    have "\<forall>e \<in> set (ring_endpoints iter us v). unat (ep_num e) < 2 ^ 31"
      unfolding live using small by (fastforce simp: set_live_endpoints)
    from batch_slots [OF iter v(1-3) u True False this] show ?thesis by (simp add: ring_current_def size)
  qed
next
  case False
  let ?live = "\<lambda>v num r. map_of (vip_reals v) num = Some r \<and> vrm_weight r \<noteq> 0"
  have "?live v' num r = ?live v num r" for num r
    using fold_apply_ureal_idle [OF False] unfolding batchRealsUpdate_reals [OF u] by simp
  moreover have "chRing v' = chRing v" "chRingSize v' = chRingSize v"
    using u False by (auto simp: batchRealsUpdate_def getEndpoints_def split: prod.splits)
  ultimately show ?thesis using v(4) unfolding ring_current_def has_live_def serves_def by presburger
qed

text \<open>C6. Whatever the history of a service, the copy of its ring in the data plane is complete
  and current: after an update that changes the reals and leaves one with a weight, the update
  returns, and every slot the caller has written holds the number of a real that is there
  with a non-zero weight. This holds for prime rings whose permutations fit \<open>uint32_t\<close>.\<close>

theorem ring_serves_live_reals:
  assumes "\<forall>reals. mset (iter reals) = mset reals" "length arr0 = unat n"
    and "follow (batchRealsUpdate iter) history (Vip_new num flags n, arr0) = Some (v, arr)"
    and "prime_ring (unat n)"
    and "snd (fold apply_ureal us (vip_reals v, False))" "ring_endpoints iter us v \<noteq> []"
    and "\<forall>e \<in> set (ring_endpoints iter us v). fits32 n e \<and> unat (ep_num e) < 2 ^ 31"
  shows "\<exists>delta v'. batchRealsUpdate iter us v = Some (delta, v') \<and>
    length (write_delta delta arr) = unat n \<and>
    (\<forall>c < unat n. \<exists>r. map_of (vip_reals v') (write_delta delta arr ! c) = Some r \<and> vrm_weight r \<noteq> 0)"
proof -
  let ?es = "ring_endpoints iter us v" and ?reals = "fst (fold apply_ureal us (vip_reals v, False))"
  have v: "ring_fits v" "mirrors arr (chRing v)" "reals_wf v" "chRingSize v = n"
    using vip_ring.follow_mirrors [OF Vip_new_ok(1) Vip_new_ok(3) assms(3)] assms(2)
      follow_keeps [OF Vip_new_ok(1,2) assms(3)] by (simp_all add: Vip_new_def)
  have n: "chRingSize v \<noteq> 0" using assms(4) v(4) by (auto simp: prime_ring_def)
  have d: "distinct (map fst ?reals)" using v(3) by (intro fold_apply_ureal_distinct) (simp add: reals_wf_def)
  have ms: "mset ?es = mset (live_endpoints ?reals)"
    unfolding ring_endpoints_def using assms(1) by (simp add: live_endpoints_perm)
  have "distinct (map ep_num ?es)"
    using live_endpoints_distinct [OF d] ms by (metis mset_eq_imp_distinct_iff mset_map)
  then obtain ring where g: "GenerateMaglevHash ?es n = Some ring"
    using GenerateMaglevHash_ends [of n ?es] assms(4,6,7) by (auto simp: ring_inputs_def)
  obtain delta v' where u: "batchRealsUpdate iter us v = Some (delta, v')"
    using batchRealsUpdate_changed [OF assms(5,6)] g v(1,4) by auto
  have small: "\<forall>e \<in> set ?es. unat (ep_num e) < 2 ^ 31" using assms(7) by blast
  have m: "mirrors (write_delta delta arr) (chRing v')"
    using vip_ring.follow_mirrors [OF v(1,2), of iter "[us]"] u by simp
  have len: "length (chRing v') = unat n" using batchRealsUpdate_delta(1,2) [OF v(1) u] v(4) by (simp add: ring_fits_def)
  have "\<exists>r. map_of (vip_reals v') (write_delta delta arr ! c) = Some r \<and> vrm_weight r \<noteq> 0" if c: "c < unat n" for c
  proof -
    have "serves v' c" using batch_slots [OF assms(1) v(1,3) n u assms(5,6) small] c v(4) by simp
    then show ?thesis using m c len by (auto simp: serves_def mirrors_def)
  qed
  then show ?thesis using u m len by (auto simp: mirrors_def)
qed

text \<open>Deleting the last real of a service leaves the ring as it was: the update returns an
  empty delta, so both the object and the data plane keep sending traffic to a real that the
  service no longer has.\<close>

theorem last_real_stays_on_ring:
  assumes "vip_reals v = [(num, r)]" "iter [] = []"
  shows "delReal iter junk num v = Some ([], v\<lparr>vip_reals := []\<rparr>)"
  using assms by (simp add: delReal_def batchRealsUpdate_def getEndpoints_def apply_ureal_def live_endpoints_def)

text \<open>Adding a real again with the weight it has changes nothing, not even its hash.\<close>

theorem re_adding_is_idle:
  assumes "map_of (vip_reals v) (ep_num e) = Some r" "vrm_weight r = ep_weight e"
  shows "\<exists>v'. addReal iter e v = Some ([], v') \<and> chRing v' = chRing v \<and> map_of (vip_reals v') = map_of (vip_reals v)"
proof -
  have "map_of (AList.update (ep_num e) r (vip_reals v)) = map_of (vip_reals v)"
    using assms(1) by (simp add: update_conv' fun_upd_idem)
  then show ?thesis using assms(1,2)
    by (simp add: addReal_def batchRealsUpdate_def getEndpoints_def apply_ureal_def)
qed

section \<open>Witnesses\<close>

definition ex_add :: "u32 \<Rightarrow> u32 \<Rightarrow> u64 \<Rightarrow> UpdateReal" where
  "ex_add num weight hash = \<lparr>ur_action = ADD, updatedReal = \<lparr>ep_num = num, ep_weight = weight, ep_hash = hash\<rparr>\<rparr>"

definition ex_service :: Vip where
  "ex_service = \<lparr>vipNum = 3, vipFlags = 0, chRingSize = 3, vip_reals = [(5, \<lparr>vrm_weight = 2, vrm_hash = 10\<rparr>)], chRing = [5, 5, 5]\<rparr>"

lemma ex_first: "batchRealsUpdate (\<lambda>r. r) [ex_add 5 2 10] (Vip_new 3 0 3) =
    Some (map (\<lambda>i. \<lparr>rp_real = 5, rp_pos = i\<rparr>) [0, 1, 2], ex_service)"
  by code_simp

theorem batch_last_update_decides_witness:
  "map_of (vip_reals ex_service) 5 = Some \<lparr>vrm_weight = 2, vrm_hash = 10\<rparr> \<and> reals_wf ex_service"
  using batch_last_update_decides [of "Vip_new 3 0 3" "\<lambda>r. r" "[]" "ex_add 5 2 10" "[]"] ex_first Vip_new_ok(2)
  by (simp add: ex_add_def ex_service_def)

theorem batch_order_independent_witness:
  "batchRealsUpdate (\<lambda>r. r) [ex_add 6 1 20] ex_service = batchRealsUpdate rev [ex_add 6 1 20] ex_service"
  by (rule batch_order_independent) (simp_all add: ex_add_def ex_service_def apply_ureal_def)

theorem ring_serves_live_reals_witness:
  "\<exists>delta v'. batchRealsUpdate (\<lambda>r. r) [ex_add 6 1 20] ex_service = Some (delta, v') \<and>
    length (write_delta delta [5, 5, 5]) = 3 \<and>
    (\<forall>c < 3. \<exists>r. map_of (vip_reals v') (write_delta delta [5, 5, 5] ! c) = Some r \<and> vrm_weight r \<noteq> 0)"
proof -
  have f: "follow (batchRealsUpdate (\<lambda>r. r)) [[ex_add 5 2 10]] (Vip_new 3 0 3, [0, 0, 0]) = Some (ex_service, [5, 5, 5])"
    using ex_first by (simp add: write_delta_def)
  have p: "prime_ring (unat (3 :: u32))" by (intro prime_ring_trial [where s = 1]) auto
  have r: "apply_ureal (ex_add 6 1 20) (vip_reals ex_service, False) =
      ([(5, \<lparr>vrm_weight = 2, vrm_hash = 10\<rparr>), (6, \<lparr>vrm_weight = 1, vrm_hash = 20\<rparr>)], True)"
    by (simp add: ex_add_def ex_service_def apply_ureal_def)
  have es: "ring_endpoints (\<lambda>r. r) [ex_add 6 1 20] ex_service =
      [\<lparr>ep_num = 5, ep_weight = 2, ep_hash = 10\<rparr>, \<lparr>ep_num = 6, ep_weight = 1, ep_hash = 20\<rparr>]"
    by (simp add: ring_endpoints_def r live_endpoints_def)
  show ?thesis
    using ring_serves_live_reals [OF _ _ f p, of "[ex_add 6 1 20]"] by (simp add: r es fits32_small)
qed

theorem last_real_stays_on_ring_witness:
  "delReal (\<lambda>r. r) \<lparr>ep_num = 0, ep_weight = 0, ep_hash = 0\<rparr> 5 ex_service = Some ([], ex_service\<lparr>vip_reals := []\<rparr>) \<and>
    chRing (ex_service\<lparr>vip_reals := []\<rparr>) = [5, 5, 5]"
proof
  show "delReal (\<lambda>r. r) \<lparr>ep_num = 0, ep_weight = 0, ep_hash = 0\<rparr> 5 ex_service = Some ([], ex_service\<lparr>vip_reals := []\<rparr>)"
    by (rule last_real_stays_on_ring) (simp_all add: ex_service_def)
qed (simp add: ex_service_def)

theorem re_adding_is_idle_witness:
  "\<exists>v'. addReal (\<lambda>r. r) \<lparr>ep_num = 5, ep_weight = 2, ep_hash = 77\<rparr> ex_service = Some ([], v') \<and>
    chRing v' = chRing ex_service \<and> map_of (vip_reals v') = map_of (vip_reals ex_service)"
  by (rule re_adding_is_idle [where r = "\<lparr>vrm_weight = 2, vrm_hash = 10\<rparr>"]) (simp_all add: ex_service_def)

end
