(* ===== verification/Katran_Lb.thy ===== *)
theory Katran_Lb
  imports Healthcheck Vip
begin

text \<open>
  The control plane: \<open>src/katran/lib/KatranLb.cpp\<close> with \<open>KatranLb.h\<close>, \<open>KatranLbStructs.h\<close> and
  \<open>IpHelpers.cpp\<close>. It owns the numbers of services and reals, counts the users of every real,
  and programs the BPF maps that the data plane reads; these are the maps of \<open>bpf_state\<close> and
  \<open>hc_state\<close>, so that what is said here of a map is said of the map the XDP program looks up.

  \<^item> \<open>folly::IPAddress\<close> is the address as its bytes lie in memory. Parsing, printing and hashing
    of addresses are the parameters \<open>ip_create\<close>, \<open>net_create\<close>, \<open>ip_str\<close> and \<open>ip_hash\<close>.
  \<^item> A system call can fail. \<open>sys_ok n\<close> says whether the \<open>n\<close>-th call of the object succeeds, and
    the state counts the calls.
  \<^item> The loops over hash tables visit them in the order of the parameters \<open>iter_reals\<close>,
    \<open>iter_rules\<close>, \<open>iter_quic\<close>, \<open>iter_hc\<close> and \<open>iter_vips\<close>.
  \<^item> A call that throws returns \<open>Inl\<close> of the exception beside the state it leaves. Log lines
    are not modelled.
\<close>

section \<open>Addresses\<close>

text \<open>\<open>IPEmpty\<close> is the default-constructed address.\<close>

datatype IPAddress = IPEmpty | IPv4 u32 | IPv6 in6

fun isV4 :: "IPAddress \<Rightarrow> bool" where
  "isV4 (IPv4 a) = True"
| "isV4 _ = False"

record beaddr =
  be_v6daddr :: in6
  be_flags :: u8

definition parseAddrToBe :: "IPAddress \<Rightarrow> bool \<Rightarrow> beaddr" where
  "parseAddrToBe addr bigendian = (case addr of
     IPv4 a \<Rightarrow> \<lparr>be_v6daddr = in6_zero\<lparr>s6_0 := (if bigendian then a else bswap32 a)\<rparr>, be_flags = 0\<rparr>
   | IPv6 a \<Rightarrow>
       let conv = (\<lambda>addr_part. if bigendian then addr_part else bswap32 addr_part) in
       \<lparr>be_v6daddr = \<lparr>s6_0 = conv (s6_0 a), s6_1 = conv (s6_1 a), s6_2 = conv (s6_2 a), s6_3 = conv (s6_3 a)\<rparr>,
        be_flags = V6DADDR\<rparr>
   | IPEmpty \<Rightarrow> \<lparr>be_v6daddr = in6_zero, be_flags = V6DADDR\<rparr>)"

definition parseAddrToInt :: "IPAddress \<Rightarrow> beaddr" where
  "parseAddrToInt addr = parseAddrToBe addr False"

text \<open>The bytes of a \<open>beaddr\<close>, read as the value types of the maps.\<close>

definition as_real :: "beaddr \<Rightarrow> real_definition" where
  "as_real b = \<lparr>real_dstv6 = be_v6daddr b, real_flags = be_flags b\<rparr>"

definition as_hc_real :: "beaddr \<Rightarrow> hc_real_definition" where
  "as_hc_real b = \<lparr>v6daddr = be_v6daddr b, hc_real_flags = be_flags b\<rparr>"

text \<open>An empty address is never translated: every caller has validated the string before.\<close>

section \<open>Configuration and state\<close>

datatype lb_error = invalid_argument | runtime_error | bad_address | fatal | out_of_bounds | no_return

datatype AddressType = INVALID | HOST | NETWORK

datatype KatranMonitorState = DISABLED | ENABLED

record RealMeta =
  rm_num :: u32
  refCount :: u32

record NewReal =
  nr_address :: string
  nr_weight :: u32

record QuicReal =
  qr_address :: string
  qr_id :: u32

record VipKey =
  vk_address :: string
  vk_port :: u16
  vk_proto :: u8

record KatranConfig =
  mainInterface :: string
  v4TunInterface :: string
  v6TunInterface :: string
  balancerProgPath :: string
  healthcheckingProgPath :: string
  defaultMac :: "u8 list"
  cfg_priority :: u32
  rootMapPath :: string
  rootMapPos :: u32
  enableHc :: bool
  disableForwarding :: bool
  maxVips :: u32
  maxReals :: u32
  cfg_chRingSize :: u32
  testing :: bool
  LruSize :: u64
  cfg_forwardingCores :: "int list"
  cfg_numaNodes :: "int list"
  maxLpmSrcSize :: u32
  maxDecapDst :: u32
  hcInterface :: string
  katranSrcV4 :: string
  katranSrcV6 :: string
  localMac :: "u8 list"

record KatranFeatures =
  srcRouting :: bool
  inlineDecap :: bool
  introspection :: bool
  gueEncap :: bool
  directHealthchecking :: bool

record KatranLbStats =
  bpfFailedCalls :: u64
  addrValidationFailed :: u64

type_synonym CIDRNetwork = "IPAddress \<times> u8"

text \<open>What \<open>KatranLb\<close> calls outside of its own code.\<close>

record katran_env =
  ip_create :: "string \<Rightarrow> IPAddress option"
  net_create :: "string \<Rightarrow> CIDRNetwork option"
  ip_str :: "IPAddress \<Rightarrow> string"
  ip_hash :: "IPAddress \<Rightarrow> u64"
  sys_ok :: "nat \<Rightarrow> bool"
  map_fd :: "string \<Rightarrow> int"
  prog_fd :: "string \<Rightarrow> int"
  if_index :: "string \<Rightarrow> u32"
  iter_reals :: "reals_map \<Rightarrow> reals_map"
  iter_rules :: "(CIDRNetwork \<times> u32) list \<Rightarrow> (CIDRNetwork \<times> u32) list"
  iter_quic :: "(IPAddress \<times> u32) list \<Rightarrow> (IPAddress \<times> u32) list"
  iter_ids :: "(u32 \<times> u32) list \<Rightarrow> (u32 \<times> u32) list"
  iter_addrs :: "(u32 \<times> IPAddress) list \<Rightarrow> (u32 \<times> IPAddress) list"
  iter_vips :: "(VipKey \<times> Vip) list \<Rightarrow> (VipKey \<times> Vip) list"
  iter_dsts :: "IPAddress list \<Rightarrow> IPAddress list"

text \<open>The maps in the kernel, the programs attached to it, and the number of calls so far.\<close>

record kernel =
  dp :: bpf_state
  hc :: hc_state
  root_array :: "u32 \<rightharpoonup> int"
  katran_subprograms :: "u32 \<rightharpoonup> int"
  xdp_attached :: bool
  hc_attached :: bool
  calls :: nat

record KatranLb =
  config :: KatranConfig
  kernel :: kernel
  vipNums :: "u32 list"
  realNums :: "u32 list"
  ctlValues :: "ctl_value list"
  hcReals :: "(u32 \<times> IPAddress) list"
  lb_reals :: "(IPAddress \<times> RealMeta) list"
  quicMapping :: "(IPAddress \<times> u32) list"
  numToReals :: "(u32 \<times> IPAddress) list"
  vips :: "(VipKey \<times> Vip) list"
  lpmSrcMapping :: "(CIDRNetwork \<times> u32) list"
  decapDsts :: "IPAddress list"
  standalone :: bool
  progsLoaded :: bool
  progsAttached :: bool
  features :: KatranFeatures
  lruMapsFd :: "int list"
  lbStats :: KatranLbStats

definition kMacAddrPos :: u32 where [simp]: "kMacAddrPos = 0"
definition kIpv4TunPos :: u32 where [simp]: "kIpv4TunPos = 1"
definition kIpv6TunPos :: u32 where [simp]: "kIpv6TunPos = 2"
definition kMainIntfPos :: u32 where [simp]: "kMainIntfPos = 3"
definition kHcIntfPos :: u32 where [simp]: "kHcIntfPos = 4"
definition kIntrospectionGkPos :: u32 where [simp]: "kIntrospectionGkPos = 5"
definition kLruCntrOffset :: u32 where [simp]: "kLruCntrOffset = 0"
definition kLruMissOffset :: u32 where [simp]: "kLruMissOffset = 1"
definition kLruFallbackOffset :: u32 where [simp]: "kLruFallbackOffset = 3"
definition kIcmpTooBigOffset :: u32 where [simp]: "kIcmpTooBigOffset = 4"
definition kLpmSrcOffset :: u32 where [simp]: "kLpmSrcOffset = 5"
definition kInlineDecapOffset :: u32 where [simp]: "kInlineDecapOffset = 6"
definition kQuicRoutingOffset :: u32 where [simp]: "kQuicRoutingOffset = 7"
definition kMacBytes :: nat where [simp]: "kMacBytes = 6"
definition kCtlMapSize :: nat where [simp]: "kCtlMapSize = 16"
definition kMaxForwardingCores :: int where [simp]: "kMaxForwardingCores = 128"
definition kError :: int where [simp]: "kError = -1"
definition kMaxQuicId :: u32 where [simp]: "kMaxQuicId = 65535"
definition kDefaultStatsIndex :: u32 where [simp]: "kDefaultStatsIndex = 0"
definition kSrcV4Pos :: u32 where [simp]: "kSrcV4Pos = 0"
definition kSrcV6Pos :: u32 where [simp]: "kSrcV6Pos = 1"
definition kRecirculationIndex :: u32 where [simp]: "kRecirculationIndex = 0"
definition kHcSrcMacPos :: u32 where [simp]: "kHcSrcMacPos = 0"
definition kHcDstMacPos :: u32 where [simp]: "kHcDstMacPos = 1"

section \<open>System calls\<close>

text \<open>
  One call through \<open>BpfAdapter\<close>: it fails when the kernel says so or when the operation itself
  cannot succeed (an array index out of range, a key that is not there).
\<close>

definition bpf_call :: "katran_env \<Rightarrow> (kernel \<Rightarrow> kernel option) \<Rightarrow> KatranLb \<Rightarrow> bool \<times> KatranLb" where
  "bpf_call E f lb =
     (let k = kernel lb; ok = sys_ok E (calls k); k = k\<lparr>calls := Suc (calls k)\<rparr> in
      case (if ok then f k else None) of
        None \<Rightarrow> (False, lb\<lparr>kernel := k\<rparr>)
      | Some k \<Rightarrow> (True, lb\<lparr>kernel := k\<rparr>))"

definition array_set :: "'k \<Rightarrow> 'v \<Rightarrow> ('k \<rightharpoonup> 'v) \<Rightarrow> ('k \<rightharpoonup> 'v) option" where
  "array_set k v m = (if m k = None then None else Some (m(k \<mapsto> v)))"

definition hash_set :: "'k \<Rightarrow> 'v \<Rightarrow> ('k \<rightharpoonup> 'v) \<Rightarrow> ('k \<rightharpoonup> 'v) option" where
  "hash_set k v m = Some (m(k \<mapsto> v))"

definition hash_del :: "'k \<Rightarrow> ('k \<rightharpoonup> 'v) \<Rightarrow> ('k \<rightharpoonup> 'v) option" where
  "hash_del k m = (if m k = None then None else Some (m(k := None)))"

definition on_dp :: "(bpf_state \<Rightarrow> bpf_state option) \<Rightarrow> kernel \<Rightarrow> kernel option" where
  "on_dp f k = map_option (\<lambda>s. k\<lparr>dp := s\<rparr>) (f (dp k))"

definition on_hc :: "(hc_state \<Rightarrow> hc_state option) \<Rightarrow> kernel \<Rightarrow> kernel option" where
  "on_hc f k = map_option (\<lambda>s. k\<lparr>hc := s\<rparr>) (f (hc k))"

text \<open>\<open>lbStats_.bpfFailedCalls++\<close> and \<open>lbStats_.addrValidationFailed++\<close>.\<close>

definition count_failed :: "KatranLb \<Rightarrow> KatranLb" where
  "count_failed lb = lb\<lparr>lbStats := (lbStats lb)\<lparr>bpfFailedCalls := bpfFailedCalls (lbStats lb) + 1\<rparr>\<rparr>"

definition count_invalid :: "KatranLb \<Rightarrow> KatranLb" where
  "count_invalid lb = lb\<lparr>lbStats := (lbStats lb)\<lparr>addrValidationFailed := addrValidationFailed (lbStats lb) + 1\<rparr>\<rparr>"

text \<open>A call whose failure is counted and reported to the caller.\<close>

definition counted_call :: "katran_env \<Rightarrow> (kernel \<Rightarrow> kernel option) \<Rightarrow> KatranLb \<Rightarrow> bool \<times> KatranLb" where
  "counted_call E f lb = (case bpf_call E f lb of (ok, lb) \<Rightarrow> (ok, if ok then lb else count_failed lb))"

section \<open>Helpers\<close>

definition validateAddress :: "katran_env \<Rightarrow> string \<Rightarrow> bool \<Rightarrow> KatranLb \<Rightarrow> AddressType \<times> KatranLb" where
  "validateAddress E addr allowNetAddr lb =
     (if ip_create E addr = None then
        (if allowNetAddr \<and> (srcRouting (features lb) \<or> testing (config lb)) \<and> net_create E addr \<noteq> None
         then (NETWORK, lb)
         else (INVALID, count_invalid lb))
      else (HOST, lb))"

text \<open>\<open>folly::IPAddress(addr)\<close> of an address that was validated.\<close>

definition ip_of :: "katran_env \<Rightarrow> string \<Rightarrow> IPAddress" where
  "ip_of E addr = (case ip_create E addr of None \<Rightarrow> IPEmpty | Some a \<Rightarrow> a)"

definition vip_def_of :: "katran_env \<Rightarrow> VipKey \<Rightarrow> vip_definition" where
  "vip_def_of E vip =
     (let vip_addr = parseAddrToBe (ip_of E (vk_address vip)) True in
      \<lparr>vipv6 = (if be_flags vip_addr AND V6DADDR > 0 then be_v6daddr vip_addr
                else in6_zero\<lparr>s6_0 := s6_0 (be_v6daddr vip_addr)\<rparr>),
       vip_port = bswap16 (vk_port vip), vip_proto = vk_proto vip\<rparr>)"

definition updateVipMap :: "katran_env \<Rightarrow> ModifyAction \<Rightarrow> VipKey \<Rightarrow> vip_meta \<Rightarrow> KatranLb \<Rightarrow> bool \<times> KatranLb" where
  "updateVipMap E action vip meta =
     (let vip_def = vip_def_of E vip in
      case action of
        ADD \<Rightarrow> counted_call E (on_dp (\<lambda>s. map_option (\<lambda>m. s\<lparr>vip_map := m\<rparr>) (hash_set vip_def meta (vip_map s))))
      | DEL \<Rightarrow> counted_call E (on_dp (\<lambda>s. map_option (\<lambda>m. s\<lparr>vip_map := m\<rparr>) (hash_del vip_def (vip_map s)))))"

definition updateRealsMap :: "katran_env \<Rightarrow> IPAddress \<Rightarrow> u32 \<Rightarrow> KatranLb \<Rightarrow> bool \<times> KatranLb" where
  "updateRealsMap E real num =
     counted_call E (on_dp (\<lambda>s. map_option (\<lambda>m. s\<lparr>reals := m\<rparr>)
       (array_set num (as_real (parseAddrToBe real True)) (reals s))))"

definition decreaseRefCountForReal :: "IPAddress \<Rightarrow> KatranLb \<Rightarrow> KatranLb" where
  "decreaseRefCountForReal real lb =
     (case map_of (lb_reals lb) real of
        None \<Rightarrow> lb
      | Some m \<Rightarrow>
          let m = m\<lparr>refCount := refCount m - 1\<rparr> in
          if refCount m = 0 then
            lb\<lparr>realNums := realNums lb @ [rm_num m], lb_reals := AList.delete real (lb_reals lb),
               numToReals := AList.delete (rm_num m) (numToReals lb)\<rparr>
          else lb\<lparr>lb_reals := AList.update real m (lb_reals lb)\<rparr>)"

definition increaseRefCountForReal :: "katran_env \<Rightarrow> IPAddress \<Rightarrow> KatranLb \<Rightarrow> u32 \<times> KatranLb" where
  "increaseRefCountForReal E real lb =
     (case map_of (lb_reals lb) real of
        Some m \<Rightarrow>
          (rm_num m, lb\<lparr>lb_reals := AList.update real (m\<lparr>refCount := refCount m + 1\<rparr>) (lb_reals lb)\<rparr>)
      | None \<Rightarrow>
          (case realNums lb of
             [] \<Rightarrow> (maxReals (config lb), lb)
           | rnum # rest \<Rightarrow>
               let lb = lb\<lparr>realNums := rest, numToReals := AList.update rnum real (numToReals lb),
                           lb_reals := AList.update real \<lparr>rm_num = rnum, refCount = 1\<rparr> (lb_reals lb)\<rparr>;
                   lb = (if \<not> testing (config lb) then snd (updateRealsMap E real rnum lb) else lb)
               in (rnum, lb)))"

text \<open>\<open>numToReals_[num]\<close>: a missing entry is created, with an empty address.\<close>

definition numToReals_at :: "u32 \<Rightarrow> KatranLb \<Rightarrow> IPAddress \<times> KatranLb" where
  "numToReals_at num lb =
     (case map_of (numToReals lb) num of
        Some a \<Rightarrow> (a, lb)
      | None \<Rightarrow> (IPEmpty, lb\<lparr>numToReals := AList.update num IPEmpty (numToReals lb)\<rparr>))"

definition drop_real :: "u32 \<Rightarrow> KatranLb \<Rightarrow> KatranLb" where
  "drop_real num lb = (case numToReals_at num lb of (real_name, lb) \<Rightarrow> decreaseRefCountForReal real_name lb)"

section \<open>Services\<close>

definition addVip :: "katran_env \<Rightarrow> VipKey \<Rightarrow> u32 \<Rightarrow> KatranLb \<Rightarrow> bool \<times> KatranLb" where
  "addVip E vip flags lb =
     (if disableForwarding (config lb) then (False, lb)
      else case validateAddress E (vk_address vip) False lb of (ty, lb) \<Rightarrow>
        if ty = INVALID then (False, lb)
        else
          (case vipNums lb of
             [] \<Rightarrow> (False, lb)
           | num # rest \<Rightarrow>
               if map_of (vips lb) vip \<noteq> None then (False, lb)
               else
                 let lb = lb\<lparr>vipNums := rest,
                             vips := AList.update vip (Vip_new num flags (cfg_chRingSize (config lb))) (vips lb)\<rparr>
                 in if \<not> testing (config lb)
                    then (True, snd (updateVipMap E ADD vip \<lparr>vip_flags = flags, vip_num = num\<rparr> lb))
                    else (True, lb)))"

definition delVip :: "katran_env \<Rightarrow> VipKey \<Rightarrow> KatranLb \<Rightarrow> bool \<times> KatranLb" where
  "delVip E vip lb =
     (if disableForwarding (config lb) then (False, lb)
      else
        (case map_of (vips lb) vip of
           None \<Rightarrow> (False, lb)
         | Some v \<Rightarrow>
             let lb = fold drop_real (getReals (iter_reals E) v) lb;
                 lb = lb\<lparr>vipNums := vipNums lb @ [vipNum v]\<rparr>;
                 lb = (if \<not> testing (config lb)
                       then snd (updateVipMap E DEL vip \<lparr>vip_flags = 0, vip_num = 0\<rparr> lb) else lb)
             in (True, lb\<lparr>vips := AList.delete vip (vips lb)\<rparr>)))"

definition getAllVips :: "katran_env \<Rightarrow> KatranLb \<Rightarrow> VipKey list" where
  "getAllVips E lb = (if disableForwarding (config lb) then [] else map fst (iter_vips E (vips lb)))"

definition getVipFlags :: "VipKey \<Rightarrow> KatranLb \<Rightarrow> lb_error + u32" where
  "getVipFlags vip lb =
     (if disableForwarding (config lb) then Inl invalid_argument
      else case map_of (vips lb) vip of None \<Rightarrow> Inl invalid_argument | Some v \<Rightarrow> Inr (vipFlags v))"

definition modifyVip :: "katran_env \<Rightarrow> VipKey \<Rightarrow> u32 \<Rightarrow> bool \<Rightarrow> KatranLb \<Rightarrow> bool \<times> KatranLb" where
  "modifyVip E vip flag st lb =
     (case map_of (vips lb) vip of
        None \<Rightarrow> (False, lb)
      | Some v \<Rightarrow>
          let v = (if st then setVipFlags flag v else unsetVipFlags flag v);
              lb = lb\<lparr>vips := AList.update vip v (vips lb)\<rparr>
          in if \<not> testing (config lb)
             then updateVipMap E ADD vip \<lparr>vip_flags = vipFlags v, vip_num = vipNum v\<rparr> lb
             else (True, lb))"

section \<open>The reals of a service\<close>

text \<open>
  One element of the loop of \<open>modifyRealsForVip\<close>, on the vector \<open>cur_reals\<close>, the updates collected
  so far and the object. For a \<open>DEL\<close> weight and hash of the update are not set and not read.
\<close>

definition del_one :: "IPAddress \<Rightarrow> u32 list \<times> UpdateReal list \<times> KatranLb \<Rightarrow> u32 list \<times> UpdateReal list \<times> KatranLb" where
  "del_one raddr s = (case s of (cur_reals, ureals, lb) \<Rightarrow>
     (case map_of (lb_reals lb) raddr of
        None \<Rightarrow> (cur_reals, ureals, lb)
      | Some m \<Rightarrow>
          if rm_num m \<notin> set cur_reals then (cur_reals, ureals, lb)
          else (cur_reals,
                ureals @ [\<lparr>ur_action = DEL, updatedReal = \<lparr>ep_num = rm_num m, ep_weight = 0, ep_hash = 0\<rparr>\<rparr>],
                decreaseRefCountForReal raddr lb)))"

definition add_one ::
  "katran_env \<Rightarrow> u32 \<Rightarrow> IPAddress \<Rightarrow> u32 list \<times> UpdateReal list \<times> KatranLb \<Rightarrow> u32 list \<times> UpdateReal list \<times> KatranLb" where
  "add_one E weight raddr s = (case s of (cur_reals, ureals, lb) \<Rightarrow>
     let ureal = (\<lambda>num. \<lparr>ur_action = ADD, updatedReal = \<lparr>ep_num = num, ep_weight = weight, ep_hash = ip_hash E raddr\<rparr>\<rparr>) in
     (case map_of (lb_reals lb) raddr of
        Some m \<Rightarrow>
          if rm_num m \<notin> set cur_reals
          then (cur_reals @ [rm_num m], ureals @ [ureal (rm_num m)], snd (increaseRefCountForReal E raddr lb))
          else (cur_reals, ureals @ [ureal (rm_num m)], lb)
      | None \<Rightarrow>
          (case increaseRefCountForReal E raddr lb of (rnum, lb) \<Rightarrow>
             if rnum = maxReals (config lb) then (cur_reals, ureals, lb)
             else (cur_reals, ureals @ [ureal rnum], lb))))"

definition modify_one ::
  "katran_env \<Rightarrow> ModifyAction \<Rightarrow> NewReal \<Rightarrow> u32 list \<times> UpdateReal list \<times> KatranLb \<Rightarrow>
   u32 list \<times> UpdateReal list \<times> KatranLb" where
  "modify_one E action real s = (case s of (cur_reals, ureals, lb) \<Rightarrow>
     (case validateAddress E (nr_address real) False lb of (ty, lb) \<Rightarrow>
        if ty = INVALID then (cur_reals, ureals, lb)
        else
          let raddr = ip_of E (nr_address real) in
          if action = DEL then del_one raddr (cur_reals, ureals, lb)
          else add_one E (nr_weight real) raddr (cur_reals, ureals, lb)))"

definition write_ring :: "katran_env \<Rightarrow> u32 \<Rightarrow> RealPos list \<Rightarrow> KatranLb \<Rightarrow> KatranLb" where
  "write_ring E num ch_positions lb =
     fold (\<lambda>p lb.
         let key = num * cfg_chRingSize (config lb) + rp_pos p in
         snd (counted_call E (on_dp (\<lambda>s. map_option (\<lambda>m. s\<lparr>ch_rings := m\<rparr>) (array_set key (rp_real p) (ch_rings s)))) lb))
       ch_positions lb"

definition modifyRealsForVip ::
  "katran_env \<Rightarrow> ModifyAction \<Rightarrow> NewReal list \<Rightarrow> VipKey \<Rightarrow> KatranLb \<Rightarrow> (lb_error + bool) \<times> KatranLb" where
  "modifyRealsForVip E action rs vip lb =
     (if disableForwarding (config lb) then (Inr False, lb)
      else
        (case map_of (vips lb) vip of
           None \<Rightarrow> (Inr False, lb)
         | Some v \<Rightarrow>
             (case fold (modify_one E action) rs (getReals (iter_reals E) v, [], lb) of (cur_reals, ureals, lb) \<Rightarrow>
                (case batchRealsUpdate (iter_reals E) ureals v of
                   None \<Rightarrow> (Inl no_return, lb)
                 | Some (ch_positions, v) \<Rightarrow>
                     let lb = lb\<lparr>vips := AList.update vip v (vips lb)\<rparr> in
                     (Inr True, if \<not> testing (config lb) then write_ring E (vipNum v) ch_positions lb else lb)))))"

definition addRealForVip :: "katran_env \<Rightarrow> NewReal \<Rightarrow> VipKey \<Rightarrow> KatranLb \<Rightarrow> (lb_error + bool) \<times> KatranLb" where
  "addRealForVip E real vip lb =
     (if disableForwarding (config lb) then (Inr False, lb) else modifyRealsForVip E ADD [real] vip lb)"

definition delRealForVip :: "katran_env \<Rightarrow> NewReal \<Rightarrow> VipKey \<Rightarrow> KatranLb \<Rightarrow> (lb_error + bool) \<times> KatranLb" where
  "delRealForVip E real vip lb =
     (if disableForwarding (config lb) then (Inr False, lb) else modifyRealsForVip E DEL [real] vip lb)"

definition getRealsForVip :: "katran_env \<Rightarrow> VipKey \<Rightarrow> KatranLb \<Rightarrow> (lb_error + NewReal list) \<times> KatranLb" where
  "getRealsForVip E vip lb =
     (if disableForwarding (config lb) then (Inr [], lb)
      else
        (case map_of (vips lb) vip of
           None \<Rightarrow> (Inl invalid_argument, lb)
         | Some v \<Rightarrow>
             (case fold (\<lambda>real_id (out, lb). case numToReals_at (ep_num real_id) lb of
                  (a, lb) \<Rightarrow> (out @ [\<lparr>nr_address = ip_str E a, nr_weight = ep_weight real_id\<rparr>], lb))
                (getRealsAndWeight (iter_reals E) v) ([], lb) of (out, lb) \<Rightarrow> (Inr out, lb))))"

definition getIndexForReal :: "katran_env \<Rightarrow> string \<Rightarrow> KatranLb \<Rightarrow> int \<times> KatranLb" where
  "getIndexForReal E real lb =
     (if disableForwarding (config lb) then (-1, lb)
      else
        (case validateAddress E real False lb of (ty, lb) \<Rightarrow>
           if ty = INVALID then (kError, lb)
           else (case map_of (lb_reals lb) (ip_of E real) of
             Some m \<Rightarrow> (uint (rm_num m), lb)
           | None \<Rightarrow> (kError, lb))))"

section \<open>Source routing\<close>

text \<open>The source prints the prefix and parses it again, which gives the same address for every IPv4 and IPv6 address.\<close>

definition modifyLpmMap :: "katran_env \<Rightarrow> ModifyAction \<Rightarrow> CIDRNetwork \<Rightarrow> u32 \<Rightarrow> KatranLb \<Rightarrow> bool \<times> KatranLb" where
  "modifyLpmMap E action prefix val =
     (let lpm_addr = parseAddrToBe (fst prefix) True in
      if isV4 (fst prefix) then
        let key_v4 = \<lparr>prefixlen4 = ucast (snd prefix), addr4 = s6_0 (be_v6daddr lpm_addr)\<rparr> in
        counted_call E (on_dp (\<lambda>s. map_option (\<lambda>m. s\<lparr>lpm_src_v4 := m\<rparr>)
          ((if action = ADD then hash_set key_v4 val else hash_del key_v4) (lpm_src_v4 s))))
      else
        let key_v6 = \<lparr>prefixlen6 = ucast (snd prefix), addr6 = be_v6daddr lpm_addr\<rparr> in
        counted_call E (on_dp (\<lambda>s. map_option (\<lambda>m. s\<lparr>lpm_src_v6 := m\<rparr>)
          ((if action = ADD then hash_set key_v6 val else hash_del key_v6) (lpm_src_v6 s)))))"

definition modifyLpmSrcRule :: "katran_env \<Rightarrow> ModifyAction \<Rightarrow> CIDRNetwork \<Rightarrow> u32 \<Rightarrow> KatranLb \<Rightarrow> bool \<times> KatranLb" where
  "modifyLpmSrcRule E action src rnum = modifyLpmMap E action src rnum"

definition src_routing_off :: "KatranLb \<Rightarrow> bool" where
  "src_routing_off lb \<longleftrightarrow> \<not> srcRouting (features lb) \<and> \<not> testing (config lb)"

text \<open>The overload on networks: the loop stops at the first source that has no room.\<close>

fun add_src_rules :: "katran_env \<Rightarrow> IPAddress \<Rightarrow> CIDRNetwork list \<Rightarrow> KatranLb \<Rightarrow> int \<times> KatranLb" where
  "add_src_rules E dst [] lb = (0, lb)"
| "add_src_rules E dst (src # srcs) lb =
     (if length (lpmSrcMapping lb) + 1 > unat (maxLpmSrcSize (config lb)) then (kError, lb)
      else
        (case increaseRefCountForReal E dst lb of (rnum, lb) \<Rightarrow>
           if rnum = maxReals (config lb) then (kError, lb)
           else
             let lb = lb\<lparr>lpmSrcMapping := AList.update src rnum (lpmSrcMapping lb)\<rparr>;
                 lb = (if \<not> testing (config lb) then snd (modifyLpmSrcRule E ADD src rnum lb) else lb)
             in add_src_rules E dst srcs lb))"

definition addSrcRoutingRule_nets :: "katran_env \<Rightarrow> CIDRNetwork list \<Rightarrow> string \<Rightarrow> KatranLb \<Rightarrow> int \<times> KatranLb" where
  "addSrcRoutingRule_nets E srcs dst lb =
     (if disableForwarding (config lb) then (kError, lb)
      else if src_routing_off lb then (kError, lb)
      else
        (case validateAddress E dst False lb of (ty, lb) \<Rightarrow>
           if ty = INVALID then (kError, lb) else add_src_rules E (ip_of E dst) srcs lb))"

text \<open>The loop over the strings: it collects networks and counts errors.\<close>

fun collect_srcs :: "katran_env \<Rightarrow> nat \<Rightarrow> string list \<Rightarrow> CIDRNetwork list \<Rightarrow> int \<Rightarrow> KatranLb \<Rightarrow> CIDRNetwork list \<times> int \<times> KatranLb" where
  "collect_srcs E n_srcs [] nets num_errors lb = (nets, num_errors, lb)"
| "collect_srcs E n_srcs (src # srcs) nets num_errors lb =
     (case validateAddress E src True lb of (ty, lb) \<Rightarrow>
        if ty \<noteq> NETWORK then collect_srcs E n_srcs srcs nets (num_errors + 1) lb
        else if length (lpmSrcMapping lb) + length nets + 1 > unat (maxLpmSrcSize (config lb))
        then (nets, num_errors + (int n_srcs - int (length nets)), lb)
        else collect_srcs E n_srcs srcs (nets @ [the (net_create E src)]) num_errors lb)"

definition addSrcRoutingRule :: "katran_env \<Rightarrow> string list \<Rightarrow> string \<Rightarrow> KatranLb \<Rightarrow> int \<times> KatranLb" where
  "addSrcRoutingRule E srcs dst lb =
     (if disableForwarding (config lb) then (kError, lb)
      else if src_routing_off lb then (kError, lb)
      else
        (case validateAddress E dst False lb of (ty, lb) \<Rightarrow>
           if ty = INVALID then (kError, lb)
           else
             (case collect_srcs E (length srcs) srcs [] 0 lb of (src_networks, num_errors, lb) \<Rightarrow>
                (case addSrcRoutingRule_nets E src_networks dst lb of (rval, lb) \<Rightarrow>
                   (if rval = kError then rval else num_errors, lb)))))"

definition del_src_rule :: "katran_env \<Rightarrow> CIDRNetwork \<Rightarrow> KatranLb \<Rightarrow> KatranLb" where
  "del_src_rule E src lb =
     (case map_of (lpmSrcMapping lb) src of
        None \<Rightarrow> lb
      | Some rnum \<Rightarrow>
          let lb = drop_real rnum lb;
              lb = (if \<not> testing (config lb) then snd (modifyLpmSrcRule E DEL src rnum lb) else lb)
          in lb\<lparr>lpmSrcMapping := AList.delete src (lpmSrcMapping lb)\<rparr>)"

definition delSrcRoutingRule_nets :: "katran_env \<Rightarrow> CIDRNetwork list \<Rightarrow> KatranLb \<Rightarrow> bool \<times> KatranLb" where
  "delSrcRoutingRule_nets E srcs lb =
     (if disableForwarding (config lb) then (False, lb)
      else if src_routing_off lb then (False, lb)
      else (True, fold (del_src_rule E) srcs lb))"

definition delSrcRoutingRule :: "katran_env \<Rightarrow> string list \<Rightarrow> KatranLb \<Rightarrow> bool \<times> KatranLb" where
  "delSrcRoutingRule E srcs lb =
     (if disableForwarding (config lb) then (False, lb)
      else if src_routing_off lb then (False, lb)
      else delSrcRoutingRule_nets E (List.map_filter (net_create E) srcs) lb)"

text \<open>
  \<open>clearAllSrcRoutingRules\<close> looks the real up with \<open>find\<close> and uses the iterator unchecked: a missing
  entry is undefined behaviour.
\<close>

fun clear_src_rules :: "katran_env \<Rightarrow> (CIDRNetwork \<times> u32) list \<Rightarrow> KatranLb \<Rightarrow> (lb_error + unit) \<times> KatranLb" where
  "clear_src_rules E [] lb = (Inr (), lb)"
| "clear_src_rules E ((src, rnum) # rules) lb =
     (case map_of (numToReals lb) rnum of
        None \<Rightarrow> (Inl out_of_bounds, lb)
      | Some dst \<Rightarrow>
          let lb = decreaseRefCountForReal dst lb;
              lb = (if \<not> testing (config lb) then snd (modifyLpmSrcRule E DEL src rnum lb) else lb)
          in clear_src_rules E rules lb)"

definition clearAllSrcRoutingRules :: "katran_env \<Rightarrow> KatranLb \<Rightarrow> (lb_error + bool) \<times> KatranLb" where
  "clearAllSrcRoutingRules E lb =
     (if disableForwarding (config lb) then (Inr False, lb)
      else if src_routing_off lb then (Inr False, lb)
      else
        (case clear_src_rules E (iter_rules E (lpmSrcMapping lb)) lb of
           (Inl e, lb) \<Rightarrow> (Inl e, lb)
         | (Inr _, lb) \<Rightarrow> (Inr True, lb\<lparr>lpmSrcMapping := []\<rparr>)))"

definition getSrcRoutingRuleSize :: "KatranLb \<Rightarrow> u32" where
  "getSrcRoutingRuleSize lb = of_nat (length (lpmSrcMapping lb))"

text \<open>\<open>folly::sformat("{}/{}", ...)\<close> of an address and the length of its prefix.\<close>

fun dec_text :: "nat \<Rightarrow> string" where
  "dec_text n = (if n < 10 then [''0123456789'' ! n] else dec_text (n div 10) @ [''0123456789'' ! (n mod 10)])"

declare dec_text.simps [simp del]

definition net_text :: "katran_env \<Rightarrow> CIDRNetwork \<Rightarrow> string" where
  "net_text E src = ip_str E (fst src) @ ''/'' @ dec_text (unat (snd src))"

definition getSrcRoutingRule :: "katran_env \<Rightarrow> KatranLb \<Rightarrow> (string \<times> string) list \<times> KatranLb" where
  "getSrcRoutingRule E lb =
     (if disableForwarding (config lb) \<or> src_routing_off lb then ([], lb)
      else fold (\<lambda>(src, num) (out, lb). case numToReals_at num lb of (a, lb) \<Rightarrow> (AList.update (net_text E src) (ip_str E a) out, lb))
             (iter_rules E (lpmSrcMapping lb)) ([], lb))"

definition getSrcRoutingRuleCidr :: "katran_env \<Rightarrow> KatranLb \<Rightarrow> (CIDRNetwork \<times> string) list \<times> KatranLb" where
  "getSrcRoutingRuleCidr E lb =
     (if disableForwarding (config lb) \<or> src_routing_off lb then ([], lb)
      else fold (\<lambda>(src, num) (out, lb). case numToReals_at num lb of (a, lb) \<Rightarrow> (AList.update src (ip_str E a) out, lb))
             (iter_rules E (lpmSrcMapping lb)) ([], lb))"

definition getNumToRealMap :: "katran_env \<Rightarrow> KatranLb \<Rightarrow> (u32 \<times> string) list" where
  "getNumToRealMap E lb = map (\<lambda>(num, a). (num, ip_str E a)) (iter_addrs E (numToReals lb))"

section \<open>Inline decapsulation\<close>

definition modifyDecapDst :: "katran_env \<Rightarrow> ModifyAction \<Rightarrow> IPAddress \<Rightarrow> u32 \<Rightarrow> KatranLb \<Rightarrow> bool \<times> KatranLb" where
  "modifyDecapDst E action dst flags =
     (let addr = be_v6daddr (parseAddrToBe dst True) in
      counted_call E (on_dp (\<lambda>s. map_option (\<lambda>m. s\<lparr>decap_dst := m\<rparr>)
        ((if action = ADD then hash_set addr flags else hash_del addr) (decap_dst s)))))"

definition inline_decap_off :: "KatranLb \<Rightarrow> bool" where
  "inline_decap_off lb \<longleftrightarrow> \<not> inlineDecap (features lb) \<and> \<not> testing (config lb)"

definition addInlineDecapDst :: "katran_env \<Rightarrow> string \<Rightarrow> KatranLb \<Rightarrow> bool \<times> KatranLb" where
  "addInlineDecapDst E dst lb =
     (if disableForwarding (config lb) then (False, lb)
      else if inline_decap_off lb then (False, lb)
      else
        (case validateAddress E dst False lb of (ty, lb) \<Rightarrow>
           if ty = INVALID then (False, lb)
           else
             let daddr = ip_of E dst in
             if daddr \<in> set (decapDsts lb) then (False, lb)
             else if length (decapDsts lb) + 1 > unat (maxDecapDst (config lb)) then (False, lb)
             else
               let lb = lb\<lparr>decapDsts := decapDsts lb @ [daddr]\<rparr> in
               (True, if \<not> testing (config lb) then snd (modifyDecapDst E ADD daddr 0 lb) else lb)))"

definition delInlineDecapDst :: "katran_env \<Rightarrow> string \<Rightarrow> KatranLb \<Rightarrow> bool \<times> KatranLb" where
  "delInlineDecapDst E dst lb =
     (if disableForwarding (config lb) then (False, lb)
      else if inline_decap_off lb then (False, lb)
      else
        (case validateAddress E dst False lb of (ty, lb) \<Rightarrow>
           if ty = INVALID then (False, lb)
           else
             let daddr = ip_of E dst in
             if daddr \<notin> set (decapDsts lb) then (False, lb)
             else
               let lb = lb\<lparr>decapDsts := removeAll daddr (decapDsts lb)\<rparr> in
               (True, if \<not> testing (config lb) then snd (modifyDecapDst E DEL daddr 0 lb) else lb)))"

definition getInlineDecapDst :: "katran_env \<Rightarrow> KatranLb \<Rightarrow> string list" where
  "getInlineDecapDst E lb =
     (if disableForwarding (config lb) then [] else map (ip_str E) (iter_dsts E (decapDsts lb)))"

section \<open>QUIC\<close>

definition quic_one ::
  "katran_env \<Rightarrow> ModifyAction \<Rightarrow> QuicReal \<Rightarrow> (u32 \<times> u32) list \<times> KatranLb \<Rightarrow> (u32 \<times> u32) list \<times> KatranLb" where
  "quic_one E action real s = (case s of (to_update, lb) \<Rightarrow>
     (case validateAddress E (qr_address real) False lb of (ty, lb) \<Rightarrow>
        if ty = INVALID then (to_update, lb)
        else if qr_id real > kMaxQuicId then (to_update, lb)
        else
          let raddr = ip_of E (qr_address real) in
          if action = DEL then
            (if map_of (quicMapping lb) raddr = None then (to_update, lb)
             else (to_update, (decreaseRefCountForReal raddr lb)\<lparr>quicMapping := AList.delete raddr (quicMapping lb)\<rparr>))
          else if map_of (quicMapping lb) raddr \<noteq> None then (to_update, lb)
          else
            (case increaseRefCountForReal E raddr lb of (rnum, lb) \<Rightarrow>
               if rnum = maxReals (config lb) then (to_update, lb)
               else (AList.update (qr_id real) rnum to_update,
                     lb\<lparr>quicMapping := AList.update raddr (qr_id real) (quicMapping lb)\<rparr>))))"

definition modifyQuicRealsMapping :: "katran_env \<Rightarrow> ModifyAction \<Rightarrow> QuicReal list \<Rightarrow> KatranLb \<Rightarrow> KatranLb" where
  "modifyQuicRealsMapping E action rs lb =
     (if disableForwarding (config lb) then lb
      else
        (case fold (quic_one E action) rs ([], lb) of (to_update, lb) \<Rightarrow>
           if \<not> testing (config lb) then
             fold (\<lambda>(id, rnum) lb. snd (counted_call E
                 (on_dp (\<lambda>s. map_option (\<lambda>m. s\<lparr>quic_mapping := m\<rparr>) (array_set id rnum (quic_mapping s)))) lb))
               (iter_ids E to_update) lb
           else lb))"

definition getQuicRealsMapping :: "katran_env \<Rightarrow> KatranLb \<Rightarrow> QuicReal list" where
  "getQuicRealsMapping E lb =
     (if disableForwarding (config lb) then []
      else map (\<lambda>(a, id). \<lparr>qr_address = ip_str E a, qr_id = id\<rparr>) (iter_quic E (quicMapping lb)))"

section \<open>Counters\<close>

text \<open>
  \<open>look map position\<close> is what \<open>bpfMapLookupElement\<close> returns for a per-CPU map: one entry per CPU,
  or a failure.
\<close>

definition getLbStats :: "(string \<Rightarrow> u32 \<Rightarrow> lb_stats list option) \<Rightarrow> string \<Rightarrow> u32 \<Rightarrow> KatranLb \<Rightarrow> lb_stats \<times> KatranLb" where
  "getLbStats look map_name position lb =
     (let sum_stat = \<lparr>v1 = 0, v2 = 0\<rparr> in
      if disableForwarding (config lb) then (sum_stat, lb)
      else if testing (config lb) then (sum_stat, lb)
      else
        (case look map_name position of
           None \<Rightarrow> (sum_stat, count_failed lb)
         | Some per_cpu \<Rightarrow> (fold (\<lambda>stat sum. \<lparr>v1 = v1 sum + v1 stat, v2 = v2 sum + v2 stat\<rparr>) per_cpu sum_stat, lb)))"

definition getStatsForVip :: "(string \<Rightarrow> u32 \<Rightarrow> lb_stats list option) \<Rightarrow> VipKey \<Rightarrow> KatranLb \<Rightarrow> lb_stats \<times> KatranLb" where
  "getStatsForVip look vip lb =
     (case map_of (vips lb) vip of
        None \<Rightarrow> (\<lparr>v1 = 0, v2 = 0\<rparr>, lb)
      | Some v \<Rightarrow> getLbStats look ''stats'' (vipNum v) lb)"

definition getLruStats :: "(string \<Rightarrow> u32 \<Rightarrow> lb_stats list option) \<Rightarrow> KatranLb \<Rightarrow> lb_stats \<times> KatranLb" where
  "getLruStats look lb = getLbStats look ''stats'' (maxVips (config lb) + kLruCntrOffset) lb"

definition getLruMissStats :: "(string \<Rightarrow> u32 \<Rightarrow> lb_stats list option) \<Rightarrow> KatranLb \<Rightarrow> lb_stats \<times> KatranLb" where
  "getLruMissStats look lb = getLbStats look ''stats'' (maxVips (config lb) + kLruMissOffset) lb"

definition getLruFallbackStats :: "(string \<Rightarrow> u32 \<Rightarrow> lb_stats list option) \<Rightarrow> KatranLb \<Rightarrow> lb_stats \<times> KatranLb" where
  "getLruFallbackStats look lb = getLbStats look ''stats'' (maxVips (config lb) + kLruFallbackOffset) lb"

definition getIcmpTooBigStats :: "(string \<Rightarrow> u32 \<Rightarrow> lb_stats list option) \<Rightarrow> KatranLb \<Rightarrow> lb_stats \<times> KatranLb" where
  "getIcmpTooBigStats look lb = getLbStats look ''stats'' (maxVips (config lb) + kIcmpTooBigOffset) lb"

definition getQuicRoutingStats :: "(string \<Rightarrow> u32 \<Rightarrow> lb_stats list option) \<Rightarrow> KatranLb \<Rightarrow> lb_stats \<times> KatranLb" where
  "getQuicRoutingStats look lb = getLbStats look ''stats'' (maxVips (config lb) + kQuicRoutingOffset) lb"

definition getSrcRoutingStats :: "(string \<Rightarrow> u32 \<Rightarrow> lb_stats list option) \<Rightarrow> KatranLb \<Rightarrow> lb_stats \<times> KatranLb" where
  "getSrcRoutingStats look lb = getLbStats look ''stats'' (maxVips (config lb) + kLpmSrcOffset) lb"

definition getInlineDecapStats :: "(string \<Rightarrow> u32 \<Rightarrow> lb_stats list option) \<Rightarrow> KatranLb \<Rightarrow> lb_stats \<times> KatranLb" where
  "getInlineDecapStats look lb = getLbStats look ''stats'' (maxVips (config lb) + kInlineDecapOffset) lb"

definition getRealStats :: "(string \<Rightarrow> u32 \<Rightarrow> lb_stats list option) \<Rightarrow> u32 \<Rightarrow> KatranLb \<Rightarrow> lb_stats \<times> KatranLb" where
  "getRealStats look index lb = getLbStats look ''reals_stats'' index lb"

definition getStatsForHealthCheckProgram :: "(u32 \<Rightarrow> hc_stats list option) \<Rightarrow> KatranLb \<Rightarrow> hc_stats \<times> KatranLb" where
  "getStatsForHealthCheckProgram look lb =
     (let total_stats = \<lparr>pckts_processed = 0, pckts_dropped = 0, pckts_skipped = 0, pckts_too_big = 0\<rparr> in
      if testing (config lb) then (total_stats, lb)
      else
        (case look kDefaultStatsIndex of
           None \<Rightarrow> (total_stats, count_failed lb)
         | Some per_cpu \<Rightarrow>
             (fold (\<lambda>p sum. \<lparr>pckts_processed = pckts_processed sum + pckts_processed p,
                             pckts_dropped = pckts_dropped sum + pckts_dropped p,
                             pckts_skipped = pckts_skipped sum + pckts_skipped p,
                             pckts_too_big = pckts_too_big sum + pckts_too_big p\<rparr>) per_cpu total_stats, lb)))"

section \<open>Health checks\<close>

definition addHealthcheckerDst :: "katran_env \<Rightarrow> u32 \<Rightarrow> string \<Rightarrow> KatranLb \<Rightarrow> bool \<times> KatranLb" where
  "addHealthcheckerDst E somark dst lb =
     (if \<not> enableHc (config lb) then (False, lb)
      else
        (case validateAddress E dst False lb of (ty, lb) \<Rightarrow>
           if ty = INVALID then (False, lb)
           else
             let hcaddr = ip_of E dst in
             if map_of (hcReals lb) somark = None \<and> length (hcReals lb) = unat (maxReals (config lb)) then (False, lb)
             else
               let addr = (if isV4 hcaddr \<and> \<not> directHealthchecking (features lb)
                           then parseAddrToInt hcaddr else parseAddrToBe hcaddr True);
                   (ok, lb) = (if \<not> testing (config lb)
                     then counted_call E (on_hc (\<lambda>s. map_option (\<lambda>m. s\<lparr>hc_reals_map := m\<rparr>)
                            (hash_set somark (as_hc_real addr) (hc_reals_map s)))) lb
                     else (True, lb))
               in if \<not> ok then (False, lb)
                  else (True, lb\<lparr>hcReals := AList.update somark hcaddr (hcReals lb)\<rparr>)))"

definition delHealthcheckerDst :: "katran_env \<Rightarrow> u32 \<Rightarrow> KatranLb \<Rightarrow> bool \<times> KatranLb" where
  "delHealthcheckerDst E somark lb =
     (if \<not> enableHc (config lb) then (False, lb)
      else if map_of (hcReals lb) somark = None then (False, lb)
      else
        let (ok, lb) = (if \<not> testing (config lb)
              then counted_call E (on_hc (\<lambda>s. map_option (\<lambda>m. s\<lparr>hc_reals_map := m\<rparr>)
                     (hash_del somark (hc_reals_map s)))) lb
              else (True, lb))
        in if \<not> ok then (False, lb)
           else (True, lb\<lparr>hcReals := AList.delete somark (hcReals lb)\<rparr>))"

definition getHealthcheckersDst :: "katran_env \<Rightarrow> KatranLb \<Rightarrow> (u32 \<times> string) list" where
  "getHealthcheckersDst E lb = map (\<lambda>(m, a). (m, ip_str E a)) (iter_addrs E (hcReals lb))"

end
