(* ===== verification/Katran_Pool.thy ===== *)
theory Katran_Pool
  imports Katran_Lb
begin

text \<open>
  The pool of reals of \<open>KatranLb\<close>: \<open>increaseRefCountForReal\<close> and \<open>decreaseRefCountForReal\<close> keep three
  tables in step, the counts by address, the addresses by number and the free numbers. The
  interface \<open>real_pool\<close> is what the services, source routes and QUIC mappings rely on; it is
  interpreted on the code's functions.
\<close>

section \<open>The interface of the pool of reals\<close>

text \<open>
  Every user of a real (a service, a source route, a QUIC mapping) acquires it by address and
  releases it once. \<open>pool U s\<close> says that the state \<open>s\<close> accounts for the users \<open>U\<close>, a multiset of
  addresses; \<open>name s\<close> gives the address behind a number.
\<close>

locale real_pool =
  fixes release :: "'a \<Rightarrow> 's \<Rightarrow> 's"
    and pool :: "'a multiset \<Rightarrow> 's \<Rightarrow> bool"
    and name :: "'s \<Rightarrow> u32 \<rightharpoonup> 'a"
    and drop_num :: "u32 \<Rightarrow> 's \<Rightarrow> 's"
  assumes release_pool: "pool U s \<Longrightarrow> a \<in># U \<Longrightarrow> pool (U - {#a#}) (release a s)"
    and release_name: "pool U s \<Longrightarrow> name s n = Some b \<Longrightarrow> b \<in># U - {#a#} \<Longrightarrow> name (release a s) n = Some b"
    and drop_num: "name s n = Some a \<Longrightarrow> drop_num n s = release a s"
begin

text \<open>Releasing a list of reals by their numbers: the addresses that are still in use keep theirs.\<close>

lemma release_all:
  assumes "pool U s" "\<forall>n \<in> set ns. name s n = Some (f n)" "image_mset f (mset ns) \<subseteq># U"
  shows "pool (U - image_mset f (mset ns)) (fold drop_num ns s) \<and>
    (\<forall>k b. name s k = Some b \<longrightarrow> b \<in># U - image_mset f (mset ns) \<longrightarrow> name (fold drop_num ns s) k = Some b)"
  using assms
proof (induction ns arbitrary: s U)
  case (Cons n ns)
  let ?s = "release (f n) s" and ?U = "U - {#f n#}"
  have n: "name s n = Some (f n)" using Cons.prems(2) by simp
  have sub: "image_mset f (mset ns) \<subseteq># ?U" "f n \<in># U" using Cons.prems(3) by (simp_all add: insert_subset_eq_iff)
  note keep = release_name [OF Cons.prems(1), of _ _ "f n"]
  have "f k \<in># ?U" if "k \<in> set ns" for k using sub(1) that by (auto intro: mset_subset_eqD)
  then have names: "\<forall>k \<in> set ns. name ?s k = Some (f k)" using Cons.prems(2) keep by simp
  have U: "?U - image_mset f (mset ns) = U - image_mset f (mset (n # ns))" by simp
  note IH = Cons.IH [OF release_pool [OF Cons.prems(1) sub(2)] names sub(1), unfolded U]
  show ?case
  proof (intro conjI allI impI)
    show "pool (U - image_mset f (mset (n # ns))) (fold drop_num (n # ns) s)" using IH drop_num [OF n] by simp
    fix k b assume k: "name s k = Some b" "b \<in># U - image_mset f (mset (n # ns))"
    then have "b \<in># ?U" by (metis U in_diffD)
    then have "name ?s k = Some b" using keep k(1) by blast
    then show "name (fold drop_num (n # ns) s) k = Some b" using IH k(2) drop_num [OF n] by simp
  qed
qed simp

end

section \<open>The pool of \<open>KatranLb\<close>\<close>

definition real_name :: "KatranLb \<Rightarrow> u32 \<rightharpoonup> IPAddress" where
  "real_name lb = map_of (numToReals lb)"

definition real_meta :: "KatranLb \<Rightarrow> IPAddress \<rightharpoonup> RealMeta" where
  "real_meta lb = map_of (lb_reals lb)"

definition pool_ok :: "IPAddress multiset \<Rightarrow> KatranLb \<Rightarrow> bool" where
  "pool_ok U lb \<longleftrightarrow> size U < 2 ^ 32 \<and> (\<forall>a. real_meta lb a = None \<longleftrightarrow> a \<notin># U) \<and>
     (\<forall>a m. real_meta lb a = Some m \<longrightarrow> unat (refCount m) = count U a \<and> real_name lb (rm_num m) = Some a) \<and>
     (\<forall>n a. real_name lb n = Some a \<longrightarrow> n < maxReals (config lb) \<and> (\<exists>m. real_meta lb a = Some m \<and> rm_num m = n)) \<and>
     distinct (realNums lb) \<and> (\<forall>n. n \<in> set (realNums lb) \<longleftrightarrow> n < maxReals (config lb) \<and> real_name lb n = None)"

lemma count_size: "count U a \<le> size U"
  by (induction U) auto

lemma pool_okI:
  assumes "size U < 2 ^ 32" "\<And>a. real_meta lb a = None \<longleftrightarrow> a \<notin># U"
    and "\<And>a m. real_meta lb a = Some m \<Longrightarrow> unat (refCount m) = count U a"
    and "\<And>a m. real_meta lb a = Some m \<Longrightarrow> real_name lb (rm_num m) = Some a"
    and "\<And>n a. real_name lb n = Some a \<Longrightarrow> n < maxReals (config lb)"
    and "\<And>n a. real_name lb n = Some a \<Longrightarrow> \<exists>m. real_meta lb a = Some m \<and> rm_num m = n"
    and "distinct (realNums lb)"
    and "\<And>n. n \<in> set (realNums lb) \<longleftrightarrow> n < maxReals (config lb) \<and> real_name lb n = None"
  shows "pool_ok U lb"
  using assms unfolding pool_ok_def by blast

lemma pool_okD:
  assumes "pool_ok U lb"
  shows "size U < 2 ^ 32" "real_meta lb a = None \<longleftrightarrow> a \<notin># U"
    and "real_meta lb a = Some m \<Longrightarrow> unat (refCount m) = count U a"
    and "real_meta lb a = Some m \<Longrightarrow> real_name lb (rm_num m) = Some a"
    and "real_name lb n = Some a \<Longrightarrow> n < maxReals (config lb)"
    and "real_name lb n = Some a \<Longrightarrow> \<exists>m. real_meta lb a = Some m \<and> rm_num m = n"
    and "distinct (realNums lb)"
    and "n \<in> set (realNums lb) \<longleftrightarrow> n < maxReals (config lb) \<and> real_name lb n = None"
  using assms unfolding pool_ok_def by blast+

lemma real_name_inj: "pool_ok U lb \<Longrightarrow> real_name lb n = Some a \<Longrightarrow> real_name lb k = Some a \<Longrightarrow> n = k"
  by (metis option.inject pool_okD(6))

text \<open>A real that stays: only its count changes.\<close>

lemma pool_ok_recount:
  assumes ok: "pool_ok U lb" and m: "real_meta lb a = Some m"
    and rc: "unat rc = count V a" "0 < count V a" and V: "size V < 2 ^ 32" "\<And>b. b \<noteq> a \<Longrightarrow> count V b = count U b"
  shows "pool_ok V (lb\<lparr>lb_reals := AList.update a (m\<lparr>refCount := rc\<rparr>) (lb_reals lb)\<rparr>)" (is "pool_ok V ?lb")
proof -
  note D = pool_okD [OF ok]
  have meta: "real_meta ?lb = (real_meta lb)(a \<mapsto> m\<lparr>refCount := rc\<rparr>)" and name: "real_name ?lb = real_name lb"
    by (simp_all add: real_meta_def real_name_def update_conv')
  have inV: "b \<in># V \<longleftrightarrow> b \<in># U \<or> b = a" for b using V(2) [of b] rc(2) by (metis count_greater_zero_iff)
  show ?thesis
  proof (rule pool_okI)
    show "real_meta ?lb b = None \<longleftrightarrow> b \<notin># V" for b unfolding meta inV using D(2) by auto
    show "unat (refCount k) = count V b" "real_name ?lb (rm_num k) = Some b" if "real_meta ?lb b = Some k" for b k
      using that D(3,4) [of b k] D(4) [OF m] rc(1) V(2) [of b] unfolding meta name by (auto split: if_splits)
    show "\<exists>k. real_meta ?lb b = Some k \<and> rm_num k = n" if "real_name ?lb n = Some b" for n b
      using that D(6) [of n b] m unfolding meta name by auto
  qed (use V(1) D(5,7,8) in \<open>auto simp: name\<close>)
qed

lemma pool_ok_release:
  assumes ok: "pool_ok U lb" and a: "a \<in># U"
  shows "pool_ok (U - {#a#}) (decreaseRefCountForReal a lb)"
proof -
  note D = pool_okD [OF ok]
  have s: "size (U - {#a#}) < 2 ^ 32" using D(1) size_mset_mono [OF diff_subset_eq_self [of U "{#a#}"]] by linarith
  obtain m where m: "real_meta lb a = Some m" using D(2) a by auto
  note rc = D(3) [OF m] and nm = D(4) [OF m]
  have pos: "0 < count U a" using a by simp
  then have dec: "unat (refCount m - 1) = count U a - 1" using rc by (metis not_less_zero unat_0 unat_minus_one)
  show ?thesis
  proof (cases "count U a = 1")
    case True
    then have "refCount m - 1 = 0" using dec by (simp add: unat_eq_zero)
    then have d: "decreaseRefCountForReal a lb = lb\<lparr>realNums := realNums lb @ [rm_num m],
        lb_reals := AList.delete a (lb_reals lb), numToReals := AList.delete (rm_num m) (numToReals lb)\<rparr>" (is "_ = ?lb")
      using m by (simp add: decreaseRefCountForReal_def real_meta_def)
    have meta: "real_meta ?lb = (real_meta lb)(a := None)" and name: "real_name ?lb = (real_name lb)(rm_num m := None)"
      by (simp_all add: real_meta_def real_name_def delete_conv')
    have inU: "b \<in># U - {#a#} \<longleftrightarrow> b \<in># U \<and> b \<noteq> a" for b using True by (auto simp: in_diff_count)
    show ?thesis unfolding d
    proof (rule pool_okI)
      show "real_meta ?lb b = None \<longleftrightarrow> b \<notin># U - {#a#}" for b unfolding meta inU using D(2) by auto
      show "unat (refCount k) = count (U - {#a#}) b" "real_name ?lb (rm_num k) = Some b"
        if "real_meta ?lb b = Some k" for b k
        using that D(3,4) [of b k] nm unfolding meta name by (auto split: if_splits)
      show "\<exists>k. real_meta ?lb b = Some k \<and> rm_num k = n" if "real_name ?lb n = Some b" for n b
        using that D(6) [of n b] m unfolding meta name by (auto split: if_splits)
    qed (use s D(5,7,8) nm in \<open>auto simp: name split: if_splits\<close>)
  next
    case False
    then have "unat (refCount m - 1) \<noteq> 0" using dec pos by linarith
    then have "refCount m - 1 \<noteq> 0" by auto
    then have d: "decreaseRefCountForReal a lb = lb\<lparr>lb_reals := AList.update a (m\<lparr>refCount := refCount m - 1\<rparr>) (lb_reals lb)\<rparr>" (is "_ = ?lb")
      using m by (simp add: decreaseRefCountForReal_def real_meta_def)
    have "1 < count U a" using False pos by linarith
    then show ?thesis unfolding d using s dec by (intro pool_ok_recount [OF ok m]) auto
  qed
qed

lemma release_keeps_name:
  assumes ok: "pool_ok U lb" and n: "real_name lb n = Some b" "b \<in># U - {#a#}"
  shows "real_name (decreaseRefCountForReal a lb) n = Some b"
proof (cases "map_of (lb_reals lb) a")
  case (Some m)
  then have m: "real_name lb (rm_num m) = Some a" "unat (refCount m) = count U a"
    using pool_okD(3,4) [OF ok] by (simp_all add: real_meta_def)
  show ?thesis
  proof (cases "b = a")
    case True
    then have "refCount m - 1 \<noteq> 0" using n(2) m(2) by (auto simp: in_diff_count)
    then show ?thesis using Some n(1) by (simp add: decreaseRefCountForReal_def real_name_def Let_def)
  next
    case False
    then have "rm_num m \<noteq> n" using n m(1) by auto
    then show ?thesis using Some n by (simp add: decreaseRefCountForReal_def real_name_def delete_conv' Let_def)
  qed
qed (use n in \<open>simp add: decreaseRefCountForReal_def\<close>)

lemma drop_real_named: "real_name lb n = Some a \<Longrightarrow> drop_real n lb = decreaseRefCountForReal a lb"
  by (simp add: drop_real_def numToReals_at_def real_name_def)

interpretation lb_pool: real_pool decreaseRefCountForReal pool_ok real_name drop_real
  by unfold_locales (auto intro: pool_ok_release release_keeps_name drop_real_named)

text \<open>What the operations on the pool leave alone.\<close>

definition lb_rest :: "KatranLb \<Rightarrow> KatranConfig \<times> u32 list \<times> (VipKey \<times> Vip) list \<times> (CIDRNetwork \<times> u32) list \<times> (IPAddress \<times> u32) list" where
  "lb_rest lb = (config lb, vipNums lb, vips lb, lpmSrcMapping lb, quicMapping lb)"

definition lb_pool_of :: "KatranLb \<Rightarrow> (IPAddress \<times> RealMeta) list \<times> (u32 \<times> IPAddress) list \<times> u32 list" where
  "lb_pool_of lb = (lb_reals lb, numToReals lb, realNums lb)"

lemma lb_restD:
  "lb_rest lb = lb_rest lb' \<Longrightarrow> config lb = config lb' \<and> vipNums lb = vipNums lb' \<and> vips lb = vips lb' \<and>
     lpmSrcMapping lb = lpmSrcMapping lb' \<and> quicMapping lb = quicMapping lb'"
  by (simp add: lb_rest_def)

lemma call_keeps [simp]:
  "lb_rest (snd (bpf_call E f lb)) = lb_rest lb" "lb_pool_of (snd (bpf_call E f lb)) = lb_pool_of lb"
  "lb_rest (snd (counted_call E f lb)) = lb_rest lb" "lb_pool_of (snd (counted_call E f lb)) = lb_pool_of lb"
  by (auto simp: lb_rest_def lb_pool_of_def bpf_call_def counted_call_def count_failed_def Let_def
      split: option.split prod.split)

lemma pool_ok_cong: "lb_pool_of lb = lb_pool_of lb' \<Longrightarrow> config lb = config lb' \<Longrightarrow> pool_ok U lb = pool_ok U lb'"
  by (simp add: lb_pool_of_def pool_ok_def real_meta_def real_name_def)

lemma real_name_cong: "lb_pool_of lb = lb_pool_of lb' \<Longrightarrow> real_name lb = real_name lb'"
  by (simp add: lb_pool_of_def real_name_def)

lemma updates_keep [simp]:
  "lb_rest (snd (updateVipMap E act vip meta lb)) = lb_rest lb" "lb_pool_of (snd (updateVipMap E act vip meta lb)) = lb_pool_of lb"
  "lb_rest (snd (updateRealsMap E a n lb)) = lb_rest lb" "lb_pool_of (snd (updateRealsMap E a n lb)) = lb_pool_of lb"
  "lb_rest (snd (modifyLpmSrcRule E act src n lb)) = lb_rest lb" "lb_pool_of (snd (modifyLpmSrcRule E act src n lb)) = lb_pool_of lb"
  by (auto simp: updateVipMap_def updateRealsMap_def modifyLpmSrcRule_def modifyLpmMap_def Let_def split: ModifyAction.split)

lemma validateAddress_keeps:
  "validateAddress E s n lb = (ty, lb') \<Longrightarrow> lb_rest lb' = lb_rest lb \<and> lb_pool_of lb' = lb_pool_of lb \<and>
     kernel lb' = kernel lb \<and> features lb' = features lb"
  by (auto simp: validateAddress_def count_invalid_def lb_rest_def lb_pool_of_def split: if_splits)

lemma release_rest [simp]: "lb_rest (decreaseRefCountForReal a lb) = lb_rest lb"
  by (auto simp: decreaseRefCountForReal_def lb_rest_def Let_def split: option.split)

lemma acquire_rest [simp]: "lb_rest (snd (increaseRefCountForReal E a lb)) = lb_rest lb"
proof -
  have "lb_rest (snd (updateRealsMap E a n lb')) = lb_rest lb'" for n lb' by simp
  then show ?thesis
    by (auto simp: increaseRefCountForReal_def Let_def lb_rest_def split: option.split list.split)
qed

text \<open>Acquiring: a new user of a known real, a new real with a fresh number, or no number left.\<close>

lemma acquire_known:
  assumes ok: "pool_ok U lb" and room: "size U + 1 < 2 ^ 32" and m: "real_meta lb a = Some m"
    and acq: "increaseRefCountForReal E a lb = (n, lb')"
  shows "n = rm_num m" "pool_ok (add_mset a U) lb'" "real_name lb' = real_name lb"
proof -
  have lb': "n = rm_num m" "lb' = lb\<lparr>lb_reals := AList.update a (m\<lparr>refCount := refCount m + 1\<rparr>) (lb_reals lb)\<rparr>"
    using acq m by (auto simp: increaseRefCountForReal_def real_meta_def)
  then show "n = rm_num m" "real_name lb' = real_name lb" by (simp_all add: real_name_def)
  have "count U a < 2 ^ 32 - 1" using room count_size [of U a] by linarith
  then have "unat (refCount m + 1) = count U a + 1" using pool_okD(3) [OF ok m] by (simp add: unat_word_ariths)
  then show "pool_ok (add_mset a U) lb'" unfolding lb' using room by (intro pool_ok_recount [OF ok m]) auto
qed

lemma acquire_new:
  assumes ok: "pool_ok U lb" and room: "size U + 1 < 2 ^ 32" and m: "real_meta lb a = None"
    and acq: "increaseRefCountForReal E a lb = (n, lb')"
  shows "(n = maxReals (config lb) \<and> lb' = lb) \<or>
    (n < maxReals (config lb) \<and> real_name lb n = None \<and> pool_ok (add_mset a U) lb' \<and> real_name lb' = (real_name lb)(n \<mapsto> a))"
proof (cases "realNums lb")
  case Nil
  then show ?thesis using acq m by (auto simp: increaseRefCountForReal_def real_meta_def)
next
  case (Cons rnum rest)
  note D = pool_okD [OF ok]
  let ?lb = "lb\<lparr>realNums := rest, numToReals := AList.update rnum a (numToReals lb),
    lb_reals := AList.update a \<lparr>rm_num = rnum, refCount = 1\<rparr> (lb_reals lb)\<rparr>"
  have lb': "n = rnum" "lb_pool_of lb' = lb_pool_of ?lb" "lb_rest lb' = lb_rest ?lb"
    using acq m Cons by (auto simp: increaseRefCountForReal_def real_meta_def Let_def split: if_splits)
  have meta: "real_meta ?lb = (real_meta lb)(a \<mapsto> \<lparr>rm_num = rnum, refCount = 1\<rparr>)"
    and name: "real_name ?lb = (real_name lb)(rnum \<mapsto> a)"
    by (simp_all add: real_meta_def real_name_def update_conv')
  have free: "rnum < maxReals (config lb)" "real_name lb rnum = None" using D(8) Cons by auto
  have aU: "a \<notin># U" using D(2) m by simp
  then have c0: "count U a = 0" by (simp add: not_in_iff)
  have "pool_ok (add_mset a U) ?lb"
  proof (rule pool_okI)
    show "real_meta ?lb b = None \<longleftrightarrow> b \<notin># add_mset a U" for b unfolding meta using D(2) by auto
    show "unat (refCount k) = count (add_mset a U) b" "real_name ?lb (rm_num k) = Some b"
      if "real_meta ?lb b = Some k" for b k
      using that D(3,4) [of b k] free c0 unfolding meta name by (auto split: if_splits)
    show "\<exists>k. real_meta ?lb b = Some k \<and> rm_num k = j" if "real_name ?lb j = Some b" for j b
      using that D(6) [of j b] m unfolding meta name by (auto split: if_splits)
    show "j \<in> set (realNums ?lb) \<longleftrightarrow> j < maxReals (config ?lb) \<and> real_name ?lb j = None" for j
      using D(7) D(8) [of j] Cons unfolding name by auto
  qed (use room D(5,7) free Cons in \<open>auto simp: name split: if_splits\<close>)
  then have "pool_ok (add_mset a U) lb'"
    using pool_ok_cong [OF lb'(2)] lb_restD [OF lb'(3)] by simp
  then show ?thesis using lb' free name real_name_cong [OF lb'(2)] by simp
qed

text \<open>Both cases together.\<close>

lemma acquire_ok:
  assumes ok: "pool_ok U lb" and room: "size U + 1 < 2 ^ 32" and acq: "increaseRefCountForReal E a lb = (n, lb')"
  shows "n = maxReals (config lb) \<and> lb' = lb \<and> a \<notin># U \<or>
    n \<noteq> maxReals (config lb) \<and> pool_ok (add_mset a U) lb' \<and> real_name lb' n = Some a \<and>
      (\<forall>k b. real_name lb k = Some b \<longrightarrow> real_name lb' k = Some b)"
proof (cases "real_meta lb a")
  case None
  then show ?thesis using acquire_new [OF ok room None acq] pool_okD(2) [OF ok] by auto
next
  case (Some m)
  note k = acquire_known [OF ok room Some acq]
  have "real_name lb n = Some a" using pool_okD(4) [OF ok Some] k(1) by simp
  moreover have "n \<noteq> maxReals (config lb)" using pool_okD(5) [OF ok calculation] by auto
  ultimately show ?thesis using k by simp
qed

end
