(* ===== verification/Katran_Setup.thy ===== *)
theory Katran_Setup
  imports Katran_Lb
begin

text \<open>
  Construction, loading and attaching: the first part of \<open>src/katran/lib/KatranLb.cpp\<close>. A step
  that throws ends the sequence with \<open>Inl\<close> of the exception and the object as it is then.
  Loading an object file is one call that succeeds or fails; \<open>map_fd\<close> and \<open>prog_fd\<close> say which maps
  and programs the loader found.
\<close>

definition and_then ::
  "(lb_error + unit) \<times> KatranLb \<Rightarrow> (KatranLb \<Rightarrow> (lb_error + unit) \<times> KatranLb) \<Rightarrow> (lb_error + unit) \<times> KatranLb" where
  "and_then m f = (case m of (Inl e, lb) \<Rightarrow> (Inl e, lb) | (Inr _, lb) \<Rightarrow> f lb)"

text \<open>A call whose failure is thrown.\<close>

definition must :: "katran_env \<Rightarrow> lb_error \<Rightarrow> (kernel \<Rightarrow> kernel option) \<Rightarrow> KatranLb \<Rightarrow> (lb_error + unit) \<times> KatranLb" where
  "must E err f lb = (case bpf_call E f lb of (ok, lb) \<Rightarrow> (if ok then Inr () else Inl err, lb))"

fun must_all :: "(KatranLb \<Rightarrow> (lb_error + unit) \<times> KatranLb) list \<Rightarrow> KatranLb \<Rightarrow> (lb_error + unit) \<times> KatranLb" where
  "must_all [] lb = (Inr (), lb)"
| "must_all (f # fs) lb = and_then (f lb) (must_all fs)"

section \<open>Control values\<close>

text \<open>The union \<open>ctl_value\<close>: writing a member leaves the other bytes.\<close>

definition bytes_le :: "u8 list \<Rightarrow> u64" where
  "bytes_le bs = foldr (\<lambda>b acc. ucast b + push_bit 8 acc) bs 0"

definition set_ctl_mac :: "u8 list \<Rightarrow> ctl_value \<Rightarrow> ctl_value" where
  "set_ctl_mac mac c = \<lparr>ctl_u64 = (ctl_u64 c AND 0xFFFF000000000000) OR bytes_le (take 6 mac)\<rparr>"

definition set_ctl_ifindex :: "u32 \<Rightarrow> ctl_value \<Rightarrow> ctl_value" where
  "set_ctl_ifindex i c = \<lparr>ctl_u64 = (ctl_u64 c AND 0xFFFFFFFF00000000) OR ucast i\<rparr>"

definition ctl_ifindex :: "ctl_value \<Rightarrow> u32" where
  "ctl_ifindex c = ucast (ctl_u64 c)"

definition set_ctlValues :: "u32 \<Rightarrow> ctl_value \<Rightarrow> KatranLb \<Rightarrow> KatranLb" where
  "set_ctlValues i c lb = lb\<lparr>ctlValues := (ctlValues lb)[unat i := c]\<rparr>"

definition ctlValue :: "u32 \<Rightarrow> KatranLb \<Rightarrow> ctl_value" where
  "ctlValue i lb = ctlValues lb ! unat i"

section \<open>Construction\<close>

text \<open>One lookup of an interface; \<open>ctl\<close> is the local variable, which keeps its other bytes.\<close>

definition resolve_if :: "katran_env \<Rightarrow> string \<Rightarrow> u32 \<Rightarrow> ctl_value \<times> KatranLb \<Rightarrow> lb_error + ctl_value \<times> KatranLb" where
  "resolve_if E name idx s = (case s of (ctl, lb) \<Rightarrow>
     (let res = if_index E name in
      if res = 0 then Inl invalid_argument
      else let ctl = set_ctl_ifindex res ctl in Inr (ctl, set_ctlValues idx ctl lb)))"

definition KatranLb_fields :: "KatranConfig \<Rightarrow> kernel \<Rightarrow> KatranLb" where
  "KatranLb_fields cfg k =
     \<lparr>config = cfg\<lparr>hcInterface := (if hcInterface cfg = [] then mainInterface cfg else hcInterface cfg)\<rparr>,
      kernel = k, vipNums = map of_nat [0..<unat (maxVips cfg)], realNums = map of_nat [0..<unat (maxReals cfg)],
      ctlValues = replicate kCtlMapSize \<lparr>ctl_u64 = 0\<rparr>, hcReals = [], lb_reals = [], quicMapping = [],
      numToReals = [], vips = [], lpmSrcMapping = [], decapDsts = [], standalone = (rootMapPath cfg = []),
      progsLoaded = False, progsAttached = False,
      features = \<lparr>srcRouting = False, inlineDecap = False, introspection = False, gueEncap = False,
        directHealthchecking = False\<rparr>,
      lruMapsFd = replicate (nat kMaxForwardingCores) 0, lbStats = \<lparr>bpfFailedCalls = 0, addrValidationFailed = 0\<rparr>\<rparr>"

text \<open>The constructor; \<open>junk\<close> is the initial content of its local variable \<open>ctl\<close>.\<close>

definition KatranLb_new :: "katran_env \<Rightarrow> ctl_value \<Rightarrow> KatranConfig \<Rightarrow> kernel \<Rightarrow> lb_error + KatranLb" where
  "KatranLb_new E junk cfg k =
     (let lb = KatranLb_fields cfg k in
      if testing cfg then Inr lb
      else if length (defaultMac cfg) \<noteq> 6 then Inl invalid_argument
      else
        let ctl = set_ctl_mac (defaultMac cfg) junk;
            s = (ctl, set_ctlValues kMacAddrPos ctl lb);
            after_hc = (if enableHc cfg
              then case resolve_if E (hcInterface (config lb)) kHcIntfPos s of Inl e \<Rightarrow> Inl e
                | Inr s \<Rightarrow> (case resolve_if E (v4TunInterface cfg) kIpv4TunPos s of Inl e \<Rightarrow> Inl e
                  | Inr s \<Rightarrow> resolve_if E (v6TunInterface cfg) kIpv6TunPos s)
              else Inr s)
        in case after_hc of Inl e \<Rightarrow> Inl e
           | Inr s \<Rightarrow> (case resolve_if E (mainInterface cfg) kMainIntfPos s of Inl e \<Rightarrow> Inl e
             | Inr (ctl, lb) \<Rightarrow> Inr lb))"

text \<open>The destructor: failures are logged only.\<close>

definition detach_main :: "katran_env \<Rightarrow> KatranLb \<Rightarrow> KatranLb" where
  "detach_main E lb =
     (if standalone lb then snd (bpf_call E (\<lambda>k. Some (k\<lparr>xdp_attached := False\<rparr>)) lb)
      else snd (bpf_call E (\<lambda>k. map_option (\<lambda>m. k\<lparr>root_array := m\<rparr>) (hash_del (rootMapPos (config lb)) (root_array k))) lb))"

definition KatranLb_destroy :: "katran_env \<Rightarrow> KatranLb \<Rightarrow> kernel" where
  "KatranLb_destroy E lb =
     kernel (if \<not> testing (config lb) \<and> progsAttached lb then
       (let lb = detach_main E lb in
        if enableHc (config lb) then snd (bpf_call E (\<lambda>k. Some (k\<lparr>hc_attached := False\<rparr>)) lb) else lb)
      else lb)"

section \<open>Loading\<close>

definition initialSanityChecking :: "katran_env \<Rightarrow> KatranLb \<Rightarrow> (lb_error + unit) \<times> KatranLb" where
  "initialSanityChecking E lb =
     (let fwd = \<not> disableForwarding (config lb); hcs = enableHc (config lb);
          maps = (if fwd then [''ctl_array'', ''vip_map'', ''ch_rings'', ''reals'', ''stats'',
                    ''lru_maps_mapping'', ''quic_mapping''] else []) @
                 (if hcs then [''hc_ctrl_map'', ''hc_reals_map'', ''hc_stats_map''] else [])
      in if fwd \<and> prog_fd E ''xdp-balancer'' < 0 then (Inl invalid_argument, lb)
         else if hcs \<and> prog_fd E ''cls-hc'' < 0 then (Inl invalid_argument, lb)
         else if \<exists>m \<in> set maps. map_fd E m < 0 then (Inl invalid_argument, lb)
         else (Inr (), lb))"

definition featureDiscovering :: "katran_env \<Rightarrow> KatranLb \<Rightarrow> KatranLb" where
  "featureDiscovering E lb =
     (let found = (\<lambda>name. map_fd E name \<ge> 0); f = features lb in
      lb\<lparr>features := \<lparr>srcRouting = (found ''lpm_src_v4'' \<or> srcRouting f), inlineDecap = (found ''decap_dst'' \<or> inlineDecap f),
        introspection = (found ''event_pipe'' \<or> introspection f), gueEncap = (found ''pckt_srcs'' \<or> gueEncap f),
        directHealthchecking = (found ''hc_pckt_srcs_map'' \<or> directHealthchecking f)\<rparr>\<rparr>)"

text \<open>
  \<open>createLruMap\<close> is one call; the descriptor of a new map is \<open>map_fd\<close> of its name. The loop of
  \<open>initLrus\<close> fills \<open>lruMapsFd_\<close>, a vector with \<open>kMaxForwardingCores\<close> elements; \<open>LOG(FATAL)\<close> ends the
  process.
\<close>

definition createLruMap :: "katran_env \<Rightarrow> lb_error \<Rightarrow> KatranLb \<Rightarrow> (lb_error + unit) \<times> KatranLb" where
  "createLruMap E err = must E err Some"

fun create_lrus :: "katran_env \<Rightarrow> int list \<Rightarrow> KatranLb \<Rightarrow> (lb_error + unit) \<times> KatranLb" where
  "create_lrus E [] lb = (Inr (), lb)"
| "create_lrus E (core # cores) lb =
     (if core > kMaxForwardingCores \<or> core < 0 then (Inl fatal, lb)
      else and_then (createLruMap E fatal lb) (\<lambda>lb.
        if nat core \<ge> length (lruMapsFd lb) then (Inl out_of_bounds, lb)
        else create_lrus E cores (lb\<lparr>lruMapsFd := (lruMapsFd lb)[nat core := map_fd E ''katran_lru'']\<rparr>)))"

definition initLrus :: "katran_env \<Rightarrow> KatranLb \<Rightarrow> (lb_error + unit) \<times> KatranLb" where
  "initLrus E lb =
     (let cores = cfg_forwardingCores (config lb); numa = cfg_numaNodes (config lb);
          created = (if cores \<noteq> [] then
              (if numa \<noteq> [] \<and> length numa \<noteq> length cores then (Inl runtime_error, lb) else create_lrus E cores lb)
            else createLruMap E runtime_error lb)
      in and_then created (must E runtime_error Some))"

fun attach_lrus :: "katran_env \<Rightarrow> int list \<Rightarrow> KatranLb \<Rightarrow> (lb_error + unit) \<times> KatranLb" where
  "attach_lrus E [] lb = (Inr (), lb)"
| "attach_lrus E (core # cores) lb =
     and_then (must E runtime_error (on_dp (\<lambda>s. map_option (\<lambda>m. s\<lparr>lru_maps_mapping := m\<rparr>)
       (if word_of_int core < MAX_SUPPORTED_CPUS
        then hash_set (word_of_int core) (\<lambda>_. None) (lru_maps_mapping s) else None))) lb)
     (attach_lrus E cores)"

definition attachLrus :: "katran_env \<Rightarrow> KatranLb \<Rightarrow> (lb_error + unit) \<times> KatranLb" where
  "attachLrus E lb =
     (if \<not> progsLoaded lb then (Inl runtime_error, lb)
      else attach_lrus E (cfg_forwardingCores (config lb)) lb)"

text \<open>The source addresses of encapsulated packets, written by three functions.\<close>

definition set_pckt_src :: "u32 \<Rightarrow> IPAddress \<Rightarrow> kernel \<Rightarrow> kernel option" where
  "set_pckt_src idx a = on_dp (\<lambda>s. map_option (\<lambda>m. s\<lparr>pckt_srcs := m\<rparr>)
     (array_set idx (as_real (parseAddrToBe a True)) (pckt_srcs s)))"

definition set_hc_src :: "u32 \<Rightarrow> IPAddress \<Rightarrow> kernel \<Rightarrow> kernel option" where
  "set_hc_src idx a = on_hc (\<lambda>s. map_option (\<lambda>m. s\<lparr>hc_pckt_srcs_map := m\<rparr>)
     (array_set idx (as_hc_real (parseAddrToBe a True)) (hc_pckt_srcs_map s)))"

definition set_hc_mac :: "u32 \<Rightarrow> u8 list \<Rightarrow> kernel \<Rightarrow> kernel option" where
  "set_hc_mac idx mac = on_hc (\<lambda>s. map_option (\<lambda>m. s\<lparr>hc_pckt_macs := m\<rparr>) (array_set idx mac (hc_pckt_macs s)))"

definition write_src ::
  "katran_env \<Rightarrow> (u32 \<Rightarrow> IPAddress \<Rightarrow> kernel \<Rightarrow> kernel option) \<Rightarrow> u32 \<Rightarrow> string \<Rightarrow> KatranLb \<Rightarrow> (lb_error + unit) \<times> KatranLb" where
  "write_src E w idx addr lb =
     (if addr = [] then (Inr (), lb)
      else case ip_create E addr of None \<Rightarrow> (Inl bad_address, lb) | Some a \<Rightarrow> must E runtime_error (w idx a) lb)"

definition setupGueEnvironment :: "katran_env \<Rightarrow> KatranLb \<Rightarrow> (lb_error + unit) \<times> KatranLb" where
  "setupGueEnvironment E lb =
     (if katranSrcV4 (config lb) = [] \<and> katranSrcV6 (config lb) = [] then (Inl runtime_error, lb)
      else must_all [write_src E set_pckt_src kSrcV4Pos (katranSrcV4 (config lb)),
                     write_src E set_pckt_src kSrcV6Pos (katranSrcV6 (config lb))] lb)"

definition setupHcEnvironment :: "katran_env \<Rightarrow> KatranLb \<Rightarrow> (lb_error + unit) \<times> KatranLb" where
  "setupHcEnvironment E lb =
     (if katranSrcV4 (config lb) = [] \<and> katranSrcV6 (config lb) = [] then (Inl runtime_error, lb)
      else must_all [write_src E set_hc_src kSrcV4Pos (katranSrcV4 (config lb)),
                     write_src E set_hc_src kSrcV6Pos (katranSrcV6 (config lb)),
                     \<lambda>lb. if length (localMac (config lb)) \<noteq> 6 then (Inl invalid_argument, lb) else (Inr (), lb),
                     must E runtime_error (set_hc_mac kHcSrcMacPos (localMac (config lb))),
                     must E runtime_error (set_hc_mac kHcDstMacPos (take 6 (defaultMac (config lb))))] lb)"

definition addSrcIpForPcktEncap :: "katran_env \<Rightarrow> IPAddress \<Rightarrow> KatranLb \<Rightarrow> bool \<times> KatranLb" where
  "addSrcIpForPcktEncap E src lb =
     (let key = (if isV4 src then kSrcV4Pos else kSrcV6Pos) in
      case bpf_call E (set_hc_src key src) lb of (ok, lb) \<Rightarrow>
        if \<not> ok then (False, lb)
        else if \<not> disableForwarding (config lb) then bpf_call E (set_pckt_src key src) lb
        else (True, lb))"

definition enableRecirculation :: "katran_env \<Rightarrow> KatranLb \<Rightarrow> (lb_error + unit) \<times> KatranLb" where
  "enableRecirculation E = must E runtime_error
     (\<lambda>k. Some (k\<lparr>katran_subprograms := (katran_subprograms k)(kRecirculationIndex \<mapsto> prog_fd E ''xdp-balancer'')\<rparr>))"

definition set_ctl_entry :: "u32 \<Rightarrow> ctl_value \<Rightarrow> kernel \<Rightarrow> kernel option" where
  "set_ctl_entry idx c = on_dp (\<lambda>s. map_option (\<lambda>m. s\<lparr>ctl_array := m\<rparr>) (array_set idx c (ctl_array s)))"

definition set_hc_ctrl :: "u32 \<Rightarrow> u32 \<Rightarrow> kernel \<Rightarrow> kernel option" where
  "set_hc_ctrl idx i = on_hc (\<lambda>s. map_option (\<lambda>m. s\<lparr>hc_ctrl_map := m\<rparr>) (array_set idx i (hc_ctrl_map s)))"

text \<open>The start of the introspection routines at the end of loading is the constructor of the monitor, in the theory \<open>Monitor\<close>.\<close>

definition loadBpfProgs :: "katran_env \<Rightarrow> KatranLb \<Rightarrow> (lb_error + unit) \<times> KatranLb" where
  "loadBpfProgs E lb =
     (let fwd = \<not> disableForwarding (config lb);
          hcs = enableHc (config lb);
          step = (\<lambda>c f lb. if c lb then f lb else (Inr (), lb))
      in must_all
        [step (\<lambda>lb. fwd) (initLrus E),
         step (\<lambda>lb. fwd) (must E invalid_argument Some),
         step (\<lambda>lb. hcs) (must E invalid_argument Some),
         initialSanityChecking E,
         (\<lambda>lb. (Inr (), featureDiscovering E lb)),
         step (\<lambda>lb. fwd \<and> gueEncap (features lb)) (setupGueEnvironment E),
         step (\<lambda>lb. fwd \<and> inlineDecap (features lb)) (enableRecirculation E),
         step (\<lambda>lb. fwd) (\<lambda>lb. must E invalid_argument (set_ctl_entry kMacAddrPos (ctlValue kMacAddrPos lb)) lb),
         step (\<lambda>lb. hcs) (\<lambda>lb. must E invalid_argument (set_hc_ctrl kIpv4TunPos (ctl_ifindex (ctlValue kIpv4TunPos lb))) lb),
         step (\<lambda>lb. hcs) (\<lambda>lb. must E invalid_argument (set_hc_ctrl kIpv6TunPos (ctl_ifindex (ctlValue kIpv6TunPos lb))) lb),
         step (\<lambda>lb. hcs) (\<lambda>lb. must E invalid_argument (set_hc_ctrl kMainIntfPos (ctl_ifindex (ctlValue kMainIntfPos lb))) lb),
         step (\<lambda>lb. hcs \<and> directHealthchecking (features lb)) (setupHcEnvironment E),
         (\<lambda>lb. (Inr (), lb\<lparr>progsLoaded := True\<rparr>)),
         step (\<lambda>lb. fwd) (attachLrus E)] lb)"

section \<open>Attaching\<close>

definition attachBpfProgs :: "katran_env \<Rightarrow> KatranLb \<Rightarrow> (lb_error + unit) \<times> KatranLb" where
  "attachBpfProgs E lb =
     (if \<not> progsLoaded lb then (Inl invalid_argument, lb)
      else
        let main_fd = prog_fd E ''xdp-balancer'';
            attach_main = (\<lambda>lb. if standalone lb then must E invalid_argument (\<lambda>k. Some (k\<lparr>xdp_attached := True\<rparr>)) lb
              else if \<not> disableForwarding (config lb) then
                and_then (must E invalid_argument Some lb)
                  (must E invalid_argument (\<lambda>k. Some (k\<lparr>root_array := (root_array k)(rootMapPos (config lb) \<mapsto> main_fd)\<rparr>)))
              else (Inr (), lb));
            attach_hc = (\<lambda>lb. if enableHc (config lb) then
                (case bpf_call E (\<lambda>k. Some (k\<lparr>hc_attached := True\<rparr>)) lb of (ok, lb) \<Rightarrow>
                   if ok then (Inr (), lb) else (Inl invalid_argument, detach_main E lb))
              else (Inr (), lb))
        in must_all [attach_main, attach_hc, \<lambda>lb. (Inr (), lb\<lparr>progsAttached := True\<rparr>)] lb)"

section \<open>The address of the default router\<close>

definition changeMac :: "katran_env \<Rightarrow> u8 list \<Rightarrow> KatranLb \<Rightarrow> bool \<times> KatranLb" where
  "changeMac E newMac lb =
     (if length newMac \<noteq> kMacBytes then (False, lb)
      else
        let lb = set_ctlValues kMacAddrPos (set_ctl_mac newMac (ctlValue kMacAddrPos lb)) lb;
            mac = ctlValue kMacAddrPos lb
        in if testing (config lb) then (True, lb)
           else
             (case (if \<not> disableForwarding (config lb) then counted_call E (set_ctl_entry kMacAddrPos mac) lb
                    else (True, lb)) of (ok, lb) \<Rightarrow>
                if \<not> ok then (False, lb)
                else if directHealthchecking (features lb)
                then counted_call E (set_hc_mac kHcDstMacPos (ctl_mac mac)) lb
                else (True, lb)))"

definition getMac :: "KatranLb \<Rightarrow> u8 list" where
  "getMac lb = ctl_mac (ctlValue kMacAddrPos lb)"

definition changeKatranMonitorForwardingState :: "katran_env \<Rightarrow> KatranMonitorState \<Rightarrow> KatranLb \<Rightarrow> bool \<times> KatranLb" where
  "changeKatranMonitorForwardingState E state =
     counted_call E (set_ctl_entry kIntrospectionGkPos \<lparr>ctl_u64 = (case state of ENABLED \<Rightarrow> 1 | DISABLED \<Rightarrow> 0)\<rparr>)"

end
