(* ===== verification/Katran_Inv.thy ===== *)
theory Katran_Inv
  imports Katran_Pool Katran_Setup
begin

text \<open>
  The invariant of \<open>KatranLb\<close>: the count of every real is the number of its users (services, source
  routes and QUIC mappings), every number in use names an address, the numbers of services and
  reals are either free or used once, and every service has a ring of the configured size. Each
  operation that changes the tables preserves it.
\<close>

section \<open>Association lists as multisets\<close>

lemma mset_alist_update_new: "map_of al k = None \<Longrightarrow> mset (AList.update k v al) = add_mset (k, v) (mset al)"
  by (induction al) (auto split: if_splits)

lemma mset_alist_update_old:
  "map_of al k = Some u \<Longrightarrow> mset (AList.update k v al) = add_mset (k, v) (mset al - {#(k, u)#})"
  by (induction al) (auto split: if_splits)

lemma mset_alist_delete:
  "map_of al k = Some u \<Longrightarrow> distinct (map fst al) \<Longrightarrow> mset (AList.delete k al) = mset al - {#(k, u)#}"
proof (induction al)
  case (Cons p al)
  show ?case
  proof (cases "fst p = k")
    case True
    then have "k \<notin> fst ` set al" using Cons.prems(2) by auto
    then have "AList.delete k al = al" by (simp add: delete_idem)
    then show ?thesis using True Cons.prems(1) by (cases p) auto
  next
    case False
    then show ?thesis using Cons by (cases p) auto
  qed
qed simp

section \<open>The invariant\<close>

definition env_ok :: "katran_env \<Rightarrow> bool" where
  "env_ok E \<longleftrightarrow> (\<forall>xs. mset (iter_reals E xs) = mset xs) \<and> (\<forall>xs. mset (iter_rules E xs) = mset xs)"

text \<open>The numbers of reals that services and source routes hold.\<close>

definition held :: "(VipKey \<times> Vip) multiset \<Rightarrow> u32 multiset" where
  "held vs = (\<Sum>(k, v) \<in># vs. mset (map fst (vip_reals v)))"

definition used_nums :: "KatranLb \<Rightarrow> u32 multiset" where
  "used_nums lb = held (mset (vips lb)) + mset (map snd (lpmSrcMapping lb))"

text \<open>Everybody who uses a real, as a multiset of addresses.\<close>

definition users :: "KatranLb \<Rightarrow> IPAddress multiset" where
  "users lb = image_mset (\<lambda>n. the (real_name lb n)) (used_nums lb) + mset (map fst (quicMapping lb))"

definition services_ok :: "KatranLb \<Rightarrow> bool" where
  "services_ok lb \<longleftrightarrow> distinct (map fst (vips lb)) \<and> distinct (map fst (lpmSrcMapping lb)) \<and>
     distinct (map fst (quicMapping lb)) \<and>
     (\<forall>(k, v) \<in> set (vips lb). reals_wf v \<and> ring_fits v \<and> chRingSize v = cfg_chRingSize (config lb)) \<and>
     distinct (vipNums lb @ map (\<lambda>(k, v). vipNum v) (vips lb)) \<and>
     set (vipNums lb @ map (\<lambda>(k, v). vipNum v) (vips lb)) = {k. k < maxVips (config lb)}"

definition lb_inv :: "KatranLb \<Rightarrow> bool" where
  "lb_inv lb \<longleftrightarrow> services_ok lb \<and> pool_ok (users lb) lb \<and> (\<forall>n \<in># used_nums lb. real_name lb n \<noteq> None)"

lemma held_simps [simp]:
  "held {#} = {#}" "held (add_mset (k, v) vs) = mset (map fst (vip_reals v)) + held vs"
  by (simp_all add: held_def)

lemma held_remove: "(k, v) \<in># vs \<Longrightarrow> held vs = mset (map fst (vip_reals v)) + held (vs - {#(k, v)#})"
  by (metis held_simps(2) insert_DiffM)

text \<open>The users depend on the tables and on the names of the numbers in use.\<close>

lemma users_cong:
  assumes "used_nums lb' = used_nums lb" "quicMapping lb' = quicMapping lb"
    and "\<And>n. n \<in># used_nums lb \<Longrightarrow> real_name lb' n = real_name lb n"
  shows "users lb' = users lb"
  unfolding users_def using assms by (metis (no_types, lifting) image_mset_cong)

lemma lb_inv_cong:
  assumes "lb_rest lb' = lb_rest lb" "lb_pool_of lb' = lb_pool_of lb"
  shows "lb_inv lb' = lb_inv lb"
proof -
  note r = lb_restD [OF assms(1)] and n = real_name_cong [OF assms(2)]
  have u: "used_nums lb' = used_nums lb" using r by (simp add: used_nums_def)
  then have "users lb' = users lb" using r n by (intro users_cong) simp_all
  then show ?thesis using r n u pool_ok_cong [OF assms(2)] by (simp add: lb_inv_def services_ok_def)
qed

section \<open>Services\<close>

lemma set_word_range: "set (map of_nat [0..<unat n]) = {k :: u32. k < n}"
proof -
  have "k \<in> of_nat ` {0..<unat n}" if "k < n" for k :: u32
    using that by (intro image_eqI [of _ _ "unat k"]) (auto simp: word_less_nat_alt)
  moreover have "(of_nat i :: u32) < n" if "i < unat n" for i
    using that unsigned_less [of n, where ?'a = nat] by (simp add: word_less_nat_alt unat_of_nat)
  ultimately show ?thesis by auto
qed

lemma distinct_word_range: "distinct (map (of_nat :: nat \<Rightarrow> u32) [0..<unat (n :: u32)])"
proof -
  have "unat (of_nat i :: u32) = i" if "i < unat n" for i
    using less_trans [OF that unsigned_less [of n, where ?'a = nat]] by (simp add: unat_of_nat)
  then have "inj_on (of_nat :: nat \<Rightarrow> u32) {0..<unat n}" by (intro inj_onI) (metis atLeastLessThan_iff)
  then show ?thesis by (simp add: distinct_map)
qed

lemma lb_inv_fields: "lb_inv (KatranLb_fields cfg k)"
  using set_word_range [of "maxVips cfg"] set_word_range [of "maxReals cfg"] distinct_word_range
  by (auto simp: lb_inv_def services_ok_def pool_ok_def users_def used_nums_def real_name_def real_meta_def KatranLb_fields_def)

lemma lb_inv_new_vip:
  assumes inv: "lb_inv lb" and num: "vipNums lb = num # rest" and vip: "map_of (vips lb) vip = None"
  shows "lb_inv (lb\<lparr>vipNums := rest, vips := AList.update vip (Vip_new num flags (cfg_chRingSize (config lb))) (vips lb)\<rparr>)"
    (is "lb_inv ?lb")
proof -
  let ?v = "Vip_new num flags (cfg_chRingSize (config lb))"
  have up: "mset (vips ?lb) = add_mset (vip, ?v) (mset (vips lb))" using mset_alist_update_new [OF vip] by simp
  then have "used_nums ?lb = used_nums lb" by (simp add: used_nums_def Vip_new_def)
  moreover have "real_name ?lb = real_name lb" by (simp add: real_name_def)
  ultimately have "users ?lb = users lb" by (intro users_cong) simp_all
  moreover have "pool_ok (users lb) ?lb" using inv pool_ok_cong [of ?lb lb] by (simp add: lb_inv_def lb_pool_of_def)
  moreover have "services_ok ?lb"
  proof -
    let ?f = "\<lambda>(k :: VipKey, v). vipNum v"
    have s: "services_ok lb" using inv by (simp add: lb_inv_def)
    have vs: "set (vips ?lb) = insert (vip, ?v) (set (vips lb))" using arg_cong [OF up, of set_mset] by simp
    have "mset (vipNums ?lb @ map ?f (vips ?lb)) = mset (vipNums lb @ map ?f (vips lb))"
      using num arg_cong [OF up, of "image_mset ?f"] by (simp add: Vip_new_def)
    then have "distinct (vipNums ?lb @ map ?f (vips ?lb)) = distinct (vipNums lb @ map ?f (vips lb))"
      "set (vipNums ?lb @ map ?f (vips ?lb)) = set (vipNums lb @ map ?f (vips lb))"
      using mset_eq_imp_distinct_iff mset_eq_setD by blast+
    moreover have "\<forall>(k, v) \<in> set (vips ?lb). reals_wf v \<and> ring_fits v \<and> chRingSize v = cfg_chRingSize (config ?lb)"
      using s Vip_new_ok(1,2) [of num flags "cfg_chRingSize (config lb)"] unfolding services_ok_def vs by (simp add: Vip_new_def)
    moreover have "distinct (map fst (vips ?lb))" using s by (simp add: services_ok_def distinct_update)
    ultimately show ?thesis using s unfolding services_ok_def by simp
  qed
  ultimately show ?thesis using inv \<open>used_nums ?lb = used_nums lb\<close> \<open>real_name ?lb = real_name lb\<close>
    unfolding lb_inv_def by auto
qed

lemma lb_inv_calls [simp]:
  "lb_inv (snd (updateVipMap E act vip meta lb)) = lb_inv lb"
  "lb_inv (snd (updateRealsMap E a n lb)) = lb_inv lb"
  "lb_inv (snd (counted_call E f lb)) = lb_inv lb"
  by (rule lb_inv_cong, simp, simp)+

lemma addVip_inv:
  assumes "lb_inv lb" "addVip E vip flags lb = (r, lb')"
  shows "lb_inv lb'"
proof -
  obtain ty lb0 where v: "validateAddress E (vk_address vip) False lb = (ty, lb0)" by force
  then have inv0: "lb_inv lb0" using validateAddress_keeps [OF v] assms(1) lb_inv_cong by blast
  show ?thesis
    using assms inv0 lb_inv_new_vip [OF inv0, of _ _ vip flags] v
    by (auto simp: addVip_def Let_def split: if_splits list.splits)
qed

lemma drop_real_rest [simp]: "lb_rest (drop_real n lb) = lb_rest lb"
proof -
  have "lb_rest (snd (numToReals_at n lb)) = lb_rest lb"
    by (simp add: numToReals_at_def lb_rest_def split: option.split)
  then show ?thesis by (simp add: drop_real_def split_def)
qed

lemma fold_drop_real_rest [simp]: "lb_rest (fold drop_real ns lb) = lb_rest lb"
  by (induction ns arbitrary: lb) simp_all

lemma services_ok_vip:
  assumes "services_ok lb" "map_of (vips lb) k = Some v"
  shows "reals_wf v" "ring_fits v" "chRingSize v = cfg_chRingSize (config lb)" "(k, v) \<in># mset (vips lb)"
  using assms map_of_SomeD [OF assms(2)] by (auto simp: services_ok_def)

lemma services_ok_delete:
  assumes s: "services_ok lb" and v: "map_of (vips lb) k = Some v"
    and "config lb' = config lb" "vipNums lb' = vipNums lb @ [vipNum v]" "vips lb' = AList.delete k (vips lb)"
      "lpmSrcMapping lb' = lpmSrcMapping lb" "quicMapping lb' = quicMapping lb"
  shows "services_ok lb'"
proof -
  let ?f = "\<lambda>(k :: VipKey, v). vipNum v"
  have up: "mset (vips lb') = mset (vips lb) - {#(k, v)#}"
    using mset_alist_delete [OF v] s assms(5) by (simp add: services_ok_def)
  then have "add_mset (k, v) (mset (vips lb')) = mset (vips lb)" using services_ok_vip(4) [OF s v] by simp
  from arg_cong [OF this, of "image_mset ?f"]
  have "mset (vipNums lb' @ map ?f (vips lb')) = mset (vipNums lb @ map ?f (vips lb))" using assms(4) by simp
  then have "distinct (vipNums lb' @ map ?f (vips lb')) = distinct (vipNums lb @ map ?f (vips lb))"
    "set (vipNums lb' @ map ?f (vips lb')) = set (vipNums lb @ map ?f (vips lb))"
    using mset_eq_imp_distinct_iff mset_eq_setD by blast+
  moreover have "\<forall>(k, v) \<in> set (vips lb'). reals_wf v \<and> ring_fits v \<and> chRingSize v = cfg_chRingSize (config lb')"
    using s assms(3,5) by (auto simp: services_ok_def AList.delete_eq)
  moreover have "distinct (map fst (vips lb'))" using s assms(5) by (simp add: services_ok_def distinct_delete)
  ultimately show ?thesis using s assms(3,6,7) unfolding services_ok_def by simp
qed

lemma getReals_mset: "env_ok E \<Longrightarrow> mset (getReals (iter_reals E) v) = mset (map fst (vip_reals v))"
  by (simp add: getReals_def env_ok_def)

lemma used_nums_vip:
  assumes "services_ok lb" "map_of (vips lb) k = Some v"
  shows "used_nums lb = mset (map fst (vip_reals v)) +
    (held (mset (vips lb) - {#(k, v)#}) + mset (map snd (lpmSrcMapping lb)))"
  using held_remove [OF services_ok_vip(4) [OF assms]] by (simp add: used_nums_def)

text \<open>A service releases its reals: the users that are left are those of the others.\<close>

lemma release_service:
  assumes inv: "lb_inv lb" and v: "map_of (vips lb) k = Some v" and E: "env_ok E"
    and U: "U = held (mset (vips lb) - {#(k, v)#}) + mset (map snd (lpmSrcMapping lb))"
    and lb1: "lb1 = fold drop_real (getReals (iter_reals E) v) lb"
  shows "pool_ok (image_mset (\<lambda>n. the (real_name lb1 n)) U + mset (map fst (quicMapping lb))) lb1"
    "\<forall>n \<in># U. real_name lb1 n \<noteq> None"
proof -
  let ?ns = "getReals (iter_reals E) v" and ?name = "\<lambda>n. the (real_name lb n)" and ?quic = "mset (map fst (quicMapping lb))"
  have s: "services_ok lb" using inv by (simp add: lb_inv_def)
  have used: "used_nums lb = mset ?ns + U" using used_nums_vip [OF s v] getReals_mset [OF E] U by simp
  have named: "\<forall>n \<in># used_nums lb. real_name lb n = Some (?name n)" using inv by (auto simp: lb_inv_def)
  have users: "users lb = image_mset ?name (mset ?ns) + (image_mset ?name U + ?quic)" by (simp add: users_def used)
  have all: "pool_ok (users lb - image_mset ?name (mset ?ns)) lb1 \<and>
      (\<forall>k b. real_name lb k = Some b \<longrightarrow> b \<in># users lb - image_mset ?name (mset ?ns) \<longrightarrow> real_name lb1 k = Some b)"
    unfolding lb1 using inv named users by (intro lb_pool.release_all) (auto simp: lb_inv_def used)
  have left: "users lb - image_mset ?name (mset ?ns) = image_mset ?name U + ?quic" using users by simp
  have keep: "real_name lb1 n = real_name lb n" if "n \<in># U" for n
  proof -
    have "real_name lb n = Some (?name n)" using named that by (simp add: used)
    moreover have "?name n \<in># users lb - image_mset ?name (mset ?ns)" unfolding left using that by simp
    ultimately show ?thesis using all by auto
  qed
  then have "image_mset (\<lambda>n. the (real_name lb1 n)) U = image_mset ?name U" by (intro image_mset_cong) simp
  then show "pool_ok (image_mset (\<lambda>n. the (real_name lb1 n)) U + ?quic) lb1" using all left by simp
  show "\<forall>n \<in># U. real_name lb1 n \<noteq> None" using keep named by (auto simp: used)
qed

lemma delVip_inv:
  assumes inv: "lb_inv lb" and E: "env_ok E" and del: "delVip E vip lb = (r, lb')"
  shows "lb_inv lb'"
proof (cases "disableForwarding (config lb) \<or> map_of (vips lb) vip = None")
  case True
  then show ?thesis using assms by (auto simp: delVip_def split: if_splits option.splits)
next
  case False
  then obtain v where v: "map_of (vips lb) vip = Some v" by auto
  let ?lb1 = "fold drop_real (getReals (iter_reals E) v) lb"
  let ?lb2 = "?lb1\<lparr>vipNums := vipNums ?lb1 @ [vipNum v]\<rparr>"
  let ?lb3 = "if \<not> testing (config ?lb2) then snd (updateVipMap E DEL vip \<lparr>vip_flags = 0, vip_num = 0\<rparr> ?lb2) else ?lb2"
  have lb': "lb' = ?lb3\<lparr>vips := AList.delete vip (vips ?lb3)\<rparr>" using del False v by (simp add: delVip_def Let_def)
  note r1 = lb_restD [OF fold_drop_real_rest, of "getReals (iter_reals E) v" lb]
  have "lb_rest ?lb3 = lb_rest ?lb2" "lb_pool_of ?lb3 = lb_pool_of ?lb2" by simp_all
  then have r: "config lb' = config lb" "vipNums lb' = vipNums lb @ [vipNum v]" "vips lb' = AList.delete vip (vips lb)"
    "lpmSrcMapping lb' = lpmSrcMapping lb" "quicMapping lb' = quicMapping lb" "lb_pool_of lb' = lb_pool_of ?lb1"
    unfolding lb' using r1 by (simp_all add: lb_rest_def lb_pool_of_def)
  have s: "services_ok lb" using inv by (simp add: lb_inv_def)
  have "mset (vips lb') = mset (vips lb) - {#(vip, v)#}"
    using mset_alist_delete [OF v] s r(3) by (simp add: services_ok_def)
  then have used: "used_nums lb' = held (mset (vips lb) - {#(vip, v)#}) + mset (map snd (lpmSrcMapping lb))"
    using r by (simp add: used_nums_def)
  note rel = release_service [OF inv v E refl refl, folded used]
  have n: "real_name lb' = real_name ?lb1" using real_name_cong [OF r(6)] .
  have "pool_ok (users lb') lb'" using rel(1) pool_ok_cong [OF r(6)] r1 r by (simp add: users_def n)
  then show ?thesis unfolding lb_inv_def using services_ok_delete [OF s v r(1-5)] rel(2) by (simp add: n)
qed

section \<open>Adding reals to a service\<close>

text \<open>
  The loop of \<open>modifyRealsForVip\<close> for \<open>ADD\<close>, from \<open>lb0\<close> on, after the addresses \<open>seen\<close>: the addresses
  \<open>fresh\<close> have become users, and the collected updates name their numbers and numbers that
  the service (with the numbers \<open>keys\<close>) already had.
\<close>

definition adding ::
  "KatranLb \<Rightarrow> u32 set \<Rightarrow> IPAddress set \<Rightarrow> IPAddress list \<Rightarrow> u32 list \<times> UpdateReal list \<times> KatranLb \<Rightarrow> bool" where
  "adding lb0 keys seen fresh s = (case s of (cur, us, lb) \<Rightarrow>
     pool_ok (users lb0 + mset fresh) lb \<and> lb_rest lb = lb_rest lb0 \<and> distinct fresh \<and> set fresh \<subseteq> seen \<and>
     (\<forall>k b. real_name lb0 k = Some b \<longrightarrow> real_name lb k = Some b) \<and>
     (\<forall>u \<in> set us. ur_action u = ADD) \<and>
     (\<forall>n \<in> set cur. n \<in> keys \<or> (\<exists>a \<in> set fresh. real_name lb n = Some a)) \<and> keys \<subseteq> set cur \<and>
     (\<forall>n. n \<in> keys \<longrightarrow> (\<forall>a \<in> set fresh. real_name lb n \<noteq> Some a)) \<and>
     (\<forall>u \<in> set us. ep_num (updatedReal u) \<in> keys \<or> (\<exists>a \<in> set fresh. real_name lb (ep_num (updatedReal u)) = Some a)) \<and>
     (\<forall>a \<in> set fresh. \<exists>u \<in> set us. real_name lb (ep_num (updatedReal u)) = Some a))"

lemma addingD:
  assumes "adding lb0 keys seen fresh (cur, us, lb)"
  shows "pool_ok (users lb0 + mset fresh) lb" "lb_rest lb = lb_rest lb0" "distinct fresh" "set fresh \<subseteq> seen"
    and "\<forall>k b. real_name lb0 k = Some b \<longrightarrow> real_name lb k = Some b" "\<forall>u \<in> set us. ur_action u = ADD"
    and "\<forall>n \<in> set cur. n \<in> keys \<or> (\<exists>a \<in> set fresh. real_name lb n = Some a)" "keys \<subseteq> set cur"
    and "\<forall>n. n \<in> keys \<longrightarrow> (\<forall>a \<in> set fresh. real_name lb n \<noteq> Some a)"
    and "\<forall>u \<in> set us. ep_num (updatedReal u) \<in> keys \<or> (\<exists>a \<in> set fresh. real_name lb (ep_num (updatedReal u)) = Some a)"
    and "\<forall>a \<in> set fresh. \<exists>u \<in> set us. real_name lb (ep_num (updatedReal u)) = Some a"
  using assms unfolding adding_def prod.case by blast+

lemma adding_known:
  assumes ad: "adding lb0 keys seen fresh (cur, us, lb)" and a: "a \<notin> seen" and room: "size (users lb0) + length fresh + 1 < 2 ^ 32"
    and m: "real_meta lb a = Some m"
  shows "\<exists>fresh'. adding lb0 keys (insert a seen) fresh' (add_one E w a (cur, us, lb)) \<and> length fresh' \<le> length fresh + 1"
proof -
  note A = ad [unfolded adding_def prod.case]
  have pool: "pool_ok (users lb0 + mset fresh) lb" using A by blast
  have n: "real_name lb (rm_num m) = Some a" using pool_okD(4) [OF pool m] .
  have na: "a \<notin> set fresh" using A a by blast
  have m': "map_of (lb_reals lb) a = Some m" using m by (simp add: real_meta_def)
  show ?thesis
  proof (cases "rm_num m \<in> set cur")
    case True
    have "rm_num m \<in> keys"
      using True A n na by (metis option.inject)
    then have "adding lb0 keys (insert a seen) fresh (add_one E w a (cur, us, lb))"
      unfolding add_one_def Let_def prod.case m' option.case using True A
      unfolding adding_def by auto
    then show ?thesis by (intro exI [of _ fresh]) simp
  next
    case False
    obtain n' lb' where acq: "increaseRefCountForReal E a lb = (n', lb')" by force
    have k: "pool_ok (add_mset a (users lb0 + mset fresh)) lb'" "real_name lb' = real_name lb"
      using acquire_known [OF pool _ m acq] room by simp_all
    have rest: "lb_rest lb' = lb_rest lb" using acquire_rest [of E a lb] acq by simp
    have nk: "real_name lb j \<noteq> Some a" if "j \<in> keys" for j
      using that False A real_name_inj [OF pool n] by blast
    have "adding lb0 keys (insert a seen) (fresh @ [a]) (add_one E w a (cur, us, lb))"
      unfolding add_one_def Let_def prod.case m' option.case using False A k rest acq na n nk
      unfolding adding_def by auto
    then show ?thesis by (intro exI [of _ "fresh @ [a]"]) simp
  qed
qed

lemma adding_unknown:
  assumes ad: "adding lb0 keys seen fresh (cur, us, lb)" and a: "a \<notin> seen" and room: "size (users lb0) + length fresh + 1 < 2 ^ 32"
    and m: "real_meta lb a = None" and keys: "\<forall>n \<in> keys. real_name lb0 n \<noteq> None"
  shows "\<exists>fresh'. adding lb0 keys (insert a seen) fresh' (add_one E w a (cur, us, lb)) \<and> length fresh' \<le> length fresh + 1"
proof -
  note A = addingD [OF ad]
  note pool = A(1)
  have na: "a \<notin> set fresh" using A(4) a by blast
  have m': "map_of (lb_reals lb) a = None" using m by (simp add: real_meta_def)
  obtain n lb' where acq: "increaseRefCountForReal E a lb = (n, lb')" by force
  have rest: "lb_rest lb' = lb_rest lb" using acquire_rest [of E a lb] acq by simp
  then have cfg: "config lb' = config lb" by (simp add: lb_rest_def)
  show ?thesis
  proof (cases "n = maxReals (config lb)")
    case True
    then have "lb' = lb" using acquire_new [OF pool _ m acq] room by auto
    then have "adding lb0 keys (insert a seen) fresh (add_one E w a (cur, us, lb))"
      unfolding add_one_def Let_def prod.case m' option.case acq using True A unfolding adding_def by auto
    then show ?thesis by (intro exI [of _ fresh]) simp
  next
    case False
    then have k: "pool_ok (add_mset a (users lb0 + mset fresh)) lb'" "real_name lb' = (real_name lb)(n \<mapsto> a)" "real_name lb n = None"
      using acquire_new [OF pool _ m acq] room by auto
    have nk: "real_name lb' j \<noteq> Some a" "real_name lb' j = real_name lb j" if "j \<in> keys" for j
    proof -
      obtain b where "real_name lb0 j = Some b" using keys \<open>j \<in> keys\<close> by blast
      then have "real_name lb j = Some b" using A(5) by blast
      then show "real_name lb' j \<noteq> Some a" "real_name lb' j = real_name lb j"
        using k(2,3) pool_okD(6) [OF pool, of j] m by auto
    qed
    have other: "real_name lb' j = Some b" if "real_name lb j = Some b" for j b using that k(2,3) by auto
    have f1: "\<forall>j \<in> set cur. j \<in> keys \<or> (\<exists>b \<in> set fresh. real_name lb' j = Some b)" using A(7) other by blast
    have f2: "\<forall>u \<in> set us. ep_num (updatedReal u) \<in> keys \<or> (\<exists>b \<in> set fresh. real_name lb' (ep_num (updatedReal u)) = Some b)"
      using A(10) other by blast
    have f3: "\<forall>b \<in> set fresh. \<exists>u \<in> set us. real_name lb' (ep_num (updatedReal u)) = Some b" using A(11) other by blast
    have f4: "real_name lb' n = Some a" using k(2) by simp
    have "adding lb0 keys (insert a seen) (fresh @ [a])
        (cur, us @ [\<lparr>ur_action = ADD, updatedReal = \<lparr>ep_num = n, ep_weight = w, ep_hash = ip_hash E a\<rparr>\<rparr>], lb')"
      unfolding adding_def prod.case
    proof (intro conjI)
      show "pool_ok (users lb0 + mset (fresh @ [a])) lb'" using k(1) by simp
      show "lb_rest lb' = lb_rest lb0" "distinct (fresh @ [a])" "set (fresh @ [a]) \<subseteq> insert a seen"
        using A(2,3,4) rest na by auto
      show "\<forall>j b. real_name lb0 j = Some b \<longrightarrow> real_name lb' j = Some b" using A(5) other by blast
      show "\<forall>j. j \<in> keys \<longrightarrow> (\<forall>b \<in> set (fresh @ [a]). real_name lb' j \<noteq> Some b)" using A(9) nk by simp
      show "keys \<subseteq> set cur" using A(8) .
    qed (use A(6) f1 f2 f3 f4 in auto)
    then show ?thesis
      by (intro exI [of _ "fresh @ [a]"]) (simp add: add_one_def m' acq False cfg Let_def)
  qed
qed

text \<open>The addresses that a list of reals names; strings that do not parse are skipped.\<close>

definition valid_addrs :: "katran_env \<Rightarrow> NewReal list \<Rightarrow> IPAddress list" where
  "valid_addrs E rs = List.map_filter (\<lambda>r. ip_create E (nr_address r)) rs"

lemma valid_addrs_simps [simp]:
  "valid_addrs E [] = []"
  "valid_addrs E (r # rs) = (case ip_create E (nr_address r) of None \<Rightarrow> valid_addrs E rs | Some a \<Rightarrow> a # valid_addrs E rs)"
  by (simp_all add: valid_addrs_def split: option.split)

lemma modify_one_eq:
  "modify_one E action r (cur, us, lb) =
    (case ip_create E (nr_address r) of
       None \<Rightarrow> (cur, us, count_invalid lb)
     | Some a \<Rightarrow> if action = DEL then del_one a (cur, us, lb) else add_one E (nr_weight r) a (cur, us, lb))"
  by (simp add: modify_one_def validateAddress_def ip_of_def split: option.split)

lemma count_invalid_keeps [simp]: "lb_rest (count_invalid lb) = lb_rest lb" "lb_pool_of (count_invalid lb) = lb_pool_of lb"
  by (simp_all add: count_invalid_def lb_rest_def lb_pool_of_def)

lemma adding_invalid: "adding lb0 keys seen fresh (cur, us, count_invalid lb) = adding lb0 keys seen fresh (cur, us, lb)"
proof -
  have "real_name (count_invalid lb) = real_name lb" "pool_ok U (count_invalid lb) = pool_ok U lb" for U
    using real_name_cong [of "count_invalid lb" lb] pool_ok_cong [of "count_invalid lb" lb] by (simp_all add: count_invalid_def lb_pool_of_def)
  then show ?thesis by (simp add: adding_def)
qed

lemma adding_one:
  assumes "adding lb0 keys seen fresh (cur, us, lb)" "a \<notin> seen" "size (users lb0) + length fresh + 1 < 2 ^ 32"
    and "\<forall>n \<in> keys. real_name lb0 n \<noteq> None"
  shows "\<exists>fresh'. adding lb0 keys (insert a seen) fresh' (add_one E w a (cur, us, lb)) \<and> length fresh' \<le> length fresh + 1"
proof (cases "real_meta lb a")
  case None
  then show ?thesis by (rule adding_unknown [OF assms(1-3) _ assms(4)])
next
  case (Some m)
  then show ?thesis by (rule adding_known [OF assms(1-3)])
qed

lemma adding_fold:
  assumes "adding lb0 keys seen fresh s" "size (users lb0) + length fresh + length rs < 2 ^ 32"
    and "distinct (valid_addrs E rs)" "seen \<inter> set (valid_addrs E rs) = {}" "\<forall>n \<in> keys. real_name lb0 n \<noteq> None"
  shows "\<exists>fresh' seen'. adding lb0 keys seen' fresh' (fold (modify_one E ADD) rs s) \<and> length fresh' \<le> length fresh + length rs"
  using assms
proof (induction rs arbitrary: s seen fresh)
  case (Cons r rs)
  obtain cur us lb where s: "s = (cur, us, lb)" by (cases s)
  show ?case
  proof (cases "ip_create E (nr_address r)")
    case None
    then have "adding lb0 keys seen fresh (modify_one E ADD r s)"
      using Cons.prems(1) by (simp add: s modify_one_eq adding_invalid)
    moreover have "size (users lb0) + length fresh + length rs < 2 ^ 32" using Cons.prems(2) by simp
    ultimately obtain fresh' seen' where "adding lb0 keys seen' fresh' (fold (modify_one E ADD) rs (modify_one E ADD r s))"
      "length fresh' \<le> length fresh + length rs"
      using Cons.IH [of seen fresh "modify_one E ADD r s"] Cons.prems(3-5) None by auto
    then show ?thesis by (intro exI [of _ fresh'] exI [of _ seen']) simp
  next
    case (Some a)
    then have a: "a \<notin> seen" "a \<notin> set (valid_addrs E rs)" using Cons.prems(3,4) by auto
    obtain fresh1 where f1: "adding lb0 keys (insert a seen) fresh1 (modify_one E ADD r s)" "length fresh1 \<le> length fresh + 1"
      using adding_one [OF _ a(1) _ Cons.prems(5), of fresh cur us lb] Cons.prems(1,2) Some by (auto simp: s modify_one_eq)
    moreover have "size (users lb0) + length fresh1 + length rs < 2 ^ 32" using Cons.prems(2) f1(2) by simp
    ultimately obtain fresh' seen' where "adding lb0 keys seen' fresh' (fold (modify_one E ADD) rs (modify_one E ADD r s))"
      "length fresh' \<le> length fresh1 + length rs"
      using Cons.IH [of "insert a seen" fresh1 "modify_one E ADD r s"] Cons.prems(3-5) Some a(2) by auto
    then show ?thesis using f1(2) by (intro exI [of _ fresh'] exI [of _ seen']) simp
  qed
qed auto

text \<open>The service after the batch has its old numbers and those of the fresh addresses.\<close>

lemma fold_add_keys:
  assumes "\<forall>u \<in> set us. ur_action u = ADD"
  shows "fst ` set (fst (fold apply_ureal us s)) = fst ` set (fst s) \<union> (\<lambda>u. ep_num (updatedReal u)) ` set us"
  using assms
proof (induction us arbitrary: s)
  case (Cons u us)
  have "fst ` set (fst (apply_ureal u s)) = insert (ep_num (updatedReal u)) (fst ` set (fst s))"
    using Cons.prems by (cases s) (auto simp: apply_ureal_def Let_def AList.dom_update split: option.split)
  with Cons show ?case by auto
qed simp


text \<open>Numbers and addresses correspond one to one: what a list of numbers has more than another.\<close>

lemma names_split:
  assumes d: "distinct ks" "distinct big" "set ks \<subseteq> set big" "distinct as"
    and named: "\<And>n. n \<in> set big - set ks \<Longrightarrow> \<exists>a \<in> set as. nm n = Some a"
    and onto: "\<And>a. a \<in> set as \<Longrightarrow> \<exists>n \<in> set big - set ks. nm n = Some a"
    and inj: "\<And>n k a. nm n = Some a \<Longrightarrow> nm k = Some a \<Longrightarrow> n = k"
  shows "image_mset (\<lambda>n. the (nm n)) (mset big) = image_mset (\<lambda>n. the (nm n)) (mset ks) + mset as"
proof -
  let ?N = "set big - set ks" and ?name = "\<lambda>n. the (nm n)"
  have injN: "inj_on ?name ?N" by (rule inj_onI) (metis named option.sel inj)
  have img: "?name ` ?N = set as"
  proof
    show "?name ` ?N \<subseteq> set as" using named by force
    show "set as \<subseteq> ?name ` ?N" using onto by force
  qed
  have "mset big = mset_set (set big)" "mset ks = mset_set (set ks)" using d by (simp_all add: mset_set_set)
  moreover have "set big = set ks \<union> ?N" using d(3) by auto
  ultimately have "mset big = mset ks + mset_set ?N" by (metis Diff_disjoint List.finite_set mset_set_Union finite_Diff)
  moreover have "image_mset ?name (mset_set ?N) = mset as"
    using image_mset_mset_set [OF injN] img d(4) by (simp add: mset_set_set)
  ultimately show ?thesis by simp
qed

lemma adding_names:
  assumes ad: "adding lb0 (set ks) seen fresh (cur, us, lb)" and d: "distinct ks" "distinct ks'"
    and ks': "set ks' = set ks \<union> (\<lambda>u. ep_num (updatedReal u)) ` set us"
  shows "image_mset (\<lambda>n. the (real_name lb n)) (mset ks') = image_mset (\<lambda>n. the (real_name lb n)) (mset ks) + mset fresh"
    "\<forall>n \<in> set ks' - set ks. real_name lb n \<noteq> None"
proof -
  note A = addingD [OF ad]
  have named: "\<exists>a \<in> set fresh. real_name lb n = Some a" if "n \<in> set ks' - set ks" for n using that ks' A(10) by auto
  then show "\<forall>n \<in> set ks' - set ks. real_name lb n \<noteq> None" by auto
  have onto: "\<exists>n \<in> set ks' - set ks. real_name lb n = Some a" if a: "a \<in> set fresh" for a
    using A(9,11) ks' a by blast
  show "image_mset (\<lambda>n. the (real_name lb n)) (mset ks') = image_mset (\<lambda>n. the (real_name lb n)) (mset ks) + mset fresh"
    by (rule names_split [OF d _ A(3) named onto]) (use ks' real_name_inj [OF A(1)] in auto)
qed

text \<open>A service is replaced by its updated version.\<close>

lemma lb_inv_replace:
  assumes s: "services_ok lb0" and v: "map_of (vips lb0) k = Some v" and rest: "lb_rest lb1 = lb_rest lb0"
    and v': "reals_wf v'" "ring_fits v'" "chRingSize v' = chRingSize v" "vipNum v' = vipNum v"
    and U: "U = mset (map fst (vip_reals v')) + (held (mset (vips lb0) - {#(k, v)#}) + mset (map snd (lpmSrcMapping lb0)))"
    and pool: "pool_ok (image_mset (\<lambda>n. the (real_name lb1 n)) U + mset (map fst (quicMapping lb0))) lb1"
    and named: "\<forall>n \<in># U. real_name lb1 n \<noteq> None"
  shows "lb_inv (lb1\<lparr>vips := AList.update k v' (vips lb1)\<rparr>)" (is "lb_inv ?lb")
proof -
  note r = lb_restD [OF rest]
  let ?f = "\<lambda>(k :: VipKey, v). vipNum v"
  have up: "mset (vips ?lb) = add_mset (k, v') (mset (vips lb0) - {#(k, v)#})"
    using mset_alist_update_old [OF v] r by simp
  have used: "used_nums ?lb = U" unfolding used_nums_def up U using r by simp
  have name: "real_name ?lb = real_name lb1" by (simp add: real_name_def)
  have "pool_ok (users ?lb) ?lb"
    unfolding users_def used name using pool pool_ok_cong [of ?lb lb1] r by (simp add: lb_pool_of_def)
  moreover have "services_ok ?lb"
  proof -
    have set': "set (vips ?lb) \<subseteq> insert (k, v') (set (vips lb0))"
      using arg_cong [OF up, of set_mset] by (auto dest: in_diffD)
    have "image_mset ?f (mset (vips ?lb)) = image_mset ?f (mset (vips lb0))"
      unfolding up using services_ok_vip(4) [OF s v] v'(4)
      by (metis (no_types, lifting) case_prod_conv image_mset_add_mset insert_DiffM)
    then have "mset (vipNums ?lb @ map ?f (vips ?lb)) = mset (vipNums lb0 @ map ?f (vips lb0))" using r by simp
    then have "distinct (vipNums ?lb @ map ?f (vips ?lb)) = distinct (vipNums lb0 @ map ?f (vips lb0))"
      "set (vipNums ?lb @ map ?f (vips ?lb)) = set (vipNums lb0 @ map ?f (vips lb0))"
      using mset_eq_imp_distinct_iff mset_eq_setD by blast+
    moreover have "\<forall>(k, v) \<in> set (vips ?lb). reals_wf v \<and> ring_fits v \<and> chRingSize v = cfg_chRingSize (config ?lb)"
      using set' s v' services_ok_vip(3) [OF s v] r unfolding services_ok_def by auto
    moreover have "distinct (map fst (vips ?lb))" using s r by (simp add: services_ok_def distinct_update)
    ultimately show ?thesis using s r unfolding services_ok_def by simp
  qed
  ultimately show ?thesis unfolding lb_inv_def using named by (simp add: used name)
qed

lemma write_ring_keeps [simp]:
  "lb_rest (write_ring E num ps lb) = lb_rest lb" "lb_pool_of (write_ring E num ps lb) = lb_pool_of lb"
  by (induction ps arbitrary: lb) (simp_all add: write_ring_def Let_def)

lemma lb_inv_write_ring [simp]: "lb_inv (write_ring E num ps lb) = lb_inv lb"
  by (rule lb_inv_cong) simp_all

lemma adding_start:
  assumes inv: "lb_inv lb" and v: "map_of (vips lb) k = Some v" and E: "env_ok E"
  shows "adding lb (set (map fst (vip_reals v))) {} [] (getReals (iter_reals E) v, [], lb)"
    "\<forall>n \<in> set (map fst (vip_reals v)). real_name lb n \<noteq> None"
proof -
  have s: "services_ok lb" using inv by (simp add: lb_inv_def)
  have "set (getReals (iter_reals E) v) = set (map fst (vip_reals v))" using getReals_mset [OF E, of v] by (metis mset_eq_setD)
  then show "adding lb (set (map fst (vip_reals v))) {} [] (getReals (iter_reals E) v, [], lb)"
    using inv by (simp add: adding_def lb_inv_def)
  show "\<forall>n \<in> set (map fst (vip_reals v)). real_name lb n \<noteq> None"
    using inv used_nums_vip [OF s v] by (simp add: lb_inv_def)
qed

text \<open>What \<open>modifyRealsForVip\<close> does when it returns \<open>true\<close>.\<close>

lemma modifyRealsForVip_true:
  assumes "modifyRealsForVip E action rs k lb = (Inr True, lb')"
  obtains v cur us lb1 delta v' where "map_of (vips lb) k = Some v"
    "fold (modify_one E action) rs (getReals (iter_reals E) v, [], lb) = (cur, us, lb1)"
    "batchRealsUpdate (iter_reals E) us v = Some (delta, v')"
    "lb' = (let lb2 = lb1\<lparr>vips := AList.update k v' (vips lb1)\<rparr> in
       if \<not> testing (config lb2) then write_ring E (vipNum v') delta lb2 else lb2)"
  using assms unfolding modifyRealsForVip_def Let_def
  by (auto split: if_splits option.splits prod.splits)

lemma lb_inv_modified:
  assumes "lb_inv (lb1\<lparr>vips := AList.update k v' (vips lb1)\<rparr>)"
    and "lb' = (let lb2 = lb1\<lparr>vips := AList.update k v' (vips lb1)\<rparr> in
       if \<not> testing (config lb2) then write_ring E (vipNum v') delta lb2 else lb2)"
  shows "lb_inv lb'"
  using assms by (simp add: Let_def)

lemma modifyReals_add_inv:
  assumes inv: "lb_inv lb" and E: "env_ok E" and dist: "distinct (valid_addrs E rs)"
    and room: "size (users lb) + length rs < 2 ^ 32" and mod: "modifyRealsForVip E ADD rs k lb = (Inr True, lb')"
  shows "lb_inv lb'"
proof -
  obtain v cur us lb1 delta v' where v: "map_of (vips lb) k = Some v"
    and loop: "fold (modify_one E ADD) rs (getReals (iter_reals E) v, [], lb) = (cur, us, lb1)"
    and batch: "batchRealsUpdate (iter_reals E) us v = Some (delta, v')"
    and lb': "lb' = (let lb2 = lb1\<lparr>vips := AList.update k v' (vips lb1)\<rparr> in
       if \<not> testing (config lb2) then write_ring E (vipNum v') delta lb2 else lb2)"
    using modifyRealsForVip_true [OF mod] .
  have s: "services_ok lb" using inv by (simp add: lb_inv_def)
  let ?ks = "map fst (vip_reals v)" and ?ks' = "map fst (vip_reals v')"
  let ?R = "held (mset (vips lb) - {#(k, v)#}) + mset (map snd (lpmSrcMapping lb))"
  obtain fresh seen where ad: "adding lb (set ?ks) seen fresh (cur, us, lb1)"
    using adding_fold [OF adding_start(1) [OF inv v E] _ dist _ adding_start(2) [OF inv v E]] room unfolding loop by auto
  note A = addingD [OF ad]
  have wf: "reals_wf v" "ring_fits v" using services_ok_vip [OF s v] by simp_all
  have keys': "set ?ks' = set ?ks \<union> (\<lambda>u. ep_num (updatedReal u)) ` set us"
    using batchRealsUpdate_reals [OF batch] fold_add_keys [OF A(6), of "(vip_reals v, False)"] by simp
  have wf': "reals_wf v'"
    using batchRealsUpdate_reals [OF batch] fold_apply_ureal_distinct [of "(vip_reals v, False)" us] wf(1) by (simp add: reals_wf_def)
  note names = adding_names [OF ad _ _ keys'] wf(1) wf'
  have same: "real_name lb1 n = real_name lb n" if "n \<in># mset ?ks + ?R" for n
    using that inv A(5) used_nums_vip [OF s v] unfolding lb_inv_def by (metis option.exhaust)
  have img: "image_mset (\<lambda>n. the (real_name lb1 n)) (mset ?ks' + ?R) =
      image_mset (\<lambda>n. the (real_name lb n)) (mset ?ks + ?R) + mset fresh"
  proof -
    have "image_mset (\<lambda>n. the (real_name lb1 n)) (mset ?ks + ?R) = image_mset (\<lambda>n. the (real_name lb n)) (mset ?ks + ?R)"
      by (rule image_mset_cong) (simp only: same)
    then show ?thesis using names by (simp add: reals_wf_def)
  qed
  have "users lb + mset fresh = image_mset (\<lambda>n. the (real_name lb1 n)) (mset ?ks' + ?R) + mset (map fst (quicMapping lb))"
    unfolding img users_def used_nums_vip [OF s v] by simp
  then have pool: "pool_ok (image_mset (\<lambda>n. the (real_name lb1 n)) (mset ?ks' + ?R) + mset (map fst (quicMapping lb))) lb1"
    using A(1) by simp
  have named: "\<forall>n \<in># mset ?ks' + ?R. real_name lb1 n \<noteq> None"
  proof
    fix n assume n: "n \<in># mset ?ks' + ?R"
    show "real_name lb1 n \<noteq> None"
    proof (cases "n \<in># mset ?ks + ?R")
      case True
      then show ?thesis using same inv used_nums_vip [OF s v] unfolding lb_inv_def by metis
    next
      case False
      then have "n \<in> set ?ks' - set ?ks" using n by auto
      then show ?thesis using names by (simp add: reals_wf_def)
    qed
  qed
  show ?thesis
    using lb_inv_modified [OF lb_inv_replace [OF s v A(2) wf' _ _ _ refl pool named] lb'] batchRealsUpdate_delta [OF wf(2) batch] by simp
qed

section \<open>Deleting reals of a service\<close>

text \<open>
  The loop for \<open>DEL\<close>: the addresses \<open>gone\<close>, whose numbers belong to the service, have been released
  and the collected updates are their numbers.
\<close>

definition deleting ::
  "KatranLb \<Rightarrow> u32 set \<Rightarrow> IPAddress set \<Rightarrow> IPAddress list \<Rightarrow> u32 list \<times> UpdateReal list \<times> KatranLb \<Rightarrow> bool" where
  "deleting lb0 keys seen gone s = (case s of (cur, us, lb) \<Rightarrow>
     pool_ok (users lb0 - mset gone) lb \<and> lb_rest lb = lb_rest lb0 \<and> distinct gone \<and> set gone \<subseteq> seen \<and>
     (\<forall>k b. real_name lb0 k = Some b \<longrightarrow> b \<in># users lb0 - mset gone \<longrightarrow> real_name lb k = Some b) \<and>
     (\<forall>k b. real_name lb k = Some b \<longrightarrow> real_name lb0 k = Some b) \<and> set cur = keys \<and>
     (\<forall>u \<in> set us. ur_action u = DEL) \<and>
     (\<forall>a \<in> set gone. a \<in># users lb0) \<and>
     (\<lambda>u. ep_num (updatedReal u)) ` set us = {n \<in> keys. \<exists>a \<in> set gone. real_name lb0 n = Some a} \<and>
     (\<forall>a \<in> set gone. \<exists>n \<in> keys. real_name lb0 n = Some a))"

lemma deletingD:
  assumes "deleting lb0 keys seen gone (cur, us, lb)"
  shows "pool_ok (users lb0 - mset gone) lb" "lb_rest lb = lb_rest lb0" "distinct gone" "set gone \<subseteq> seen"
    and "\<forall>k b. real_name lb0 k = Some b \<longrightarrow> b \<in># users lb0 - mset gone \<longrightarrow> real_name lb k = Some b"
    and "\<forall>k b. real_name lb k = Some b \<longrightarrow> real_name lb0 k = Some b" "set cur = keys"
    and "\<forall>u \<in> set us. ur_action u = DEL" "\<forall>a \<in> set gone. a \<in># users lb0"
    and "(\<lambda>u. ep_num (updatedReal u)) ` set us = {n \<in> keys. \<exists>a \<in> set gone. real_name lb0 n = Some a}"
    and "\<forall>a \<in> set gone. \<exists>n \<in> keys. real_name lb0 n = Some a"
  using assms unfolding deleting_def prod.case by - (elim conjE, assumption)+

lemma deleting_seen:
  "deleting lb0 keys seen gone s \<Longrightarrow> seen \<subseteq> seen' \<Longrightarrow> deleting lb0 keys seen' gone s"
  unfolding deleting_def split_def by (elim conjE, intro conjI) (assumption | erule order_trans)+

lemma release_name_sub: "real_name (decreaseRefCountForReal a lb) k = Some b \<Longrightarrow> real_name lb k = Some b"
  by (auto simp: decreaseRefCountForReal_def real_name_def Let_def delete_conv' split: option.splits if_splits)

lemma deleting_one:
  assumes de: "deleting lb0 keys seen gone (cur, us, lb)" and a: "a \<notin> seen" and pool0: "pool_ok (users lb0) lb0"
  shows "\<exists>gone'. deleting lb0 keys (insert a seen) gone' (del_one a (cur, us, lb))"
proof -
  note D = deletingD [OF de]
  show ?thesis
  proof (cases "\<exists>m. real_meta lb a = Some m \<and> rm_num m \<in> set cur")
    case False
    then have "del_one a (cur, us, lb) = (cur, us, lb)"
      by (auto simp: del_one_def real_meta_def split: option.split)
    moreover have "deleting lb0 keys (insert a seen) gone (cur, us, lb)" using deleting_seen [OF de] by blast
    ultimately show ?thesis by (intro exI [of _ gone]) simp
  next
    case True
    then obtain m where m: "real_meta lb a = Some m" "rm_num m \<in> keys" using D(7) by blast
    let ?u = "\<lparr>ur_action = DEL, updatedReal = \<lparr>ep_num = rm_num m, ep_weight = 0, ep_hash = 0\<rparr>\<rparr>"
    let ?lb = "decreaseRefCountForReal a lb"
    have one: "del_one a (cur, us, lb) = (cur, us @ [?u], ?lb)"
      using m D(7) by (simp add: del_one_def real_meta_def)
    have aU: "a \<in># users lb0 - mset gone" using pool_okD(2) [OF D(1), of a] m(1) by auto
    have n0: "real_name lb0 (rm_num m) = Some a" using pool_okD(4) [OF D(1) m(1)] D(6) by blast
    have U: "users lb0 - mset gone - {#a#} = users lb0 - mset (gone @ [a])" by simp
    have "deleting lb0 keys (insert a seen) (gone @ [a]) (cur, us @ [?u], ?lb)"
      unfolding deleting_def prod.case
    proof (intro conjI)
      show "pool_ok (users lb0 - mset (gone @ [a])) ?lb" using pool_ok_release [OF D(1) aU] U by simp
      show "lb_rest ?lb = lb_rest lb0" "distinct (gone @ [a])" "set (gone @ [a]) \<subseteq> insert a seen" using D(2,3,4) a by auto
      show "\<forall>k b. real_name lb0 k = Some b \<longrightarrow> b \<in># users lb0 - mset (gone @ [a]) \<longrightarrow> real_name ?lb k = Some b"
      proof (intro allI impI)
        fix k b assume k: "real_name lb0 k = Some b" "b \<in># users lb0 - mset (gone @ [a])"
        then have b: "b \<in># users lb0 - mset gone - {#a#}" using U by simp
        then have "real_name lb k = Some b" using D(5) k(1) in_diffD [OF b] by blast
        then show "real_name ?lb k = Some b" using release_keeps_name [OF D(1) _ b] by simp
      qed
      show "\<forall>k b. real_name ?lb k = Some b \<longrightarrow> real_name lb0 k = Some b" using D(6) release_name_sub by blast
      show "set cur = keys" by (rule D(7))
      show "\<forall>u \<in> set (us @ [?u]). ur_action u = DEL" using D(8) by auto
      show "\<forall>a \<in> set (gone @ [a]). a \<in># users lb0" using D(9) in_diffD [OF aU] by auto
      show "\<forall>b \<in> set (gone @ [a]). \<exists>n \<in> keys. real_name lb0 n = Some b" using D(11) m(2) n0 by auto
      have "real_name lb0 n = Some a \<longleftrightarrow> n = rm_num m" for n using real_name_inj [OF pool0 _ n0] n0 by blast
      then have "{n \<in> keys. \<exists>b \<in> set (gone @ [a]). real_name lb0 n = Some b} =
          insert (rm_num m) {n \<in> keys. \<exists>b \<in> set gone. real_name lb0 n = Some b}" using m(2) n0 by auto
      then show "(\<lambda>u. ep_num (updatedReal u)) ` set (us @ [?u]) = {n \<in> keys. \<exists>b \<in> set (gone @ [a]). real_name lb0 n = Some b}"
        using D(10) by simp
    qed
    then show ?thesis using one by (intro exI [of _ "gone @ [a]"]) simp
  qed
qed

lemma deleting_invalid:
  assumes "deleting lb0 keys seen gone (cur, us, lb)"
  shows "deleting lb0 keys seen gone (cur, us, count_invalid lb)"
proof -
  have n: "real_name (count_invalid lb) = real_name lb" using real_name_cong [of "count_invalid lb" lb] by simp
  have p: "pool_ok U (count_invalid lb) = pool_ok U lb" for U
    using pool_ok_cong [of "count_invalid lb" lb] by (simp add: count_invalid_def lb_pool_of_def)
  show ?thesis using assms unfolding deleting_def prod.case n p count_invalid_keeps .
qed

lemma deleting_fold:
  assumes "deleting lb0 keys seen gone s" "pool_ok (users lb0) lb0"
    and "distinct (valid_addrs E rs)" "seen \<inter> set (valid_addrs E rs) = {}"
  shows "\<exists>gone' seen'. deleting lb0 keys seen' gone' (fold (modify_one E DEL) rs s)"
  using assms(1,3,4)
proof (induction rs arbitrary: s seen gone)
  case (Cons r rs)
  obtain cur us lb where s: "s = (cur, us, lb)" by (cases s)
  show ?case
  proof (cases "ip_create E (nr_address r)")
    case None
    then have "deleting lb0 keys seen gone (modify_one E DEL r s)"
      using Cons.prems(1) deleting_invalid by (simp add: s modify_one_eq)
    from Cons.IH [OF this] Cons.prems(2,3) None show ?thesis by simp
  next
    case (Some a)
    then have a: "a \<notin> seen" "a \<notin> set (valid_addrs E rs)" using Cons.prems(2,3) by auto
    obtain gone1 where "deleting lb0 keys (insert a seen) gone1 (modify_one E DEL r s)"
      using deleting_one [OF _ a(1) assms(2), of keys gone cur us lb] Cons.prems(1) Some by (auto simp: s modify_one_eq)
    from Cons.IH [OF this] Cons.prems(2,3) Some a(2) show ?thesis by simp
  qed
qed auto

lemma fold_del_keys:
  assumes "\<forall>u \<in> set us. ur_action u = DEL"
  shows "fst ` set (fst (fold apply_ureal us s)) = fst ` set (fst s) - (\<lambda>u. ep_num (updatedReal u)) ` set us"
  using assms
proof (induction us arbitrary: s)
  case (Cons u us)
  have "fst ` set (fst (apply_ureal u s)) = fst ` set (fst s) - {ep_num (updatedReal u)}"
    using Cons.prems by (cases s) (auto simp: apply_ureal_def Let_def AList.delete_eq)
  with Cons show ?case by auto
qed simp

lemma deleting_start:
  assumes inv: "lb_inv lb" and v: "map_of (vips lb) k = Some v" and E: "env_ok E"
  shows "deleting lb (set (map fst (vip_reals v))) {} [] (getReals (iter_reals E) v, [], lb)"
proof -
  have "set (getReals (iter_reals E) v) = set (map fst (vip_reals v))" using getReals_mset [OF E, of v] by (metis mset_eq_setD)
  then show ?thesis using inv by (simp add: deleting_def lb_inv_def)
qed

lemma deleting_names:
  assumes de: "deleting lb0 (set ks) seen gone (cur, us, lb)" and d: "distinct ks" "distinct ks'"
    and ks': "set ks' = set ks - (\<lambda>u. ep_num (updatedReal u)) ` set us" and pool0: "pool_ok (users lb0) lb0"
  shows "image_mset (\<lambda>n. the (real_name lb0 n)) (mset ks) = image_mset (\<lambda>n. the (real_name lb0 n)) (mset ks') + mset gone"
proof -
  note D = deletingD [OF de]
  have N: "set ks - set ks' = {n \<in> set ks. \<exists>a \<in> set gone. real_name lb0 n = Some a}" using ks' D(10) by auto
  show ?thesis
  proof (rule names_split [OF d(2,1) _ D(3)])
    show "set ks' \<subseteq> set ks" using ks' by auto
    show "\<exists>a \<in> set gone. real_name lb0 n = Some a" if "n \<in> set ks - set ks'" for n using that N by blast
    show "\<exists>n \<in> set ks - set ks'. real_name lb0 n = Some a" if "a \<in> set gone" for a using that N D(11) by blast
  qed (use real_name_inj [OF pool0] in blast)
qed

lemma modifyReals_del_inv:
  assumes inv: "lb_inv lb" and E: "env_ok E" and dist: "distinct (valid_addrs E rs)"
    and mod: "modifyRealsForVip E DEL rs k lb = (Inr True, lb')"
  shows "lb_inv lb'"
proof -
  obtain v cur us lb1 delta v' where v: "map_of (vips lb) k = Some v"
    and loop: "fold (modify_one E DEL) rs (getReals (iter_reals E) v, [], lb) = (cur, us, lb1)"
    and batch: "batchRealsUpdate (iter_reals E) us v = Some (delta, v')"
    and lb': "lb' = (let lb2 = lb1\<lparr>vips := AList.update k v' (vips lb1)\<rparr> in
       if \<not> testing (config lb2) then write_ring E (vipNum v') delta lb2 else lb2)"
    using modifyRealsForVip_true [OF mod] .
  have s: "services_ok lb" and pool0: "pool_ok (users lb) lb" using inv by (simp_all add: lb_inv_def)
  let ?ks = "map fst (vip_reals v)" and ?ks' = "map fst (vip_reals v')" and ?nm = "\<lambda>n. the (real_name lb n)"
  let ?R = "held (mset (vips lb) - {#(k, v)#}) + mset (map snd (lpmSrcMapping lb))"
  obtain gone seen where de: "deleting lb (set ?ks) seen gone (cur, us, lb1)"
    using deleting_fold [OF deleting_start [OF inv v E] pool0 dist] unfolding loop by auto
  note D = deletingD [OF de]
  have wf: "reals_wf v" "ring_fits v" using services_ok_vip [OF s v] by simp_all
  have keys': "set ?ks' = set ?ks - (\<lambda>u. ep_num (updatedReal u)) ` set us"
    using batchRealsUpdate_reals [OF batch] fold_del_keys [OF D(8), of "(vip_reals v, False)"] by simp
  have wf': "reals_wf v'"
    using batchRealsUpdate_reals [OF batch] fold_apply_ureal_distinct [of "(vip_reals v, False)" us] wf(1) by (simp add: reals_wf_def)
  have img: "image_mset ?nm (mset ?ks) = image_mset ?nm (mset ?ks') + mset gone"
    using deleting_names [OF de _ _ keys' pool0] wf(1) wf' by (simp add: reals_wf_def)
  then have left: "users lb - mset gone = image_mset ?nm (mset ?ks' + ?R) + mset (map fst (quicMapping lb))"
    unfolding users_def used_nums_vip [OF s v] by simp
  have same: "real_name lb1 n = real_name lb n" "real_name lb n \<noteq> None" if "n \<in># mset ?ks' + ?R" for n
  proof -
    have "n \<in># used_nums lb" using that keys' used_nums_vip [OF s v] by auto
    then show n: "real_name lb n \<noteq> None" using inv by (simp add: lb_inv_def)
    have "?nm n \<in># users lb - mset gone" unfolding left using that by auto
    then show "real_name lb1 n = real_name lb n" using D(5) n by fastforce
  qed
  have eq: "image_mset (\<lambda>n. the (real_name lb1 n)) (mset ?ks' + ?R) = image_mset ?nm (mset ?ks' + ?R)"
    by (rule image_mset_cong) (simp only: same(1))
  have pool: "pool_ok (image_mset (\<lambda>n. the (real_name lb1 n)) (mset ?ks' + ?R) + mset (map fst (quicMapping lb))) lb1"
    unfolding eq left [symmetric] by (rule D(1))
  have named: "\<forall>n \<in># mset ?ks' + ?R. real_name lb1 n \<noteq> None" using same by metis
  show ?thesis
    using lb_inv_modified [OF lb_inv_replace [OF s v D(2) wf' _ _ _ refl pool named] lb'] batchRealsUpdate_delta [OF wf(2) batch] by simp
qed

section \<open>Source routes and QUIC mappings\<close>

lemma lb_inv_tables:
  assumes s: "services_ok lb" and rest: "lb_rest lb1 = lb_rest lb"
    and d: "distinct (map fst L)" "distinct (map fst Q)"
    and pool: "pool_ok (image_mset (\<lambda>n. the (real_name lb1 n)) (held (mset (vips lb)) + mset (map snd L)) + mset (map fst Q)) lb1"
    and named: "\<forall>n \<in># held (mset (vips lb)) + mset (map snd L). real_name lb1 n \<noteq> None"
  shows "lb_inv (lb1\<lparr>lpmSrcMapping := L, quicMapping := Q\<rparr>)" (is "lb_inv ?lb")
proof -
  note r = lb_restD [OF rest]
  have name: "real_name ?lb = real_name lb1" by (simp add: real_name_def)
  have used: "used_nums ?lb = held (mset (vips lb)) + mset (map snd L)" using r by (simp add: used_nums_def)
  have "pool_ok (users ?lb) ?lb"
    unfolding users_def used name using pool pool_ok_cong [of ?lb lb1] by (simp add: lb_pool_of_def)
  moreover have "services_ok ?lb" using s r d by (simp add: services_ok_def)
  ultimately show ?thesis unfolding lb_inv_def used name using named by simp
qed

text \<open>After one acquisition by address \<open>a\<close>.\<close>

lemma lb_inv_acquire:
  assumes inv: "lb_inv lb" and room: "size (users lb) + 1 < 2 ^ 32" and acq: "increaseRefCountForReal E a lb = (n, lb1)"
  shows "n = maxReals (config lb) \<and> lb1 = lb \<or>
    n \<noteq> maxReals (config lb) \<and> pool_ok (add_mset a (users lb)) lb1 \<and> real_name lb1 n = Some a \<and>
      (\<forall>k \<in># used_nums lb. real_name lb1 k = real_name lb k)"
    "lb_rest lb1 = lb_rest lb"
proof -
  have pool: "pool_ok (users lb) lb" and named: "\<forall>k \<in># used_nums lb. real_name lb k \<noteq> None" using inv by (simp_all add: lb_inv_def)
  have "\<forall>k \<in># used_nums lb. real_name lb1 k = real_name lb k" if "\<forall>k b. real_name lb k = Some b \<longrightarrow> real_name lb1 k = Some b"
    using that named by fastforce
  then show "n = maxReals (config lb) \<and> lb1 = lb \<or>
    n \<noteq> maxReals (config lb) \<and> pool_ok (add_mset a (users lb)) lb1 \<and> real_name lb1 n = Some a \<and>
      (\<forall>k \<in># used_nums lb. real_name lb1 k = real_name lb k)"
    using acquire_ok [OF pool room acq] by blast
  show "lb_rest lb1 = lb_rest lb" using acquire_rest [of E a lb] acq by simp
qed

lemma users_names:
  assumes "\<forall>k \<in># used_nums lb. real_name lb1 k = real_name lb k"
  shows "image_mset (\<lambda>n. the (real_name lb1 n)) (used_nums lb) + mset (map fst (quicMapping lb)) = users lb"
proof -
  have "image_mset (\<lambda>n. the (real_name lb1 n)) (used_nums lb) = image_mset (\<lambda>n. the (real_name lb n)) (used_nums lb)"
    by (rule image_mset_cong) (simp add: assms)
  then show ?thesis by (simp add: users_def)
qed

lemma lb_inv_add_rule:
  assumes inv: "lb_inv lb" and room: "size (users lb) + 1 < 2 ^ 32" and acq: "increaseRefCountForReal E a lb = (n, lb1)"
    and n: "n \<noteq> maxReals (config lb)" and src: "map_of (lpmSrcMapping lb) src = None"
  shows "lb_inv (lb1\<lparr>lpmSrcMapping := AList.update src n (lpmSrcMapping lb1)\<rparr>)"
    "users (lb1\<lparr>lpmSrcMapping := AList.update src n (lpmSrcMapping lb1)\<rparr>) = add_mset a (users lb)" (is "users ?lb = _")
proof -
  have s: "services_ok lb" using inv by (simp add: lb_inv_def)
  have A: "pool_ok (add_mset a (users lb)) lb1" "real_name lb1 n = Some a" "\<forall>k \<in># used_nums lb. real_name lb1 k = real_name lb k"
    using lb_inv_acquire(1) [OF inv room acq] n by blast+
  have rest: "lb_rest lb1 = lb_rest lb" by (rule lb_inv_acquire(2) [OF inv room acq])
  note r = lb_restD [OF rest]
  let ?L = "AList.update src n (lpmSrcMapping lb1)"
  have L: "mset (map snd ?L) = add_mset n (mset (map snd (lpmSrcMapping lb)))"
    using mset_alist_update_new [OF src, of n] r by simp
  have used: "held (mset (vips lb)) + mset (map snd ?L) = add_mset n (used_nums lb)" unfolding L by (simp add: used_nums_def)
  have eq: "image_mset (\<lambda>n. the (real_name lb1 n)) (add_mset n (used_nums lb)) + mset (map fst (quicMapping lb)) = add_mset a (users lb)"
    unfolding image_mset_add_mset A(2) option.sel union_mset_add_mset_left users_names [OF A(3)] by (rule refl)
  have lb: "?lb = lb1\<lparr>lpmSrcMapping := ?L, quicMapping := quicMapping lb\<rparr>" using r by simp
  have "lb_inv (lb1\<lparr>lpmSrcMapping := ?L, quicMapping := quicMapping lb\<rparr>)"
  proof (rule lb_inv_tables [OF s rest])
    show "distinct (map fst ?L)" "distinct (map fst (quicMapping lb))"
      using s r by (simp_all add: services_ok_def distinct_update)
    show "pool_ok (image_mset (\<lambda>n. the (real_name lb1 n)) (held (mset (vips lb)) + mset (map snd ?L)) + mset (map fst (quicMapping lb))) lb1"
      unfolding used eq by (rule A(1))
    show "\<forall>n \<in># held (mset (vips lb)) + mset (map snd ?L). real_name lb1 n \<noteq> None"
      unfolding used using A(2,3) inv by (auto simp: lb_inv_def)
  qed
  then show "lb_inv ?lb" by (simp only: lb [symmetric])
  have "used_nums ?lb = add_mset n (used_nums lb)" using used r by (simp add: used_nums_def)
  moreover have "real_name ?lb = real_name lb1" by (simp add: real_name_def)
  ultimately show "users ?lb = add_mset a (users lb)" unfolding users_def [of ?lb] using eq r by simp
qed

lemma lb_inv_add_quic:
  assumes inv: "lb_inv lb" and room: "size (users lb) + 1 < 2 ^ 32" and acq: "increaseRefCountForReal E a lb = (n, lb1)"
    and n: "n \<noteq> maxReals (config lb)" and a: "map_of (quicMapping lb) a = None"
  shows "lb_inv (lb1\<lparr>quicMapping := AList.update a qid (quicMapping lb1)\<rparr>)"
    "users (lb1\<lparr>quicMapping := AList.update a qid (quicMapping lb1)\<rparr>) = add_mset a (users lb)" (is "users ?lb = _")
proof -
  have s: "services_ok lb" using inv by (simp add: lb_inv_def)
  have A: "pool_ok (add_mset a (users lb)) lb1" "real_name lb1 n = Some a" "\<forall>k \<in># used_nums lb. real_name lb1 k = real_name lb k"
    using lb_inv_acquire(1) [OF inv room acq] n by blast+
  have rest: "lb_rest lb1 = lb_rest lb" by (rule lb_inv_acquire(2) [OF inv room acq])
  note r = lb_restD [OF rest]
  let ?Q = "AList.update a qid (quicMapping lb1)"
  have Q: "mset (map fst ?Q) = add_mset a (mset (map fst (quicMapping lb)))"
    using mset_alist_update_new [OF a, of qid] r by simp
  have eq: "image_mset (\<lambda>n. the (real_name lb1 n)) (used_nums lb) + mset (map fst ?Q) = add_mset a (users lb)"
    unfolding Q union_mset_add_mset_right users_names [OF A(3)] by (rule refl)
  have lb: "?lb = lb1\<lparr>lpmSrcMapping := lpmSrcMapping lb, quicMapping := ?Q\<rparr>" using r by simp
  have "lb_inv (lb1\<lparr>lpmSrcMapping := lpmSrcMapping lb, quicMapping := ?Q\<rparr>)"
  proof (rule lb_inv_tables [OF s rest])
    show "distinct (map fst (lpmSrcMapping lb))" "distinct (map fst ?Q)"
      using s r by (simp_all add: services_ok_def distinct_update)
    show "pool_ok (image_mset (\<lambda>n. the (real_name lb1 n)) (held (mset (vips lb)) + mset (map snd (lpmSrcMapping lb))) + mset (map fst ?Q)) lb1"
      unfolding used_nums_def [symmetric] eq by (rule A(1))
    show "\<forall>n \<in># held (mset (vips lb)) + mset (map snd (lpmSrcMapping lb)). real_name lb1 n \<noteq> None"
      unfolding used_nums_def [symmetric] using A(2,3) inv by (auto simp: lb_inv_def)
  qed
  then show "lb_inv ?lb" by (simp only: lb [symmetric])
  have "used_nums ?lb = used_nums lb" using r by (simp add: used_nums_def)
  moreover have "real_name ?lb = real_name lb1" by (simp add: real_name_def)
  ultimately show "users ?lb = add_mset a (users lb)" unfolding users_def [of ?lb] using eq by simp
qed

text \<open>After one release, with the numbers \<open>M\<close> and the QUIC addresses \<open>Q\<close> left.\<close>

lemma release_left:
  assumes inv: "lb_inv lb" and a: "users lb = add_mset a (image_mset (\<lambda>n. the (real_name lb n)) M + Q)" and M: "M \<subseteq># used_nums lb"
    and lb1: "lb1 = decreaseRefCountForReal a lb"
  shows "pool_ok (image_mset (\<lambda>n. the (real_name lb1 n)) M + Q) lb1" "\<forall>n \<in># M. real_name lb1 n \<noteq> None"
proof -
  have pool: "pool_ok (users lb) lb" using inv by (simp add: lb_inv_def)
  have left: "users lb - {#a#} = image_mset (\<lambda>n. the (real_name lb n)) M + Q" using a by simp
  have same: "real_name lb1 n = real_name lb n" "real_name lb n \<noteq> None" if "n \<in># M" for n
  proof -
    have "n \<in># used_nums lb" using that M by (metis mset_subset_eqD)
    then show n: "real_name lb n \<noteq> None" using inv by (simp add: lb_inv_def)
    have "the (real_name lb n) \<in># users lb - {#a#}" unfolding left using that by auto
    then show "real_name lb1 n = real_name lb n" using release_keeps_name [OF pool] n lb1 by fastforce
  qed
  then have "image_mset (\<lambda>n. the (real_name lb1 n)) M = image_mset (\<lambda>n. the (real_name lb n)) M" by (intro image_mset_cong) simp
  moreover have "a \<in># users lb" unfolding a by simp
  ultimately show "pool_ok (image_mset (\<lambda>n. the (real_name lb1 n)) M + Q) lb1"
    using pool_ok_release [OF pool, of a] left lb1 by simp
  show "\<forall>n \<in># M. real_name lb1 n \<noteq> None" using same by metis
qed

lemma lb_inv_drop_rule:
  assumes inv: "lb_inv lb" and src: "map_of (lpmSrcMapping lb) src = Some n" and lb1: "lb1 = drop_real n lb"
  shows "lb_inv (lb1\<lparr>lpmSrcMapping := AList.delete src (lpmSrcMapping lb1)\<rparr>)" (is "lb_inv ?lb")
proof -
  have s: "services_ok lb" using inv by (simp add: lb_inv_def)
  have rest: "lb_rest lb1 = lb_rest lb" unfolding lb1 by simp
  note r = lb_restD [OF rest]
  let ?L = "AList.delete src (lpmSrcMapping lb)" and ?nm = "\<lambda>n. the (real_name lb n)"
  have "mset ?L = mset (lpmSrcMapping lb) - {#(src, n)#}"
    using mset_alist_delete [OF src] s by (simp add: services_ok_def)
  then have "add_mset (src, n) (mset ?L) = mset (lpmSrcMapping lb)"
    using map_of_SomeD [OF src] by simp
  from arg_cong [OF this, of "image_mset snd"]
  have L: "mset (map snd (lpmSrcMapping lb)) = add_mset n (mset (map snd ?L))" by simp
  have used: "used_nums lb = add_mset n (held (mset (vips lb)) + mset (map snd ?L))" unfolding used_nums_def L by simp
  then obtain a where a: "real_name lb n = Some a" using inv unfolding lb_inv_def by auto
  have us: "users lb = add_mset a (image_mset ?nm (held (mset (vips lb)) + mset (map snd ?L)) + mset (map fst (quicMapping lb)))"
    unfolding users_def used image_mset_add_mset a option.sel union_mset_add_mset_left by (rule refl)
  have sub: "held (mset (vips lb)) + mset (map snd ?L) \<subseteq># used_nums lb" unfolding used by (metis add_mset_add_single mset_subset_eq_add_left)
  have lb1': "lb1 = decreaseRefCountForReal a lb" using drop_real_named [OF a] lb1 by simp
  have "lb_inv (lb1\<lparr>lpmSrcMapping := ?L, quicMapping := quicMapping lb\<rparr>)"
  proof (rule lb_inv_tables [OF s rest _ _ release_left(1) [OF inv us sub lb1'] release_left(2) [OF inv us sub lb1']])
    show "distinct (map fst ?L)" "distinct (map fst (quicMapping lb))" using s by (simp_all add: services_ok_def distinct_delete)
  qed
  moreover have "?lb = lb1\<lparr>lpmSrcMapping := ?L, quicMapping := quicMapping lb\<rparr>" using r by simp
  ultimately show ?thesis by (simp only:)
qed

lemma lb_inv_drop_quic:
  assumes inv: "lb_inv lb" and q: "map_of (quicMapping lb) a = Some qid" and lb1: "lb1 = decreaseRefCountForReal a lb"
  shows "lb_inv (lb1\<lparr>quicMapping := AList.delete a (quicMapping lb)\<rparr>)" (is "lb_inv ?lb")
proof -
  have s: "services_ok lb" using inv by (simp add: lb_inv_def)
  have rest: "lb_rest lb1 = lb_rest lb" unfolding lb1 by simp
  note r = lb_restD [OF rest]
  let ?Q = "AList.delete a (quicMapping lb)" and ?nm = "\<lambda>n. the (real_name lb n)"
  have "mset ?Q = mset (quicMapping lb) - {#(a, qid)#}"
    using mset_alist_delete [OF q] s by (simp add: services_ok_def)
  then have "add_mset (a, qid) (mset ?Q) = mset (quicMapping lb)" using map_of_SomeD [OF q] by simp
  from arg_cong [OF this, of "image_mset fst"]
  have Q: "mset (map fst (quicMapping lb)) = add_mset a (mset (map fst ?Q))" by simp
  have us: "users lb = add_mset a (image_mset ?nm (used_nums lb) + mset (map fst ?Q))" unfolding users_def Q by simp
  note left = release_left [OF inv us subset_mset.order_refl lb1, unfolded used_nums_def]
  have "lb_inv (lb1\<lparr>lpmSrcMapping := lpmSrcMapping lb, quicMapping := ?Q\<rparr>)"
  proof (rule lb_inv_tables [OF s rest _ _ left])
    show "distinct (map fst (lpmSrcMapping lb))" "distinct (map fst ?Q)" using s by (simp_all add: services_ok_def distinct_delete)
  qed
  moreover have "?lb = lb1\<lparr>lpmSrcMapping := lpmSrcMapping lb, quicMapping := ?Q\<rparr>" using r by simp
  ultimately show ?thesis by (simp only:)
qed

subsection \<open>The operations\<close>

lemma lb_inv_lpm_call [simp]: "lb_inv (snd (modifyLpmSrcRule E act src n lb)) = lb_inv lb"
  by (rule lb_inv_cong) simp_all

lemma users_cong_all: "lb_rest lb' = lb_rest lb \<Longrightarrow> lb_pool_of lb' = lb_pool_of lb \<Longrightarrow> users lb' = users lb"
  using real_name_cong [of lb' lb] by (simp add: users_def used_nums_def lb_rest_def)

lemma add_src_rules_inv:
  assumes "lb_inv lb" "size (users lb) + length srcs < 2 ^ 32" "distinct srcs" "\<forall>src \<in> set srcs. map_of (lpmSrcMapping lb) src = None"
    and "add_src_rules E dst srcs lb = (r, lb')"
  shows "lb_inv lb'"
  using assms
proof (induction srcs arbitrary: lb)
  case (Cons src srcs)
  obtain n lb1 where acq: "increaseRefCountForReal E dst lb = (n, lb1)" by force
  have room: "size (users lb) + 1 < 2 ^ 32" using Cons.prems(2) by simp
  have rest: "lb_rest lb1 = lb_rest lb" by (rule lb_inv_acquire(2) [OF Cons.prems(1) room acq])
  note r1 = lb_restD [OF rest]
  let ?lb2 = "lb1\<lparr>lpmSrcMapping := AList.update src n (lpmSrcMapping lb1)\<rparr>"
  let ?lb3 = "if \<not> testing (config ?lb2) then snd (modifyLpmSrcRule E ADD src n ?lb2) else ?lb2"
  consider "length (lpmSrcMapping lb) + 1 > unat (maxLpmSrcSize (config lb))" | "n = maxReals (config lb)"
    | "\<not> length (lpmSrcMapping lb) + 1 > unat (maxLpmSrcSize (config lb))" "n \<noteq> maxReals (config lb)" by blast
  then show ?case
  proof cases
    case 1
    then show ?thesis using Cons.prems(1,5) by simp
  next
    case 2
    then have "lb1 = lb" using lb_inv_acquire(1) [OF Cons.prems(1) room acq] by blast
    then show ?thesis using Cons.prems(1,5) 2 acq by (simp split: if_splits)
  next
    case 3
    have free: "map_of (lpmSrcMapping lb) src = None" using Cons.prems(4) by simp
    note A = lb_inv_add_rule [OF Cons.prems(1) room acq 3(2) free]
    have same: "lb_rest ?lb3 = lb_rest ?lb2" "lb_pool_of ?lb3 = lb_pool_of ?lb2" by simp_all
    have inv3: "lb_inv ?lb3" using A(1) by simp
    have users3: "users ?lb3 = add_mset dst (users lb)" using users_cong_all [OF same] A(2) by simp
    have lpm3: "lpmSrcMapping ?lb3 = AList.update src n (lpmSrcMapping lb)" using lb_restD [OF same(1)] r1 by simp
    have "add_src_rules E dst srcs ?lb3 = (r, lb')" using Cons.prems(5) 3 acq r1 by (simp add: Let_def split: if_splits)
    moreover have "size (users ?lb3) + length srcs < 2 ^ 32" unfolding users3 using Cons.prems(2) by simp
    moreover have "\<forall>s \<in> set srcs. map_of (lpmSrcMapping ?lb3) s = None"
      unfolding lpm3 using Cons.prems(3,4) by (auto simp: update_conv')
    ultimately show ?thesis using Cons.IH [OF inv3] Cons.prems(3) by simp
  qed
qed simp

lemma del_src_rule_inv: "lb_inv lb \<Longrightarrow> lb_inv (del_src_rule E src lb)"
proof (cases "map_of (lpmSrcMapping lb) src")
  case (Some n)
  assume inv: "lb_inv lb"
  let ?lb1 = "drop_real n lb"
  let ?lb2 = "if \<not> testing (config ?lb1) then snd (modifyLpmSrcRule E DEL src n ?lb1) else ?lb1"
  have same: "lb_rest ?lb2 = lb_rest ?lb1" "lb_pool_of ?lb2 = lb_pool_of ?lb1" by simp_all
  have "lb_inv (?lb1\<lparr>lpmSrcMapping := AList.delete src (lpmSrcMapping ?lb1)\<rparr>)" by (rule lb_inv_drop_rule [OF inv Some refl])
  moreover have "lb_inv (?lb2\<lparr>lpmSrcMapping := AList.delete src (lpmSrcMapping ?lb2)\<rparr>) =
      lb_inv (?lb1\<lparr>lpmSrcMapping := AList.delete src (lpmSrcMapping ?lb1)\<rparr>)"
    using same by (intro lb_inv_cong) (simp_all add: lb_rest_def lb_pool_of_def)
  ultimately show ?thesis unfolding del_src_rule_def Some option.case Let_def by simp
qed (simp add: del_src_rule_def)

lemma delSrcRoutingRule_nets_inv: "lb_inv lb \<Longrightarrow> lb_inv (snd (delSrcRoutingRule_nets E srcs lb))"
proof -
  assume "lb_inv lb"
  then have "lb_inv (fold (del_src_rule E) srcs lb)" by (induction srcs arbitrary: lb) (simp_all add: del_src_rule_inv)
  with \<open>lb_inv lb\<close> show ?thesis by (simp add: delSrcRoutingRule_nets_def)
qed

lemma lb_inv_permute_rules:
  assumes "lb_inv lb" "mset L = mset (lpmSrcMapping lb)"
  shows "lb_inv (lb\<lparr>lpmSrcMapping := L\<rparr>)" (is "lb_inv ?lb")
proof -
  have keys: "mset (map fst L) = mset (map fst (lpmSrcMapping lb))" "mset (map snd L) = mset (map snd (lpmSrcMapping lb))"
    using assms(2) by simp_all
  have "distinct (map fst L)" using assms(1) mset_eq_imp_distinct_iff [OF keys(1)] by (simp add: lb_inv_def services_ok_def)
  then have "services_ok ?lb" using assms(1) by (simp add: lb_inv_def services_ok_def)
  moreover have name: "real_name ?lb = real_name lb" by (intro ext) (simp add: real_name_def)
  moreover have used: "used_nums ?lb = used_nums lb" using keys(2) by (simp add: used_nums_def)
  moreover have "users ?lb = users lb" by (rule users_cong) (simp_all add: used name)
  moreover have "pool_ok M ?lb = pool_ok M lb" for M by (rule pool_ok_cong) (simp_all add: lb_pool_of_def)
  ultimately show ?thesis using assms(1) by (simp add: lb_inv_def)
qed

lemma clear_src_rules_inv:
  assumes "lb_inv (lb\<lparr>lpmSrcMapping := rules\<rparr>)"
  shows "\<exists>lb1. clear_src_rules E rules lb = (Inr (), lb1) \<and> lb_inv (lb1\<lparr>lpmSrcMapping := []\<rparr>)"
  using assms
proof (induction rules arbitrary: lb)
  case (Cons r rules)
  obtain src n where r: "r = (src, n)" by (cases r)
  let ?lb0 = "lb\<lparr>lpmSrcMapping := r # rules\<rparr>"
  have src: "map_of (lpmSrcMapping ?lb0) src = Some n" and fresh: "src \<notin> fst ` set rules"
    using Cons.prems by (auto simp: r lb_inv_def services_ok_def)
  have "n \<in># used_nums ?lb0" by (simp add: used_nums_def r)
  then obtain a where a: "real_name ?lb0 n = Some a" using Cons.prems unfolding lb_inv_def by auto
  then have lb_a: "map_of (numToReals lb) n = Some a" by (simp add: real_name_def)
  have gone: "AList.delete src rules = rules" using fresh by (rule delete_id)
  let ?lb1 = "decreaseRefCountForReal a lb"
  let ?lb2 = "if \<not> testing (config ?lb1) then snd (modifyLpmSrcRule E DEL src n ?lb1) else ?lb1"
  have comm: "drop_real n ?lb0 = ?lb1\<lparr>lpmSrcMapping := r # rules\<rparr>"
    unfolding drop_real_named [OF a] by (simp add: decreaseRefCountForReal_def Let_def split: option.split)
  have "lb_inv (?lb1\<lparr>lpmSrcMapping := rules\<rparr>)"
    using lb_inv_drop_rule [OF Cons.prems src refl] unfolding comm by (simp add: r gone)
  moreover have same: "lb_rest ?lb2 = lb_rest ?lb1" "lb_pool_of ?lb2 = lb_pool_of ?lb1" by simp_all
  then have "lb_inv (?lb2\<lparr>lpmSrcMapping := rules\<rparr>) = lb_inv (?lb1\<lparr>lpmSrcMapping := rules\<rparr>)"
    by (intro lb_inv_cong) (simp_all add: lb_rest_def lb_pool_of_def)
  ultimately have "lb_inv (?lb2\<lparr>lpmSrcMapping := rules\<rparr>)" by simp
  from Cons.IH [OF this] show ?case unfolding r clear_src_rules.simps lb_a option.case Let_def .
qed simp

lemma clearAllSrcRoutingRules_inv:
  assumes inv: "lb_inv lb" and E: "env_ok E"
  shows "\<exists>b lb1. clearAllSrcRoutingRules E lb = (Inr b, lb1) \<and> lb_inv lb1"
proof -
  have "lb_inv (lb\<lparr>lpmSrcMapping := iter_rules E (lpmSrcMapping lb)\<rparr>)"
    by (rule lb_inv_permute_rules [OF inv]) (use E in \<open>simp add: env_ok_def\<close>)
  from clear_src_rules_inv [OF this, of E] show ?thesis using inv by (auto simp: clearAllSrcRoutingRules_def)
qed

lemma quic_one_inv:
  assumes inv: "lb_inv lb" and room: "size (users lb) + 1 < 2 ^ 32" and q: "quic_one E action real (upd, lb) = (upd', lb')"
  shows "lb_inv lb' \<and> size (users lb') \<le> size (users lb) + 1"
proof (cases "ip_create E (qr_address real)")
  case None
  then have "lb' = count_invalid lb" using q by (simp add: quic_one_def validateAddress_def)
  then show ?thesis using inv lb_inv_cong [of lb' lb] users_cong_all [of lb' lb] by simp
next
  case (Some a)
  then have v: "validateAddress E (qr_address real) False lb = (HOST, lb)" "ip_of E (qr_address real) = a"
    by (simp_all add: validateAddress_def ip_of_def)
  obtain n lb1 where acq: "increaseRefCountForReal E a lb = (n, lb1)" by force
  have eq: "snd (quic_one E action real (upd, lb)) = (if qr_id real > kMaxQuicId then lb
      else if action = DEL then (if map_of (quicMapping lb) a = None then lb
        else (decreaseRefCountForReal a lb)\<lparr>quicMapping := AList.delete a (quicMapping lb)\<rparr>)
      else if map_of (quicMapping lb) a \<noteq> None then lb else if n = maxReals (config lb1) then lb1
      else lb1\<lparr>quicMapping := AList.update a (qr_id real) (quicMapping lb1)\<rparr>)"
    unfolding quic_one_def by (simp add: v acq)
  consider "lb' = lb" | qid where "map_of (quicMapping lb) a = Some qid"
      "lb' = (decreaseRefCountForReal a lb)\<lparr>quicMapping := AList.delete a (quicMapping lb)\<rparr>"
    | "lb' = lb1" "n = maxReals (config lb1)" | "map_of (quicMapping lb) a = None" "n \<noteq> maxReals (config lb1)"
      "lb' = lb1\<lparr>quicMapping := AList.update a (qr_id real) (quicMapping lb1)\<rparr>"
    using eq unfolding q snd_conv by (metis option.exhaust)
  then show ?thesis
  proof cases
    case 1
    then show ?thesis using inv by simp
  next
    case 2
    have pool: "pool_ok (users lb) lb" using inv by (simp add: lb_inv_def)
    have inv': "lb_inv lb'" using lb_inv_drop_quic [OF inv 2(1) refl] 2(2) by simp
    have "size (users lb') = size (used_nums lb') + length (quicMapping lb')" by (simp add: users_def)
    moreover have "used_nums lb' = used_nums lb" using 2(2) lb_restD [OF release_rest, of a lb] by (simp add: used_nums_def)
    moreover have "length (quicMapping lb') \<le> length (quicMapping lb)" using 2(2) by (simp add: length_delete_le)
    moreover have "size (users lb) = size (used_nums lb) + length (quicMapping lb)" by (simp add: users_def)
    ultimately show ?thesis using inv' by simp
  next
    case 3
    then show ?thesis using inv lb_inv_acquire(1) [OF inv room acq] lb_restD [OF lb_inv_acquire(2) [OF inv room acq]] by auto
  next
    case 4
    have "n \<noteq> maxReals (config lb)" using 4(2) lb_restD [OF lb_inv_acquire(2) [OF inv room acq]] by simp
    from lb_inv_add_quic [OF inv room acq this 4(1), of "qr_id real"] 4(3) show ?thesis by simp
  qed
qed

lemma fold_quic_inv:
  assumes "lb_inv lb" "size (users lb) + length rs < 2 ^ 32" "fold (quic_one E action) rs (upd, lb) = (upd', lb')"
  shows "lb_inv lb'"
  using assms
proof (induction rs arbitrary: upd lb)
  case (Cons r rs)
  obtain u1 lb1 where q: "quic_one E action r (upd, lb) = (u1, lb1)" by force
  have "lb_inv lb1 \<and> size (users lb1) \<le> size (users lb) + 1" using quic_one_inv [OF Cons.prems(1) _ q] Cons.prems(2) by simp
  then show ?case using Cons.IH [of lb1 u1] Cons.prems q by simp
qed simp

lemma fold_calls_keep: "(\<And>x lb. lb_inv (f x lb) = lb_inv lb) \<Longrightarrow> lb_inv (fold f xs lb) = lb_inv lb"
  by (induction xs arbitrary: lb) simp_all

lemma modifyQuicRealsMapping_inv:
  assumes "lb_inv lb" "size (users lb) + length rs < 2 ^ 32"
  shows "lb_inv (modifyQuicRealsMapping E action rs lb)"
proof -
  obtain u lb1 where f: "fold (quic_one E action) rs ([], lb) = (u, lb1)" by force
  have "lb_inv lb1" by (rule fold_quic_inv [OF assms f])
  then show ?thesis unfolding modifyQuicRealsMapping_def f
    by (simp add: assms fold_calls_keep case_prod_beta)
qed

lemma modifyVip_inv:
  assumes inv: "lb_inv lb" and m: "modifyVip E k flag st lb = (r, lb')"
  shows "lb_inv lb'"
proof (cases "map_of (vips lb) k")
  case (Some v)
  have s: "services_ok lb" using inv by (simp add: lb_inv_def)
  let ?v = "if st then setVipFlags flag v else unsetVipFlags flag v"
  have vf: "vip_reals ?v = vip_reals v" "vipNum ?v = vipNum v" "chRingSize ?v = chRingSize v" "reals_wf ?v = reals_wf v" "ring_fits ?v = ring_fits v"
    by (simp_all add: setVipFlags_def unsetVipFlags_def reals_wf_def ring_fits_def)
  note u = used_nums_vip [OF s Some] and sv = services_ok_vip [OF s Some]
  have pool: "pool_ok (users lb) lb" "\<forall>n \<in># used_nums lb. real_name lb n \<noteq> None" using inv by (simp_all add: lb_inv_def)
  have "lb_inv (lb\<lparr>vips := AList.update k ?v (vips lb)\<rparr>)"
    by (rule lb_inv_replace [OF s Some refl, of ?v, OF _ _ vf(3,2) refl]) (use sv pool vf u in \<open>simp_all add: users_def\<close>)
  moreover have "lb' = lb\<lparr>vips := AList.update k ?v (vips lb)\<rparr> \<or>
      lb' = snd (updateVipMap E ADD k \<lparr>vip_flags = vipFlags ?v, vip_num = vipNum ?v\<rparr> (lb\<lparr>vips := AList.update k ?v (vips lb)\<rparr>))"
    using m by (simp add: modifyVip_def Some Let_def split: if_split_asm)
  ultimately show ?thesis by (metis lb_inv_calls(1))
qed (use inv m in \<open>simp add: modifyVip_def\<close>)

end
