(* ===== verification/Katran_Steps.thy ===== *)
theory Katran_Steps
  imports Katran_Inv
begin

text \<open>
  The life of a \<open>KatranLb\<close> object: sequences of calls of its interface, as a step relation, and the
  invariant that every sequence keeps.
\<close>

section \<open>Loading and attaching\<close>

text \<open>
  Construction, loading and attaching do not touch the tables of services and reals, nor their
  copies in the kernel.
\<close>

definition lb_view ::
  "KatranLb \<Rightarrow> (KatranConfig \<times> u32 list \<times> (VipKey \<times> Vip) list \<times> (CIDRNetwork \<times> u32) list \<times> (IPAddress \<times> u32) list) \<times>
     ((IPAddress \<times> RealMeta) list \<times> (u32 \<times> IPAddress) list \<times> u32 list) \<times> (u32 \<rightharpoonup> real_definition) \<times> (u32 \<rightharpoonup> u32)" where
  "lb_view lb = (lb_rest lb, lb_pool_of lb, reals (dp (kernel lb)), ch_rings (dp (kernel lb)))"

definition keeps_maps :: "(kernel \<Rightarrow> kernel option) \<Rightarrow> bool" where
  "keeps_maps f \<longleftrightarrow> (\<forall>k k'. f k = Some k' \<longrightarrow> reals (dp k') = reals (dp k) \<and> ch_rings (dp k') = ch_rings (dp k))"

named_theorems keeps

lemma keeps_maps_simps [keeps]:
  "keeps_maps Some" "keeps_maps (\<lambda>k. Some (k\<lparr>xdp_attached := b\<rparr>))" "keeps_maps (\<lambda>k. Some (k\<lparr>hc_attached := b\<rparr>))"
  "keeps_maps (\<lambda>k. Some (k\<lparr>root_array := r k\<rparr>))" "keeps_maps (\<lambda>k. Some (k\<lparr>katran_subprograms := r k\<rparr>))"
  "keeps_maps (\<lambda>k. map_option (\<lambda>m. k\<lparr>root_array := m\<rparr>) (g k))"
  "keeps_maps (set_ctl_entry i c)" "keeps_maps (set_hc_ctrl i j)" "keeps_maps (set_hc_src i a)" "keeps_maps (set_hc_mac i mac)"
  "keeps_maps (set_pckt_src i a)" "keeps_maps (on_dp (\<lambda>s. map_option (\<lambda>m. s\<lparr>lru_maps_mapping := m\<rparr>) (h s)))"
  by (auto simp: keeps_maps_def set_ctl_entry_def set_hc_ctrl_def set_hc_src_def set_hc_mac_def set_pckt_src_def on_dp_def on_hc_def)

lemma keeps_bpf_call [keeps]: "keeps_maps f \<Longrightarrow> lb_view (snd (bpf_call E f lb)) = lb_view lb"
  by (auto simp: keeps_maps_def bpf_call_def lb_view_def lb_rest_def lb_pool_of_def Let_def split: option.splits)

lemma keeps_counted_call [keeps]: "keeps_maps f \<Longrightarrow> lb_view (snd (counted_call E f lb)) = lb_view lb"
  by (auto simp: keeps_maps_def counted_call_def bpf_call_def count_failed_def lb_view_def lb_rest_def lb_pool_of_def
      Let_def split: option.splits)

lemma keeps_must [keeps]: "keeps_maps f \<Longrightarrow> lb_view (snd (must E err f lb)) = lb_view lb"
  using keeps_bpf_call [of f E lb] by (simp add: must_def case_prod_beta)

lemma keeps_and_then [keeps]: "(\<And>lb. lb_view (snd (f lb)) = lb_view lb) \<Longrightarrow> lb_view (snd (and_then m f)) = lb_view (snd m)"
  by (auto simp: and_then_def split: prod.split sum.split)

lemma keeps_fields [keeps]:
  "lb_view (lb\<lparr>lruMapsFd := l\<rparr>) = lb_view lb" "lb_view (lb\<lparr>progsLoaded := b\<rparr>) = lb_view lb" "lb_view (lb\<lparr>progsAttached := b\<rparr>) = lb_view lb"
  "lb_view (featureDiscovering E lb) = lb_view lb"
  by (simp_all add: lb_view_def lb_rest_def lb_pool_of_def featureDiscovering_def Let_def)

lemma keeps_create_lrus [keeps]: "lb_view (snd (create_lrus E cores lb)) = lb_view lb"
  by (induction cores arbitrary: lb) (simp_all add: createLruMap_def keeps)

lemma keeps_attach_lrus [keeps]: "lb_view (snd (attach_lrus E cores lb)) = lb_view lb"
  by (induction cores arbitrary: lb) (simp_all add: keeps)

lemma keeps_write_src [keeps]: "(\<And>a. keeps_maps (w idx a)) \<Longrightarrow> lb_view (snd (write_src E w idx addr lb)) = lb_view lb"
  by (simp add: write_src_def keeps split: option.split)

lemma keeps_loading_parts [keeps]:
  "lb_view (snd (initLrus E lb)) = lb_view lb" "lb_view (snd (initialSanityChecking E lb)) = lb_view lb"
  "lb_view (snd (attachLrus E lb)) = lb_view lb" "lb_view (snd (setupGueEnvironment E lb)) = lb_view lb"
  "lb_view (snd (setupHcEnvironment E lb)) = lb_view lb" "lb_view (snd (enableRecirculation E lb)) = lb_view lb"
  "lb_view (detach_main E lb) = lb_view lb"
  by (simp_all add: initLrus_def initialSanityChecking_def attachLrus_def setupGueEnvironment_def setupHcEnvironment_def
      enableRecirculation_def detach_main_def createLruMap_def Let_def keeps)

lemma keeps_loading:
  "lb_view (snd (loadBpfProgs E lb)) = lb_view lb" "lb_view (snd (attachBpfProgs E lb)) = lb_view lb"
  "lb_view (snd (addSrcIpForPcktEncap E a lb)) = lb_view lb" "lb_view (snd (changeKatranMonitorForwardingState E st lb)) = lb_view lb"
  by (simp_all add: loadBpfProgs_def attachBpfProgs_def addSrcIpForPcktEncap_def changeKatranMonitorForwardingState_def
      Let_def keeps case_prod_beta)

section \<open>Calls\<close>

text \<open>
  A call of the interface, with its arguments. \<open>addRealForVip\<close> and \<open>delRealForVip\<close> are batches of one, and the form of
  \<open>addSrcRoutingRule\<close> that takes texts calls the one that takes networks.
\<close>

datatype lb_call =
    Call_addVip VipKey u32
  | Call_delVip VipKey
  | Call_modifyVip VipKey u32 bool
  | Call_modifyRealsForVip ModifyAction "NewReal list" VipKey
  | Call_addSrcRoutingRule "CIDRNetwork list" string
  | Call_delSrcRoutingRule "string list"
  | Call_clearAllSrcRoutingRules
  | Call_modifyQuicRealsMapping ModifyAction "QuicReal list"
  | Call_addInlineDecapDst string
  | Call_delInlineDecapDst string
  | Call_addHealthcheckerDst u32 string
  | Call_delHealthcheckerDst u32
  | Call_changeMac "u8 list"
  | Call_getRealsForVip VipKey
  | Call_getSrcRoutingRuleCidr
  | Call_getSrcRoutingRule
  | Call_loadBpfProgs
  | Call_attachBpfProgs
  | Call_addSrcIpForPcktEncap IPAddress
  | Call_changeKatranMonitorForwardingState KatranMonitorState
  | Call_getLbStats "string \<Rightarrow> u32 \<Rightarrow> lb_stats list option" string u32

text \<open>
  A step is one call that returns, with any arguments and whatever it answers.
\<close>

inductive lb_step :: "katran_env \<Rightarrow> lb_call \<Rightarrow> KatranLb \<Rightarrow> KatranLb \<Rightarrow> bool" for E :: katran_env where
  call_addVip: "addVip E vip flags lb = (r, lb') \<Longrightarrow> lb_step E (Call_addVip vip flags) lb lb'"
| call_delVip: "delVip E vip lb = (r, lb') \<Longrightarrow> lb_step E (Call_delVip vip) lb lb'"
| call_modifyVip: "modifyVip E vip flag st lb = (r, lb') \<Longrightarrow> lb_step E (Call_modifyVip vip flag st) lb lb'"
| call_modifyReals: "modifyRealsForVip E action rs vip lb = (Inr r, lb') \<Longrightarrow> lb_step E (Call_modifyRealsForVip action rs vip) lb lb'"
| call_addSrc: "addSrcRoutingRule_nets E srcs dst lb = (n, lb') \<Longrightarrow> lb_step E (Call_addSrcRoutingRule srcs dst) lb lb'"
| call_delSrc: "delSrcRoutingRule E dsts lb = (r, lb') \<Longrightarrow> lb_step E (Call_delSrcRoutingRule dsts) lb lb'"
| call_clearSrc: "clearAllSrcRoutingRules E lb = (res, lb') \<Longrightarrow> lb_step E Call_clearAllSrcRoutingRules lb lb'"
| call_quic: "lb' = modifyQuicRealsMapping E action qs lb \<Longrightarrow> lb_step E (Call_modifyQuicRealsMapping action qs) lb lb'"
| call_addDecap: "addInlineDecapDst E dst lb = (r, lb') \<Longrightarrow> lb_step E (Call_addInlineDecapDst dst) lb lb'"
| call_delDecap: "delInlineDecapDst E dst lb = (r, lb') \<Longrightarrow> lb_step E (Call_delInlineDecapDst dst) lb lb'"
| call_addHc: "addHealthcheckerDst E somark dst lb = (r, lb') \<Longrightarrow> lb_step E (Call_addHealthcheckerDst somark dst) lb lb'"
| call_delHc: "delHealthcheckerDst E somark lb = (r, lb') \<Longrightarrow> lb_step E (Call_delHealthcheckerDst somark) lb lb'"
| call_changeMac: "changeMac E mac lb = (r, lb') \<Longrightarrow> lb_step E (Call_changeMac mac) lb lb'"
| call_getReals: "getRealsForVip E vip lb = (out, lb') \<Longrightarrow> lb_step E (Call_getRealsForVip vip) lb lb'"
| call_getSrc: "getSrcRoutingRuleCidr E lb = (rules, lb') \<Longrightarrow> lb_step E Call_getSrcRoutingRuleCidr lb lb'"
| call_getSrcText: "getSrcRoutingRule E lb = (texts, lb') \<Longrightarrow> lb_step E Call_getSrcRoutingRule lb lb'"
| call_load: "loadBpfProgs E lb = (res, lb') \<Longrightarrow> lb_step E Call_loadBpfProgs lb lb'"
| call_attach: "attachBpfProgs E lb = (res, lb') \<Longrightarrow> lb_step E Call_attachBpfProgs lb lb'"
| call_srcIp: "addSrcIpForPcktEncap E a lb = (r, lb') \<Longrightarrow> lb_step E (Call_addSrcIpForPcktEncap a) lb lb'"
| call_monitor: "changeKatranMonitorForwardingState E state lb = (r, lb') \<Longrightarrow> lb_step E (Call_changeKatranMonitorForwardingState state) lb lb'"
| call_stats: "getLbStats look name position lb = (st, lb') \<Longrightarrow> lb_step E (Call_getLbStats look name position) lb lb'"

text \<open>
  The object checks its arguments less than its counters need. A careful caller names no real twice in a batch of
  \<open>modifyRealsForVip\<close>, routes sources that are distinct and not routed yet, and keeps the users of reals fewer than
  \<open>2 ^ 32\<close>, so that \<open>refCount\<close> does not wrap. Every other call may be made in any way. The theory \<open>Katran_Errors\<close> shows
  what the object does for a caller who is not careful: a batch that names a real twice, or a source routed
  twice, is accepted and leaves a wrong count behind.
\<close>

fun careful :: "katran_env \<Rightarrow> lb_call \<Rightarrow> KatranLb \<Rightarrow> bool" where
  "careful E (Call_modifyRealsForVip action rs vip) lb = (distinct (valid_addrs E rs) \<and> size (users lb) + length rs < 2 ^ 32)"
| "careful E (Call_addSrcRoutingRule srcs dst) lb =
     (distinct srcs \<and> (\<forall>src \<in> set srcs. map_of (lpmSrcMapping lb) src = None) \<and> size (users lb) + length srcs < 2 ^ 32)"
| "careful E (Call_modifyQuicRealsMapping action qs) lb = (size (users lb) + length qs < 2 ^ 32)"
| "careful E _ lb = True"

definition careful_step :: "katran_env \<Rightarrow> KatranLb \<Rightarrow> KatranLb \<Rightarrow> bool" where
  "careful_step E lb lb' \<longleftrightarrow> (\<exists>c. lb_step E c lb lb' \<and> careful E c lb)"

lemma careful_steps:
  shows step_addVip: "addVip E vip flags lb = (r, lb') \<Longrightarrow> careful_step E lb lb'"
    and step_delVip: "delVip E vip lb = (r, lb') \<Longrightarrow> careful_step E lb lb'"
    and step_modifyVip: "modifyVip E vip flag st lb = (r, lb') \<Longrightarrow> careful_step E lb lb'"
    and step_modifyReals: "modifyRealsForVip E action rs vip lb = (Inr r, lb') \<Longrightarrow> distinct (valid_addrs E rs) \<Longrightarrow> size (users lb) + length rs < 2 ^ 32 \<Longrightarrow> careful_step E lb lb'"
    and step_addSrc: "addSrcRoutingRule_nets E srcs dst lb = (n, lb') \<Longrightarrow> distinct srcs \<Longrightarrow> \<forall>src \<in> set srcs. map_of (lpmSrcMapping lb) src = None \<Longrightarrow> size (users lb) + length srcs < 2 ^ 32 \<Longrightarrow> careful_step E lb lb'"
    and step_delSrc: "delSrcRoutingRule E dsts lb = (r, lb') \<Longrightarrow> careful_step E lb lb'"
    and step_clearSrc: "clearAllSrcRoutingRules E lb = (res, lb') \<Longrightarrow> careful_step E lb lb'"
    and step_quic: "lb' = modifyQuicRealsMapping E action qs lb \<Longrightarrow> size (users lb) + length qs < 2 ^ 32 \<Longrightarrow> careful_step E lb lb'"
    and step_addDecap: "addInlineDecapDst E dst lb = (r, lb') \<Longrightarrow> careful_step E lb lb'"
    and step_delDecap: "delInlineDecapDst E dst lb = (r, lb') \<Longrightarrow> careful_step E lb lb'"
    and step_addHc: "addHealthcheckerDst E somark dst lb = (r, lb') \<Longrightarrow> careful_step E lb lb'"
    and step_delHc: "delHealthcheckerDst E somark lb = (r, lb') \<Longrightarrow> careful_step E lb lb'"
    and step_changeMac: "changeMac E mac lb = (r, lb') \<Longrightarrow> careful_step E lb lb'"
    and step_getReals: "getRealsForVip E vip lb = (out, lb') \<Longrightarrow> careful_step E lb lb'"
    and step_getSrc: "getSrcRoutingRuleCidr E lb = (rules, lb') \<Longrightarrow> careful_step E lb lb'"
    and step_getSrcText: "getSrcRoutingRule E lb = (texts, lb') \<Longrightarrow> careful_step E lb lb'"
    and step_load: "loadBpfProgs E lb = (u, lb') \<Longrightarrow> careful_step E lb lb'"
    and step_attach: "attachBpfProgs E lb = (u, lb') \<Longrightarrow> careful_step E lb lb'"
    and step_srcIp: "addSrcIpForPcktEncap E a lb = (r, lb') \<Longrightarrow> careful_step E lb lb'"
    and step_monitor: "changeKatranMonitorForwardingState E state lb = (r, lb') \<Longrightarrow> careful_step E lb lb'"
    and step_stats: "getLbStats look name position lb = (sts, lb') \<Longrightarrow> careful_step E lb lb'"
  unfolding careful_step_def by (fastforce intro: lb_step.intros)+

text \<open>A run is a sequence of calls; its trace is each call with the object it is made on.\<close>

inductive lb_run :: "katran_env \<Rightarrow> KatranLb \<Rightarrow> (lb_call \<times> KatranLb) list \<Rightarrow> KatranLb \<Rightarrow> bool"
  for E :: katran_env and lb0 :: KatranLb where
  run_start: "lb_run E lb0 [] lb0"
| run_call: "lb_run E lb0 tr lb \<Longrightarrow> lb_step E c lb lb' \<Longrightarrow> lb_run E lb0 (tr @ [(c, lb)]) lb'"

definition careful_trace :: "katran_env \<Rightarrow> (lb_call \<times> KatranLb) list \<Rightarrow> bool" where
  "careful_trace E tr \<longleftrightarrow> list_all (\<lambda>(c, lb). careful E c lb) tr"

lemma careful_trace_simps [simp]:
  "careful_trace E []" "careful_trace E (tr @ [(c, lb)]) \<longleftrightarrow> careful_trace E tr \<and> careful E c lb"
  by (simp_all add: careful_trace_def)

section \<open>The remaining operations\<close>

lemma fold_keeps:
  "P s \<Longrightarrow> (\<And>x s. x \<in> set xs \<Longrightarrow> P s \<Longrightarrow> P (f x s)) \<Longrightarrow> P (fold f xs s)"
  by (induction xs arbitrary: s) simp_all

lemma numToReals_at_named: "real_name lb n = Some a \<Longrightarrow> numToReals_at n lb = (a, lb)"
  by (simp add: numToReals_at_def real_name_def)

lemma lb_inv_named:
  assumes "lb_inv lb"
  shows "map_of (vips lb) k = Some v \<Longrightarrow> n \<in> fst ` set (vip_reals v) \<Longrightarrow> \<exists>a. real_name lb n = Some a"
    and "(src, n) \<in> set (lpmSrcMapping lb) \<Longrightarrow> \<exists>a. real_name lb n = Some a"
proof -
  have named: "\<forall>n \<in># used_nums lb. real_name lb n \<noteq> None" and s: "services_ok lb" using assms by (simp_all add: lb_inv_def)
  show "\<exists>a. real_name lb n = Some a" if "map_of (vips lb) k = Some v" "n \<in> fst ` set (vip_reals v)"
    using named that(2) unfolding used_nums_vip [OF s that(1)] by auto
  show "\<exists>a. real_name lb n = Some a" if "(src, n) \<in> set (lpmSrcMapping lb)"
    using named that unfolding used_nums_def by force
qed

text \<open>Reading does not create entries.\<close>

lemma getRealsForVip_pure:
  assumes inv: "lb_inv lb" and E: "env_ok E"
  shows "snd (getRealsForVip E vip lb) = lb"
proof (cases "map_of (vips lb) vip")
  case (Some v)
  let ?f = "\<lambda>real_id (out, lb). case numToReals_at (ep_num real_id) lb of
    (a, lb) \<Rightarrow> (out @ [\<lparr>nr_address = ip_str E a, nr_weight = ep_weight real_id\<rparr>], lb)"
  have "snd (fold ?f (getRealsAndWeight (iter_reals E) v) ([], lb)) = lb"
  proof (rule fold_keeps [where P = "\<lambda>s. snd s = lb"])
    fix e and s :: "NewReal list \<times> KatranLb" assume e: "e \<in> set (getRealsAndWeight (iter_reals E) v)" and s: "snd s = lb"
    have "set (iter_reals E (vip_reals v)) = set (vip_reals v)" using E by (metis env_ok_def mset_eq_setD)
    then have "ep_num e \<in> fst ` set (vip_reals v)" using e by (force simp: getRealsAndWeight_def)
    then obtain a where "real_name lb (ep_num e) = Some a" using lb_inv_named(1) [OF inv Some] by blast
    then show "snd (?f e s) = lb" using s by (simp add: numToReals_at_named case_prod_beta)
  qed simp
  then show ?thesis by (simp add: getRealsForVip_def Some case_prod_beta)
qed (simp add: getRealsForVip_def)

lemma getSrcRoutingRuleCidr_pure:
  assumes inv: "lb_inv lb" and E: "env_ok E"
  shows "snd (getSrcRoutingRuleCidr E lb) = lb"
proof -
  let ?f = "\<lambda>(src, num) (out, lb). case numToReals_at num lb of (a, lb) \<Rightarrow> (AList.update src (ip_str E a) out, lb)"
  have "snd (fold ?f (iter_rules E (lpmSrcMapping lb)) ([], lb)) = lb"
  proof (rule fold_keeps [where P = "\<lambda>s. snd s = lb"])
    fix r and s :: "(CIDRNetwork \<times> string) list \<times> KatranLb" assume r: "r \<in> set (iter_rules E (lpmSrcMapping lb))" and s: "snd s = lb"
    have "set (iter_rules E (lpmSrcMapping lb)) = set (lpmSrcMapping lb)" using E by (metis env_ok_def mset_eq_setD)
    then obtain a where "real_name lb (snd r) = Some a" using lb_inv_named(2) [OF inv, of "fst r" "snd r"] r by auto
    then show "snd (?f r s) = lb" using s by (simp add: numToReals_at_named case_prod_beta)
  qed simp
  then show ?thesis by (simp add: getSrcRoutingRuleCidr_def)
qed

text \<open>The rules as texts and as networks touch the object in the same way.\<close>

lemma read_reals_state:
  "snd s = snd t \<Longrightarrow>
   snd (fold (\<lambda>x s. (f x (fst (numToReals_at (snd x) (snd s))) (fst s), snd (numToReals_at (snd x) (snd s)))) rs s) =
   snd (fold (\<lambda>x s. (g x (fst (numToReals_at (snd x) (snd s))) (fst s), snd (numToReals_at (snd x) (snd s)))) rs t)"
  by (induction rs arbitrary: s t) auto

lemma getSrcRoutingRule_state: "snd (getSrcRoutingRule E lb) = snd (getSrcRoutingRuleCidr E lb)"
  unfolding getSrcRoutingRule_def getSrcRoutingRuleCidr_def case_prod_beta
  using read_reals_state [of "([], lb)" "([], lb)" "\<lambda>x a out. AList.update (net_text E (fst x)) (ip_str E a) out"
      "iter_rules E (lpmSrcMapping lb)" "\<lambda>x a out. AList.update (fst x) (ip_str E a) out"]
  by simp

lemma getSrcRoutingRule_pure: "lb_inv lb \<Longrightarrow> env_ok E \<Longrightarrow> snd (getSrcRoutingRule E lb) = lb"
  by (simp add: getSrcRoutingRule_state getSrcRoutingRuleCidr_pure)

text \<open>The rules as texts are the rules as networks: no two networks print the same.\<close>

definition digit_val :: "char \<Rightarrow> nat" where
  "digit_val c = of_char c - 48"

lemma digit_val_digit: "n < 10 \<Longrightarrow> digit_val (''0123456789'' ! n) = n"
proof -
  assume "n < 10"
  then have "n \<in> {0, 1, 2, 3, 4, 5, 6, 7, 8, 9}" by auto
  then show ?thesis by (auto simp: digit_val_def)
qed

lemma dec_text_val: "foldl (\<lambda>v c. 10 * v + digit_val c) 0 (dec_text n) = n"
proof (induction n rule: dec_text.induct)
  case (1 n)
  then show ?case by (subst dec_text.simps) (auto simp: digit_val_digit)
qed

lemma dec_text_inj: "dec_text m = dec_text n \<Longrightarrow> m = n"
  using dec_text_val by metis

lemma net_text_inj:
  assumes "inj (ip_str E)" "\<forall>a. CHR ''/'' \<notin> set (ip_str E a)" "net_text E x = net_text E y"
  shows "x = y"
proof -
  have "takeWhile (\<lambda>c. c \<noteq> CHR ''/'') (net_text E z) = ip_str E (fst z)" for z
  proof -
    have "takeWhile (\<lambda>c. c \<noteq> CHR ''/'') (ip_str E (fst z) @ ''/'' @ dec_text (unat (snd z))) = ip_str E (fst z)"
      using assms(2) by (subst takeWhile_append2) auto
    then show ?thesis by (simp add: net_text_def)
  qed
  then have "ip_str E (fst x) = ip_str E (fst y)" using assms(3) by metis
  moreover from this assms(3) have "unat (snd x) = unat (snd y)" by (intro dec_text_inj) (simp add: net_text_def)
  ultimately show ?thesis using assms(1) by (simp add: prod_eq_iff inj_eq)
qed

lemma fold_read_texts:
  assumes "\<And>x y. t x = t y \<Longrightarrow> x = y" "snd s = snd s'" "\<And>x. map_of (fst s) (t x) = map_of (fst s') x"
  shows "map_of (fst (fold (\<lambda>x s. (AList.update (t (fst x)) (f (fst (numToReals_at (snd x) (snd s)))) (fst s), snd (numToReals_at (snd x) (snd s)))) rs s)) (t k) =
     map_of (fst (fold (\<lambda>x s. (AList.update (fst x) (f (fst (numToReals_at (snd x) (snd s)))) (fst s), snd (numToReals_at (snd x) (snd s)))) rs s')) k"
  using assms(2,3)
proof (induction rs arbitrary: s s')
  case (Cons r rs)
  show ?case unfolding fold_simps by (rule Cons.IH) (use Cons.prems assms(1) in \<open>auto simp: update_conv'\<close>)
qed simp

lemma src_rules_as_text:
  assumes "inj (ip_str E)" "\<forall>a. CHR ''/'' \<notin> set (ip_str E a)"
  shows "map_of (fst (getSrcRoutingRule E lb)) (net_text E src) = map_of (fst (getSrcRoutingRuleCidr E lb)) src"
  unfolding getSrcRoutingRule_def getSrcRoutingRuleCidr_def case_prod_beta
  using fold_read_texts [of "net_text E" "([], lb)" "([], lb)" "ip_str E" "iter_rules E (lpmSrcMapping lb)" src] net_text_inj [OF assms]
  by simp

lemma addSrcRoutingRule_nets_inv:
  assumes inv: "lb_inv lb" and "size (users lb) + length srcs < 2 ^ 32" "distinct srcs"
    and "\<forall>src \<in> set srcs. map_of (lpmSrcMapping lb) src = None" "addSrcRoutingRule_nets E srcs dst lb = (r, lb')"
  shows "lb_inv lb'"
proof (cases "ip_create E dst")
  case None
  have "lb' = lb \<or> lb' = count_invalid lb" using assms(5) None by (auto simp: addSrcRoutingRule_nets_def validateAddress_def split: if_splits)
  then show ?thesis using inv lb_inv_cong [of "count_invalid lb" lb] by auto
next
  case (Some a)
  then have "lb' = lb \<or> add_src_rules E (ip_of E dst) srcs lb = (r, lb')"
    using assms(5) by (auto simp: addSrcRoutingRule_nets_def validateAddress_def split: if_splits)
  then show ?thesis using add_src_rules_inv [OF assms(1-4)] inv by blast
qed

text \<open>The operations on tables of their own keep the counts.\<close>

lemma side_tables_keep:
  "addInlineDecapDst E dst lb = (r, lb') \<Longrightarrow> lb_rest lb' = lb_rest lb \<and> lb_pool_of lb' = lb_pool_of lb"
  "delInlineDecapDst E dst lb = (r, lb') \<Longrightarrow> lb_rest lb' = lb_rest lb \<and> lb_pool_of lb' = lb_pool_of lb"
  "addHealthcheckerDst E somark dst lb = (r, lb') \<Longrightarrow> lb_rest lb' = lb_rest lb \<and> lb_pool_of lb' = lb_pool_of lb"
  "delHealthcheckerDst E somark lb = (r, lb') \<Longrightarrow> lb_rest lb' = lb_rest lb \<and> lb_pool_of lb' = lb_pool_of lb"
  "changeMac E mac lb = (r, lb') \<Longrightarrow> lb_rest lb' = lb_rest lb \<and> lb_pool_of lb' = lb_pool_of lb"
  by (auto simp: addInlineDecapDst_def delInlineDecapDst_def addHealthcheckerDst_def delHealthcheckerDst_def changeMac_def
      validateAddress_def modifyDecapDst_def counted_call_def bpf_call_def count_failed_def count_invalid_def
      set_ctlValues_def lb_rest_def lb_pool_of_def Let_def
      split: if_splits option.splits prod.splits)


section \<open>The invariant\<close>

lemma lb_inv_view: "lb_view lb' = lb_view lb \<Longrightarrow> lb_inv lb' = lb_inv lb"
  by (rule lb_inv_cong) (simp_all add: lb_view_def)

lemma keeps_stats [keeps]: "lb_view (snd (getLbStats look name position lb)) = lb_view lb"
  by (simp add: getLbStats_def count_failed_def lb_view_def lb_rest_def lb_pool_of_def Let_def split: option.split)

lemma lb_step_inv:
  assumes "lb_step E c lb lb'" "env_ok E" "lb_inv lb" "careful E c lb"
  shows "lb_inv lb'"
  using assms(1)
proof (cases rule: lb_step.cases)
  case (call_modifyReals action rs vip r)
  show ?thesis
  proof (cases r)
    case True
    then have m: "modifyRealsForVip E action rs vip lb = (Inr True, lb')" using call_modifyReals(2) by simp
    show ?thesis
      using m assms(4) [unfolded call_modifyReals(1)] modifyReals_add_inv [OF assms(3,2)] modifyReals_del_inv [OF assms(3,2)]
      by (cases action) auto
  next
    case False
    then have "lb' = lb" using call_modifyReals(2) by (auto simp: modifyRealsForVip_def Let_def split: if_splits option.splits prod.splits)
    then show ?thesis using assms by simp
  qed
next
  case (call_delSrc dsts r)
  then have "lb' = lb \<or> lb' = snd (delSrcRoutingRule_nets E (List.map_filter (net_create E) dsts) lb)"
    by (auto simp: delSrcRoutingRule_def split: if_splits)
  then show ?thesis using assms delSrcRoutingRule_nets_inv by blast
next
  case (call_clearSrc res)
  then show ?thesis using clearAllSrcRoutingRules_inv [OF assms(3,2)] by auto
next
  case (call_addSrc srcs dst n)
  then show ?thesis using addSrcRoutingRule_nets_inv [OF assms(3)] assms(4) by auto
next
  case (call_quic action qs)
  then show ?thesis using modifyQuicRealsMapping_inv [OF assms(3)] assms(4) by simp
next
  case call_getReals
  then show ?thesis using getRealsForVip_pure [OF assms(3,2)] assms(3) by (metis snd_conv)
next
  case call_getSrcText
  then show ?thesis using getSrcRoutingRule_pure [OF assms(3,2)] assms(3) by (metis snd_conv)
next
  case call_getSrc
  then show ?thesis using getSrcRoutingRuleCidr_pure [OF assms(3,2)] assms(3) by (metis snd_conv)
next
  case call_addVip
  then show ?thesis using addVip_inv [OF assms(3)] by blast
next
  case call_delVip
  then show ?thesis using delVip_inv [OF assms(3,2)] by blast
next
  case call_modifyVip
  then show ?thesis using modifyVip_inv [OF assms(3)] by blast
next
  case call_addDecap
  then show ?thesis using lb_inv_cong [of lb' lb] side_tables_keep(1) assms(3) by blast
next
  case call_delDecap
  then show ?thesis using lb_inv_cong [of lb' lb] side_tables_keep(2) assms(3) by blast
next
  case call_addHc
  then show ?thesis using lb_inv_cong [of lb' lb] side_tables_keep(3) assms(3) by blast
next
  case call_delHc
  then show ?thesis using lb_inv_cong [of lb' lb] side_tables_keep(4) assms(3) by blast
next
  case call_changeMac
  then show ?thesis using lb_inv_cong [of lb' lb] side_tables_keep(5) assms(3) by blast
next
  case call_load
  then show ?thesis using lb_inv_view [OF keeps_loading(1) [of E lb]] assms(3) by simp
next
  case call_attach
  then show ?thesis using lb_inv_view [OF keeps_loading(2) [of E lb]] assms(3) by simp
next
  case (call_srcIp a r)
  then show ?thesis using lb_inv_view [OF keeps_loading(3) [of E a lb]] assms(3) by simp
next
  case (call_monitor state r)
  then show ?thesis using lb_inv_view [OF keeps_loading(4) [of E state lb]] assms(3) by simp
next
  case (call_stats look name position st)
  then show ?thesis using lb_inv_view [OF keeps_stats [of look name position lb]] assms(3) by simp
qed

lemma lb_run_inv:
  "lb_run E lb0 tr lb \<Longrightarrow> env_ok E \<Longrightarrow> lb_inv lb0 \<Longrightarrow> careful_trace E tr \<Longrightarrow> lb_inv lb"
  by (induction rule: lb_run.induct) (auto intro: lb_step_inv)

lemma KatranLb_new_inv:
  assumes "KatranLb_new E junk cfg k = Inr lb"
  shows "lb_inv lb"
proof -
  have "lb_rest lb = lb_rest (KatranLb_fields cfg k) \<and> lb_pool_of lb = lb_pool_of (KatranLb_fields cfg k)"
    using assms by (auto simp: KatranLb_new_def resolve_if_def set_ctlValues_def lb_rest_def lb_pool_of_def Let_def
        split: if_splits sum.splits prod.splits)
  then show ?thesis using lb_inv_cong lb_inv_fields by blast
qed


text \<open>C5. Reference counts are exact after every run of a careful caller from the constructor of \<open>KatranLb\<close>,
  whatever calls fail in the kernel. The hypothesis on the trace is the whole discipline: no batch of
  \<open>modifyRealsForVip\<close> names a real twice, a source is routed when it is distinct from the others of its call and not routed yet, and the
  users of reals are fewer than \<open>2 ^ 32\<close>; the object itself refuses none of these calls. Then the count of an address is the number of services, source
  routes and QUIC mappings that use it, an address without a user is not stored, and each number below
  \<open>maxReals\<close> is either free or names exactly one address. Numbers of services are
  either free or belong to one service.\<close>

theorem reachable_counts_exact:
  assumes "KatranLb_new E junk cfg k = Inr lb0" "env_ok E" "lb_run E lb0 tr lb" "careful_trace E tr"
  shows "(\<forall>a. (case map_of (lb_reals lb) a of None \<Rightarrow> 0 | Some m \<Rightarrow> unat (refCount m)) = count (users lb) a) \<and>
    (\<forall>a m. map_of (lb_reals lb) a = Some m \<longrightarrow> map_of (numToReals lb) (rm_num m) = Some a) \<and>
    (\<forall>n. (n < maxReals (config lb)) = (n \<in> set (realNums lb) \<or> n \<in> dom (map_of (numToReals lb)))) \<and>
    set (realNums lb) \<inter> dom (map_of (numToReals lb)) = {} \<and> distinct (realNums lb) \<and>
    distinct (vipNums lb @ map (\<lambda>(k, v). vipNum v) (vips lb))"
proof -
  have inv: "lb_inv lb" using lb_run_inv [OF assms(3,2) KatranLb_new_inv [OF assms(1)] assms(4)] .
  then have p: "pool_ok (users lb) lb" and s: "services_ok lb" by (simp_all add: lb_inv_def)
  have "(case map_of (lb_reals lb) a of None \<Rightarrow> 0 | Some m \<Rightarrow> unat (refCount m)) = count (users lb) a" for a
  proof (cases "map_of (lb_reals lb) a")
    case None
    then have "a \<notin># users lb" using p unfolding pool_ok_def real_meta_def by blast
    then show ?thesis using None by (simp add: not_in_iff)
  next
    case (Some m)
    then show ?thesis using p unfolding pool_ok_def real_meta_def by simp
  qed
  moreover have "\<forall>a m. map_of (lb_reals lb) a = Some m \<longrightarrow> map_of (numToReals lb) (rm_num m) = Some a"
    using p unfolding pool_ok_def real_meta_def real_name_def by blast
  moreover have "\<forall>n. (n < maxReals (config lb)) = (n \<in> set (realNums lb) \<or> n \<in> dom (map_of (numToReals lb)))"
    using p unfolding pool_ok_def real_name_def by (auto simp: dom_def)
  moreover have "set (realNums lb) \<inter> dom (map_of (numToReals lb)) = {}" "distinct (realNums lb)"
    using p unfolding pool_ok_def real_name_def by (auto simp: dom_def)
  moreover have "distinct (vipNums lb @ map (\<lambda>(k, v). vipNum v) (vips lb))" using s unfolding services_ok_def by blast
  ultimately show ?thesis by blast
qed

end
