(* ===== verification/Katran_Sync.thy ===== *)
theory Katran_Sync
  imports Katran_Steps Balancer_Correct
begin

text \<open>
  The composition of the control plane with the data plane: what \<open>KatranLb\<close> keeps about reals and
  rings is what the maps of the BPF program hold, as long as the calls of the adapter succeed. A
  packet that is hashed to a ring then goes to a real that its service has.
\<close>

definition all_calls_ok :: "katran_env \<Rightarrow> bool" where
  "all_calls_ok E \<longleftrightarrow> (\<forall>n. sys_ok E n)"

section \<open>The array of reals\<close>

definition real_nums :: "KatranLb \<Rightarrow> u32 list" where
  "real_nums lb = realNums lb @ map (\<lambda>(a, m). rm_num m) (lb_reals lb)"

definition reals_sync :: "KatranLb \<Rightarrow> bool" where
  "reals_sync lb \<longleftrightarrow> distinct (map fst (lb_reals lb)) \<and> distinct (real_nums lb) \<and>
     (\<forall>n \<in> set (realNums lb). reals (dp (kernel lb)) n \<noteq> None) \<and>
     (\<forall>a m. map_of (lb_reals lb) a = Some m \<longrightarrow> reals (dp (kernel lb)) (rm_num m) = Some (as_real (parseAddrToBe a True)))"

lemma reals_sync_cong:
  "lb_pool_of lb' = lb_pool_of lb \<Longrightarrow> reals (dp (kernel lb')) = reals (dp (kernel lb)) \<Longrightarrow> reals_sync lb' = reals_sync lb"
  by (simp add: reals_sync_def real_nums_def lb_pool_of_def)

lemma alist_update_new: "map_of al k = None \<Longrightarrow> AList.update k v al = al @ [(k, v)]"
  by (induction al) (auto split: if_splits)

lemma alist_update_same:
  "map_of al k = Some u \<Longrightarrow> f v = f u \<Longrightarrow> map (\<lambda>(a, m). f m) (AList.update k v al) = map (\<lambda>(a, m). f m) al"
  by (induction al) (auto split: if_splits)

lemma acquire_sync:
  assumes s: "reals_sync lb" and E: "all_calls_ok E" and t: "\<not> testing (config lb)"
    and acq: "increaseRefCountForReal E a lb = (n, lb')"
  shows "reals_sync lb' \<and> ch_rings (dp (kernel lb')) = ch_rings (dp (kernel lb))"
proof (cases "map_of (lb_reals lb) a")
  case (Some m)
  let ?m = "m\<lparr>refCount := refCount m + 1\<rparr>"
  have lb': "lb' = lb\<lparr>lb_reals := AList.update a ?m (lb_reals lb)\<rparr>" using acq Some by (simp add: increaseRefCountForReal_def)
  have "map (\<lambda>(a, m). rm_num m) (AList.update a ?m (lb_reals lb)) = map (\<lambda>(a, m). rm_num m) (lb_reals lb)"
    by (rule alist_update_same [OF Some]) simp
  then show ?thesis using s Some by (auto simp: lb' reals_sync_def real_nums_def distinct_update update_conv')
next
  case None
  show ?thesis
  proof (cases "realNums lb")
    case Nil
    then show ?thesis using acq None s by (simp add: increaseRefCountForReal_def)
  next
    case (Cons r rest)
    let ?R = "reals (dp (kernel lb))"
    have r: "?R r \<noteq> None" using s Cons by (simp add: reals_sync_def)
    note new = alist_update_new [OF None]
    have *: "realNums lb' = rest" "lb_reals lb' = lb_reals lb @ [(a, \<lparr>rm_num = r, refCount = 1\<rparr>)]"
      "dp (kernel lb') = (dp (kernel lb))\<lparr>reals := ?R(r \<mapsto> as_real (parseAddrToBe a True))\<rparr>"
      using acq None Cons t r E
      by (auto simp: increaseRefCountForReal_def updateRealsMap_def counted_call_def bpf_call_def on_dp_def array_set_def
          all_calls_ok_def new Let_def split: option.splits prod.splits)
    have "r \<notin> (\<lambda>(a, m). rm_num m) ` set (lb_reals lb)" using s Cons by (simp add: reals_sync_def real_nums_def)
    then have "rm_num m \<noteq> r" if "map_of (lb_reals lb) b = Some m" for b m
      using that by (force dest: map_of_SomeD)
    then show ?thesis
      using s Cons None by (auto simp: reals_sync_def real_nums_def * map_of_eq_None_iff map_add_def split: option.splits)
  qed
qed


lemma release_dp [simp]: "kernel (decreaseRefCountForReal a lb) = kernel lb"
  by (simp add: decreaseRefCountForReal_def Let_def split: option.split)

lemma release_sync:
  assumes s: "reals_sync lb"
  shows "reals_sync (decreaseRefCountForReal a lb)"
proof (cases "map_of (lb_reals lb) a")
  case (Some m)
  let ?m = "m\<lparr>refCount := refCount m - 1\<rparr>"
  have d: "distinct (map fst (lb_reals lb))" and dn: "distinct (real_nums lb)" using s by (simp_all add: reals_sync_def)
  show ?thesis
  proof (cases "refCount ?m = 0")
    case False
    have "map (\<lambda>(a, m). rm_num m) (AList.update a ?m (lb_reals lb)) = map (\<lambda>(a, m). rm_num m) (lb_reals lb)"
      by (rule alist_update_same [OF Some]) simp
    then show ?thesis using False s Some
      by (auto simp: decreaseRefCountForReal_def Let_def reals_sync_def real_nums_def distinct_update update_conv')
  next
    case True
    let ?lb = "lb\<lparr>realNums := realNums lb @ [rm_num m], lb_reals := AList.delete a (lb_reals lb),
       numToReals := AList.delete (rm_num m) (numToReals lb)\<rparr>"
    have lb': "decreaseRefCountForReal a lb = ?lb" using True Some by (simp add: decreaseRefCountForReal_def)
    have "add_mset (a, m) (mset (AList.delete a (lb_reals lb))) = mset (lb_reals lb)"
      using mset_alist_delete [OF Some d] map_of_SomeD [OF Some] by simp
    from arg_cong [OF this, of "image_mset (\<lambda>(a, m). rm_num m)"]
    have "mset (real_nums ?lb) = mset (real_nums lb)" by (simp add: real_nums_def)
    then have "distinct (real_nums ?lb)" using dn mset_eq_imp_distinct_iff by blast
    then show ?thesis using s Some d unfolding lb'
      by (auto simp: reals_sync_def delete_conv' distinct_delete split: if_splits)
  qed
qed (use s in \<open>simp add: decreaseRefCountForReal_def\<close>)

lemma drop_real_sync: "reals_sync lb \<Longrightarrow> reals_sync (drop_real n lb)"
proof -
  assume "reals_sync lb"
  moreover have "lb_reals (snd (numToReals_at n lb)) = lb_reals lb" "realNums (snd (numToReals_at n lb)) = realNums lb"
    "kernel (snd (numToReals_at n lb)) = kernel lb"
    by (simp_all add: numToReals_at_def split: option.split)
  ultimately have "reals_sync (snd (numToReals_at n lb))" by (simp add: reals_sync_def real_nums_def)
  then show ?thesis by (simp add: drop_real_def case_prod_beta release_sync)
qed


section \<open>The array of rings\<close>

text \<open>The slice of a service in \<open>ch_rings\<close>, which holds the rings one after the other.\<close>

definition ring_slice :: "u32 \<Rightarrow> (u32 \<rightharpoonup> u32) \<Rightarrow> u32 \<Rightarrow> u32 list" where
  "ring_slice R m num = map (\<lambda>i. the (m (num * R + of_nat i))) [0..<unat R]"

definition rings_sized :: "u32 \<Rightarrow> u32 \<Rightarrow> (u32 \<rightharpoonup> u32) \<Rightarrow> bool" where
  "rings_sized V R m \<longleftrightarrow> unat V * unat R \<le> 2 ^ 32 \<and> (\<forall>num i. num < V \<longrightarrow> i < unat R \<longrightarrow> m (num * R + of_nat i) \<noteq> None)"

definition rings_sync :: "KatranLb \<Rightarrow> bool" where
  "rings_sync lb \<longleftrightarrow> (let R = cfg_chRingSize (config lb); m = ch_rings (dp (kernel lb)) in
     rings_sized (maxVips (config lb)) R m \<and> (\<forall>(k, v) \<in> set (vips lb). mirrors (ring_slice R m (vipNum v)) (chRing v) \<and> ring_current v))"

lemma slot_index:
  fixes V R num :: u32
  assumes "unat V * unat R \<le> 2 ^ 32" "num < V" "i < unat R"
  shows "unat (num * R + of_nat i) = unat num * unat R + i"
proof -
  have "Suc (unat num) * unat R \<le> unat V * unat R" using assms(2) by (intro mult_le_mono1) (simp add: word_less_nat_alt Suc_leI)
  then have "unat num * unat R + i < 2 ^ 32" using assms(1,3) by simp
  then show ?thesis by (simp add: unat_word_ariths unat_of_nat)
qed

lemma slot_index_inj:
  fixes V R num num' :: u32
  assumes "unat V * unat R \<le> 2 ^ 32" "num < V" "num' < V" "i < unat R" "j < unat R"
    and eq: "num * R + of_nat i = num' * R + of_nat j"
  shows "num = num' \<and> i = j"
proof -
  have "unat num * unat R + i = unat num' * unat R + j"
    using slot_index [OF assms(1,2,4)] slot_index [OF assms(1,3,5)] eq by simp
  then have "(unat num * unat R + i) div unat R = (unat num' * unat R + j) div unat R"
    "(unat num * unat R + i) mod unat R = (unat num' * unat R + j) mod unat R" by simp_all
  then show ?thesis using assms(4,5) by (simp add: word_unat_eq_iff)
qed

lemma ring_slice_update:
  assumes "unat V * unat R \<le> 2 ^ 32" "num < V" "num' < V" "i < unat R"
  shows "ring_slice R (m(num * R + of_nat i \<mapsto> x)) num' =
    (if num' = num then (ring_slice R m num)[i := x] else ring_slice R m num')"
proof (rule nth_equalityI)
  show "length (ring_slice R (m(num * R + of_nat i \<mapsto> x)) num') =
      length (if num' = num then (ring_slice R m num)[i := x] else ring_slice R m num')" by (simp add: ring_slice_def)
  fix j assume "j < length (ring_slice R (m(num * R + of_nat i \<mapsto> x)) num')"
  then have j: "j < unat R" by (simp add: ring_slice_def)
  have "num' * R + of_nat j = num * R + of_nat i \<longleftrightarrow> num' = num \<and> j = i"
    using slot_index_inj [OF assms(1,3,2) j assms(4)] by blast
  then show "ring_slice R (m(num * R + of_nat i \<mapsto> x)) num' ! j =
      (if num' = num then (ring_slice R m num)[i := x] else ring_slice R m num') ! j"
    using j by (simp add: ring_slice_def nth_list_update)
qed

lemma counted_call_ok:
  "all_calls_ok E \<Longrightarrow> f ((kernel lb)\<lparr>calls := Suc (calls (kernel lb))\<rparr>) = Some k \<Longrightarrow>
    counted_call E f lb = (True, lb\<lparr>kernel := k\<rparr>)"
  by (simp add: counted_call_def bpf_call_def all_calls_ok_def Let_def)

lemma write_ring_one:
  assumes "all_calls_ok E" "ch_rings (dp (kernel lb)) (num * cfg_chRingSize (config lb) + rp_pos p) \<noteq> None"
  shows "write_ring E num (p # ps) lb = write_ring E num ps
    (lb\<lparr>kernel := (kernel lb)\<lparr>calls := Suc (calls (kernel lb)), dp := (dp (kernel lb))\<lparr>ch_rings :=
      (ch_rings (dp (kernel lb)))(num * cfg_chRingSize (config lb) + rp_pos p \<mapsto> rp_real p)\<rparr>\<rparr>\<rparr>)"
  unfolding write_ring_def fold_Cons o_apply Let_def
  by (subst counted_call_ok [OF assms(1)]) (use assms(2) in \<open>simp_all add: on_dp_def array_set_def\<close>)

lemma write_ring_slices:
  assumes "all_calls_ok E" "\<forall>p \<in> set ps. unat (rp_pos p) < unat R" "num < V" "num' < V"
    and "R = cfg_chRingSize (config lb)" "rings_sized V R (ch_rings (dp (kernel lb)))"
  shows "rings_sized V R (ch_rings (dp (kernel (write_ring E num ps lb)))) \<and>
    ring_slice R (ch_rings (dp (kernel (write_ring E num ps lb)))) num' =
      (if num' = num then write_delta ps (ring_slice R (ch_rings (dp (kernel lb))) num)
       else ring_slice R (ch_rings (dp (kernel lb))) num') \<and>
    reals (dp (kernel (write_ring E num ps lb))) = reals (dp (kernel lb))"
  using assms(2,5,6)
proof (induction ps arbitrary: lb)
  case (Cons p ps)
  let ?m = "ch_rings (dp (kernel lb))" and ?i = "unat (rp_pos p)"
  have i: "?i < unat R" "of_nat ?i = rp_pos p" using Cons.prems(1) by simp_all
  have V: "unat V * unat R \<le> 2 ^ 32" using Cons.prems(3) by (simp add: rings_sized_def)
  have "?m (num * R + of_nat ?i) \<noteq> None" using Cons.prems(3) i(1) assms(3) unfolding rings_sized_def by blast
  then have def: "?m (num * cfg_chRingSize (config lb) + rp_pos p) \<noteq> None" using i Cons.prems(2) by simp
  note one = write_ring_one [OF assms(1) def, of ps]
  define lb1 where "lb1 = lb\<lparr>kernel := (kernel lb)\<lparr>calls := Suc (calls (kernel lb)), dp := (dp (kernel lb))\<lparr>ch_rings :=
      ?m(num * cfg_chRingSize (config lb) + rp_pos p \<mapsto> rp_real p)\<rparr>\<rparr>\<rparr>"
  have m1: "ch_rings (dp (kernel lb1)) = ?m(num * R + of_nat ?i \<mapsto> rp_real p)" "config lb1 = config lb"
    "reals (dp (kernel lb1)) = reals (dp (kernel lb))" using i Cons.prems(2) by (simp_all add: lb1_def)
  have sized: "rings_sized V R (ch_rings (dp (kernel lb1)))" using Cons.prems(3) unfolding m1 by (simp add: rings_sized_def)
  have w: "write_delta (p # ps) arr = write_delta ps (arr[?i := rp_real p])" for arr by (simp add: write_delta_def)
  have "R = cfg_chRingSize (config lb1)" "\<forall>p \<in> set ps. unat (rp_pos p) < unat R" using Cons.prems(1,2) m1(2) by simp_all
  from Cons.IH [OF this(2,1) sized] show ?case
    unfolding one [folded lb1_def] w m1 ring_slice_update [OF V assms(3,4) i(1)] ring_slice_update [OF V assms(3,3) i(1)]
    by simp
qed (simp add: write_ring_def write_delta_def)


section \<open>Every step keeps the maps in step\<close>

definition synced :: "KatranLb \<Rightarrow> bool" where
  "synced lb \<longleftrightarrow> \<not> testing (config lb) \<and> cfg_chRingSize (config lb) \<noteq> 0 \<and> unat (maxReals (config lb)) \<le> 2 ^ 31 \<and>
     reals_sync lb \<and> rings_sync lb"

text \<open>What of the data plane matters here.\<close>

definition dp_view :: "KatranLb \<Rightarrow> (u32 \<rightharpoonup> real_definition) \<times> (u32 \<rightharpoonup> u32)" where
  "dp_view lb = (reals (dp (kernel lb)), ch_rings (dp (kernel lb)))"

lemma synced_cong:
  assumes "config lb' = config lb" "vips lb' = vips lb" "lb_reals lb' = lb_reals lb" "realNums lb' = realNums lb"
    and "dp_view lb' = dp_view lb"
  shows "synced lb' = synced lb"
  using assms by (simp add: synced_def reals_sync_def rings_sync_def real_nums_def dp_view_def)

lemma synced_view: "lb_view lb' = lb_view lb \<Longrightarrow> synced lb' = synced lb"
  by (rule synced_cong) (simp_all add: lb_view_def lb_rest_def lb_pool_of_def dp_view_def)

lemma counted_call_view:
  assumes "\<And>s s'. g s = Some s' \<Longrightarrow> reals s' = reals s \<and> ch_rings s' = ch_rings s"
  shows "dp_view (snd (counted_call E (on_dp g) lb)) = dp_view lb"
  using assms by (auto simp: counted_call_def bpf_call_def on_dp_def count_failed_def dp_view_def Let_def split: option.splits)

lemma hc_call_view: "dp_view (snd (counted_call E (on_hc g) lb)) = dp_view lb"
  by (auto simp: counted_call_def bpf_call_def on_hc_def count_failed_def dp_view_def Let_def split: option.splits)

lemma call_views [simp]:
  "dp_view (snd (updateVipMap E act vip meta lb)) = dp_view lb"
  "dp_view (snd (modifyLpmSrcRule E act src n lb)) = dp_view lb"
  "dp_view (snd (modifyDecapDst E act dst fl lb)) = dp_view lb"
  "dp_view (snd (counted_call E (on_dp (\<lambda>s. map_option (\<lambda>m. s\<lparr>quic_mapping := m\<rparr>) (array_set qid rnum (quic_mapping s)))) lb)) = dp_view lb"
  "dp_view (snd (counted_call E (set_ctl_entry i c) lb)) = dp_view lb"
  "dp_view (snd (counted_call E (set_hc_mac i mac) lb)) = dp_view lb"
  unfolding updateVipMap_def modifyLpmSrcRule_def modifyLpmMap_def modifyDecapDst_def set_ctl_entry_def set_hc_mac_def Let_def
  by (auto intro!: counted_call_view hc_call_view split: ModifyAction.split)

lemma call_synced [simp]:
  "synced (snd (updateVipMap E act vip meta lb)) = synced lb"
  "synced (snd (modifyLpmSrcRule E act src n lb)) = synced lb"
  "synced (snd (modifyDecapDst E act dst fl lb)) = synced lb"
  "synced (snd (counted_call E (on_dp (\<lambda>s. map_option (\<lambda>m. s\<lparr>quic_mapping := m\<rparr>) (array_set qid rnum (quic_mapping s)))) lb)) = synced lb"
  "synced (snd (counted_call E (set_ctl_entry i c) lb)) = synced lb"
  "synced (snd (counted_call E (set_hc_mac i mac) lb)) = synced lb"
  "synced (snd (counted_call E (on_hc g) lb)) = synced lb"
  "synced (count_invalid lb) = synced lb"
proof -
  have "lb_rest lb' = lb_rest lb \<Longrightarrow> lb_pool_of lb' = lb_pool_of lb \<Longrightarrow> dp_view lb' = dp_view lb \<Longrightarrow> synced lb' = synced lb" for lb'
    by (intro synced_cong) (simp_all add: lb_rest_def lb_pool_of_def)
  note c = this
  show "synced (snd (updateVipMap E act vip meta lb)) = synced lb" by (rule c) simp_all
  show "synced (snd (modifyLpmSrcRule E act src n lb)) = synced lb" by (rule c) simp_all
  show "synced (snd (modifyDecapDst E act dst fl lb)) = synced lb" by (rule c) (simp_all, simp_all add: modifyDecapDst_def Let_def)
  show "synced (snd (counted_call E (on_dp (\<lambda>s. map_option (\<lambda>m. s\<lparr>quic_mapping := m\<rparr>) (array_set qid rnum (quic_mapping s)))) lb)) = synced lb"
    by (rule c) simp_all
  show "synced (snd (counted_call E (set_ctl_entry i c) lb)) = synced lb" for i c by (rule c) simp_all
  show "synced (snd (counted_call E (set_hc_mac i mac) lb)) = synced lb" by (rule c) simp_all
  show "synced (snd (counted_call E (on_hc g) lb)) = synced lb" by (rule c) (simp_all add: hc_call_view)
  show "synced (count_invalid lb) = synced lb" by (rule c) (simp, simp, simp add: dp_view_def count_invalid_def)
qed

lemma synced_acquire:
  assumes "synced lb" "all_calls_ok E" "increaseRefCountForReal E a lb = (n, lb')"
  shows "synced lb'" "ch_rings (dp (kernel lb')) = ch_rings (dp (kernel lb))"
proof -
  have t: "\<not> testing (config lb)" and r: "reals_sync lb" using assms(1) by (simp_all add: synced_def)
  note s = acquire_sync [OF r assms(2) t assms(3)]
  have "lb_rest lb' = lb_rest lb" using acquire_rest [of E a lb] assms(3) by simp
  note rest = lb_restD [OF this]
  have "rings_sync lb' = rings_sync lb" using s rest by (simp add: rings_sync_def)
  then show "synced lb'" "ch_rings (dp (kernel lb')) = ch_rings (dp (kernel lb))" using assms(1) s rest by (simp_all add: synced_def)
qed

lemma synced_rest:
  assumes "synced lb" "reals_sync lb'" "lb_rest lb' = lb_rest lb" "kernel lb' = kernel lb"
  shows "synced lb'"
  using assms lb_restD [OF assms(3)] by (simp add: synced_def rings_sync_def)

lemma synced_release [intro]: "synced lb \<Longrightarrow> synced (decreaseRefCountForReal a lb)"
  by (rule synced_rest) (simp_all add: synced_def release_sync)

lemma synced_drop [intro]: "synced lb \<Longrightarrow> synced (drop_real n lb)"
proof (rule synced_rest)
  show "kernel (drop_real n lb) = kernel lb"
    by (simp add: drop_real_def numToReals_at_def split: option.split)
qed (simp_all add: synced_def drop_real_sync)

lemma synced_fold: "synced lb \<Longrightarrow> (\<And>x lb. synced lb \<Longrightarrow> synced (f x lb)) \<Longrightarrow> synced (fold f xs lb)"
  by (induction xs arbitrary: lb) simp_all

lemma synced_tables [simp]:
  "synced (lb\<lparr>lpmSrcMapping := L\<rparr>) = synced lb" "synced (lb\<lparr>quicMapping := Q\<rparr>) = synced lb" "synced (lb\<lparr>numToReals := N\<rparr>) = synced lb"
  "synced (lb\<lparr>vipNums := ns\<rparr>) = synced lb" "synced (lb\<lparr>decapDsts := D\<rparr>) = synced lb" "synced (lb\<lparr>hcReals := H\<rparr>) = synced lb"
  "synced (set_ctlValues i c lb) = synced lb"
  by (intro synced_cong; simp add: dp_view_def set_ctlValues_def)+


text \<open>The operations.\<close>

lemma ring_slice_length [simp]: "length (ring_slice R m num) = unat R"
  by (simp add: ring_slice_def)

lemma Vip_new_current: "ring_current (Vip_new num flags n)"
  by (simp add: ring_current_def has_live_def Vip_new_def)

lemma synced_new_vip:
  assumes "synced lb" "map_of (vips lb) vip = None"
  shows "synced (lb\<lparr>vipNums := ns, vips := AList.update vip (Vip_new num flags (cfg_chRingSize (config lb))) (vips lb)\<rparr>)"
  using assms Vip_new_ok(3) [of _ "cfg_chRingSize (config lb)" num flags] Vip_new_current
  by (auto simp: synced_def reals_sync_def real_nums_def rings_sync_def alist_update_new Let_def)

lemma synced_addVip: "synced lb \<Longrightarrow> addVip E vip flags lb = (r, lb') \<Longrightarrow> synced lb'"
  by (auto simp: addVip_def validateAddress_def synced_new_vip Let_def split: if_splits list.splits)

lemma synced_fewer_vips: "synced lb \<Longrightarrow> set vs \<subseteq> set (vips lb) \<Longrightarrow> synced (lb\<lparr>vips := vs\<rparr>)"
  by (auto simp: synced_def reals_sync_def real_nums_def rings_sync_def Let_def)

lemma synced_delVip:
  assumes "synced lb" "delVip E vip lb = (r, lb')"
  shows "synced lb'"
proof (cases "disableForwarding (config lb) \<or> map_of (vips lb) vip = None")
  case False
  then obtain v where v: "map_of (vips lb) vip = Some v" by auto
  define lb1 where "lb1 = fold drop_real (getReals (iter_reals E) v) lb"
  have "synced lb1" unfolding lb1_def by (rule synced_fold) (use assms(1) in auto)
  then show ?thesis
    using assms(2) False v
    by (auto simp: delVip_def Let_def lb1_def [symmetric] AList.delete_eq intro!: synced_fewer_vips split: if_splits)
qed (use assms in \<open>auto simp: delVip_def split: if_splits option.splits\<close>)

lemma set_alist_update: "set (AList.update k v al) \<subseteq> insert (k, v) (set al)"
  by (induction al) auto

lemma synced_same_ring:
  assumes "synced lb" "map_of (vips lb) k = Some v" "chRing v' = chRing v" "vipNum v' = vipNum v" "ring_current v' = ring_current v"
  shows "synced (lb\<lparr>vips := AList.update k v' (vips lb)\<rparr>)"
proof -
  have "\<forall>(k, w) \<in> set (vips lb). mirrors (ring_slice (cfg_chRingSize (config lb)) (ch_rings (dp (kernel lb))) (vipNum w)) (chRing w) \<and> ring_current w"
    using assms(1) by (simp add: synced_def rings_sync_def Let_def)
  moreover from this have "mirrors (ring_slice (cfg_chRingSize (config lb)) (ch_rings (dp (kernel lb))) (vipNum v')) (chRing v') \<and> ring_current v'"
    using map_of_SomeD [OF assms(2)] assms(3-5) by auto
  ultimately show ?thesis using assms(1) set_alist_update [of k v' "vips lb"]
    by (auto simp: synced_def rings_sync_def reals_sync_def real_nums_def Let_def)
qed

lemma synced_modifyVip:
  assumes "synced lb" "modifyVip E vip flag st lb = (r, lb')"
  shows "synced lb'"
proof (cases "map_of (vips lb) vip")
  case (Some v)
  let ?v = "if st then setVipFlags flag v else unsetVipFlags flag v" and ?lb = "\<lambda>v. lb\<lparr>vips := AList.update vip v (vips lb)\<rparr>"
  have "synced (?lb ?v)" by (rule synced_same_ring [OF assms(1) Some])
    (simp_all add: setVipFlags_def unsetVipFlags_def ring_current_def has_live_def serves_def)
  moreover have "lb' = ?lb ?v \<or> lb' = snd (updateVipMap E ADD vip \<lparr>vip_flags = vipFlags ?v, vip_num = vipNum ?v\<rparr> (?lb ?v))"
    using assms(2) by (simp add: modifyVip_def Some Let_def split: if_split_asm)
  ultimately show ?thesis by (metis call_synced(1))
qed (use assms in \<open>simp add: modifyVip_def\<close>)

lemma synced_add_src_rules:
  assumes "synced lb" "all_calls_ok E" "add_src_rules E dst srcs lb = (r, lb')"
  shows "synced lb'"
  using assms(1,3)
proof (induction srcs arbitrary: lb)
  case (Cons src srcs)
  obtain n lb1 where acq: "increaseRefCountForReal E dst lb = (n, lb1)" by force
  have s1: "synced lb1" by (rule synced_acquire(1) [OF Cons.prems(1) assms(2) acq])
  let ?lb2 = "lb1\<lparr>lpmSrcMapping := AList.update src n (lpmSrcMapping lb1)\<rparr>"
  let ?lb3 = "if \<not> testing (config ?lb2) then snd (modifyLpmSrcRule E ADD src n ?lb2) else ?lb2"
  have "lb' = lb \<or> lb' = lb1 \<or> add_src_rules E dst srcs ?lb3 = (r, lb')"
    using Cons.prems(2) acq by (auto simp: Let_def split: if_splits)
  moreover have "synced ?lb3" using s1 by simp
  ultimately show ?case using Cons.prems(1) s1 Cons.IH by blast
qed simp

lemma synced_del_src_rule: "synced lb \<Longrightarrow> synced (del_src_rule E src lb)"
  by (auto simp: del_src_rule_def Let_def split: option.split)

lemma synced_clear_src_rules: "synced lb \<Longrightarrow> clear_src_rules E rules lb = (res, lb') \<Longrightarrow> synced lb'"
proof (induction rules arbitrary: lb)
  case (Cons r rules)
  show ?case
  proof (cases "map_of (numToReals lb) (snd r)")
    case None
    then show ?thesis using Cons.prems by (cases r) simp
  next
    case (Some a)
    let ?lb1 = "decreaseRefCountForReal a lb"
    let ?lb2 = "if \<not> testing (config ?lb1) then snd (modifyLpmSrcRule E DEL (fst r) (snd r) ?lb1) else ?lb1"
    have "clear_src_rules E rules ?lb2 = (res, lb')" using Cons.prems(2) Some by (cases r) (auto simp: Let_def split: if_splits)
    moreover have "synced ?lb2" using synced_release [OF Cons.prems(1)] by simp
    ultimately show ?thesis using Cons.IH by blast
  qed
qed simp

lemma synced_quic_one:
  assumes "synced lb" "all_calls_ok E" "quic_one E action q (upd, lb) = (upd', lb')"
  shows "synced lb'"
proof (cases "ip_create E (qr_address q)")
  case None
  then show ?thesis using assms by (auto simp: quic_one_def validateAddress_def)
next
  case (Some a)
  obtain n lb1 where acq: "increaseRefCountForReal E a lb = (n, lb1)" by force
  have "synced lb1" "synced (decreaseRefCountForReal a lb)" using synced_acquire(1) [OF assms(1,2) acq] assms(1) by auto
  then show ?thesis using assms(1,3) Some acq
    by (auto simp: quic_one_def validateAddress_def ip_of_def Let_def split: if_splits)
qed

lemma synced_quic:
  assumes "synced lb" "all_calls_ok E"
  shows "synced (modifyQuicRealsMapping E action qs lb)"
proof -
  have "synced (snd (fold (quic_one E action) qs ([], lb)))"
    by (rule fold_keeps [where P = "\<lambda>s. synced (snd s)"]) (use assms synced_quic_one in \<open>auto, metis prod.collapse\<close>)
  then show ?thesis using assms(1) unfolding modifyQuicRealsMapping_def
    by (auto simp: case_prod_beta intro!: synced_fold)
qed


definition rings_kept :: "(u32 \<rightharpoonup> u32) \<Rightarrow> KatranLb \<Rightarrow> bool" where
  "rings_kept m lb \<longleftrightarrow> synced lb \<and> ch_rings (dp (kernel lb)) = m"

lemma rings_kept_modify_one:
  assumes "rings_kept m (snd (snd s))" "all_calls_ok E"
  shows "rings_kept m (snd (snd (modify_one E action r s)))"
proof -
  obtain cur us lb where s: "s = (cur, us, lb)" by (cases s)
  have kept: "rings_kept m lb" using assms(1) s by simp
  have acq: "rings_kept m (snd (increaseRefCountForReal E a lb))" for a
    using synced_acquire [of lb E a] assms(2) kept unfolding rings_kept_def by (metis prod.collapse)
  have rel: "rings_kept m (decreaseRefCountForReal a lb)" for a
    using kept unfolding rings_kept_def by auto
  have "rings_kept m (snd (snd (add_one E w a s)))" for w a
    using acq kept by (auto simp: s add_one_def Let_def case_prod_beta split: option.split)
  moreover have "rings_kept m (snd (snd (del_one a s)))" for a
    using kept rel by (auto simp: s del_one_def split: option.split)
  moreover have "rings_kept m (count_invalid lb)" using kept unfolding rings_kept_def by (simp, simp add: count_invalid_def)
  ultimately show ?thesis unfolding s modify_one_eq by (auto split: option.split)
qed

lemma modify_one_rest: "lb_rest (snd (snd (modify_one E action r s))) = lb_rest (snd (snd s))"
proof -
  obtain cur us lb where s: "s = (cur, us, lb)" by (cases s)
  have "lb_rest (snd (snd (add_one E w a s))) = lb_rest lb" for w a
    using acquire_rest [of E a lb] by (auto simp: s add_one_def Let_def case_prod_beta split: option.split)
  moreover have "lb_rest (snd (snd (del_one a s))) = lb_rest lb" for a
    by (simp add: s del_one_def split: option.split)
  ultimately show ?thesis unfolding s modify_one_eq by (auto split: option.split)
qed

lemma fold_modify_one_rest: "lb_rest (snd (snd (fold (modify_one E action) rs s))) = lb_rest (snd (snd s))"
  by (induction rs arbitrary: s) (simp_all add: modify_one_rest)

lemma delta_positions: "length ring < 2 ^ 32 \<Longrightarrow> \<forall>p \<in> set (delta_between ring new_ring). unat (rp_pos p) < length ring"
  by (auto simp: delta_between_def pos_entry_def unat_of_nat)

text \<open>One batch: the slice of the service follows its ring, the other slices stay.\<close>

lemma modifyReals_synced:
  assumes inv: "lb_inv lb" "lb_inv lb'" and s: "synced lb" and E: "all_calls_ok E" "env_ok E"
    and mod: "modifyRealsForVip E action rs k lb = (Inr True, lb')"
    and v: "map_of (vips lb) k = Some v"
    and f: "fold (modify_one E action) rs (getReals (iter_reals E) v, [], lb) = (cur, us, lb1)"
    and b: "batchRealsUpdate (iter_reals E) us v = Some (delta, v')"
    and R: "R = cfg_chRingSize (config lb)"
  shows "ring_slice R (ch_rings (dp (kernel lb'))) (vipNum v') = write_delta delta (ring_slice R (ch_rings (dp (kernel lb))) (vipNum v))"
    and "synced lb'" "map_of (vips lb') k = Some v'" "lb_pool_of lb' = lb_pool_of lb1"
proof -
  have sv: "services_ok lb" using inv(1) by (simp add: lb_inv_def)
  have t: "\<not> testing (config lb)" and rs0: "rings_sync lb" using s by (simp_all add: synced_def)
  have "rings_kept (ch_rings (dp (kernel lb))) (snd (snd (fold (modify_one E action) rs (getReals (iter_reals E) v, [], lb))))"
    by (rule fold_keeps) (use s rings_kept_modify_one [OF _ E(1)] in \<open>auto simp: rings_kept_def\<close>)
  then have s1: "synced lb1" "ch_rings (dp (kernel lb1)) = ch_rings (dp (kernel lb))" by (simp_all add: f rings_kept_def)
  have "lb_rest lb1 = lb_rest lb" using fold_modify_one_rest [of E action rs] f by (metis snd_conv)
  note rest = lb_restD [OF this]
  let ?m = "ch_rings (dp (kernel lb))" and ?V = "maxVips (config lb)"
  note vok = services_ok_vip [OF sv v] and bd = batchRealsUpdate_delta [OF services_ok_vip(2) [OF sv v] b]
  have nums: "vipNum w < ?V" if "(k', w) \<in> set (vips lb)" for k' w using sv that unfolding services_ok_def by auto
  define lb2 where "lb2 = lb1\<lparr>vips := AList.update k v' (vips lb1)\<rparr>"
  have lb2: "config lb2 = config lb" "kernel lb2 = kernel lb1" "vips lb2 = AList.update k v' (vips lb)" using rest by (simp_all add: lb2_def)
  have lb': "lb' = write_ring E (vipNum v') delta lb2"
    using mod v f b t rest by (simp add: modifyRealsForVip_def lb2_def split: if_splits)
  have pos: "\<forall>p \<in> set delta. unat (rp_pos p) < unat R"
    using delta_positions [of "chRing v" "chRing v'"] vok(2,3) unsigned_less [of R, where ?'a = nat] bd(5) R by (simp add: ring_fits_def)
  have sized: "rings_sized ?V R (ch_rings (dp (kernel lb2)))" using rs0 s1(2) lb2(2) R by (simp add: rings_sync_def Let_def)
  have vn: "vipNum v' < ?V" using nums vok(4) bd(3) by simp
  note W = write_ring_slices [OF E(1) pos vn _ _ sized, unfolded lb2 s1(2), folded lb']
  show slice: "ring_slice R (ch_rings (dp (kernel lb'))) (vipNum v') = write_delta delta (ring_slice R ?m (vipNum v))"
    using W [OF vn R] bd(3) by simp
  have rest': "lb_rest lb' = lb_rest lb2" "lb_pool_of lb' = lb_pool_of lb2" unfolding lb' by simp_all
  note r' = lb_restD [OF rest'(1)]
  show "map_of (vips lb') k = Some v'" using r' lb2 by (simp add: update_conv')
  show pool: "lb_pool_of lb' = lb_pool_of lb1" unfolding rest' by (simp add: lb2_def lb_pool_of_def)
  have "reals (dp (kernel lb')) = reals (dp (kernel lb1))" using W [OF vn R] lb2 lb' by simp
  then have "reals_sync lb'" using s1(1) reals_sync_cong [OF pool] by (simp add: synced_def)
  have "unat num < 2 ^ 31" if "(num, r) \<in> set (vip_reals v')" for num r
  proof -
    have "num \<in> fst ` set (vip_reals v')" using that by force
    then obtain a where "real_name lb' num = Some a"
      using lb_inv_named(1) [OF inv(2) \<open>map_of (vips lb') k = Some v'\<close>] by blast
    then have "num < maxReals (config lb')" using inv(2) unfolding lb_inv_def pool_ok_def by blast
    then show ?thesis using s r' lb2 by (simp add: synced_def word_less_nat_alt)
  qed
  moreover have "ring_current v" "chRingSize v \<noteq> 0" using rs0 s vok(3,4) by (auto simp: rings_sync_def synced_def Let_def)
  moreover have "\<forall>reals. mset (iter_reals E reals) = mset reals" using E(2) by (simp add: env_ok_def)
  ultimately have cur': "ring_current v'" using batch_current [OF _ vok(2,1) _ _ b] by blast
  have old: "mirrors (ring_slice R ?m (vipNum w)) (chRing w) \<and> ring_current w" if "(k', w) \<in> set (vips lb)" for k' w
    using rs0 that R by (auto simp: rings_sync_def Let_def)
  have "mirrors (ring_slice R (ch_rings (dp (kernel lb'))) (vipNum w)) (chRing w) \<and> ring_current w" if w: "(k', w) \<in> set (vips lb')" for k' w
  proof (cases "k' = k")
    case True
    have "distinct (map fst (vips lb'))" using sv r' lb2 by (simp add: services_ok_def distinct_update)
    then have "w = v'" using w True \<open>map_of (vips lb') k = Some v'\<close> by simp
    moreover have "mirrors (ring_slice R ?m (vipNum v)) (chRing v)" using old vok(4) by simp
    moreover have "length (chRing v') = length (chRing v)" "length (chRing v) < 2 ^ 32"
      using bd(1,2) vok(2) unsigned_less [of "chRingSize v", where ?'a = nat] by (simp_all add: ring_fits_def)
    ultimately show ?thesis using slice bd(5) write_delta_mirrors cur' by simp
  next
    case False
    then have w: "(k', w) \<in> set (vips lb)" using w r' lb2 set_alist_update [of k v' "vips lb"] by auto
    have "inj_on (\<lambda>(k, v). vipNum v) (set (vips lb))" using sv by (simp add: services_ok_def distinct_map)
    then have "vipNum w \<noteq> vipNum v" using inj_onD [of "\<lambda>(k, v). vipNum v" "set (vips lb)" "(k', w)" "(k, v)"] w vok(4) False by auto
    then have "vipNum w \<noteq> vipNum v'" using bd(3) by simp
    then show ?thesis using W [OF nums [OF w] R] old [OF w] by simp
  qed
  moreover have "rings_sized ?V R (ch_rings (dp (kernel lb')))" using W [OF vn R] by simp
  ultimately have "rings_sync lb'" using r' lb2 R by (auto simp: rings_sync_def Let_def)
  then show "synced lb'" using \<open>reals_sync lb'\<close> s r' lb2 by (simp add: synced_def)
qed


lemma synced_side_tables:
  "addInlineDecapDst E dst lb = (r, lb') \<Longrightarrow> synced lb \<Longrightarrow> synced lb'"
  "delInlineDecapDst E dst lb = (r, lb') \<Longrightarrow> synced lb \<Longrightarrow> synced lb'"
  by (auto simp: addInlineDecapDst_def delInlineDecapDst_def validateAddress_def Let_def split: if_splits)

lemma synced_hc:
  assumes "synced lb"
  shows "addHealthcheckerDst E somark dst lb = (r, lb') \<Longrightarrow> synced lb'"
    "delHealthcheckerDst E somark lb = (r, lb') \<Longrightarrow> synced lb'" "changeMac E mac lb = (r, lb') \<Longrightarrow> synced lb'"
proof -
  have c: "counted_call E (on_hc g) lb = (ok, lb1) \<Longrightarrow> synced lb1" for g ok lb1
    using call_synced(7) [of E g lb] assms by simp
  show "addHealthcheckerDst E somark dst lb = (r, lb') \<Longrightarrow> synced lb'"
    using assms c by (auto simp: addHealthcheckerDst_def validateAddress_def Let_def split: if_splits prod.splits)
  show "delHealthcheckerDst E somark lb = (r, lb') \<Longrightarrow> synced lb'"
    using assms c by (auto simp: delHealthcheckerDst_def Let_def split: if_splits prod.splits)
  let ?lb = "set_ctlValues kMacAddrPos (set_ctl_mac mac (ctlValue kMacAddrPos lb)) lb"
  have m: "counted_call E (set_ctl_entry i c) lb0 = (ok, lb1) \<Longrightarrow> synced lb0 \<Longrightarrow> synced lb1" for i c ok lb1 lb0
    using call_synced(5) [of E i c lb0] by simp
  have h: "counted_call E (set_hc_mac i c) lb0 = (ok, lb1) \<Longrightarrow> synced lb0 \<Longrightarrow> synced lb1" for i c ok lb1 lb0
    using call_synced(6) [of E i c lb0] by simp
  have "synced ?lb" using assms by simp
  then show "changeMac E mac lb = (r, lb') \<Longrightarrow> synced lb'"
    using assms by (auto simp: changeMac_def Let_def split: if_splits prod.splits dest: m h)
qed

lemma synced_addSrc:
  assumes "synced lb" "all_calls_ok E" "addSrcRoutingRule_nets E srcs dst lb = (r, lb')"
  shows "synced lb'"
  using assms synced_add_src_rules [OF assms(1,2)]
  by (auto simp: addSrcRoutingRule_nets_def validateAddress_def split: if_splits)

lemma lb_step_synced:
  assumes step: "lb_step E c lb lb'" and E: "env_ok E" "all_calls_ok E" and inv: "lb_inv lb" and s: "synced lb" and careful: "careful E c lb"
  shows "synced lb'"
  using step
proof (cases rule: lb_step.cases)
  case (call_modifyReals action rs vip r)
  show ?thesis
  proof (cases r)
    case True
    then have m: "modifyRealsForVip E action rs vip lb = (Inr True, lb')" using call_modifyReals(2) by simp
    from modifyRealsForVip_true [OF m] show ?thesis using modifyReals_synced(2) [OF inv lb_step_inv [OF step E(1) inv careful] s E(2,1) m _ _ _ refl] by metis
  next
    case False
    then have "lb' = lb" using call_modifyReals(2) by (auto simp: modifyRealsForVip_def Let_def split: if_splits option.splits prod.splits)
    then show ?thesis using s by simp
  qed
next
  case (call_delSrc dsts r)
  then show ?thesis using s by (auto simp: delSrcRoutingRule_def delSrcRoutingRule_nets_def intro!: synced_fold synced_del_src_rule split: if_splits)
next
  case (call_clearSrc res)
  then show ?thesis using s synced_clear_src_rules [OF s] by (auto simp: clearAllSrcRoutingRules_def split: if_splits prod.splits sum.splits)
next
  case call_getReals
  then show ?thesis using getRealsForVip_pure [OF inv E(1)] s by (metis snd_conv)
next
  case call_getSrcText
  then show ?thesis using getSrcRoutingRule_pure [OF inv E(1)] s by (metis snd_conv)
next
  case call_getSrc
  then show ?thesis using getSrcRoutingRuleCidr_pure [OF inv E(1)] s by (metis snd_conv)
next
  case call_quic
  then show ?thesis using synced_quic [OF s E(2)] by blast
next
  case call_addSrc
  then show ?thesis using synced_addSrc [OF s E(2)] by blast
next
  case call_addVip
  then show ?thesis using synced_addVip [OF s] by blast
next
  case call_delVip
  then show ?thesis using synced_delVip [OF s] by blast
next
  case call_modifyVip
  then show ?thesis using synced_modifyVip [OF s] by blast
next
  case call_addDecap
  then show ?thesis using synced_side_tables(1) s by blast
next
  case call_delDecap
  then show ?thesis using synced_side_tables(2) s by blast
next
  case call_addHc
  then show ?thesis using synced_hc(1) [OF s] by blast
next
  case call_delHc
  then show ?thesis using synced_hc(2) [OF s] by blast
next
  case call_changeMac
  then show ?thesis using synced_hc(3) [OF s] by blast
next
  case call_load
  then show ?thesis using synced_view [OF keeps_loading(1) [of E lb]] s by simp
next
  case call_attach
  then show ?thesis using synced_view [OF keeps_loading(2) [of E lb]] s by simp
next
  case (call_srcIp a r)
  then show ?thesis using synced_view [OF keeps_loading(3) [of E a lb]] s by simp
next
  case (call_monitor state r)
  then show ?thesis using synced_view [OF keeps_loading(4) [of E state lb]] s by simp
next
  case (call_stats look name position st)
  then show ?thesis using synced_view [OF keeps_stats [of look name position lb]] s by simp
qed

section \<open>The configuration is fixed\<close>

lemma config_calls [simp]:
  "config (snd (bpf_call E f lb)) = config lb" "config (snd (counted_call E f lb)) = config lb"
  "config (snd (updateVipMap E act vip meta lb)) = config lb"
  "config (snd (modifyLpmSrcRule E act src n lb)) = config lb" "config (snd (modifyDecapDst E act dst fl lb)) = config lb"
  "config (snd (increaseRefCountForReal E a lb)) = config lb" "config (decreaseRefCountForReal a lb) = config lb"
  "config (drop_real n lb) = config lb" "config (count_invalid lb) = config lb" "config (write_ring E num ps lb) = config lb"
  "config (set_ctlValues i c lb) = config lb" "config (snd (numToReals_at n lb)) = config lb"
proof -
  show "config (snd (bpf_call E f lb)) = config lb" by (simp add: bpf_call_def Let_def split: option.split)
  show "config (snd (counted_call E f lb)) = config lb" by (simp add: counted_call_def bpf_call_def count_failed_def Let_def split: option.split)
  then show "config (snd (modifyDecapDst E act dst fl lb)) = config lb"
    by (simp add: modifyDecapDst_def counted_call_def bpf_call_def count_failed_def Let_def split: option.split)
  show "config (set_ctlValues i c lb) = config lb" by (simp add: set_ctlValues_def)
  show "config (snd (numToReals_at n lb)) = config lb" by (simp add: numToReals_at_def split: option.split)
  show "config (snd (updateVipMap E act vip meta lb)) = config lb" using lb_restD [OF updates_keep(1)] by blast
  show "config (snd (modifyLpmSrcRule E act src n lb)) = config lb" using lb_restD [OF updates_keep(5)] by blast
  show "config (snd (increaseRefCountForReal E a lb)) = config lb" using lb_restD [OF acquire_rest] by blast
  show "config (decreaseRefCountForReal a lb) = config lb" using lb_restD [OF release_rest] by blast
  show "config (drop_real n lb) = config lb" using lb_restD [OF drop_real_rest] by blast
  show "config (count_invalid lb) = config lb" using lb_restD [OF count_invalid_keeps(1)] by blast
  show "config (write_ring E num ps lb) = config lb" using lb_restD [OF write_ring_keeps(1)] by blast
qed

lemma config_fold: "(\<And>x lb. config (f x lb) = config lb) \<Longrightarrow> config (fold f xs lb) = config lb"
  by (induction xs arbitrary: lb) simp_all

lemma config_pairs:
  "config (snd (add_src_rules E dst srcs lb)) = config lb" "config (snd (clear_src_rules E rules lb)) = config lb"
  "config (del_src_rule E src lb) = config lb" "config (snd (quic_one E action q s)) = config (snd s)"
proof -
  show "config (snd (add_src_rules E dst srcs lb)) = config lb"
    by (induction srcs arbitrary: lb) (simp_all add: case_prod_beta Let_def)
  show "config (snd (clear_src_rules E rules lb)) = config lb"
    by (induction E rules lb rule: clear_src_rules.induct) (simp_all add: Let_def split: option.split)
  show "config (del_src_rule E src lb) = config lb" by (simp add: del_src_rule_def Let_def split: option.split)
  show "config (snd (quic_one E action q s)) = config (snd s)"
    by (cases s) (simp add: quic_one_def validateAddress_def case_prod_beta Let_def)
qed

lemma config_fold_snd: "(\<And>x s. config (snd (f x s)) = config (snd s)) \<Longrightarrow> config (snd (fold f xs s)) = config (snd s)"
  by (induction xs arbitrary: s) simp_all

lemma config_ops:
  "config (snd (addVip E vip flags lb)) = config lb" "config (snd (delVip E vip lb)) = config lb"
  "config (snd (modifyVip E vip flag st lb)) = config lb" "config (snd (modifyRealsForVip E action rs vip lb)) = config lb"
  "config (snd (addSrcRoutingRule_nets E srcs dst lb)) = config lb" "config (snd (delSrcRoutingRule E dsts lb)) = config lb"
  "config (snd (clearAllSrcRoutingRules E lb)) = config lb" "config (modifyQuicRealsMapping E action qs lb) = config lb"
  "config (snd (getRealsForVip E vip lb)) = config lb" "config (snd (getSrcRoutingRuleCidr E lb)) = config lb"
  "config (snd (getSrcRoutingRule E lb)) = config lb"
proof -
  have v: "config (snd (validateAddress E a b lb)) = config lb" for a b lb by (simp add: validateAddress_def)
  show "config (snd (addVip E vip flags lb)) = config lb" by (simp add: addVip_def v case_prod_beta Let_def split: list.split)
  show "config (snd (delVip E vip lb)) = config lb" by (simp add: delVip_def Let_def config_fold split: option.split)
  show "config (snd (modifyVip E vip flag st lb)) = config lb" by (simp add: modifyVip_def Let_def split: option.split)
  have "config (snd (snd (fold (modify_one E action) rs s))) = config (snd (snd s))" for s
    using lb_restD [OF fold_modify_one_rest] by blast
  then show "config (snd (modifyRealsForVip E action rs vip lb)) = config lb"
    by (simp add: modifyRealsForVip_def case_prod_beta Let_def split: option.split)
  show "config (snd (addSrcRoutingRule_nets E srcs dst lb)) = config lb"
    by (simp add: addSrcRoutingRule_nets_def v case_prod_beta config_pairs)
  show "config (snd (delSrcRoutingRule E dsts lb)) = config lb"
    by (simp add: delSrcRoutingRule_def delSrcRoutingRule_nets_def config_fold config_pairs)
  show "config (snd (clearAllSrcRoutingRules E lb)) = config lb"
    using config_pairs(2) [of E "iter_rules E (lpmSrcMapping lb)" lb] by (auto simp: clearAllSrcRoutingRules_def split: prod.split sum.split)
  show "config (modifyQuicRealsMapping E action qs lb) = config lb"
    by (simp add: modifyQuicRealsMapping_def case_prod_beta config_fold config_fold_snd config_pairs)
  show "config (snd (getRealsForVip E vip lb)) = config lb"
    by (simp add: getRealsForVip_def case_prod_beta config_fold_snd split: option.split)
  show "config (snd (getSrcRoutingRuleCidr E lb)) = config lb"
    by (simp add: getSrcRoutingRuleCidr_def case_prod_beta config_fold_snd)
  then show "config (snd (getSrcRoutingRule E lb)) = config lb" by (simp add: getSrcRoutingRule_state)
qed

lemma config_view: "lb_view lb' = lb_view lb \<Longrightarrow> config lb' = config lb"
  by (simp add: lb_view_def lb_rest_def)

lemma config_side:
  "config (snd (addInlineDecapDst E dst lb)) = config lb" "config (snd (delInlineDecapDst E dst lb)) = config lb"
  "config (snd (addHealthcheckerDst E somark dst lb)) = config lb" "config (snd (delHealthcheckerDst E somark lb)) = config lb"
  "config (snd (changeMac E mac lb)) = config lb"
  using side_tables_keep [of E] lb_restD by (metis prod.collapse)+

lemma lb_step_config: "lb_step E c lb lb' \<Longrightarrow> config lb' = config lb"
  by (induction rule: lb_step.induct)
    ((drule arg_cong [where f = "\<lambda>x. config (snd x)"], simp add: config_ops config_side config_view [OF keeps_loading(1)]
      config_view [OF keeps_loading(2)] config_view [OF keeps_loading(3)] config_view [OF keeps_loading(4)]
      config_view [OF keeps_stats]) | simp add: config_ops)+

section \<open>From the constructor to the packet\<close>

text \<open>The maps of the program are as large as the configuration says.\<close>

definition maps_sized :: "KatranConfig \<Rightarrow> kernel \<Rightarrow> bool" where
  "maps_sized cfg k \<longleftrightarrow> (\<forall>n < maxReals cfg. reals (dp k) n \<noteq> None) \<and>
     rings_sized (maxVips cfg) (cfg_chRingSize cfg) (ch_rings (dp k))"

lemma KatranLb_new_view:
  assumes "KatranLb_new E junk cfg k = Inr lb"
  shows "lb_view lb = lb_view (KatranLb_fields cfg k)"
  using assms by (auto simp: KatranLb_new_def resolve_if_def set_ctlValues_def lb_view_def lb_rest_def lb_pool_of_def Let_def
      split: if_splits sum.splits prod.splits)

lemma KatranLb_new_synced:
  assumes new: "KatranLb_new E junk cfg k = Inr lb" and cfg: "\<not> testing cfg" "maps_sized cfg k" "cfg_chRingSize cfg \<noteq> 0"
    "unat (maxReals cfg) \<le> 2 ^ 31"
  shows "synced lb"
proof -
  let ?lb = "KatranLb_fields cfg k"
  have "set (realNums ?lb) = {n. n < maxReals cfg}" "distinct (realNums ?lb)"
    by (simp_all add: KatranLb_fields_def set_word_range distinct_word_range del: set_map)
  then have "reals_sync ?lb"
    using cfg(2) by (auto simp: reals_sync_def real_nums_def maps_sized_def) (simp_all add: KatranLb_fields_def)
  moreover have "rings_sync ?lb" using cfg(2) by (simp add: rings_sync_def maps_sized_def KatranLb_fields_def Let_def)
  moreover have "\<not> testing (config ?lb)" "cfg_chRingSize (config ?lb) \<noteq> 0" "unat (maxReals (config ?lb)) \<le> 2 ^ 31"
    using cfg by (simp_all add: KatranLb_fields_def)
  ultimately have "synced ?lb" by (simp add: synced_def)
  then show ?thesis using synced_view [OF KatranLb_new_view [OF new]] by simp
qed


text \<open>
  The whole system: calls of the control plane and packets of the data plane in any order. The
  build, the helpers and the program array may differ from packet to packet. The trace of a run holds
  its calls, each with the object it is made on.
\<close>

inductive system_run :: "katran_env \<Rightarrow> KatranLb \<Rightarrow> (lb_call \<times> KatranLb) list \<Rightarrow> KatranLb \<Rightarrow> bool"
  for E :: katran_env and lb0 :: KatranLb where
  sys_start: "system_run E lb0 [] lb0"
| sys_call: "system_run E lb0 tr lb \<Longrightarrow> lb_step E c lb lb' \<Longrightarrow> system_run E lb0 (tr @ [(c, lb)]) lb'"
| sys_packet: "system_run E lb0 tr lb \<Longrightarrow> balancer_run B H slots ((dp (kernel lb))\<lparr>pkt := p\<rparr>) = Some (a, t) \<Longrightarrow>
    system_run E lb0 tr (lb\<lparr>kernel := (kernel lb)\<lparr>dp := t\<rparr>\<rparr>)"

definition careful_reach :: "katran_env \<Rightarrow> KatranLb \<Rightarrow> KatranLb \<Rightarrow> bool" where
  "careful_reach E lb0 lb \<longleftrightarrow> (\<exists>tr. system_run E lb0 tr lb \<and> careful_trace E tr)"

lemma careful_reach_start [simp]: "careful_reach E lb0 lb0"
  unfolding careful_reach_def using sys_start [of E lb0] careful_trace_simps(1) by blast

lemma careful_reach_step: "careful_reach E lb0 lb \<Longrightarrow> careful_step E lb lb' \<Longrightarrow> careful_reach E lb0 lb'"
  unfolding careful_reach_def careful_step_def using sys_call careful_trace_simps(2) by blast

lemma careful_reach_packet:
  "careful_reach E lb0 lb \<Longrightarrow> balancer_run B H slots ((dp (kernel lb))\<lparr>pkt := p\<rparr>) = Some (a, t) \<Longrightarrow>
   careful_reach E lb0 (lb\<lparr>kernel := (kernel lb)\<lparr>dp := t\<rparr>\<rparr>)"
  unfolding careful_reach_def using sys_packet by blast

lemma packet_view:
  assumes "balancer_run B H slots ((dp (kernel lb))\<lparr>pkt := p\<rparr>) = Some (a, t)"
  shows "lb_view (lb\<lparr>kernel := (kernel lb)\<lparr>dp := t\<rparr>\<rparr>) = lb_view lb"
proof -
  have "dp_frame ((dp (kernel lb))\<lparr>pkt := p\<rparr>) t"
    using balancer.run_safe [of slots B H MAX_TAIL_CALL_CNT "(dp (kernel lb))\<lparr>pkt := p\<rparr>"] assms
    unfolding balancer_run_def wp_iff by auto
  then show ?thesis by (simp add: lb_view_def lb_rest_def lb_pool_of_def dp_frame_def)
qed

lemma system_run_ok:
  "system_run E lb0 tr lb \<Longrightarrow> env_ok E \<Longrightarrow> all_calls_ok E \<Longrightarrow> lb_inv lb0 \<Longrightarrow> synced lb0 \<Longrightarrow> careful_trace E tr \<Longrightarrow> lb_inv lb \<and> synced lb"
proof (induction rule: system_run.induct)
  case (sys_packet tr lb B H slots p a t)
  then show ?case using lb_inv_view [OF packet_view [OF sys_packet.hyps(2)]] synced_view [OF packet_view [OF sys_packet.hyps(2)]] by simp
qed (auto intro: lb_step_inv lb_step_synced)

lemma system_run_config: "system_run E lb0 tr lb \<Longrightarrow> config lb = config lb0"
  by (induction rule: system_run.induct) (simp_all add: lb_step_config)

lemma careful_reach_ok:
  "careful_reach E lb0 lb \<Longrightarrow> env_ok E \<Longrightarrow> all_calls_ok E \<Longrightarrow> lb_inv lb0 \<Longrightarrow> synced lb0 \<Longrightarrow> lb_inv lb \<and> synced lb"
  "careful_reach E lb0 lb \<Longrightarrow> config lb = config lb0"
  unfolding careful_reach_def using system_run_ok system_run_config by blast+

text \<open>What the maps say of a slot of a service.\<close>

lemma synced_slot:
  assumes inv: "lb_inv lb" and s: "synced lb" and v: "map_of (vips lb) k = Some v" "has_live v"
    and c: "c < unat (cfg_chRingSize (config lb))"
  shows "\<exists>n r a. ch_rings (dp (kernel lb)) (vipNum v * cfg_chRingSize (config lb) + of_nat c) = Some n \<and>
    map_of (vip_reals v) n = Some r \<and> vrm_weight r \<noteq> 0 \<and> map_of (numToReals lb) n = Some a \<and>
    reals (dp (kernel lb)) n = Some (as_real (parseAddrToBe a True))"
proof -
  let ?R = "cfg_chRingSize (config lb)" and ?m = "ch_rings (dp (kernel lb))"
  have sv: "services_ok lb" using inv by (simp add: lb_inv_def)
  note vok = services_ok_vip [OF sv v(1)]
  have num: "vipNum v < maxVips (config lb)" using sv vok(4) unfolding services_ok_def by auto
  have r: "rings_sized (maxVips (config lb)) ?R ?m" "mirrors (ring_slice ?R ?m (vipNum v)) (chRing v)" "ring_current v"
    using s vok(4) by (auto simp: synced_def rings_sync_def Let_def)
  obtain n where n: "?m (vipNum v * ?R + of_nat c) = Some n" using r(1) num c unfolding rings_sized_def by blast
  have "serves v c" using r(3) v(2) c vok(3) by (simp add: ring_current_def)
  then obtain num r where live: "chRing v ! c = uint num" "map_of (vip_reals v) num = Some r" "vrm_weight r \<noteq> 0" by (auto simp: serves_def)
  have "ring_slice ?R ?m (vipNum v) ! c = num" using r(2) live(1) c vok(2,3) by (auto simp: mirrors_def ring_fits_def)
  then have "n = num" using n c by (simp add: ring_slice_def)
  moreover have "num \<in> fst ` set (vip_reals v)" using live(2) by (force dest: map_of_SomeD)
  then obtain a where a: "real_name lb num = Some a" using lb_inv_named(1) [OF inv v(1)] by blast
  moreover obtain m where "real_meta lb a = Some m" "rm_num m = num" using inv a unfolding lb_inv_def pool_ok_def by blast
  then have "reals (dp (kernel lb)) num = Some (as_real (parseAddrToBe a True))"
    using s by (auto simp: synced_def reals_sync_def real_meta_def)
  ultimately show ?thesis using n live by (auto simp: real_name_def)
qed

text \<open>C1. End to end: after any run of the system, calls of a careful caller and packets in any order, a packet of a service with at
  least one real of non-zero weight that \<open>get_packet_dst\<close> hashes to the ring gets a destination, and the destination is the
  address of a real that the service has with a non-zero weight. The hypotheses are: every system call of the control plane
  succeeds; the trace is careful, that is, no batch names a real twice, sources are routed once, and reals have fewer than
  \<open>2 ^ 32\<close> users (the object accepts calls that break this, and \<open>Katran_Errors\<close> shows that a
  batch that deletes a real twice frees a real that another service still uses); the ring size is the program's and there are at most \<open>2 ^ 31\<close> reals; the
  service is not routed by source in this build.\<close>

theorem new_flows_reach_live_reals:
  assumes "KatranLb_new E junk cfg k = Inr lb0" "\<not> testing cfg" "maps_sized cfg k" "cfg_chRingSize cfg = RING_SIZE"
    "unat (maxReals cfg) \<le> 2 ^ 31"
    and "env_ok E" "all_calls_ok E" "system_run E lb0 tr lb" "careful_trace E tr"
    and "map_of (vips lb) vip = Some v" "has_live v" "vip_num info = vipNum v"
    and "\<not> (LPM_SRC_LOOKUP B \<and> vip_flags info AND F_SRC_ROUTING \<noteq> 0)" "lru_get lru (dp (kernel lb)) \<noteq> None"
  shows "\<exists>n r a pk t. get_packet_dst B H pckt info v6 lru (dp (kernel lb)) = Some (Some (as_real (parseAddrToBe a True)), pk, t) \<and>
    real_index pk = n \<and> map_of (vip_reals v) n = Some r \<and> vrm_weight r \<noteq> 0 \<and> map_of (numToReals lb) n = Some a"
proof -
  have start: "lb_inv lb0" "synced lb0"
    using KatranLb_new_inv [OF assms(1)] KatranLb_new_synced [OF assms(1-3) _ assms(5)] assms(4) by simp_all
  have ok: "lb_inv lb" "synced lb" using system_run_ok [OF assms(8,6,7) start assms(9)] by simp_all
  have R: "cfg_chRingSize (config lb) = RING_SIZE" 
    using system_run_config [OF assms(8)] config_view [OF KatranLb_new_view [OF assms(1)]] assms(4) by (simp add: KatranLb_fields_def)
  let ?h = "get_packet_hash (pckt\<lparr>flow := hash_flow info (flow pckt)\<rparr>) v6"
  have c: "unat (?h mod RING_SIZE) < unat (cfg_chRingSize (config lb))" unfolding R by (simp add: unat_mod)
  obtain n r a where slot: "ch_rings (dp (kernel lb)) (ring_slot info v6 pckt) = Some n"
      "map_of (vip_reals v) n = Some r" "vrm_weight r \<noteq> 0" "map_of (numToReals lb) n = Some a"
      "reals (dp (kernel lb)) n = Some (as_real (parseAddrToBe a True))"
    using synced_slot [OF ok assms(10,11) c] assms(12) unfolding R ring_slot_def by (auto simp: mult.commute)
  obtain m where "lru_get lru (dp (kernel lb)) = Some m" using assms(14) by auto
  from get_packet_dst_ring [OF assms(13) slot(1,5) this, of H] show ?thesis using slot by fastforce
qed

section \<open>An example\<close>

definition ex_env :: katran_env where
  "ex_env = \<lparr>ip_create = map_of [(''10.200.1.1'', IPv4 0x0AC80101), (''10.0.0.1'', IPv4 0x0A000001), (''10.0.0.2'', IPv4 0x0A000002)],
     net_create = map_of [(''10.1.0.0/16'', (IPv4 0x0A010000, 16))], ip_str = (\<lambda>a. []),
     ip_hash = (\<lambda>a. case a of IPv4 x \<Rightarrow> ucast x | _ \<Rightarrow> 0), sys_ok = (\<lambda>_. True), map_fd = (\<lambda>_. 1), prog_fd = (\<lambda>_. 1), if_index = (\<lambda>_. 1),
     iter_reals = (\<lambda>x. x), iter_rules = (\<lambda>x. x), iter_quic = (\<lambda>x. x), iter_ids = (\<lambda>x. x), iter_addrs = (\<lambda>x. x),
     iter_vips = (\<lambda>x. x), iter_dsts = (\<lambda>x. x)\<rparr>"

definition ex_cfg :: KatranConfig where
  "ex_cfg = \<lparr>mainInterface = ''eth0'', v4TunInterface = [], v6TunInterface = [], balancerProgPath = ''balancer_kern.o'',
     healthcheckingProgPath = ''healthchecking_ipip.o'', defaultMac = [1, 2, 3, 4, 5, 6], cfg_priority = 2307, rootMapPath = [],
     rootMapPos = 2, enableHc = False, disableForwarding = False, maxVips = 4, maxReals = 8, cfg_chRingSize = 65537, testing = False,
     LruSize = 1000, cfg_forwardingCores = [], cfg_numaNodes = [], maxLpmSrcSize = 10, maxDecapDst = 6, hcInterface = [],
     katranSrcV4 = ''10.0.0.2'', katranSrcV6 = [], localMac = []\<rparr>"

definition ex_kernel :: kernel where
  "ex_kernel = \<lparr>dp = \<lparr>pkt = [], clock_reads = 0, event_pipe = [], vip_map = Map.empty, lru_maps_mapping = Map.empty,
       fallback_lru_cache = Map.empty, ch_rings = (\<lambda>_. Some 0), reals = (\<lambda>_. Some \<lparr>real_dstv6 = in6_zero, real_flags = 0\<rparr>),
       reals_stats = (\<lambda>_. Some \<lparr>v1 = 0, v2 = 0\<rparr>), stats = (\<lambda>_. Some \<lparr>v1 = 0, v2 = 0\<rparr>), quic_mapping = (\<lambda>_. Some 0),
       lpm_src_v4 = Map.empty, lpm_src_v6 = Map.empty, ctl_array = (\<lambda>_. Some \<lparr>ctl_u64 = 0\<rparr>), decap_dst = Map.empty,
       pckt_srcs = (\<lambda>_. Some \<lparr>real_dstv6 = in6_zero, real_flags = 0\<rparr>)\<rparr>,
     hc = \<lparr>skb_data = [], skb_len = 0, skb_mark = 0, skb_tunnel_key = None, hc_ctrl_map = Map.empty, hc_reals_map = Map.empty,
       hc_pckt_srcs_map = Map.empty, hc_pckt_macs = Map.empty, hc_stats_map = Map.empty\<rparr>,
     root_array = Map.empty, katran_subprograms = Map.empty, xdp_attached = False, hc_attached = False, calls = 0\<rparr>"

definition ex_lb0 :: KatranLb where
  "ex_lb0 = (case KatranLb_new ex_env \<lparr>ctl_u64 = 0\<rparr> ex_cfg ex_kernel of Inr lb \<Rightarrow> lb | Inl _ \<Rightarrow> KatranLb_fields ex_cfg ex_kernel)"

definition ex_key :: VipKey where
  "ex_key = \<lparr>vk_address = ''10.200.1.1'', vk_port = 80, vk_proto = 6\<rparr>"

definition ex_lb1 :: KatranLb where
  "ex_lb1 = snd (addVip ex_env ex_key 0 ex_lb0)"

definition ex_lb2 :: KatranLb where
  "ex_lb2 = snd (modifyRealsForVip ex_env ADD [\<lparr>nr_address = ''10.0.0.1'', nr_weight = 1\<rparr>] ex_key ex_lb1)"

lemma ex_env_ok: "env_ok ex_env" "all_calls_ok ex_env"
  by (simp_all add: env_ok_def all_calls_ok_def ex_env_def)

lemma ex_new: "KatranLb_new ex_env \<lparr>ctl_u64 = 0\<rparr> ex_cfg ex_kernel = Inr ex_lb0"
  unfolding ex_lb0_def by (simp add: KatranLb_new_def resolve_if_def ex_cfg_def ex_env_def Let_def)

lemma ex_view: "lb_rest ex_lb0 = lb_rest (KatranLb_fields ex_cfg ex_kernel)" "lb_pool_of ex_lb0 = lb_pool_of (KatranLb_fields ex_cfg ex_kernel)"
  using KatranLb_new_view [OF ex_new] by (simp_all add: lb_view_def)

lemma ex_lb0_fields:
  "config ex_lb0 = ex_cfg\<lparr>hcInterface := ''eth0''\<rparr>" "vipNums ex_lb0 = [0, 1, 2, 3]" "vips ex_lb0 = []" "lb_reals ex_lb0 = []"
  "realNums ex_lb0 = [0, 1, 2, 3, 4, 5, 6, 7]" "quicMapping ex_lb0 = []" "lpmSrcMapping ex_lb0 = []" "numToReals ex_lb0 = []"
  using ex_view by (simp_all add: lb_rest_def lb_pool_of_def KatranLb_fields_def ex_cfg_def upt_rec)

lemma add_to_empty:
  assumes "lb_view lb = lb_view ex_lb0"
  defines "lb' \<equiv> snd (addVip ex_env ex_key 0 lb)"
  shows "addVip ex_env ex_key 0 lb = (True, lb')"
    and "vips lb' = [(ex_key, Vip_new 0 0 65537)]" "lb_reals lb' = []" "realNums lb' = [0, 1, 2, 3, 4, 5, 6, 7]"
    and "config lb' = config ex_lb0" "lpmSrcMapping lb' = []" "quicMapping lb' = []"
proof -
  let ?lb = "lb\<lparr>vipNums := [1, 2, 3], vips := [(ex_key, Vip_new 0 0 65537)]\<rparr>"
  have f: "config lb = config ex_lb0" "vipNums lb = [0, 1, 2, 3]" "vips lb = []" "lb_reals lb = []"
    "realNums lb = [0, 1, 2, 3, 4, 5, 6, 7]" "quicMapping lb = []" "lpmSrcMapping lb = []"
    using assms(1) by (simp_all add: lb_view_def lb_rest_def lb_pool_of_def ex_lb0_fields)
  have eq: "addVip ex_env ex_key 0 lb = (True, snd (updateVipMap ex_env ADD ex_key \<lparr>vip_flags = 0, vip_num = 0\<rparr> ?lb))"
    by (simp add: addVip_def validateAddress_def f ex_lb0_fields ex_key_def ex_env_def ex_cfg_def Let_def)
  then show "addVip ex_env ex_key 0 lb = (True, lb')" by (simp add: lb'_def)
  have lb': "lb' = snd (updateVipMap ex_env ADD ex_key \<lparr>vip_flags = 0, vip_num = 0\<rparr> ?lb)" using eq by (simp add: lb'_def)
  have "lb_rest lb' = lb_rest ?lb" unfolding lb' by (rule updates_keep(1))
  moreover have "lb_pool_of lb' = lb_pool_of ?lb" unfolding lb' by (rule updates_keep(2))
  ultimately show "vips lb' = [(ex_key, Vip_new 0 0 65537)]"
    "lb_reals lb' = []" "realNums lb' = [0, 1, 2, 3, 4, 5, 6, 7]" "config lb' = config ex_lb0" "lpmSrcMapping lb' = []" "quicMapping lb' = []"
    by (simp_all add: lb_rest_def lb_pool_of_def f)
qed

lemmas ex_added = add_to_empty [OF refl, folded ex_lb1_def]

lemma add_first_real:
  assumes vips: "vips lb1 = [(ex_key, Vip_new 0 0 65537)]" and pool: "lb_reals lb1 = []" "realNums lb1 = [0, 1, 2, 3, 4, 5, 6, 7]"
    and conf: "config lb1 = config ex_lb0"
  defines "lb2 \<equiv> snd (modifyRealsForVip ex_env ADD [\<lparr>nr_address = ''10.0.0.1'', nr_weight = 1\<rparr>] ex_key lb1)"
  shows "\<exists>v. modifyRealsForVip ex_env ADD [\<lparr>nr_address = ''10.0.0.1'', nr_weight = 1\<rparr>] ex_key lb1 = (Inr True, lb2) \<and>
    map_of (vips lb2) ex_key = Some v \<and> vipNum v = 0 \<and> vip_reals v = [(0, \<lparr>vrm_weight = 1, vrm_hash = 0x0A000001\<rparr>)] \<and>
    map_of (numToReals lb2) 0 = Some (IPv4 0x0A000001)"
proof -
  let ?a = "IPv4 0x0A000001" and ?e = "\<lparr>ep_num = 0, ep_weight = 1, ep_hash = 0x0A000001\<rparr>"
  let ?u = "\<lparr>ur_action = ADD, updatedReal = ?e\<rparr>"
  let ?lb = "lb1\<lparr>realNums := [1, 2, 3, 4, 5, 6, 7], numToReals := AList.update 0 ?a (numToReals lb1),
    lb_reals := [(?a, \<lparr>rm_num = 0, refCount = 1\<rparr>)]\<rparr>"
  define lb3 where "lb3 = snd (updateRealsMap ex_env ?a 0 ?lb)"
  have cfg: "testing (config lb1) = False" "maxReals (config lb1) = 8" "disableForwarding (config lb1) = False" "config lb3 = config lb1"
    using lb_restD [OF updates_keep(3) [of ex_env ?a 0 ?lb]] by (simp_all add: conf ex_lb0_fields ex_cfg_def lb3_def)
  have "increaseRefCountForReal ex_env ?a lb1 = (0, lb3)"
    using cfg by (simp add: increaseRefCountForReal_def pool lb3_def Let_def)
  then have f: "modify_one ex_env ADD \<lparr>nr_address = ''10.0.0.1'', nr_weight = 1\<rparr> ([], [], lb1) = ([], [?u], lb3)"
    using cfg by (simp add: modify_one_eq add_one_def pool Let_def) (simp add: ex_env_def add_one_def pool Let_def)
  define v where "v = (Vip_new 0 0 65537)\<lparr>vip_reals := [(0, \<lparr>vrm_weight = 1, vrm_hash = 0x0A000001\<rparr>)], chRing := replicate 65537 0\<rparr>"
  have "snd (ring_delta 65537 (replicate 65537 0) (replicate 65537 (- 1))) = replicate 65537 0"
    using ring_delta_eq [of "replicate 65537 (- 1)" 65537 "replicate 65537 0"] by simp
  then obtain delta where "batchRealsUpdate (iter_reals ex_env) [?u] (Vip_new 0 0 65537) = Some (delta, v)"
    by (simp add: batchRealsUpdate_def getEndpoints_def apply_ureal_def live_endpoints_def Vip_new_def GenerateMaglevHash_def
        v_def map_replicate_const ex_env_def case_prod_beta)
  moreover have "getReals (iter_reals ex_env) (Vip_new 0 0 65537) = []" by (simp add: getReals_def ex_env_def Vip_new_def)
  moreover have "vips (write_ring E num ps lb) = vips lb" for E num ps lb using lb_restD [OF write_ring_keeps(1)] by blast
  moreover have "numToReals (write_ring E num ps lb) = numToReals lb" for E num ps lb
    using write_ring_keeps(2) [of E num ps lb] by (simp add: lb_pool_of_def)
  moreover have "numToReals lb3 = AList.update 0 ?a (numToReals lb1)"
    using updates_keep(4) [of ex_env ?a 0 ?lb] by (simp add: lb_pool_of_def lb3_def)
  ultimately have "modifyRealsForVip ex_env ADD [\<lparr>nr_address = ''10.0.0.1'', nr_weight = 1\<rparr>] ex_key lb1 = (Inr True, lb2) \<and>
      map_of (vips lb2) ex_key = Some v \<and> map_of (numToReals lb2) 0 = Some ?a"
    using f cfg by (simp add: lb2_def modifyRealsForVip_def vips update_conv')
  then show ?thesis by (intro exI [where x = v]) (simp add: v_def Vip_new_def)
qed


lemmas ex_modify = add_first_real [OF ex_added(2-5), folded ex_lb2_def]

lemma ex_calls:
  "lb_step ex_env (Call_addVip ex_key 0) ex_lb0 ex_lb1"
  "lb_step ex_env (Call_modifyRealsForVip ADD [\<lparr>nr_address = ''10.0.0.1'', nr_weight = 1\<rparr>] ex_key) ex_lb1 ex_lb2"
  using call_addVip [OF ex_added(1)] ex_modify by (auto intro: call_modifyReals)

abbreviation ex_trace :: "(lb_call \<times> KatranLb) list" where
  "ex_trace \<equiv> ([] @ [(Call_addVip ex_key 0, ex_lb0)]) @
     [(Call_modifyRealsForVip ADD [\<lparr>nr_address = ''10.0.0.1'', nr_weight = 1\<rparr>] ex_key, ex_lb1)]"

lemma ex_careful: "careful_trace ex_env ex_trace"
proof -
  have "users ex_lb1 = {#}" by (simp add: users_def used_nums_def ex_added) (simp add: Vip_new_def)
  then show ?thesis by (simp add: careful_trace_def split: option.split)
qed

theorem reachable_counts_exact_witness:
  "(case map_of (lb_reals ex_lb2) (IPv4 0x0A000001) of None \<Rightarrow> 0 | Some m \<Rightarrow> unat (refCount m)) = count (users ex_lb2) (IPv4 0x0A000001) \<and>
    distinct (realNums ex_lb2)"
  using reachable_counts_exact [OF ex_new ex_env_ok(1) run_call [OF run_call [OF run_start ex_calls(1)] ex_calls(2)] ex_careful] by blast

theorem new_flows_reach_live_reals_witness:
  "\<exists>pk t. get_packet_dst default_build ref_helpers ex_pckt \<lparr>vip_flags = 0, vip_num = 0\<rparr> False Fallback (dp (kernel ex_lb2)) =
    Some (Some (as_real (parseAddrToBe (IPv4 0x0A000001) True)), pk, t)"
proof -
  obtain v where v: "map_of (vips ex_lb2) ex_key = Some v" "vipNum v = 0" "vip_reals v = [(0, \<lparr>vrm_weight = 1, vrm_hash = 0x0A000001\<rparr>)]"
    using ex_modify by blast
  note run = sys_call [OF sys_call [OF sys_start ex_calls(1)] ex_calls(2)]
  have "maps_sized ex_cfg ex_kernel" by (simp add: maps_sized_def rings_sized_def ex_cfg_def ex_kernel_def)
  moreover have "has_live v" using v(3) by (auto simp: has_live_def)
  ultimately obtain n r a pk t where r: "get_packet_dst default_build ref_helpers ex_pckt \<lparr>vip_flags = 0, vip_num = 0\<rparr> False Fallback (dp (kernel ex_lb2)) =
      Some (Some (as_real (parseAddrToBe a True)), pk, t)" "map_of (vip_reals v) n = Some r" "map_of (numToReals ex_lb2) n = Some a"
    using new_flows_reach_live_reals [OF ex_new _ _ _ _ ex_env_ok run ex_careful, of ex_key v "\<lparr>vip_flags = 0, vip_num = 0\<rparr>" default_build Fallback ref_helpers ex_pckt False]
      v(1,2) by (auto simp: ex_cfg_def default_build_def lru_get_def)
  have "n = 0" using r(2) v(3) by (simp split: if_splits)
  then show ?thesis using r ex_modify by auto
qed

end
