(* ===== verification/Katran_Errors.thy ===== *)
theory Katran_Errors
  imports Katran_Sync
begin

text \<open>
  Calls outside the conditions under which the counts are exact, and what they do: a batch that names an
  address twice, a source that is routed twice, the last QUIC id, two spellings of one address.
\<close>

lemma decrease_meta:
  assumes "map_of (lb_reals lb) a = Some m"
  shows "refCount m = 1 \<Longrightarrow> map_of (lb_reals (decreaseRefCountForReal a lb)) a = None \<and>
      rm_num m \<in> set (realNums (decreaseRefCountForReal a lb))"
    and "refCount m \<noteq> 1 \<Longrightarrow> map_of (lb_reals (decreaseRefCountForReal a lb)) a = Some (m\<lparr>refCount := refCount m - 1\<rparr>)"
  using assms by (simp_all add: decreaseRefCountForReal_def Let_def update_conv' delete_conv')

text \<open>C27. A batch that deletes the same real twice gives its reference back twice: a real that two
  services share, deleted from one of them in a batch that names it twice, loses its entry and its number
  goes back to the free list, although the other service still has that number on its ring.\<close>

theorem duplicate_delete_frees_shared_real:
  assumes "map_of (vips lb) k = Some v" "map_of (vips lb) k' = Some v'" "k \<noteq> k'"
    and "ip_create E (nr_address r) = Some a" "map_of (lb_reals lb) a = Some m" "refCount m = 2"
    and "rm_num m \<in> set (getReals (iter_reals E) v)" "rm_num m \<in> set (getReals (iter_reals E) v')"
    and "modifyRealsForVip E DEL [r, r] k lb = (Inr True, lb')"
  shows "map_of (lb_reals lb') a = None \<and> rm_num m \<in> set (realNums lb') \<and>
    (\<exists>w. map_of (vips lb') k' = Some w \<and> rm_num m \<in> set (getReals (iter_reals E) w))"
proof -
  let ?lb1 = "decreaseRefCountForReal a lb" and ?lb2 = "decreaseRefCountForReal a (decreaseRefCountForReal a lb)"
  let ?m = "m\<lparr>refCount := refCount m - 1\<rparr>"
  have m1: "map_of (lb_reals ?lb1) a = Some ?m" using decrease_meta(2) [OF assms(5)] assms(6) by simp
  have m2: "map_of (lb_reals ?lb2) a = None" "rm_num m \<in> set (realNums ?lb2)" using decrease_meta(1) [OF m1] assms(6) by simp_all
  have f: "snd (snd (fold (modify_one E DEL) [r, r] (getReals (iter_reals E) v, [], lb))) = ?lb2"
    using assms(4,5,7) m1 by (simp add: modify_one_eq del_one_def)
  obtain v0 cur us lb1 delta w where mod: "map_of (vips lb) k = Some v0"
    "fold (modify_one E DEL) [r, r] (getReals (iter_reals E) v0, [], lb) = (cur, us, lb1)"
    "lb' = (let lb2 = lb1\<lparr>vips := AList.update k w (vips lb1)\<rparr> in
       if \<not> testing (config lb2) then write_ring E (vipNum w) delta lb2 else lb2)"
    using modifyRealsForVip_true [OF assms(9)] by metis
  have lb1: "lb1 = ?lb2" using mod(1,2) f assms(1) by simp
  let ?lb3 = "lb1\<lparr>vips := AList.update k w (vips lb1)\<rparr>"
  have kept: "lb_rest lb' = lb_rest ?lb3" "lb_pool_of lb' = lb_pool_of ?lb3" unfolding mod(3) Let_def by simp_all
  have "vips lb1 = vips lb" using lb_restD [OF release_rest] unfolding lb1 by metis
  then have "vips lb' = AList.update k w (vips lb)" using lb_restD [OF kept(1)] by simp
  then have "map_of (vips lb') k' = Some v'" using assms(2,3) by (simp add: update_conv')
  then show ?thesis using m2 kept(2) lb1 assms(8) by (simp add: lb_pool_of_def)
qed


text \<open>Routing a source again leaks a reference: \<open>addSrcRoutingRule\<close> takes a reference for every
  source it is given and overwrites the old rule without giving back the reference of that rule. After
  the source is deleted, the real is kept, with a count of one and no user.\<close>

theorem rerouted_source_leaks_reference:
  assumes "map_of (lpmSrcMapping lb) src = Some (rm_num m)" "map_of (lb_reals lb) a = Some m" "map_of (numToReals lb) (rm_num m) = Some a"
    and "refCount m = 1" "length (lpmSrcMapping lb) < unat (maxLpmSrcSize (config lb))" "rm_num m \<noteq> maxReals (config lb)"
    and "add_src_rules E a [src] lb = (res, lb1)"
  shows "res = 0 \<and> map_of (lpmSrcMapping (del_src_rule E src lb1)) src = None \<and>
    map_of (lb_reals (del_src_rule E src lb1)) a = Some m"
proof -
  let ?m = "m\<lparr>refCount := refCount m + 1\<rparr>"
  let ?lb = "lb\<lparr>lb_reals := AList.update a ?m (lb_reals lb)\<rparr>"
  have acq: "increaseRefCountForReal E a lb = (rm_num m, ?lb)" using assms(2) by (simp add: increaseRefCountForReal_def)
  let ?lb2 = "?lb\<lparr>lpmSrcMapping := AList.update src (rm_num m) (lpmSrcMapping lb)\<rparr>"
  have lb1: "res = 0" "lb1 = (if \<not> testing (config lb) then snd (modifyLpmSrcRule E ADD src (rm_num m) ?lb2) else ?lb2)"
    using assms(5-7) acq by (auto simp: Let_def)
  have kept: "lb_rest lb1 = lb_rest ?lb2" "lb_pool_of lb1 = lb_pool_of ?lb2" unfolding lb1(2) by simp_all
  have f1: "map_of (lpmSrcMapping lb1) src = Some (rm_num m)" "map_of (lb_reals lb1) a = Some ?m" "map_of (numToReals lb1) (rm_num m) = Some a"
    using kept assms(3) by (simp_all add: lb_rest_def lb_pool_of_def update_conv')
  let ?lb3 = "decreaseRefCountForReal a lb1"
  have "drop_real (rm_num m) lb1 = ?lb3" using f1(3) by (simp add: drop_real_def numToReals_at_def)
  moreover have "map_of (lb_reals ?lb3) a = Some m"
    using decrease_meta(2) [OF f1(2)] assms(4) by simp
  moreover have "lb_reals (snd (modifyLpmSrcRule E DEL src n lb)) = lb_reals lb" for n lb
    using updates_keep(6) [of E DEL src n lb] by (simp add: lb_pool_of_def)
  ultimately show ?thesis using lb1(1) f1(1) by (simp add: del_src_rule_def Let_def delete_conv')
qed

text \<open>Services are told apart by the text of their address, but stored in \<open>vip_map\<close> by its value: when
  two services differ only in the spelling of one address, deleting one of them takes the other
  out of the data plane while the control plane keeps it.\<close>

theorem alias_delete_removes_other_service:
  assumes "vip_def_of E k = vip_def_of E k'" "k \<noteq> k'" "map_of (vips lb) k = Some v" "map_of (vips lb) k' = Some v'"
    and "all_calls_ok E" "\<not> testing (config lb)" "vip_map (dp (kernel lb)) (vip_def_of E k') \<noteq> None"
    and "delVip E k lb = (True, lb')"
  shows "map_of (vips lb') k' = Some v' \<and> vip_map (dp (kernel lb')) (vip_def_of E k') = None"
proof -
  define lb0 where "lb0 = fold drop_real (getReals (iter_reals E) v) lb"
  define lb1 where "lb1 = lb0\<lparr>vipNums := vipNums lb0 @ [vipNum v]\<rparr>"
  have "kernel (drop_real n lb) = kernel lb" for n lb by (simp add: drop_real_def numToReals_at_def split: option.split)
  then have "kernel (fold drop_real ns lb) = kernel lb" for ns lb by (induction ns arbitrary: lb) simp_all
  then have k1: "kernel lb1 = kernel lb" by (simp add: lb1_def lb0_def)
  have "lb_rest lb0 = lb_rest lb" unfolding lb0_def by (rule fold_drop_real_rest)
  then have rest: "config lb0 = config lb" "config lb1 = config lb" "vips lb1 = vips lb" by (simp_all add: lb_rest_def lb1_def)
  let ?lb2 = "snd (updateVipMap E DEL k \<lparr>vip_flags = 0, vip_num = 0\<rparr> lb1)"
  have "lb' = ?lb2\<lparr>vips := AList.delete k (vips ?lb2)\<rparr>"
    using assms(3,6,8) rest by (auto simp: delVip_def Let_def lb0_def [symmetric] lb1_def [symmetric] split: if_splits)
  moreover have "vips ?lb2 = vips lb" using lb_restD [OF updates_keep(1)] rest(3) by metis
  moreover have "vip_map (dp (kernel ?lb2)) (vip_def_of E k') = None"
    using assms(1,5,7) k1 by (auto simp: updateVipMap_def counted_call_def bpf_call_def on_dp_def hash_del_def all_calls_ok_def Let_def
        split: option.splits)
  ultimately show ?thesis using assms(2,4) by (simp add: delete_conv')
qed

text \<open>QUIC server id 65535 passes the check of \<open>modifyQuicRealsMapping\<close> but lies outside \<open>quic_mapping\<close>,
  which has 65535 entries: the mapping is recorded and holds a reference, the call on the map fails and is
  counted, and the data plane has no entry for the id.\<close>

theorem last_quic_id_is_not_programmed:
  assumes "array_map MAX_QUIC_REALS (quic_mapping (dp (kernel lb)))" "\<not> testing (config lb)" "\<not> disableForwarding (config lb)"
    and "iter_ids E = (\<lambda>xs. xs)" "ip_create E addr = Some a" "map_of (quicMapping lb) a = None"
    and "increaseRefCountForReal E a lb = (n, lb1)" "n \<noteq> maxReals (config lb1)"
    and "lb' = modifyQuicRealsMapping E ADD [\<lparr>qr_address = addr, qr_id = 65535\<rparr>] lb"
  shows "map_of (quicMapping lb') a = Some 65535 \<and> bpfFailedCalls (lbStats lb') = bpfFailedCalls (lbStats lb1) + 1 \<and>
    quic_mapping (dp (kernel lb')) = quic_mapping (dp (kernel lb1)) \<and> quic_mapping (dp (kernel lb1)) 65535 = None"
proof -
  have q: "quic_mapping (dp (kernel lb1)) = quic_mapping (dp (kernel lb))"
    using assms(7) by (auto simp: increaseRefCountForReal_def updateRealsMap_def counted_call_def bpf_call_def on_dp_def count_failed_def
        array_set_def Let_def split: option.splits list.splits if_splits)
  have none: "quic_mapping (dp (kernel lb1)) 65535 = None" using assms(1) unfolding q array_map_def by force
  have cfg: "config lb1 = config lb" using config_calls(6) [of E a lb] assms(7) by simp
  let ?lb2 = "lb1\<lparr>quicMapping := AList.update a 65535 (quicMapping lb1)\<rparr>"
  have "fold (quic_one E ADD) [\<lparr>qr_address = addr, qr_id = 65535\<rparr>] ([], lb) = ([(65535, n)], ?lb2)"
    using assms(5-8) by (simp add: quic_one_def validateAddress_def ip_of_def Let_def)
  then have "lb' = snd (counted_call E (on_dp (\<lambda>s. map_option (\<lambda>m. s\<lparr>quic_mapping := m\<rparr>) (array_set 65535 n (quic_mapping s)))) ?lb2)"
    using assms(2-4,9) cfg by (simp add: modifyQuicRealsMapping_def)
  then show ?thesis using none by (simp add: counted_call_def bpf_call_def on_dp_def array_set_def count_failed_def Let_def update_conv')
qed


section \<open>Witnesses\<close>

definition ex_real_addr :: IPAddress where
  "ex_real_addr = IPv4 0x0A000001"

definition ex_svc :: "u32 \<Rightarrow> Vip" where
  "ex_svc n = (Vip_new n 0 65537)\<lparr>vip_reals := [(0, \<lparr>vrm_weight = 1, vrm_hash = 7\<rparr>)]\<rparr>"

definition ex_key2 :: VipKey where
  "ex_key2 = ex_key\<lparr>vk_port := 443\<rparr>"

definition ex_shared :: KatranLb where
  "ex_shared = (KatranLb_fields ex_cfg ex_kernel)\<lparr>vips := [(ex_key, ex_svc 0), (ex_key2, ex_svc 1)],
     lb_reals := [(ex_real_addr, \<lparr>rm_num = 0, refCount = 2\<rparr>)], numToReals := [(0, ex_real_addr)], realNums := [1, 2, 3]\<rparr>"

definition ex_new_real :: NewReal where
  "ex_new_real = \<lparr>nr_address = ''10.0.0.1'', nr_weight = 1\<rparr>"

lemma ex_ip: "ip_create ex_env ''10.0.0.1'' = Some ex_real_addr" "getReals (iter_reals ex_env) (ex_svc n) = [0]"
  by (simp_all add: ex_env_def ex_real_addr_def getReals_def ex_svc_def)

lemma ex_shared_fields:
  "map_of (vips ex_shared) ex_key = Some (ex_svc 0)" "map_of (vips ex_shared) ex_key2 = Some (ex_svc 1)" "ex_key \<noteq> ex_key2"
  "map_of (lb_reals ex_shared) ex_real_addr = Some \<lparr>rm_num = 0, refCount = 2\<rparr>" "disableForwarding (config ex_shared) = False"
  by (simp_all add: ex_shared_def ex_key2_def ex_key_def KatranLb_fields_def ex_cfg_def)

lemma ex_del_twice:
  "\<exists>lb'. modifyRealsForVip ex_env DEL [ex_new_real, ex_new_real] ex_key ex_shared = (Inr True, lb')"
proof -
  have "ip_create ex_env (nr_address ex_new_real) = Some ex_real_addr" by (simp add: ex_new_real_def ex_ip)
  moreover have "map_of (lb_reals (decreaseRefCountForReal ex_real_addr ex_shared)) ex_real_addr = Some \<lparr>rm_num = 0, refCount = 1\<rparr>"
    using decrease_meta(2) [OF ex_shared_fields(4)] by simp
  ultimately show ?thesis
    by (simp add: modifyRealsForVip_def ex_shared_fields ex_ip modify_one_eq del_one_def batchRealsUpdate_def getEndpoints_def
        apply_ureal_def Let_def ex_svc_def live_endpoints_def) (simp add: ex_env_def)
qed

theorem duplicate_delete_frees_shared_real_witness:
  "\<exists>lb'. modifyRealsForVip ex_env DEL [ex_new_real, ex_new_real] ex_key ex_shared = (Inr True, lb') \<and>
    map_of (lb_reals lb') ex_real_addr = None \<and> 0 \<in> set (realNums lb')"
proof -
  obtain lb' where del: "modifyRealsForVip ex_env DEL [ex_new_real, ex_new_real] ex_key ex_shared = (Inr True, lb')"
    using ex_del_twice by blast
  have "ip_create ex_env (nr_address ex_new_real) = Some ex_real_addr" by (simp add: ex_new_real_def ex_ip)
  from duplicate_delete_frees_shared_real [OF ex_shared_fields(1-3) this ex_shared_fields(4) _ _ _ del] show ?thesis
    using del by (auto simp: ex_ip)
qed

definition ex_routed :: KatranLb where
  "ex_routed = (KatranLb_fields ex_cfg ex_kernel)\<lparr>lpmSrcMapping := [((IPv4 0x0A010000, 16), 0)],
     lb_reals := [(ex_real_addr, \<lparr>rm_num = 0, refCount = 1\<rparr>)], numToReals := [(0, ex_real_addr)], realNums := [1, 2, 3]\<rparr>"

theorem rerouted_source_leaks_reference_witness:
  "\<exists>lb1. add_src_rules ex_env ex_real_addr [(IPv4 0x0A010000, 16)] ex_routed = (0, lb1) \<and>
    map_of (lb_reals (del_src_rule ex_env (IPv4 0x0A010000, 16) lb1)) ex_real_addr = Some \<lparr>rm_num = 0, refCount = 1\<rparr>"
proof -
  obtain res lb1 where add: "add_src_rules ex_env ex_real_addr [(IPv4 0x0A010000, 16)] ex_routed = (res, lb1)" by fastforce
  from rerouted_source_leaks_reference [OF _ _ _ _ _ _ add, of "\<lparr>rm_num = 0, refCount = 1\<rparr>"] show ?thesis
    using add by (auto simp: ex_routed_def KatranLb_fields_def ex_cfg_def)
qed

definition ex_env_alias :: katran_env where
  "ex_env_alias = ex_env\<lparr>ip_create := (\<lambda>s. Some ex_real_addr)\<rparr>"

definition ex_alias_lb :: KatranLb where
  "ex_alias_lb = (KatranLb_fields ex_cfg (ex_kernel\<lparr>dp := (dp ex_kernel)\<lparr>vip_map := (\<lambda>_. Some \<lparr>vip_flags = 0, vip_num = 1\<rparr>)\<rparr>\<rparr>))\<lparr>
     vips := [(ex_key, Vip_new 0 0 65537), (ex_key\<lparr>vk_address := ''010.200.1.1''\<rparr>, Vip_new 1 0 65537)]\<rparr>"

theorem alias_delete_removes_other_service_witness:
  "vip_map (dp (kernel (snd (delVip ex_env_alias ex_key ex_alias_lb)))) (vip_def_of ex_env_alias (ex_key\<lparr>vk_address := ''010.200.1.1''\<rparr>)) = None"
proof -
  have keys: "vip_def_of ex_env_alias ex_key = vip_def_of ex_env_alias (ex_key\<lparr>vk_address := ''010.200.1.1''\<rparr>)"
    "ex_key \<noteq> ex_key\<lparr>vk_address := ''010.200.1.1''\<rparr>" "all_calls_ok ex_env_alias"
    by (simp_all add: vip_def_of_def ip_of_def ex_env_alias_def ex_key_def all_calls_ok_def ex_env_def)
  have lb: "map_of (vips ex_alias_lb) ex_key = Some (Vip_new 0 0 65537)"
    "map_of (vips ex_alias_lb) (ex_key\<lparr>vk_address := ''010.200.1.1''\<rparr>) = Some (Vip_new 1 0 65537)" "\<not> testing (config ex_alias_lb)"
    "\<not> disableForwarding (config ex_alias_lb)" "vip_map (dp (kernel ex_alias_lb)) x \<noteq> None" for x
    by (simp_all add: ex_alias_lb_def ex_key_def KatranLb_fields_def ex_cfg_def ex_kernel_def)
  have "fst (delVip ex_env_alias ex_key ex_alias_lb)" using lb by (simp add: delVip_def Let_def)
  then have "delVip ex_env_alias ex_key ex_alias_lb = (True, snd (delVip ex_env_alias ex_key ex_alias_lb))" by (metis (full_types) prod.collapse)
  from alias_delete_removes_other_service [OF keys(1,2) lb(1,2) keys(3) lb(3,5) this] show ?thesis by simp
qed

theorem last_quic_id_is_not_programmed_witness:
  "bpfFailedCalls (lbStats (modifyQuicRealsMapping ex_env ADD [\<lparr>qr_address = ''10.0.0.1'', qr_id = 65535\<rparr>]
     (ex_routed\<lparr>kernel := ex_kernel\<lparr>dp := (dp ex_kernel)\<lparr>quic_mapping := const_array MAX_QUIC_REALS 0\<rparr>\<rparr>\<rparr>))) = 1"
proof -
  let ?lb = "ex_routed\<lparr>kernel := ex_kernel\<lparr>dp := (dp ex_kernel)\<lparr>quic_mapping := const_array MAX_QUIC_REALS 0\<rparr>\<rparr>\<rparr>"
  let ?lb1 = "?lb\<lparr>lb_reals := [(ex_real_addr, \<lparr>rm_num = 0, refCount = 2\<rparr>)]\<rparr>"
  have acq: "increaseRefCountForReal ex_env ex_real_addr ?lb = (0, ?lb1)"
    by (simp add: increaseRefCountForReal_def ex_routed_def)
  from last_quic_id_is_not_programmed [OF _ _ _ _ ex_ip(1) _ acq _ refl] show ?thesis
    by (simp add: ex_routed_def KatranLb_fields_def ex_cfg_def ex_env_def)
qed

end
