(* ===== verification/Pcap.thy ===== *)
theory Pcap
  imports Prelude
begin

text \<open>
  Packet capture: the writers of \<open>src/katran/lib\<close> (\<open>FileWriter.cpp\<close>, \<open>IOBufWriter.cpp\<close>, \<open>ByteRangeWriter.cpp\<close>), the
  messages (\<open>PcapMsg\<close>, \<open>PcapMsgMeta\<close>), \<open>PcapWriter.cpp\<close> with both of its loops, and the reader of captures,
  \<open>testing/PcapParser.cpp\<close>. The locale \<open>data_writer\<close> is the interface between the writer and its storage. No
  buffer overflows, and a capture to files reads back as the packets that were accepted.
\<close>

section \<open>Storage\<close>

text \<open>
  The three implementations of \<open>DataWriter\<close>. A \<open>memcpy\<close> past the end of a buffer is \<open>None\<close>. A
  write to a file can fail: \<open>os n\<close> is \<open>None\<close> when the \<open>n\<close>-th write of the file succeeds, and
  otherwise how many bytes reached the file.
\<close>

record FileWriter =
  fw_name :: string
  fw_data :: "u8 list"
  fw_open :: bool
  fw_writtenBytes :: nat
  fw_writes :: nat

record IOBufWriter =
  ib_data :: "u8 list"
  ib_capacity :: nat

record ByteRangeWriter =
  br_data :: "u8 list"
  br_room :: nat
  br_writtenBytes :: nat

datatype DataWriter = File FileWriter | IOBuf IOBufWriter | ByteRange ByteRangeWriter

definition FileWriter_new :: "string \<Rightarrow> FileWriter" where
  "FileWriter_new name = \<lparr>fw_name = name, fw_data = [], fw_open = True, fw_writtenBytes = 0, fw_writes = 0\<rparr>"

definition FileWriter_writeData :: "(nat \<Rightarrow> nat option) \<Rightarrow> u8 list \<Rightarrow> FileWriter \<Rightarrow> FileWriter" where
  "FileWriter_writeData os bs w =
     (let res = (if fw_open w then os (fw_writes w) else Some 0);
          w = w\<lparr>fw_writes := Suc (fw_writes w)\<rparr>
      in case res of
           None \<Rightarrow> w\<lparr>fw_data := fw_data w @ bs, fw_writtenBytes := fw_writtenBytes w + length bs\<rparr>
         | Some n \<Rightarrow> w\<lparr>fw_data := fw_data w @ take n bs\<rparr>)"

definition FileWriter_stop :: "FileWriter \<Rightarrow> FileWriter" where
  "FileWriter_stop w = w\<lparr>fw_open := False\<rparr>"

definition FileWriter_restart :: "FileWriter \<Rightarrow> FileWriter" where
  "FileWriter_restart w = w\<lparr>fw_open := True, fw_data := []\<rparr>"

definition IOBufWriter_writeData :: "u8 list \<Rightarrow> IOBufWriter \<Rightarrow> IOBufWriter option" where
  "IOBufWriter_writeData bs w =
     (if length bs > ib_capacity w - length (ib_data w) then None else Some (w\<lparr>ib_data := ib_data w @ bs\<rparr>))"

definition IOBufWriter_available :: "nat \<Rightarrow> IOBufWriter \<Rightarrow> bool" where
  "IOBufWriter_available amount w \<longleftrightarrow> ib_capacity w - length (ib_data w) \<ge> amount"

definition IOBufWriter_restart :: "IOBufWriter \<Rightarrow> IOBufWriter" where
  "IOBufWriter_restart w = w\<lparr>ib_data := []\<rparr>"

definition ByteRangeWriter_writeData :: "u8 list \<Rightarrow> ByteRangeWriter \<Rightarrow> ByteRangeWriter option" where
  "ByteRangeWriter_writeData bs w =
     (if length bs > br_room w then None
      else Some (w\<lparr>br_data := br_data w @ bs, br_room := br_room w - length bs, br_writtenBytes := br_writtenBytes w + length bs\<rparr>))"

definition ByteRangeWriter_available :: "nat \<Rightarrow> ByteRangeWriter \<Rightarrow> bool" where
  "ByteRangeWriter_available amount w \<longleftrightarrow> br_room w \<ge> amount"

text \<open>The virtual calls.\<close>

fun writeData :: "(nat \<Rightarrow> nat option) \<Rightarrow> u8 list \<Rightarrow> DataWriter \<Rightarrow> DataWriter option" where
  "writeData os bs (File w) = Some (File (FileWriter_writeData os bs w))"
| "writeData os bs (IOBuf w) = map_option IOBuf (IOBufWriter_writeData bs w)"
| "writeData os bs (ByteRange w) = map_option ByteRange (ByteRangeWriter_writeData bs w)"

fun available :: "nat \<Rightarrow> DataWriter \<Rightarrow> bool" where
  "available amount (File w) = True"
| "available amount (IOBuf w) = IOBufWriter_available amount w"
| "available amount (ByteRange w) = ByteRangeWriter_available amount w"

fun restart :: "DataWriter \<Rightarrow> DataWriter" where
  "restart (File w) = File (FileWriter_restart w)"
| "restart (IOBuf w) = IOBuf (IOBufWriter_restart w)"
| "restart (ByteRange w) = ByteRange w"

fun stop :: "DataWriter \<Rightarrow> DataWriter" where
  "stop (File w) = File (FileWriter_stop w)"
| "stop (IOBuf w) = IOBuf w"
| "stop (ByteRange w) = ByteRange w"

text \<open>Nothing adds to \<open>writtenBytes_\<close> of a buffer.\<close>

fun writtenBytes :: "DataWriter \<Rightarrow> nat" where
  "writtenBytes (File w) = fw_writtenBytes w"
| "writtenBytes (IOBuf w) = 0"
| "writtenBytes (ByteRange w) = br_writtenBytes w"

fun contents :: "DataWriter \<Rightarrow> u8 list" where
  "contents (File w) = fw_data w"
| "contents (IOBuf w) = ib_data w"
| "contents (ByteRange w) = br_data w"

section \<open>Messages\<close>

record PcapMsg =
  pckt :: "u8 list option"
  origLen :: u32
  capturedLen :: u32

text \<open>\<open>copyBuffer\<close> reads \<open>capturedLen\<close> bytes from the pointer: past the end of the data it is \<open>None\<close>.\<close>

definition PcapMsg_new :: "u8 list option \<Rightarrow> u32 \<Rightarrow> u32 \<Rightarrow> PcapMsg option" where
  "PcapMsg_new p orig captured =
     (case p of
        None \<Rightarrow> Some \<lparr>pckt = None, origLen = orig, capturedLen = captured\<rparr>
      | Some bs \<Rightarrow>
          if unat captured > length bs then None
          else Some \<lparr>pckt = Some (take (unat captured) bs), origLen = orig, capturedLen = captured\<rparr>)"

definition emptyMsg :: "PcapMsg \<Rightarrow> bool" where
  "emptyMsg m \<longleftrightarrow> pckt m = None"

definition trim :: "u32 \<Rightarrow> PcapMsg \<Rightarrow> PcapMsg" where
  "trim snaplen m = m\<lparr>capturedLen := min (capturedLen m) snaplen\<rparr>"

record PcapMsgMeta =
  msg :: PcapMsg
  event :: u32
  msg_packetLimit :: u32
  isRestart :: bool
  isControl :: bool
  isStop :: bool
  isShutdown :: bool

definition PcapMsgMeta_empty :: PcapMsgMeta where
  "PcapMsgMeta_empty = \<lparr>msg = \<lparr>pckt = None, origLen = 0, capturedLen = 0\<rparr>, event = 0, msg_packetLimit = 0,
     isRestart = False, isControl = False, isStop = False, isShutdown = False\<rparr>"

definition PcapMsgMeta_new :: "PcapMsg \<Rightarrow> u32 \<Rightarrow> PcapMsgMeta" where
  "PcapMsgMeta_new m e = PcapMsgMeta_empty\<lparr>msg := m, event := e\<rparr>"

section \<open>The file format\<close>

record pcap_hdr_s =
  magic_number :: u32
  version_major :: u16
  version_minor :: u16
  thiszone :: u32
  sigfigs :: u32
  hdr_snaplen :: u32
  network :: u32

record pcaprec_hdr_s =
  ts_sec :: u32
  ts_usec :: u32
  incl_len :: u32
  orig_len :: u32

definition sizeof_pcap_hdr :: nat where [simp]: "sizeof_pcap_hdr = 24"
definition sizeof_pcaprec_hdr :: nat where [simp]: "sizeof_pcaprec_hdr = 16"

definition enc_pcap_hdr :: "pcap_hdr_s \<Rightarrow> u8 list" where
  "enc_pcap_hdr h = bytes32 (magic_number h) @ bytes16 (version_major h) @ bytes16 (version_minor h) @
     bytes32 (thiszone h) @ bytes32 (sigfigs h) @ bytes32 (hdr_snaplen h) @ bytes32 (network h)"

definition enc_pcaprec_hdr :: "pcaprec_hdr_s \<Rightarrow> u8 list" where
  "enc_pcaprec_hdr h = bytes32 (ts_sec h) @ bytes32 (ts_usec h) @ bytes32 (incl_len h) @ bytes32 (orig_len h)"

definition kPcapWriterMagic :: u32 where [simp]: "kPcapWriterMagic = 0xa1b2c3d4"
definition kVersionMajor :: u16 where [simp]: "kVersionMajor = 2"
definition kVersionMinor :: u16 where [simp]: "kVersionMinor = 4"
definition kGmt :: u32 where [simp]: "kGmt = 0"
definition kAccuracy :: u32 where [simp]: "kAccuracy = 0"
definition kMaxSnapLen :: u32 where [simp]: "kMaxSnapLen = 0xFFFF"
definition kEthernet :: u32 where [simp]: "kEthernet = 1"
definition kDefaultWriter :: u32 where [simp]: "kDefaultWriter = 0"


section \<open>The writer\<close>

text \<open>\<open>clock_reads\<close> of the writer counts the calls of \<open>now\<close>; \<open>now n\<close> is the \<open>n\<close>-th reading in microseconds.\<close>

record PcapWriter =
  dataWriters :: "DataWriter list"
  headerExists :: "bool list"
  packetAmount :: u32
  packetLimit :: u32
  bufferFull :: u32
  snaplen :: u32
  reads :: nat

record PcapWriterStats =
  st_limit :: u32
  st_amount :: u32
  st_bufferFull :: u32

record pcap_env =
  os_write :: "nat \<Rightarrow> nat \<Rightarrow> nat option"
  now :: "nat \<Rightarrow> u64"

definition PcapWriter_single :: "DataWriter \<Rightarrow> u32 \<Rightarrow> u32 \<Rightarrow> PcapWriter" where
  "PcapWriter_single dataWriter limit snap =
     \<lparr>dataWriters = [dataWriter], headerExists = [False], packetAmount = 0, packetLimit = limit, bufferFull = 0,
      snaplen = snap, reads = 0\<rparr>"

definition PcapWriter_multi :: "DataWriter list \<Rightarrow> u32 \<Rightarrow> u32 \<Rightarrow> PcapWriter" where
  "PcapWriter_multi ws limit snap =
     \<lparr>dataWriters = ws, headerExists = map (\<lambda>_. False) ws, packetAmount = 0, packetLimit = limit, bufferFull = 0,
      snaplen = snap, reads = 0\<rparr>"

text \<open>\<open>dataWriters_[id]->writeData(...)\<close>; \<open>os_write E id\<close> decides on the writes to the file of this writer.\<close>

definition write_to :: "pcap_env \<Rightarrow> nat \<Rightarrow> u8 list \<Rightarrow> PcapWriter \<Rightarrow> PcapWriter option" where
  "write_to E i bs w = do {
     d \<leftarrow> writeData (os_write E i) bs (dataWriters w ! i);
     Some (w\<lparr>dataWriters := (dataWriters w)[i := d]\<rparr>)
   }"

definition rec_time :: "u64 \<Rightarrow> u32 \<times> u32" where
  "rec_time unix_usec =
     (let now_sec = ucast (unix_usec div 1000000) :: u32;
          now_usec = ucast (unix_usec - ucast (now_sec * 1000000))
      in (now_sec, now_usec))"

definition getRawBuffer :: "PcapMsg \<Rightarrow> nat \<Rightarrow> u8 list option" where
  "getRawBuffer m n = (case pckt m of None \<Rightarrow> None | Some bs \<Rightarrow> ldn bs 0 n)"

definition writePacket :: "pcap_env \<Rightarrow> PcapMsg \<Rightarrow> u32 \<Rightarrow> PcapWriter \<Rightarrow> PcapWriter option" where
  "writePacket E m writerId w =
     (let (now_sec, now_usec) = rec_time (now E (reads w));
          w = w\<lparr>reads := Suc (reads w)\<rparr>;
          rec_hdr = \<lparr>ts_sec = now_sec, ts_usec = now_usec, incl_len = capturedLen m, orig_len = origLen m\<rparr>
      in if unat writerId \<ge> length (dataWriters w) then Some w
         else do {
           w \<leftarrow> write_to E (unat writerId) (enc_pcaprec_hdr rec_hdr) w;
           bs \<leftarrow> getRawBuffer m (unat (capturedLen m));
           write_to E (unat writerId) bs w
         })"

definition snap_of :: "u32 \<Rightarrow> u32" where
  "snap_of s = (if s \<noteq> 0 then s else kMaxSnapLen)"

definition writePcapHeader :: "pcap_env \<Rightarrow> u32 \<Rightarrow> PcapWriter \<Rightarrow> (bool \<times> PcapWriter) option" where
  "writePcapHeader E writerId w =
     (let i = unat writerId in
      if i \<ge> length (dataWriters w) then Some (False, w)
      else if headerExists w ! i then Some (True, w)
      else if \<not> available sizeof_pcap_hdr (dataWriters w ! i) then Some (False, w)
      else do {
        w \<leftarrow> write_to E i (enc_pcap_hdr \<lparr>magic_number = kPcapWriterMagic, version_major = kVersionMajor,
               version_minor = kVersionMinor, thiszone = kGmt, sigfigs = kAccuracy, hdr_snaplen = snap_of (snaplen w),
               network = kEthernet\<rparr>) w;
        Some (True, w\<lparr>headerExists := (headerExists w)[i := True]\<rparr>)
      })"

text \<open>
  The loops read from a queue. Here they get the messages that arrive; \<open>Blocked\<close> is a reader that waits for
  more, \<open>Returned\<close> one that has left its loop.
\<close>

datatype run_state = Blocked | Returned

fun run_loop :: "pcap_env \<Rightarrow> u32 \<Rightarrow> PcapMsg list \<Rightarrow> PcapWriter \<Rightarrow> (run_state \<times> PcapWriter) option" where
  "run_loop E snap queue w =
     (if \<not> (packetLimit w = 0 \<or> packetAmount w < packetLimit w) then Some (Returned, w)
      else (case queue of
          [] \<Rightarrow> Some (Blocked, w)
        | m # queue \<Rightarrow>
            let m = trim snap m in
            if emptyMsg m then Some (Returned, w)
            else if \<not> available (unat (capturedLen m) + sizeof_pcaprec_hdr) (dataWriters w ! unat kDefaultWriter)
            then Some (Returned, w\<lparr>bufferFull := bufferFull w + 1\<rparr>)
            else do {
              w \<leftarrow> writePacket E m kDefaultWriter w;
              run_loop E snap queue (w\<lparr>packetAmount := packetAmount w + 1\<rparr>)
            }))"

declare run_loop.simps [simp del]

definition run :: "pcap_env \<Rightarrow> PcapMsg list \<Rightarrow> PcapWriter \<Rightarrow> (run_state \<times> PcapWriter) option" where
  "run E queue w = do {
     (ok, w) \<leftarrow> writePcapHeader E kDefaultWriter w;
     if \<not> ok then Some (Returned, w) else run_loop E (snap_of (snaplen w)) queue w
   }"

definition getStats :: "PcapWriter \<Rightarrow> PcapWriterStats" where
  "getStats w = \<lparr>st_limit = packetLimit w, st_amount = packetAmount w, st_bufferFull = bufferFull w\<rparr>"

definition restartWriters :: "u32 \<Rightarrow> PcapWriter \<Rightarrow> PcapWriter" where
  "restartWriters limit w =
     w\<lparr>headerExists := map (\<lambda>_. False) (headerExists w), dataWriters := map restart (dataWriters w),
       packetLimit := limit, packetAmount := 0\<rparr>"

definition stopWriters :: "PcapWriter \<Rightarrow> PcapWriter" where
  "stopWriters w = w\<lparr>dataWriters := map stop (dataWriters w), packetLimit := 0, packetAmount := 0\<rparr>"

definition handle_control :: "PcapMsgMeta \<Rightarrow> PcapWriter \<Rightarrow> PcapWriter" where
  "handle_control m w =
     (if isRestart m then restartWriters (msg_packetLimit m) w else if isStop m then stopWriters w else w)"

definition handle_packet :: "pcap_env \<Rightarrow> PcapMsgMeta \<Rightarrow> PcapWriter \<Rightarrow> PcapWriter option" where
  "handle_packet E m w =
     (if packetAmount w \<ge> packetLimit w then Some w
      else do {
        (ok, w) \<leftarrow> writePcapHeader E (event m) w;
        if \<not> ok then Some w
        else
          let p = trim (snap_of (snaplen w)) (msg m) in
          if \<not> available (unat (capturedLen p) + sizeof_pcaprec_hdr) (dataWriters w ! unat (event m))
          then Some (w\<lparr>bufferFull := bufferFull w + 1\<rparr>)
          else do {
            w \<leftarrow> writePacket E p (event m) w;
            Some (w\<lparr>packetAmount := packetAmount w + 1\<rparr>)
          }
      })"

fun runMulti :: "pcap_env \<Rightarrow> PcapMsgMeta list \<Rightarrow> PcapWriter \<Rightarrow> (run_state \<times> PcapWriter) option" where
  "runMulti E [] w = Some (Blocked, w)"
| "runMulti E (m # queue) w =
     (if isControl m
      then (if isShutdown m then Some (Returned, w) else runMulti E queue (handle_control m w))
      else do { w \<leftarrow> handle_packet E m w; runMulti E queue w })"

section \<open>Reading a capture\<close>

text \<open>
  \<open>PcapParser\<close>: \<open>rest\<close> is what follows the position in the file. \<open>readFile\<close> delivers fewer bytes at the
  end of the file, which is an error.
\<close>

record PcapParser =
  firstRead :: bool
  parser_snaplen :: u32
  rest :: "u8 list"

definition getPacketFromPcap :: "PcapParser \<Rightarrow> u8 list option \<times> PcapParser" where
  "getPacketFromPcap p =
     (let first = firstRead p;
          p = p\<lparr>firstRead := False\<rparr>
      in if first \<and> length (rest p) < sizeof_pcap_hdr then (None, p\<lparr>rest := []\<rparr>)
         else
           let p = (if first then p\<lparr>parser_snaplen := le32 (slice (rest p) 16 4), rest := drop sizeof_pcap_hdr (rest p)\<rparr> else p)
           in if length (rest p) < sizeof_pcaprec_hdr then (None, p\<lparr>rest := []\<rparr>)
              else
                let pkt_len = le32 (slice (rest p) 8 4);
                    p = p\<lparr>rest := drop sizeof_pcaprec_hdr (rest p)\<rparr>
                in if pkt_len > parser_snaplen p then (None, p)
                   else if length (rest p) < unat pkt_len then (None, p\<lparr>rest := []\<rparr>)
                   else (Some (take (unat pkt_len) (rest p)), p\<lparr>rest := drop (unat pkt_len) (rest p)\<rparr>))"

lemma getPacketFromPcap_shorter: "getPacketFromPcap p = (Some bs, q) \<Longrightarrow> length (rest q) < length (rest p)"
  by (auto simp: getPacketFromPcap_def Let_def split: if_splits)

function read_all :: "PcapParser \<Rightarrow> u8 list list" where
  "read_all p = (case getPacketFromPcap p of (None, _) \<Rightarrow> [] | (Some bs, q) \<Rightarrow> bs # read_all q)"
  by auto
termination by (relation "measure (\<lambda>p. length (rest p))") (auto dest: getPacketFromPcap_shorter [OF sym])

declare read_all.simps [simp del]

definition pcap_packets :: "u8 list \<Rightarrow> u8 list list" where
  "pcap_packets file = read_all \<lparr>firstRead = True, parser_snaplen = 0, rest = file\<rparr>"


section \<open>What a writer promises\<close>

text \<open>
  The contract of \<open>DataWriter\<close> that \<open>PcapWriter\<close> relies on: within the space that \<open>available\<close> reported
  nothing is written past the end, and reliable storage appends.
\<close>

locale data_writer =
  fixes emit :: "(nat \<Rightarrow> nat option) \<Rightarrow> u8 list \<Rightarrow> 'w \<Rightarrow> 'w option"
    and avail :: "nat \<Rightarrow> 'w \<Rightarrow> bool"
    and cont :: "'w \<Rightarrow> u8 list"
    and reliable :: "(nat \<Rightarrow> nat option) \<Rightarrow> 'w \<Rightarrow> bool"
  assumes within: "avail n w \<Longrightarrow> length bs \<le> n \<Longrightarrow> \<exists>w'. emit os bs w = Some w' \<and> avail (n - length bs) w'"
    and appends: "reliable os w \<Longrightarrow> emit os bs w = Some w' \<Longrightarrow> cont w' = cont w @ bs \<and> reliable os w'"
begin

lemma two_writes:
  assumes "avail (length a + length b) w"
  shows "\<exists>w1 w2. emit os a w = Some w1 \<and> emit os b w1 = Some w2 \<and>
    (reliable os w \<longrightarrow> cont w2 = cont w @ a @ b \<and> reliable os w2)"
proof -
  obtain w1 where w1: "emit os a w = Some w1" "avail (length b) w1" using within [OF assms, of a] by auto
  then obtain w2 where w2: "emit os b w1 = Some w2" using within [of "length b" w1 b] by auto
  then show ?thesis using w1(1) appends by (metis append.assoc)
qed

end

fun reliable_writer :: "(nat \<Rightarrow> nat option) \<Rightarrow> DataWriter \<Rightarrow> bool" where
  "reliable_writer os (File w) \<longleftrightarrow> fw_open w \<and> (\<forall>n. os n = None)"
| "reliable_writer os (IOBuf w) \<longleftrightarrow> True"
| "reliable_writer os (ByteRange w) \<longleftrightarrow> True"

interpretation storage: data_writer writeData available contents reliable_writer
proof
  fix n w os and bs :: "u8 list" assume a: "available n w" "length bs \<le> n"
  show "\<exists>w'. writeData os bs w = Some w' \<and> available (n - length bs) w'"
    using a by (cases w) (auto simp: IOBufWriter_available_def IOBufWriter_writeData_def ByteRangeWriter_available_def
        ByteRangeWriter_writeData_def)
next
  fix os w bs w' assume "reliable_writer os w" "writeData os bs w = Some w'"
  then show "contents w' = contents w @ bs \<and> reliable_writer os w'"
    by (cases w) (auto simp: FileWriter_writeData_def IOBufWriter_writeData_def ByteRangeWriter_writeData_def Let_def split: if_splits)
qed

section \<open>No write past the end of a buffer\<close>

definition msg_ok :: "PcapMsg \<Rightarrow> bool" where
  "msg_ok m \<longleftrightarrow> (\<exists>bs. pckt m = Some bs \<and> length bs = unat (capturedLen m))"

definition writer_ok :: "PcapWriter \<Rightarrow> bool" where
  "writer_ok w \<longleftrightarrow> length (headerExists w) = length (dataWriters w)"

lemma rec_hdr_length [simp]: "length (enc_pcaprec_hdr h) = 16" "length (enc_pcap_hdr g) = 24"
  by (simp_all add: enc_pcaprec_hdr_def enc_pcap_hdr_def)

lemma trim_raw:
  assumes "msg_ok m"
  shows "getRawBuffer (trim snap m) (unat (capturedLen (trim snap m))) = Some (take (unat snap) (the (pckt m)))"
    "unat (capturedLen (trim snap m)) = length (take (unat snap) (the (pckt m)))"
  using assms by (auto simp: msg_ok_def getRawBuffer_def trim_def ldn_def slice_def min_def word_le_nat_alt)

lemma write_file: "writeData os bs (File f) = Some d \<Longrightarrow> \<exists>f'. d = File f'"
  by auto

text \<open>One packet that fits: both parts are appended, with the right length in the record.\<close>

lemma writePacket_fits:
  assumes m: "msg_ok m" and i: "unat wid < length (dataWriters w)" and p: "p = trim snap m"
    and av: "available (unat (capturedLen p) + sizeof_pcaprec_hdr) (dataWriters w ! unat wid)"
  shows "\<exists>h d. writePacket E p wid w = Some (w\<lparr>reads := Suc (reads w), dataWriters := (dataWriters w)[unat wid := d]\<rparr>) \<and>
    unat (incl_len h) = length (take (unat snap) (the (pckt m))) \<and>
    (reliable_writer (os_write E (unat wid)) (dataWriters w ! unat wid) \<longrightarrow>
      contents d = contents (dataWriters w ! unat wid) @ enc_pcaprec_hdr h @ take (unat snap) (the (pckt m)) \<and>
      reliable_writer (os_write E (unat wid)) d) \<and>
    ((\<exists>f. dataWriters w ! unat wid = File f) \<longrightarrow> (\<exists>f. d = File f))"
proof -
  let ?bs = "take (unat snap) (the (pckt m))" and ?i = "unat wid"
  define h where "h = (case rec_time (now E (reads w)) of (s, u) \<Rightarrow> \<lparr>ts_sec = s, ts_usec = u, incl_len = capturedLen p, orig_len = origLen p\<rparr>)"
  have len: "unat (incl_len h) = length ?bs" using trim_raw(2) [OF m, of snap] p by (simp add: h_def split: prod.split)
  have raw: "getRawBuffer p (unat (capturedLen p)) = Some ?bs" using trim_raw(1) [OF m, of snap] p by simp
  have "available (length (enc_pcaprec_hdr h) + length ?bs) (dataWriters w ! ?i)"
    using av trim_raw(2) [OF m, of snap] p by (simp add: add.commute)
  from storage.two_writes [OF this, of "os_write E ?i"] obtain d1 d where
    d: "writeData (os_write E ?i) (enc_pcaprec_hdr h) (dataWriters w ! ?i) = Some d1" "writeData (os_write E ?i) ?bs d1 = Some d"
      "reliable_writer (os_write E ?i) (dataWriters w ! ?i) \<longrightarrow>
        contents d = contents (dataWriters w ! ?i) @ enc_pcaprec_hdr h @ ?bs \<and> reliable_writer (os_write E ?i) d" by blast
  have "writePacket E p wid w = Some (w\<lparr>reads := Suc (reads w), dataWriters := (dataWriters w)[?i := d]\<rparr>)"
    using d(1,2) i raw unfolding writePacket_def write_to_def
    by (auto simp: h_def Let_def split: prod.splits)
  moreover have "(\<exists>f. dataWriters w ! ?i = File f) \<longrightarrow> (\<exists>f. d = File f)" using d(1,2) write_file by metis
  ultimately show ?thesis using len d(3) by blast
qed

lemma writePcapHeader_safe:
  assumes "writer_ok w"
  shows "\<exists>ok w'. writePcapHeader E wid w = Some (ok, w') \<and> writer_ok w' \<and> length (dataWriters w') = length (dataWriters w) \<and>
    packetAmount w' = packetAmount w \<and> packetLimit w' = packetLimit w \<and> snaplen w' = snaplen w \<and> (ok \<longrightarrow> unat wid < length (dataWriters w))"
proof -
  have "\<exists>d. writeData (os_write E (unat wid)) (enc_pcap_hdr h) (dataWriters w ! unat wid) = Some d"
    if "available sizeof_pcap_hdr (dataWriters w ! unat wid)" for h
    using storage.within [OF that, of "enc_pcap_hdr h"] by auto
  note safe = this
  show ?thesis
  proof (cases "unat wid < length (dataWriters w) \<and> \<not> headerExists w ! unat wid \<and> available sizeof_pcap_hdr (dataWriters w ! unat wid)")
    case True
    let ?h = "\<lparr>magic_number = kPcapWriterMagic, version_major = kVersionMajor, version_minor = kVersionMinor, thiszone = kGmt,
      sigfigs = kAccuracy, hdr_snaplen = snap_of (snaplen w), network = kEthernet\<rparr>"
    obtain d where "writeData (os_write E (unat wid)) (enc_pcap_hdr ?h) (dataWriters w ! unat wid) = Some d" using safe True by blast
    then show ?thesis using assms True by (auto simp: writePcapHeader_def write_to_def writer_ok_def Let_def)
  next
    case False
    then show ?thesis using assms by (auto simp: writePcapHeader_def Let_def)
  qed
qed

lemma handle_packet_safe:
  assumes "writer_ok w" "msg_ok (msg m)"
  shows "\<exists>w'. handle_packet E m w = Some w' \<and> writer_ok w' \<and> (packetAmount w \<le> packetLimit w \<longrightarrow> packetAmount w' \<le> packetLimit w') \<and>
    packetLimit w' = packetLimit w \<and> length (dataWriters w') = length (dataWriters w)"
proof (cases "packetAmount w \<ge> packetLimit w")
  case True
  then show ?thesis using assms by (simp add: handle_packet_def)
next
  case False
  obtain ok w1 where h: "writePcapHeader E (event m) w = Some (ok, w1)" "writer_ok w1" "length (dataWriters w1) = length (dataWriters w)"
    "packetAmount w1 = packetAmount w" "packetLimit w1 = packetLimit w" "ok \<longrightarrow> unat (event m) < length (dataWriters w)"
    using writePcapHeader_safe [OF assms(1), of E "event m"] by blast
  let ?p = "trim (snap_of (snaplen w1)) (msg m)"
  have inc: "packetAmount w1 + 1 \<le> packetLimit w1" using False h(4,5) by (simp add: inc_le not_le)
  show ?thesis
  proof (cases "ok \<and> available (unat (capturedLen ?p) + sizeof_pcaprec_hdr) (dataWriters w1 ! unat (event m))")
    case True
    then obtain d where "writePacket E ?p (event m) w1 = Some (w1\<lparr>reads := Suc (reads w1), dataWriters := (dataWriters w1)[unat (event m) := d]\<rparr>)"
      using writePacket_fits [OF assms(2), of "event m" w1 ?p "snap_of (snaplen w1)" E] h(3,6) by fastforce
    then show ?thesis using False True h inc by (simp add: handle_packet_def writer_ok_def Let_def)
  next
    case no: False
    then show ?thesis using False h by (cases ok) (simp_all add: handle_packet_def writer_ok_def Let_def)
  qed
qed


lemma runMulti_safe:
  assumes "\<forall>m \<in> set queue. isControl m \<or> msg_ok (msg m)" "writer_ok w" "packetAmount w \<le> packetLimit w"
  shows "\<exists>st w'. runMulti E queue w = Some (st, w') \<and> packetAmount w' \<le> packetLimit w' \<and> length (dataWriters w') = length (dataWriters w) \<and>
    (st = Returned \<longleftrightarrow> (\<exists>m \<in> set queue. isControl m \<and> isShutdown m))"
  using assms
proof (induction queue arbitrary: w)
  case (Cons m queue)
  show ?case
  proof (cases "isControl m")
    case True
    have "writer_ok (handle_control m w)" "packetAmount (handle_control m w) \<le> packetLimit (handle_control m w)" "length (dataWriters (handle_control m w)) = length (dataWriters w)"
      using Cons.prems(2,3) by (simp_all add: handle_control_def restartWriters_def stopWriters_def writer_ok_def)
    then show ?thesis using True Cons.IH [of "handle_control m w"] Cons.prems by simp
  next
    case False
    then obtain w1 where "handle_packet E m w = Some w1" "writer_ok w1" "packetAmount w1 \<le> packetLimit w1" "length (dataWriters w1) = length (dataWriters w)"
      using handle_packet_safe [OF Cons.prems(2), of m E] Cons.prems(1,3) by auto
    then show ?thesis using False Cons.IH [of w1] Cons.prems(1) by simp
  qed
qed simp

section \<open>A capture reads back\<close>

text \<open>The records of a file, with any time stamps and original lengths.\<close>

inductive pcap_body :: "u32 \<Rightarrow> u8 list \<Rightarrow> u8 list list \<Rightarrow> bool" for snap :: u32 where
  body_end: "pcap_body snap [] []"
| body_rec: "pcap_body snap bs ps \<Longrightarrow> unat (incl_len h) = length p \<Longrightarrow> length p \<le> unat snap \<Longrightarrow>
    pcap_body snap (enc_pcaprec_hdr h @ p @ bs) (p # ps)"

lemma pcap_body_snoc:
  assumes "pcap_body snap bs ps" "unat (incl_len h) = length p" "length p \<le> unat snap"
  shows "pcap_body snap (bs @ enc_pcaprec_hdr h @ p) (ps @ [p])"
  using assms
proof (induction rule: pcap_body.induct)
  case body_end
  then show ?case using pcap_body.body_rec [OF pcap_body.body_end, of h p] by simp
next
  case (body_rec bs ps h' p')
  then show ?case using pcap_body.body_rec [of snap "bs @ enc_pcaprec_hdr h @ p" "ps @ [p]" h' p'] by simp
qed

lemma read_body:
  assumes "pcap_body snap bs ps"
  shows "read_all \<lparr>firstRead = False, parser_snaplen = snap, rest = bs\<rparr> = ps"
  using assms
proof (induction rule: pcap_body.induct)
  case body_end
  show ?case by (subst read_all.simps) (simp add: getPacketFromPcap_def)
next
  case (body_rec bs ps h p)
  have "slice (enc_pcaprec_hdr h @ p @ bs) 8 4 = bytes32 (incl_len h)" by (simp add: enc_pcaprec_hdr_def slice_def)
  then have "getPacketFromPcap \<lparr>firstRead = False, parser_snaplen = snap, rest = enc_pcaprec_hdr h @ p @ bs\<rparr> =
      (Some p, \<lparr>firstRead = False, parser_snaplen = snap, rest = bs\<rparr>)"
    using body_rec.hyps(2,3) by (auto simp: getPacketFromPcap_def Let_def word_less_nat_alt)
  then show ?case using body_rec.IH by (subst read_all.simps) simp
qed

definition file_hdr :: "u32 \<Rightarrow> u8 list" where
  "file_hdr snap = enc_pcap_hdr \<lparr>magic_number = kPcapWriterMagic, version_major = kVersionMajor, version_minor = kVersionMinor,
     thiszone = kGmt, sigfigs = kAccuracy, hdr_snaplen = snap, network = kEthernet\<rparr>"

lemma read_file:
  assumes "pcap_body snap bs ps"
  shows "pcap_packets (file_hdr snap @ bs) = ps"
proof -
  have "slice (file_hdr snap @ bs) 16 4 = bytes32 snap" "length (file_hdr snap) = 24"
    by (simp_all add: file_hdr_def enc_pcap_hdr_def slice_def)
  then have "getPacketFromPcap \<lparr>firstRead = True, parser_snaplen = 0, rest = file_hdr snap @ bs\<rparr> =
      getPacketFromPcap \<lparr>firstRead = False, parser_snaplen = snap, rest = bs\<rparr>"
    by (simp add: getPacketFromPcap_def)
  then have "pcap_packets (file_hdr snap @ bs) = read_all \<lparr>firstRead = False, parser_snaplen = snap, rest = bs\<rparr>"
    unfolding pcap_packets_def by (subst (1 2) read_all.simps) simp
  then show ?thesis using read_body [OF assms] by simp
qed

lemma read_empty: "pcap_packets [] = []"
  unfolding pcap_packets_def by (subst read_all.simps) (simp add: getPacketFromPcap_def)

text \<open>The specification of a capture to files: per event, the packets that were accepted since the last restart.\<close>

record capture =
  cap_limit :: u32
  cap_amount :: u32
  cap_log :: "nat \<Rightarrow> u8 list list"

definition capture_packet :: "nat \<Rightarrow> u32 \<Rightarrow> PcapMsgMeta \<Rightarrow> capture \<Rightarrow> capture" where
  "capture_packet n snap m c =
     (let e = unat (event m) in
      if cap_amount c \<ge> cap_limit c \<or> e \<ge> n then c
      else c\<lparr>cap_amount := cap_amount c + 1, cap_log := (cap_log c)(e := cap_log c e @ [take (unat snap) (the (pckt (msg m)))])\<rparr>)"

fun captured :: "nat \<Rightarrow> u32 \<Rightarrow> PcapMsgMeta list \<Rightarrow> capture \<Rightarrow> capture" where
  "captured n snap [] c = c"
| "captured n snap (m # queue) c =
     (if isControl m
      then (if isShutdown m then c
            else captured n snap queue
              (if isRestart m then \<lparr>cap_limit = msg_packetLimit m, cap_amount = 0, cap_log = (\<lambda>_. [])\<rparr>
               else if isStop m then c\<lparr>cap_limit := 0, cap_amount := 0\<rparr> else c))
      else captured n snap queue (capture_packet n snap m c))"

definition file_holds :: "u32 \<Rightarrow> u8 list list \<Rightarrow> bool \<Rightarrow> FileWriter \<Rightarrow> bool" where
  "file_holds snap log hdr f \<longleftrightarrow> (hdr \<longleftrightarrow> log \<noteq> []) \<and>
     (if hdr then \<exists>bs. fw_data f = file_hdr snap @ bs \<and> pcap_body snap bs log else fw_data f = [])"

definition captures :: "nat \<Rightarrow> u32 \<Rightarrow> PcapWriter \<Rightarrow> capture \<Rightarrow> bool" where
  "captures n snap w c \<longleftrightarrow> length (dataWriters w) = n \<and> length (headerExists w) = n \<and> snap_of (snaplen w) = snap \<and>
     packetLimit w = cap_limit c \<and> packetAmount w = cap_amount c \<and>
     (\<forall>i < n. \<exists>f. dataWriters w ! i = File f \<and> file_holds snap (cap_log c i) (headerExists w ! i) f \<and> (fw_open f \<or> packetLimit w = 0))"

definition reliable_env :: "pcap_env \<Rightarrow> bool" where
  "reliable_env E \<longleftrightarrow> (\<forall>i n. os_write E i n = None)"


lemma header_captures:
  assumes c: "captures n snap w c" and E: "reliable_env E" and i: "unat e < n" and lim: "packetLimit w \<noteq> 0"
  shows "\<exists>w' f bs. writePcapHeader E e w = Some (True, w') \<and> w' = w\<lparr>dataWriters := (dataWriters w)[unat e := File f],
      headerExists := (headerExists w)[unat e := True]\<rparr> \<and> fw_open f \<and> fw_data f = file_hdr snap @ bs \<and> pcap_body snap bs (cap_log c (unat e))"
proof -
  obtain f where f: "dataWriters w ! unat e = File f" "file_holds snap (cap_log c (unat e)) (headerExists w ! unat e) f" "fw_open f"
    using c i lim unfolding captures_def by blast
  have len: "length (dataWriters w) = n" "length (headerExists w) = n" "snap_of (snaplen w) = snap" using c by (simp_all add: captures_def)
  show ?thesis
  proof (cases "headerExists w ! unat e")
    case True
    then have "(dataWriters w)[unat e := File f] = dataWriters w" "(headerExists w)[unat e := True] = headerExists w"
      using True f(1) i len by (simp_all add: list_update_same_conv)
    then show ?thesis using True f i len by (intro exI [of _ w] exI [of _ f]) (auto simp: writePcapHeader_def file_holds_def)
  next
    case False
    then have "fw_data f = []" "cap_log c (unat e) = []" using f(2) by (auto simp: file_holds_def)
    let ?f = "FileWriter_writeData (os_write E (unat e)) (file_hdr snap) f"
    have "fw_data ?f = file_hdr snap" "fw_open ?f"
      using E f(3) \<open>fw_data f = []\<close> by (simp_all add: FileWriter_writeData_def reliable_env_def)
    moreover have "writePcapHeader E e w = Some (True, w\<lparr>dataWriters := (dataWriters w)[unat e := File ?f], headerExists := (headerExists w)[unat e := True]\<rparr>)"
      using False f(1) i len by (simp add: writePcapHeader_def write_to_def file_hdr_def Let_def)
    ultimately show ?thesis using pcap_body.body_end \<open>cap_log c (unat e) = []\<close> by (metis append_Nil2)
  qed
qed

lemma handle_packet_captures:
  assumes c: "captures n snap w c" and E: "reliable_env E" and m: "msg_ok (msg m)"
  shows "\<exists>w'. handle_packet E m w = Some w' \<and> captures n snap w' (capture_packet n snap m c)"
proof -
  let ?e = "unat (event m)" and ?p = "take (unat snap) (the (pckt (msg m)))"
  have len: "length (dataWriters w) = n" "length (headerExists w) = n" "snap_of (snaplen w) = snap"
    "packetLimit w = cap_limit c" "packetAmount w = cap_amount c" using c by (simp_all add: captures_def)
  consider "cap_amount c \<ge> cap_limit c" | "\<not> cap_amount c \<ge> cap_limit c" "?e \<ge> n" | "\<not> cap_amount c \<ge> cap_limit c" "?e < n" by linarith
  then show ?thesis
  proof cases
    case 1
    then show ?thesis using c len by (simp add: handle_packet_def capture_packet_def)
  next
    case 2
    then show ?thesis using c len by (simp add: handle_packet_def capture_packet_def writePcapHeader_def)
  next
    case 3
    have "packetLimit w \<noteq> 0" using 3(1) len by auto
    from header_captures [OF c E 3(2) this] obtain w1 f bs where
      w1: "writePcapHeader E (event m) w = Some (True, w1)" "w1 = w\<lparr>dataWriters := (dataWriters w)[?e := File f],
        headerExists := (headerExists w)[?e := True]\<rparr>" and f: "fw_open f" "fw_data f = file_hdr snap @ bs" "pcap_body snap bs (cap_log c ?e)" by blast
    have i1: "?e < length (dataWriters w1)" "dataWriters w1 ! ?e = File f" "snap_of (snaplen w1) = snap" using w1(2) 3(2) len by simp_all
    then have av: "available k (dataWriters w1 ! ?e)" for k by simp
    obtain h d where d: "writePacket E (trim snap (msg m)) (event m) w1 = Some (w1\<lparr>reads := Suc (reads w1), dataWriters := (dataWriters w1)[?e := d]\<rparr>)"
        "unat (incl_len h) = length ?p" "contents d = fw_data f @ enc_pcaprec_hdr h @ ?p" "reliable_writer (os_write E ?e) d" "\<exists>f. d = File f"
      using writePacket_fits [OF m i1(1) refl av, of E snap] i1(2) E f(1) by (auto simp: reliable_env_def)
    then obtain f' where f': "d = File f'" "fw_open f'" "fw_data f' = file_hdr snap @ bs @ enc_pcaprec_hdr h @ ?p" using f(2) by auto
    have body: "pcap_body snap (bs @ enc_pcaprec_hdr h @ ?p) (cap_log c ?e @ [?p])" by (rule pcap_body_snoc [OF f(3) d(2)]) simp
    let ?w = "w1\<lparr>reads := Suc (reads w1), dataWriters := (dataWriters w1)[?e := d], packetAmount := packetAmount w1 + 1\<rparr>"
    have "handle_packet E m w = Some ?w" using 3(1) w1(1) len i1(3) d(1) i1(2) by (simp add: handle_packet_def Let_def)
    moreover have "captures n snap ?w (capture_packet n snap m c)"
      unfolding captures_def
    proof (intro conjI allI impI)
      fix i assume i: "i < n"
      show "\<exists>f. dataWriters ?w ! i = File f \<and> file_holds snap (cap_log (capture_packet n snap m c) i) (headerExists ?w ! i) f \<and> (fw_open f \<or> packetLimit ?w = 0)"
      proof (cases "i = ?e")
        case True
        then show ?thesis using i f' body 3 len w1(2) by (auto simp: file_holds_def capture_packet_def Let_def)
      next
        case False
        then show ?thesis using i c w1(2) 3 by (auto simp: captures_def capture_packet_def Let_def)
      qed
    qed (use len w1(2) 3 in \<open>simp_all add: capture_packet_def Let_def\<close>)
    ultimately show ?thesis by blast
  qed
qed

lemma handle_control_captures:
  assumes "captures n snap w c"
  shows "captures n snap (handle_control m w) (if isRestart m then \<lparr>cap_limit = msg_packetLimit m, cap_amount = 0, cap_log = (\<lambda>_. [])\<rparr>
    else if isStop m then c\<lparr>cap_limit := 0, cap_amount := 0\<rparr> else c)"
  using assms by (fastforce simp: captures_def handle_control_def restartWriters_def stopWriters_def file_holds_def FileWriter_restart_def FileWriter_stop_def)

lemma runMulti_captures:
  assumes "captures n snap w c" "reliable_env E" "\<forall>m \<in> set queue. isControl m \<or> msg_ok (msg m)"
  shows "\<exists>st w'. runMulti E queue w = Some (st, w') \<and> captures n snap w' (captured n snap queue c)"
  using assms(1,3)
proof (induction queue arbitrary: w c)
  case (Cons m queue)
  show ?case
  proof (cases "isControl m")
    case True
    then show ?thesis using Cons.IH [OF handle_control_captures [OF Cons.prems(1), of m]] Cons.prems by simp
  next
    case False
    then obtain w1 where "handle_packet E m w = Some w1" "captures n snap w1 (capture_packet n snap m c)"
      using handle_packet_captures [OF Cons.prems(1) assms(2)] Cons.prems(2) by auto
    then show ?thesis using False Cons.IH Cons.prems(2) by simp
  qed
qed simp

lemma captures_read: "captures n snap w c \<Longrightarrow> i < n \<Longrightarrow> pcap_packets (contents (dataWriters w ! i)) = cap_log c i"
  using read_file read_empty by (fastforce simp: captures_def file_holds_def split: if_splits)

text \<open>The packets that the limits allow: the limit given last, by the constructor or by a restart.\<close>

fun granted :: "u32 \<Rightarrow> PcapMsgMeta list \<Rightarrow> u32" where
  "granted limit [] = limit"
| "granted limit (m # queue) =
     (if isControl m \<and> isShutdown m then limit
      else granted (if isControl m \<and> isRestart m then msg_packetLimit m else limit) queue)"

definition within :: "nat \<Rightarrow> u32 \<Rightarrow> capture \<Rightarrow> bool" where
  "within n limit c \<longleftrightarrow> (\<Sum>i<n. length (cap_log c i)) \<le> unat limit \<and>
     (cap_limit c = 0 \<or> cap_limit c = limit \<and> (\<Sum>i<n. length (cap_log c i)) = unat (cap_amount c))"

lemma capture_packet_within:
  assumes "within n limit c"
  shows "within n limit (capture_packet n snap m c)"
proof (cases "cap_amount c < cap_limit c \<and> unat (event m) < n")
  case True
  then have c: "cap_limit c = limit" "(\<Sum>i<n. length (cap_log c i)) = unat (cap_amount c)"
    using assms by (auto simp: within_def)
  let ?e = "unat (event m)"
  have s: "(\<Sum>i<n. length (((cap_log c)(?e := cap_log c ?e @ [x])) i)) = Suc (\<Sum>i<n. length (cap_log c i))" for x
    using True by (subst (1 2) sum.remove [of _ ?e]) auto
  have "unat (cap_amount c) + 1 < 2 ^ 32" using True unsigned_less [of "cap_limit c", where 'a = nat] by (simp add: word_less_nat_alt)
  then have "unat (cap_amount c + 1) = Suc (unat (cap_amount c))" by (simp add: unat_word_ariths)
  then show ?thesis using True c s by (auto simp: within_def capture_packet_def Let_def word_less_nat_alt)
next
  case False
  then show ?thesis using assms by (auto simp: capture_packet_def Let_def not_less)
qed

lemma captured_within: "within n limit c \<Longrightarrow> within n (granted limit queue) (captured n snap queue c)"
proof (induction queue arbitrary: limit c)
  case (Cons m queue)
  show ?case
  proof (cases "isControl m")
    case True
    then show ?thesis using Cons by (auto simp: within_def)
  next
    case False
    then show ?thesis using Cons.IH [OF capture_packet_within [OF Cons.prems]] by simp
  qed
qed simp

text \<open>C29. The capture of many files stays within its buffers and its limit. For any messages that carry the bytes they announce,
  \<open>runMulti\<close> handles all of them up to a shutdown, with any mix of files, buffers and byte ranges, and never writes past the end of a
  buffer. When the writers are files on a system whose writes succeed, the files together hold at most as many packets
  as the limit given last allows, and they are exactly the packets that arrived for each event until the limit
  was reached, cut to the snap length. A limit of 0 allows no packet here, although the header
  says that it means no limit; \<open>run\<close>, which writes one file, does treat it so.\<close>

theorem capture_never_overflows:
  assumes "\<forall>m \<in> set queue. isControl m \<or> msg_ok (msg m)"
  shows "\<exists>st w. runMulti E queue (PcapWriter_multi writers limit snap) = Some (st, w) \<and>
    packetAmount w \<le> packetLimit w \<and> length (dataWriters w) = length writers \<and> (st = Returned \<longleftrightarrow> (\<exists>m \<in> set queue. isControl m \<and> isShutdown m)) \<and>
    (reliable_env E \<and> writers = map (\<lambda>n. File (FileWriter_new n)) names \<longrightarrow>
      (\<Sum>i<length writers. length (pcap_packets (contents (dataWriters w ! i)))) \<le> unat (granted limit queue) \<and>
      (\<forall>i < length writers. pcap_packets (contents (dataWriters w ! i)) =
         cap_log (captured (length writers) (snap_of snap) queue \<lparr>cap_limit = limit, cap_amount = 0, cap_log = (\<lambda>_. [])\<rparr>) i))"
proof -
  let ?n = "length writers" and ?w = "PcapWriter_multi writers limit snap"
    and ?c = "captured (length writers) (snap_of snap) queue \<lparr>cap_limit = limit, cap_amount = 0, cap_log = (\<lambda>_. [])\<rparr>"
  have "writer_ok ?w" "packetAmount ?w \<le> packetLimit ?w" by (simp_all add: PcapWriter_multi_def writer_ok_def)
  from runMulti_safe [OF assms this, of E] obtain st w where w: "runMulti E queue ?w = Some (st, w)" "packetAmount w \<le> packetLimit w" "length (dataWriters w) = ?n"
      "st = Returned \<longleftrightarrow> (\<exists>m \<in> set queue. isControl m \<and> isShutdown m)"
    by (auto simp: PcapWriter_multi_def)
  have within: "within ?n (granted limit queue) ?c" by (rule captured_within) (simp add: within_def)
  have "(\<Sum>i<?n. length (pcap_packets (contents (dataWriters w ! i)))) \<le> unat (granted limit queue) \<and>
      (\<forall>i < ?n. pcap_packets (contents (dataWriters w ! i)) = cap_log ?c i)"
    if files: "reliable_env E" "writers = map (\<lambda>n. File (FileWriter_new n)) names"
  proof -
    have "captures ?n (snap_of snap) ?w \<lparr>cap_limit = limit, cap_amount = 0, cap_log = (\<lambda>_. [])\<rparr>"
      using files(2) by (simp add: captures_def PcapWriter_multi_def file_holds_def FileWriter_new_def)
    from runMulti_captures [OF this files(1) assms] w(1) have "captures ?n (snap_of snap) w ?c" by auto
    then have read: "\<forall>i < ?n. pcap_packets (contents (dataWriters w ! i)) = cap_log ?c i" using captures_read by blast
    then have "(\<Sum>i<?n. length (pcap_packets (contents (dataWriters w ! i)))) = (\<Sum>i<?n. length (cap_log ?c i))"
      by (intro sum.cong) simp_all
    then show ?thesis using within read by (simp add: within_def)
  qed
  then show ?thesis using w by blast
qed

text \<open>The loop that writes a single file.\<close>

lemma run_loop_captures:
  assumes "dataWriters w = [File f]" "fw_open f" "fw_data f = file_hdr snap @ bs" "pcap_body snap bs log" "reliable_env E"
    "\<forall>m \<in> set ms. msg_ok m" "packetLimit w = 0 \<or> unat (packetAmount w) + length ms \<le> unat (packetLimit w)"
  shows "\<exists>st w' f' bs'. run_loop E snap ms w = Some (st, w') \<and> dataWriters w' = [File f'] \<and> fw_data f' = file_hdr snap @ bs' \<and>
    pcap_body snap bs' (log @ map (\<lambda>m. take (unat snap) (the (pckt m))) ms)"
  using assms(1-4,6,7)
proof (induction ms arbitrary: w f bs log)
  case Nil
  then show ?case by (subst run_loop.simps) (auto intro!: exI [of _ bs])
next
  case (Cons m ms)
  let ?p = "take (unat snap) (the (pckt m))"
  have m: "msg_ok m" "\<not> emptyMsg (trim snap m)" using Cons.prems(5) by (auto simp: msg_ok_def emptyMsg_def trim_def)
  have go: "packetLimit w = 0 \<or> packetAmount w < packetLimit w" using Cons.prems(6) by (auto simp: word_less_nat_alt)
  have av: "available n (dataWriters w ! 0)" for n using Cons.prems(1) by simp
  obtain h d where d: "writePacket E (trim snap m) 0 w = Some (w\<lparr>reads := Suc (reads w), dataWriters := [d]\<rparr>)"
      "unat (incl_len h) = length ?p" "contents d = fw_data f @ enc_pcaprec_hdr h @ ?p" "reliable_writer (os_write E 0) d" "\<exists>f. d = File f"
    using writePacket_fits [OF m(1), of 0 w "trim snap m" snap E] av Cons.prems(1,2) assms(5) by (auto simp: reliable_env_def)
  then obtain f' where f': "d = File f'" "fw_open f'" "fw_data f' = file_hdr snap @ (bs @ enc_pcaprec_hdr h @ ?p)" using Cons.prems(3) by auto
  have body: "pcap_body snap (bs @ enc_pcaprec_hdr h @ ?p) (log @ [?p])" by (rule pcap_body_snoc [OF Cons.prems(4) d(2)]) simp
  let ?w = "w\<lparr>reads := Suc (reads w), dataWriters := [d], packetAmount := packetAmount w + 1\<rparr>"
  have amount: "packetLimit ?w = 0 \<or> unat (packetAmount ?w) + length ms \<le> unat (packetLimit ?w)"
  proof (cases "packetLimit w = 0")
    case False
    then have "Suc (unat (packetAmount w)) + length ms \<le> unat (packetLimit w)" using Cons.prems(6) by simp
    moreover from this have "unat (packetAmount w + 1) = Suc (unat (packetAmount w))"
      using unsigned_less [of "packetLimit w", where ?'a = nat] by (simp add: unat_word_ariths)
    ultimately show ?thesis by simp
  qed simp
  have "run_loop E snap (m # ms) w = run_loop E snap ms ?w"
    using go m(2) av d(1) Cons.prems(1) by (subst run_loop.simps) (auto simp: Let_def)
  moreover have "dataWriters ?w = [File f']" using f'(1) by simp
  ultimately show ?case using Cons.IH [of ?w f' "bs @ enc_pcaprec_hdr h @ ?p" "log @ [?p]"] f' body amount Cons.prems(5) by simp
qed

lemma run_captures:
  assumes "reliable_env E" "\<forall>m \<in> set ms. msg_ok m" "limit = 0 \<or> length ms \<le> unat limit"
  shows "\<exists>st w'. run E ms (PcapWriter_single (File (FileWriter_new name)) limit snap) = Some (st, w') \<and>
    pcap_packets (contents (dataWriters w' ! 0)) = map (\<lambda>m. take (unat (snap_of snap)) (the (pckt m))) ms"
proof -
  let ?w = "PcapWriter_single (File (FileWriter_new name)) limit snap" and ?s = "snap_of snap"
  obtain w f where w: "writePcapHeader E 0 ?w = Some (True, w)" "dataWriters w = [File f]" "fw_open f" "fw_data f = file_hdr ?s @ []"
      "packetLimit w = limit" "packetAmount w = 0" "snaplen w = snap"
    using assms(1) by (auto simp: writePcapHeader_def PcapWriter_single_def write_to_def FileWriter_new_def FileWriter_writeData_def
        reliable_env_def file_hdr_def Let_def)
  from run_loop_captures [OF w(2-4) pcap_body.body_end assms(1,2)] obtain st w' f' bs' where
    "run_loop E ?s ms w = Some (st, w')" "dataWriters w' = [File f']" "fw_data f' = file_hdr ?s @ bs'"
    "pcap_body ?s bs' (map (\<lambda>m. take (unat ?s) (the (pckt m))) ms)" using w(5,6) assms(3) by auto
  then show ?thesis using w(1,7) read_file by (simp add: run_def)
qed

section \<open>Witnesses\<close>

definition ex_msg :: "u8 list \<Rightarrow> u32 \<Rightarrow> PcapMsgMeta" where
  "ex_msg bs e = PcapMsgMeta_new \<lparr>pckt = Some bs, origLen = 60, capturedLen = of_nat (length bs)\<rparr> e"

definition ex_pcap_env :: pcap_env where
  "ex_pcap_env = \<lparr>os_write = (\<lambda>_ _. None), now = (\<lambda>n. of_nat n)\<rparr>"

theorem capture_never_overflows_witness:
  "(\<exists>st w. runMulti ex_pcap_env [ex_msg [1, 2, 3] 0] (PcapWriter_multi [IOBuf \<lparr>ib_data = [], ib_capacity = 30\<rparr>] 5 0) = Some (st, w) \<and>
     packetAmount w \<le> packetLimit w) \<and>
   (\<exists>st w. runMulti ex_pcap_env [ex_msg [1, 2, 3] 0, ex_msg [4] 7, ex_msg [5, 6] 0, ex_msg [7] 0] (PcapWriter_multi [File (FileWriter_new ''a'')] 2 2) =
     Some (st, w) \<and> pcap_packets (contents (dataWriters w ! 0)) = [[1, 2], [5, 6]])"
proof -
  let ?q = "[ex_msg [1, 2, 3] 0, ex_msg [4] 7, ex_msg [5, 6] 0, ex_msg [7] 0]"
  have log: "cap_log (captured 1 2 ?q \<lparr>cap_limit = 2, cap_amount = 0, cap_log = (\<lambda>_. [])\<rparr>) 0 = [[1, 2], [5, 6]]" by code_simp
  have E: "reliable_env ex_pcap_env" and q: "\<forall>m \<in> set ?q. isControl m \<or> msg_ok (msg m)"
    by (simp_all add: reliable_env_def ex_pcap_env_def ex_msg_def PcapMsgMeta_new_def msg_ok_def)
  have s: "snap_of 2 = 2" by (simp add: snap_of_def)
  have "\<exists>st w. runMulti ex_pcap_env ?q (PcapWriter_multi [File (FileWriter_new ''a'')] 2 2) =
      Some (st, w) \<and> pcap_packets (contents (dataWriters w ! 0)) = [[1, 2], [5, 6]]"
    using capture_never_overflows [OF q, of ex_pcap_env "[File (FileWriter_new ''a'')]" 2 2 "[''a'']"] log E s
    by (auto simp del: runMulti.simps captured.simps)
  moreover have "\<exists>st w. runMulti ex_pcap_env [ex_msg [1, 2, 3] 0] (PcapWriter_multi [IOBuf \<lparr>ib_data = [], ib_capacity = 30\<rparr>] 5 0) = Some (st, w) \<and>
      packetAmount w \<le> packetLimit w"
  proof -
    have "\<forall>m \<in> set [ex_msg [1, 2, 3] 0]. isControl m \<or> msg_ok (msg m)" using q by simp
    from capture_never_overflows [OF this, of ex_pcap_env "[IOBuf \<lparr>ib_data = [], ib_capacity = 30\<rparr>]" 5 0 "[]"] show ?thesis by blast
  qed
  ultimately show ?thesis by blast
qed
end
