(* ===== verification/Perf_Ring.thy ===== *)
theory Perf_Ring
  imports Prelude
begin

text \<open>
  The perf ring buffer that carries events from the kernel to user space:
  \<open>BpfAdapter::handlePerfEvent\<close> of \<open>src/katran/lib/BpfAdapter.cpp\<close> and its copy \<open>perfEventHandler\<close>
  in \<open>src/tools/xdpdump/XdpEventReader.cpp\<close>. Offsets count from \<open>base\<close>, the second mapped page.
\<close>

section \<open>The reader\<close>

text \<open>The mapped pages: the cursors of the first page and the bytes of the others.\<close>

record perf_event_mmap_page =
  data_head :: u64
  data_tail :: u64
  ring :: "u8 list"

definition PERF_RECORD_LOST :: u32 where [simp]: "PERF_RECORD_LOST = 2"
definition PERF_RECORD_SAMPLE :: u32 where [simp]: "PERF_RECORD_SAMPLE = 9"

text \<open>
  The bytes of the record at \<open>begin\<close> and the position after it. A record that crosses the end of the
  ring is put together in \<open>buffer\<close>; \<open>None\<close> is a read outside of the mapping.
\<close>

definition event_at :: "u8 list \<Rightarrow> nat \<Rightarrow> (u8 list \<times> nat) option" where
  "event_at base begin = do {
     hdr \<leftarrow> ldn base begin 8;
     let size = unat (le16 (slice hdr 6 2));
     if begin + size > length base then
       (let len = length base - begin in
        do {
          rest \<leftarrow> ldn base 0 (size - len);
          Some (drop begin base @ rest, size - len)
        })
     else if begin + size = length base then Some (slice base begin size, 0)
     else Some (slice base begin size, begin + size)
   }"

definition handle_event :: "(u8 list \<Rightarrow> 's \<Rightarrow> 's option) \<Rightarrow> u8 list \<Rightarrow> 's \<Rightarrow> 's option" where
  "handle_event eventHandler event s = do {
     type \<leftarrow> ldn event 0 4;
     if le32 type = PERF_RECORD_SAMPLE then do {
       size \<leftarrow> ldn event 8 4;
       data \<leftarrow> ldn event 12 (unat (le32 size));
       eventHandler data s
     }
     else Some s
   }"

text \<open>The loop ends only when \<open>begin\<close> meets \<open>end\<close>; a record of size 0 would keep it there.\<close>

partial_function (option) perf_loop :: "(u8 list \<Rightarrow> 's \<Rightarrow> 's option) \<Rightarrow> u8 list \<Rightarrow> nat \<Rightarrow> nat \<Rightarrow> 's \<Rightarrow> 's option" where
  "perf_loop eventHandler base fin begin s =
     (if begin = fin then Some s
      else do {
        (event, begin) \<leftarrow> event_at base begin;
        s \<leftarrow> handle_event eventHandler event s;
        perf_loop eventHandler base fin begin s
      })"

definition BpfAdapter_handlePerfEvent ::
  "(u8 list \<Rightarrow> 's \<Rightarrow> 's option) \<Rightarrow> perf_event_mmap_page option \<Rightarrow> 's \<Rightarrow> ('s \<times> perf_event_mmap_page option) option" where
  "BpfAdapter_handlePerfEvent eventHandler header s =
     (case header of
        None \<Rightarrow> Some (s, None)
      | Some page \<Rightarrow>
          (let dataTail = data_tail page; dataHead = data_head page; bufferSize = length (ring page) in
           if dataHead = dataTail then Some (s, Some page)
           else do {
             s \<leftarrow> perf_loop eventHandler (ring page) (unat dataHead mod bufferSize) (unat dataTail mod bufferSize) s;
             Some (s, Some (page\<lparr>data_tail := dataHead\<rparr>))
           }))"

text \<open>The copy in \<open>XdpEventReader.cpp\<close> has the same statements.\<close>

definition perfEventHandler ::
  "(u8 list \<Rightarrow> 's \<Rightarrow> 's option) \<Rightarrow> perf_event_mmap_page option \<Rightarrow> 's \<Rightarrow> ('s \<times> perf_event_mmap_page option) option" where
  "perfEventHandler = BpfAdapter_handlePerfEvent"

section \<open>What the ring holds\<close>

text \<open>The bytes of a ring from a position on, around its end.\<close>

definition circ :: "'a list \<Rightarrow> nat \<Rightarrow> nat \<Rightarrow> 'a list" where
  "circ base b n = map (\<lambda>i. base ! ((b + i) mod length base)) [0..<n]"

text \<open>The kernel aligns records to 8 bytes and writes their length into the header.\<close>

definition rec_ok :: "u8 list \<Rightarrow> bool" where
  "rec_ok r \<longleftrightarrow> 8 \<le> length r \<and> 8 dvd length r \<and> unat (le16 (slice r 6 2)) = length r"

definition ring_ok :: "perf_event_mmap_page \<Rightarrow> bool" where
  "ring_ok p \<longleftrightarrow> ring p \<noteq> [] \<and> 8 dvd length (ring p) \<and> length (ring p) dvd 2 ^ 64 \<and> 8 dvd unat (data_tail p)"

definition ring_holds :: "perf_event_mmap_page \<Rightarrow> u8 list list \<Rightarrow> bool" where
  "ring_holds p rs \<longleftrightarrow> ring_ok p \<and> (\<forall>r \<in> set rs. rec_ok r) \<and> length (concat rs) < length (ring p) \<and>
     data_head p = data_tail p + word_of_nat (length (concat rs)) \<and>
     circ (ring p) (unat (data_tail p)) (length (concat rs)) = concat rs"

lemma length_circ [simp]: "length (circ base b n) = n"
  by (simp add: circ_def)

lemma circ_mod [simp]: "circ base (b mod length base) n = circ base b n"
  by (simp add: circ_def mod_add_left_eq)

lemma circ_add: "circ base b (m + n) = circ base b m @ circ base (b + m) n"
  by (rule nth_equalityI) (auto simp: circ_def nth_append add.assoc)

lemma circ_slice: "b + n \<le> length base \<Longrightarrow> circ base b n = slice base b n"
  by (rule nth_equalityI) (auto simp: circ_def)

lemma circ_wrap:
  assumes "b < length base" "length base < b + n" "n \<le> length base"
  shows "circ base b n = drop b base @ slice base 0 (n - (length base - b))"
proof -
  have "n = (length base - b) + (n - (length base - b))" using assms by simp
  then have "circ base b n = circ base b (length base - b) @ circ base (b + (length base - b)) (n - (length base - b))"
    by (metis circ_add)
  also have "circ base b (length base - b) = drop b base" using assms(1) by (simp add: circ_slice slice_def)
  also have "circ base (b + (length base - b)) (n - (length base - b)) = circ base (length base mod length base) (n - (length base - b))"
    using assms(1) circ_mod [of base "length base"] by simp
  also have "\<dots> = slice base 0 (n - (length base - b))" using assms by (simp add: circ_slice del: circ_mod)
  finally show ?thesis .
qed

lemma event_at_circ:
  assumes r: "rec_ok r" "circ base b (length r) = r"
    and b: "b < length base" "8 dvd b" "8 dvd length base" "length r < length base"
  shows "event_at base b = Some (r, (b + length r) mod length base)"
proof -
  have "8 dvd length base - b" using b(2,3) by simp
  then have room: "b + 8 \<le> length base" using b(1) dvd_imp_le [of 8 "length base - b"] by linarith
  have "circ base b (length r) = circ base b 8 @ circ base (b + 8) (length r - 8)"
    using circ_add [of base b 8 "length r - 8"] r(1) by (simp add: rec_ok_def)
  then have "r = circ base b 8 @ circ base (b + 8) (length r - 8)" using r(2) by simp
  then have "take 8 r = circ base b 8" by (metis append_eq_conv_conj length_circ)
  then have "slice base b 8 = slice r 0 8" using room by (simp add: circ_slice slice_def)
  then have sz: "unat (le16 (slice (slice base b 8) 6 2)) = length r" using r(1) by (simp add: rec_ok_def)
  consider "b + length r < length base" | "b + length r = length base" | "b + length r > length base" by linarith
  then show ?thesis
  proof cases
    case 3
    then have "drop b base @ slice base 0 (length r - (length base - b)) = r" using circ_wrap [of b base "length r"] r(2) b by simp
    then show ?thesis using 3 room sz b by (simp add: event_at_def ldn_def Let_def mod_if add.commute del: slice_slice)
  next
    case 1
    then show ?thesis using room sz r(2) by (simp add: event_at_def ldn_def circ_slice Let_def del: slice_slice)
  next
    case 2
    then show ?thesis using room sz r(2) by (simp add: event_at_def ldn_def circ_slice Let_def del: slice_slice)
  qed
qed


section \<open>Draining the ring\<close>

fun deliver :: "(u8 list \<Rightarrow> 's \<Rightarrow> 's option) \<Rightarrow> u8 list list \<Rightarrow> 's \<Rightarrow> 's option" where
  "deliver h [] s = Some s"
| "deliver h (r # rs) s = do { s \<leftarrow> handle_event h r s; deliver h rs s }"

lemma deliver_append: "deliver h (xs @ ys) s = Option.bind (deliver h xs s) (deliver h ys)"
proof (induction xs arbitrary: s)
  case (Cons r xs)
  then show ?case by (cases "handle_event h r s") simp_all
qed simp

lemma recs_aligned: "\<forall>r \<in> set rs. rec_ok r \<Longrightarrow> 8 dvd length (concat rs)"
  by (induction rs) (simp_all add: rec_ok_def)

lemma mod_moves: "b < n \<Longrightarrow> 0 < l \<Longrightarrow> l < n \<Longrightarrow> (b + l) mod n \<noteq> (b :: nat)"
  by (auto simp: mod_if)

lemma aligned_add: "8 dvd unat a \<Longrightarrow> 8 dvd l \<Longrightarrow> 8 dvd unat (a + word_of_nat l :: u64)"
  by (simp add: unat_word_ariths unat_of_nat dvd_mod)

lemma perf_loop_deliver:
  assumes "\<forall>r \<in> set rs. rec_ok r" "circ base b (length (concat rs)) = concat rs"
    and "b < length base" "8 dvd b" "8 dvd length base" "length (concat rs) < length base"
  shows "perf_loop h base ((b + length (concat rs)) mod length base) b s = deliver h rs s"
  using assms
proof (induction rs arbitrary: b s)
  case Nil
  then show ?case by (subst perf_loop.simps) simp
next
  case (Cons r rs)
  let ?next = "(b + length r) mod length base" and ?fin = "(b + length (concat (r # rs))) mod length base"
  have r: "rec_ok r" using Cons.prems(1) by simp
  then have "0 < length r" "8 dvd length r" by (auto simp: rec_ok_def)
  have split: "circ base b (length r) = r" "circ base (b + length r) (length (concat rs)) = concat rs"
    using Cons.prems(2) circ_add [of base b "length r" "length (concat rs)"] by simp_all
  have at: "event_at base b = Some (r, ?next)" by (rule event_at_circ) (use r split Cons.prems in simp_all)
  have ne: "b \<noteq> ?fin" using mod_moves [of b "length base" "length (concat (r # rs))"] \<open>0 < length r\<close> Cons.prems(3,6) by auto
  have fin: "?fin = (?next + length (concat rs)) mod length base" by (simp add: mod_add_left_eq add.assoc)
  have "?next < length base" using Cons.prems(3) by (intro mod_less_divisor) linarith
  moreover have "8 dvd ?next" using Cons.prems(4,5) \<open>8 dvd length r\<close> by (simp add: dvd_mod)
  ultimately have "perf_loop h base ?fin ?next s' = deliver h rs s'" for s'
    unfolding fin using Cons.prems split(2) by (intro Cons.IH) simp_all
  then show ?case using ne at by (subst perf_loop.simps) (cases "handle_event h r s"; simp)
qed

lemma drain_ring:
  assumes "ring_holds p rs"
  shows "BpfAdapter_handlePerfEvent h (Some p) s =
    map_option (\<lambda>s. (s, Some (p\<lparr>data_tail := data_head p\<rparr>))) (deliver h rs s)"
proof (cases "rs = []")
  case True
  then show ?thesis using assms by (simp add: ring_holds_def BpfAdapter_handlePerfEvent_def)
next
  case False
  let ?n = "length (ring p)" and ?l = "length (concat rs)"
  have p: "ring_ok p" "\<forall>r \<in> set rs. rec_ok r" "?l < ?n" "data_head p = data_tail p + word_of_nat ?l"
    "circ (ring p) (unat (data_tail p)) ?l = concat rs" using assms by (simp_all add: ring_holds_def)
  have n: "0 < ?n" "8 dvd ?n" "?n dvd 2 ^ 64" "8 dvd unat (data_tail p)" using p(1) by (simp_all add: ring_ok_def)
  then have "?n \<le> 2 ^ 64" by (simp add: dvd_imp_le)
  then have l: "unat (word_of_nat ?l :: u64) = ?l" using p(3) by (simp add: unat_of_nat)
  have "concat rs \<noteq> []" using False p(2) by (cases rs) (auto simp: rec_ok_def)
  then have ne: "data_head p \<noteq> data_tail p" using l p(4) by (auto simp: unat_eq_0 [symmetric])
  have "unat (data_head p) = (unat (data_tail p) + ?l) mod 2 ^ 64" using p(4) l by (simp add: unat_word_ariths)
  then have "unat (data_head p) mod ?n = (unat (data_tail p) + ?l) mod ?n" using n(3) by (simp add: mod_mod_cancel)
  then have fin: "unat (data_head p) mod ?n = (unat (data_tail p) mod ?n + ?l) mod ?n" by (simp add: mod_add_left_eq)
  have "perf_loop h (ring p) (unat (data_head p) mod ?n) (unat (data_tail p) mod ?n) s = deliver h rs s"
    unfolding fin by (rule perf_loop_deliver) (use p n in \<open>simp_all add: dvd_mod\<close>)
  then show ?thesis using ne by (cases "deliver h rs s") (simp_all add: BpfAdapter_handlePerfEvent_def Let_def)
qed

section \<open>Kernel and reader together\<close>

text \<open>
  The kernel appends a record only while a byte stays free, and writes nothing but the bytes of
  the record and \<open>data_head\<close>.
\<close>

definition perf_append :: "u8 list \<Rightarrow> perf_event_mmap_page \<Rightarrow> perf_event_mmap_page \<Rightarrow> bool" where
  "perf_append r p p' \<longleftrightarrow> rec_ok r \<and> unat (data_head p - data_tail p) + length r < length (ring p) \<and>
     data_tail p' = data_tail p \<and> data_head p' = data_head p + word_of_nat (length r) \<and>
     length (ring p') = length (ring p) \<and> circ (ring p') (unat (data_head p)) (length r) = r \<and>
     (let n = unat (data_head p - data_tail p) in
       circ (ring p') (unat (data_tail p)) n = circ (ring p) (unat (data_tail p)) n)"

inductive perf_run ::
  "(u8 list \<Rightarrow> 's \<Rightarrow> 's option) \<Rightarrow> 's \<Rightarrow> perf_event_mmap_page \<Rightarrow> 's \<Rightarrow> u8 list list \<Rightarrow> bool"
  for h :: "u8 list \<Rightarrow> 's \<Rightarrow> 's option" and s0 :: 's where
  run_start: "ring_ok p \<Longrightarrow> data_head p = data_tail p \<Longrightarrow> perf_run h s0 p s0 []"
| run_append: "perf_run h s0 p s rs \<Longrightarrow> perf_append r p p' \<Longrightarrow> perf_run h s0 p' s (rs @ [r])"
| run_drain: "perf_run h s0 p s rs \<Longrightarrow> BpfAdapter_handlePerfEvent h (Some p) s = Some (s', Some p') \<Longrightarrow> perf_run h s0 p' s' rs"

lemma append_ring:
  assumes "ring_holds p rs" "perf_append r p p'"
  shows "ring_holds p' (rs @ [r])"
proof -
  let ?n = "length (ring p)" and ?l = "length (concat rs)"
  have p: "ring_ok p" "?l < ?n" "data_head p = data_tail p + word_of_nat ?l"
    "circ (ring p) (unat (data_tail p)) ?l = concat rs" using assms(1) by (simp_all add: ring_holds_def)
  have n: "?n dvd 2 ^ 64" "0 < ?n" using p(1) by (simp_all add: ring_ok_def)
  then have "?n \<le> 2 ^ 64" by (simp add: dvd_imp_le)
  then have "unat (word_of_nat ?l :: u64) = ?l" using p(2) by (simp add: unat_of_nat)
  then have l: "unat (data_head p - data_tail p) = ?l" using p(3) by simp
  have "unat (data_head p) = (unat (data_tail p) + ?l) mod 2 ^ 64"
    using p(3) \<open>unat (word_of_nat ?l) = ?l\<close> by (simp add: unat_word_ariths)
  then have "unat (data_head p) mod ?n = (unat (data_tail p) + ?l) mod ?n" using n(1) by (simp add: mod_mod_cancel)
  moreover have n': "length (ring p') = ?n" and w: "circ (ring p') (unat (data_head p)) (length r) = r"
    "circ (ring p') (unat (data_tail p)) ?l = concat rs" using assms(2) l p(4) by (simp_all add: perf_append_def)
  ultimately have "circ (ring p') (unat (data_tail p) + ?l) (length r) = r"
    using circ_mod [of "ring p'" "unat (data_tail p) + ?l" "length r"] circ_mod [of "ring p'" "unat (data_head p)" "length r"] by simp
  then have "circ (ring p') (unat (data_tail p)) (?l + length r) = concat rs @ r"
    using w by (simp add: circ_add)
  moreover have "?l + length r < ?n" "rec_ok r" "data_tail p' = data_tail p"
    "data_head p' = data_tail p + word_of_nat (?l + length r)" using assms(2) l p(3) by (simp_all add: perf_append_def)
  ultimately show ?thesis using assms(1) n' by (auto simp: ring_holds_def ring_ok_def)
qed

lemma perf_run_inv:
  assumes "perf_run h s0 p s rs"
  shows "\<exists>done todo. rs = done @ todo \<and> deliver h done s0 = Some s \<and> ring_holds p todo"
  using assms
proof (induction rule: perf_run.induct)
  case (run_start p)
  then show ?case by (simp add: ring_holds_def circ_def ring_ok_def)
next
  case (run_append p s rs r p')
  then show ?case using append_ring by (metis append_assoc)
next
  case (run_drain p s rs s' p')
  then obtain don todo where d: "rs = don @ todo" "deliver h don s0 = Some s" "ring_holds p todo" by blast
  from run_drain(2) have "deliver h todo s = Some s'" "p' = p\<lparr>data_tail := data_head p\<rparr>"
    using drain_ring [OF d(3), of h s] by auto
  moreover have "ring_holds (p\<lparr>data_tail := data_head p\<rparr>) []"
  proof -
    have "8 dvd length (concat todo)" using d(3) recs_aligned by (simp add: ring_holds_def)
    then show ?thesis using d(3) by (simp add: ring_holds_def ring_ok_def circ_def aligned_add)
  qed
  ultimately show ?case using d by (intro exI [of _ rs] exI [of _ "[]"]) (simp add: deliver_append)
qed

lemma drain_run:
  assumes "perf_run h s0 p s rs"
  shows "BpfAdapter_handlePerfEvent h (Some p) s =
    map_option (\<lambda>s. (s, Some (p\<lparr>data_tail := data_head p\<rparr>))) (deliver h rs s0)"
proof -
  from perf_run_inv [OF assms] obtain don todo where
    "rs = don @ todo" "deliver h don s0 = Some s" "ring_holds p todo" by blast
  then show ?thesis using drain_ring [of p todo h s] by (simp add: deliver_append)
qed


text \<open>C16. Events are neither lost, repeated nor reordered. However the kernel's writes and the reader's wake-ups
  interleave, and wherever records cross the end of the ring or the cursors wrap at 64 bits, the
  reader's next wake-up leaves the handler in the state in which it has been given every sample written so
  far exactly once and in order, and returns the whole ring to the kernel.\<close>

theorem perf_events_delivered_once:
  assumes "perf_run h s0 p s rs"
  shows "BpfAdapter_handlePerfEvent h (Some p) s =
    map_option (\<lambda>s. (s, Some (p\<lparr>data_tail := data_head p\<rparr>))) (deliver h rs s0)"
  using assms by (rule drain_run)

text \<open>The record in which the kernel wraps a sample.\<close>

definition perf_record :: "u8 list \<Rightarrow> u8 list" where
  "perf_record smp = bytes32 PERF_RECORD_SAMPLE @ bytes16 0 @ bytes16 (word_of_nat (12 + length smp)) @ bytes32 (word_of_nat (length smp)) @ smp"

lemma perf_record_handled:
  assumes "length smp + 12 < 2 ^ 16"
  shows "handle_event h (perf_record smp) s = h smp s"
proof -
  have "unat (word_of_nat (length smp) :: u32) = length smp" using assms by (simp add: unat_of_nat)
  then show ?thesis by (simp add: handle_event_def perf_record_def ldn_def slice_def)
qed

text \<open>A record of 16 bytes that crosses the end of a ring of 32 bytes.\<close>

definition ex_record :: "u8 list" where
  "ex_record = [9, 0, 0, 0, 0, 0, 16, 0, 4, 0, 0, 0, 1, 2, 3, 4]"

definition ex_page0 :: perf_event_mmap_page where
  "ex_page0 = \<lparr>data_head = 24, data_tail = 24, ring = replicate 32 0\<rparr>"

definition ex_page :: perf_event_mmap_page where
  "ex_page = \<lparr>data_head = 40, data_tail = 24, ring = drop 8 ex_record @ replicate 16 0 @ take 8 ex_record\<rparr>"

theorem perf_events_delivered_once_witness:
  "BpfAdapter_handlePerfEvent (\<lambda>d s. Some (s @ [d])) (Some ex_page) [] =
   Some ([[1, 2, 3, 4]], Some (ex_page\<lparr>data_tail := 40\<rparr>))"
proof -
  let ?h = "\<lambda>d s. Some (s @ [d]) :: u8 list list option"
  have "perf_append ex_record ex_page0 ex_page" by code_simp
  moreover have "ring_ok ex_page0" "data_head ex_page0 = data_tail ex_page0" by (simp_all add: ring_ok_def ex_page0_def)
  ultimately have "perf_run ?h [] ex_page [] ([] @ [ex_record])" by (intro run_append run_start)
  from perf_events_delivered_once [OF this] show ?thesis
    by (simp add: ex_page_def ex_record_def handle_event_def ldn_def slice_def le32_def)
qed

end
