(* ===== verification/Monitor.thy ===== *)
theory Monitor
  imports Katran_Setup Balancer Pcap Perf_Ring
begin

text \<open>
  Introspection: \<open>KatranEventReader.cpp\<close> and \<open>KatranMonitor.cpp\<close> under \<open>src/katran/lib\<close>, and the calls of
  \<open>KatranLb\<close> that drive them. Readers and writer share a bounded queue; the step relation
  \<open>monitor_step\<close> interleaves them with the calls of the control plane.
\<close>

section \<open>Configuration and state\<close>

datatype PcapStorageFormat = FILE | IOBUF

record KatranMonitorConfig =
  nCpus :: u32
  queueSize :: u32
  pcktLimit :: u32
  snapLen :: u32
  maxEvents :: u32
  path :: string
  storage :: PcapStorageFormat
  bufferSize :: u32

text \<open>
  What lies outside: \<open>perf_open cpu\<close> says whether the perf event of a CPU opens, \<open>to_string\<close> is
  \<open>folly::toAppend\<close> of a number, \<open>iobuf_size n\<close> is the room of \<open>IOBuf::create(n)\<close>.
\<close>

record monitor_env =
  perf_open :: "nat \<Rightarrow> bool"
  to_string :: "nat \<Rightarrow> string"
  iobuf_size :: "nat \<Rightarrow> nat"
  pcap :: pcap_env

record KatranMonitor =
  km_config :: KatranMonitorConfig
  readers :: "nat list"
  queue :: "PcapMsgMeta list"
  km_writer :: PcapWriter
  writerThread :: run_state

definition make_writer :: "monitor_env \<Rightarrow> KatranMonitorConfig \<Rightarrow> nat \<Rightarrow> DataWriter" where
  "make_writer M cfg i = (case storage cfg of
       FILE \<Rightarrow> File (FileWriter_new (path cfg @ ''_'' @ to_string M i))
     | IOBUF \<Rightarrow> IOBuf \<lparr>ib_data = [], ib_capacity = iobuf_size M (unat (bufferSize cfg))\<rparr>)"

text \<open>The queue of folly has room for at least one message; its constructor throws for a size of 0, which is not a configuration here.\<close>

definition KatranMonitor_new :: "monitor_env \<Rightarrow> KatranMonitorConfig \<Rightarrow> lb_error + KatranMonitor" where
  "KatranMonitor_new M cfg =
     (let rs = filter (perf_open M) [0..<unat (nCpus cfg)] in
      if rs = [] then Inl runtime_error
      else Inr \<lparr>km_config = cfg, readers = rs, queue = [],
        km_writer = PcapWriter_multi (map (make_writer M cfg) [0..<unat (maxEvents cfg)]) (pcktLimit cfg) (snapLen cfg),
        writerThread = Blocked\<rparr>)"

section \<open>The queue\<close>

text \<open>\<open>queue_->write\<close> does not wait: it fails when the queue is full.\<close>

definition queue_write :: "PcapMsgMeta \<Rightarrow> KatranMonitor \<Rightarrow> bool \<times> KatranMonitor" where
  "queue_write m k =
     (if length (queue k) \<ge> unat (queueSize (km_config k)) then (False, k) else (True, k\<lparr>queue := queue k @ [m]\<rparr>))"

text \<open>\<open>queue_->blockingWrite\<close> returns when there is room; \<open>None\<close> is a caller that waits.\<close>

definition queue_blockingWrite :: "PcapMsgMeta \<Rightarrow> KatranMonitor \<Rightarrow> KatranMonitor option" where
  "queue_blockingWrite m k = (case queue_write m k of (ok, k) \<Rightarrow> if ok then Some k else None)"

definition stop_msg :: PcapMsgMeta where
  "stop_msg = PcapMsgMeta_empty\<lparr>isControl := True, isStop := True\<rparr>"

definition restart_msg :: "u32 \<Rightarrow> PcapMsgMeta" where
  "restart_msg limit = PcapMsgMeta_empty\<lparr>isControl := True, isRestart := True, msg_packetLimit := limit\<rparr>"

definition shutdown_msg :: PcapMsgMeta where
  "shutdown_msg = PcapMsgMeta_empty\<lparr>isControl := True, isShutdown := True\<rparr>"

definition stopMonitor :: "KatranMonitor \<Rightarrow> KatranMonitor option" where
  "stopMonitor = queue_blockingWrite stop_msg"

definition restartMonitor :: "u32 \<Rightarrow> KatranMonitor \<Rightarrow> KatranMonitor option" where
  "restartMonitor limit = queue_blockingWrite (restart_msg limit)"

text \<open>The destructor up to \<open>writerThread_.join()\<close>.\<close>

definition KatranMonitor_destroy :: "KatranMonitor \<Rightarrow> KatranMonitor" where
  "KatranMonitor_destroy k = snd (queue_write shutdown_msg k)"

definition getEventBuffer :: "int \<Rightarrow> KatranMonitor \<Rightarrow> u8 list option" where
  "getEventBuffer ev k =
     (let buffers = (if storage (km_config k) = IOBUF then map contents (dataWriters (km_writer k)) else []) in
      if buffers = [] then None
      else if ev < 0 \<or> ev > int (length buffers) - 1 then None
      else Some (buffers ! nat ev))"

definition getWriterStats :: "KatranMonitor \<Rightarrow> PcapWriterStats" where
  "getWriterStats k = getStats (km_writer k)"

section \<open>Readers and writer\<close>

definition sizeof_event_metadata :: nat where [simp]: "sizeof_event_metadata = 12"

definition dec_event_metadata :: "u8 list \<Rightarrow> event_metadata" where
  "dec_event_metadata bs = \<lparr>md_event = le32 (slice bs 0 4), md_pkt_size = le32 (slice bs 4 4), md_data_len = le32 (slice bs 8 4)\<rparr>"

definition handlePerfEvent :: "u8 list \<Rightarrow> KatranMonitor \<Rightarrow> KatranMonitor option" where
  "handlePerfEvent data k =
     (if length data < sizeof_event_metadata then Some k
      else
        let mdata = dec_event_metadata data in
        do {
          pcap_msg \<leftarrow> PcapMsg_new (Some (drop sizeof_event_metadata data)) (md_pkt_size mdata) (md_data_len mdata);
          Some (snd (queue_write (PcapMsgMeta_new pcap_msg (md_event mdata)) k))
        })"

text \<open>One round of the writer thread, which runs \<open>runMulti\<close>.\<close>

definition writer_round :: "monitor_env \<Rightarrow> KatranMonitor \<Rightarrow> KatranMonitor option" where
  "writer_round M k =
     (case queue k of
        [] \<Rightarrow> Some k
      | m # ms \<Rightarrow> do {
          (st, w) \<leftarrow> runMulti (pcap M) [m] (km_writer k);
          Some (k\<lparr>queue := ms, km_writer := w, writerThread := st\<rparr>)
        })"

section \<open>The calls of the load balancer\<close>

definition stopKatranMonitor :: "katran_env \<Rightarrow> KatranLb \<times> KatranMonitor \<Rightarrow> (bool \<times> KatranLb \<times> KatranMonitor) option" where
  "stopKatranMonitor E s = (case s of (lb, k) \<Rightarrow>
     if disableForwarding (config lb) then Some (False, lb, k)
     else if \<not> introspection (features lb) then Some (False, lb, k)
     else (case changeKatranMonitorForwardingState E DISABLED lb of (ok, lb) \<Rightarrow>
       if \<not> ok then Some (False, lb, k) else map_option (\<lambda>k. (True, lb, k)) (stopMonitor k)))"

definition restartKatranMonitor :: "katran_env \<Rightarrow> u32 \<Rightarrow> KatranLb \<times> KatranMonitor \<Rightarrow> (bool \<times> KatranLb \<times> KatranMonitor) option" where
  "restartKatranMonitor E limit s = (case s of (lb, k) \<Rightarrow>
     if \<not> introspection (features lb) \<or> disableForwarding (config lb) then Some (False, lb, k)
     else (case changeKatranMonitorForwardingState E ENABLED lb of (ok, lb) \<Rightarrow>
       if \<not> ok then Some (False, lb, k) else map_option (\<lambda>k. (True, lb, k)) (restartMonitor limit k)))"

definition getKatranMonitorEventBuffer :: "int \<Rightarrow> KatranLb \<times> KatranMonitor \<Rightarrow> u8 list option" where
  "getKatranMonitorEventBuffer ev s = (case s of (lb, k) \<Rightarrow>
     if \<not> introspection (features lb) \<or> disableForwarding (config lb) then None else getEventBuffer ev k)"

definition getKatranMonitorStats :: "KatranLb \<times> KatranMonitor \<Rightarrow> PcapWriterStats" where
  "getKatranMonitorStats s = (case s of (lb, k) \<Rightarrow>
     if \<not> introspection (features lb) \<or> disableForwarding (config lb)
     then \<lparr>st_limit = 0, st_amount = 0, st_bufferFull = 0\<rparr> else getWriterStats k)"

definition startIntrospectionRoutines :: "monitor_env \<Rightarrow> u32 \<Rightarrow> KatranMonitorConfig \<Rightarrow> lb_error + KatranMonitor" where
  "startIntrospectionRoutines M cpus monitor_config = KatranMonitor_new M (monitor_config\<lparr>nCpus := cpus\<rparr>)"


section \<open>Steps\<close>

text \<open>A sample of the perf ring: the metadata, the bytes of the packet and the padding of the kernel.\<close>

definition event_ok :: "bpf_event \<Rightarrow> bool" where
  "event_ok ev \<longleftrightarrow> length (ev_data ev) = unat (md_data_len (ev_meta ev))"

definition perf_sample :: "bpf_event \<Rightarrow> u8 list \<Rightarrow> u8 list" where
  "perf_sample ev pad = bytes32 (md_event (ev_meta ev)) @ bytes32 (md_pkt_size (ev_meta ev)) @ bytes32 (md_data_len (ev_meta ev)) @ ev_data ev @ pad"

inductive monitor_step :: "monitor_env \<Rightarrow> KatranMonitor \<Rightarrow> KatranMonitor \<Rightarrow> bool" for M :: monitor_env where
  mon_event: "event_ok ev \<Longrightarrow> handlePerfEvent (perf_sample ev pad) k = Some k' \<Longrightarrow> monitor_step M k k'"
| mon_write: "writerThread k = Blocked \<Longrightarrow> writer_round M k = Some k' \<Longrightarrow> monitor_step M k k'"
| mon_stop: "stopMonitor k = Some k' \<Longrightarrow> monitor_step M k k'"
| mon_restart: "restartMonitor limit k = Some k' \<Longrightarrow> monitor_step M k k'"

inductive monitor_reach :: "monitor_env \<Rightarrow> KatranMonitor \<Rightarrow> KatranMonitor \<Rightarrow> bool" for M :: monitor_env and k0 :: KatranMonitor where
  mon_start: "monitor_reach M k0 k0"
| mon_step: "monitor_reach M k0 k \<Longrightarrow> monitor_step M k k' \<Longrightarrow> monitor_reach M k0 k'"

definition queue_msg_ok :: "PcapMsgMeta \<Rightarrow> bool" where
  "queue_msg_ok m \<longleftrightarrow> (isControl m \<or> msg_ok (msg m)) \<and> \<not> (isControl m \<and> isShutdown m)"

definition monitor_inv :: "KatranMonitor \<Rightarrow> bool" where
  "monitor_inv k \<longleftrightarrow> (\<forall>m \<in> set (queue k). queue_msg_ok m) \<and> length (queue k) \<le> unat (queueSize (km_config k)) \<and>
     writer_ok (km_writer k) \<and> writerThread k = Blocked"

lemma control_msgs [simp]: "queue_msg_ok stop_msg" "queue_msg_ok (restart_msg limit)"
  by (simp_all add: queue_msg_ok_def stop_msg_def restart_msg_def PcapMsgMeta_empty_def)

lemma queue_write_inv: "monitor_inv k \<Longrightarrow> queue_msg_ok m \<Longrightarrow> monitor_inv (snd (queue_write m k))"
  by (auto simp: monitor_inv_def queue_write_def)

lemma handlePerfEvent_ok:
  assumes "event_ok ev"
  shows "\<exists>m. handlePerfEvent (perf_sample ev pad) k = Some (snd (queue_write m k)) \<and> queue_msg_ok m \<and>
    m = PcapMsgMeta_new \<lparr>pckt = Some (ev_data ev), origLen = md_pkt_size (ev_meta ev), capturedLen = md_data_len (ev_meta ev)\<rparr> (md_event (ev_meta ev))"
proof -
  have dec: "dec_event_metadata (perf_sample ev pad) = ev_meta ev" by (simp add: dec_event_metadata_def perf_sample_def slice_def)
  have "drop 12 (perf_sample ev pad) = ev_data ev @ pad" "12 \<le> length (perf_sample ev pad)" by (simp_all add: perf_sample_def)
  then show ?thesis using assms
    by (auto simp: handlePerfEvent_def dec PcapMsg_new_def event_ok_def queue_msg_ok_def PcapMsgMeta_new_def PcapMsgMeta_empty_def msg_ok_def Let_def)
qed

lemma runMulti_one:
  assumes "writer_ok w" "queue_msg_ok m"
  shows "\<exists>w'. runMulti E [m] w = Some (Blocked, w') \<and> writer_ok w'"
proof (cases "isControl m")
  case True
  then show ?thesis using assms by (auto simp: queue_msg_ok_def handle_control_def restartWriters_def stopWriters_def writer_ok_def)
next
  case False
  then show ?thesis using handle_packet_safe [OF assms(1), of m E] assms(2) by (auto simp: queue_msg_ok_def)
qed

lemma writer_round_inv:
  assumes "monitor_inv k"
  shows "\<exists>k'. writer_round M k = Some k' \<and> monitor_inv k' \<and> queue k' = tl (queue k) \<and> km_config k' = km_config k"
proof (cases "queue k")
  case Nil
  then show ?thesis using assms by (simp add: writer_round_def)
next
  case (Cons m ms)
  then obtain w where "runMulti (pcap M) [m] (km_writer k) = Some (Blocked, w)" "writer_ok w"
    using runMulti_one [of "km_writer k" m "pcap M"] assms by (auto simp: monitor_inv_def)
  then show ?thesis using assms Cons by (auto simp: writer_round_def monitor_inv_def)
qed

lemma monitor_step_inv: "monitor_step M k k' \<Longrightarrow> monitor_inv k \<Longrightarrow> monitor_inv k'"
proof (induction rule: monitor_step.induct)
  case (mon_event ev pad k k')
  then show ?case using handlePerfEvent_ok [OF mon_event(1), of pad k] queue_write_inv by auto
next
  case (mon_write k k')
  then show ?case using writer_round_inv [of k M] by auto
next
  case (mon_stop k k')
  then show ?case using queue_write_inv [of k stop_msg] by (auto simp: stopMonitor_def queue_blockingWrite_def split: prod.splits if_splits)
next
  case (mon_restart limit k k')
  then show ?case using queue_write_inv [of k "restart_msg limit"]
    by (auto simp: restartMonitor_def queue_blockingWrite_def split: prod.splits if_splits)
qed

lemma KatranMonitor_new_inv: "KatranMonitor_new M cfg = Inr k \<Longrightarrow> monitor_inv k"
  by (auto simp: KatranMonitor_new_def monitor_inv_def PcapWriter_multi_def writer_ok_def Let_def split: if_splits)

lemma monitor_reach_inv: "monitor_reach M k0 k \<Longrightarrow> monitor_inv k0 \<Longrightarrow> monitor_inv k"
  by (induction rule: monitor_reach.induct) (auto intro: monitor_step_inv)

section \<open>Shutting down\<close>

fun rounds :: "monitor_env \<Rightarrow> nat \<Rightarrow> KatranMonitor \<Rightarrow> KatranMonitor option" where
  "rounds M 0 k = Some k"
| "rounds M (Suc n) k = do { k \<leftarrow> writer_round M k; if writerThread k = Returned then Some k else rounds M n k }"

lemma rounds_quiet:
  assumes "monitor_inv k"
  shows "\<exists>k'. rounds M n k = Some k' \<and> writerThread k' = Blocked"
  using assms
proof (induction n arbitrary: k)
  case (Suc n)
  obtain k1 where "writer_round M k = Some k1" "monitor_inv k1" using writer_round_inv [OF Suc.prems, of M] by blast
  moreover from this have "writerThread k1 \<noteq> Returned" by (simp add: monitor_inv_def)
  ultimately show ?case using Suc.IH by simp
qed (simp add: monitor_inv_def)

lemma rounds_shutdown:
  assumes "\<forall>m \<in> set ms. queue_msg_ok m" "writer_ok (km_writer k)" "queue k = ms @ [shutdown_msg]" "writerThread k = Blocked"
  shows "\<exists>k'. rounds M (Suc (length ms)) k = Some k' \<and> writerThread k' = Returned \<and> queue k' = []"
  using assms
proof (induction ms arbitrary: k)
  case Nil
  then show ?case by (simp add: writer_round_def shutdown_msg_def PcapMsgMeta_empty_def)
next
  case (Cons m ms)
  obtain w where w: "runMulti (pcap M) [m] (km_writer k) = Some (Blocked, w)" "writer_ok w"
    using runMulti_one [OF Cons.prems(2), of m "pcap M"] Cons.prems(1) by auto
  let ?k = "k\<lparr>queue := ms @ [shutdown_msg], km_writer := w, writerThread := Blocked\<rparr>"
  have "writer_round M k = Some ?k" using Cons.prems(3) w(1) by (simp add: writer_round_def)
  then show ?case using Cons.IH [of ?k] Cons.prems(1) w(2) by simp
qed

text \<open>C28. Destroying a monitor ends its writer thread exactly when there is room in the queue. With room, the thread
  handles everything that is queued and returns after as many rounds, so that \<open>join\<close> returns. When the
  queue is full the shutdown message is dropped without notice: the thread never returns and the
  destructor waits in \<open>join\<close> for ever.\<close>

theorem monitor_shutdown:
  assumes "KatranMonitor_new M cfg = Inr k0" "monitor_reach M k0 k"
  shows "if length (queue k) < unat (queueSize (km_config k))
    then \<exists>k'. rounds M (Suc (length (queue k))) (KatranMonitor_destroy k) = Some k' \<and> writerThread k' = Returned \<and> queue k' = []
    else \<forall>n. \<exists>k'. rounds M n (KatranMonitor_destroy k) = Some k' \<and> writerThread k' = Blocked"
proof -
  have inv: "monitor_inv k" using monitor_reach_inv [OF assms(2) KatranMonitor_new_inv [OF assms(1)]] .
  show ?thesis
  proof (cases "length (queue k) < unat (queueSize (km_config k))")
    case True
    then have d: "KatranMonitor_destroy k = k\<lparr>queue := queue k @ [shutdown_msg]\<rparr>"
      by (simp add: KatranMonitor_destroy_def queue_write_def)
    have "\<forall>m \<in> set (queue k). queue_msg_ok m" using inv by (simp add: monitor_inv_def)
    from rounds_shutdown [OF this, of "KatranMonitor_destroy k" M] show ?thesis using True inv d by (simp add: monitor_inv_def)
  next
    case False
    then have "KatranMonitor_destroy k = k" by (simp add: KatranMonitor_destroy_def queue_write_def)
    then show ?thesis using False rounds_quiet [OF inv] by simp
  qed
qed


text \<open>The events of the balancer are samples of this kind.\<close>

lemma submit_event_ok:
  assumes "unat sz = length (pkt s)" "length (pkt s) < 2 ^ 31" "\<forall>ev \<in> set (event_pipe s). event_ok ev"
  shows "\<forall>ev \<in> set (event_pipe (submit_event e sz only s)). event_ok ev"
proof -
  have "sint sz = uint sz" using sint_ep_num [of "\<lparr>ep_num = sz, ep_weight = 0, ep_hash = 0\<rparr>"] assms(1,2) by simp
  then have "sint sz = int (length (pkt s))" using assms(1) by (metis uint_nat)
  moreover have "word_of_nat (length (pkt s)) = sz" using assms(1) by (simp flip: assms(1))
  ultimately show ?thesis using assms
    by (auto simp: submit_event_def event_ok_def Let_def min_helper_def split: option.split)
qed

section \<open>Witness\<close>

definition ex_monitor_env :: monitor_env where
  "ex_monitor_env = \<lparr>perf_open = (\<lambda>_. True), to_string = (\<lambda>_. ''0''), iobuf_size = (\<lambda>n. n),
     pcap = \<lparr>os_write = (\<lambda>_ _. None), now = (\<lambda>_. 0)\<rparr>\<rparr>"

definition ex_monitor_cfg :: KatranMonitorConfig where
  "ex_monitor_cfg = \<lparr>nCpus = 1, queueSize = 1, pcktLimit = 10, snapLen = 128, maxEvents = 1, path = ''/tmp/katran_pcap'', storage = IOBUF, bufferSize = 1000\<rparr>"

definition ex_monitor :: KatranMonitor where
  "ex_monitor = \<lparr>km_config = ex_monitor_cfg, readers = [0], queue = [],
     km_writer = PcapWriter_multi [make_writer ex_monitor_env ex_monitor_cfg 0] 10 128, writerThread = Blocked\<rparr>"

theorem monitor_shutdown_witness:
  "(\<exists>k'. rounds ex_monitor_env 1 (KatranMonitor_destroy ex_monitor) = Some k' \<and> writerThread k' = Returned) \<and>
   (\<exists>k. stopMonitor ex_monitor = Some k \<and> (\<forall>n. \<exists>k'. rounds ex_monitor_env n (KatranMonitor_destroy k) = Some k' \<and> writerThread k' = Blocked))"
proof -
  have new: "KatranMonitor_new ex_monitor_env ex_monitor_cfg = Inr ex_monitor"
    by (simp add: KatranMonitor_new_def ex_monitor_def ex_monitor_env_def ex_monitor_cfg_def)
  let ?k = "ex_monitor\<lparr>queue := [stop_msg]\<rparr>"
  have st: "stopMonitor ex_monitor = Some ?k"
    by (simp add: stopMonitor_def queue_blockingWrite_def queue_write_def ex_monitor_def ex_monitor_cfg_def)
  have r: "monitor_reach ex_monitor_env ex_monitor ?k" using mon_step [OF mon_start mon_stop [OF st]] .
  show ?thesis using monitor_shutdown [OF new mon_start] monitor_shutdown [OF new r] st
    by (auto simp: ex_monitor_def ex_monitor_cfg_def)
qed

section \<open>From the ring to the capture\<close>

definition handlerReady ::
  "perf_event_mmap_page option \<Rightarrow> KatranMonitor \<Rightarrow> (KatranMonitor \<times> perf_event_mmap_page option) option" where
  "handlerReady header k = BpfAdapter_handlePerfEvent handlePerfEvent header k"

definition records_event :: "bpf_event \<Rightarrow> u8 list \<Rightarrow> bool" where
  "records_event ev r \<longleftrightarrow> event_ok ev \<and> (\<exists>pad. r = perf_record (perf_sample ev pad) \<and> length r < 2 ^ 16)"

definition event_msg :: "bpf_event \<Rightarrow> PcapMsgMeta" where
  "event_msg ev = PcapMsgMeta_new \<lparr>pckt = Some (ev_data ev), origLen = md_pkt_size (ev_meta ev), capturedLen = md_data_len (ev_meta ev)\<rparr> (md_event (ev_meta ev))"

lemma event_msg_ok: "event_ok ev \<Longrightarrow> \<not> isControl (event_msg ev) \<and> msg_ok (msg (event_msg ev))"
  by (simp add: event_msg_def PcapMsgMeta_new_def PcapMsgMeta_empty_def msg_ok_def event_ok_def)

lemma deliver_events:
  assumes "list_all2 records_event evs rs" "length (queue k) \<le> unat (queueSize (km_config k))"
  shows "deliver handlePerfEvent rs k =
    Some (k\<lparr>queue := take (unat (queueSize (km_config k))) (queue k @ map event_msg evs)\<rparr>)"
  using assms
proof (induction arbitrary: k rule: list_all2_induct)
  case (Cons ev evs r rs)
  let ?cap = "unat (queueSize (km_config k))"
  obtain pad where r: "r = perf_record (perf_sample ev pad)" "event_ok ev" "length (perf_sample ev pad) + 12 < 2 ^ 16"
    using Cons.hyps(1) by (auto simp: records_event_def perf_record_def)
  have "handlePerfEvent (perf_sample ev pad) k = Some (snd (queue_write (event_msg ev) k))"
    using handlePerfEvent_ok [OF r(2), of pad k] by (auto simp: event_msg_def)
  then have h: "handle_event handlePerfEvent r k = Some (snd (queue_write (event_msg ev) k))"
    using perf_record_handled [OF r(3), of handlePerfEvent k] r(1) by simp
  show ?case
  proof (cases "length (queue k) < ?cap")
    case True
    then show ?thesis using h Cons.IH [of "k\<lparr>queue := queue k @ [event_msg ev]\<rparr>"] by (simp add: queue_write_def)
  next
    case False
    then have "length (queue k) = ?cap" using Cons.prems by simp
    then show ?thesis using h Cons.IH [of k] by (simp add: queue_write_def)
  qed
qed simp

lemma rounds_captures:
  assumes "captures n snap (km_writer k) c" "reliable_env (pcap M)" "writerThread k = Blocked"
    "\<forall>m \<in> set (queue k). \<not> isControl m \<and> msg_ok (msg m)"
  shows "\<exists>k'. rounds M (length (queue k)) k = Some k' \<and> captures n snap (km_writer k') (captured n snap (queue k) c)"
  using assms(1,3,4)
proof (induction "queue k" arbitrary: k c)
  case (Cons m ms)
  note q = Cons.hyps(2) [symmetric]
  have m: "\<not> isControl m" "msg_ok (msg m)" using Cons.prems(3) q by auto
  obtain w where w: "handle_packet (pcap M) m (km_writer k) = Some w" "captures n snap w (capture_packet n snap m c)"
    using handle_packet_captures [OF Cons.prems(1) assms(2) m(2)] by blast
  let ?k = "k\<lparr>queue := ms, km_writer := w, writerThread := Blocked\<rparr>"
  have "writer_round M k = Some ?k" using q m(1) w(1) by (simp add: writer_round_def)
  moreover have "\<exists>k'. rounds M (length (queue ?k)) ?k = Some k' \<and> captures n snap (km_writer k') (captured n snap (queue ?k) (capture_packet n snap m c))"
    by (rule Cons.hyps(1)) (use w(2) Cons.prems(3) q in auto)
  ultimately show ?case using q m(1) by simp
qed auto

lemma captured_events:
  assumes "unat (cap_amount c) + length evs \<le> unat (cap_limit c)" "\<forall>ev \<in> set evs. event_ok ev" "i < n"
  shows "cap_log (captured n snap (map event_msg evs) c) i =
    cap_log c i @ map (\<lambda>ev. take (unat snap) (ev_data ev)) (filter (\<lambda>ev. unat (md_event (ev_meta ev)) = i) evs)"
  using assms(1,2)
proof (induction evs arbitrary: c)
  case (Cons ev evs)
  let ?c = "capture_packet n snap (event_msg ev) c"
  have "cap_amount c < cap_limit c" using Cons.prems(1) by (simp add: word_less_nat_alt)
  have "Suc (unat (cap_amount c)) < 2 ^ 32" using Cons.prems(1) unsigned_less [of "cap_limit c", where ?'a = nat] by simp
  then have "unat (cap_amount c + 1) = Suc (unat (cap_amount c))" by (simp add: unat_word_ariths)
  then have "unat (cap_amount ?c) + length evs \<le> unat (cap_limit ?c)"
    using Cons.prems(1) by (simp add: capture_packet_def Let_def)
  moreover have "cap_log ?c i = cap_log c i @ (if unat (md_event (ev_meta ev)) = i then [take (unat snap) (ev_data ev)] else [])"
    using \<open>cap_amount c < cap_limit c\<close> assms(3) by (auto simp: capture_packet_def Let_def event_msg_def PcapMsgMeta_new_def)
  ultimately show ?case using Cons.IH [of ?c] Cons.prems(2) event_msg_ok [of ev] by simp
qed simp


lemma make_writers_capture:
  assumes "storage cfg = FILE"
  shows "captures n (snap_of snap) (PcapWriter_multi (map (make_writer M cfg) [0..<n]) limit snap)
    \<lparr>cap_limit = limit, cap_amount = 0, cap_log = (\<lambda>_. [])\<rparr>"
  using assms by (simp add: captures_def PcapWriter_multi_def file_holds_def FileWriter_new_def make_writer_def)

lemma list_all2_event_ok: "list_all2 records_event evs rs \<Longrightarrow> \<forall>ev \<in> set evs. event_ok ev"
  by (induction rule: list_all2_induct) (auto simp: records_event_def)

text \<open>C12. Introspection end to end. Let the kernel write records of events into the ring of a CPU while its reader
  wakes up at any time, and let the number of events not exceed the queue and the packet limit. Then the
  next wake-up of the reader followed by one round of the writer thread per queued message leaves, for
  every event id, a pcap file that reads back as exactly the bytes of the events with that id, in the order in
  which they were reported and cut to the snap length.\<close>

theorem introspection_end_to_end:
  assumes new: "KatranMonitor_new M cfg = Inr k0" "storage cfg = FILE" "reliable_env (pcap M)"
    and run: "perf_run handlePerfEvent k0 page k rs" "list_all2 records_event evs rs"
    and room: "length evs \<le> unat (queueSize cfg)" "length evs \<le> unat (pcktLimit cfg)"
    and i: "i < unat (maxEvents cfg)"
  shows "\<exists>k1 page' k2. handlerReady (Some page) k = Some (k1, page') \<and> queue k1 = map event_msg evs \<and>
    rounds M (length evs) k1 = Some k2 \<and>
    pcap_packets (contents (dataWriters (km_writer k2) ! i)) =
      map (\<lambda>ev. take (unat (snap_of (snapLen cfg))) (ev_data ev)) (filter (\<lambda>ev. unat (md_event (ev_meta ev)) = i) evs)"
proof -
  let ?n = "unat (maxEvents cfg)" and ?snap = "snap_of (snapLen cfg)"
  let ?c = "\<lparr>cap_limit = pcktLimit cfg, cap_amount = 0, cap_log = (\<lambda>_. [])\<rparr>"
  have k0: "queue k0 = []" "km_config k0 = cfg" "writerThread k0 = Blocked"
      "km_writer k0 = PcapWriter_multi (map (make_writer M cfg) [0..<?n]) (pcktLimit cfg) (snapLen cfg)"
    using new(1) by (auto simp: KatranMonitor_new_def Let_def split: if_splits)
  let ?k = "k0\<lparr>queue := map event_msg evs\<rparr>"
  have "deliver handlePerfEvent rs k0 = Some ?k" using deliver_events [OF run(2), of k0] k0 room(1) by simp
  then have ready: "handlerReady (Some page) k = Some (?k, Some (page\<lparr>data_tail := data_head page\<rparr>))"
    using drain_run [OF run(1)] by (simp add: handlerReady_def)
  have ok: "\<forall>ev \<in> set evs. event_ok ev" using run(2) by (rule list_all2_event_ok)
  have "captures ?n ?snap (km_writer ?k) ?c" using make_writers_capture [OF new(2)] k0(4) by simp
  then obtain k2 where k2: "rounds M (length evs) ?k = Some k2"
      "captures ?n ?snap (km_writer k2) (captured ?n ?snap (map event_msg evs) ?c)"
    using rounds_captures [of ?n ?snap ?k ?c M] new(3) k0(3) ok event_msg_ok by auto
  have "pcap_packets (contents (dataWriters (km_writer k2) ! i)) = cap_log (captured ?n ?snap (map event_msg evs) ?c) i"
    using k2(2) i captures_read by blast
  also have "\<dots> = map (\<lambda>ev. take (unat ?snap) (ev_data ev)) (filter (\<lambda>ev. unat (md_event (ev_meta ev)) = i) evs)"
    using captured_events [of ?c evs i ?n ?snap] ok room(2) i by simp
  finally show ?thesis using ready k2(1) by auto
qed


text \<open>One event whose record crosses the end of the ring.\<close>

definition ex_event :: bpf_event where
  "ex_event = \<lparr>ev_meta = \<lparr>md_event = 0, md_pkt_size = 60, md_data_len = 4\<rparr>, ev_data = [1, 2, 3, 4]\<rparr>"

definition ex_event_record :: "u8 list" where
  "ex_event_record = perf_record (perf_sample ex_event [0, 0, 0, 0])"

definition ex_event_page0 :: perf_event_mmap_page where
  "ex_event_page0 = \<lparr>data_head = 48, data_tail = 48, ring = replicate 64 0\<rparr>"

definition ex_event_page :: perf_event_mmap_page where
  "ex_event_page = \<lparr>data_head = 80, data_tail = 48, ring = drop 16 ex_event_record @ replicate 32 0 @ take 16 ex_event_record\<rparr>"

definition ex_file_cfg :: KatranMonitorConfig where
  "ex_file_cfg = ex_monitor_cfg\<lparr>storage := FILE\<rparr>"

theorem introspection_end_to_end_witness:
  "\<exists>k0 k1 page k2. KatranMonitor_new ex_monitor_env ex_file_cfg = Inr k0 \<and> handlerReady (Some ex_event_page) k0 = Some (k1, page) \<and>
     rounds ex_monitor_env 1 k1 = Some k2 \<and> pcap_packets (contents (dataWriters (km_writer k2) ! 0)) = [[1, 2, 3, 4]]"
proof -
  obtain k0 where k0: "KatranMonitor_new ex_monitor_env ex_file_cfg = Inr k0"
    by (simp add: KatranMonitor_new_def ex_monitor_env_def ex_file_cfg_def ex_monitor_cfg_def)
  have "perf_append ex_event_record ex_event_page0 ex_event_page" by code_simp
  moreover have "ring_ok ex_event_page0" "data_head ex_event_page0 = data_tail ex_event_page0" by (simp_all add: ring_ok_def ex_event_page0_def)
  ultimately have run: "perf_run handlePerfEvent k0 ex_event_page k0 ([] @ [ex_event_record])" by (intro run_append run_start)
  have rec: "list_all2 records_event [ex_event] ([] @ [ex_event_record])"
    by (auto simp: records_event_def event_ok_def ex_event_record_def ex_event_def perf_record_def perf_sample_def)
  have "storage ex_file_cfg = FILE" "reliable_env (pcap ex_monitor_env)" "length [ex_event] \<le> unat (queueSize ex_file_cfg)"
    "length [ex_event] \<le> unat (pcktLimit ex_file_cfg)" "0 < unat (maxEvents ex_file_cfg)"
    by (simp_all add: ex_file_cfg_def ex_monitor_cfg_def ex_monitor_env_def reliable_env_def)
  from introspection_end_to_end [OF k0 this(1,2) run rec this(3-5)] show ?thesis
    using k0 by (auto simp: ex_event_def ex_file_cfg_def ex_monitor_cfg_def snap_of_def)
qed

end
