(* ===== verification/Xdpdump.thy ===== *)
theory Xdpdump
  imports Decap Katran_Lb Pcap Perf_Ring
begin

text \<open>
  The capture tool under \<open>src/tools/xdpdump\<close>: the command line of \<open>xdpdump_tool.cpp\<close>, the generation of
  compiler flags and the life cycle of \<open>XdpDump.cpp\<close>, the BPF program of \<open>XdpDumpKern.h\<close>, and the
  reader of \<open>XdpEventReader.cpp\<close> with the logger of \<open>XdpEventLogger.cpp\<close>.
\<close>

section \<open>Filters\<close>

definition kSrcSet :: u8 where [simp]: "kSrcSet = 1"
definition kDstSet :: u8 where [simp]: "kDstSet = 2"
definition kSportSet :: u8 where [simp]: "kSportSet = 4"
definition kDportSet :: u8 where [simp]: "kDportSet = 8"
definition kProtoSet :: u8 where [simp]: "kProtoSet = 16"

text \<open>Unions of an IPv4 and an IPv6 address are an \<open>in6\<close>, whose first word is the IPv4 address.\<close>

record XdpDumpFilter =
  f_srcv6 :: in6
  f_dstv6 :: in6
  f_sport :: u16
  f_dport :: u16
  f_proto :: u8
  f_ipv6 :: bool
  f_offset :: u16
  f_offset_len :: u16
  f_pattern :: u32
  f_map_path :: string
  f_flags :: u8
  f_count :: u64
  f_mute :: bool
  f_cpu :: int
  f_pages :: int

definition XdpDumpFilter_zero :: XdpDumpFilter where
  "XdpDumpFilter_zero = \<lparr>f_srcv6 = in6_zero, f_dstv6 = in6_zero, f_sport = 0, f_dport = 0, f_proto = 0, f_ipv6 = False,
     f_offset = 0, f_offset_len = 0, f_pattern = 0, f_map_path = [], f_flags = 0, f_count = 0, f_mute = False, f_cpu = 0, f_pages = 0\<rparr>"

text \<open>The command line. Addresses that do not parse throw in \<open>IpHelpers\<close>; \<open>None\<close> is an empty flag.\<close>

record dump_options =
  FLAGS_src :: "IPAddress option"
  FLAGS_dst :: "IPAddress option"
  FLAGS_sport :: int
  FLAGS_dport :: int
  FLAGS_proto :: int
  FLAGS_offset :: int
  FLAGS_offset_len :: int
  FLAGS_cpu :: int
  FLAGS_pattern :: int
  FLAGS_map_path :: string
  FLAGS_pcap_path :: string
  FLAGS_packet_limit :: int
  FLAGS_clear :: bool
  FLAGS_mute :: bool
  FLAGS_snaplen :: int
  FLAGS_bpf_mmap_pages :: int

definition set_src :: "dump_options \<Rightarrow> XdpDumpFilter \<Rightarrow> XdpDumpFilter" where
  "set_src opts flt = (case FLAGS_src opts of
       None \<Rightarrow> flt
     | Some a \<Rightarrow>
         let flt = flt\<lparr>f_flags := f_flags flt OR kSrcSet\<rparr>; src_addr = parseAddrToBe a True in
         if be_flags src_addr > 0 then flt\<lparr>f_srcv6 := be_v6daddr src_addr, f_ipv6 := True\<rparr>
         else flt\<lparr>f_srcv6 := (f_srcv6 flt)\<lparr>s6_0 := s6_0 (be_v6daddr src_addr)\<rparr>\<rparr>)"

definition set_dst :: "dump_options \<Rightarrow> XdpDumpFilter \<Rightarrow> XdpDumpFilter option" where
  "set_dst opts flt = (case FLAGS_dst opts of
       None \<Rightarrow> Some flt
     | Some a \<Rightarrow>
         let flt = flt\<lparr>f_flags := f_flags flt OR kDstSet\<rparr>; dst_addr = parseAddrToBe a True in
         if be_flags dst_addr > 0 then
           (if FLAGS_src opts \<noteq> None \<and> \<not> f_ipv6 flt then None
            else Some (flt\<lparr>f_dstv6 := be_v6daddr dst_addr\<rparr>))
         else
           (if f_ipv6 flt then None
            else Some (flt\<lparr>f_dstv6 := (f_dstv6 flt)\<lparr>s6_0 := s6_0 (be_v6daddr dst_addr)\<rparr>\<rparr>)))"

text \<open>\<open>None\<close> is the exit with status \<open>-1\<close>.\<close>

definition parse_options :: "dump_options \<Rightarrow> XdpDumpFilter option" where
  "parse_options opts = do {
     flt \<leftarrow> set_dst opts (set_src opts XdpDumpFilter_zero);
     if FLAGS_snaplen opts < 0 \<or> FLAGS_snaplen opts > 0xFFFF then None
     else do {
       let flt = (if FLAGS_sport opts \<noteq> 0 then flt\<lparr>f_flags := f_flags flt OR kSportSet, f_sport := of_int (FLAGS_sport opts)\<rparr> else flt);
       let flt = (if FLAGS_dport opts \<noteq> 0 then flt\<lparr>f_flags := f_flags flt OR kDportSet, f_dport := of_int (FLAGS_dport opts)\<rparr> else flt);
       let flt = (if FLAGS_proto opts \<noteq> 0 then flt\<lparr>f_flags := f_flags flt OR kProtoSet, f_proto := of_int (FLAGS_proto opts)\<rparr> else flt);
       Some (flt\<lparr>f_offset := of_int (FLAGS_offset opts), f_offset_len := of_int (FLAGS_offset_len opts),
         f_pattern := of_int (FLAGS_pattern opts), f_map_path := FLAGS_map_path opts, f_mute := FLAGS_mute opts,
         f_cpu := FLAGS_cpu opts, f_pages := FLAGS_bpf_mmap_pages opts\<rparr>)
     }
   }"

text \<open>The flags \<open>-DNAME=value\<close>, as pairs of name and value.\<close>

type_synonym cflags = "(string \<times> int) list"

definition prepareCflags :: "XdpDumpFilter \<Rightarrow> cflags" where
  "prepareCflags f =
     (if f_ipv6 f then
        (if f_flags f AND kSrcSet > 0
         then [(''SRCV6_0'', uint (s6_0 (f_srcv6 f))), (''SRCV6_1'', uint (s6_1 (f_srcv6 f))),
               (''SRCV6_2'', uint (s6_2 (f_srcv6 f))), (''SRCV6_3'', uint (s6_3 (f_srcv6 f)))] else []) @
        (if f_flags f AND kDstSet > 0
         then [(''DSTV6_0'', uint (s6_0 (f_dstv6 f))), (''DSTV6_1'', uint (s6_1 (f_dstv6 f))),
               (''DSTV6_2'', uint (s6_2 (f_dstv6 f))), (''DSTV6_3'', uint (s6_3 (f_dstv6 f)))] else [])
      else
        (if f_flags f AND kSrcSet > 0 then [(''SRCV4'', uint (s6_0 (f_srcv6 f)))] else []) @
        (if f_flags f AND kDstSet > 0 then [(''DSTV4'', uint (s6_0 (f_dstv6 f)))] else [])) @
     (if f_flags f AND kSportSet > 0 then [(''SPORT'', uint (bswap16 (f_sport f)))] else []) @
     (if f_flags f AND kDportSet > 0 then [(''DPORT'', uint (bswap16 (f_dport f)))] else []) @
     (if f_flags f AND kProtoSet > 0 then [(''PROTO'', uint (f_proto f))] else []) @
     (if f_offset_len f > 0
      then [(''OFFSET'', uint (f_offset f)), (''O_LEN'', uint (f_offset_len f)), (''O_PATTERN'', uint (f_pattern f))] else []) @
     (if f_count f > 0 then [(''COUNT'', uint (f_count f))] else []) @
     (if f_cpu f \<ge> 0 then [(''CPU_NUMBER'', f_cpu f)] else [])"

section \<open>The BPF program\<close>

definition MAX_LEN :: u16 where [simp]: "MAX_LEN = 128"

record XdpDumpOutput =
  o_srcv6 :: in6
  o_dstv6 :: in6
  o_ipv6 :: bool
  o_sport :: u16
  o_dport :: u16
  o_proto :: u8
  o_pkt_size :: u16
  o_data_len :: u16

text \<open>What \<open>perf_submit_skb\<close> writes: the struct and the first bytes of the packet.\<close>

record dump_event =
  de_output :: XdpDumpOutput
  de_data :: "u8 list"




definition macro :: "cflags \<Rightarrow> string \<Rightarrow> int" where
  "macro c n = (case map_of c n of None \<Rightarrow> 0 | Some v \<Rightarrow> v)"

definition ifdef :: "cflags \<Rightarrow> string \<Rightarrow> bool \<Rightarrow> bool" where
  "ifdef c n b = (map_of c n \<noteq> None \<longrightarrow> b)"

definition match_flow :: "cflags \<Rightarrow> flow_key \<Rightarrow> bool" where
  "match_flow c pd \<longleftrightarrow>
     ifdef c ''SRCV6_0'' (uint (s6_0 (srcv6 pd)) = macro c ''SRCV6_0'' \<and> uint (s6_1 (srcv6 pd)) = macro c ''SRCV6_1'' \<and>
       uint (s6_2 (srcv6 pd)) = macro c ''SRCV6_2'' \<and> uint (s6_3 (srcv6 pd)) = macro c ''SRCV6_3'') \<and>
     ifdef c ''DSTV6_0'' (uint (s6_0 (dstv6 pd)) = macro c ''DSTV6_0'' \<and> uint (s6_1 (dstv6 pd)) = macro c ''DSTV6_1'' \<and>
       uint (s6_2 (dstv6 pd)) = macro c ''DSTV6_2'' \<and> uint (s6_3 (dstv6 pd)) = macro c ''DSTV6_3'') \<and>
     ifdef c ''SRCV4'' (uint (s6_0 (srcv6 pd)) = macro c ''SRCV4'') \<and>
     ifdef c ''DSTV4'' (uint (s6_0 (dstv6 pd)) = macro c ''DSTV4'') \<and>
     ifdef c ''SPORT'' (uint (port16_0 pd) = macro c ''SPORT'') \<and>
     ifdef c ''DPORT'' (uint (port16_1 pd) = macro c ''DPORT'') \<and>
     ifdef c ''PROTO'' (uint (proto pd) = macro c ''PROTO'')"



definition dump_output :: "packet \<Rightarrow> bool \<Rightarrow> flow_key \<Rightarrow> dump_event" where
  "dump_output p is_ipv6 pd =
     (let pkt_size = word_of_nat (length p);
          data_len = (if pkt_size < MAX_LEN then pkt_size else MAX_LEN) in
      \<lparr>de_output = \<lparr>o_srcv6 = (if is_ipv6 then srcv6 pd else in6_zero\<lparr>s6_0 := s6_0 (srcv6 pd)\<rparr>),
         o_dstv6 = (if is_ipv6 then dstv6 pd else in6_zero\<lparr>s6_0 := s6_0 (dstv6 pd)\<rparr>), o_ipv6 = is_ipv6,
         o_sport = port16_0 pd, o_dport = port16_1 pd, o_proto = proto pd, o_pkt_size = pkt_size, o_data_len = data_len\<rparr>,
       de_data = take (unat data_len) p\<rparr>)"




section \<open>Reading events\<close>

definition sizeof_XdpDumpOutput :: nat where [simp]: "sizeof_XdpDumpOutput = 44"

text \<open>The struct with the padding the compiler inserts after \<open>ipv6\<close> and after \<open>proto\<close>.\<close>

definition enc_XdpDumpOutput :: "XdpDumpOutput \<Rightarrow> u8 list" where
  "enc_XdpDumpOutput m = enc_in6 (o_srcv6 m) @ enc_in6 (o_dstv6 m) @ [if o_ipv6 m then 1 else 0, 0] @ bytes16 (o_sport m) @
     bytes16 (o_dport m) @ [o_proto m, 0] @ bytes16 (o_pkt_size m) @ bytes16 (o_data_len m)"

definition dec_XdpDumpOutput :: "u8 list \<Rightarrow> XdpDumpOutput" where
  "dec_XdpDumpOutput bs = \<lparr>o_srcv6 = dec_in6 (slice bs 0 16), o_dstv6 = dec_in6 (slice bs 16 16), o_ipv6 = (bs ! 32 \<noteq> 0),
     o_sport = le16 (slice bs 34 2), o_dport = le16 (slice bs 36 2), o_proto = bs ! 38,
     o_pkt_size = le16 (slice bs 40 2), o_data_len = le16 (slice bs 42 2)\<rparr>"

record XdpEventInfo =
  info_data_len :: u32
  info_hdr_size :: nat
  info_pkt_size :: u32

text \<open>The logger keeps the structs it prints; how they are printed is not modelled.\<close>

record XdpEventReader =
  xr_mute :: bool
  xr_logged :: "XdpDumpOutput list"
  xr_queue :: "PcapMsg list option"
  xr_queueFull :: nat

definition kQueueCapacity :: nat where [simp]: "kQueueCapacity = 2048"

definition ProgLogger_handlePerfEvent :: "u8 list \<Rightarrow> XdpEventReader \<Rightarrow> (XdpEventInfo \<times> XdpEventReader) option" where
  "ProgLogger_handlePerfEvent data r = do {
     bs \<leftarrow> ldn data 0 sizeof_XdpDumpOutput;
     let m = dec_XdpDumpOutput bs;
     Some (\<lparr>info_data_len = ucast (o_data_len m), info_hdr_size = sizeof_XdpDumpOutput, info_pkt_size = ucast (o_pkt_size m)\<rparr>,
       if xr_mute r then r else r\<lparr>xr_logged := xr_logged r @ [m]\<rparr>)
   }"

definition XdpEventReader_handlePerfEvent :: "u8 list \<Rightarrow> XdpEventReader \<Rightarrow> XdpEventReader option" where
  "XdpEventReader_handlePerfEvent data r = do {
     (info, r) \<leftarrow> ProgLogger_handlePerfEvent data r;
     (case xr_queue r of
        None \<Rightarrow> Some r
      | Some q \<Rightarrow> do {
          pcap_msg \<leftarrow> PcapMsg_new (Some (drop (info_hdr_size info) data)) (info_pkt_size info) (info_data_len info);
          Some (if length q < kQueueCapacity then r\<lparr>xr_queue := Some (q @ [pcap_msg])\<rparr>
                else r\<lparr>xr_queueFull := xr_queueFull r + 1\<rparr>)
        })
   }"

definition XdpEventReader_handlerReady ::
  "perf_event_mmap_page option \<Rightarrow> XdpEventReader \<Rightarrow> (XdpEventReader \<times> perf_event_mmap_page option) option" where
  "XdpEventReader_handlerReady header r = perfEventHandler XdpEventReader_handlePerfEvent header r"

section \<open>Life cycle\<close>

text \<open>
  \<open>getPossibleCpus\<close>: \<open>sscanf\<close> gives the two numbers of a line or fails. The result is \<open>None\<close> when the
  process exits.
\<close>

fun possible_cpus :: "(u32 \<times> u32) option list \<Rightarrow> u32" where
  "possible_cpus [] = 0"
| "possible_cpus (None # lines) = possible_cpus lines"
| "possible_cpus (Some (start, end) # lines) = (if start = 0 then end + 1 else 0)"

definition dump_getPossibleCpus :: "(u32 \<times> u32) option list option \<Rightarrow> u32 option" where
  "dump_getPossibleCpus file = (case file of
       None \<Rightarrow> None
     | Some lines \<Rightarrow> if possible_cpus lines = 0 then None else Some (possible_cpus lines))"

text \<open>
  The system around \<open>XdpDump\<close>: what the calls of bcc and of the kernel return. The state is slot 0 of the root
  array, where \<open>None\<close> is an empty slot.
\<close>

record dump_env =
  obj_get_ok :: "string \<Rightarrow> bool"
  compile_ok :: "cflags \<Rightarrow> bool"
  table_fd_ok :: bool
  function_start_ok :: bool
  prog_load :: "cflags \<Rightarrow> int option"
  cpu_file :: "(u32 \<times> u32) option list option"
  reader_open :: "nat \<Rightarrow> bool"
  update_ok :: bool
  delete_ok :: bool

datatype dump_error = Dump_runtime_error | Dump_exit

text \<open>\<open>load_string\<close> reports a failed compilation by its result, which is not looked at.\<close>

definition XdpDump_compile :: "dump_env \<Rightarrow> cflags \<Rightarrow> bool" where
  "XdpDump_compile E cflags = compile_ok E cflags"

text \<open>A module that was not compiled has neither the map nor the function.\<close>

definition XdpDump_load :: "dump_env \<Rightarrow> bool \<Rightarrow> cflags \<Rightarrow> dump_error + int" where
  "XdpDump_load E compiled cflags =
     (if \<not> (compiled \<and> table_fd_ok E) then Inl Dump_runtime_error
      else if \<not> function_start_ok E then Inl Dump_runtime_error
      else (case prog_load E cflags of None \<Rightarrow> Inl Dump_runtime_error | Some fd \<Rightarrow> Inr fd))"

definition XdpDump_startEventReaders :: "dump_env \<Rightarrow> dump_error + nat list" where
  "XdpDump_startEventReaders E = (case dump_getPossibleCpus (cpu_file E) of
       None \<Rightarrow> Inl Dump_exit
     | Some numCpu \<Rightarrow>
         let rs = filter (reader_open E) [0..<unat numCpu] in
         if rs = [] then Inl Dump_runtime_error else Inr rs)"

definition XdpDump_attach :: "dump_env \<Rightarrow> int \<Rightarrow> int option \<Rightarrow> dump_error option \<times> int option" where
  "XdpDump_attach E progFd jmp0 = (if update_ok E then (None, Some progFd) else (Some Dump_runtime_error, jmp0))"

definition XdpDump_detach :: "dump_env \<Rightarrow> int option \<Rightarrow> dump_error option \<times> int option" where
  "XdpDump_detach E jmp0 = (if delete_ok E then (None, None) else (Some Dump_runtime_error, jmp0))"

text \<open>\<open>run\<close> from the start to the end of \<open>sleepForever\<close> and the detaching after it.\<close>

definition XdpDump_run :: "dump_env \<Rightarrow> XdpDumpFilter \<Rightarrow> int option \<Rightarrow> dump_error option \<times> int option" where
  "XdpDump_run E f jmp0 =
     (if \<not> obj_get_ok E (f_map_path f) then (Some Dump_runtime_error, jmp0)
      else (case XdpDump_load E (XdpDump_compile E (prepareCflags f)) (prepareCflags f) of
          Inl e \<Rightarrow> (Some e, jmp0)
        | Inr progFd \<Rightarrow>
            (case XdpDump_startEventReaders E of
               Inl e \<Rightarrow> (Some e, jmp0)
             | Inr readers \<Rightarrow>
                 (case XdpDump_attach E progFd jmp0 of
                    (Some e, jmp0) \<Rightarrow> (Some e, jmp0)
                  | (None, jmp0) \<Rightarrow> XdpDump_detach E jmp0))))"

definition XdpDump_clear :: "dump_env \<Rightarrow> XdpDumpFilter \<Rightarrow> int option \<Rightarrow> dump_error option \<times> int option" where
  "XdpDump_clear E f jmp0 =
     (if \<not> obj_get_ok E (f_map_path f) then (Some Dump_runtime_error, jmp0) else XdpDump_detach E jmp0)"

definition dump_writer :: "dump_options \<Rightarrow> PcapWriter option" where
  "dump_writer opts =
     (if FLAGS_pcap_path opts = [] then None
      else Some (PcapWriter_single (File (FileWriter_new (FLAGS_pcap_path opts))) (of_int (FLAGS_packet_limit opts)) (of_int (FLAGS_snaplen opts))))"

text \<open>The status of the process and slot 0 afterwards; runtime errors of \<open>XdpDump\<close> are logged and swallowed.\<close>

definition dump_main :: "dump_env \<Rightarrow> dump_options \<Rightarrow> int option \<Rightarrow> int \<times> int option" where
  "dump_main E opts jmp0 = (case parse_options opts of
       None \<Rightarrow> (-1, jmp0)
     | Some f \<Rightarrow>
         (case (if FLAGS_clear opts then XdpDump_clear E f jmp0 else XdpDump_run E f jmp0) of
            (Some Dump_exit, jmp0) \<Rightarrow> (1, jmp0)
          | (_, jmp0) \<Rightarrow> (0, jmp0)))"

text \<open>\<open>stop\<close>: the message that ends the writer, or \<open>None\<close> when there is no queue and the event loop ends.\<close>

definition XdpDump_stop :: "XdpEventReader \<Rightarrow> XdpEventReader option" where
  "XdpDump_stop r = (case xr_queue r of
       None \<Rightarrow> Some r
     | Some q \<Rightarrow> if length q < kQueueCapacity
         then Some (r\<lparr>xr_queue := Some (q @ [\<lparr>pckt = None, origLen = 0, capturedLen = 0\<rparr>])\<rparr>) else None)"

section \<open>What is captured\<close>












lemma cflags_lookup:
  "map_of (prepareCflags f) ''SRCV6_0'' = (if f_ipv6 f \<and> f_flags f AND kSrcSet > 0 then Some (uint (s6_0 (f_srcv6 f))) else None)"
  "map_of (prepareCflags f) ''SRCV6_1'' = (if f_ipv6 f \<and> f_flags f AND kSrcSet > 0 then Some (uint (s6_1 (f_srcv6 f))) else None)"
  "map_of (prepareCflags f) ''SRCV6_2'' = (if f_ipv6 f \<and> f_flags f AND kSrcSet > 0 then Some (uint (s6_2 (f_srcv6 f))) else None)"
  "map_of (prepareCflags f) ''SRCV6_3'' = (if f_ipv6 f \<and> f_flags f AND kSrcSet > 0 then Some (uint (s6_3 (f_srcv6 f))) else None)"
  "map_of (prepareCflags f) ''DSTV6_0'' = (if f_ipv6 f \<and> f_flags f AND kDstSet > 0 then Some (uint (s6_0 (f_dstv6 f))) else None)"
  "map_of (prepareCflags f) ''DSTV6_1'' = (if f_ipv6 f \<and> f_flags f AND kDstSet > 0 then Some (uint (s6_1 (f_dstv6 f))) else None)"
  "map_of (prepareCflags f) ''DSTV6_2'' = (if f_ipv6 f \<and> f_flags f AND kDstSet > 0 then Some (uint (s6_2 (f_dstv6 f))) else None)"
  "map_of (prepareCflags f) ''DSTV6_3'' = (if f_ipv6 f \<and> f_flags f AND kDstSet > 0 then Some (uint (s6_3 (f_dstv6 f))) else None)"
  "map_of (prepareCflags f) ''SRCV4'' = (if \<not> f_ipv6 f \<and> f_flags f AND kSrcSet > 0 then Some (uint (s6_0 (f_srcv6 f))) else None)"
  "map_of (prepareCflags f) ''DSTV4'' = (if \<not> f_ipv6 f \<and> f_flags f AND kDstSet > 0 then Some (uint (s6_0 (f_dstv6 f))) else None)"
  "map_of (prepareCflags f) ''SPORT'' = (if f_flags f AND kSportSet > 0 then Some (uint (bswap16 (f_sport f))) else None)"
  "map_of (prepareCflags f) ''DPORT'' = (if f_flags f AND kDportSet > 0 then Some (uint (bswap16 (f_dport f))) else None)"
  "map_of (prepareCflags f) ''PROTO'' = (if f_flags f AND kProtoSet > 0 then Some (uint (f_proto f)) else None)"
  "map_of (prepareCflags f) ''OFFSET'' = (if f_offset_len f > 0 then Some (uint (f_offset f)) else None)"
  "map_of (prepareCflags f) ''O_LEN'' = (if f_offset_len f > 0 then Some (uint (f_offset_len f)) else None)"
  "map_of (prepareCflags f) ''O_PATTERN'' = (if f_offset_len f > 0 then Some (uint (f_pattern f)) else None)"
  "map_of (prepareCflags f) ''CPU_NUMBER'' = (if f_cpu f \<ge> 0 then Some (f_cpu f) else None)"
  by (simp_all add: prepareCflags_def del: kSrcSet_def kDstSet_def kSportSet_def kDportSet_def kProtoSet_def)


lemma in6_eq_iff: "a = b \<longleftrightarrow> s6_0 a = s6_0 b \<and> s6_1 a = s6_1 b \<and> s6_2 a = s6_2 b \<and> s6_3 a = s6_3 (b :: in6)"
  by (cases a; cases b) simp

lemma uint_eq_iff: "uint a = uint b \<longleftrightarrow> a = (b :: 'a::len word)"
  by (rule unsigned_word_eqI [THEN iffI, rotated]) auto

lemma match_flow_filter:
  "match_flow (prepareCflags f) fl \<longleftrightarrow>
     (f_flags f AND kSrcSet > 0 \<longrightarrow> (if f_ipv6 f then srcv6 fl = f_srcv6 f else s6_0 (srcv6 fl) = s6_0 (f_srcv6 f))) \<and>
     (f_flags f AND kDstSet > 0 \<longrightarrow> (if f_ipv6 f then dstv6 fl = f_dstv6 f else s6_0 (dstv6 fl) = s6_0 (f_dstv6 f))) \<and>
     (f_flags f AND kSportSet > 0 \<longrightarrow> port16_0 fl = bswap16 (f_sport f)) \<and>
     (f_flags f AND kDportSet > 0 \<longrightarrow> port16_1 fl = bswap16 (f_dport f)) \<and>
     (f_flags f AND kProtoSet > 0 \<longrightarrow> proto fl = f_proto f)"
  by (auto simp: match_flow_def ifdef_def macro_def cflags_lookup in6_eq_iff uint_eq_iff
      simp del: kSrcSet_def kDstSet_def kSportSet_def kDportSet_def kProtoSet_def)


lemma be_family [simp]: "0 < be_flags (parseAddrToBe x True) \<longleftrightarrow> \<not> isV4 x"
  by (cases x) (simp_all add: parseAddrToBe_def Let_def)


lemma parse_options_eq:
  "parse_options opts = Some f \<longleftrightarrow> (\<exists>g. set_dst opts (set_src opts XdpDumpFilter_zero) = Some g \<and>
     0 \<le> FLAGS_snaplen opts \<and> FLAGS_snaplen opts \<le> 0xFFFF \<and>
     f = g\<lparr>f_flags := f_flags g OR (if FLAGS_sport opts = 0 then 0 else 4) OR (if FLAGS_dport opts = 0 then 0 else 8) OR (if FLAGS_proto opts = 0 then 0 else 16),
       f_sport := (if FLAGS_sport opts = 0 then f_sport g else of_int (FLAGS_sport opts)),
       f_dport := (if FLAGS_dport opts = 0 then f_dport g else of_int (FLAGS_dport opts)),
       f_proto := (if FLAGS_proto opts = 0 then f_proto g else of_int (FLAGS_proto opts)),
       f_offset := of_int (FLAGS_offset opts), f_offset_len := of_int (FLAGS_offset_len opts),
       f_pattern := of_int (FLAGS_pattern opts), f_map_path := FLAGS_map_path opts, f_mute := FLAGS_mute opts,
       f_cpu := FLAGS_cpu opts, f_pages := FLAGS_bpf_mmap_pages opts\<rparr>)"
  by (cases "set_dst opts (set_src opts XdpDumpFilter_zero)") (auto simp: parse_options_def Let_def or.assoc)









text \<open>An IPv6 destination without a source is compared by its first 32 bits only: the command line does not set
  \<open>ipv6\<close> in this case, so the macro for IPv4 is generated from the first word of the address, and packets
  to any address with that prefix, or to the IPv4 address with the same bits, are captured too.\<close>

theorem v6_destination_alone_matches_prefix:
  assumes "FLAGS_src opts = None" "FLAGS_dst opts = Some (IPv6 a)"
    "FLAGS_sport opts = 0" "FLAGS_dport opts = 0" "FLAGS_proto opts = 0" "0 \<le> FLAGS_snaplen opts" "FLAGS_snaplen opts \<le> 65535"
  shows "\<exists>f. parse_options opts = Some f \<and> (\<forall>fl. match_flow (prepareCflags f) fl \<longleftrightarrow> s6_0 (dstv6 fl) = s6_0 a)"
proof -
  obtain g where g: "set_dst opts (set_src opts XdpDumpFilter_zero) = Some g" "f_flags g = 2" "\<not> f_ipv6 g" "f_dstv6 g = a"
    using assms(1,2) by (simp add: set_dst_def set_src_def XdpDumpFilter_zero_def parseAddrToBe_def Let_def)
  then obtain f where "parse_options opts = Some f" "f_flags f = 2" "\<not> f_ipv6 f" "f_dstv6 f = a"
    using assms(3-7) unfolding parse_options_eq by auto
  then show ?thesis by (auto simp: match_flow_filter)
qed

section \<open>From the ring to the file\<close>

definition dump_sample :: "dump_event \<Rightarrow> u8 list \<Rightarrow> u8 list" where
  "dump_sample ev pad = enc_XdpDumpOutput (de_output ev) @ de_data ev @ pad"

definition dump_event_ok :: "dump_event \<Rightarrow> bool" where
  "dump_event_ok ev \<longleftrightarrow> length (de_data ev) = unat (o_data_len (de_output ev))"

lemma dump_output_ok: "length p < 2 ^ 16 \<Longrightarrow> dump_event_ok (dump_output p v6 fl)"
  by (auto simp: dump_event_ok_def dump_output_def Let_def word_less_nat_alt unat_of_nat)

lemma length_enc_XdpDumpOutput [simp]: "length (enc_XdpDumpOutput m) = 44"
  by (simp add: enc_XdpDumpOutput_def)

lemma dec_enc_XdpDumpOutput [simp]: "dec_XdpDumpOutput (enc_XdpDumpOutput m) = m"
  by (simp add: dec_XdpDumpOutput_def enc_XdpDumpOutput_def nth_append)

definition dump_msg :: "dump_event \<Rightarrow> PcapMsg" where
  "dump_msg ev = \<lparr>pckt = Some (de_data ev), origLen = ucast (o_pkt_size (de_output ev)), capturedLen = ucast (o_data_len (de_output ev))\<rparr>"

definition records_dump :: "dump_event \<Rightarrow> u8 list \<Rightarrow> bool" where
  "records_dump ev r \<longleftrightarrow> dump_event_ok ev \<and> (\<exists>pad. r = perf_record (dump_sample ev pad) \<and> length r < 2 ^ 16)"

lemma unat_ucast_16_32 [simp]: "unat (ucast (x :: u16) :: u32) = unat x"
  using unsigned_less [of x, where ?'a = nat] by (simp add: unsigned_ucast_eq take_bit_nat_def)

lemma dump_msg_ok: "dump_event_ok ev \<Longrightarrow> msg_ok (dump_msg ev)"
  by (simp add: dump_msg_def msg_ok_def dump_event_ok_def)

lemma dump_event_read:
  assumes "dump_event_ok ev" "xr_queue r = Some q"
  shows "XdpEventReader_handlePerfEvent (dump_sample ev pad) r =
    (let r = (if xr_mute r then r else r\<lparr>xr_logged := xr_logged r @ [de_output ev]\<rparr>) in
     Some (if length q < kQueueCapacity then r\<lparr>xr_queue := Some (q @ [dump_msg ev])\<rparr> else r\<lparr>xr_queueFull := xr_queueFull r + 1\<rparr>))"
proof -
  have "ldn (dump_sample ev pad) 0 44 = Some (enc_XdpDumpOutput (de_output ev))" by (simp add: ldn_def dump_sample_def)
  moreover have "drop 44 (dump_sample ev pad) = de_data ev @ pad" by (simp add: dump_sample_def)
  ultimately show ?thesis using assms
    by (simp add: XdpEventReader_handlePerfEvent_def ProgLogger_handlePerfEvent_def PcapMsg_new_def dump_event_ok_def dump_msg_def Let_def)
qed

lemma deliver_dumps:
  assumes "list_all2 records_dump evs rs" "xr_queue r = Some q" "length q + length evs \<le> kQueueCapacity"
  shows "\<exists>r'. deliver XdpEventReader_handlePerfEvent rs r = Some r' \<and> xr_queue r' = Some (q @ map dump_msg evs) \<and>
    xr_logged r' = xr_logged r @ (if xr_mute r then [] else map de_output evs)"
  using assms
proof (induction arbitrary: r q rule: list_all2_induct)
  case (Cons ev evs r' rs)
  obtain pad where p: "r' = perf_record (dump_sample ev pad)" "dump_event_ok ev" "length (dump_sample ev pad) + 12 < 2 ^ 16"
    using Cons.hyps(1) by (auto simp: records_dump_def perf_record_def)
  let ?r = "(if xr_mute r then r else r\<lparr>xr_logged := xr_logged r @ [de_output ev]\<rparr>)\<lparr>xr_queue := Some (q @ [dump_msg ev])\<rparr>"
  have "handle_event XdpEventReader_handlePerfEvent r' r = Some ?r"
    using perf_record_handled [OF p(3), of XdpEventReader_handlePerfEvent r] dump_event_read [OF p(2) Cons.prems(1), of pad] p(1) Cons.prems(2)
    by (simp add: Let_def)
  then show ?case using Cons.IH [of ?r "q @ [dump_msg ev]"] Cons.prems(2) by (cases "xr_mute r") simp_all
qed simp

text \<open>C30. A capture with \<open>xdpdump\<close> reads back. Let the kernel write the records of captured packets into the ring of a CPU
  while its reader wakes up at any time. As long as the queue and the packet limit (0 for none) are not exceeded, the
  writer thread leaves a file that reads back as exactly the captured bytes of these packets, in order and cut to the snap
  length, and an unmuted logger has printed one line per packet.\<close>

theorem xdpdump_file_reads_back:
  assumes w: "dump_writer opts = Some w" and E: "reliable_env E"
    and run: "perf_run XdpEventReader_handlePerfEvent r0 page r rs" "list_all2 records_dump evs rs" "xr_queue r0 = Some []"
    and room: "length evs \<le> kQueueCapacity"
      "(of_int (FLAGS_packet_limit opts) :: u32) = 0 \<or> length evs \<le> unat (of_int (FLAGS_packet_limit opts) :: u32)"
  shows "\<exists>r1 page' q st w'. XdpEventReader_handlerReady (Some page) r = Some (r1, page') \<and> xr_queue r1 = Some q \<and> Pcap.run E q w = Some (st, w') \<and>
    pcap_packets (contents (dataWriters w' ! 0)) = map (\<lambda>ev. take (unat (snap_of (of_int (FLAGS_snaplen opts)))) (de_data ev)) evs \<and>
    xr_logged r1 = xr_logged r0 @ (if xr_mute r0 then [] else map de_output evs)"
proof -
  from deliver_dumps [OF run(2,3)] room(1) obtain r1 where r1: "deliver XdpEventReader_handlePerfEvent rs r0 = Some r1"
    "xr_queue r1 = Some (map dump_msg evs)" "xr_logged r1 = xr_logged r0 @ (if xr_mute r0 then [] else map de_output evs)" by auto
  have "XdpEventReader_handlerReady (Some page) r = Some (r1, Some (page\<lparr>data_tail := data_head page\<rparr>))"
    using drain_run [OF run(1)] r1(1) by (simp add: XdpEventReader_handlerReady_def perfEventHandler_def)
  moreover have "\<forall>m \<in> set (map dump_msg evs). msg_ok m"
    using run(2) dump_msg_ok by (auto simp: records_dump_def list_all2_conv_all_nth in_set_conv_nth)
  then obtain st w' where "Pcap.run E (map dump_msg evs) w = Some (st, w')"
    "pcap_packets (contents (dataWriters w' ! 0)) = map (\<lambda>ev. take (unat (snap_of (of_int (FLAGS_snaplen opts)))) (de_data ev)) evs"
    using run_captures [OF E, of "map dump_msg evs" "of_int (FLAGS_packet_limit opts)" "FLAGS_pcap_path opts" "of_int (FLAGS_snaplen opts)"] w room(2)
    by (auto simp: dump_writer_def dump_msg_def comp_def split: if_splits)
  ultimately show ?thesis using r1(2,3) by blast
qed

section \<open>Witnesses\<close>

definition ex_opts :: dump_options where
  "ex_opts = \<lparr>FLAGS_src = None, FLAGS_dst = Some (IPv4 0x0100000A), FLAGS_sport = 0, FLAGS_dport = 80, FLAGS_proto = 6, FLAGS_offset = 0,
     FLAGS_offset_len = 0, FLAGS_cpu = -1, FLAGS_pattern = 0, FLAGS_map_path = ''m'', FLAGS_pcap_path = ''p'', FLAGS_packet_limit = 0,
     FLAGS_clear = False, FLAGS_mute = True, FLAGS_snaplen = 0, FLAGS_bpf_mmap_pages = 2\<rparr>"



theorem v6_destination_alone_matches_prefix_witness:
  "\<exists>f. parse_options (ex_opts\<lparr>FLAGS_dst := Some (IPv6 \<lparr>s6_0 = 0xfc, s6_1 = 0, s6_2 = 0, s6_3 = 1\<rparr>), FLAGS_dport := 0, FLAGS_proto := 0\<rparr>) = Some f \<and>
     match_flow (prepareCflags f) (flow_zero\<lparr>dstv6 := \<lparr>s6_0 = 0xfc, s6_1 = 0, s6_2 = 0, s6_3 = 2\<rparr>\<rparr>)"
  using v6_destination_alone_matches_prefix [of
      "ex_opts\<lparr>FLAGS_dst := Some (IPv6 \<lparr>s6_0 = 0xfc, s6_1 = 0, s6_2 = 0, s6_3 = 1\<rparr>), FLAGS_dport := 0, FLAGS_proto := 0\<rparr>"]
  by (auto simp: ex_opts_def)

definition ex_dump_event :: dump_event where
  "ex_dump_event = dump_output [1, 2, 3, 4] False flow_zero"

definition ex_dump_record :: "u8 list" where
  "ex_dump_record = perf_record (dump_sample ex_dump_event [0, 0, 0, 0])"

definition ex_dump_page0 :: perf_event_mmap_page where
  "ex_dump_page0 = \<lparr>data_head = 120, data_tail = 120, ring = replicate 128 0\<rparr>"

definition ex_dump_page :: perf_event_mmap_page where
  "ex_dump_page = \<lparr>data_head = 184, data_tail = 120, ring = drop 8 ex_dump_record @ replicate 64 0 @ take 8 ex_dump_record\<rparr>"

definition ex_reader :: XdpEventReader where
  "ex_reader = \<lparr>xr_mute = True, xr_logged = [], xr_queue = Some [], xr_queueFull = 0\<rparr>"

theorem xdpdump_file_reads_back_witness:
  "\<exists>w r1 page' q st w'. dump_writer ex_opts = Some w \<and> XdpEventReader_handlerReady (Some ex_dump_page) ex_reader = Some (r1, page') \<and>
     xr_queue r1 = Some q \<and> Pcap.run ex_pcap_env q w = Some (st, w') \<and> pcap_packets (contents (dataWriters w' ! 0)) = [[1, 2, 3, 4]]"
proof -
  obtain w where w: "dump_writer ex_opts = Some w" by (simp add: dump_writer_def ex_opts_def)
  have "perf_append ex_dump_record ex_dump_page0 ex_dump_page" by code_simp
  moreover have "ring_ok ex_dump_page0" "data_head ex_dump_page0 = data_tail ex_dump_page0" by (simp_all add: ring_ok_def ex_dump_page0_def)
  ultimately have run: "perf_run XdpEventReader_handlePerfEvent ex_reader ex_dump_page ex_reader ([] @ [ex_dump_record])" by (intro run_append run_start)
  have rec: "list_all2 records_dump [ex_dump_event] ([] @ [ex_dump_record])"
    by (auto simp: records_dump_def dump_event_ok_def ex_dump_record_def ex_dump_event_def dump_output_def perf_record_def dump_sample_def)
  have "reliable_env ex_pcap_env" "xr_queue ex_reader = Some []" "length [ex_dump_event] \<le> kQueueCapacity"
    "(of_int (FLAGS_packet_limit ex_opts) :: u32) = 0 \<or> length [ex_dump_event] \<le> unat (of_int (FLAGS_packet_limit ex_opts) :: u32)"
    by (simp_all add: reliable_env_def ex_pcap_env_def ex_reader_def ex_opts_def)
  from xdpdump_file_reads_back [OF w this(1) run rec this(2-4)] obtain r1 page' q st w' where
    "XdpEventReader_handlerReady (Some ex_dump_page) ex_reader = Some (r1, page')" "xr_queue r1 = Some q" "Pcap.run ex_pcap_env q w = Some (st, w')"
    "pcap_packets (contents (dataWriters w' ! 0)) = map (\<lambda>ev. take (unat (snap_of (of_int (FLAGS_snaplen ex_opts)))) (de_data ev)) [ex_dump_event]" by blast
  then show ?thesis using w by (auto simp: ex_opts_def snap_of_def ex_dump_event_def dump_output_def Let_def)
qed

end
