(* ===== verification/Simulator.thy ===== *)
theory Simulator
  imports Balancer_Correct Katran_Setup
begin

text \<open>
  \<open>src/katran/lib/KatranSimulator.cpp\<close>: which real gets a flow is found by running the balancer on a packet of that flow.
  The bytes of a fresh \<open>IOBuf\<close> are arbitrary and an argument. \<open>BpfAdapter::testXdpProg\<close> runs the program in the kernel on
  the real maps; it is the run of the balancer program of \<open>Balancer\<close>, and the argument \<open>tested\<close> says whether the system call succeeds.
\<close>

section \<open>The simulator\<close>

record KatranFlow =
  fl_src :: string
  fl_dst :: string
  fl_srcPort :: u16
  fl_dstPort :: u16
  fl_proto :: u8

definition kTestPacketSize :: nat where [simp]: "kTestPacketSize = 512"
definition kDefaultTtl :: u8 where [simp]: "kDefaultTtl = 64"
definition ETH_P_IP :: u16 where [simp]: "ETH_P_IP = 0x0800"
definition ETH_P_IPV6 :: u16 where [simp]: "ETH_P_IPV6 = 0x86DD"

fun toLong :: "IPAddress \<Rightarrow> u32" where
  "toLong (IPv4 a) = a"
| "toLong _ = 0"

fun toBinary :: "IPAddress \<Rightarrow> in6" where
  "toBinary (IPv6 a) = a"
| "toBinary _ = in6_zero"

definition createV4Packet :: "IPAddress \<Rightarrow> IPAddress \<Rightarrow> u8 \<Rightarrow> u16 \<Rightarrow> packet \<Rightarrow> packet option" where
  "createV4Packet src dst pr sz buf = do {
     buf \<leftarrow> st16 buf 12 (bswap16 ETH_P_IP);
     iph \<leftarrow> ld_iphdr buf sizeof_eth_hdr;
     st_iphdr buf sizeof_eth_hdr
       (iph\<lparr>iph_ihl := 5, iph_version := 4, iph_frag_off := 0, iph_protocol := pr, iph_check := 0, iph_tos := 0,
         iph_tot_len := bswap16 sz, iph_daddr := toLong dst, iph_saddr := toLong src, iph_ttl := kDefaultTtl\<rparr>)
   }"

definition createV6Packet :: "IPAddress \<Rightarrow> IPAddress \<Rightarrow> u8 \<Rightarrow> u16 \<Rightarrow> packet \<Rightarrow> packet option" where
  "createV6Packet src dst pr sz buf = do {
     buf \<leftarrow> st16 buf 12 (bswap16 ETH_P_IPV6);
     ip6h \<leftarrow> ld_ipv6hdr buf sizeof_eth_hdr;
     st_ipv6hdr buf sizeof_eth_hdr
       (ip6h\<lparr>ip6_version := 6, ip6_priority := 0, ip6_flow_lbl0 := 0, ip6_flow_lbl1 := 0, ip6_flow_lbl2 := 0, ip6_nexthdr := pr,
         ip6_payload_len := bswap16 (sz - 40), ip6_hop_limit := kDefaultTtl, ip6_daddr := toBinary dst, ip6_saddr := toBinary src\<rparr>)
   }"

text \<open>The header is zeroed; \<open>syn\<close> is bit 1 of byte 13.\<close>

definition createTcpHeader :: "u16 \<Rightarrow> u16 \<Rightarrow> nat \<Rightarrow> packet \<Rightarrow> packet option" where
  "createTcpHeader srcPort dstPort off buf =
     stn buf off (bytes16 (bswap16 srcPort) @ bytes16 (bswap16 dstPort) @ replicate 9 0 @ [2] @ replicate 6 0)"

definition createUdpHeader :: "u16 \<Rightarrow> u16 \<Rightarrow> nat \<Rightarrow> u16 \<Rightarrow> packet \<Rightarrow> packet option" where
  "createUdpHeader srcPort dstPort off sz buf =
     st_udphdr buf off \<lparr>udp_source = bswap16 srcPort, udp_dest = bswap16 dstPort, udp_len = sz, udp_check = 0\<rparr>"

text \<open>The inner \<open>None\<close> is the null pointer.\<close>

definition createPacketFromFlow :: "katran_env \<Rightarrow> packet \<Rightarrow> KatranFlow \<Rightarrow> packet option option" where
  "createPacketFromFlow E fresh fl =
     (case (ip_create E (fl_src fl), ip_create E (fl_dst fl)) of
        (Some src, Some dst) \<Rightarrow>
          if isV4 src \<noteq> isV4 dst then Some None
          else
            (let l3hdr_len = (if isV4 src then sizeof_iphdr else sizeof_ipv6hdr);
                 off = sizeof_eth_hdr + l3hdr_len;
                 payload_size = kTestPacketSize - sizeof_eth_hdr in
             if fl_proto fl \<noteq> IPPROTO_TCP \<and> fl_proto fl \<noteq> IPPROTO_UDP then Some None
             else do {
               pk \<leftarrow> (if isV4 src then createV4Packet src dst (fl_proto fl) (of_nat payload_size) fresh
                  else createV6Packet src dst (fl_proto fl) (of_nat payload_size) fresh);
               pk \<leftarrow> (if fl_proto fl = IPPROTO_TCP then createTcpHeader (fl_srcPort fl) (fl_dstPort fl) off pk
                  else createUdpHeader (fl_srcPort fl) (fl_dstPort fl) off (of_nat (payload_size - l3hdr_len)) pk);
               Some (Some pk)
             })
      | _ \<Rightarrow> Some None)"

definition getPcktDst :: "katran_env \<Rightarrow> packet \<Rightarrow> string option" where
  "getPcktDst E p =
     (if length p < sizeof_eth_hdr then Some []
      else do {
        h_proto \<leftarrow> ld16 p 12;
        if h_proto = bswap16 ETH_P_IP then
          (if length p < sizeof_eth_hdr + sizeof_iphdr then Some []
           else do { iph \<leftarrow> ld_iphdr p sizeof_eth_hdr; Some (ip_str E (IPv4 (iph_daddr iph))) })
        else
          (if length p < sizeof_eth_hdr + sizeof_ipv6hdr then Some []
           else do { ip6h \<leftarrow> ld_ipv6hdr p sizeof_eth_hdr; Some (ip_str E (IPv6 (ip6_daddr ip6h))) })
      })"

definition runSimulation :: "(bpf_state \<Rightarrow> (xdp_action \<times> bpf_state) option) \<Rightarrow> bool \<Rightarrow> packet \<Rightarrow> bpf_state \<Rightarrow> (packet option \<times> bpf_state) option" where
  "runSimulation prog tested p s =
     (if \<not> tested then Some (None, s)
      else do {
        (prog_ret_val, t) \<leftarrow> prog (s\<lparr>pkt := p\<rparr>);
        Some (if prog_ret_val \<noteq> XDP_TX then None else Some (pkt t), t)
      })"

definition KatranSimulator_getRealForFlow ::
  "katran_env \<Rightarrow> (bpf_state \<Rightarrow> (xdp_action \<times> bpf_state) option) \<Rightarrow> bool \<Rightarrow> packet \<Rightarrow> KatranFlow \<Rightarrow> bpf_state \<Rightarrow> (string \<times> bpf_state) option" where
  "KatranSimulator_getRealForFlow E prog tested fresh fl s = do {
     created \<leftarrow> createPacketFromFlow E fresh fl;
     (case created of
        None \<Rightarrow> Some ([], s)
      | Some p \<Rightarrow> do {
          (rpckt, t) \<leftarrow> runSimulation prog tested p s;
          (case rpckt of None \<Rightarrow> Some ([], t) | Some q \<Rightarrow> do { dst \<leftarrow> getPcktDst E q; Some (dst, t) })
        })
   }"

definition getRealForFlow ::
  "katran_env \<Rightarrow> (bpf_state \<Rightarrow> (xdp_action \<times> bpf_state) option) \<Rightarrow> bool \<Rightarrow> packet \<Rightarrow> KatranFlow \<Rightarrow> KatranLb \<Rightarrow> (string \<times> KatranLb) option" where
  "getRealForFlow E prog tested fresh fl lb =
     (if disableForwarding (config lb) then Some ([], lb)
      else if \<not> progsLoaded lb then Some ([], lb)
      else do {
        (r, s) \<leftarrow> KatranSimulator_getRealForFlow E prog tested fresh fl (dp (kernel lb));
        Some (r, lb\<lparr>kernel := (kernel lb)\<lparr>dp := s\<rparr>\<rparr>)
      })"


section \<open>The answer is where the packets go\<close>

definition real_address :: "real_definition \<Rightarrow> IPAddress" where
  "real_address r = (if real_flags r AND F_IPV6 \<noteq> 0 then IPv6 (real_dstv6 r) else IPv4 (real_dst r))"

lemma eth_types [simp]: "bswap16 0x0800 = 8" "bswap16 0x86DD = 56710"
  by (code_simp, code_simp)

lemma stn_frame:
  "length xs = off \<Longrightarrow> length ys = length bs \<Longrightarrow> stn (xs @ ys @ zs) off bs = Some (xs @ bs @ zs)"
  by (simp add: stn_def put_def)

lemma sim_l3_v4:
  assumes "length fresh = kTestPacketSize"
  shows "\<exists>iph. createV4Packet (IPv4 a) (IPv4 d) pr 498 fresh = Some (take 12 fresh @ bytes16 BE_ETH_P_IP @ enc_iphdr iph @ drop 34 fresh) \<and>
    iph_ihl iph = 5 \<and> iph_frag_off iph = 0 \<and> iph_protocol iph = pr \<and> iph_saddr iph = a \<and> iph_daddr iph = d \<and> iph_tot_len iph = bswap16 498"
proof -
  define p1 where "p1 = take 12 fresh @ bytes16 BE_ETH_P_IP @ drop 14 fresh"
  define iph where "iph = (dec_iphdr (slice p1 14 20))\<lparr>iph_ihl := 5, iph_version := 4, iph_frag_off := 0, iph_protocol := pr, iph_check := 0,
     iph_tos := 0, iph_tot_len := bswap16 498, iph_daddr := d, iph_saddr := a, iph_ttl := kDefaultTtl\<rparr>"
  have sport: "take 12 fresh @ slice fresh 12 2 @ drop 14 fresh = fresh" "drop 14 fresh = slice fresh 14 20 @ drop 34 fresh"
    using drop_slice_split [of 12 2 fresh] drop_slice_split [of 14 20 fresh] append_take_drop_id [of 12 fresh] assms by simp_all
  have "st16 fresh 12 (bswap16 ETH_P_IP) = Some p1"
    using stn_frame [of "take 12 fresh" 12 "slice fresh 12 2" "bytes16 BE_ETH_P_IP" "drop 14 fresh", unfolded sport(1)] assms
    by (simp add: st16_def p1_def)
  moreover have "ld_iphdr p1 14 = Some (dec_iphdr (slice p1 14 20))" using assms by (simp add: ld_iphdr_def ldn_def p1_def)
  ultimately have "createV4Packet (IPv4 a) (IPv4 d) pr 498 fresh = st_iphdr p1 14 iph"
    by (simp add: createV4Packet_def iph_def)
  also have "\<dots> = Some (take 12 fresh @ bytes16 BE_ETH_P_IP @ enc_iphdr iph @ drop 34 fresh)"
    using stn_frame [of "take 12 fresh @ bytes16 BE_ETH_P_IP" 14 "slice fresh 14 20" "enc_iphdr iph" "drop 34 fresh"] assms
    by (simp add: st_iphdr_def p1_def sport(2))
  finally show ?thesis by (auto simp: iph_def)
qed

lemma sim_l3_v6:
  assumes "length fresh = kTestPacketSize"
  shows "\<exists>h. createV6Packet (IPv6 a) (IPv6 d) pr 498 fresh = Some (take 12 fresh @ bytes16 BE_ETH_P_IPV6 @ enc_ipv6hdr h @ drop 54 fresh) \<and>
    ip6_nexthdr h = pr \<and> ip6_saddr h = a \<and> ip6_daddr h = d \<and> ip6_payload_len h = bswap16 458"
proof -
  define p1 where "p1 = take 12 fresh @ bytes16 BE_ETH_P_IPV6 @ drop 14 fresh"
  define h where "h = (dec_ipv6hdr (slice p1 14 40))\<lparr>ip6_version := 6, ip6_priority := 0, ip6_flow_lbl0 := 0, ip6_flow_lbl1 := 0,
     ip6_flow_lbl2 := 0, ip6_nexthdr := pr, ip6_payload_len := bswap16 458, ip6_hop_limit := kDefaultTtl, ip6_daddr := d, ip6_saddr := a\<rparr>"
  have sport: "take 12 fresh @ slice fresh 12 2 @ drop 14 fresh = fresh" "drop 14 fresh = slice fresh 14 40 @ drop 54 fresh"
    using drop_slice_split [of 12 2 fresh] drop_slice_split [of 14 40 fresh] append_take_drop_id [of 12 fresh] assms by simp_all
  have "st16 fresh 12 (bswap16 ETH_P_IPV6) = Some p1"
    using stn_frame [of "take 12 fresh" 12 "slice fresh 12 2" "bytes16 BE_ETH_P_IPV6" "drop 14 fresh", unfolded sport(1)] assms
    by (simp add: st16_def p1_def)
  moreover have "ld_ipv6hdr p1 14 = Some (dec_ipv6hdr (slice p1 14 40))" using assms by (simp add: ld_ipv6hdr_def ldn_def p1_def)
  ultimately have "createV6Packet (IPv6 a) (IPv6 d) pr 498 fresh = st_ipv6hdr p1 14 h"
    by (simp add: createV6Packet_def h_def)
  also have "\<dots> = Some (take 12 fresh @ bytes16 BE_ETH_P_IPV6 @ enc_ipv6hdr h @ drop 54 fresh)"
    using stn_frame [of "take 12 fresh @ bytes16 BE_ETH_P_IPV6" 14 "slice fresh 14 40" "enc_ipv6hdr h" "drop 54 fresh"] assms
    by (simp add: st_ipv6hdr_def p1_def sport(2))
  finally show ?thesis by (auto simp: h_def)
qed

text \<open>The transport header of the flow, behind the headers \<open>xs\<close>.\<close>

definition sim_l4 :: "u8 \<Rightarrow> u16 \<Rightarrow> u16 \<Rightarrow> nat \<Rightarrow> u16 \<Rightarrow> packet \<Rightarrow> packet option" where
  "sim_l4 pr sport dport off sz p = (if pr = IPPROTO_TCP then createTcpHeader sport dport off p else createUdpHeader sport dport off sz p)"

lemma sim_l4_frame:
  assumes "length xs = off" "20 \<le> length ys"
  shows "\<exists>l4. sim_l4 pr sport dport off sz (xs @ ys) = Some (xs @ l4) \<and> length l4 = length ys \<and>
    (pr = IPPROTO_TCP \<longrightarrow> tcp_source (dec_tcphdr (take 20 l4)) = bswap16 sport \<and> tcp_dest (dec_tcphdr (take 20 l4)) = bswap16 dport) \<and>
    (pr \<noteq> IPPROTO_TCP \<longrightarrow> udp_source (dec_udphdr (take 8 l4)) = bswap16 sport \<and> udp_dest (dec_udphdr (take 8 l4)) = bswap16 dport)"
proof (cases "pr = IPPROTO_TCP")
  case True
  let ?t = "bytes16 (bswap16 sport) @ bytes16 (bswap16 dport) @ replicate 9 0 @ [2] @ replicate 6 0 :: u8 list"
  have "sim_l4 pr sport dport off sz (xs @ ys) = Some (xs @ ?t @ drop 20 ys)"
    using stn_frame [of xs off "take 20 ys" ?t "drop 20 ys"] assms True by (simp add: sim_l4_def createTcpHeader_def)
  moreover have "length (?t @ drop 20 ys) = length ys" using assms by simp
  ultimately show ?thesis using True by (intro exI [of _ "?t @ drop 20 ys"]) (simp add: dec_tcphdr_def)
next
  case False
  let ?u = "enc_udphdr \<lparr>udp_source = bswap16 sport, udp_dest = bswap16 dport, udp_len = sz, udp_check = 0\<rparr>"
  have "sim_l4 pr sport dport off sz (xs @ ys) = Some (xs @ ?u @ drop 8 ys)"
    using stn_frame [of xs off "take 8 ys" ?u "drop 8 ys"] assms False by (simp add: sim_l4_def createUdpHeader_def st_udphdr_def)
  then show ?thesis using False assms by (intro exI [of _ "?u @ drop 8 ys"]) simp
qed

lemma sim_l4_parsed:
  assumes "sim_l4 pr sport dport off sz (xs @ ys) = Some (xs @ l4)"
    and "pr = IPPROTO_TCP \<longrightarrow> tcp_source (dec_tcphdr (take 20 l4)) = bswap16 sport \<and> tcp_dest (dec_tcphdr (take 20 l4)) = bswap16 dport"
    "pr \<noteq> IPPROTO_TCP \<longrightarrow> udp_source (dec_udphdr (take 8 l4)) = bswap16 sport \<and> udp_dest (dec_udphdr (take 8 l4)) = bswap16 dport"
    and "length xs = calc_offset v6 False" "20 \<le> length l4" "pflags pckt = 0"
  shows "\<exists>q. (if pr = IPPROTO_TCP then parse_tcp (xs @ l4) v6 pckt else parse_udp (xs @ l4) v6 pckt) = Some (True, q) \<and>
    flow q = (flow pckt)\<lparr>port16_0 := bswap16 sport, port16_1 := bswap16 dport\<rparr>"
proof -
  have "slice (xs @ l4) (calc_offset v6 False) n = take n l4" for n using assms(4) [symmetric] by (simp add: slice_def)
  then show ?thesis using assms(2-6)
    by (auto simp: parse_tcp_def parse_udp_def is_icmp_def ld_tcphdr_def ld_udphdr_def ldn_def set_ports_def Let_def)
qed

text \<open>The address of a service as the key of \<open>vip_map\<close> has it.\<close>

fun vip_addr :: "IPAddress \<Rightarrow> in6" where
  "vip_addr (IPv4 a) = in6_v4 a"
| "vip_addr (IPv6 a) = a"
| "vip_addr IPEmpty = in6_zero"

text \<open>What the balancer reads in a packet of the simulator: the address and port of the service and the protocol of the flow.\<close>

definition reads_as :: "KatranFlow \<Rightarrow> bool \<Rightarrow> in6 \<Rightarrow> u16 \<Rightarrow> packet \<Rightarrow> packet_description \<Rightarrow> packet_description \<Rightarrow> bool" where
  "reads_as fl v6 d nbytes p pckt q \<longleftrightarrow> length p = kTestPacketSize \<and> ld16 p 12 = Some (if v6 then BE_ETH_P_IPV6 else BE_ETH_P_IP) \<and>
     process_l3_headers p sizeof_eth_hdr v6 packet_description_zero = Some (FURTHER_PROCESSING, p, pckt, nbytes) \<and> proto (flow pckt) = fl_proto fl \<and>
     (if fl_proto fl = IPPROTO_TCP then parse_tcp p v6 pckt else parse_udp p v6 pckt) = Some (True, q) \<and>
     dst_addr q v6 = d \<and> port16_1 (flow q) = bswap16 (fl_dstPort fl) \<and> proto (flow q) = fl_proto fl"

lemma simulated_v4:
  assumes "ip_create E (fl_src fl) = Some (IPv4 a)" "ip_create E (fl_dst fl) = Some (IPv4 d)"
    and pr: "fl_proto fl \<in> {IPPROTO_TCP, IPPROTO_UDP}" and fresh: "length fresh = kTestPacketSize"
  shows "\<exists>p pckt q. createPacketFromFlow E fresh fl = Some (Some p) \<and> reads_as fl False (in6_v4 d) 498 p pckt q"
proof -
  obtain iph where iph: "createV4Packet (IPv4 a) (IPv4 d) (fl_proto fl) 498 fresh = Some (take 12 fresh @ bytes16 BE_ETH_P_IP @ enc_iphdr iph @ drop 34 fresh)"
    "iph_ihl iph = 5" "iph_frag_off iph = 0" "iph_protocol iph = fl_proto fl" "iph_daddr iph = d" "iph_tot_len iph = bswap16 498"
    using sim_l3_v4 [OF fresh, of a d "fl_proto fl"] by blast
  let ?x = "take 12 fresh @ bytes16 BE_ETH_P_IP @ enc_iphdr iph"
  let ?pk = "packet_description_zero\<lparr>flow := set_flow_v4 (iph_saddr iph) d ((flow packet_description_zero)\<lparr>proto := fl_proto fl\<rparr>), tos := iph_tos iph\<rparr>"
  obtain l4 where l4: "sim_l4 (fl_proto fl) (fl_srcPort fl) (fl_dstPort fl) 34 478 (?x @ drop 34 fresh) = Some (?x @ l4)" "length l4 = 478"
    "fl_proto fl = IPPROTO_TCP \<longrightarrow> tcp_source (dec_tcphdr (take 20 l4)) = bswap16 (fl_srcPort fl) \<and> tcp_dest (dec_tcphdr (take 20 l4)) = bswap16 (fl_dstPort fl)"
    "fl_proto fl \<noteq> IPPROTO_TCP \<longrightarrow> udp_source (dec_udphdr (take 8 l4)) = bswap16 (fl_srcPort fl) \<and> udp_dest (dec_udphdr (take 8 l4)) = bswap16 (fl_dstPort fl)"
    using sim_l4_frame [of ?x 34 "drop 34 fresh" "fl_proto fl" "fl_srcPort fl" "fl_dstPort fl" 478] fresh by auto
  obtain q where q: "(if fl_proto fl = IPPROTO_TCP then parse_tcp (?x @ l4) False ?pk else parse_udp (?x @ l4) False ?pk) = Some (True, q)"
    "flow q = (flow ?pk)\<lparr>port16_0 := bswap16 (fl_srcPort fl), port16_1 := bswap16 (fl_dstPort fl)\<rparr>"
    using sim_l4_parsed [OF l4(1,3,4), of False ?pk] l4(2) fresh by (auto simp: calc_offset_def packet_description_zero_def)
  have s: "slice (?x @ l4) 12 2 = bytes16 BE_ETH_P_IP" "slice (?x @ l4) 14 20 = enc_iphdr iph" using fresh by (simp_all add: slice_def)
  have "createPacketFromFlow E fresh fl = Some (Some (?x @ l4))"
    using assms(1,2) pr iph(1) l4(1) by (auto simp: createPacketFromFlow_def sim_l4_def)
  moreover have "process_l3_headers (?x @ l4) sizeof_eth_hdr False packet_description_zero = Some (FURTHER_PROCESSING, ?x @ l4, ?pk, 498)"
    using fresh l4(2) pr iph s(2) by (auto simp: process_l3_headers_def ld_iphdr_def ldn_def bpf_ntohs_def Let_def)
  moreover have "ld16 (?x @ l4) 12 = Some BE_ETH_P_IP" using fresh s(1) l4(2) by (simp add: ld16_def ldn_def)
  moreover have "length (?x @ l4) = kTestPacketSize" using fresh l4(2) by simp
  ultimately show ?thesis using q by (auto simp: reads_as_def dst_addr_def set_flow_v4_def in6_v4_def)
qed

lemma simulated_v6:
  assumes "ip_create E (fl_src fl) = Some (IPv6 a)" "ip_create E (fl_dst fl) = Some (IPv6 d)"
    and pr: "fl_proto fl \<in> {IPPROTO_TCP, IPPROTO_UDP}" and fresh: "length fresh = kTestPacketSize"
  shows "\<exists>p pckt q. createPacketFromFlow E fresh fl = Some (Some p) \<and> reads_as fl True d 458 p pckt q"
proof -
  obtain h where h: "createV6Packet (IPv6 a) (IPv6 d) (fl_proto fl) 498 fresh = Some (take 12 fresh @ bytes16 BE_ETH_P_IPV6 @ enc_ipv6hdr h @ drop 54 fresh)"
    "ip6_nexthdr h = fl_proto fl" "ip6_daddr h = d" "ip6_payload_len h = bswap16 458"
    using sim_l3_v6 [OF fresh, of a d "fl_proto fl"] by blast
  let ?x = "take 12 fresh @ bytes16 BE_ETH_P_IPV6 @ enc_ipv6hdr h"
  let ?pk = "packet_description_zero\<lparr>flow := (flow packet_description_zero)\<lparr>proto := fl_proto fl, srcv6 := ip6_saddr h, dstv6 := d\<rparr>,
    tos := (push_bit 4 (ucast (ip6_priority h)) AND 0xF0) OR (drop_bit 4 (ip6_flow_lbl0 h) AND 0x0F)\<rparr>"
  obtain l4 where l4: "sim_l4 (fl_proto fl) (fl_srcPort fl) (fl_dstPort fl) 54 458 (?x @ drop 54 fresh) = Some (?x @ l4)" "length l4 = 458"
    "fl_proto fl = IPPROTO_TCP \<longrightarrow> tcp_source (dec_tcphdr (take 20 l4)) = bswap16 (fl_srcPort fl) \<and> tcp_dest (dec_tcphdr (take 20 l4)) = bswap16 (fl_dstPort fl)"
    "fl_proto fl \<noteq> IPPROTO_TCP \<longrightarrow> udp_source (dec_udphdr (take 8 l4)) = bswap16 (fl_srcPort fl) \<and> udp_dest (dec_udphdr (take 8 l4)) = bswap16 (fl_dstPort fl)"
    using sim_l4_frame [of ?x 54 "drop 54 fresh" "fl_proto fl" "fl_srcPort fl" "fl_dstPort fl" 458] fresh by auto
  obtain q where q: "(if fl_proto fl = IPPROTO_TCP then parse_tcp (?x @ l4) True ?pk else parse_udp (?x @ l4) True ?pk) = Some (True, q)"
    "flow q = (flow ?pk)\<lparr>port16_0 := bswap16 (fl_srcPort fl), port16_1 := bswap16 (fl_dstPort fl)\<rparr>"
    using sim_l4_parsed [OF l4(1,3,4), of True ?pk] l4(2) fresh by (auto simp: calc_offset_def packet_description_zero_def)
  have s: "slice (?x @ l4) 12 2 = bytes16 BE_ETH_P_IPV6" "slice (?x @ l4) 14 40 = enc_ipv6hdr h" using fresh by (simp_all add: slice_def)
  have "createPacketFromFlow E fresh fl = Some (Some (?x @ l4))"
    using assms(1,2) pr h(1) l4(1) by (auto simp: createPacketFromFlow_def sim_l4_def)
  moreover have "process_l3_headers (?x @ l4) sizeof_eth_hdr True packet_description_zero = Some (FURTHER_PROCESSING, ?x @ l4, ?pk, 458)"
    using fresh l4(2) pr h s(2) by (auto simp: process_l3_headers_def ld_ipv6hdr_def ldn_def bpf_ntohs_def Let_def)
  moreover have "ld16 (?x @ l4) 12 = Some BE_ETH_P_IPV6" using fresh s(1) l4(2) by (simp add: ld16_def ldn_def)
  moreover have "length (?x @ l4) = kTestPacketSize" using fresh l4(2) by simp
  ultimately show ?thesis using q by (auto simp: reads_as_def dst_addr_def)
qed

lemma simulated_packet:
  assumes fl: "ip_create E (fl_src fl) = Some src" "ip_create E (fl_dst fl) = Some dst" "isV4 src = isV4 dst" "IPEmpty \<notin> {src, dst}"
    and "fl_proto fl \<in> {IPPROTO_TCP, IPPROTO_UDP}" "length fresh = kTestPacketSize"
  shows "\<exists>p pckt q. createPacketFromFlow E fresh fl = Some (Some p) \<and>
    reads_as fl (\<not> isV4 dst) (vip_addr dst) (if isV4 dst then 498 else 458) p pckt q"
  using assms simulated_v4 [OF _ _ assms(5,6)] simulated_v6 [OF _ _ assms(5,6)] by (cases src; cases dst) auto

lemma getPcktDst_addressed:
  assumes "addressed_to B v6 r q" "14 + outer_len B r \<le> length q"
  shows "getPcktDst E q = Some (ip_str E (real_address r))"
proof (cases "real_flags r AND F_IPV6 = 0")
  case True
  then show ?thesis using assms
    by (simp add: getPcktDst_def addressed_to_def outer_len_def real_address_def ld16_def ld_iphdr_def ldn_def split: if_splits)
next
  case False
  then show ?thesis using assms
    by (simp add: getPcktDst_def addressed_to_def outer_len_def real_address_def ld16_def ld_ipv6hdr_def ldn_def split: if_splits)
qed

text \<open>C15. The answer of the simulator is where the balancer sends the packet it simulates. For a TCP or UDP flow of IPv4 or IPv6 to a configured
  VIP, whatever the fresh buffer contained, the answer is the address of a real of the table, namely of the one that the balancer, run on
  the simulated packet in the same state, tunnels it to. The simulated packet of a TCP flow is a SYN, so the answer is what a new
  connection of the flow gets; an established connection that is in the connection table may go to another real. The query
  is not free of side effects: it counts as a packet in the counters of the VIP and of the real, and is stored like a new connection.
  Excluded are UDP packets to the port of GUE in a build that decapsulates them.\<close>

theorem simulator_reports_real:
  assumes H: "adjust_head_ok (xdp_adjust_head H)" "\<And>p d. -48 \<le> d \<Longrightarrow> d < 0 \<Longrightarrow> xdp_adjust_head H p d \<noteq> None"
    and ok: "tables_ok H s" "vip_num vip < MAX_VIPS"
    and fl: "ip_create E (fl_src fl) = Some src" "ip_create E (fl_dst fl) = Some dst" "isV4 src = isV4 dst" "IPEmpty \<notin> {src, dst}"
    and pr: "fl_proto fl \<in> {IPPROTO_TCP, IPPROTO_UDP}" and fresh: "length fresh = kTestPacketSize"
    and gue: "\<not> (INLINE_DECAP_GUE B \<and> fl_proto fl = IPPROTO_UDP \<and> bswap16 (fl_dstPort fl) = bpf_htons GUE_DPORT)"
    and vip: "vip_map s \<lparr>vipv6 = vip_addr dst, vip_port = bswap16 (fl_dstPort fl), vip_proto = fl_proto fl\<rparr> = Some vip"
  shows "\<exists>p t idx r. createPacketFromFlow E fresh fl = Some (Some p) \<and>
    KatranSimulator_getRealForFlow E (balancer_run B H jmp) True fresh fl s = Some (ip_str E (real_address r), t) \<and>
    balancer_run B H jmp (s\<lparr>pkt := p\<rparr>) = Some (XDP_TX, t) \<and>
    sent_to_real B (\<not> isV4 dst) vip (if isV4 dst then 498 else 458) idx r (s\<lparr>pkt := p\<rparr>) t"
proof -
  let ?v6 = "\<not> isV4 dst" and ?n = "if isV4 dst then 498 else 458 :: u16"
  obtain p pckt q where p: "createPacketFromFlow E fresh fl = Some (Some p)" "length p = kTestPacketSize"
    "ld16 p 12 = Some (if isV4 dst then BE_ETH_P_IP else BE_ETH_P_IPV6)"
    and l3: "process_l3_headers p sizeof_eth_hdr ?v6 packet_description_zero = Some (FURTHER_PROCESSING, p, pckt, ?n)" "proto (flow pckt) = fl_proto fl"
    and l4: "(if fl_proto fl = IPPROTO_TCP then parse_tcp p ?v6 pckt else parse_udp p ?v6 pckt) = Some (True, q)"
    and q: "dst_addr q ?v6 = vip_addr dst" "port16_1 (flow q) = bswap16 (fl_dstPort fl)" "proto (flow q) = fl_proto fl"
    using simulated_packet [OF fl pr fresh] unfolding reads_as_def by auto
  let ?s = "s\<lparr>pkt := p\<rparr>"
  have tok: "tables_ok H ?s" using ok(1) by (simp add: tables_ok_def arrays_ok_def)
  have v: "vip_lookup (vip_map s) q ?v6 = Some (vip, q)" using vip q by (intro vip_lookup_exact) simp
  have "process_packet B H sizeof_eth_hdr ?v6 ?s = process_l4 B H pckt ?v6 ?n ?s"
    using l3 pr by (auto simp: process_packet_def)
  also have "\<dots> = map_option (\<lambda>(a, s). (Finish a, s)) (process_vip_packet B H q vip ?v6 ?n ?s)"
    using l3(2) l4 v gue q(2) pr unfolding process_l4_def Let_def by (auto split: if_splits)
  finally have "balancer_ingress B H ?s = map_option (\<lambda>(a, s). (Finish a, s)) (process_vip_packet B H q vip ?v6 ?n ?s)"
    using p(2,3) by (auto simp: balancer_ingress_def Let_def)
  with process_vip_packet_total [OF H _ _ tok ok(2), of B q ?v6 ?n] p(2) obtain t idx r where
    t: "balancer_ingress B H ?s = Some (Finish XDP_TX, t)" "sent_to_real B ?v6 vip ?n idx r ?s t" by auto
  then have run: "balancer_run B H jmp ?s = Some (XDP_TX, t)" by (simp add: balancer_run_def run_tail_calls.simps)
  moreover have "getPcktDst E (pkt t) = Some (ip_str E (real_address r))"
    using t(2) p(2) by (intro getPcktDst_addressed [of B ?v6 r]) (simp_all add: sent_to_real_def tunnelled_def)
  ultimately have "KatranSimulator_getRealForFlow E (balancer_run B H jmp) True fresh fl s = Some (ip_str E (real_address r), t)"
    using p(1) by (simp add: KatranSimulator_getRealForFlow_def runSimulation_def)
  then show ?thesis using p(1) run t(2) by blast
qed

definition ex_sim_env :: katran_env where
  "ex_sim_env = \<lparr>ip_create = map_of [(''10.0.0.9'', IPv4 0x0900000A), (''10.200.0.1'', IPv4 0x0100C80A)],
     net_create = Map.empty, ip_str = (\<lambda>a. if a = IPv4 0x0100000A then ''10.0.0.1'' else []),
     ip_hash = (\<lambda>_. 0), sys_ok = (\<lambda>_. True), map_fd = (\<lambda>_. 1), prog_fd = (\<lambda>_. 1), if_index = (\<lambda>_. 1),
     iter_reals = (\<lambda>x. x), iter_rules = (\<lambda>x. x), iter_quic = (\<lambda>x. x), iter_ids = (\<lambda>x. x), iter_addrs = (\<lambda>x. x),
     iter_vips = (\<lambda>x. x), iter_dsts = (\<lambda>x. x)\<rparr>"

definition ex_flow :: KatranFlow where
  "ex_flow = \<lparr>fl_src = ''10.0.0.9'', fl_dst = ''10.200.0.1'', fl_srcPort = 1000, fl_dstPort = 80, fl_proto = 6\<rparr>"

theorem simulator_reports_real_witness:
  "\<exists>t. KatranSimulator_getRealForFlow ex_sim_env (balancer_run default_build ref_helpers (\<lambda>_. False)) True (replicate 512 7) ex_flow ex_state = Some (''10.0.0.1'', t)"
proof -
  have head: "adjust_head_ok (xdp_adjust_head ref_helpers)" using ref_adjust_head_ok by (simp add: ref_helpers_def)
  have tab: "tables_ok ref_helpers ex_state" using ex_tables_ok [of "pkt ex_state"] by simp
  have vip: "vip_map ex_state \<lparr>vipv6 = vip_addr (IPv4 0x0100C80A), vip_port = bswap16 (fl_dstPort ex_flow), vip_proto = fl_proto ex_flow\<rparr> = Some ex_meta"
    by (simp add: ex_state_def ex_vip_def ex_flow_def bpf_htons_def)
  obtain p t idx r where
    "KatranSimulator_getRealForFlow ex_sim_env (balancer_run default_build ref_helpers (\<lambda>_. False)) True (replicate 512 7) ex_flow ex_state =
       Some (ip_str ex_sim_env (real_address r), t)" "sent_to_real default_build False ex_meta 498 idx r (ex_state\<lparr>pkt := p\<rparr>) t"
    using simulator_reports_real [OF head ref_headroom tab _ _ _ _ _ _ _ _ vip, of ex_sim_env "IPv4 0x0900000A" "replicate 512 7" default_build "\<lambda>_. False"]
    by (auto simp: ex_sim_env_def ex_flow_def ex_meta_def)
  then show ?thesis
    by (auto simp: sent_to_real_def ex_state_def const_array_def ex_sim_env_def real_address_def ex_real_def real_dst_def in6_v4_def split: if_splits)
qed

end
