(* ===== verification/Bpf_Loader.thy ===== *)
theory Bpf_Loader
  imports Prelude
begin

text \<open>
  \<open>src/katran/lib/BpfLoader.cpp\<close>: the tables of programs, maps and objects by name. The functions of libbpf are an argument: what
  opening a file gives, and whether the steps of loading succeed.
\<close>

section \<open>State\<close>

datatype bpf_prog_type = BPF_PROG_TYPE_UNSPEC | BPF_PROG_TYPE_XDP | BPF_PROG_TYPE_SCHED_CLS | BPF_PROG_TYPE_OTHER nat

record bpf_object =
  obj_progs :: "string list"
  obj_maps :: "string list"

record libbpf =
  object_open :: "string \<Rightarrow> bpf_object option"
  object_open_buffer :: "u8 list \<Rightarrow> bpf_object option"
  map_reuse_fd :: "bpf_object \<Rightarrow> string \<Rightarrow> int \<Rightarrow> bool"
  map_set_inner_fd :: "bpf_object \<Rightarrow> string \<Rightarrow> int \<Rightarrow> bool"
  object_load :: "bpf_object \<Rightarrow> (string \<times> bpf_prog_type) list \<Rightarrow> bool"
  program_fd :: "bpf_object \<Rightarrow> string \<Rightarrow> int"
  loaded_map_fd :: "bpf_object \<Rightarrow> string \<Rightarrow> int"

text \<open>\<open>live\<close> counts the objects that were opened and not yet closed.\<close>

record BpfLoader =
  progs :: "string \<rightharpoonup> int"
  maps :: "string \<rightharpoonup> int"
  bpfObjects :: "string \<rightharpoonup> bpf_object"
  sharedMaps :: "string \<rightharpoonup> int"
  innerMapsProto :: "string \<rightharpoonup> int"
  live :: nat

definition loader_kError :: int where [simp]: "loader_kError = 1"
definition kNotExists :: int where [simp]: "kNotExists = -1"
definition kPrefixLen :: nat where [simp]: "kPrefixLen = 3"
definition kSuccess :: int where [simp]: "kSuccess = 0"
definition kMaxSharedMapNameSize :: nat where [simp]: "kMaxSharedMapNameSize = 15"

definition BpfLoader_new :: BpfLoader where
  "BpfLoader_new = \<lparr>progs = Map.empty, maps = Map.empty, bpfObjects = Map.empty, sharedMaps = Map.empty, innerMapsProto = Map.empty, live = 0\<rparr>"

section \<open>Operations\<close>

definition normalizeBpfProgType :: "string \<Rightarrow> bpf_prog_type \<Rightarrow> bpf_prog_type" where
  "normalizeBpfProgType prog_name type =
     (if type \<noteq> BPF_PROG_TYPE_UNSPEC then type
      else let prefix = take kPrefixLen prog_name in
        if prefix = ''xdp'' then BPF_PROG_TYPE_XDP
        else if prefix = ''cls'' then BPF_PROG_TYPE_SCHED_CLS
        else BPF_PROG_TYPE_UNSPEC)"

definition closeBpfObject :: "BpfLoader \<Rightarrow> int \<times> BpfLoader" where
  "closeBpfObject l = (loader_kError, l\<lparr>live := live l - 1\<rparr>)"

definition BpfLoader_getMapFdByName :: "string \<Rightarrow> BpfLoader \<Rightarrow> int" where
  "BpfLoader_getMapFdByName name l = (case maps l name of None \<Rightarrow> kNotExists | Some fd \<Rightarrow> fd)"

definition BpfLoader_getProgFdByName :: "string \<Rightarrow> BpfLoader \<Rightarrow> int" where
  "BpfLoader_getProgFdByName name l = (case progs l name of None \<Rightarrow> kNotExists | Some fd \<Rightarrow> fd)"

definition BpfLoader_updateSharedMap :: "string \<Rightarrow> int \<Rightarrow> BpfLoader \<Rightarrow> int \<times> BpfLoader" where
  "BpfLoader_updateSharedMap name fd l =
     (if sharedMaps l name \<noteq> None then (kNotExists, l)
      else if length name > kMaxSharedMapNameSize then (kNotExists, l)
      else (kSuccess, l\<lparr>sharedMaps := (sharedMaps l)(name \<mapsto> fd)\<rparr>))"

definition BpfLoader_setInnerMapPrototype :: "string \<Rightarrow> int \<Rightarrow> BpfLoader \<Rightarrow> int \<times> BpfLoader" where
  "BpfLoader_setInnerMapPrototype name fd l =
     (if innerMapsProto l name \<noteq> None then (loader_kError, l)
      else (kSuccess, l\<lparr>innerMapsProto := (innerMapsProto l)(name \<mapsto> fd)\<rparr>))"

text \<open>The loop over the maps before loading: whether it gets through.\<close>

fun prepare_maps :: "libbpf \<Rightarrow> BpfLoader \<Rightarrow> bpf_object \<Rightarrow> string list \<Rightarrow> bool" where
  "prepare_maps L l obj [] = True"
| "prepare_maps L l obj (map_name # names) =
     (case sharedMaps l map_name of
        Some fd \<Rightarrow> if \<not> map_reuse_fd L obj map_name fd then False else prepare_maps L l obj names
      | None \<Rightarrow>
          if maps l map_name \<noteq> None then False
          else (case innerMapsProto l map_name of
              Some fd \<Rightarrow> if \<not> map_set_inner_fd L obj map_name fd then False else prepare_maps L l obj names
            | None \<Rightarrow> prepare_maps L l obj names))"

definition loadBpfObject :: "libbpf \<Rightarrow> bpf_object \<Rightarrow> string \<Rightarrow> bpf_prog_type \<Rightarrow> BpfLoader \<Rightarrow> int \<times> BpfLoader" where
  "loadBpfObject L obj name type l =
     (if bpfObjects l name \<noteq> None then closeBpfObject l
      else if \<exists>title \<in> set (obj_progs obj). progs l title \<noteq> None then closeBpfObject l
      else if \<not> prepare_maps L l obj (obj_maps obj) then closeBpfObject l
      else if \<not> object_load L obj (map (\<lambda>title. (title, normalizeBpfProgType title type)) (obj_progs obj)) then closeBpfObject l
      else (kSuccess,
        l\<lparr>progs := fold (\<lambda>title m. m(title \<mapsto> program_fd L obj title)) (obj_progs obj) (progs l),
          maps := fold (\<lambda>n m. m(n \<mapsto> loaded_map_fd L obj n)) (obj_maps obj) (maps l),
          bpfObjects := (bpfObjects l)(name \<mapsto> obj)\<rparr>))"

definition loadBpfFile :: "libbpf \<Rightarrow> string \<Rightarrow> bpf_prog_type \<Rightarrow> BpfLoader \<Rightarrow> int \<times> BpfLoader" where
  "loadBpfFile L path type l = (case object_open L path of
       None \<Rightarrow> (loader_kError, l)
     | Some obj \<Rightarrow> loadBpfObject L obj path type (l\<lparr>live := live l + 1\<rparr>))"

definition loadBpfFromBuffer :: "libbpf \<Rightarrow> u8 list \<Rightarrow> bpf_prog_type \<Rightarrow> BpfLoader \<Rightarrow> int \<times> BpfLoader" where
  "loadBpfFromBuffer L buf type l = (case object_open_buffer L buf of
       None \<Rightarrow> (loader_kError, l)
     | Some obj \<Rightarrow> loadBpfObject L obj ''buffer'' type (l\<lparr>live := live l + 1\<rparr>))"

definition BpfLoader_destroy :: "BpfLoader \<Rightarrow> BpfLoader" where
  "BpfLoader_destroy l = l\<lparr>live := live l - card (dom (bpfObjects l))\<rparr>"

section \<open>Properties\<close>

inductive loader_reach :: "libbpf \<Rightarrow> BpfLoader \<Rightarrow> bool" for L :: libbpf where
  ld_new: "loader_reach L BpfLoader_new"
| ld_file: "loader_reach L l \<Longrightarrow> loader_reach L (snd (loadBpfFile L path type l))"
| ld_buffer: "loader_reach L l \<Longrightarrow> loader_reach L (snd (loadBpfFromBuffer L buf type l))"
| ld_shared: "loader_reach L l \<Longrightarrow> loader_reach L (snd (BpfLoader_updateSharedMap name fd l))"
| ld_inner: "loader_reach L l \<Longrightarrow> loader_reach L (snd (BpfLoader_setInnerMapPrototype name fd l))"

definition loader_inv :: "BpfLoader \<Rightarrow> bool" where
  "loader_inv l \<longleftrightarrow> finite (dom (bpfObjects l)) \<and> live l = card (dom (bpfObjects l)) \<and>
     (\<forall>n. sharedMaps l n \<noteq> None \<longrightarrow> length n \<le> kMaxSharedMapNameSize) \<and>
     (\<forall>obj \<in> ran (bpfObjects l). \<forall>t \<in> set (obj_progs obj). progs l t \<noteq> None) \<and>
     (\<forall>obj \<in> ran (bpfObjects l). \<forall>n \<in> set (obj_maps obj). maps l n \<noteq> None)"

lemma fold_upd_dom: "fold (\<lambda>t m. m(t \<mapsto> f t)) ts m x = (if x \<in> set ts then Some (f x) else m x)"
  by (induction ts arbitrary: m) auto

lemma loadBpfObject_cases:
  obtains "loadBpfObject L obj name type l = (1, l\<lparr>live := live l - 1\<rparr>)"
  | "bpfObjects l name = None" "\<forall>t \<in> set (obj_progs obj). progs l t = None" "prepare_maps L l obj (obj_maps obj)"
    "loadBpfObject L obj name type l = (0,
        l\<lparr>progs := fold (\<lambda>title m. m(title \<mapsto> program_fd L obj title)) (obj_progs obj) (progs l),
          maps := fold (\<lambda>n m. m(n \<mapsto> loaded_map_fd L obj n)) (obj_maps obj) (maps l),
          bpfObjects := (bpfObjects l)(name \<mapsto> obj)\<rparr>)"
  by (fastforce simp: loadBpfObject_def closeBpfObject_def split: if_splits)

lemma loadBpfObject_inv:
  assumes "loader_inv l"
  shows "loader_inv (snd (loadBpfObject L obj name type (l\<lparr>live := live l + 1\<rparr>)))"
proof (cases rule: loadBpfObject_cases [of L obj name type "l\<lparr>live := live l + 1\<rparr>"])
  case 1
  then show ?thesis using assms by (simp add: loader_inv_def)
next
  case 2
  then show ?thesis using assms by (auto simp: loader_inv_def fold_upd_dom ran_def card_insert_if domIff)
qed

lemma load_inv:
  assumes "loader_inv l"
  shows "loader_inv (snd (loadBpfFile L path type l))" "loader_inv (snd (loadBpfFromBuffer L buf type l))"
  using assms loadBpfObject_inv [OF assms, simplified] by (simp_all add: loadBpfFile_def loadBpfFromBuffer_def split: option.split)

lemma loader_reach_inv: "loader_reach L l \<Longrightarrow> loader_inv l"
proof (induction rule: loader_reach.induct)
  case ld_new
  show ?case by (simp add: loader_inv_def BpfLoader_new_def)
next
  case (ld_shared l name fd)
  then show ?case by (auto simp: loader_inv_def BpfLoader_updateSharedMap_def)
next
  case (ld_inner l name fd)
  then show ?case by (auto simp: loader_inv_def BpfLoader_setInnerMapPrototype_def)
qed (auto intro: load_inv)

lemma prepared_maps: "prepare_maps L l obj ns \<Longrightarrow> n \<in> set ns \<Longrightarrow> maps l n \<noteq> None \<Longrightarrow> sharedMaps l n \<noteq> None"
  by (induction ns) (auto split: option.splits if_splits)


text \<open>C31. Loading an object never disturbs what is loaded. In every reachable state of the loader, a load that fails leaves the loader
  exactly as it was, with the new object closed again; one that succeeds keeps the descriptor of every known program and
  of every known map that is not shared. At all times the open objects are exactly the registered ones, and all their programs and maps
  can be found by name.\<close>

theorem loading_keeps_what_is_loaded:
  assumes "loader_reach L l" "loadBpfFile L path type l = (rc, l')"
  shows "(rc \<noteq> kSuccess \<longrightarrow> l' = l) \<and>
    (\<forall>t. BpfLoader_getProgFdByName t l \<noteq> kNotExists \<longrightarrow> BpfLoader_getProgFdByName t l' = BpfLoader_getProgFdByName t l) \<and>
    (\<forall>n. sharedMaps l n = None \<and> BpfLoader_getMapFdByName n l \<noteq> kNotExists \<longrightarrow> BpfLoader_getMapFdByName n l' = BpfLoader_getMapFdByName n l) \<and>
    live l' = card (dom (bpfObjects l')) \<and>
    (\<forall>obj \<in> ran (bpfObjects l'). (\<forall>t \<in> set (obj_progs obj). progs l' t \<noteq> None) \<and> (\<forall>n \<in> set (obj_maps obj). maps l' n \<noteq> None))"
proof -
  have "loader_inv l'" using load_inv(1) [OF loader_reach_inv [OF assms(1)], of L path type] assms(2) by simp
  moreover have "(rc \<noteq> kSuccess \<longrightarrow> l' = l) \<and> (\<forall>t. progs l t \<noteq> None \<longrightarrow> progs l' t = progs l t) \<and>
      (\<forall>n. sharedMaps l n = None \<and> maps l n \<noteq> None \<longrightarrow> maps l' n = maps l n)"
  proof (cases "object_open L path")
    case None
    then show ?thesis using assms(2) by (simp add: loadBpfFile_def)
  next
    case (Some obj)
    let ?l = "l\<lparr>live := live l + 1\<rparr>"
    have eq: "loadBpfObject L obj path type ?l = (rc, l')" using Some assms(2) by (simp add: loadBpfFile_def)
    show ?thesis
    proof (cases rule: loadBpfObject_cases [of L obj path type ?l])
      case 1
      then show ?thesis using eq by simp
    next
      case 2
      then show ?thesis using eq prepared_maps [OF 2(3)] by (fastforce simp: fold_upd_dom)
    qed
  qed
  ultimately show ?thesis
    by (auto simp: loader_inv_def BpfLoader_getProgFdByName_def BpfLoader_getMapFdByName_def split: option.splits)
qed

definition ex_libbpf :: libbpf where
  "ex_libbpf = \<lparr>object_open = (\<lambda>path. Some \<lparr>obj_progs = [''xdp-balancer''], obj_maps = [''ctl_array'']\<rparr>), object_open_buffer = (\<lambda>_. None),
     map_reuse_fd = (\<lambda>_ _ _. True), map_set_inner_fd = (\<lambda>_ _ _. True), object_load = (\<lambda>_ _. True),
     program_fd = (\<lambda>_ _. 7), loaded_map_fd = (\<lambda>_ _. 8)\<rparr>"

theorem loading_keeps_what_is_loaded_witness:
  "fst (loadBpfFile ex_libbpf ''a'' BPF_PROG_TYPE_UNSPEC BpfLoader_new) = 0 \<and>
   (let l = snd (loadBpfFile ex_libbpf ''a'' BPF_PROG_TYPE_UNSPEC BpfLoader_new) in
     fst (loadBpfFile ex_libbpf ''b'' BPF_PROG_TYPE_UNSPEC l) = 1 \<and> snd (loadBpfFile ex_libbpf ''b'' BPF_PROG_TYPE_UNSPEC l) = l)"
proof -
  define l where "l = snd (loadBpfFile ex_libbpf ''a'' BPF_PROG_TYPE_UNSPEC BpfLoader_new)"
  have ok: "fst (loadBpfFile ex_libbpf ''a'' BPF_PROG_TYPE_UNSPEC BpfLoader_new) = 0" "progs l ''xdp-balancer'' = Some 7"
    by (simp_all add: l_def loadBpfFile_def loadBpfObject_def ex_libbpf_def BpfLoader_new_def)
  have "loader_reach ex_libbpf l" unfolding l_def by (intro ld_file ld_new)
  moreover obtain rc l' where r: "loadBpfFile ex_libbpf ''b'' BPF_PROG_TYPE_UNSPEC l = (rc, l')" by fastforce
  moreover have "rc = 1" using r ok(2) by (auto simp: loadBpfFile_def loadBpfObject_def closeBpfObject_def ex_libbpf_def split: if_splits)
  ultimately show ?thesis using loading_keeps_what_is_loaded [of ex_libbpf l "''b''" BPF_PROG_TYPE_UNSPEC rc l'] ok(1)
    by (simp add: l_def [symmetric] Let_def)
qed

end
