(* ===== verification/Bpf_Adapter.thy ===== *)
theory Bpf_Adapter
  imports Bpf_Loader
begin

text \<open>
  \<open>src/katran/lib/BpfAdapter.cpp\<close> (without the perf ring reader, which is in \<open>Perf_Ring\<close>) and the messages of
  \<open>src/katran/lib/Netlink.cpp\<close>. System calls and the calls of libbpf and libmnl are events of a trace; what they
  return is an argument that may depend on everything that happened before.
\<close>

section \<open>The system\<close>

text \<open>Attributes of netlink messages, plain or nested.\<close>

datatype nlattr = NlAttr nat "u8 list" | NlNest nat "nlattr list"

record tcmsg =
  tcm_family :: nat
  tcm_ifindex :: u32
  tcm_handle :: u32
  tcm_parent :: u32
  tcm_info :: u32

record ifinfomsg =
  ifi_family :: nat
  ifi_index :: u32

datatype nl_header = TcHeader tcmsg | IfHeader ifinfomsg

record NetlinkMessage =
  nlmsg_type :: u16
  nlmsg_flags :: u16
  nlmsg_seq :: u32
  nl_header :: nl_header
  nl_attrs :: "nlattr list"

datatype syscall =
    Perf_event_open int int
  | Ioctl_enable int
  | Mmap int int
  | Munmap int
  | Setrlimit_memlock
  | Map_create "string option" nat nat nat nat nat int
  | Map_update int "u8 list" "u8 list" u64
  | Map_lookup int "u8 list"
  | Map_delete int "u8 list"
  | Map_next_key int "u8 list option"
  | Map_get_fd u32
  | Obj_pin int string
  | Obj_get string
  | Open_dir string
  | Prog_attach int int nat u32
  | Prog_detach int nat
  | Prog_detach2 int int nat
  | Prog_query int nat
  | Prog_get_fd u32
  | Obj_info int
  | Nl_open
  | Nl_bind int
  | Nl_send int NetlinkMessage
  | Nl_recv int
  | Nl_run int u32
  | Close int

record os_env =
  reply :: "syscall list \<Rightarrow> syscall \<Rightarrow> int"
  queried_ids :: "syscall list \<Rightarrow> u32 list"
  program_name :: "syscall list \<Rightarrow> string"
  read_value :: "syscall list \<Rightarrow> u8 list"
  if_nametoindex :: "string \<Rightarrow> u32"
  time_now :: "syscall list \<Rightarrow> u32"
  page_size :: int

text \<open>The descriptors and sockets that are open, newest first, and what was called.\<close>

record os =
  fds :: "int list"
  trace :: "syscall list"

fun opens :: "syscall \<Rightarrow> bool" where
  "opens (Perf_event_open _ _) = True"
| "opens (Open_dir _) = True"
| "opens (Prog_get_fd _) = True"
| "opens Nl_open = True"
| "opens (Map_create _ _ _ _ _ _ _) = True"
| "opens (Map_get_fd _) = True"
| "opens (Obj_get _) = True"
| "opens _ = False"

definition sys :: "os_env \<Rightarrow> syscall \<Rightarrow> os \<Rightarrow> int \<times> os" where
  "sys E c s = (let r = reply E (trace s) c in
     (r, s\<lparr>trace := trace s @ [c], fds := (if opens c \<and> r \<ge> 0 then r # fds s else fds s)\<rparr>))"

definition close_fd :: "int \<Rightarrow> os \<Rightarrow> os" where
  "close_fd fd s = s\<lparr>trace := trace s @ [Close fd], fds := remove1 fd (fds s)\<rparr>"

section \<open>The adapter and its maps\<close>

text \<open>The constructor; \<open>Inl ()\<close> is its exception.\<close>

definition BpfAdapter_new :: "os_env \<Rightarrow> bool \<Rightarrow> os \<Rightarrow> (unit + BpfLoader) \<times> os" where
  "BpfAdapter_new E set_limits s =
     (if set_limits then (case sys E Setrlimit_memlock s of (r, s) \<Rightarrow> (if r \<noteq> 0 then Inl () else Inr BpfLoader_new, s))
      else (Inr BpfLoader_new, s))"

definition loadBpfProg :: "libbpf \<Rightarrow> string \<Rightarrow> bpf_prog_type \<Rightarrow> BpfLoader \<Rightarrow> int \<times> BpfLoader" where
  "loadBpfProg L bpf_prog type l = loadBpfFile L bpf_prog type l"

definition loadBpfProg_buffer :: "libbpf \<Rightarrow> u8 list \<Rightarrow> bpf_prog_type \<Rightarrow> BpfLoader \<Rightarrow> int \<times> BpfLoader" where
  "loadBpfProg_buffer L buf type l = loadBpfFromBuffer L buf type l"

definition BpfAdapter_getMapFdByName :: "string \<Rightarrow> BpfLoader \<Rightarrow> int" where
  "BpfAdapter_getMapFdByName name l = BpfLoader_getMapFdByName name l"

definition BpfAdapter_getProgFdByName :: "string \<Rightarrow> BpfLoader \<Rightarrow> int" where
  "BpfAdapter_getProgFdByName name l = BpfLoader_getProgFdByName name l"

definition BpfAdapter_setInnerMapPrototype :: "string \<Rightarrow> int \<Rightarrow> BpfLoader \<Rightarrow> int \<times> BpfLoader" where
  "BpfAdapter_setInnerMapPrototype name map_fd l = BpfLoader_setInnerMapPrototype name map_fd l"

definition BpfAdapter_updateSharedMap :: "string \<Rightarrow> int \<Rightarrow> BpfLoader \<Rightarrow> int \<times> BpfLoader" where
  "BpfAdapter_updateSharedMap name fd l = BpfLoader_updateSharedMap name fd l"

definition createNamedBpfMap :: "os_env \<Rightarrow> string \<Rightarrow> nat \<Rightarrow> nat \<Rightarrow> nat \<Rightarrow> nat \<Rightarrow> nat \<Rightarrow> int \<Rightarrow> os \<Rightarrow> int \<times> os" where
  "createNamedBpfMap E name type key_size value_size max_entries map_flags numa_node s =
     sys E (Map_create (if name \<noteq> [] then Some name else None) type key_size value_size max_entries map_flags numa_node) s"

definition createBpfMap :: "os_env \<Rightarrow> nat \<Rightarrow> nat \<Rightarrow> nat \<Rightarrow> nat \<Rightarrow> nat \<Rightarrow> int \<Rightarrow> os \<Rightarrow> int \<times> os" where
  "createBpfMap E type key_size value_size max_entries map_flags numa_node s =
     createNamedBpfMap E [] type key_size value_size max_entries map_flags numa_node s"

definition bpfUpdateMap :: "os_env \<Rightarrow> int \<Rightarrow> u8 list \<Rightarrow> u8 list \<Rightarrow> u64 \<Rightarrow> os \<Rightarrow> int \<times> os" where
  "bpfUpdateMap E map_fd key val flags s = sys E (Map_update map_fd key val flags) s"

text \<open>A lookup that fails leaves the value as it was.\<close>

definition bpfMapLookupElement :: "os_env \<Rightarrow> int \<Rightarrow> u8 list \<Rightarrow> u8 list \<Rightarrow> os \<Rightarrow> int \<times> u8 list \<times> os" where
  "bpfMapLookupElement E map_fd key val s =
     (let found = read_value E (trace s) in
      case sys E (Map_lookup map_fd key) s of (err, s) \<Rightarrow> (err, if err = 0 then found else val, s))"

definition bpfMapDeleteElement :: "os_env \<Rightarrow> int \<Rightarrow> u8 list \<Rightarrow> os \<Rightarrow> int \<times> os" where
  "bpfMapDeleteElement E map_fd key s = sys E (Map_delete map_fd key) s"

definition bpfMapGetNextKey :: "os_env \<Rightarrow> int \<Rightarrow> u8 list option \<Rightarrow> u8 list \<Rightarrow> os \<Rightarrow> int \<times> u8 list \<times> os" where
  "bpfMapGetNextKey E map_fd key next_key s =
     (let found = read_value E (trace s) in
      case sys E (Map_next_key map_fd key) s of (err, s) \<Rightarrow> (err, if err = 0 then found else next_key, s))"

definition bpfMapGetFdById :: "os_env \<Rightarrow> u32 \<Rightarrow> os \<Rightarrow> int \<times> os" where
  "bpfMapGetFdById E map_id s = sys E (Map_get_fd map_id) s"

definition bpfMapGetFdOfInnerMap :: "os_env \<Rightarrow> int \<Rightarrow> u8 list \<Rightarrow> os \<Rightarrow> int \<times> os" where
  "bpfMapGetFdOfInnerMap E outer_map_fd key s =
     (case bpfMapLookupElement E outer_map_fd key (bytes32 (-1)) s of (res, inner_map_id, s) \<Rightarrow>
        if res \<noteq> 0 then (sint (le32 inner_map_id), s) else bpfMapGetFdById E (le32 inner_map_id) s)"

definition pinBpfObject :: "os_env \<Rightarrow> int \<Rightarrow> string \<Rightarrow> os \<Rightarrow> int \<times> os" where
  "pinBpfObject E fd path s = sys E (Obj_pin fd path) s"

definition getPinnedBpfObject :: "os_env \<Rightarrow> string \<Rightarrow> os \<Rightarrow> int \<times> os" where
  "getPinnedBpfObject E path s = sys E (Obj_get path) s"

section \<open>Netlink messages\<close>

definition RTM_SETLINK :: u16 where [simp]: "RTM_SETLINK = 19"
definition RTM_NEWQDISC :: u16 where [simp]: "RTM_NEWQDISC = 36"
definition RTM_NEWTFILTER :: u16 where [simp]: "RTM_NEWTFILTER = 44"
definition RTM_DELTFILTER :: u16 where [simp]: "RTM_DELTFILTER = 45"
definition NLM_F_REQUEST :: u16 where [simp]: "NLM_F_REQUEST = 1"
definition NLM_F_ACK :: u16 where [simp]: "NLM_F_ACK = 4"
definition NLM_F_EXCL :: u16 where [simp]: "NLM_F_EXCL = 0x200"
definition NLM_F_CREATE :: u16 where [simp]: "NLM_F_CREATE = 0x400"
definition TC_H_CLSACT :: u32 where [simp]: "TC_H_CLSACT = 0xFFFFFFF1"
definition TC_H_MAKE :: "u32 \<Rightarrow> u32 \<Rightarrow> u32" where "TC_H_MAKE maj mn = (maj AND 0xFFFF0000) OR (mn AND 0xFFFF)"

definition c_string :: "string \<Rightarrow> u8 list" where
  "c_string s = map of_char s @ [0]"

text \<open>Numbers of attributes: \<open>TCA_KIND\<close> 1, \<open>TCA_OPTIONS\<close> 2, \<open>TCA_BPF_ACT\<close> 1, \<open>TCA_BPF_FD\<close> 6, \<open>TCA_BPF_NAME\<close> 7,
  \<open>TCA_BPF_FLAGS\<close> 8, \<open>TCA_ACT_KIND\<close> 1, \<open>TCA_ACT_OPTIONS\<close> 2, \<open>TCA_GACT_PARMS\<close> 2, \<open>IFLA_XDP\<close> 43, \<open>IFLA_XDP_FD\<close> 1, \<open>IFLA_XDP_FLAGS\<close> 3.\<close>

definition NetlinkMessage_TC :: "u32 \<Rightarrow> u16 \<Rightarrow> u16 \<Rightarrow> u32 \<Rightarrow> int \<Rightarrow> u32 \<Rightarrow> string \<Rightarrow> u32 \<Rightarrow> NetlinkMessage" where
  "NetlinkMessage_TC seq cmd flags priority prog_fd ifindex bpf_name direction =
     (let protocol = (if cmd = RTM_NEWTFILTER \<and> flags AND NLM_F_CREATE \<noteq> 0 then 0x0300 else 0) in
      \<lparr>nlmsg_type = cmd, nlmsg_flags = NLM_F_REQUEST OR NLM_F_ACK OR flags, nlmsg_seq = seq,
       nl_header = TcHeader \<lparr>tcm_family = 0, tcm_ifindex = ifindex, tcm_handle = 0, tcm_parent = direction,
         tcm_info = TC_H_MAKE (push_bit 16 priority) protocol\<rparr>,
       nl_attrs = [NlAttr 1 (c_string ''bpf''),
         NlNest 2 [NlAttr 6 (bytes32 (of_int prog_fd)), NlAttr 8 (bytes32 1), NlAttr 7 (c_string bpf_name),
           NlNest 1 [NlNest 1 [NlAttr 1 (c_string ''gact''), NlNest 2 [NlAttr 2 (replicate 20 0)]]]]]\<rparr>)"

definition NetlinkMessage_QD :: "u32 \<Rightarrow> NetlinkMessage" where
  "NetlinkMessage_QD ifindex =
     \<lparr>nlmsg_type = RTM_NEWQDISC, nlmsg_flags = NLM_F_REQUEST OR NLM_F_ACK OR NLM_F_EXCL OR NLM_F_CREATE, nlmsg_seq = 0,
      nl_header = TcHeader \<lparr>tcm_family = 0, tcm_ifindex = ifindex, tcm_handle = TC_H_MAKE TC_H_CLSACT 0, tcm_parent = TC_H_CLSACT, tcm_info = 0\<rparr>,
      nl_attrs = [NlAttr 1 (c_string ''clsact'')]\<rparr>"

definition NetlinkMessage_XDP :: "u32 \<Rightarrow> int \<Rightarrow> u32 \<Rightarrow> u32 \<Rightarrow> NetlinkMessage" where
  "NetlinkMessage_XDP seq prog_fd ifindex flags =
     \<lparr>nlmsg_type = RTM_SETLINK, nlmsg_flags = NLM_F_REQUEST OR NLM_F_ACK, nlmsg_seq = seq,
      nl_header = IfHeader \<lparr>ifi_family = 0, ifi_index = ifindex\<rparr>,
      nl_attrs = [NlNest 43 ([NlAttr 1 (bytes32 (of_int prog_fd))] @ (if flags > 0 then [NlAttr 3 (bytes32 flags)] else []))]\<rparr>"

text \<open>The answers are read until the callback says to stop; \<open>None\<close> is a kernel that never stops answering.\<close>

partial_function (option) nl_receive :: "os_env \<Rightarrow> int \<Rightarrow> u32 \<Rightarrow> int \<Rightarrow> os \<Rightarrow> (int \<times> os) option" where
  "nl_receive E nl seq ret s =
     (if ret \<le> 0 then Some (ret, s)
      else (case sys E (Nl_run nl seq) s of (ret, s) \<Rightarrow>
        if ret \<le> 0 then Some (ret, s)
        else (case sys E (Nl_recv nl) s of (ret, s) \<Rightarrow> nl_receive E nl seq ret s)))"

definition NetlinkRoundtrip :: "os_env \<Rightarrow> NetlinkMessage \<Rightarrow> os \<Rightarrow> (int \<times> os) option" where
  "NetlinkRoundtrip E m s =
     (case sys E Nl_open s of (nl, s) \<Rightarrow>
        if nl < 0 then Some (-1, s)
        else (case sys E (Nl_bind nl) s of (r, s) \<Rightarrow>
          if r < 0 then Some (-1, close_fd nl s)
          else (case sys E (Nl_send nl m) s of (r, s) \<Rightarrow>
            if r < 0 then Some (-1, close_fd nl s)
            else (case sys E (Nl_recv nl) s of (ret, s) \<Rightarrow>
              map_option (\<lambda>(ret, s). (ret, close_fd nl s)) (nl_receive E nl (nlmsg_seq m) ret s)))))"

section \<open>Attaching programs to interfaces\<close>

definition modifyXdpProg :: "os_env \<Rightarrow> int \<Rightarrow> u32 \<Rightarrow> u32 \<Rightarrow> os \<Rightarrow> (int \<times> os) option" where
  "modifyXdpProg E prog_fd ifindex flags s = NetlinkRoundtrip E (NetlinkMessage_XDP (time_now E (trace s)) prog_fd ifindex flags) s"

definition modifyTcBpfFilter :: "os_env \<Rightarrow> u16 \<Rightarrow> u16 \<Rightarrow> u32 \<Rightarrow> int \<Rightarrow> u32 \<Rightarrow> string \<Rightarrow> u32 \<Rightarrow> os \<Rightarrow> (int \<times> os) option" where
  "modifyTcBpfFilter E cmd flags priority prog_fd ifindex bpf_name direction s =
     NetlinkRoundtrip E (NetlinkMessage_TC (time_now E (trace s)) cmd flags priority prog_fd ifindex bpf_name direction) s"

definition addClsActQD :: "os_env \<Rightarrow> u32 \<Rightarrow> os \<Rightarrow> (int \<times> os) option" where
  "addClsActQD E ifindex s = NetlinkRoundtrip E (NetlinkMessage_QD ifindex) s"

definition getInterfaceIndex :: "os_env \<Rightarrow> string \<Rightarrow> u32" where
  "getInterfaceIndex E name = if_nametoindex E name"

definition genericAttachBpfProgToTc :: "os_env \<Rightarrow> int \<Rightarrow> u32 \<Rightarrow> string \<Rightarrow> u32 \<Rightarrow> u32 \<Rightarrow> os \<Rightarrow> (int \<times> os) option" where
  "genericAttachBpfProgToTc E prog_fd ifindex bpf_name priority direction s =
     modifyTcBpfFilter E RTM_NEWTFILTER (NLM_F_EXCL OR NLM_F_CREATE) priority prog_fd ifindex bpf_name direction s"

definition attachBpfProgToTc :: "os_env \<Rightarrow> int \<Rightarrow> string \<Rightarrow> u32 \<Rightarrow> string \<Rightarrow> u32 \<Rightarrow> os \<Rightarrow> (int \<times> os) option" where
  "attachBpfProgToTc E prog_fd interface direction bpf_name priority s =
     (let ifindex = if_nametoindex E interface in
      if ifindex = 0 then Some (1, s) else genericAttachBpfProgToTc E prog_fd ifindex bpf_name priority direction s)"

definition attachXdpProg :: "os_env \<Rightarrow> int \<Rightarrow> string \<Rightarrow> u32 \<Rightarrow> os \<Rightarrow> (int \<times> os) option" where
  "attachXdpProg E prog_fd interface flags s =
     (let ifindex = if_nametoindex E interface in
      if ifindex = 0 then Some (1, s) else modifyXdpProg E prog_fd ifindex flags s)"

definition detachXdpProg :: "os_env \<Rightarrow> string \<Rightarrow> u32 \<Rightarrow> os \<Rightarrow> (int \<times> os) option" where
  "detachXdpProg E interface flags s =
     (let ifindex = if_nametoindex E interface in
      if ifindex = 0 then Some (1, s) else modifyXdpProg E (-1) ifindex flags s)"

definition detachXdpProg_index :: "os_env \<Rightarrow> u32 \<Rightarrow> u32 \<Rightarrow> os \<Rightarrow> (int \<times> os) option" where
  "detachXdpProg_index E ifindex flags s = modifyXdpProg E (-1) ifindex flags s"

definition addTcBpfFilter :: "os_env \<Rightarrow> int \<Rightarrow> u32 \<Rightarrow> string \<Rightarrow> u32 \<Rightarrow> u32 \<Rightarrow> os \<Rightarrow> (int \<times> os) option" where
  "addTcBpfFilter E prog_fd ifindex bpf_name priority direction s =
     Option.bind (addClsActQD E ifindex s) (\<lambda>(_, s). genericAttachBpfProgToTc E prog_fd ifindex bpf_name priority direction s)"

definition replaceTcBpfFilter :: "os_env \<Rightarrow> int \<Rightarrow> u32 \<Rightarrow> string \<Rightarrow> u32 \<Rightarrow> u32 \<Rightarrow> os \<Rightarrow> (int \<times> os) option" where
  "replaceTcBpfFilter E prog_fd ifindex bpf_name priority direction s =
     modifyTcBpfFilter E RTM_NEWTFILTER NLM_F_CREATE priority prog_fd ifindex bpf_name direction s"

definition deleteTcBpfFilter :: "os_env \<Rightarrow> int \<Rightarrow> u32 \<Rightarrow> string \<Rightarrow> u32 \<Rightarrow> u32 \<Rightarrow> os \<Rightarrow> (int \<times> os) option" where
  "deleteTcBpfFilter E prog_fd ifindex bpf_name priority direction s =
     modifyTcBpfFilter E RTM_DELTFILTER 0 priority prog_fd ifindex bpf_name direction s"


section \<open>Programs of cgroups\<close>

definition getDirFd :: "os_env \<Rightarrow> string \<Rightarrow> os \<Rightarrow> int \<times> os" where
  "getDirFd E path s = sys E (Open_dir path) s"

definition bpfProgGetFdById :: "os_env \<Rightarrow> u32 \<Rightarrow> os \<Rightarrow> int \<times> os" where
  "bpfProgGetFdById E pid s = sys E (Prog_get_fd pid) s"

definition attachCgroupProg :: "os_env \<Rightarrow> int \<Rightarrow> string \<Rightarrow> nat \<Rightarrow> u32 \<Rightarrow> os \<Rightarrow> int \<times> os" where
  "attachCgroupProg E prog_fd cgroup type flags s =
     (case getDirFd E cgroup s of (target_fd, s) \<Rightarrow>
        if target_fd < 0 then (-1, s)
        else (case sys E (Prog_attach prog_fd target_fd type flags) s of (r, s) \<Rightarrow> (r, close_fd target_fd s)))"

definition getCgroupProgsIds :: "os_env \<Rightarrow> string \<Rightarrow> nat \<Rightarrow> os \<Rightarrow> u32 list \<times> os" where
  "getCgroupProgsIds E cgroup type s =
     (case getDirFd E cgroup s of (cgroup_fd, s) \<Rightarrow>
        if cgroup_fd < 0 then ([], s)
        else (let ids = queried_ids E (trace s) in
          (case sys E (Prog_query cgroup_fd type) s of (query_result, s) \<Rightarrow>
             (if query_result = 0 then ids else [], close_fd cgroup_fd s))))"

fun detach_ids :: "os_env \<Rightarrow> int \<Rightarrow> nat \<Rightarrow> u32 list \<Rightarrow> int \<Rightarrow> os \<Rightarrow> int \<times> os" where
  "detach_ids E target_fd type [] res s = (res, s)"
| "detach_ids E target_fd type (pid # ids) res s =
     (case bpfProgGetFdById E pid s of (fd, s) \<Rightarrow>
        if fd < 0 then (-1, s)
        else (case sys E (Prog_detach2 fd target_fd type) s of (res, s) \<Rightarrow>
          let s = close_fd fd s in
          if res \<noteq> 0 then (res, s) else detach_ids E target_fd type ids res s))"

definition detachCgroupProg :: "os_env \<Rightarrow> string \<Rightarrow> nat \<Rightarrow> os \<Rightarrow> int \<times> os" where
  "detachCgroupProg E cgroup type s =
     (case getDirFd E cgroup s of (target_fd, s) \<Rightarrow>
        if target_fd < 0 then (-1, s)
        else (case sys E (Prog_detach target_fd type) s of (res, s) \<Rightarrow>
          if res = 0 then (res, close_fd target_fd s)
          else (case getCgroupProgsIds E cgroup type s of (progs_ids, s) \<Rightarrow>
            if progs_ids = [] then (res, close_fd target_fd s)
            else (case detach_ids E target_fd type progs_ids res s of (res, s) \<Rightarrow> (res, close_fd target_fd s)))))"

text \<open>The name of a program; \<open>Inl ()\<close> is the exception of \<open>getBpfProgInfo\<close>.\<close>

definition getBpfProgInfo :: "os_env \<Rightarrow> int \<Rightarrow> os \<Rightarrow> (unit + string) \<times> os" where
  "getBpfProgInfo E progFd s =
     (let info = program_name E (trace s) in
      case sys E (Obj_info progFd) s of (err, s) \<Rightarrow> (if err \<noteq> 0 then Inl () else Inr info, s))"

text \<open>\<open>Inl ()\<close> is the exception of \<open>getBpfProgInfo\<close>; the guards of the scope close the descriptors then too.\<close>

fun detach_prefix :: "os_env \<Rightarrow> int \<Rightarrow> nat \<Rightarrow> string \<Rightarrow> u32 list \<Rightarrow> os \<Rightarrow> (unit + int) \<times> os" where
  "detach_prefix E target_fd type progPrefix [] s = (Inr 0, s)"
| "detach_prefix E target_fd type progPrefix (pid # ids) s =
     (case bpfProgGetFdById E pid s of (fd, s) \<Rightarrow>
        if fd < 0 then (Inr (-1), s)
        else
          (case getBpfProgInfo E fd s of
             (Inl u, s) \<Rightarrow> (Inl u, close_fd fd s)
           | (Inr progName, s) \<Rightarrow>
             if take (length progPrefix) progName = progPrefix then
               (case sys E (Prog_detach2 fd target_fd type) s of (res, s) \<Rightarrow>
                  let s = close_fd fd s in
                  if res \<noteq> 0 then (Inr res, s) else detach_prefix E target_fd type progPrefix ids s)
             else detach_prefix E target_fd type progPrefix ids (close_fd fd s)))"

definition detachCgroupProgByPrefix :: "os_env \<Rightarrow> string \<Rightarrow> nat \<Rightarrow> string \<Rightarrow> os \<Rightarrow> (unit + int) \<times> os" where
  "detachCgroupProgByPrefix E cgroup type progPrefix s =
     (case getDirFd E cgroup s of (target_fd, s) \<Rightarrow>
        if target_fd < 0 then (Inr (-1), s)
        else (case getCgroupProgsIds E cgroup type s of (progs_ids, s) \<Rightarrow>
          if progs_ids = [] then (Inr (-1), close_fd target_fd s)
          else (case detach_prefix E target_fd type progPrefix progs_ids s of (res, s) \<Rightarrow> (res, close_fd target_fd s))))"

definition detachCgroupProg_fd :: "os_env \<Rightarrow> int \<Rightarrow> string \<Rightarrow> nat \<Rightarrow> os \<Rightarrow> int \<times> os" where
  "detachCgroupProg_fd E prog_fd cgroup type s =
     (case getDirFd E cgroup s of (target_fd, s) \<Rightarrow>
        if target_fd < 0 then (-1, s)
        else (case sys E (Prog_detach2 prog_fd target_fd type) s of (r, s) \<Rightarrow> (r, close_fd target_fd s)))"

section \<open>Perf events\<close>

definition get_perf_event_fd :: "os_env \<Rightarrow> int \<Rightarrow> int \<Rightarrow> os \<Rightarrow> int \<times> os" where
  "get_perf_event_fd E cpu wakeUpNumEvents s =
     (case sys E (Perf_event_open cpu wakeUpNumEvents) s of (pmu_fd, s) \<Rightarrow>
        if pmu_fd < 0 then (pmu_fd, s)
        else (case sys E (Ioctl_enable pmu_fd) s of (err, s) \<Rightarrow>
          if err \<noteq> 0 then (-1, close_fd pmu_fd s) else (pmu_fd, s)))"

text \<open>Whether the pages of the event got mapped.\<close>

definition mmap_perf_event :: "os_env \<Rightarrow> int \<Rightarrow> int \<Rightarrow> os \<Rightarrow> bool \<times> os" where
  "mmap_perf_event E fd pages s =
     (if fd < 0 then (False, s)
      else (case sys E (Mmap fd (page_size E * (pages + 1))) s of (base, s) \<Rightarrow> (base \<noteq> -1, s)))"

text \<open>\<open>mapped\<close> says whether \<open>*header\<close> is set; the result has the new value and \<open>event_fd\<close>.\<close>

definition openPerfEvent :: "os_env \<Rightarrow> int \<Rightarrow> int \<Rightarrow> int \<Rightarrow> int \<Rightarrow> bool \<Rightarrow> os \<Rightarrow> bool \<times> bool \<times> int \<times> os" where
  "openPerfEvent E cpu map_fd wakeUpNumEvents pages mapped s =
     (if mapped then (False, mapped, 0, s)
      else (case get_perf_event_fd E cpu wakeUpNumEvents s of (event_fd, s) \<Rightarrow>
        if event_fd < 0 then (False, mapped, event_fd, s)
        else (case mmap_perf_event E event_fd pages s of (mapped, s) \<Rightarrow>
          if \<not> mapped then (False, mapped, event_fd, s)
          else (case sys E (Map_update map_fd (bytes32 (of_int cpu)) (bytes32 (of_int event_fd)) 0) s of (err, s) \<Rightarrow> (err = 0, mapped, event_fd, s)))))"

definition perfEventUnmmap :: "os_env \<Rightarrow> int \<Rightarrow> bool \<Rightarrow> os \<Rightarrow> bool \<times> bool \<times> os" where
  "perfEventUnmmap E pages mapped s =
     (if mapped then (case sys E (Munmap (pages * page_size E + 1)) s of (res, s) \<Rightarrow> (res = 0, res \<noteq> 0, s))
      else (False, mapped, s))"

section \<open>Sizes of maps\<close>

datatype 'k next_key = Key 'k | Failed int

definition ENOENT :: int where [simp]: "ENOENT = 2"

text \<open>\<open>map_info\<close> gives the error of \<open>getBpfMapInfo\<close> or the number of entries the map was created with.\<close>

record 'k bpf_map_calls =
  map_fd_of :: "string \<Rightarrow> int"
  map_info :: "int \<Rightarrow> int + int"
  get_next_key :: "int \<Rightarrow> 'k option \<Rightarrow> 'k next_key"

definition getBpfMapMaxSize :: "'k bpf_map_calls \<Rightarrow> string \<Rightarrow> int" where
  "getBpfMapMaxSize C name =
     (let fd = map_fd_of C name in
      if fd < 0 then fd else (case map_info C fd of Inl err \<Rightarrow> -1 | Inr max_entries \<Rightarrow> max_entries))"

text \<open>The walk over the keys; it does not return on a map whose keys form a cycle.\<close>

partial_function (option) count_keys :: "(('k option) \<Rightarrow> 'k next_key) \<Rightarrow> 'k option \<Rightarrow> int \<Rightarrow> int option" where
  "count_keys get prev_key num_entries =
     (case get prev_key of
        Key k \<Rightarrow> count_keys get (Some k) (num_entries + 1)
      | Failed errno \<Rightarrow> Some (if errno = ENOENT then num_entries else - errno))"

definition getBpfMapUsedSize :: "'k bpf_map_calls \<Rightarrow> string \<Rightarrow> int option" where
  "getBpfMapUsedSize C name =
     (let fd = map_fd_of C name in
      if fd < 0 then Some fd
      else (case map_info C fd of Inl err \<Rightarrow> Some (-1) | Inr _ \<Rightarrow> count_keys (get_next_key C fd) None 0))"

text \<open>\<open>KatranLb::getBpfMapStats\<close>; \<open>Inl\<close> is its exception.\<close>

record KatranBpfMapStats =
  maxEntries :: int
  currentEntries :: int

definition getBpfMapStats :: "'k bpf_map_calls \<Rightarrow> string \<Rightarrow> (unit + KatranBpfMapStats) option" where
  "getBpfMapStats C name =
     (let res = getBpfMapMaxSize C name in
      if res < 0 then Some (Inl ())
      else map_option (\<lambda>used. if used < 0 then Inl () else Inr \<lparr>maxEntries = res, currentEntries = used\<rparr>) (getBpfMapUsedSize C name))"

text \<open>A test run of a program: \<open>run_xattr\<close> is \<open>bpf_prog_test_run_xattr\<close>. The result has what the pointers that are not null
  are set to.\<close>

record test_run =
  tr_data_out :: "u8 list"
  tr_retval :: u32
  tr_duration :: u32
  tr_ctx_out :: "u8 list"

definition testXdpProg ::
  "(int \<Rightarrow> int \<Rightarrow> u8 list \<Rightarrow> u8 list \<Rightarrow> int \<times> test_run) \<Rightarrow> int \<Rightarrow> int \<Rightarrow> u8 list \<Rightarrow> u8 list \<Rightarrow> bool \<Rightarrow> bool \<Rightarrow> bool \<Rightarrow> bool
    \<Rightarrow> int \<times> nat option \<times> u32 option \<times> u32 option \<times> nat option" where
  "testXdpProg run_xattr prog_fd repeat data ctx_in size_out retval duration ctx_size_out =
     (case run_xattr prog_fd repeat data ctx_in of (ret, attr) \<Rightarrow>
       (ret, if size_out then Some (length (tr_data_out attr)) else None,
        if retval then Some (tr_retval attr) else None,
        if duration then Some (tr_duration attr) else None,
        if ctx_size_out then Some (length (tr_ctx_out attr)) else None))"

text \<open>The numbers of the file of CPUs, as \<open>folly::split\<close> gives them; \<open>None\<close> is a file that cannot be read.\<close>

definition getCpuCount :: "u32 list option \<Rightarrow> int" where
  "getCpuCount file = (case file of
       None \<Rightarrow> -1
     | Some [a, b] \<Rightarrow> if a = 0 then sint (b + 1) else -1
     | Some [a] \<Rightarrow> 1
     | Some _ \<Rightarrow> -1)"

definition getPossibleCpus :: "(string \<Rightarrow> u32 list option) \<Rightarrow> int" where
  "getPossibleCpus files = getCpuCount (files ''/sys/devices/system/cpu/possible'')"

definition getOnlineCpus :: "(string \<Rightarrow> u32 list option) \<Rightarrow> int" where
  "getOnlineCpus files = getCpuCount (files ''/sys/devices/system/cpu/online'')"


section \<open>Descriptors\<close>

lemma sys_fds: "fds (snd (sys E c s)) = (if opens c \<and> fst (sys E c s) \<ge> 0 then fst (sys E c s) # fds s else fds s)"
  by (simp add: sys_def Let_def)

lemma sys_eqD: "sys E c s = (r, t) \<Longrightarrow> fds t = (if opens c \<and> r \<ge> 0 then r # fds s else fds s)"
  using sys_fds [of E c s] by simp

lemma close_fds [simp]: "fds (close_fd fd s) = remove1 fd (fds s)"
  by (simp add: close_fd_def)

lemma nl_receive_fds:
  assumes "nl_receive E nl seq ret s = Some res"
  shows "fds (snd res) = fds s"
proof (rule nl_receive.raw_induct [where P = "\<lambda>E nl seq ret s res. fds (snd res) = fds s", rotated])
  show "nl_receive E nl seq ret s = Some res" by (fact assms)
  fix rec E nl seq ret s res
  assume IH: "\<And>E nl seq ret s res. rec E nl seq ret s = Some res \<Longrightarrow> fds (snd res) = fds s"
    and eq: "(if ret \<le> 0 then Some (ret, s) else (case sys E (Nl_run nl seq) s of (ret, s) \<Rightarrow>
        if ret \<le> 0 then Some (ret, s) else (case sys E (Nl_recv nl) s of (ret, s) \<Rightarrow> rec E nl seq ret s))) = Some res"
  obtain r1 s1 where 1: "sys E (Nl_run nl seq) s = (r1, s1)" by fastforce
  obtain r2 s2 where 2: "sys E (Nl_recv nl) s1 = (r2, s2)" by fastforce
  have "fds s1 = fds s" "fds s2 = fds s1" using sys_eqD [OF 1] sys_eqD [OF 2] by simp_all
  with eq IH [of E nl seq r2 s2 res] show "fds (snd res) = fds s"
    by (cases "ret \<le> 0"; cases "r1 \<le> 0") (simp_all add: 1 2, (drule sym, simp)+)
qed

lemma NetlinkRoundtrip_fds: "NetlinkRoundtrip E m s = Some (r, t) \<Longrightarrow> fds t = fds s"
  by (auto simp: NetlinkRoundtrip_def split: prod.splits if_splits dest!: sys_eqD nl_receive_fds)

lemma interface_fds:
  "modifyXdpProg E prog ifindex flags s = Some (r, t) \<Longrightarrow> fds t = fds s"
  "modifyTcBpfFilter E cmd fl prio prog ifindex name dir s = Some (r, t) \<Longrightarrow> fds t = fds s"
  "addClsActQD E ifindex s = Some (r, t) \<Longrightarrow> fds t = fds s"
  by (auto simp: modifyXdpProg_def modifyTcBpfFilter_def addClsActQD_def dest: NetlinkRoundtrip_fds)

lemma getCgroupProgsIds_fds: "getCgroupProgsIds E cgroup type s = (ids, t) \<Longrightarrow> fds t = fds s"
  by (auto simp: getCgroupProgsIds_def getDirFd_def Let_def split: prod.splits if_splits dest!: sys_eqD)

lemma detach_ids_fds: "detach_ids E fd type ids res s = (r, t) \<Longrightarrow> fds t = fds s"
proof (induction ids arbitrary: res s)
  case (Cons pid ids)
  then show ?case by (auto simp: bpfProgGetFdById_def Let_def split: prod.splits if_splits dest!: sys_eqD Cons.IH)
qed simp

lemma detach_prefix_fds: "detach_prefix E fd type pre ids s = (r, t) \<Longrightarrow> fds t = fds s"
proof (induction ids arbitrary: s)
  case (Cons pid ids)
  then show ?case by (auto simp: bpfProgGetFdById_def getBpfProgInfo_def Let_def split: prod.splits if_splits dest!: sys_eqD Cons.IH)
qed simp

lemma cgroup_fds:
  "fds (snd (attachCgroupProg E prog cgroup type flags s)) = fds s"
  "fds (snd (detachCgroupProg_fd E prog cgroup type s)) = fds s"
  "fds (snd (detachCgroupProg E cgroup type s)) = fds s"
  "fds (snd (detachCgroupProgByPrefix E cgroup type pre s)) = fds s"
  by (auto simp: attachCgroupProg_def detachCgroupProg_fd_def detachCgroupProg_def detachCgroupProgByPrefix_def getDirFd_def
      split: prod.splits if_splits dest!: sys_eqD getCgroupProgsIds_fds detach_ids_fds detach_prefix_fds)

definition fds_kept :: "os \<Rightarrow> (int \<times> os) option \<Rightarrow> bool" where
  "fds_kept s m \<longleftrightarrow> pred_option (\<lambda>(_, t). fds t = fds s) m"

lemma fds_keptI: "(\<And>r t. m = Some (r, t) \<Longrightarrow> fds t = fds s) \<Longrightarrow> fds_kept s m"
  by (cases m) (auto simp: fds_kept_def)

text \<open>C32. The adapter gives back every descriptor. Whatever the system calls return, and when an exception leaves the function too, each of the ten calls
  listed here that attach or detach programs of interfaces, of traffic control and of cgroups ends with exactly the descriptors and sockets open that were open
  before.\<close>

theorem adapter_closes_descriptors:
  "fds_kept s (attachXdpProg E prog iface flags s) \<and> fds_kept s (detachXdpProg E iface flags s) \<and>
   fds_kept s (attachBpfProgToTc E prog iface dir name prio s) \<and> fds_kept s (addTcBpfFilter E prog ifindex name prio dir s) \<and>
   fds_kept s (replaceTcBpfFilter E prog ifindex name prio dir s) \<and> fds_kept s (deleteTcBpfFilter E prog ifindex name prio dir s) \<and>
   fds (snd (attachCgroupProg E prog cgroup type flags s)) = fds s \<and> fds (snd (detachCgroupProg_fd E prog cgroup type s)) = fds s \<and>
   fds (snd (detachCgroupProg E cgroup type s)) = fds s \<and> fds (snd (detachCgroupProgByPrefix E cgroup type pre s)) = fds s"
  by (intro conjI fds_keptI)
    (auto simp: attachXdpProg_def detachXdpProg_def attachBpfProgToTc_def addTcBpfFilter_def replaceTcBpfFilter_def deleteTcBpfFilter_def
      genericAttachBpfProgToTc_def Let_def cgroup_fds bind_eq_Some_conv split: if_splits dest!: interface_fds)

text \<open>Opening a perf event leaks its descriptor when the event cannot be mapped or cannot be put into the map: the caller is told that
  it failed, and the descriptor stays open.\<close>

theorem failed_perf_event_leaks:
  assumes "fst (openPerfEvent E cpu map_fd wakeUp pages False s) = False"
    and "\<exists>fd t. get_perf_event_fd E cpu wakeUp s = (fd, t) \<and> 0 \<le> fd"
  shows "\<exists>fd. fds (snd (snd (snd (openPerfEvent E cpu map_fd wakeUp pages False s)))) = fd # fds s"
proof -
  obtain fd t where fd: "get_perf_event_fd E cpu wakeUp s = (fd, t)" "0 \<le> fd" using assms(2) by blast
  then have "fds t = fd # fds s"
    by (auto simp: get_perf_event_fd_def split: prod.splits if_splits dest!: sys_eqD)
  then show ?thesis using fd
    by (auto simp: openPerfEvent_def mmap_perf_event_def split: prod.splits if_splits dest!: sys_eqD)
qed

section \<open>Counting keys\<close>

text \<open>Documented behaviour of \<open>BPF_MAP_GET_NEXT_KEY\<close>: the keys in some order, then \<open>ENOENT\<close>.\<close>

definition walks :: "('k option \<Rightarrow> 'k next_key) \<Rightarrow> 'k list \<Rightarrow> bool" where
  "walks get ks \<longleftrightarrow> distinct ks \<and>
     (\<forall>i \<le> length ks. get (if i = 0 then None else Some (ks ! (i - 1))) = (if i < length ks then Key (ks ! i) else Failed ENOENT))"

lemma count_keys_walk:
  assumes "walks get ks" "i \<le> length ks"
  shows "count_keys get (if i = 0 then None else Some (ks ! (i - 1))) n = Some (n + int (length ks - i))"
  using assms(2)
proof (induction "length ks - i" arbitrary: i n)
  case 0
  then have "get (if i = 0 then None else Some (ks ! (i - 1))) = Failed ENOENT" using assms(1) by (simp add: walks_def)
  then show ?case using 0 by (subst count_keys.simps) simp
next
  case (Suc m)
  then have "get (if i = 0 then None else Some (ks ! (i - 1))) = Key (ks ! i)" using assms(1) by (simp add: walks_def)
  then have "count_keys get (if i = 0 then None else Some (ks ! (i - 1))) n = count_keys get (Some (ks ! i)) (n + 1)"
    by (subst count_keys.simps) simp
  also have "\<dots> = Some (n + 1 + int (length ks - Suc i))" using Suc.hyps(1) [of "Suc i" "n + 1"] Suc.hyps(2) Suc.prems by simp
  finally show ?case using Suc.hyps(2) by simp
qed

text \<open>The size of a map is the number of its keys: when the map and its description can be found, the walk over the keys ends, and
  the statistics report the size the map was created with and exactly the number of its keys.\<close>

theorem map_stats_exact:
  assumes "0 \<le> map_fd_of C name" "map_info C (map_fd_of C name) = Inr msz" "0 \<le> msz"
    and "walks (get_next_key C (map_fd_of C name)) ks"
  shows "getBpfMapStats C name = Some (Inr \<lparr>maxEntries = msz, currentEntries = int (length ks)\<rparr>)"
  using assms count_keys_walk [OF assms(4), of 0 0] by (simp add: getBpfMapStats_def getBpfMapMaxSize_def getBpfMapUsedSize_def)

definition ex_map_calls :: "u32 bpf_map_calls" where
  "ex_map_calls = \<lparr>map_fd_of = (\<lambda>_. 3), map_info = (\<lambda>_. Inr 512),
     get_next_key = (\<lambda>_ prev. case prev of None \<Rightarrow> Key 7 | Some k \<Rightarrow> if k = 7 then Key 9 else Failed ENOENT)\<rparr>"

theorem map_stats_exact_witness: "getBpfMapStats ex_map_calls ''vip_map'' = Some (Inr \<lparr>maxEntries = 512, currentEntries = 2\<rparr>)"
proof -
  have "walks (get_next_key ex_map_calls 3) [7, 9]"
    by (auto simp: walks_def ex_map_calls_def nth_Cons split: nat.splits)
  then show ?thesis using map_stats_exact [of ex_map_calls "''vip_map''" 512 "[7, 9]"] by (simp add: ex_map_calls_def)
qed

definition ex_os_env :: os_env where
  "ex_os_env = \<lparr>reply = (\<lambda>_ c. case c of Perf_event_open _ _ \<Rightarrow> 5 | Mmap _ _ \<Rightarrow> -1 | _ \<Rightarrow> 0), queried_ids = (\<lambda>_. []), program_name = (\<lambda>_. []), read_value = (\<lambda>_. []),
     if_nametoindex = (\<lambda>_. 1), time_now = (\<lambda>_. 0), page_size = 4096\<rparr>"

theorem failed_perf_event_leaks_witness:
  "\<exists>fd. fds (snd (snd (snd (openPerfEvent ex_os_env 0 3 1 8 False \<lparr>fds = [], trace = []\<rparr>)))) = [fd]"
proof -
  have "fst (openPerfEvent ex_os_env 0 3 1 8 False \<lparr>fds = [], trace = []\<rparr>) = False"
    by (simp add: openPerfEvent_def get_perf_event_fd_def mmap_perf_event_def sys_def ex_os_env_def Let_def)
  moreover have "\<exists>fd t. get_perf_event_fd ex_os_env 0 1 \<lparr>fds = [], trace = []\<rparr> = (fd, t) \<and> 0 \<le> fd"
    by (simp add: get_perf_event_fd_def sys_def ex_os_env_def Let_def)
  ultimately show ?thesis using failed_perf_event_leaks [of ex_os_env 0 3 1 8 "\<lparr>fds = [], trace = []\<rparr>"] by simp
qed


section \<open>Detaching by prefix\<close>

text \<open>Documented behaviour of the calls on programs when nothing fails: the descriptor of an id has the program's name, and detaching
  succeeds.\<close>

definition programs_named :: "os_env \<Rightarrow> (u32 \<Rightarrow> string) \<Rightarrow> (u32 \<Rightarrow> int) \<Rightarrow> bool" where
  "programs_named E nm fd_of \<longleftrightarrow>
     (\<forall>tr pid. reply E tr (Prog_get_fd pid) = fd_of pid \<and> 0 \<le> fd_of pid) \<and>
     (\<forall>tr pid. program_name E (tr @ [Prog_get_fd pid]) = nm pid) \<and>
     (\<forall>tr fd. reply E tr (Obj_info fd) = 0) \<and>
     (\<forall>tr fd target type. reply E tr (Prog_detach2 fd target type) = 0)"

definition detached :: "os \<Rightarrow> syscall list" where
  "detached s = List.filter (\<lambda>c. case c of Prog_detach2 _ _ _ \<Rightarrow> True | _ \<Rightarrow> False) (trace s)"

lemma detached_simps [simp]:
  "detached (s\<lparr>trace := tr @ [c], fds := f\<rparr>) = List.filter (\<lambda>c. case c of Prog_detach2 _ _ _ \<Rightarrow> True | _ \<Rightarrow> False) (tr @ [c])"
  by (simp add: detached_def)

lemma detach_prefix_detaches:
  assumes "programs_named E nm fd_of"
  shows "\<exists>t. detach_prefix E target_fd type pre ids s = (Inr 0, t) \<and>
    detached t = detached s @ map (\<lambda>pid. Prog_detach2 (fd_of pid) target_fd type) (List.filter (\<lambda>pid. take (length pre) (nm pid) = pre) ids)"
proof (induction ids arbitrary: s)
  case (Cons pid ids)
  have "reply E tr (Prog_get_fd pid) = fd_of pid" "\<not> fd_of pid < 0" "program_name E (tr @ [Prog_get_fd pid]) = nm pid"
    "reply E tr (Obj_info fd) = 0" "reply E tr (Prog_detach2 fd tg ty) = 0" for tr fd tg ty
    using assms by (auto simp: programs_named_def not_less)
  note this [simp]
  show ?case
  proof (cases "take (length pre) (nm pid) = pre")
    case True
    obtain s2 where "detach_prefix E target_fd type pre (pid # ids) s = detach_prefix E target_fd type pre ids s2"
      and "detached s2 = detached s @ [Prog_detach2 (fd_of pid) target_fd type]"
      using True by (auto simp: bpfProgGetFdById_def getBpfProgInfo_def sys_def Let_def close_fd_def detached_def)
    then show ?thesis using Cons.IH [of s2] True by auto
  next
    case False
    obtain s2 where "detach_prefix E target_fd type pre (pid # ids) s = detach_prefix E target_fd type pre ids s2"
      and "detached s2 = detached s"
      using False by (auto simp: bpfProgGetFdById_def getBpfProgInfo_def sys_def Let_def close_fd_def detached_def)
    then show ?thesis using Cons.IH [of s2] False by auto
  qed
qed simp

text \<open>C40. Detaching by prefix detaches the right programs. When the calls on programs succeed, every program of the cgroup
  whose name starts with the prefix is detached from it, once and in the order of the query, and no other program is; no descriptor is
  left open.\<close>

theorem detach_by_prefix_exact:
  assumes "programs_named E nm fd_of" "getDirFd E cgroup s = (target_fd, s1)" "0 \<le> target_fd"
    and "getCgroupProgsIds E cgroup type s1 = (ids, s2)" "ids \<noteq> []"
  shows "\<exists>t. detachCgroupProgByPrefix E cgroup type pre s = (Inr 0, t) \<and> fds t = fds s \<and>
    detached t = detached s @ map (\<lambda>pid. Prog_detach2 (fd_of pid) target_fd type) (List.filter (\<lambda>pid. take (length pre) (nm pid) = pre) ids)"
proof -
  obtain t where t: "detach_prefix E target_fd type pre ids s2 = (Inr 0, t)"
    "detached t = detached s2 @ map (\<lambda>pid. Prog_detach2 (fd_of pid) target_fd type) (List.filter (\<lambda>pid. take (length pre) (nm pid) = pre) ids)"
    using detach_prefix_detaches [OF assms(1)] by blast
  have "detached s2 = detached s"
    using assms(2-5) by (auto simp: getDirFd_def getCgroupProgsIds_def sys_def Let_def close_fd_def detached_def split: if_splits)
  moreover have eq: "detachCgroupProgByPrefix E cgroup type pre s = (Inr 0, close_fd target_fd t)"
    using assms(2-5) t(1) by (simp add: detachCgroupProgByPrefix_def)
  moreover have "fds (close_fd target_fd t) = fds s" using cgroup_fds(4) [of E cgroup type pre s] eq by simp
  ultimately show ?thesis using t(2) by (simp add: close_fd_def detached_def)
qed

definition ex_cgroup_env :: os_env where
  "ex_cgroup_env = \<lparr>reply = (\<lambda>_ c. case c of Prog_get_fd pid \<Rightarrow> int (unat pid) | Open_dir _ \<Rightarrow> 3 | _ \<Rightarrow> 0), queried_ids = (\<lambda>_. [10, 11, 12]),
     program_name = (\<lambda>tr. case last tr of Prog_get_fd pid \<Rightarrow> if pid = 11 then ''other'' else ''katran_hc'' | _ \<Rightarrow> []), read_value = (\<lambda>_. []),
     if_nametoindex = (\<lambda>_. 1), time_now = (\<lambda>_. 0), page_size = 4096\<rparr>"

theorem detach_by_prefix_exact_witness:
  "detached (snd (detachCgroupProgByPrefix ex_cgroup_env ''/cg'' 0 ''katran'' \<lparr>fds = [], trace = []\<rparr>)) = [Prog_detach2 10 3 0, Prog_detach2 12 3 0]"
proof -
  let ?s = "\<lparr>fds = [], trace = []\<rparr>"
  have "programs_named ex_cgroup_env (\<lambda>pid. if pid = 11 then ''other'' else ''katran_hc'') (\<lambda>pid. int (unat pid))"
    by (simp add: programs_named_def ex_cgroup_env_def)
  moreover have "getDirFd ex_cgroup_env ''/cg'' ?s = (3, \<lparr>fds = [3], trace = [Open_dir ''/cg'']\<rparr>)"
    by (simp add: getDirFd_def sys_def ex_cgroup_env_def)
  moreover obtain s2 where "getCgroupProgsIds ex_cgroup_env ''/cg'' 0 \<lparr>fds = [3], trace = [Open_dir ''/cg'']\<rparr> = ([10, 11, 12], s2)"
    by (simp add: getCgroupProgsIds_def getDirFd_def sys_def ex_cgroup_env_def)
  ultimately obtain t where "detachCgroupProgByPrefix ex_cgroup_env ''/cg'' 0 ''katran'' ?s = (Inr 0, t)"
    "detached t = detached ?s @ map (\<lambda>pid. Prog_detach2 (int (unat pid)) 3 0)
       (List.filter (\<lambda>pid. take (length ''katran'') (if pid = 11 then ''other'' else ''katran_hc'') = ''katran'') [10, 11, 12 :: u32])"
    using detach_by_prefix_exact [of ex_cgroup_env "\<lambda>pid. if pid = 11 then ''other'' else ''katran_hc''" "\<lambda>pid. int (unat pid)" "''/cg''" ?s 3
        "\<lparr>fds = [3], trace = [Open_dir ''/cg'']\<rparr>" 0 "[10, 11, 12]" s2 "''katran''"] by auto
  then show ?thesis by (simp add: detached_def)
qed

end
