(* ===== verification/Xdp_Decap.thy ===== *)
theory Xdp_Decap
  imports Bpf_Adapter Decap
begin

text \<open>
  \<open>src/katran/decap/XdpDecap.cpp\<close>: loading, attaching and removing the decapsulation program and reading its counters, over
  the calls of \<open>Bpf_Adapter\<close>. \<open>Inl ()\<close> is \<open>LOG(FATAL)\<close>, which ends the process.
\<close>

section \<open>State and operations\<close>

record XdpDecapConfig =
  progPath :: string
  mapPath :: string
  progPos :: int
  interface :: string
  detachOnExit :: bool

record XdpDecap =
  decap_config :: XdpDecapConfig
  decap_loader :: BpfLoader
  isStandalone :: bool
  isLoaded :: bool
  isAttached :: bool

definition XdpDecap_new :: "os_env \<Rightarrow> XdpDecapConfig \<Rightarrow> unit + XdpDecap" where
  "XdpDecap_new E cfg =
     (let d = \<lparr>decap_config = cfg, decap_loader = BpfLoader_new, isStandalone = True, isLoaded = False, isAttached = False\<rparr> in
      if mapPath cfg \<noteq> [] then Inr (d\<lparr>isStandalone := False\<rparr>)
      else if getInterfaceIndex E (interface cfg) = 0 then Inl ()
      else Inr d)"

definition loadXdpDecap :: "libbpf \<Rightarrow> XdpDecap \<Rightarrow> unit + XdpDecap" where
  "loadXdpDecap L d =
     (if isLoaded d then Inr d
      else (case loadBpfProg L (progPath (decap_config d)) BPF_PROG_TYPE_UNSPEC (decap_loader d) of (res, l) \<Rightarrow>
        if res \<noteq> 0 then Inl ()
        else if BpfLoader_getProgFdByName ''xdp-decap'' l < 0 then Inl ()
        else if BpfLoader_getMapFdByName ''stats'' l < 0 then Inl ()
        else Inr (d\<lparr>decap_loader := l, isLoaded := True\<rparr>)))"

definition pos_key :: "XdpDecap \<Rightarrow> u8 list" where
  "pos_key d = bytes32 (of_int (progPos (decap_config d)))"

definition attachXdpDecap :: "os_env \<Rightarrow> XdpDecap \<Rightarrow> os \<Rightarrow> ((unit + XdpDecap) \<times> os) option" where
  "attachXdpDecap E d s =
     (if \<not> isLoaded d \<or> isAttached d then Some (Inl (), s)
      else
        let prog_fd = BpfLoader_getProgFdByName ''xdp-decap'' (decap_loader d) in
        if isStandalone d then
          map_option (\<lambda>(res, s). (if res \<noteq> 0 then Inl () else Inr (d\<lparr>isAttached := True\<rparr>), s))
            (attachXdpProg E prog_fd (interface (decap_config d)) 0 s)
        else (case getPinnedBpfObject E (mapPath (decap_config d)) s of (map_fd, s) \<Rightarrow>
          if map_fd < 0 then Some (Inl (), s)
          else (case bpfUpdateMap E map_fd (pos_key d) (bytes32 (of_int prog_fd)) 0 s of (err, s) \<Rightarrow>
            if err \<noteq> 0 then Some (Inl (), s) else Some (Inr (d\<lparr>isAttached := True\<rparr>), s))))"

definition XdpDecap_destroy :: "os_env \<Rightarrow> XdpDecap \<Rightarrow> os \<Rightarrow> os option" where
  "XdpDecap_destroy E d s =
     (if \<not> isAttached d then Some s
      else if \<not> detachOnExit (decap_config d) then Some s
      else if isStandalone d then map_option snd (detachXdpProg E (interface (decap_config d)) 0 s)
      else (case getPinnedBpfObject E (mapPath (decap_config d)) s of (prog_fd, s) \<Rightarrow>
        if prog_fd \<ge> 0 then Some (snd (bpfMapDeleteElement E prog_fd (pos_key d) s)) else Some s))"

text \<open>\<open>look\<close> is the lookup of the counters, which gives one entry for every possible CPU.\<close>

definition decap_stats_zero :: decap_stats where
  "decap_stats_zero = \<lparr>ds_decap_v4 = 0, ds_decap_v6 = 0, ds_total = 0\<rparr>"

definition getXdpDecapStats :: "int \<Rightarrow> (int \<Rightarrow> u32 \<Rightarrow> decap_stats list option) \<Rightarrow> XdpDecap \<Rightarrow> decap_stats" where
  "getXdpDecapStats nr_cpus look d =
     (if \<not> isLoaded d then decap_stats_zero
      else if nr_cpus < 0 then decap_stats_zero
      else (case look (BpfLoader_getMapFdByName ''stats'' (decap_loader d)) 0 of
          Some percpu_stats \<Rightarrow> fold (\<lambda>stat sum. sum\<lparr>ds_decap_v4 := ds_decap_v4 sum + ds_decap_v4 stat, ds_decap_v6 := ds_decap_v6 sum + ds_decap_v6 stat, ds_total := ds_total sum + ds_total stat\<rparr>)
            percpu_stats decap_stats_zero
        | None \<Rightarrow> decap_stats_zero))"

section \<open>Properties\<close>

definition map_changes :: "os \<Rightarrow> syscall list" where
  "map_changes s = List.filter (\<lambda>c. case c of Map_update _ _ _ _ \<Rightarrow> True | Map_delete _ _ \<Rightarrow> True | Nl_send _ _ \<Rightarrow> True | _ \<Rightarrow> False) (trace s)"

lemma attach_shared:
  assumes "attachXdpDecap E d s = Some (Inr d', t)" "\<not> isStandalone d"
  shows "isLoaded d" "d' = d\<lparr>isAttached := True\<rparr>"
    and "\<exists>map_fd \<ge> 0. map_changes t = map_changes s @
      [Map_update map_fd (pos_key d) (bytes32 (of_int (BpfLoader_getProgFdByName ''xdp-decap'' (decap_loader d)))) 0]"
  using assms by (auto simp: attachXdpDecap_def getPinnedBpfObject_def bpfUpdateMap_def sys_def map_changes_def Let_def split: if_splits)

text \<open>In shared mode the program leaves no trace in the root array: attaching writes it to its position of the pinned array and nothing
  else, it can be attached once only, and the destructor deletes exactly this position if the pinned array can still be opened, unless it was told to
  leave it, and then does nothing.\<close>

theorem shared_position_is_cleared:
  assumes "attachXdpDecap E d s = Some (Inr d', t)" "\<not> isStandalone d" "XdpDecap_destroy E d' t = Some u"
  shows "\<exists>map_fd \<ge> 0. map_changes t = map_changes s @
      [Map_update map_fd (pos_key d) (bytes32 (of_int (BpfLoader_getProgFdByName ''xdp-decap'' (decap_loader d)))) 0] \<and>
    (if detachOnExit (decap_config d) then
       \<exists>fd. map_changes u = map_changes t @ (if fd \<ge> 0 then [Map_delete fd (pos_key d)] else [])
     else u = t) \<and>
    attachXdpDecap E d' t = Some (Inl (), t)"
proof -
  note a = attach_shared [OF assms(1,2)]
  have "attachXdpDecap E d' t = Some (Inl (), t)" by (simp add: a(2) attachXdpDecap_def)
  moreover have "if detachOnExit (decap_config d) then
       \<exists>fd. map_changes u = map_changes t @ (if fd \<ge> 0 then [Map_delete fd (pos_key d)] else []) else u = t"
    using assms(2,3) unfolding a(2) XdpDecap_destroy_def
    by (auto simp: getPinnedBpfObject_def bpfMapDeleteElement_def sys_def map_changes_def pos_key_def Let_def split: if_splits
        intro: exI [where x = "-1"])
  ultimately show ?thesis using a(3) by blast
qed

lemma decap_sum: "fold (\<lambda>stat sum. sum\<lparr>ds_decap_v4 := ds_decap_v4 sum + ds_decap_v4 stat, ds_decap_v6 := ds_decap_v6 sum + ds_decap_v6 stat,
    ds_total := ds_total sum + ds_total stat\<rparr>) cpus z = \<lparr>ds_decap_v4 = ds_decap_v4 z + sum_list (map ds_decap_v4 cpus),
    ds_decap_v6 = ds_decap_v6 z + sum_list (map ds_decap_v6 cpus), ds_total = ds_total z + sum_list (map ds_total cpus)\<rparr>"
  by (induction cpus arbitrary: z) (simp_all add: algebra_simps)

section \<open>The counters of all CPUs\<close>

text \<open>What a CPU has counted after serving packets.\<close>

fun decap_serve :: "bpf_helpers \<Rightarrow> decap_stats \<Rightarrow> packet list \<Rightarrow> decap_stats option" where
  "decap_serve H d [] = Some d"
| "decap_serve H d (p # ps) = Option.bind (xdpdecap H \<lparr>dpkt = p, dstats = [0 \<mapsto> d]\<rparr>) (\<lambda>(_, t).
     Option.bind (dstats t 0) (\<lambda>d. decap_serve H d ps))"

definition counted :: "decap_stats \<Rightarrow> nat \<Rightarrow> nat \<Rightarrow> nat \<Rightarrow> decap_stats" where
  "counted d x y z = \<lparr>ds_decap_v4 = ds_decap_v4 d + of_nat x, ds_decap_v6 = ds_decap_v6 d + of_nat y, ds_total = ds_total d + of_nat z\<rparr>"

lemma counted_zero: "counted d 0 0 0 = d"
  by (simp add: counted_def)

definition counts_one :: "decap_stats \<Rightarrow> decap_state \<Rightarrow> bool" where
  "counts_one d t \<longleftrightarrow> dstats t 0 \<in> {Some d, Some (counted d 0 0 1), Some (counted d 1 0 1), Some (counted d 0 1 1)}"

lemma xdpdecap_counts: "dstats s 0 = Some d \<Longrightarrow> wp (xdpdecap H s) (\<lambda>(a, t). counts_one d t)"
proof -
  assume d: "dstats s 0 = Some d"
  have "wp (decap_process_packet H off v6 s) (\<lambda>(a, t). counts_one d t)" for off v6
    by (auto simp: decap_process_packet_def counts_one_def counted_def d Let_def
        intro!: wp_mono [OF decap_process_l3_headers_safe] wp_mono [OF process_encaped_pckt_safe] split: step.split)
  then show ?thesis by (simp add: xdpdecap_def ld16_def wp_simps counts_one_def d)
qed

lemma counts_oneD: "counts_one d t \<Longrightarrow> \<exists>x y z. dstats t 0 = Some (counted d x y z) \<and> x + y \<le> z \<and> z \<le> 1"
  unfolding counts_one_def
  by (elim insertE emptyE) (metis counted_zero le0 add_0, metis add_0 order_refl zero_le, metis add_0_right order_refl, metis add_0 order_refl)

lemma decap_serve_counts: "\<exists>x y z. decap_serve H d ps = Some (counted d x y z) \<and> x + y \<le> z \<and> z \<le> length ps"
proof (induction ps arbitrary: d)
  case Nil
  show ?case using counted_zero by (metis add_0 decap_serve.simps(1) le0)
next
  case (Cons p ps)
  obtain a t where t: "xdpdecap H \<lparr>dpkt = p, dstats = [0 \<mapsto> d]\<rparr> = Some (a, t)" "counts_one d t"
    using xdpdecap_counts [of "\<lparr>dpkt = p, dstats = [0 \<mapsto> d]\<rparr>" d H] by (auto simp: wp_iff)
  obtain x y z where s: "dstats t 0 = Some (counted d x y z)" "x + y \<le> z" "z \<le> 1" using counts_oneD [OF t(2)] by blast
  obtain x' y' z' where r: "decap_serve H (counted d x y z) ps = Some (counted (counted d x y z) x' y' z')" "x' + y' \<le> z'" "z' \<le> length ps"
    using Cons.IH by blast
  have "counted (counted d x y z) x' y' z' = counted d (x + x') (y + y') (z + z')" by (simp add: counted_def)
  then show ?case using t(1) s r by (intro exI [where x = "x + x'"] exI [where x = "y + y'"] exI [where x = "z + z'"]) simp
qed

lemma all_cpus_count:
  assumes "list_all2 (\<lambda>ps st. decap_serve H decap_stats_zero ps = Some st) work cpus"
  shows "\<exists>x y z. sum_list (map ds_decap_v4 cpus) = of_nat x \<and> sum_list (map ds_decap_v6 cpus) = of_nat y \<and>
    sum_list (map ds_total cpus) = of_nat z \<and> x + y \<le> z \<and> z \<le> sum_list (map length work)"
  using assms
proof (induction rule: list_all2_induct)
  case Nil
  then show ?case by (intro exI [where x = 0]) simp
next
  case (Cons ps work st cpus)
  obtain x y z where 1: "st = counted decap_stats_zero x y z" "x + y \<le> z" "z \<le> length ps"
    using decap_serve_counts [of H decap_stats_zero ps] Cons.hyps(1) by auto
  obtain x' y' z' where 2: "sum_list (map ds_decap_v4 cpus) = of_nat x'" "sum_list (map ds_decap_v6 cpus) = of_nat y'"
    "sum_list (map ds_total cpus) = of_nat z'" "x' + y' \<le> z'" "z' \<le> sum_list (map length work)" using Cons.IH by blast
  show ?case using 1 2
    by (intro exI [where x = "x + x'"] exI [where x = "y + y'"] exI [where x = "z + z'"]) (simp add: counted_def decap_stats_zero_def)
qed

text \<open>The counters the object reports fit together: however the packets were spread over the CPUs, every packet is served, the decapsulated
  packets of both kinds together are at most the processed ones, and these at most the packets that arrived, for fewer than
  \<open>2 ^ 64\<close> packets.\<close>

theorem decap_counters_fit:
  assumes "isLoaded d" "0 \<le> nr_cpus" "look (BpfLoader_getMapFdByName ''stats'' (decap_loader d)) 0 = Some cpus"
    and "list_all2 (\<lambda>ps st. decap_serve H decap_stats_zero ps = Some st) work cpus" "sum_list (map length work) < 2 ^ 64"
  defines "st \<equiv> getXdpDecapStats nr_cpus look d"
  shows "(\<forall>ps. decap_serve H decap_stats_zero ps \<noteq> None) \<and>
    unat (ds_decap_v4 st) + unat (ds_decap_v6 st) \<le> unat (ds_total st) \<and> unat (ds_total st) \<le> sum_list (map length work)"
proof -
  obtain x y z where s: "sum_list (map ds_decap_v4 cpus) = of_nat x" "sum_list (map ds_decap_v6 cpus) = of_nat y"
    "sum_list (map ds_total cpus) = of_nat z" "x + y \<le> z" "z \<le> sum_list (map length work)" using all_cpus_count [OF assms(4)] by blast
  have "st = \<lparr>ds_decap_v4 = of_nat x, ds_decap_v6 = of_nat y, ds_total = of_nat z\<rparr>"
    using assms(1-3) s by (simp add: st_def getXdpDecapStats_def decap_sum) (simp add: decap_stats_zero_def)
  moreover have "unat (of_nat n :: u64) = n" if "n \<le> z" for n using that s(5) assms(5) by (simp add: unat_of_nat)
  ultimately show ?thesis using s(4,5) decap_serve_counts [of H decap_stats_zero] by force
qed

section \<open>An example\<close>

definition ex_xdpdecap :: XdpDecap where
  "ex_xdpdecap = \<lparr>decap_config = \<lparr>progPath = ''decap_kern.o'', mapPath = ''/sys/fs/bpf/jmp'', progPos = 8, interface = ''lo'', detachOnExit = True\<rparr>,
     decap_loader = BpfLoader_new\<lparr>progs := [''xdp-decap'' \<mapsto> 9], maps := [''stats'' \<mapsto> 10]\<rparr>, isStandalone = False, isLoaded = True, isAttached = False\<rparr>"

definition ex_pin_env :: os_env where
  "ex_pin_env = \<lparr>reply = (\<lambda>_ c. case c of Obj_get _ \<Rightarrow> 4 | _ \<Rightarrow> 0), queried_ids = (\<lambda>_. []), program_name = (\<lambda>_. []), read_value = (\<lambda>_. []),
     if_nametoindex = (\<lambda>_. 1), time_now = (\<lambda>_. 0), page_size = 4096\<rparr>"

theorem shared_position_is_cleared_witness:
  "\<exists>d t u. attachXdpDecap ex_pin_env ex_xdpdecap \<lparr>fds = [], trace = []\<rparr> = Some (Inr d, t) \<and> XdpDecap_destroy ex_pin_env d t = Some u \<and>
    attachXdpDecap ex_pin_env d t = Some (Inl (), t)"
proof -
  obtain d t where a: "attachXdpDecap ex_pin_env ex_xdpdecap \<lparr>fds = [], trace = []\<rparr> = Some (Inr d, t)"
    by (simp add: attachXdpDecap_def ex_xdpdecap_def ex_pin_env_def getPinnedBpfObject_def bpfUpdateMap_def sys_def Let_def)
  have n: "\<not> isStandalone ex_xdpdecap" by (simp add: ex_xdpdecap_def)
  have "d = ex_xdpdecap\<lparr>isAttached := True\<rparr>" using attach_shared(2) [OF a n] .
  then obtain u where u: "XdpDecap_destroy ex_pin_env d t = Some u"
    by (simp add: XdpDecap_destroy_def ex_xdpdecap_def ex_pin_env_def getPinnedBpfObject_def sys_def Let_def)
  show ?thesis using shared_position_is_cleared [OF a n u] a u by blast
qed

theorem decap_counters_fit_witness:
  "unat (ds_total (getXdpDecapStats 2 (\<lambda>_ _. Some [decap_stats_zero, decap_stats_zero]) ex_xdpdecap)) \<le> 1"
proof -
  have "decap_serve ref_helpers decap_stats_zero [[]] = Some decap_stats_zero"
    by (simp add: xdpdecap_def decap_stats_zero_def)
  then have "list_all2 (\<lambda>ps st. decap_serve ref_helpers decap_stats_zero ps = Some st) [[[]], []] [decap_stats_zero, decap_stats_zero]"
    by simp
  then show ?thesis
    using decap_counters_fit [of ex_xdpdecap 2 "\<lambda>_ _. Some [decap_stats_zero, decap_stats_zero]" _ ref_helpers "[[[]], []]"]
    by (simp add: ex_xdpdecap_def)
qed

end
