(* ===== verification/Service.thy ===== *)
theory Service
  imports Katran_Sync Katran_Setup
begin

text \<open>
  The services that put \<open>KatranLb\<close> on the network, \<open>src/example/KatranSimpleServiceHandler.cpp\<close> for thrift and
  \<open>src/example_grpc/KatranGrpcService.cpp\<close> for gRPC, with \<open>src/katran/lib/MacHelpers.cpp\<close>. A handler maps the state of the
  \<open>KatranLb\<close> object to the answer and the next state; \<open>Inl\<close> is an exception nobody catches, or a call that does not come back.
  The lock of the service makes every handler one step.
\<close>

section \<open>MAC addresses as text\<close>

text \<open>\<open>parse\<close> is \<open>folly::MacAddress::parse\<close>, \<open>None\<close> its exception.\<close>

definition convertMacToUint :: "(string \<Rightarrow> u8 list option) \<Rightarrow> string \<Rightarrow> u8 list" where
  "convertMacToUint parse macAddress = (case parse macAddress of
       None \<Rightarrow> replicate 6 0
     | Some mac_bytes \<Rightarrow> mac_bytes)"

definition hex_digit :: "nat \<Rightarrow> char" where
  "hex_digit n = ''0123456789abcdef'' ! n"

definition hex_byte :: "u8 \<Rightarrow> string" where
  "hex_byte b = [hex_digit (unat b div 16), hex_digit (unat b mod 16)]"

definition convertMacToString :: "u8 list \<Rightarrow> string" where
  "convertMacToString mac =
     (if length mac \<noteq> 6 then ''unknown''
      else concat (map (\<lambda>m. hex_byte m @ '':'') mac))"

section \<open>Messages\<close>

text \<open>The integers of the messages have 32 or 64 bits; assigning them to the fields of \<open>KatranLb\<close> keeps their low bits.\<close>

record vip_msg =
  vm_address :: string
  vm_port :: u32
  vm_protocol :: u32

record vip_meta_msg =
  vmm_vip :: vip_msg
  vmm_flags :: u64
  vmm_setFlag :: bool

record real_msg =
  rlm_address :: string
  rlm_weight :: u32

record quic_real_msg =
  qrm_address :: string
  qrm_id :: u32

record hc_msg =
  hcm_somark :: u32
  hcm_address :: string

datatype request =
    ChangeMac string
  | GetMac
  | AddVip vip_meta_msg
  | DelVip vip_msg
  | GetAllVips
  | ModifyVip vip_meta_msg
  | GetVipFlags vip_msg
  | AddRealForVip real_msg vip_msg
  | DelRealForVip real_msg vip_msg
  | ModifyRealsForVip ModifyAction "real_msg list" vip_msg
  | GetRealsForVip vip_msg
  | ModifyQuicRealsMapping ModifyAction "quic_real_msg list"
  | GetQuicRealsMapping
  | GetStatsForVip vip_msg
  | GetLruStats
  | GetLruMissStats
  | GetLruFallbackStats
  | GetIcmpTooBigStats
  | AddHealthcheckerDst hc_msg
  | DelHealthcheckerDst u32
  | GetHealthcheckersDst

datatype response =
    Success bool
  | MacIs string
  | VipsAre "vip_msg list"
  | FlagsAre u64
  | RealsAre "real_msg list"
  | QuicRealsAre "quic_real_msg list"
  | StatsAre lb_stats
  | HcsAre "u32 \<rightharpoonup> string"

definition translateVipObject :: "vip_msg \<Rightarrow> VipKey" where
  "translateVipObject vip = \<lparr>vk_address = vm_address vip, vk_port = ucast (vm_port vip), vk_proto = ucast (vm_protocol vip)\<rparr>"

definition translateRealObject :: "real_msg \<Rightarrow> NewReal" where
  "translateRealObject real = \<lparr>nr_address = rlm_address real, nr_weight = rlm_weight real\<rparr>"

definition translateQuicRealObject :: "quic_real_msg \<Rightarrow> QuicReal" where
  "translateQuicRealObject real = \<lparr>qr_address = qrm_address real, qr_id = qrm_id real\<rparr>"

section \<open>The thrift service\<close>

text \<open>What the handlers need from outside of the object: its environment, the reader of per-CPU counters and the parser of MAC
  addresses.\<close>

record service_env =
  lb_env :: katran_env
  look_stats :: "string \<Rightarrow> u32 \<Rightarrow> lb_stats list option"
  parse_mac :: "string \<Rightarrow> u8 list option"

record KatranService =
  svc_lb :: KatranLb
  hcForwarding :: bool

text \<open>A \<open>catch\<close> of \<open>std::exception\<close>; a call that ends the process or does not return is not caught.\<close>

definition catching :: "(unit \<Rightarrow> 'a) \<Rightarrow> lb_error + 'a \<Rightarrow> lb_error + 'a" where
  "catching handler r = (case r of
       Inr x \<Rightarrow> Inr x
     | Inl e \<Rightarrow> if e = invalid_argument \<or> e = runtime_error \<or> e = bad_address then Inr (handler ()) else Inl e)"

definition with_lb :: "KatranService \<Rightarrow> 'a \<times> KatranLb \<Rightarrow> 'a \<times> KatranService" where
  "with_lb s r = (case r of (x, lb) \<Rightarrow> (x, s\<lparr>svc_lb := lb\<rparr>))"

type_synonym 'a answer = "(lb_error + 'a) \<times> KatranService"

definition KatranSimpleServiceHandler_new :: "service_env \<Rightarrow> ctl_value \<Rightarrow> KatranConfig \<Rightarrow> kernel \<Rightarrow> lb_error + KatranService" where
  "KatranSimpleServiceHandler_new V junk cfg k =
     (case KatranLb_new (lb_env V) junk cfg k of
        Inl e \<Rightarrow> Inl e
      | Inr lb \<Rightarrow>
          (case loadBpfProgs (lb_env V) lb of
             (Inl e, _) \<Rightarrow> Inl e
           | (Inr _, lb) \<Rightarrow>
               (case attachBpfProgs (lb_env V) lb of
                  (Inl e, _) \<Rightarrow> Inl e
                | (Inr _, lb) \<Rightarrow> Inr \<lparr>svc_lb = lb, hcForwarding = enableHc cfg\<rparr>)))"

definition thrift_changeMac :: "service_env \<Rightarrow> string \<Rightarrow> KatranService \<Rightarrow> bool answer" where
  "thrift_changeMac V newMac s =
     (let mac = convertMacToUint (parse_mac V) newMac in
      apfst Inr (with_lb s (changeMac (lb_env V) mac (svc_lb s))))"

definition thrift_getMac :: "service_env \<Rightarrow> KatranService \<Rightarrow> string answer" where
  "thrift_getMac V s = (Inr (convertMacToString (getMac (svc_lb s))), s)"

definition thrift_addVip :: "service_env \<Rightarrow> vip_meta_msg \<Rightarrow> KatranService \<Rightarrow> bool answer" where
  "thrift_addVip V vipMeta s =
     (let vk = translateVipObject (vmm_vip vipMeta) in
      apfst Inr (with_lb s (addVip (lb_env V) vk (ucast (vmm_flags vipMeta)) (svc_lb s))))"

definition thrift_delVip :: "service_env \<Rightarrow> vip_msg \<Rightarrow> KatranService \<Rightarrow> bool answer" where
  "thrift_delVip V vip s =
     (let vk = translateVipObject vip in apfst Inr (with_lb s (delVip (lb_env V) vk (svc_lb s))))"

definition thrift_getAllVips :: "service_env \<Rightarrow> KatranService \<Rightarrow> vip_msg list answer" where
  "thrift_getAllVips V s =
     (Inr (map (\<lambda>v. \<lparr>vm_address = vk_address v, vm_port = ucast (vk_port v), vm_protocol = ucast (vk_proto v)\<rparr>)
        (getAllVips (lb_env V) (svc_lb s))), s)"

definition thrift_modifyVip :: "service_env \<Rightarrow> vip_meta_msg \<Rightarrow> KatranService \<Rightarrow> bool answer" where
  "thrift_modifyVip V vipMeta s =
     (let vk = translateVipObject (vmm_vip vipMeta) in
      apfst Inr (with_lb s (modifyVip (lb_env V) vk (ucast (vmm_flags vipMeta)) (vmm_setFlag vipMeta) (svc_lb s))))"

definition thrift_getVipFlags :: "service_env \<Rightarrow> vip_msg \<Rightarrow> KatranService \<Rightarrow> u64 answer" where
  "thrift_getVipFlags V vip s =
     (let vk = translateVipObject vip in
      (catching (\<lambda>_. -1) (map_sum id ucast (getVipFlags vk (svc_lb s))), s))"

definition thrift_addRealForVip :: "service_env \<Rightarrow> real_msg \<Rightarrow> vip_msg \<Rightarrow> KatranService \<Rightarrow> bool answer" where
  "thrift_addRealForVip V real vip s =
     (let vk = translateVipObject vip; nr = translateRealObject real in
      apfst (catching (\<lambda>_. False)) (with_lb s (addRealForVip (lb_env V) nr vk (svc_lb s))))"

definition thrift_delRealForVip :: "service_env \<Rightarrow> real_msg \<Rightarrow> vip_msg \<Rightarrow> KatranService \<Rightarrow> bool answer" where
  "thrift_delRealForVip V real vip s =
     (let vk = translateVipObject vip; nr = translateRealObject real in
      with_lb s (delRealForVip (lb_env V) nr vk (svc_lb s)))"

definition thrift_modifyRealsForVip :: "service_env \<Rightarrow> ModifyAction \<Rightarrow> real_msg list \<Rightarrow> vip_msg \<Rightarrow> KatranService \<Rightarrow> bool answer" where
  "thrift_modifyRealsForVip V action rs vip s =
     (let vk = translateVipObject vip; nreals = map translateRealObject rs in
      apfst (catching (\<lambda>_. False)) (with_lb s (modifyRealsForVip (lb_env V) action nreals vk (svc_lb s))))"

definition thrift_getRealsForVip :: "service_env \<Rightarrow> vip_msg \<Rightarrow> KatranService \<Rightarrow> real_msg list answer" where
  "thrift_getRealsForVip V vip s =
     (let vk = translateVipObject vip in
      apfst (catching (\<lambda>_. []) \<circ> map_sum id (map (\<lambda>real. \<lparr>rlm_address = nr_address real, rlm_weight = nr_weight real\<rparr>)))
        (with_lb s (getRealsForVip (lb_env V) vk (svc_lb s))))"

definition thrift_modifyQuicRealsMapping :: "service_env \<Rightarrow> ModifyAction \<Rightarrow> quic_real_msg list \<Rightarrow> KatranService \<Rightarrow> bool answer" where
  "thrift_modifyQuicRealsMapping V action rs s =
     (let qreals = map translateQuicRealObject rs in
      (Inr True, s\<lparr>svc_lb := modifyQuicRealsMapping (lb_env V) action qreals (svc_lb s)\<rparr>))"

definition thrift_getQuicRealsMapping :: "service_env \<Rightarrow> KatranService \<Rightarrow> quic_real_msg list answer" where
  "thrift_getQuicRealsMapping V s =
     (Inr (map (\<lambda>real. \<lparr>qrm_address = qr_address real, qrm_id = qr_id real\<rparr>) (getQuicRealsMapping (lb_env V) (svc_lb s))), s)"

definition thrift_getStatsForVip :: "service_env \<Rightarrow> vip_msg \<Rightarrow> KatranService \<Rightarrow> lb_stats answer" where
  "thrift_getStatsForVip V vip s =
     (let vk = translateVipObject vip in apfst Inr (with_lb s (getStatsForVip (look_stats V) vk (svc_lb s))))"

definition thrift_getLruStats :: "service_env \<Rightarrow> KatranService \<Rightarrow> lb_stats answer" where
  "thrift_getLruStats V s = apfst Inr (with_lb s (getLruStats (look_stats V) (svc_lb s)))"

definition thrift_getLruMissStats :: "service_env \<Rightarrow> KatranService \<Rightarrow> lb_stats answer" where
  "thrift_getLruMissStats V s = apfst Inr (with_lb s (getLruMissStats (look_stats V) (svc_lb s)))"

definition thrift_getLruFallbackStats :: "service_env \<Rightarrow> KatranService \<Rightarrow> lb_stats answer" where
  "thrift_getLruFallbackStats V s = apfst Inr (with_lb s (getLruFallbackStats (look_stats V) (svc_lb s)))"

definition thrift_getIcmpTooBigStats :: "service_env \<Rightarrow> KatranService \<Rightarrow> lb_stats answer" where
  "thrift_getIcmpTooBigStats V s = apfst Inr (with_lb s (getIcmpTooBigStats (look_stats V) (svc_lb s)))"

definition thrift_addHealthcheckerDst :: "service_env \<Rightarrow> hc_msg \<Rightarrow> KatranService \<Rightarrow> bool answer" where
  "thrift_addHealthcheckerDst V healthcheck s =
     (if \<not> hcForwarding s then (Inr False, s)
      else apfst Inr (with_lb s (addHealthcheckerDst (lb_env V) (hcm_somark healthcheck) (hcm_address healthcheck) (svc_lb s))))"

definition thrift_delHealthcheckerDst :: "service_env \<Rightarrow> u32 \<Rightarrow> KatranService \<Rightarrow> bool answer" where
  "thrift_delHealthcheckerDst V somark s =
     (if \<not> hcForwarding s then (Inr False, s)
      else apfst Inr (with_lb s (delHealthcheckerDst (lb_env V) somark (svc_lb s))))"

definition thrift_getHealthcheckersDst :: "service_env \<Rightarrow> KatranService \<Rightarrow> (u32 \<rightharpoonup> string) answer" where
  "thrift_getHealthcheckersDst V s =
     (if \<not> hcForwarding s then (Inr Map.empty, s)
      else (Inr (map_of (getHealthcheckersDst (lb_env V) (svc_lb s))), s))"

fun thrift_handle :: "service_env \<Rightarrow> request \<Rightarrow> KatranService \<Rightarrow> response answer" where
  "thrift_handle V (ChangeMac newMac) s = apfst (map_sum id Success) (thrift_changeMac V newMac s)"
| "thrift_handle V GetMac s = apfst (map_sum id MacIs) (thrift_getMac V s)"
| "thrift_handle V (AddVip vipMeta) s = apfst (map_sum id Success) (thrift_addVip V vipMeta s)"
| "thrift_handle V (DelVip vip) s = apfst (map_sum id Success) (thrift_delVip V vip s)"
| "thrift_handle V GetAllVips s = apfst (map_sum id VipsAre) (thrift_getAllVips V s)"
| "thrift_handle V (ModifyVip vipMeta) s = apfst (map_sum id Success) (thrift_modifyVip V vipMeta s)"
| "thrift_handle V (GetVipFlags vip) s = apfst (map_sum id FlagsAre) (thrift_getVipFlags V vip s)"
| "thrift_handle V (AddRealForVip real vip) s = apfst (map_sum id Success) (thrift_addRealForVip V real vip s)"
| "thrift_handle V (DelRealForVip real vip) s = apfst (map_sum id Success) (thrift_delRealForVip V real vip s)"
| "thrift_handle V (ModifyRealsForVip action rs vip) s = apfst (map_sum id Success) (thrift_modifyRealsForVip V action rs vip s)"
| "thrift_handle V (GetRealsForVip vip) s = apfst (map_sum id RealsAre) (thrift_getRealsForVip V vip s)"
| "thrift_handle V (ModifyQuicRealsMapping action rs) s = apfst (map_sum id Success) (thrift_modifyQuicRealsMapping V action rs s)"
| "thrift_handle V GetQuicRealsMapping s = apfst (map_sum id QuicRealsAre) (thrift_getQuicRealsMapping V s)"
| "thrift_handle V (GetStatsForVip vip) s = apfst (map_sum id StatsAre) (thrift_getStatsForVip V vip s)"
| "thrift_handle V GetLruStats s = apfst (map_sum id StatsAre) (thrift_getLruStats V s)"
| "thrift_handle V GetLruMissStats s = apfst (map_sum id StatsAre) (thrift_getLruMissStats V s)"
| "thrift_handle V GetLruFallbackStats s = apfst (map_sum id StatsAre) (thrift_getLruFallbackStats V s)"
| "thrift_handle V GetIcmpTooBigStats s = apfst (map_sum id StatsAre) (thrift_getIcmpTooBigStats V s)"
| "thrift_handle V (AddHealthcheckerDst m) s = apfst (map_sum id Success) (thrift_addHealthcheckerDst V m s)"
| "thrift_handle V (DelHealthcheckerDst somark) s = apfst (map_sum id Success) (thrift_delHealthcheckerDst V somark s)"
| "thrift_handle V GetHealthcheckersDst s = apfst (map_sum id HcsAre) (thrift_getHealthcheckersDst V s)"

section \<open>The gRPC service\<close>

datatype grpc_status = OK | CANCELLED

definition returnStatus :: "bool \<Rightarrow> grpc_status" where
  "returnStatus result = (if result then OK else CANCELLED)"

text \<open>The answer of a handler that sets \<open>success\<close> and returns the status of it.\<close>

definition reply_bool :: "bool answer \<Rightarrow> (grpc_status \<times> bool) answer" where
  "reply_bool r = apfst (map_sum id (\<lambda>res. (returnStatus res, res))) r"

definition reply_ok :: "'a answer \<Rightarrow> (grpc_status \<times> 'a) answer" where
  "reply_ok r = apfst (map_sum id (Pair OK)) r"

definition KatranGrpcService_new :: "service_env \<Rightarrow> ctl_value \<Rightarrow> KatranConfig \<Rightarrow> kernel \<Rightarrow> lb_error + KatranService" where
  "KatranGrpcService_new V junk cfg k =
     (case KatranLb_new (lb_env V) junk cfg k of
        Inl e \<Rightarrow> Inl e
      | Inr lb \<Rightarrow>
          (case loadBpfProgs (lb_env V) lb of
             (Inl e, _) \<Rightarrow> Inl e
           | (Inr _, lb) \<Rightarrow>
               (case attachBpfProgs (lb_env V) lb of
                  (Inl e, _) \<Rightarrow> Inl e
                | (Inr _, lb) \<Rightarrow> Inr \<lparr>svc_lb = lb, hcForwarding = enableHc cfg\<rparr>)))"

definition grpc_changeMac :: "service_env \<Rightarrow> string \<Rightarrow> KatranService \<Rightarrow> (grpc_status \<times> bool) answer" where
  "grpc_changeMac V newMac s =
     (let mac = convertMacToUint (parse_mac V) newMac in
      reply_bool (apfst Inr (with_lb s (changeMac (lb_env V) mac (svc_lb s)))))"

definition grpc_getMac :: "service_env \<Rightarrow> KatranService \<Rightarrow> (grpc_status \<times> string) answer" where
  "grpc_getMac V s = reply_ok (Inr (convertMacToString (getMac (svc_lb s))), s)"

definition grpc_addVip :: "service_env \<Rightarrow> vip_meta_msg \<Rightarrow> KatranService \<Rightarrow> (grpc_status \<times> bool) answer" where
  "grpc_addVip V vipMeta s =
     (let vk = translateVipObject (vmm_vip vipMeta) in
      reply_bool (apfst Inr (with_lb s (addVip (lb_env V) vk (ucast (vmm_flags vipMeta)) (svc_lb s)))))"

definition grpc_delVip :: "service_env \<Rightarrow> vip_msg \<Rightarrow> KatranService \<Rightarrow> (grpc_status \<times> bool) answer" where
  "grpc_delVip V vip s =
     (let vk = translateVipObject vip in reply_bool (apfst Inr (with_lb s (delVip (lb_env V) vk (svc_lb s)))))"

definition grpc_getAllVips :: "service_env \<Rightarrow> KatranService \<Rightarrow> (grpc_status \<times> vip_msg list) answer" where
  "grpc_getAllVips V s =
     reply_ok (Inr (map (\<lambda>v. \<lparr>vm_address = vk_address v, vm_port = ucast (vk_port v), vm_protocol = ucast (vk_proto v)\<rparr>)
        (getAllVips (lb_env V) (svc_lb s))), s)"

definition grpc_modifyVip :: "service_env \<Rightarrow> vip_meta_msg \<Rightarrow> KatranService \<Rightarrow> (grpc_status \<times> bool) answer" where
  "grpc_modifyVip V vipMeta s =
     (let vk = translateVipObject (vmm_vip vipMeta) in
      reply_bool (apfst Inr (with_lb s (modifyVip (lb_env V) vk (ucast (vmm_flags vipMeta)) (vmm_setFlag vipMeta) (svc_lb s)))))"

definition grpc_getVipFlags :: "service_env \<Rightarrow> vip_msg \<Rightarrow> KatranService \<Rightarrow> (grpc_status \<times> u64) answer" where
  "grpc_getVipFlags V vip s =
     (let vk = translateVipObject vip in
      reply_ok (catching (\<lambda>_. -1) (map_sum id ucast (getVipFlags vk (svc_lb s))), s))"

definition grpc_addRealForVip :: "service_env \<Rightarrow> real_msg \<Rightarrow> vip_msg \<Rightarrow> KatranService \<Rightarrow> (grpc_status \<times> bool) answer" where
  "grpc_addRealForVip V real vip s =
     (let vk = translateVipObject vip; nr = translateRealObject real in
      reply_bool (apfst (catching (\<lambda>_. False)) (with_lb s (addRealForVip (lb_env V) nr vk (svc_lb s)))))"

definition grpc_delRealForVip :: "service_env \<Rightarrow> real_msg \<Rightarrow> vip_msg \<Rightarrow> KatranService \<Rightarrow> (grpc_status \<times> bool) answer" where
  "grpc_delRealForVip V real vip s =
     (let vk = translateVipObject vip; nr = translateRealObject real in
      reply_bool (with_lb s (delRealForVip (lb_env V) nr vk (svc_lb s))))"

definition grpc_modifyRealsForVip ::
  "service_env \<Rightarrow> ModifyAction \<Rightarrow> real_msg list \<Rightarrow> vip_msg \<Rightarrow> KatranService \<Rightarrow> (grpc_status \<times> bool) answer" where
  "grpc_modifyRealsForVip V action rs vip s =
     (let vk = translateVipObject vip; nreals = map translateRealObject rs in
      reply_bool (apfst (catching (\<lambda>_. False)) (with_lb s (modifyRealsForVip (lb_env V) action nreals vk (svc_lb s)))))"

definition grpc_getRealsForVip :: "service_env \<Rightarrow> vip_msg \<Rightarrow> KatranService \<Rightarrow> (grpc_status \<times> real_msg list) answer" where
  "grpc_getRealsForVip V vip s =
     (let vk = translateVipObject vip in
      apfst (catching (\<lambda>_. (CANCELLED, [])) \<circ>
          map_sum id (\<lambda>rs. (OK, map (\<lambda>real. \<lparr>rlm_address = nr_address real, rlm_weight = nr_weight real\<rparr>) rs)))
        (with_lb s (getRealsForVip (lb_env V) vk (svc_lb s))))"

definition grpc_modifyQuicRealsMapping ::
  "service_env \<Rightarrow> ModifyAction \<Rightarrow> quic_real_msg list \<Rightarrow> KatranService \<Rightarrow> (grpc_status \<times> bool) answer" where
  "grpc_modifyQuicRealsMapping V action rs s =
     (let qreals = map translateQuicRealObject rs in
      reply_bool (Inr True, s\<lparr>svc_lb := modifyQuicRealsMapping (lb_env V) action qreals (svc_lb s)\<rparr>))"

definition grpc_getQuicRealsMapping :: "service_env \<Rightarrow> KatranService \<Rightarrow> (grpc_status \<times> quic_real_msg list) answer" where
  "grpc_getQuicRealsMapping V s =
     reply_ok (Inr (map (\<lambda>real. \<lparr>qrm_address = qr_address real, qrm_id = qr_id real\<rparr>) (getQuicRealsMapping (lb_env V) (svc_lb s))), s)"

definition grpc_getStatsForVip :: "service_env \<Rightarrow> vip_msg \<Rightarrow> KatranService \<Rightarrow> (grpc_status \<times> lb_stats) answer" where
  "grpc_getStatsForVip V vip s =
     (let vk = translateVipObject vip in reply_ok (apfst Inr (with_lb s (getStatsForVip (look_stats V) vk (svc_lb s)))))"

definition grpc_getLruStats :: "service_env \<Rightarrow> KatranService \<Rightarrow> (grpc_status \<times> lb_stats) answer" where
  "grpc_getLruStats V s = reply_ok (apfst Inr (with_lb s (getLruStats (look_stats V) (svc_lb s))))"

definition grpc_getLruMissStats :: "service_env \<Rightarrow> KatranService \<Rightarrow> (grpc_status \<times> lb_stats) answer" where
  "grpc_getLruMissStats V s = reply_ok (apfst Inr (with_lb s (getLruMissStats (look_stats V) (svc_lb s))))"

definition grpc_getLruFallbackStats :: "service_env \<Rightarrow> KatranService \<Rightarrow> (grpc_status \<times> lb_stats) answer" where
  "grpc_getLruFallbackStats V s = reply_ok (apfst Inr (with_lb s (getLruFallbackStats (look_stats V) (svc_lb s))))"

definition grpc_getIcmpTooBigStats :: "service_env \<Rightarrow> KatranService \<Rightarrow> (grpc_status \<times> lb_stats) answer" where
  "grpc_getIcmpTooBigStats V s = reply_ok (apfst Inr (with_lb s (getIcmpTooBigStats (look_stats V) (svc_lb s))))"

definition grpc_addHealthcheckerDst :: "service_env \<Rightarrow> hc_msg \<Rightarrow> KatranService \<Rightarrow> (grpc_status \<times> bool) answer" where
  "grpc_addHealthcheckerDst V healthcheck s =
     (if \<not> hcForwarding s then (Inr (CANCELLED, False), s)
      else reply_bool (apfst Inr (with_lb s
        (addHealthcheckerDst (lb_env V) (hcm_somark healthcheck) (hcm_address healthcheck) (svc_lb s)))))"

definition grpc_delHealthcheckerDst :: "service_env \<Rightarrow> u32 \<Rightarrow> KatranService \<Rightarrow> (grpc_status \<times> bool) answer" where
  "grpc_delHealthcheckerDst V somark s =
     (if \<not> hcForwarding s then (Inr (CANCELLED, False), s)
      else reply_bool (apfst Inr (with_lb s (delHealthcheckerDst (lb_env V) somark (svc_lb s)))))"

definition grpc_getHealthcheckersDst :: "service_env \<Rightarrow> KatranService \<Rightarrow> (grpc_status \<times> (u32 \<rightharpoonup> string)) answer" where
  "grpc_getHealthcheckersDst V s =
     (if \<not> hcForwarding s then (Inr (CANCELLED, Map.empty), s)
      else (Inr (OK, map_of (getHealthcheckersDst (lb_env V) (svc_lb s))), s))"

fun grpc_handle :: "service_env \<Rightarrow> request \<Rightarrow> KatranService \<Rightarrow> (grpc_status \<times> response) answer" where
  "grpc_handle V (ChangeMac newMac) s = apfst (map_sum id (map_prod id Success)) (grpc_changeMac V newMac s)"
| "grpc_handle V GetMac s = apfst (map_sum id (map_prod id MacIs)) (grpc_getMac V s)"
| "grpc_handle V (AddVip vipMeta) s = apfst (map_sum id (map_prod id Success)) (grpc_addVip V vipMeta s)"
| "grpc_handle V (DelVip vip) s = apfst (map_sum id (map_prod id Success)) (grpc_delVip V vip s)"
| "grpc_handle V GetAllVips s = apfst (map_sum id (map_prod id VipsAre)) (grpc_getAllVips V s)"
| "grpc_handle V (ModifyVip vipMeta) s = apfst (map_sum id (map_prod id Success)) (grpc_modifyVip V vipMeta s)"
| "grpc_handle V (GetVipFlags vip) s = apfst (map_sum id (map_prod id FlagsAre)) (grpc_getVipFlags V vip s)"
| "grpc_handle V (AddRealForVip real vip) s = apfst (map_sum id (map_prod id Success)) (grpc_addRealForVip V real vip s)"
| "grpc_handle V (DelRealForVip real vip) s = apfst (map_sum id (map_prod id Success)) (grpc_delRealForVip V real vip s)"
| "grpc_handle V (ModifyRealsForVip action rs vip) s = apfst (map_sum id (map_prod id Success)) (grpc_modifyRealsForVip V action rs vip s)"
| "grpc_handle V (GetRealsForVip vip) s = apfst (map_sum id (map_prod id RealsAre)) (grpc_getRealsForVip V vip s)"
| "grpc_handle V (ModifyQuicRealsMapping action rs) s = apfst (map_sum id (map_prod id Success)) (grpc_modifyQuicRealsMapping V action rs s)"
| "grpc_handle V GetQuicRealsMapping s = apfst (map_sum id (map_prod id QuicRealsAre)) (grpc_getQuicRealsMapping V s)"
| "grpc_handle V (GetStatsForVip vip) s = apfst (map_sum id (map_prod id StatsAre)) (grpc_getStatsForVip V vip s)"
| "grpc_handle V GetLruStats s = apfst (map_sum id (map_prod id StatsAre)) (grpc_getLruStats V s)"
| "grpc_handle V GetLruMissStats s = apfst (map_sum id (map_prod id StatsAre)) (grpc_getLruMissStats V s)"
| "grpc_handle V GetLruFallbackStats s = apfst (map_sum id (map_prod id StatsAre)) (grpc_getLruFallbackStats V s)"
| "grpc_handle V GetIcmpTooBigStats s = apfst (map_sum id (map_prod id StatsAre)) (grpc_getIcmpTooBigStats V s)"
| "grpc_handle V (AddHealthcheckerDst m) s = apfst (map_sum id (map_prod id Success)) (grpc_addHealthcheckerDst V m s)"
| "grpc_handle V (DelHealthcheckerDst somark) s = apfst (map_sum id (map_prod id Success)) (grpc_delHealthcheckerDst V somark s)"
| "grpc_handle V GetHealthcheckersDst s = apfst (map_sum id (map_prod id HcsAre)) (grpc_getHealthcheckersDst V s)"

section \<open>Both services do the same\<close>

lemmas thrift_defs = thrift_changeMac_def thrift_getMac_def thrift_addVip_def thrift_delVip_def thrift_getAllVips_def thrift_modifyVip_def
  thrift_getVipFlags_def thrift_addRealForVip_def thrift_delRealForVip_def thrift_modifyRealsForVip_def thrift_getRealsForVip_def
  thrift_modifyQuicRealsMapping_def thrift_getQuicRealsMapping_def thrift_getStatsForVip_def thrift_getLruStats_def
  thrift_getLruMissStats_def thrift_getLruFallbackStats_def thrift_getIcmpTooBigStats_def thrift_addHealthcheckerDst_def
  thrift_delHealthcheckerDst_def thrift_getHealthcheckersDst_def

lemmas grpc_defs = grpc_changeMac_def grpc_getMac_def grpc_addVip_def grpc_delVip_def grpc_getAllVips_def grpc_modifyVip_def
  grpc_getVipFlags_def grpc_addRealForVip_def grpc_delRealForVip_def grpc_modifyRealsForVip_def grpc_getRealsForVip_def
  grpc_modifyQuicRealsMapping_def grpc_getQuicRealsMapping_def grpc_getStatsForVip_def grpc_getLruStats_def
  grpc_getLruMissStats_def grpc_getLruFallbackStats_def grpc_getIcmpTooBigStats_def grpc_addHealthcheckerDst_def
  grpc_delHealthcheckerDst_def grpc_getHealthcheckersDst_def

lemma reply_simps [simp]:
  "apfst (map_sum id snd) (apfst (map_sum id (map_prod id f)) (reply_bool r)) = apfst (map_sum id f) r"
  "apfst (map_sum id snd) (apfst (map_sum id (map_prod id g)) (reply_ok q)) = apfst (map_sum id g) q"
  by (cases r; simp add: reply_bool_def sum.map_comp comp_def id_def) (cases q; simp add: reply_ok_def sum.map_comp comp_def id_def)

lemma grpc_payload: "thrift_handle V rq s = apfst (map_sum id snd) (grpc_handle V rq s)"
proof (cases rq)
  case (GetRealsForVip vip)
  obtain r t where "getRealsForVip (lb_env V) (translateVipObject vip) (svc_lb s) = (r, t)" by fastforce
  then show ?thesis using GetRealsForVip
    by (cases r) (auto simp: thrift_defs grpc_defs with_lb_def catching_def Let_def)
qed (auto simp: thrift_defs grpc_defs Let_def)

definition status_fits :: "grpc_status \<Rightarrow> response \<Rightarrow> bool" where
  "status_fits st r \<longleftrightarrow> (case r of
       Success b \<Rightarrow> (st = OK) = b
     | RealsAre rs \<Rightarrow> st = OK \<or> rs = []
     | HcsAre m \<Rightarrow> st = OK \<or> m = Map.empty
     | _ \<Rightarrow> st = OK)"

lemma reply_bool_fits: "apfst (map_sum id (map_prod id Success)) (reply_bool q) = (Inr (st, r), t) \<Longrightarrow> status_fits st r"
  by (cases q; cases "fst q") (auto simp: reply_bool_def returnStatus_def status_fits_def)

lemma reply_ok_fits:
  "apfst (map_sum id (map_prod id f)) (reply_ok q) = (Inr (st, r), t) \<Longrightarrow> (\<And>b. f b \<notin> range Success) \<Longrightarrow> status_fits st r"
  by (cases q; cases "fst q") (auto simp: reply_ok_def status_fits_def split: response.split)

lemma grpc_status:
  assumes "grpc_handle V rq s = (Inr (st, r), t)"
  shows "status_fits st r"
proof (cases rq)
  case (GetRealsForVip vip)
  obtain q u where "getRealsForVip (lb_env V) (translateVipObject vip) (svc_lb s) = (q, u)" by fastforce
  then show ?thesis using GetRealsForVip assms
    by (cases q) (auto simp: grpc_defs with_lb_def catching_def status_fits_def Let_def split: if_splits)
next
  case GetHealthcheckersDst
  then show ?thesis using assms by (auto simp: grpc_defs status_fits_def split: if_splits)
qed (use assms in \<open>auto simp: grpc_defs Let_def status_fits_def dest!: reply_bool_fits reply_ok_fits split: if_splits\<close>)

text \<open>C14. The thrift and the gRPC service are the same service: on every request they leave the balancer in the same state and
  give the same answer, and the status of gRPC is the outcome: it is not \<open>OK\<close> exactly for refused requests and, with an empty
  answer, for the list of reals of an unknown service and of health checks that are turned off.\<close>

theorem services_agree:
  "thrift_handle V rq s = apfst (map_sum id snd) (grpc_handle V rq s) \<and>
   (\<forall>st r t. grpc_handle V rq s = (Inr (st, r), t) \<longrightarrow> status_fits st r)"
  using grpc_payload grpc_status by blast

section \<open>Requests and packets\<close>

text \<open>
  A careful request: a batch names no real twice, and the users of reals stay fewer than \<open>2 ^ 32\<close>. No handler checks this: it is a
  condition on the clients, and \<open>Katran_Errors\<close> shows what one batch that breaks it does to the other services.
\<close>

fun careful_request :: "service_env \<Rightarrow> request \<Rightarrow> KatranLb \<Rightarrow> bool" where
  "careful_request V (AddRealForVip r vip) lb = (size (users lb) + 1 < 2 ^ 32)"
| "careful_request V (DelRealForVip r vip) lb = (size (users lb) + 1 < 2 ^ 32)"
| "careful_request V (ModifyRealsForVip action rs vip) lb =
     (distinct (valid_addrs (lb_env V) (map translateRealObject rs)) \<and> size (users lb) + length rs < 2 ^ 32)"
| "careful_request V (ModifyQuicRealsMapping action rs) lb = (size (users lb) + length rs < 2 ^ 32)"
| "careful_request V _ lb = True"

text \<open>
  A run of a service: requests, of any kind and content, whose handlers return, and packets in any order. Its trace is each
  request with the balancer it meets.
\<close>

inductive service_run ::
  "(request \<Rightarrow> KatranService \<Rightarrow> 'r answer) \<Rightarrow> KatranService \<Rightarrow> (request \<times> KatranLb) list \<Rightarrow> KatranService \<Rightarrow> bool"
  for handle :: "request \<Rightarrow> KatranService \<Rightarrow> 'r answer" and s0 :: KatranService where
  svc_start: "service_run handle s0 [] s0"
| svc_request: "service_run handle s0 tr s \<Longrightarrow> handle rq s = (Inr r, s') \<Longrightarrow> service_run handle s0 (tr @ [(rq, svc_lb s)]) s'"
| svc_packet: "service_run handle s0 tr s \<Longrightarrow> balancer_run B H slots ((dp (kernel (svc_lb s)))\<lparr>pkt := p\<rparr>) = Some (a, t) \<Longrightarrow>
    service_run handle s0 tr (s\<lparr>svc_lb := (svc_lb s)\<lparr>kernel := (kernel (svc_lb s))\<lparr>dp := t\<rparr>\<rparr>\<rparr>)"

definition careful_requests :: "service_env \<Rightarrow> (request \<times> KatranLb) list \<Rightarrow> bool" where
  "careful_requests V tr \<longleftrightarrow> list_all (\<lambda>(rq, lb). careful_request V rq lb) tr"

lemma careful_requests_simps [simp]:
  "careful_requests V []" "careful_requests V (tr @ [(rq, lb)]) \<longleftrightarrow> careful_requests V tr \<and> careful_request V rq lb"
  by (simp_all add: careful_requests_def)

text \<open>What a front end has to promise: every request is nothing, or one call of the control plane.\<close>

locale front_end =
  fixes handle :: "request \<Rightarrow> KatranService \<Rightarrow> 'r answer" and V :: service_env
  assumes request_step: "handle rq s = (Inr r, s') \<Longrightarrow> careful_request V rq (svc_lb s) \<Longrightarrow>
    svc_lb s' = svc_lb s \<or> careful_step (lb_env V) (svc_lb s) (svc_lb s')"
begin

lemma refines:
  "service_run handle s0 tr s \<Longrightarrow> careful_requests V tr \<Longrightarrow> careful_reach (lb_env V) lb0 (svc_lb s0) \<Longrightarrow> careful_reach (lb_env V) lb0 (svc_lb s)"
proof (induction rule: service_run.induct)
  case (svc_request tr s rq r s')
  then show ?case using request_step [OF svc_request.hyps(2)] careful_reach_step by auto
next
  case (svc_packet tr s B H slots p a t)
  then show ?case using careful_reach_packet by simp
qed

lemma keeps_rings:
  assumes "KatranLb_new (lb_env V) junk cfg k = Inr lb0" "\<not> testing cfg" "maps_sized cfg k" "cfg_chRingSize cfg = RING_SIZE"
    "unat (maxReals cfg) \<le> 2 ^ 31" "env_ok (lb_env V)" "all_calls_ok (lb_env V)"
    and "careful_reach (lb_env V) lb0 (svc_lb s0)" "service_run handle s0 tr s" "careful_requests V tr"
    and "map_of (vips (svc_lb s)) vip = Some v" "has_live v" "c < unat RING_SIZE"
  shows "\<exists>n r a. ch_rings (dp (kernel (svc_lb s))) (vipNum v * RING_SIZE + of_nat c) = Some n \<and>
      map_of (vip_reals v) n = Some r \<and> vrm_weight r \<noteq> 0 \<and> map_of (numToReals (svc_lb s)) n = Some a \<and>
      reals (dp (kernel (svc_lb s))) n = Some (as_real (parseAddrToBe a True))"
proof -
  have reach: "careful_reach (lb_env V) lb0 (svc_lb s)" using refines assms(8-10) by blast
  have start: "lb_inv lb0" "synced lb0"
    using KatranLb_new_inv [OF assms(1)] KatranLb_new_synced [OF assms(1-3) _ assms(5)] assms(4) by simp_all
  have ok: "lb_inv (svc_lb s)" "synced (svc_lb s)" using careful_reach_ok(1) [OF reach assms(6,7) start] by simp_all
  have "cfg_chRingSize (config (svc_lb s)) = RING_SIZE"
    using careful_reach_ok(2) [OF reach] config_view [OF KatranLb_new_view [OF assms(1)]] assms(4) by (simp add: KatranLb_fields_def)
  then show ?thesis using synced_slot [OF ok assms(11,12), of c] assms(13) by metis
qed

end

lemma one_real_step:
  assumes "size (users lb) + 1 < 2 ^ 32"
  shows "addRealForVip E nr vip lb = (Inr r, lb') \<Longrightarrow> lb' = lb \<or> careful_step E lb lb'"
    and "delRealForVip E nr vip lb = (Inr r, lb') \<Longrightarrow> lb' = lb \<or> careful_step E lb lb'"
  using assms step_modifyReals [of E _ "[nr]" vip lb r lb']
  by (auto simp: addRealForVip_def delRealForVip_def split: if_splits option.splits)

lemma modify_no_exception: "modifyRealsForVip E action rs vip lb = (q, lb') \<Longrightarrow> q = Inl no_return \<or> (\<exists>r. q = Inr r)"
  by (auto simp: modifyRealsForVip_def Let_def split: if_splits option.splits prod.splits)

lemma add_no_exception: "addRealForVip E nr vip lb = (q, lb') \<Longrightarrow> q = Inl no_return \<or> (\<exists>r. q = Inr r)"
  by (auto simp: addRealForVip_def dest: modify_no_exception split: if_splits)

lemma stats_step:
  "getStatsForVip look vip lb = (st, lb') \<Longrightarrow> lb' = lb \<or> careful_step E lb lb'"
  "getLruStats look lb = (st, lb') \<Longrightarrow> careful_step E lb lb'" "getLruMissStats look lb = (st, lb') \<Longrightarrow> careful_step E lb lb'"
  "getLruFallbackStats look lb = (st, lb') \<Longrightarrow> careful_step E lb lb'" "getIcmpTooBigStats look lb = (st, lb') \<Longrightarrow> careful_step E lb lb'"
  by (auto simp: getStatsForVip_def getLruStats_def getLruMissStats_def getLruFallbackStats_def getIcmpTooBigStats_def
      intro: step_stats split: option.splits)

lemma map_sum_Inr: "map_sum id f q = Inr r \<Longrightarrow> \<exists>b. q = Inr b \<and> r = f b"
  by (cases q) simp_all

lemma add_real_step:
  assumes "thrift_handle V (AddRealForVip nr vip) s = (Inr r, s')" "careful_request V (AddRealForVip nr vip) (svc_lb s)"
  shows "svc_lb s' = svc_lb s \<or> careful_step (lb_env V) (svc_lb s) (svc_lb s')"
proof -
  obtain q lb' where q: "addRealForVip (lb_env V) (translateRealObject nr) (translateVipObject vip) (svc_lb s) = (q, lb')" by fastforce
  have res: "svc_lb s' = lb'" "\<exists>b. catching (\<lambda>_. False) q = Inr b"
    using assms(1) by (auto simp: thrift_addRealForVip_def with_lb_def q dest!: map_sum_Inr)
  then have "q \<noteq> Inl no_return" by (auto simp: catching_def)
  then obtain b where "q = Inr b" using add_no_exception [OF q] by auto
  then show ?thesis using one_real_step(1) [of "svc_lb s" "lb_env V" "translateRealObject nr" "translateVipObject vip" b lb'] q assms(2) res(1) by simp
qed

lemma del_real_step:
  assumes "thrift_handle V (DelRealForVip nr vip) s = (Inr r, s')" "careful_request V (DelRealForVip nr vip) (svc_lb s)"
  shows "svc_lb s' = svc_lb s \<or> careful_step (lb_env V) (svc_lb s) (svc_lb s')"
proof -
  obtain q lb' where q: "delRealForVip (lb_env V) (translateRealObject nr) (translateVipObject vip) (svc_lb s) = (q, lb')" by fastforce
  then obtain b where "svc_lb s' = lb'" "q = Inr b"
    using assms(1) by (auto simp: thrift_delRealForVip_def with_lb_def dest!: map_sum_Inr)
  then show ?thesis using one_real_step(2) [of "svc_lb s" "lb_env V" "translateRealObject nr" "translateVipObject vip" b lb'] q assms(2) by simp
qed

lemma modify_reals_step:
  assumes "thrift_handle V (ModifyRealsForVip action rs vip) s = (Inr r, s')" "careful_request V (ModifyRealsForVip action rs vip) (svc_lb s)"
  shows "careful_step (lb_env V) (svc_lb s) (svc_lb s')"
proof -
  obtain q lb' where q: "modifyRealsForVip (lb_env V) action (map translateRealObject rs) (translateVipObject vip) (svc_lb s) = (q, lb')" by fastforce
  have res: "svc_lb s' = lb'" "\<exists>b. catching (\<lambda>_. False) q = Inr b"
    using assms(1) by (auto simp: thrift_modifyRealsForVip_def with_lb_def q dest!: map_sum_Inr)
  then have "q \<noteq> Inl no_return" by (auto simp: catching_def)
  then obtain b where "q = Inr b" using modify_no_exception [OF q] by auto
  then show ?thesis using step_modifyReals [of "lb_env V" action _ _ "svc_lb s" b lb'] q assms(2) res(1) by simp
qed

lemma quic_requests_step:
  assumes "thrift_handle V (ModifyQuicRealsMapping action rs) s = (Inr r, s')" "careful_request V (ModifyQuicRealsMapping action rs) (svc_lb s)"
  shows "careful_step (lb_env V) (svc_lb s) (svc_lb s')"
proof -
  have "svc_lb s' = modifyQuicRealsMapping (lb_env V) action (map translateQuicRealObject rs) (svc_lb s)"
    using assms(1) by (auto simp: thrift_modifyQuicRealsMapping_def)
  from step_quic [OF this] show ?thesis using assms(2) by simp
qed

lemma thrift_step:
  assumes "thrift_handle V rq s = (Inr r, s')" "careful_request V rq (svc_lb s)"
  shows "svc_lb s' = svc_lb s \<or> careful_step (lb_env V) (svc_lb s) (svc_lb s')"
proof (cases rq)
  case (ChangeMac m)
  obtain b lb' where q: "changeMac (lb_env V) (convertMacToUint (parse_mac V) m) (svc_lb s) = (b, lb')" by fastforce
  from step_changeMac [OF q] show ?thesis using assms(1) ChangeMac by (auto simp: thrift_defs with_lb_def q Let_def split: if_splits)
next
  case (AddVip m)
  obtain b lb' where q: "addVip (lb_env V) (translateVipObject (vmm_vip m)) (ucast (vmm_flags m)) (svc_lb s) = (b, lb')" by fastforce
  from step_addVip [OF q] show ?thesis using assms(1) AddVip by (auto simp: thrift_defs with_lb_def q Let_def split: if_splits)
next
  case (DelVip vip)
  obtain b lb' where q: "delVip (lb_env V) (translateVipObject vip) (svc_lb s) = (b, lb')" by fastforce
  from step_delVip [OF q] show ?thesis using assms(1) DelVip by (auto simp: thrift_defs with_lb_def q Let_def split: if_splits)
next
  case (ModifyVip m)
  obtain b lb' where q: "modifyVip (lb_env V) (translateVipObject (vmm_vip m)) (ucast (vmm_flags m)) (vmm_setFlag m) (svc_lb s) = (b, lb')" by fastforce
  from step_modifyVip [OF q] show ?thesis using assms(1) ModifyVip by (auto simp: thrift_defs with_lb_def q Let_def split: if_splits)
next
  case (GetRealsForVip vip)
  obtain b lb' where q: "getRealsForVip (lb_env V) (translateVipObject vip) (svc_lb s) = (b, lb')" by fastforce
  from step_getReals [OF q] show ?thesis using assms(1) GetRealsForVip by (auto simp: thrift_defs with_lb_def q Let_def split: if_splits)
next
  case (AddHealthcheckerDst m)
  obtain b lb' where q: "addHealthcheckerDst (lb_env V) (hcm_somark m) (hcm_address m) (svc_lb s) = (b, lb')" by fastforce
  from step_addHc [OF q] show ?thesis using assms(1) AddHealthcheckerDst by (auto simp: thrift_defs with_lb_def q Let_def split: if_splits)
next
  case (DelHealthcheckerDst m)
  obtain b lb' where q: "delHealthcheckerDst (lb_env V) m (svc_lb s) = (b, lb')" by fastforce
  from step_delHc [OF q] show ?thesis using assms(1) DelHealthcheckerDst by (auto simp: thrift_defs with_lb_def q Let_def split: if_splits)
next
  case (GetStatsForVip vip)
  obtain b lb' where q: "getStatsForVip (look_stats V) (translateVipObject vip) (svc_lb s) = (b, lb')" by fastforce
  from stats_step(1) [OF q, of "lb_env V"] show ?thesis using assms(1) GetStatsForVip by (auto simp: thrift_defs with_lb_def q Let_def split: if_splits)
next
  case GetLruStats
  obtain b lb' where q: "getLruStats (look_stats V) (svc_lb s) = (b, lb')" by fastforce
  from stats_step(2) [OF q] show ?thesis using assms(1) GetLruStats by (auto simp: thrift_defs with_lb_def q Let_def split: if_splits)
next
  case GetLruMissStats
  obtain b lb' where q: "getLruMissStats (look_stats V) (svc_lb s) = (b, lb')" by fastforce
  from stats_step(3) [OF q] show ?thesis using assms(1) GetLruMissStats by (auto simp: thrift_defs with_lb_def q Let_def split: if_splits)
next
  case GetLruFallbackStats
  obtain b lb' where q: "getLruFallbackStats (look_stats V) (svc_lb s) = (b, lb')" by fastforce
  from stats_step(4) [OF q] show ?thesis using assms(1) GetLruFallbackStats by (auto simp: thrift_defs with_lb_def q Let_def split: if_splits)
next
  case GetIcmpTooBigStats
  obtain b lb' where q: "getIcmpTooBigStats (look_stats V) (svc_lb s) = (b, lb')" by fastforce
  from stats_step(5) [OF q] show ?thesis using assms(1) GetIcmpTooBigStats by (auto simp: thrift_defs with_lb_def q Let_def split: if_splits)
qed (use assms add_real_step del_real_step modify_reals_step quic_requests_step in \<open>auto simp: thrift_getMac_def thrift_getAllVips_def thrift_getVipFlags_def
  thrift_getQuicRealsMapping_def thrift_getHealthcheckersDst_def Let_def split: if_splits\<close>)

interpretation thrift: front_end "thrift_handle V" V for V
  by unfold_locales (rule thrift_step)

interpretation grpc: front_end "grpc_handle V" V for V
proof unfold_locales
  fix rq s s' and r :: "grpc_status \<times> response"
  assume "grpc_handle V rq s = (Inr r, s')" "careful_request V rq (svc_lb s)"
  then show "svc_lb s' = svc_lb s \<or> careful_step (lb_env V) (svc_lb s) (svc_lb s')"
    using thrift_step [of V rq s "snd r" s'] grpc_payload [of V rq s] by simp
qed

lemma service_start:
  assumes "KatranSimpleServiceHandler_new V junk cfg k = Inr s0"
  shows "\<exists>lb0. KatranLb_new (lb_env V) junk cfg k = Inr lb0 \<and> careful_reach (lb_env V) lb0 (svc_lb s0)"
proof -
  obtain lb0 lb1 lb2 where "KatranLb_new (lb_env V) junk cfg k = Inr lb0" "loadBpfProgs (lb_env V) lb0 = (Inr (), lb1)"
    "attachBpfProgs (lb_env V) lb1 = (Inr (), lb2)" "svc_lb s0 = lb2"
    using assms by (auto simp: KatranSimpleServiceHandler_new_def split: sum.splits prod.splits)
  then show ?thesis using careful_reach_step [OF careful_reach_step [OF careful_reach_start step_load] step_attach] by blast
qed

text \<open>C11. A server that gets careful requests over the network keeps the data plane right. Started as the thrift or as the gRPC
  service, after any interleaving of packets and requests, for every service with a live real every slot of its ring in the
  kernel names a real it has with a non-zero weight, under that real's address, and the balancer is in a state of
  the control plane's own transition system. This is for clients whose batches name no real twice (the handlers do not check it, and one batch
  that does breaks the conclusion), fewer than \<open>2 ^ 32\<close> users of reals, system calls that succeed, the ring size of the program
  and at most \<open>2 ^ 31\<close> reals.\<close>

theorem service_keeps_rings_live:
  assumes "KatranSimpleServiceHandler_new V junk cfg k = Inr s0 \<and> service_run (thrift_handle V) s0 tr s \<or>
      KatranGrpcService_new V junk cfg k = Inr s0 \<and> service_run (grpc_handle V) s0 tr s"
    and "careful_requests V tr" "\<not> testing cfg" "maps_sized cfg k" "cfg_chRingSize cfg = RING_SIZE"
    "unat (maxReals cfg) \<le> 2 ^ 31" "env_ok (lb_env V)" "all_calls_ok (lb_env V)"
    and "map_of (vips (svc_lb s)) vip = Some v" "has_live v" "c < unat RING_SIZE"
  shows "(\<exists>lb0. KatranLb_new (lb_env V) junk cfg k = Inr lb0 \<and> careful_reach (lb_env V) lb0 (svc_lb s)) \<and>
    (\<exists>n r a. ch_rings (dp (kernel (svc_lb s))) (vipNum v * RING_SIZE + of_nat c) = Some n \<and>
      map_of (vip_reals v) n = Some r \<and> vrm_weight r \<noteq> 0 \<and> map_of (numToReals (svc_lb s)) n = Some a \<and>
      reals (dp (kernel (svc_lb s))) n = Some (as_real (parseAddrToBe a True)))"
proof -
  have "KatranSimpleServiceHandler_new V junk cfg k = Inr s0"
    using assms(1) by (auto simp: KatranGrpcService_new_def KatranSimpleServiceHandler_new_def)
  then obtain lb0 where lb0: "KatranLb_new (lb_env V) junk cfg k = Inr lb0" "careful_reach (lb_env V) lb0 (svc_lb s0)"
    using service_start by blast
  from assms(1) show ?thesis
    using thrift.refines [OF _ assms(2) lb0(2)] grpc.refines [OF _ assms(2) lb0(2)]
      thrift.keeps_rings [OF lb0(1) assms(3-8) lb0(2) _ assms(2,9-11)] grpc.keeps_rings [OF lb0(1) assms(3-8) lb0(2) _ assms(2,9-11)] lb0(1)
    by blast
qed

section \<open>The address of the router\<close>

lemma bytes_le_Cons: "bytes_le (b # bs) = ucast b OR push_bit 8 (bytes_le bs)"
  unfolding bytes_le_def foldr_Cons comp_def
  by (rule disjunctive_add) (auto simp: bit_ucast_iff bit_push_bit_iff dest: bit_imp_le_length)

lemma bit_bytes_le: "bit (bytes_le bs) n \<longleftrightarrow> n < 64 \<and> n div 8 < length bs \<and> bit (bs ! (n div 8)) (n mod 8)"
proof (induction bs arbitrary: n)
  case Nil
  then show ?case by (simp add: bytes_le_def)
next
  case (Cons b bs)
  show ?case
  proof (cases "n < 8")
    case True
    then show ?thesis by (simp add: bytes_le_Cons bit_or_iff bit_push_bit_iff bit_ucast_iff)
  next
    case False
    then have "n div 8 = Suc ((n - 8) div 8)" "n mod 8 = (n - 8) mod 8" by (simp_all add: le_div_geq le_mod_geq)
    moreover have "\<not> bit b n" using False by (auto dest: bit_imp_le_length)
    ultimately show ?thesis using False Cons.IH [of "n - 8"]
      by (auto simp: bytes_le_Cons bit_or_iff bit_push_bit_iff bit_ucast_iff)
  qed
qed

lemma ctl_mac_set: "length mac = 6 \<Longrightarrow> ctl_mac (set_ctl_mac mac c) = mac"
proof (rule nth_equalityI)
  fix i assume len: "length mac = 6" and "i < length (ctl_mac (set_ctl_mac mac c))"
  then have i: "i < 6" by simp
  have m: "0xFFFF000000000000 = push_bit 48 (0xFFFF :: u64)" by simp
  show "ctl_mac (set_ctl_mac mac c) ! i = mac ! i"
  proof (rule bit_word_eqI)
    fix n assume "n < LENGTH(8)"
    then have n: "n < 8" by simp
    then have "(8 * i + n) div 8 = i" "(8 * i + n) mod 8 = n" "8 * i + n < 48" using i by auto
    then show "bit (ctl_mac (set_ctl_mac mac c) ! i) n = bit (mac ! i) n"
      using i n len unfolding ctl_mac_def set_ctl_mac_def m
      by (simp add: bit_ucast_iff bit_drop_bit_eq bit_or_iff bit_and_iff bit_push_bit_iff bit_bytes_le del: push_bit_numeral)
  qed
qed simp

lemma counted_ctl [simp]: "ctlValues (snd (counted_call E f lb)) = ctlValues lb"
  by (simp add: counted_call_def bpf_call_def count_failed_def Let_def split: option.split)

lemma changeMac_getMac:
  assumes "changeMac E mac lb = (ok, lb')" "length mac = 6" "ctlValues lb \<noteq> []"
  shows "getMac lb' = mac"
proof -
  let ?c = "set_ctl_mac mac (ctlValue 0 lb)" 
  have "ctlValues lb' = (ctlValues lb)[0 := ?c]"
    using assms(1,2) counted_ctl [of E] by (auto simp: changeMac_def set_ctlValues_def Let_def split: if_splits prod.splits dest!: arg_cong [where f = snd])
  then show ?thesis using assms(2,3) by (simp add: getMac_def ctlValue_def ctl_mac_set)
qed

lemma ctl_entry_written:
  "counted_call E (set_ctl_entry i c) lb = (True, lb') \<Longrightarrow> ctl_array (dp (kernel lb')) i = Some c"
  by (auto simp: counted_call_def bpf_call_def count_failed_def set_ctl_entry_def on_dp_def array_set_def Let_def split: if_splits option.splits)

lemma hc_mac_other: "dp (kernel (snd (counted_call E (set_hc_mac i c) lb))) = dp (kernel lb)"
  by (auto simp: counted_call_def bpf_call_def count_failed_def set_hc_mac_def on_hc_def Let_def split: option.splits)

lemma changeMac_written:
  assumes "changeMac E mac lb = (True, lb')" "length mac = 6" "ctlValues lb \<noteq> []" "\<not> testing (config lb)" "\<not> disableForwarding (config lb)"
  shows "\<exists>c. ctl_array (dp (kernel lb')) kMacAddrPos = Some c \<and> ctl_mac c = mac"
proof -
  let ?lb = "set_ctlValues kMacAddrPos (set_ctl_mac mac (ctlValue kMacAddrPos lb)) lb"
  have c: "ctl_mac (ctlValue kMacAddrPos ?lb) = mac" using assms(2,3) by (simp add: ctlValue_def set_ctlValues_def ctl_mac_set)
  obtain lb1 where lb1: "counted_call E (set_ctl_entry kMacAddrPos (ctlValue kMacAddrPos ?lb)) ?lb = (True, lb1)"
    and "lb' = lb1 \<or> lb' = snd (counted_call E (set_hc_mac kHcDstMacPos mac) lb1)"
    using assms c by (auto simp: changeMac_def Let_def set_ctlValues_def split: if_splits prod.splits)
  then have "dp (kernel lb') = dp (kernel lb1)" using hc_mac_other by metis
  then show ?thesis using ctl_entry_written [OF lb1] c by auto
qed

text \<open>C35. What a client types becomes the address of the router, or zeros. After \<open>changeMac\<close> over the network the balancer has the address
  that folly's parser reads from the text; a text it refuses is no error of the call, the address is then six zero bytes. \<open>getMac\<close>
  shows the address with a colon after every byte, the last one too. If the call answers success and forwarding is
  on, the control array of the data plane holds the address, so encapsulated packets are sent to it. The parser is a parameter; the hypothesis is that an
  address it returns for this text has six bytes.\<close>

theorem changed_mac_reaches_packets:
  assumes "\<forall>m. parse_mac V tx = Some m \<longrightarrow> length m = 6" "ctlValues (svc_lb s) \<noteq> []"
    and "thrift_handle V (ChangeMac tx) s = (Inr (Success ok), s')"
    and "mac = (case parse_mac V tx of None \<Rightarrow> [0, 0, 0, 0, 0, 0] | Some m \<Rightarrow> m)"
  shows "getMac (svc_lb s') = mac \<and>
    thrift_handle V GetMac s' = (Inr (MacIs (concat (map (\<lambda>b. hex_byte b @ '':'') mac))), s') \<and>
    (ok \<and> \<not> testing (config (svc_lb s)) \<and> \<not> disableForwarding (config (svc_lb s)) \<longrightarrow>
      (\<exists>c. ctl_array (dp (kernel (svc_lb s'))) kMacAddrPos = Some c \<and> ctl_mac c = mac))"
proof -
  have mac: "convertMacToUint (parse_mac V) tx = mac" "length mac = 6"
    using assms(1,4) by (auto simp: convertMacToUint_def numeral_eq_Suc split: option.splits)
  have ch: "changeMac (lb_env V) mac (svc_lb s) = (ok, svc_lb s')"
    using assms(3) mac by (auto simp: thrift_changeMac_def with_lb_def Let_def split: prod.splits)
  note now = changeMac_getMac [OF ch mac(2) assms(2)]
  then have "thrift_handle V GetMac s' = (Inr (MacIs (concat (map (\<lambda>b. hex_byte b @ '':'') mac))), s')"
    using mac(2) by (simp add: thrift_getMac_def convertMacToString_def)
  then show ?thesis using now changeMac_written [OF _ mac(2) assms(2)] ch by auto
qed

section \<open>Services that were added\<close>

lemma addVip_listed:
  assumes "addVip E vip flags lb = (True, lb')"
  shows "vip \<in> fst ` set (vips lb')" "\<not> disableForwarding (config lb')" "getVipFlags vip lb' = Inr flags"
proof -
  obtain ty lb0 where v: "validateAddress E (vk_address vip) False lb = (ty, lb0)" by force
  then have c0: "config lb0 = config lb" by (auto simp: validateAddress_def count_invalid_def split: option.splits if_splits)
  obtain num rest where lb': "lb' = (let lb1 = lb0\<lparr>vipNums := rest, vips := AList.update vip (Vip_new num flags (cfg_chRingSize (config lb0))) (vips lb0)\<rparr> in
      if testing (config lb0) then lb1 else snd (updateVipMap E ADD vip \<lparr>vip_flags = flags, vip_num = num\<rparr> lb1))" and fwd: "\<not> disableForwarding (config lb)"
    using assms v by (auto simp: addVip_def Let_def split: if_splits list.splits)
  have "vips lb' = AList.update vip (Vip_new num flags (cfg_chRingSize (config lb0))) (vips lb0)" "config lb' = config lb"
    unfolding lb' using lb_restD [OF updates_keep(1) [of E ADD vip _ _]] c0 by (simp_all add: Let_def)
  then show "vip \<in> fst ` set (vips lb')" "\<not> disableForwarding (config lb')" "getVipFlags vip lb' = Inr flags"
    using fwd by (auto simp: getVipFlags_def update_conv' Vip_new_def dom_update)
qed

text \<open>C33. What was added can be seen: after an accepted request to add a service, the list of services has it and its flags are
  the ones of the request. Port, protocol and flags are what fits into the fields of the balancer, the low 16, 8 and 32 bits of the
  numbers of the request, which are not checked.\<close>

theorem added_vip_is_listed:
  assumes "\<forall>vs. set (iter_vips (lb_env V) vs) = set vs" "thrift_handle V (AddVip m) s = (Inr (Success True), s')"
  shows "\<exists>vs. thrift_handle V GetAllVips s' = (Inr (VipsAre vs), s') \<and>
      \<lparr>vm_address = vm_address (vmm_vip m), vm_port = take_bit 16 (vm_port (vmm_vip m)), vm_protocol = take_bit 8 (vm_protocol (vmm_vip m))\<rparr> \<in> set vs \<and>
    thrift_handle V (GetVipFlags (vmm_vip m)) s' = (Inr (FlagsAre (take_bit 32 (vmm_flags m))), s')"
proof -
  let ?vk = "translateVipObject (vmm_vip m)"
  have add: "addVip (lb_env V) ?vk (ucast (vmm_flags m)) (svc_lb s) = (True, svc_lb s')"
    using assms(2) by (auto simp: thrift_addVip_def with_lb_def Let_def split: prod.splits)
  note l = addVip_listed [OF add]
  have "?vk \<in> set (getAllVips (lb_env V) (svc_lb s'))"
    using l(1,2) assms(1) by (auto simp: getAllVips_def)
  moreover have "ucast (ucast x :: u16) = take_bit 16 x" "ucast (ucast x :: u8) = take_bit 8 x" for x :: u32
    by (simp_all add: unsigned_ucast_eq)
  moreover have "ucast (ucast x :: u32) = take_bit 32 x" for x :: u64
    by (simp add: unsigned_ucast_eq)
  ultimately show ?thesis using l(3)
    by (auto simp: thrift_getAllVips_def thrift_getVipFlags_def translateVipObject_def catching_def Let_def image_iff intro!: bexI [where x = ?vk])
qed

section \<open>An example\<close>

definition ex_service_env :: service_env where
  "ex_service_env = \<lparr>lb_env = ex_env, look_stats = (\<lambda>_ _. None), parse_mac = (\<lambda>t. if t = ''00:00:00:00:00:01'' then Some [0, 0, 0, 0, 0, 1] else None)\<rparr>"

definition ex_server :: KatranService where
  "ex_server = \<lparr>svc_lb = snd (attachBpfProgs ex_env (snd (loadBpfProgs ex_env ex_lb0))), hcForwarding = False\<rparr>"

definition ex_vip_msg :: vip_msg where
  "ex_vip_msg = \<lparr>vm_address = ''10.200.1.1'', vm_port = 80, vm_protocol = 6\<rparr>"

lemma ex_started: "fst (loadBpfProgs ex_env ex_lb0) = Inr ()" "fst (attachBpfProgs ex_env (snd (loadBpfProgs ex_env ex_lb0))) = Inr ()"
  by code_simp+

lemma ex_server_ctl: "ctlValues (svc_lb ex_server) \<noteq> []"
  by code_simp

lemma ex_server_new: "KatranSimpleServiceHandler_new ex_service_env \<lparr>ctl_u64 = 0\<rparr> ex_cfg ex_kernel = Inr ex_server"
proof -
  have "enableHc ex_cfg = False" by (simp add: ex_cfg_def)
  then show ?thesis
    using ex_started by (auto simp: KatranSimpleServiceHandler_new_def ex_service_env_def ex_new ex_server_def split: prod.splits sum.splits)
qed

lemma ex_server_view: "lb_view (svc_lb ex_server) = lb_view ex_lb0"
  by (simp add: ex_server_def keeps_loading)

theorem services_agree_witness:
  "grpc_handle ex_service_env (DelHealthcheckerDst 1) ex_server = (Inr (CANCELLED, Success False), ex_server) \<and> status_fits CANCELLED (Success False)"
  using services_agree [of ex_service_env "DelHealthcheckerDst 1" ex_server] by (simp add: grpc_delHealthcheckerDst_def ex_server_def)

lemma ex_added_server:
  "\<exists>s1. thrift_handle ex_service_env (AddVip \<lparr>vmm_vip = ex_vip_msg\<lparr>vm_port := p\<rparr>, vmm_flags = 0, vmm_setFlag = True\<rparr>) ex_server = (Inr (Success True), s1) \<and>
    svc_lb s1 = snd (addVip ex_env ex_key 0 (svc_lb ex_server))" if "ucast p = (80 :: u16)"
  using add_to_empty(1) [OF ex_server_view] that
  by (auto simp: thrift_addVip_def with_lb_def translateVipObject_def ex_vip_msg_def ex_key_def ex_service_env_def Let_def split: prod.splits)

theorem added_vip_is_listed_witness:
  "\<exists>s' vs. thrift_handle ex_service_env (AddVip \<lparr>vmm_vip = ex_vip_msg\<lparr>vm_port := 65616\<rparr>, vmm_flags = 0, vmm_setFlag = True\<rparr>) ex_server = (Inr (Success True), s') \<and>
    thrift_handle ex_service_env GetAllVips s' = (Inr (VipsAre vs), s') \<and> ex_vip_msg \<in> set vs"
proof -
  obtain s1 where s1: "thrift_handle ex_service_env (AddVip \<lparr>vmm_vip = ex_vip_msg\<lparr>vm_port := 65616\<rparr>, vmm_flags = 0, vmm_setFlag = True\<rparr>) ex_server = (Inr (Success True), s1)"
    using ex_added_server [of 65616] by auto
  then show ?thesis using added_vip_is_listed [OF _ s1]
    by (auto simp: ex_service_env_def ex_env_def ex_vip_msg_def)
qed

definition ex_hc_server :: KatranService where
  "ex_hc_server = (let lb = svc_lb ex_server; k = kernel lb in
     ex_server\<lparr>svc_lb := lb\<lparr>kernel := k\<lparr>hc := (hc k)\<lparr>hc_pckt_macs := (\<lambda>_. Some [])\<rparr>\<rparr>\<rparr>\<rparr>)"

theorem changed_mac_reaches_packets_witness:
  "\<exists>s'. thrift_handle ex_service_env (ChangeMac ''no address'') ex_hc_server = (Inr (Success True), s') \<and>
    thrift_handle ex_service_env GetMac s' = (Inr (MacIs ''00:00:00:00:00:00:''), s') \<and>
    (\<exists>c. ctl_array (dp (kernel (svc_lb s'))) 0 = Some c \<and> ctl_mac c = [0, 0, 0, 0, 0, 0])"
proof -
  have p: "parse_mac ex_service_env ''no address'' = None" by (simp add: ex_service_env_def)
  have ctl: "ctlValues (svc_lb ex_hc_server) \<noteq> []" by code_simp
  have c: "\<not> testing (config (svc_lb ex_hc_server))" "\<not> disableForwarding (config (svc_lb ex_hc_server))" by code_simp+
  have "fst (changeMac ex_env (replicate 6 0) (svc_lb ex_hc_server)) = True" by code_simp
  then obtain lb where ch: "changeMac ex_env [0, 0, 0, 0, 0, 0] (svc_lb ex_hc_server) = (True, lb)" by (cases "changeMac ex_env [0, 0, 0, 0, 0, 0] (svc_lb ex_hc_server)") (simp add: numeral_eq_Suc)
  obtain s' where s': "thrift_handle ex_service_env (ChangeMac ''no address'') ex_hc_server = (Inr (Success True), s')"
    using ch p by (simp add: thrift_changeMac_def with_lb_def convertMacToUint_def ex_service_env_def numeral_eq_Suc)
  have t: "concat (map (\<lambda>b. hex_byte b @ '':'') [0, 0, 0, 0, 0, 0]) = ''00:00:00:00:00:00:''" by code_simp
  show ?thesis using changed_mac_reaches_packets [OF _ ctl s', of "[0, 0, 0, 0, 0, 0]"] s' p c t by auto
qed

theorem service_keeps_rings_live_witness:
  "\<exists>tr s n. service_run (thrift_handle ex_service_env) ex_server tr s \<and> ch_rings (dp (kernel (svc_lb s))) 7 = Some n \<and>
    reals (dp (kernel (svc_lb s))) n = Some (as_real (parseAddrToBe (IPv4 0x0A000001) True))"
proof -
  let ?r = "\<lparr>rlm_address = ''10.0.0.1'', rlm_weight = 1\<rparr>"
  obtain s1 where s1: "thrift_handle ex_service_env (AddVip \<lparr>vmm_vip = ex_vip_msg, vmm_flags = 0, vmm_setFlag = True\<rparr>) ex_server = (Inr (Success True), s1)"
    "svc_lb s1 = snd (addVip ex_env ex_key 0 (svc_lb ex_server))"
    using ex_added_server [of 80] by (auto simp: ex_vip_msg_def)
  note lb1 = add_to_empty [OF ex_server_view, folded s1(2)]
  obtain v lb2 where v: "modifyRealsForVip ex_env ADD [\<lparr>nr_address = ''10.0.0.1'', nr_weight = 1\<rparr>] ex_key (svc_lb s1) = (Inr True, lb2)"
    "map_of (vips lb2) ex_key = Some v" "vipNum v = 0" "vip_reals v = [(0, \<lparr>vrm_weight = 1, vrm_hash = 0x0A000001\<rparr>)]"
    "map_of (numToReals lb2) 0 = Some (IPv4 0x0A000001)"
    using add_first_real [OF lb1(2-5)] by blast
  obtain s2 where s2: "thrift_handle ex_service_env (ModifyRealsForVip ADD [?r] ex_vip_msg) s1 = (Inr (Success True), s2)" "svc_lb s2 = lb2"
    using v(1) by (auto simp: thrift_modifyRealsForVip_def with_lb_def translateVipObject_def translateRealObject_def ex_vip_msg_def ex_key_def
        ex_service_env_def catching_def Let_def)
  have "users (svc_lb s1) = {#}" by (simp add: users_def used_nums_def lb1) (simp add: Vip_new_def)
  then have ok: "careful_requests ex_service_env (([] @ [(AddVip \<lparr>vmm_vip = ex_vip_msg, vmm_flags = 0, vmm_setFlag = True\<rparr>, svc_lb ex_server)]) @
      [(ModifyRealsForVip ADD [?r] ex_vip_msg, svc_lb s1)])"
    by (simp only: careful_requests_simps careful_request.simps) (simp split: option.split)
  have reach: "service_run (thrift_handle ex_service_env) ex_server (([] @
      [(AddVip \<lparr>vmm_vip = ex_vip_msg, vmm_flags = 0, vmm_setFlag = True\<rparr>, svc_lb ex_server)]) @ [(ModifyRealsForVip ADD [?r] ex_vip_msg, svc_lb s1)]) s2"
    by (intro service_run.svc_request service_run.svc_start) (rule s1(1), rule s2(1))
  have "has_live v" using v(4) by (auto simp: has_live_def)
  moreover have "maps_sized ex_cfg ex_kernel" by (simp add: maps_sized_def rings_sized_def ex_cfg_def ex_kernel_def)
  ultimately obtain n r a where "ch_rings (dp (kernel (svc_lb s2))) 7 = Some n" "map_of (vip_reals v) n = Some r"
    "map_of (numToReals (svc_lb s2)) n = Some a" "reals (dp (kernel (svc_lb s2))) n = Some (as_real (parseAddrToBe a True))"
    using service_keeps_rings_live [OF disjI1 [OF conjI [OF ex_server_new reach]] ok, of ex_key v 7] ex_env_ok v(2,3) s2(2)
    by (auto simp: ex_cfg_def ex_service_env_def)
  moreover from this have "n = 0" using v(4) by (simp split: if_splits)
  ultimately have "ch_rings (dp (kernel (svc_lb s2))) 7 = Some 0 \<and> reals (dp (kernel (svc_lb s2))) 0 = Some (as_real (parseAddrToBe (IPv4 0x0A000001) True))"
    using v(5) s2(2) by simp
  with reach show ?thesis by blast
qed

end
