(* ===== verification/Client.thy ===== *)
theory Client
  imports Complex_Main Service
begin

text \<open>
  The command line client, \<open>src/example/client/KatranSimpleClient.cpp\<close> and \<open>Main.cpp\<close>: the texts of the command line become
  requests of the thrift service, and answers become lines. The connection is the handler of the service itself.
\<close>

section \<open>Texts\<close>

text \<open>What the client uses of folly and RE2: splitting, the pattern of an IPv6 address with a port, and numbers.\<close>

record client_env =
  split_text :: "char \<Rightarrow> string \<Rightarrow> string list"
  match_v6 :: "string \<Rightarrow> (string \<times> string) option"
  to_int :: "string \<Rightarrow> u32 option"
  to_uint :: "string \<Rightarrow> u32 option"

text \<open>\<open>Out_of_range\<close> is an index past the end of a vector.\<close>

datatype client_error = Check_failed | Conversion_error | Out_of_range | Server lb_error | Fatal

definition DEFAULT_FLAG :: u64 where [simp]: "DEFAULT_FLAG = 0"
definition NO_SPORT :: u64 where [simp]: "NO_SPORT = 1"
definition NO_LRU :: u64 where [simp]: "NO_LRU = 2"
definition QUIC_VIP :: u64 where [simp]: "QUIC_VIP = 4"
definition DPORT_HASH :: u64 where [simp]: "DPORT_HASH = 8"

definition flagTranslationTable :: "string \<rightharpoonup> u64" where
  "flagTranslationTable = map_of [('''', DEFAULT_FLAG), (''NO_SPORT'', NO_SPORT), (''NO_LRU'', NO_LRU), (''QUIC_VIP'', QUIC_VIP),
     (''DPORT_HASH'', DPORT_HASH)]"

definition parseToVip :: "client_env \<Rightarrow> string \<Rightarrow> u32 \<Rightarrow> client_error + vip_msg" where
  "parseToVip C address protocol =
     (let vip = (\<lambda>host port. case to_int C port of
            None \<Rightarrow> Inl Conversion_error
          | Some p \<Rightarrow> Inr \<lparr>vm_address = host, vm_port = p, vm_protocol = protocol\<rparr>) in
      if CHR ''['' \<in> set address then (case match_v6 C address of Some (host, port) \<Rightarrow> vip host port | None \<Rightarrow> vip [] [])
      else let pair = split_text C (CHR '':'') address in
        if length pair \<noteq> 2 then Inl Check_failed else vip (pair ! 0) (pair ! 1))"

definition parseToReal :: "string \<Rightarrow> u32 \<Rightarrow> real_msg" where
  "parseToReal address weight = \<lparr>rlm_address = address, rlm_weight = weight\<rparr>"

text \<open>A mapping that has not two parts is reported, and its parts are used all the same.\<close>

definition parseToQuicReal :: "client_env \<Rightarrow> string \<Rightarrow> client_error + quic_real_msg" where
  "parseToQuicReal C mapping =
     (let mappings = split_text C (CHR ''='') mapping in
      if length mappings < 2 then Inl Out_of_range
      else case to_uint C (mappings ! 1) of
        None \<Rightarrow> Inl Conversion_error
      | Some n \<Rightarrow> Inr \<lparr>qrm_address = mappings ! 0, qrm_id = n\<rparr>)"

definition parseFlags :: "u64 \<Rightarrow> string" where
  "parseFlags flags =
     (let flagsStr = '''';
          flagsStr = (if flags AND NO_SPORT > 0 then flagsStr @ '' NO_SPORT '' else flagsStr);
          flagsStr = (if flags AND NO_LRU > 0 then flagsStr @ '' NO_LRU '' else flagsStr);
          flagsStr = (if flags AND QUIC_VIP > 0 then flagsStr @ '' QUIC_VIP '' else flagsStr);
          flagsStr = (if flags AND DPORT_HASH > 0 then flagsStr @ '' DPORT_HASH '' else flagsStr)
      in flagsStr)"

section \<open>Operations\<close>

text \<open>What a line tells.\<close>

datatype line =
    Done
  | Refused
  | Unknown_flag string
  | Mac_line string
  | Vip_line vip_msg string
  | Flags_line string
  | Real_line real_msg
  | Quic_line quic_real_msg
  | Hc_line u32 string
  | Count_line nat

type_synonym client_result = "(client_error + line list) \<times> KatranService"

definition ask :: "service_env \<Rightarrow> request \<Rightarrow> KatranService \<Rightarrow> (response \<Rightarrow> KatranService \<Rightarrow> client_result) \<Rightarrow> client_result" where
  "ask V rq s f = (case thrift_handle V rq s of (Inl e, s) \<Rightarrow> (Inl (Server e), s) | (Inr r, s) \<Rightarrow> f r s)"

definition told :: "response \<Rightarrow> line" where
  "told r = (case r of Success True \<Rightarrow> Done | _ \<Rightarrow> Refused)"

definition with_text :: "client_error + 'a \<Rightarrow> KatranService \<Rightarrow> ('a \<Rightarrow> client_result) \<Rightarrow> client_result" where
  "with_text x s f = (case x of Inl e \<Rightarrow> (Inl e, s) | Inr y \<Rightarrow> f y)"

definition client_changeMac :: "service_env \<Rightarrow> string \<Rightarrow> KatranService \<Rightarrow> client_result" where
  "client_changeMac V mac s = ask V (ChangeMac mac) s (\<lambda>r s. (Inr [told r], s))"

definition client_getMac :: "service_env \<Rightarrow> KatranService \<Rightarrow> client_result" where
  "client_getMac V s = ask V GetMac s (\<lambda>r s. (Inr (case r of MacIs m \<Rightarrow> [Mac_line m] | _ \<Rightarrow> []), s))"

definition addOrModifyService ::
  "service_env \<Rightarrow> client_env \<Rightarrow> string \<Rightarrow> string \<Rightarrow> u32 \<Rightarrow> bool \<Rightarrow> bool \<Rightarrow> KatranService \<Rightarrow> client_result" where
  "addOrModifyService V C address flags prot modify setFlags s =
     with_text (parseToVip C address prot) s (\<lambda>vip.
       case flagTranslationTable flags of
         None \<Rightarrow> (Inr [Unknown_flag flags], s)
       | Some f \<Rightarrow>
           let vipMeta = \<lparr>vmm_vip = vip, vmm_flags = f, vmm_setFlag = setFlags\<rparr> in
           if modify then ask V (ModifyVip vipMeta) s (\<lambda>r s. (Inr [told r], s))
           else ask V (AddVip vipMeta) s (\<lambda>r s. (Inr [told r], s)))"

definition delService :: "service_env \<Rightarrow> client_env \<Rightarrow> string \<Rightarrow> u32 \<Rightarrow> KatranService \<Rightarrow> client_result" where
  "delService V C address prot s =
     with_text (parseToVip C address prot) s (\<lambda>vip. ask V (DelVip vip) s (\<lambda>r s. (Inr [told r], s)))"

definition updateServerForVip ::
  "service_env \<Rightarrow> client_env \<Rightarrow> string \<Rightarrow> u32 \<Rightarrow> string \<Rightarrow> u64 \<Rightarrow> bool \<Rightarrow> KatranService \<Rightarrow> client_result" where
  "updateServerForVip V C vipAddr prot realAddr weight del s =
     with_text (parseToVip C vipAddr prot) s (\<lambda>vip.
       let real = parseToReal realAddr (ucast weight); action = (if del then DEL else ADD) in
       ask V (ModifyRealsForVip action [real] vip) s (\<lambda>r s. (Inr [told r], s)))"

definition modifyQuicMappings :: "service_env \<Rightarrow> client_env \<Rightarrow> string \<Rightarrow> bool \<Rightarrow> KatranService \<Rightarrow> client_result" where
  "modifyQuicMappings V C mapping del s =
     (let action = (if del then DEL else ADD) in
      with_text (parseToQuicReal C mapping) s (\<lambda>quicReal.
        ask V (ModifyQuicRealsMapping action [quicReal]) s (\<lambda>r s. (Inr [told r], s))))"

definition then_lines :: "client_result \<Rightarrow> (KatranService \<Rightarrow> client_result) \<Rightarrow> client_result" where
  "then_lines m f = (case m of (Inl e, s) \<Rightarrow> (Inl e, s)
     | (Inr ls, s) \<Rightarrow> (case f s of (Inl e, s) \<Rightarrow> (Inl e, s) | (Inr ls', s) \<Rightarrow> (Inr (ls @ ls'), s)))"

fun for_each :: "('a \<Rightarrow> KatranService \<Rightarrow> client_result) \<Rightarrow> 'a list \<Rightarrow> KatranService \<Rightarrow> client_result" where
  "for_each f [] s = (Inr [], s)"
| "for_each f (x # xs) s = then_lines (f x s) (for_each f xs)"

definition listVipAndReals :: "service_env \<Rightarrow> vip_msg \<Rightarrow> KatranService \<Rightarrow> client_result" where
  "listVipAndReals V vip s =
     ask V (GetRealsForVip vip) s (\<lambda>rs s.
       let prot = (if vm_protocol vip = 6 then ''tcp'' else ''udp'') in
       ask V (GetVipFlags vip) s (\<lambda>fl s.
         (Inr ([Vip_line vip prot] @ (case fl of FlagsAre flags \<Rightarrow> [Flags_line (parseFlags flags)] | _ \<Rightarrow> []) @
               (case rs of RealsAre rl \<Rightarrow> map Real_line rl | _ \<Rightarrow> [])), s)))"

definition client_list :: "service_env \<Rightarrow> KatranService \<Rightarrow> client_result" where
  "client_list V s =
     ask V GetAllVips s (\<lambda>r s. case r of
       VipsAre vs \<Rightarrow> then_lines (Inr [Count_line (length vs)], s) (for_each (listVipAndReals V) vs)
     | _ \<Rightarrow> (Inr [], s))"

text \<open>\<open>order\<close> is the order in which the map of health checks is iterated.\<close>

definition clearAll :: "service_env \<Rightarrow> ((u32 \<rightharpoonup> string) \<Rightarrow> (u32 \<times> string) list) \<Rightarrow> KatranService \<Rightarrow> client_result" where
  "clearAll V order s =
     ask V GetAllVips s (\<lambda>r s. case r of
       VipsAre vs \<Rightarrow>
         then_lines (for_each (\<lambda>vip s. ask V (DelVip vip) s (\<lambda>r s. (Inr [told r], s))) vs s) (\<lambda>s.
           ask V GetHealthcheckersDst s (\<lambda>r s. case r of
             HcsAre hcs \<Rightarrow> for_each (\<lambda>(somark, _) s. ask V (DelHealthcheckerDst somark) s (\<lambda>r s. (Inr [told r], s))) (order hcs) s
           | _ \<Rightarrow> (Inr [], s)))
     | _ \<Rightarrow> (Inr [], s))"

definition listQm :: "service_env \<Rightarrow> KatranService \<Rightarrow> client_result" where
  "listQm V s = ask V GetQuicRealsMapping s (\<lambda>r s. (Inr (case r of QuicRealsAre qreals \<Rightarrow> map Quic_line qreals | _ \<Rightarrow> []), s))"

definition addHc :: "service_env \<Rightarrow> string \<Rightarrow> u32 \<Rightarrow> KatranService \<Rightarrow> client_result" where
  "addHc V address somark s =
     ask V (AddHealthcheckerDst \<lparr>hcm_somark = somark, hcm_address = address\<rparr>) s (\<lambda>r s. (Inr [told r], s))"

definition delHc :: "service_env \<Rightarrow> u32 \<Rightarrow> KatranService \<Rightarrow> client_result" where
  "delHc V somark s = ask V (DelHealthcheckerDst somark) s (\<lambda>r s. (Inr [told r], s))"

definition listHc :: "service_env \<Rightarrow> ((u32 \<rightharpoonup> string) \<Rightarrow> (u32 \<times> string) list) \<Rightarrow> KatranService \<Rightarrow> client_result" where
  "listHc V order s =
     ask V GetHealthcheckersDst s (\<lambda>r s. (Inr (case r of HcsAre hcs \<Rightarrow> map (\<lambda>(m, a). Hc_line m a) (order hcs) | _ \<Rightarrow> []), s))"

section \<open>Counters\<close>

text \<open>The endless loops that print counters once per second, as functions from the answers of the rounds to the printed numbers.\<close>

fun showSumStats :: "u64 \<Rightarrow> u64 \<Rightarrow> lb_stats list list \<Rightarrow> (u64 \<times> u64) list" where
  "showSumStats oldPkts oldBytes [] = []"
| "showSumStats oldPkts oldBytes (answers # rounds) =
     (let pkts = sum_list (map v1 answers); bytes = sum_list (map v2 answers);
          diffPkts = pkts - oldPkts; diffBytes = bytes - oldBytes
      in (diffPkts, diffBytes) # showSumStats pkts bytes rounds)"

fun showIcmpStats :: "u64 \<Rightarrow> u64 \<Rightarrow> lb_stats list \<Rightarrow> (u64 \<times> u64) list" where
  "showIcmpStats oldIcmpV4 oldIcmpV6 [] = []"
| "showIcmpStats oldIcmpV4 oldIcmpV6 (answer # rounds) =
     (let IcmpV4 = v1 answer - oldIcmpV4; IcmpV6 = v2 answer - oldIcmpV6 in
      (IcmpV4, IcmpV6) # showIcmpStats IcmpV4 IcmpV6 rounds)"

text \<open>The arithmetic on \<open>float\<close> rounds the exact result; \<open>fl\<close> is the rounding. The line has the numbers in the order of the
  three messages.\<close>

record lru_line =
  ll_total :: u64
  ll_hit :: rat
  ll_miss :: rat
  ll_tcp_syn :: rat
  ll_tcp_non_syn :: rat
  ll_udp :: rat
  ll_fallback :: u64

definition lru_line_of :: "(rat \<Rightarrow> rat) \<Rightarrow> u64 \<Rightarrow> u64 \<Rightarrow> u64 \<Rightarrow> u64 \<Rightarrow> u64 \<Rightarrow> lru_line" where
  "lru_line_of fl diffTotal diffMiss diffTcpMiss diffTcpNonSynMiss diffFallbackLru =
     (let float = (\<lambda>n :: u64. fl (of_int (uint n)));
          share = (\<lambda>n. if diffTotal \<noteq> 0 then fl (float n / float diffTotal) else 0);
          lruMiss = share diffMiss; tcpMiss = share diffTcpMiss; tcpNonSynMiss = share diffTcpNonSynMiss;
          udpMiss = (if diffTotal \<noteq> 0 then fl (1 - fl (tcpMiss + tcpNonSynMiss)) else 0);
          lruHit = (if diffTotal \<noteq> 0 then fl (1 - lruMiss) else 0)
      in \<lparr>ll_total = diffTotal, ll_hit = fl (lruHit * 100), ll_miss = fl (lruMiss * 100), ll_tcp_syn = tcpMiss,
           ll_tcp_non_syn = tcpNonSynMiss, ll_udp = udpMiss, ll_fallback = diffFallbackLru\<rparr>)"

fun showLruStats :: "(rat \<Rightarrow> rat) \<Rightarrow> lb_stats \<Rightarrow> lb_stats \<Rightarrow> u64 \<Rightarrow> (lb_stats \<times> lb_stats \<times> lb_stats) list \<Rightarrow> lru_line list" where
  "showLruStats fl old oldMiss oldFallbackLru [] = []"
| "showLruStats fl old oldMiss oldFallbackLru ((st, missStats, fallbackStats) # rounds) =
     lru_line_of fl (v1 st - v1 old) (v2 st - v2 old) (v1 missStats - v1 oldMiss) (v2 missStats - v2 oldMiss) (v1 fallbackStats - oldFallbackLru)
     # showLruStats fl st missStats (v1 fallbackStats) rounds"

text \<open>The table of the last numbers has two entries per service, with the address, the port and the protocol in their key.\<close>

fun vip_round :: "vip_msg list \<Rightarrow> (vip_msg \<Rightarrow> lb_stats) \<Rightarrow> (vip_msg \<Rightarrow> lb_stats) \<Rightarrow> (vip_msg \<times> u64 \<times> u64) list \<times> (vip_msg \<Rightarrow> lb_stats)" where
  "vip_round [] answer statsMap = ([], statsMap)"
| "vip_round (vip # vs) answer statsMap =
     (let st = answer vip; diffPkts = v1 st - v1 (statsMap vip); diffBytes = v2 st - v2 (statsMap vip) in
      (case vip_round vs answer (statsMap(vip := st)) of (ls, m) \<Rightarrow> ((vip, diffPkts, diffBytes) # ls, m)))"

fun showPerVipStats :: "vip_msg list \<Rightarrow> (vip_msg \<Rightarrow> lb_stats) \<Rightarrow> (vip_msg \<Rightarrow> lb_stats) list \<Rightarrow> (vip_msg \<times> u64 \<times> u64) list list" where
  "showPerVipStats vs statsMap [] = []"
| "showPerVipStats vs statsMap (answer # rounds) =
     (case vip_round vs answer statsMap of (ls, m) \<Rightarrow> ls # showPerVipStats vs m rounds)"

section \<open>The command line\<close>

record client_flags =
  FLAGS_A :: bool
  FLAGS_E :: bool
  FLAGS_D :: bool
  FLAGS_a :: bool
  FLAGS_e :: bool
  FLAGS_d :: bool
  FLAGS_t :: string
  FLAGS_u :: string
  FLAGS_r :: string
  FLAGS_w :: u64
  FLAGS_s :: bool
  FLAGS_sum :: bool
  FLAGS_lru :: bool
  FLAGS_icmp :: bool
  FLAGS_l :: bool
  FLAGS_C :: bool
  FLAGS_f :: string
  FLAGS_unset :: bool
  FLAGS_new_hc :: string
  FLAGS_somark :: u64
  FLAGS_del_hc :: bool
  FLAGS_list_hc :: bool
  FLAGS_list_mac :: bool
  FLAGS_change_mac :: string
  FLAGS_quic_mapping :: string
  FLAGS_list_qm :: bool
  FLAGS_del_qm :: bool

datatype counters = Sum | Lru | Icmp | Per_vip

datatype client_run = Ran client_result | Prints counters KatranService

text \<open>\<open>junk\<close> is the protocol variable when no service is given.\<close>

definition client_main ::
  "service_env \<Rightarrow> client_env \<Rightarrow> ((u32 \<rightharpoonup> string) \<Rightarrow> (u32 \<times> string) list) \<Rightarrow> u32 \<Rightarrow> client_flags \<Rightarrow> KatranService \<Rightarrow> client_run" where
  "client_main V C order junk F s =
     (let (service, prot) = (if FLAGS_t F \<noteq> [] then (FLAGS_t F, 6) else if FLAGS_u F \<noteq> [] then (FLAGS_u F, 17) else ([], junk)) in
      if FLAGS_change_mac F \<noteq> [] then Ran (client_changeMac V (FLAGS_change_mac F) s)
      else if FLAGS_list_mac F then Ran (client_getMac V s)
      else if FLAGS_A F then Ran (addOrModifyService V C service (FLAGS_f F) prot False True s)
      else if FLAGS_l F then Ran (client_list V s)
      else if FLAGS_D F then Ran (delService V C service prot s)
      else if FLAGS_E F then Ran (addOrModifyService V C service (FLAGS_f F) prot True (\<not> FLAGS_unset F) s)
      else if FLAGS_a F \<or> FLAGS_e F then Ran (updateServerForVip V C service prot (FLAGS_r F) (FLAGS_w F) False s)
      else if FLAGS_d F then Ran (updateServerForVip V C service prot (FLAGS_r F) (FLAGS_w F) True s)
      else if FLAGS_del_qm F then
        (if FLAGS_quic_mapping F = [] then Ran (Inl Fatal, s) else Ran (modifyQuicMappings V C (FLAGS_quic_mapping F) True s))
      else if FLAGS_quic_mapping F \<noteq> [] then Ran (modifyQuicMappings V C (FLAGS_quic_mapping F) False s)
      else if FLAGS_list_qm F then Ran (listQm V s)
      else if FLAGS_C F then Ran (clearAll V order s)
      else if FLAGS_new_hc F \<noteq> [] then Ran (addHc V (FLAGS_new_hc F) (ucast (FLAGS_somark F)) s)
      else if FLAGS_del_hc F then Ran (delHc V (ucast (FLAGS_somark F)) s)
      else if FLAGS_list_hc F then Ran (listHc V order s)
      else if FLAGS_s F then
        Prints (if FLAGS_sum F then Sum else if FLAGS_lru F then Lru else if FLAGS_icmp F then Icmp else Per_vip) s
      else Ran (Inr [], s))"

section \<open>What the counters show\<close>

lemma showSumStats_nth:
  "i < length rounds \<Longrightarrow> showSumStats p b rounds ! i =
    (sum_list (map v1 (rounds ! i)) - (if i = 0 then p else sum_list (map v1 (rounds ! (i - 1)))),
     sum_list (map v2 (rounds ! i)) - (if i = 0 then b else sum_list (map v2 (rounds ! (i - 1)))))"
proof (induction rounds arbitrary: p b i)
  case (Cons r rounds)
  then show ?case by (cases i) (auto simp: Let_def nth_Cons split: nat.split)
qed simp

lemma length_showSumStats [simp]: "length (showSumStats p b rounds) = length rounds"
  by (induction rounds arbitrary: p b) (simp_all add: Let_def)

lemma showSumStats_total:
  "i < length rounds \<Longrightarrow> p + sum_list (map fst (take (Suc i) (showSumStats p b rounds))) = sum_list (map v1 (rounds ! i)) \<and>
    b + sum_list (map snd (take (Suc i) (showSumStats p b rounds))) = sum_list (map v2 (rounds ! i))"
proof (induction rounds arbitrary: p b i)
  case (Cons r rounds)
  show ?case
  proof (cases i)
    case (Suc j)
    then show ?thesis using Cons.IH [of j "sum_list (map v1 r)" "sum_list (map v2 r)"] Cons.prems
      by (simp add: Let_def algebra_simps)
  qed (simp add: Let_def)
qed simp

text \<open>The summary of all services is right: the line of every round has the numbers of packets and bytes since the round before, and the
  lines up to a round add up to the counters of that round, all modulo \<open>2 ^ 64\<close>.\<close>

theorem summary_shows_rates:
  assumes "i < length rounds"
  shows "length (showSumStats 0 0 rounds) = length rounds \<and>
    fst (showSumStats 0 0 rounds ! i) = sum_list (map v1 (rounds ! i)) - (if i = 0 then 0 else sum_list (map v1 (rounds ! (i - 1)))) \<and>
    sum_list (map fst (take (Suc i) (showSumStats 0 0 rounds))) = sum_list (map v1 (rounds ! i)) \<and>
    sum_list (map snd (take (Suc i) (showSumStats 0 0 rounds))) = sum_list (map v2 (rounds ! i))"
  using showSumStats_nth [OF assms, of 0 0] showSumStats_total [OF assms, of 0 0] by simp

theorem summary_shows_rates_witness:
  "map fst (showSumStats 0 0 [[\<lparr>v1 = 5, v2 = 500\<rparr>], [\<lparr>v1 = 9, v2 = 900\<rparr>]]) = [5, 4]"
  using summary_shows_rates [of 1 "[[\<lparr>v1 = 5, v2 = 500\<rparr>], [\<lparr>v1 = 9, v2 = 900\<rparr>]]"] by simp

text \<open>The counters of ICMP messages are not: the loop remembers the difference it printed instead of the counter. When no message arrives any
  more, it goes on to print the whole counter in every other round.\<close>

theorem icmp_rates_repeat:
  "showIcmpStats 0 0 (replicate n answer) = map (\<lambda>i. if even i then (v1 answer, v2 answer) else (0, 0)) [0..<n]"
proof -
  have "showIcmpStats (if b then 0 else v1 answer) (if b then 0 else v2 answer) (replicate n answer) =
      map (\<lambda>i. if even i = b then (v1 answer, v2 answer) else (0, 0)) [0..<n]" for b
  proof (induction n arbitrary: b)
    case (Suc n)
    show ?case using Suc [of "\<not> b"]
      by (cases b) (simp_all add: Let_def upt_conv_Cons map_Suc_upt [symmetric] del: upt_Suc)
  qed simp
  from this [of True] show ?thesis by simp
qed

text \<open>The line of connection table misses blames UDP for hits: what it prints as the share of UDP is what is left of one after the
  misses of TCP, so that hits count as misses of UDP. When packets arrive and every one of them is found, it prints that all of
  them missed and were UDP.\<close>

lemma lru_udp_share:
  assumes "diffTotal \<noteq> 0"
  shows "ll_udp (lru_line_of (\<lambda>x. x) diffTotal diffMiss syn non_syn fb) =
    (of_int (uint diffTotal) - of_int (uint syn) - of_int (uint non_syn)) / of_int (uint diffTotal)"
proof -
  have "(of_int (uint diffTotal) :: rat) \<noteq> 0" using assms by (simp add: uint_0_iff del: of_int_uint)
  then show ?thesis using assms by (simp add: lru_line_of_def Let_def diff_divide_distrib del: of_int_uint)
qed

theorem hits_shown_as_udp_misses:
  assumes "fl 0 = 0" "fl 1 = 1" "fl 100 = 100" "v1 st \<noteq> v1 old" "v2 st = v2 old"
  shows "showLruStats fl old miss fb [(st, miss, fallbackStats)] = [\<lparr>ll_total = v1 st - v1 old, ll_hit = 100, ll_miss = 0,
    ll_tcp_syn = 0, ll_tcp_non_syn = 0, ll_udp = 1, ll_fallback = v1 fallbackStats - fb\<rparr>]"
  using assms by (simp add: lru_line_of_def Let_def)

theorem hits_shown_as_udp_misses_witness:
  "map ll_udp (showLruStats (\<lambda>x. x) \<lparr>v1 = 5, v2 = 2\<rparr> \<lparr>v1 = 1, v2 = 1\<rparr> 0 [(\<lparr>v1 = 9, v2 = 2\<rparr>, \<lparr>v1 = 1, v2 = 1\<rparr>, \<lparr>v1 = 0, v2 = 0\<rparr>)]) = [1]"
  using hits_shown_as_udp_misses [of "\<lambda>x. x" "\<lparr>v1 = 9, v2 = 2\<rparr>" "\<lparr>v1 = 5, v2 = 2\<rparr>" "\<lparr>v1 = 1, v2 = 1\<rparr>" 0 "\<lparr>v1 = 0, v2 = 0\<rparr>"] by simp

section \<open>From the command line to the balancer\<close>

lemma ask_known: "thrift_handle V rq s = (Inr r, s') \<Longrightarrow> ask V rq s f = f r s'"
  by (simp add: ask_def)

lemma delVip_vips:
  assumes "delVip E vip lb = (r, lb')"
  shows "set (vips lb') \<subseteq> set (vips lb)" "config lb' = config lb" "\<not> disableForwarding (config lb) \<Longrightarrow> vip \<notin> fst ` set (vips lb')"
proof -
  show "config lb' = config lb" using lb_step_config [OF call_delVip [OF assms]] .
  consider "lb' = lb" "disableForwarding (config lb) \<or> map_of (vips lb) vip = None"
    | "vips lb' = AList.delete vip (vips lb)"
  proof (cases "disableForwarding (config lb) \<or> map_of (vips lb) vip = None")
    case True
    then show ?thesis using assms that(1) by (auto simp: delVip_def split: if_splits)
  next
    case False
    then obtain v where v: "map_of (vips lb) vip = Some v" "\<not> disableForwarding (config lb)" by auto
    let ?lb = "fold drop_real (getReals (iter_reals E) v) lb"
    have "vips (?lb\<lparr>vipNums := vipNums ?lb @ [vipNum v]\<rparr>) = vips lb" using lb_restD [OF fold_drop_real_rest [of _ lb]] by simp
    then show ?thesis
      using assms that(2) v lb_restD [OF updates_keep(1) [of E DEL vip _ "?lb\<lparr>vipNums := vipNums ?lb @ [vipNum v]\<rparr>"]]
      by (auto simp: delVip_def Let_def split: if_splits)
  qed
  then show "set (vips lb') \<subseteq> set (vips lb)" "\<not> disableForwarding (config lb) \<Longrightarrow> vip \<notin> fst ` set (vips lb')"
    by (cases; auto simp: AList.delete_eq map_of_eq_None_iff)+
qed

definition del_each :: "service_env \<Rightarrow> vip_msg list \<Rightarrow> KatranService \<Rightarrow> client_result" where
  "del_each V = for_each (\<lambda>vip s. ask V (DelVip vip) s (\<lambda>r s. (Inr [told r], s)))"

lemma del_each_Cons:
  assumes "delVip (lb_env V) (translateVipObject m) (svc_lb s) = (r, lb)"
  shows "del_each V (m # vs) s = then_lines (Inr [told (Success r)], s\<lparr>svc_lb := lb\<rparr>) (del_each V vs)"
  by (simp add: del_each_def ask_def thrift_delVip_def with_lb_def assms)

lemma del_vips:
  assumes "\<not> disableForwarding (config (svc_lb s))"
  shows "\<exists>ls s'. del_each V vs s = (Inr ls, s') \<and>
     set (vips (svc_lb s')) \<subseteq> {kv \<in> set (vips (svc_lb s)). fst kv \<notin> translateVipObject ` set vs}"
  using assms
proof (induction vs arbitrary: s)
  case Nil
  then show ?case by (simp add: del_each_def)
next
  case (Cons m vs)
  obtain r lb where d: "delVip (lb_env V) (translateVipObject m) (svc_lb s) = (r, lb)" by fastforce
  let ?s = "s\<lparr>svc_lb := lb\<rparr>"
  obtain ls s' where ls: "del_each V vs ?s = (Inr ls, s')"
    "set (vips (svc_lb s')) \<subseteq> {kv \<in> set (vips lb). fst kv \<notin> translateVipObject ` set vs}"
    using Cons.IH [of ?s] Cons.prems delVip_vips(2) [OF d] by auto
  have "set (vips (svc_lb s')) \<subseteq> {kv \<in> set (vips (svc_lb s)). fst kv \<notin> translateVipObject ` set (m # vs)}"
  proof
    fix kv assume "kv \<in> set (vips (svc_lb s'))"
    then have kv: "kv \<in> set (vips lb)" "fst kv \<notin> translateVipObject ` set vs" using ls(2) by auto
    then have "fst kv \<noteq> translateVipObject m" using delVip_vips(3) [OF d Cons.prems] imageI [OF kv(1), of fst] by metis
    then show "kv \<in> {kv \<in> set (vips (svc_lb s)). fst kv \<notin> translateVipObject ` set (m # vs)}"
      using kv delVip_vips(1) [OF d] by auto
  qed
  then show ?case using ls(1) by (simp add: del_each_Cons [OF d] then_lines_def)
qed

lemma hc_request:
  "\<exists>r s1. thrift_handle V (DelHealthcheckerDst somark) s = (Inr r, s1) \<and> vips (svc_lb s1) = vips (svc_lb s)"
proof (cases "hcForwarding s")
  case True
  obtain r lb where d: "delHealthcheckerDst (lb_env V) somark (svc_lb s) = (r, lb)" by fastforce
  then have "vips lb = vips (svc_lb s)" using side_tables_keep(4) [OF d] lb_restD by blast
  then show ?thesis using True d by (simp add: thrift_delHealthcheckerDst_def with_lb_def)
qed (simp add: thrift_delHealthcheckerDst_def)

lemma del_hcs:
  "\<exists>ls s'. for_each (\<lambda>(somark, _) s. ask V (DelHealthcheckerDst somark) s (\<lambda>r s. (Inr [told r], s))) hs s = (Inr ls, s') \<and>
     vips (svc_lb s') = vips (svc_lb s)"
proof (induction hs arbitrary: s)
  case (Cons h hs)
  obtain r s1 where d: "thrift_handle V (DelHealthcheckerDst (fst h)) s = (Inr r, s1)" "vips (svc_lb s1) = vips (svc_lb s)"
    using hc_request [of V "fst h" s] by blast
  obtain ls s2 where "for_each (\<lambda>(somark, _) s. ask V (DelHealthcheckerDst somark) s (\<lambda>r s. (Inr [told r], s))) hs s1 = (Inr ls, s2)"
    "vips (svc_lb s2) = vips (svc_lb s1)" using Cons.IH [of s1] by blast
  then show ?case using d by (cases h) (simp add: ask_known then_lines_def del: thrift_handle.simps)
qed simp

text \<open>C39. Clearing clears: the client's \<open>-C\<close> gets to its end whatever services and health checks the balancer has, and afterwards it has no
  service. This is for a balancer with forwarding enabled, and a listing that names every service.\<close>

theorem clear_all_removes_services:
  assumes "\<forall>vs. set (iter_vips (lb_env V) vs) = set vs" "\<not> disableForwarding (config (svc_lb s))"
  shows "\<exists>ls s'. clearAll V order s = (Inr ls, s') \<and> vips (svc_lb s') = []"
proof -
  let ?msg = "\<lambda>v. \<lparr>vm_address = vk_address v, vm_port = ucast (vk_port v), vm_protocol = ucast (vk_proto v)\<rparr>"
  let ?vs = "map ?msg (getAllVips (lb_env V) (svc_lb s))"
  have msg: "translateVipObject (?msg v) = v" for v 
    by (simp add: translateVipObject_def unsigned_ucast_eq signed_take_bit_eq_if_positive take_bit_word_eq_self)
  then have all: "translateVipObject ` set ?vs = fst ` set (vips (svc_lb s))"
    using assms by (simp add: getAllVips_def image_image comp_def)
  have none: "{kv \<in> A. fst kv \<notin> fst ` A} = {}" for A :: "(VipKey \<times> Vip) set" by auto
  obtain ls1 s1 where 1: "del_each V ?vs s = (Inr ls1, s1)" "vips (svc_lb s1) = []"
    using del_vips [OF assms(2), of V ?vs] none unfolding all by auto
  obtain hcs where 2: "thrift_handle V GetHealthcheckersDst s1 = (Inr (HcsAre hcs), s1)"
    by (cases "hcForwarding s1") (simp_all add: thrift_getHealthcheckersDst_def)
  obtain ls2 s2 where 3: "for_each (\<lambda>(somark, _) s. ask V (DelHealthcheckerDst somark) s (\<lambda>r s. (Inr [told r], s))) (order hcs) s1 = (Inr ls2, s2)"
    "vips (svc_lb s2) = []" using del_hcs [of V "order hcs" s1] 1(2) by auto
  have "thrift_handle V GetAllVips s = (Inr (VipsAre ?vs), s)" by (simp add: thrift_getAllVips_def)
  then have "clearAll V order s = (Inr (ls1 @ ls2), s2)" unfolding clearAll_def del_each_def [symmetric] using 1(1) 2 3(1) by (simp add: ask_known then_lines_def del: thrift_handle.simps)
  then show ?thesis using 3(2) by blast
qed

lemma parseFlags_one: "flagTranslationTable flags = Some f \<Longrightarrow> flags \<noteq> [] \<Longrightarrow> parseFlags f = '' '' @ flags @ '' ''"
  by (auto simp: flagTranslationTable_def parseFlags_def split: if_splits)

lemma flag_fits: "flagTranslationTable flags = Some f \<Longrightarrow> ucast (ucast f :: u32) = f"
  by (auto simp: flagTranslationTable_def split: if_splits)

lemma numToReals_at_rest: "lb_rest (snd (numToReals_at n lb)) = lb_rest lb"
  by (auto simp: numToReals_at_def lb_rest_def split: option.splits)

lemma look_reals_rest:
  "lb_rest (snd (fold (\<lambda>x (out, lb). case numToReals_at (g x) lb of (a, lb) \<Rightarrow> (out @ [h x a], lb)) xs (out, lb))) = lb_rest lb"
proof (induction xs arbitrary: out lb)
  case (Cons x xs)
  obtain a lb1 where "numToReals_at (g x) lb = (a, lb1)" by fastforce
  then show ?case using numToReals_at_rest [of "g x" lb] by (simp add: Cons.IH)
qed simp

lemma getRealsForVip_rest: "getRealsForVip E vip lb = (q, lb') \<Longrightarrow> lb_rest lb' = lb_rest lb"
  using look_reals_rest [where g = ep_num and h = "\<lambda>r a. \<lparr>nr_address = ip_str E a, nr_weight = ep_weight r\<rparr>" and out = "[]" and lb = lb]
  by (auto simp: getRealsForVip_def case_prod_beta split: if_splits option.splits)

text \<open>C34. What is typed arrives: when the client has added the service \<open>addr:port\<close> with a flag, the balancer has this service
  with the bit of the flag, and listing it prints the flag as it was typed.\<close>

theorem typed_service_arrives:
  assumes "CHR ''['' \<notin> set address" "split_text C (CHR '':'') address = [host, port]" "to_int C port = Some p"
    and "flags \<noteq> []" "addOrModifyService V C address flags protocol False True s = (Inr [Done], s')"
  defines "vip \<equiv> \<lparr>vm_address = host, vm_port = p, vm_protocol = protocol\<rparr>"
  shows "\<exists>f ls s''. flagTranslationTable flags = Some f \<and> getVipFlags (translateVipObject vip) (svc_lb s') = Inr (ucast f) \<and>
    listVipAndReals V vip s' = (Inr ls, s'') \<and> Flags_line ('' '' @ flags @ '' '') \<in> set ls"
proof -
  have pv: "parseToVip C address protocol = Inr vip" using assms(1-3) by (simp add: parseToVip_def vip_def)
  obtain f where f: "flagTranslationTable flags = Some f" using assms(5) by (auto simp: addOrModifyService_def pv with_text_def split: option.splits)
  obtain b lb where add: "addVip (lb_env V) (translateVipObject vip) (ucast f) (svc_lb s) = (b, lb)" by fastforce
  have "addOrModifyService V C address flags protocol False True s = (Inr [told (Success b)], s\<lparr>svc_lb := lb\<rparr>)"
    by (simp add: addOrModifyService_def pv with_text_def f ask_def thrift_addVip_def with_lb_def add)
  then have "b" "lb = svc_lb s'" using assms(5) by (auto simp: told_def split: bool.splits)
  then have fl: "getVipFlags (translateVipObject vip) (svc_lb s') = Inr (ucast f)" using addVip_listed(3) add by simp
  obtain q lb2 where q: "getRealsForVip (lb_env V) (translateVipObject vip) (svc_lb s') = (q, lb2)" by fastforce
  note rest = getRealsForVip_rest [OF q]
  have "getVipFlags (translateVipObject vip) lb2 = Inr (ucast f)" using fl lb_restD [OF rest] by (simp add: getVipFlags_def split: if_splits)
  moreover obtain rs where "catching (\<lambda>_. []) (map_sum id (map (\<lambda>real. \<lparr>rlm_address = nr_address real, rlm_weight = nr_weight real\<rparr>)) q) = Inr rs"
    using q fl by (auto simp: getRealsForVip_def getVipFlags_def catching_def split: if_splits option.splits prod.splits)
  ultimately have "listVipAndReals V vip s' = (Inr ([Vip_line vip (if vm_protocol vip = 6 then ''tcp'' else ''udp''), Flags_line (parseFlags f)] @ map Real_line rs),
      s'\<lparr>svc_lb := lb2\<rparr>)"
    by (simp add: listVipAndReals_def ask_def thrift_getVipFlags_def thrift_getRealsForVip_def with_lb_def q flag_fits [OF f] Let_def) (simp add: catching_def flag_fits [OF f])
  then show ?thesis using f fl parseFlags_one [OF f assms(4)] by simp
qed

definition ex_client_env :: client_env where
  "ex_client_env = \<lparr>split_text = (\<lambda>c t. if t = ''10.200.1.1:80'' then [''10.200.1.1'', ''80''] else [t]), match_v6 = (\<lambda>_. None),
     to_int = map_of [(''80'', 80)], to_uint = (\<lambda>_. None)\<rparr>"

lemma ex_typed: "fst (addVip ex_env ex_key 2 (svc_lb ex_server)) = True"
proof -
  have "config (svc_lb ex_server) = config ex_lb0" "vipNums (svc_lb ex_server) = [0, 1, 2, 3]" "vips (svc_lb ex_server) = []"
    using ex_server_view by (simp_all add: lb_view_def lb_rest_def ex_lb0_fields)
  then show ?thesis by (simp add: addVip_def validateAddress_def ex_lb0_fields ex_key_def ex_env_def ex_cfg_def Let_def)
qed

lemma ex_flag: "flagTranslationTable ''NO_LRU'' = Some 2"
  by (simp add: flagTranslationTable_def)

lemma ex_text: "CHR ''['' \<notin> set ''10.200.1.1:80''" "split_text ex_client_env (CHR '':'') ''10.200.1.1:80'' = [''10.200.1.1'', ''80'']"
    "to_int ex_client_env ''80'' = Some 80"
  by (simp_all add: ex_client_env_def)

lemma ex_parsed: "parseToVip ex_client_env ''10.200.1.1:80'' 6 = Inr ex_vip_msg"
  unfolding parseToVip_def using ex_text by (simp add: ex_vip_msg_def)

lemma ex_accepted:
  "\<exists>s'. thrift_handle ex_service_env (AddVip \<lparr>vmm_vip = ex_vip_msg, vmm_flags = 2, vmm_setFlag = True\<rparr>) ex_server = (Inr (Success True), s')"
proof -
  obtain lb where "addVip ex_env ex_key 2 (svc_lb ex_server) = (True, lb)"
    using ex_typed by (cases "addVip ex_env ex_key 2 (svc_lb ex_server)") simp
  moreover have "lb_env ex_service_env = ex_env" "translateVipObject ex_vip_msg = ex_key"
    by (simp_all add: ex_service_env_def translateVipObject_def ex_vip_msg_def ex_key_def)
  ultimately show ?thesis by (simp add: thrift_addVip_def with_lb_def)
qed

theorem typed_service_arrives_witness:
  "\<exists>s' ls s''. addOrModifyService ex_service_env ex_client_env ''10.200.1.1:80'' ''NO_LRU'' 6 False True ex_server = (Inr [Done], s') \<and>
    listVipAndReals ex_service_env ex_vip_msg s' = (Inr ls, s'') \<and> Flags_line '' NO_LRU '' \<in> set ls"
proof -
  obtain s' where "thrift_handle ex_service_env (AddVip \<lparr>vmm_vip = ex_vip_msg, vmm_flags = 2, vmm_setFlag = True\<rparr>) ex_server = (Inr (Success True), s')"
    using ex_accepted by blast
  then have a: "addOrModifyService ex_service_env ex_client_env ''10.200.1.1:80'' ''NO_LRU'' 6 False True ex_server = (Inr [Done], s')"
    unfolding addOrModifyService_def ex_parsed ex_flag with_text_def Let_def by (simp add: ask_known told_def del: thrift_handle.simps)
  have "''NO_LRU'' \<noteq> []" by simp
  from typed_service_arrives [OF ex_text this a, folded ex_vip_msg_def] a show ?thesis by auto
qed

theorem clear_all_removes_services_witness:
  "\<exists>s1 ls s'. vips (svc_lb s1) \<noteq> [] \<and> clearAll ex_service_env (\<lambda>_. []) s1 = (Inr ls, s') \<and> vips (svc_lb s') = []"
proof -
  let ?s = "ex_server\<lparr>svc_lb := snd (addVip ex_env ex_key 0 (svc_lb ex_server))\<rparr>"
  note lb1 = add_to_empty [OF ex_server_view]
  have "\<exists>ls s'. clearAll ex_service_env (\<lambda>_. []) ?s = (Inr ls, s') \<and> vips (svc_lb s') = []"
    by (rule clear_all_removes_services) (simp add: ex_service_env_def ex_env_def, simp add: lb1(5) ex_lb0_fields ex_cfg_def)
  then show ?thesis using lb1(2) by (intro exI [where x = ?s]) simp
qed

end
