(* ===== verification/Server.thy ===== *)
theory Server
  imports Service
begin

text \<open>
  The two server programs, \<open>src/example/KatranSimpleServer.cpp\<close> for thrift and \<open>src/example_grpc/katran_server.cpp\<close> for gRPC, with
  their signal handlers \<open>KatranSimpleServiceSignalHandler.cpp\<close> and \<open>GrpcSignalHandler.cpp\<close>: the configuration made of the
  command line, the life of the server between its start and the delayed shutdown a signal asks for, and what is left in the
  kernel when \<open>main\<close> returns. What thrift, gRPC and the event loop of folly do is a list of events: a request, a packet, a signal,
  the loop running what was handed to its thread, and time passing.
\<close>

section \<open>The command line\<close>

record server_flags =
  fl_intf :: string
  fl_hc_intf :: string
  fl_ipip_intf :: string
  fl_ipip6_intf :: string
  fl_balancer_prog :: string
  fl_healthchecker_prog :: string
  fl_default_mac :: string
  fl_priority :: int
  fl_map_path :: string
  fl_prog_pos :: int
  fl_hc_forwarding :: bool
  fl_shutdown_delay :: int
  fl_lru_size :: int
  fl_forwarding_cores :: string
  fl_numa_nodes :: string

text \<open>The defaults of the flags; the thrift server has no \<open>hc_intf\<close>.\<close>

definition default_flags :: server_flags where
  "default_flags = \<lparr>fl_intf = ''eth0'', fl_hc_intf = '''', fl_ipip_intf = ''ipip0'', fl_ipip6_intf = ''ipip60'',
     fl_balancer_prog = ''./balancer_kern.o'', fl_healthchecker_prog = ''./healthchecking_ipip.o'',
     fl_default_mac = ''00:00:00:00:00:01'', fl_priority = 2307, fl_map_path = '''', fl_prog_pos = 2, fl_hc_forwarding = True,
     fl_shutdown_delay = 10000, fl_lru_size = 8000000, fl_forwarding_cores = '''', fl_numa_nodes = ''''\<rparr>"

text \<open>\<open>folly::split\<close> at commas, \<open>folly::to<int32_t>\<close>, and the milliseconds \<open>runAfterDelay\<close> waits for its argument.\<close>

record server_lib =
  split_commas :: "string \<Rightarrow> string list"
  to_int32 :: "string \<Rightarrow> int option"
  after_ms :: "int \<Rightarrow> nat"

text \<open>\<open>None\<close> is the exception of the conversion.\<close>

definition parseIntLine :: "server_lib \<Rightarrow> string \<Rightarrow> int list option" where
  "parseIntLine L line = (if line \<noteq> [] then those (map (to_int32 L) (split_commas L line)) else Some [])"

definition kDefaultKatranPos :: u32 where [simp]: "kDefaultKatranPos = 2"
definition kDefaultMaxVips :: u32 where [simp]: "kDefaultMaxVips = 512"
definition kDefaultMaxReals :: u32 where [simp]: "kDefaultMaxReals = 4096"
definition kDefaultPriority :: u32 where [simp]: "kDefaultPriority = 2307"
definition kLbDefaultChRingSize :: u32 where [simp]: "kLbDefaultChRingSize = 65537"
definition kDefaultMaxLpmSrcSize :: u32 where [simp]: "kDefaultMaxLpmSrcSize = 3000000"
definition kDefaultMaxDecapDstSize :: u32 where [simp]: "kDefaultMaxDecapDstSize = 6"
definition kDefaultLruSize :: u64 where [simp]: "kDefaultLruSize = 8000000"

text \<open>The initializers of the fields of \<open>KatranConfig\<close>.\<close>

definition KatranConfig_default :: KatranConfig where
  "KatranConfig_default = \<lparr>mainInterface = '''', v4TunInterface = '''', v6TunInterface = '''', balancerProgPath = '''',
     healthcheckingProgPath = '''', defaultMac = [], cfg_priority = kDefaultPriority, rootMapPath = '''',
     rootMapPos = kDefaultKatranPos, enableHc = True, disableForwarding = False, maxVips = kDefaultMaxVips,
     maxReals = kDefaultMaxReals, cfg_chRingSize = kLbDefaultChRingSize, testing = False, LruSize = kDefaultLruSize,
     cfg_forwardingCores = [], cfg_numaNodes = [], maxLpmSrcSize = kDefaultMaxLpmSrcSize, maxDecapDst = kDefaultMaxDecapDstSize,
     hcInterface = '''', katranSrcV4 = '''', katranSrcV6 = '''', localMac = []\<rparr>"

definition thrift_config :: "(string \<Rightarrow> u8 list option) \<Rightarrow> server_flags \<Rightarrow> int list \<Rightarrow> int list \<Rightarrow> KatranConfig" where
  "thrift_config parse F forwardingCores numaNodes = KatranConfig_default\<lparr>mainInterface := fl_intf F,
     v4TunInterface := fl_ipip_intf F, v6TunInterface := fl_ipip6_intf F, balancerProgPath := fl_balancer_prog F,
     healthcheckingProgPath := fl_healthchecker_prog F, defaultMac := convertMacToUint parse (fl_default_mac F),
     cfg_priority := of_int (fl_priority F), rootMapPath := fl_map_path F, rootMapPos := of_int (fl_prog_pos F),
     enableHc := fl_hc_forwarding F, LruSize := of_int (fl_lru_size F), cfg_forwardingCores := forwardingCores,
     cfg_numaNodes := numaNodes\<rparr>"

definition grpc_config :: "(string \<Rightarrow> u8 list option) \<Rightarrow> server_flags \<Rightarrow> int list \<Rightarrow> int list \<Rightarrow> KatranConfig" where
  "grpc_config parse F forwardingCores numaNodes = KatranConfig_default\<lparr>mainInterface := fl_intf F,
     v4TunInterface := fl_ipip_intf F, v6TunInterface := fl_ipip6_intf F, balancerProgPath := fl_balancer_prog F,
     healthcheckingProgPath := fl_healthchecker_prog F, defaultMac := convertMacToUint parse (fl_default_mac F),
     cfg_priority := of_int (fl_priority F), rootMapPath := fl_map_path F, rootMapPos := of_int (fl_prog_pos F),
     enableHc := fl_hc_forwarding F, LruSize := of_int (fl_lru_size F), cfg_forwardingCores := forwardingCores,
     cfg_numaNodes := numaNodes, hcInterface := fl_hc_intf F\<rparr>"

section \<open>The running server\<close>

text \<open>\<open>queued\<close> functions wait for the thread of the event loop, \<open>timers\<close> are the times at which the server is to be stopped, and
  \<open>stops\<close> counts the calls that stop it.\<close>

record 'r server =
  svc :: KatranService
  delay :: int
  shutdownScheduled :: bool
  queued :: nat
  timers :: "nat list"
  now :: nat
  stops :: nat
  answers :: "'r list"

definition KatranSimpleServiceSignalHandler :: "KatranService \<Rightarrow> int \<Rightarrow> response server" where
  "KatranSimpleServiceSignalHandler s dly =
     \<lparr>svc = s, delay = dly, shutdownScheduled = False, queued = 0, timers = [], now = 0, stops = 0, answers = []\<rparr>"

definition GrpcSignalHandler :: "KatranService \<Rightarrow> int \<Rightarrow> (grpc_status \<times> response) server" where
  "GrpcSignalHandler s dly =
     \<lparr>svc = s, delay = dly, shutdownScheduled = False, queued = 0, timers = [], now = 0, stops = 0, answers = []\<rparr>"

definition thrift_signalReceived :: "response server \<Rightarrow> response server" where
  "thrift_signalReceived s =
     (if shutdownScheduled s then s else s\<lparr>queued := queued s + 1, shutdownScheduled := True\<rparr>)"

definition grpc_signalReceived :: "(grpc_status \<times> response) server \<Rightarrow> (grpc_status \<times> response) server" where
  "grpc_signalReceived s =
     (if shutdownScheduled s then s else s\<lparr>queued := queued s + 1, shutdownScheduled := True\<rparr>)"

datatype event =
    Rpc request
  | Packet build_flags bpf_helpers "u32 \<Rightarrow> bool" "u8 list"
  | Signal
  | Loop
  | Tick nat

text \<open>A stopped server takes no requests. An exception that a handler does not catch is answered to the client by the RPC framework,
  which goes on. A handler that does not come back, or aborts the process, ends the run.\<close>

fun server_step ::
  "(request \<Rightarrow> KatranService \<Rightarrow> 'r answer) \<Rightarrow> ('r server \<Rightarrow> 'r server) \<Rightarrow> (int \<Rightarrow> nat) \<Rightarrow> event \<Rightarrow> 'r server \<Rightarrow> lb_error + 'r server" where
  "server_step handle received wait (Rpc rq) s =
     (if stops s > 0 then Inr s
      else (case handle rq (svc s) of
        (Inl e, t) \<Rightarrow>
          if e = invalid_argument \<or> e = runtime_error \<or> e = bad_address then Inr (s\<lparr>svc := t\<rparr>) else Inl e
      | (Inr r, t) \<Rightarrow> Inr (s\<lparr>svc := t, answers := answers s @ [r]\<rparr>)))"
| "server_step handle received wait (Packet B H slots p) s =
     (let lb = svc_lb (svc s) in
      case balancer_run B H slots ((dp (kernel lb))\<lparr>pkt := p\<rparr>) of
        None \<Rightarrow> Inr s
      | Some (_, t) \<Rightarrow> Inr (s\<lparr>svc := (svc s)\<lparr>svc_lb := lb\<lparr>kernel := (kernel lb)\<lparr>dp := t\<rparr>\<rparr>\<rparr>\<rparr>))"
| "server_step handle received wait Signal s = Inr (received s)"
| "server_step handle received wait Loop s =
     Inr (if queued s = 0 then s else s\<lparr>queued := queued s - 1, timers := timers s @ [now s + wait (delay s)]\<rparr>)"
| "server_step handle received wait (Tick d) s =
     Inr (let t = now s + d in
       s\<lparr>now := t, stops := stops s + length (filter (\<lambda>x. x \<le> t) (timers s)), timers := filter (\<lambda>x. t < x) (timers s)\<rparr>)"

fun server_run ::
  "(request \<Rightarrow> KatranService \<Rightarrow> 'r answer) \<Rightarrow> ('r server \<Rightarrow> 'r server) \<Rightarrow> (int \<Rightarrow> nat) \<Rightarrow> event list \<Rightarrow> 'r server \<Rightarrow> lb_error + 'r server" where
  "server_run handle received wait [] s = Inr s"
| "server_run handle received wait (e # es) s =
     (case server_step handle received wait e s of Inl x \<Rightarrow> Inl x | Inr t \<Rightarrow> server_run handle received wait es t)"

text \<open>\<open>Inr None\<close> is a server that still runs after the events, \<open>Inr (Some k)\<close> one whose \<open>main\<close> has returned and left the kernel
  \<open>k\<close>: stopping the server lets \<open>main\<close> go on, which destroys the handler and with it the \<open>KatranLb\<close> object.\<close>

datatype main_error = Bad_number | Thrown lb_error

definition main_returns :: "katran_env \<Rightarrow> 'r server \<Rightarrow> kernel option" where
  "main_returns E s = (if stops s > 0 then Some (KatranLb_destroy E (svc_lb (svc s))) else None)"

definition thrift_main ::
  "server_lib \<Rightarrow> service_env \<Rightarrow> ctl_value \<Rightarrow> server_flags \<Rightarrow> kernel \<Rightarrow> event list \<Rightarrow> main_error + kernel option" where
  "thrift_main L V junk F k es =
     (case parseIntLine L (fl_forwarding_cores F) of None \<Rightarrow> Inl Bad_number | Some forwardingCores \<Rightarrow>
     (case parseIntLine L (fl_numa_nodes F) of None \<Rightarrow> Inl Bad_number | Some numaNodes \<Rightarrow>
     (case KatranSimpleServiceHandler_new V junk (thrift_config (parse_mac V) F forwardingCores numaNodes) k of
        Inl e \<Rightarrow> Inl (Thrown e)
      | Inr handler \<Rightarrow>
          (case server_run (thrift_handle V) thrift_signalReceived (after_ms L) es
             (KatranSimpleServiceSignalHandler handler (fl_shutdown_delay F)) of
             Inl e \<Rightarrow> Inl (Thrown e)
           | Inr s \<Rightarrow> Inr (main_returns (lb_env V) s)))))"

definition RunServer ::
  "server_lib \<Rightarrow> service_env \<Rightarrow> ctl_value \<Rightarrow> KatranConfig \<Rightarrow> int \<Rightarrow> kernel \<Rightarrow> event list \<Rightarrow> main_error + kernel option" where
  "RunServer L V junk cfg dly k es =
     (case KatranGrpcService_new V junk cfg k of
        Inl e \<Rightarrow> Inl (Thrown e)
      | Inr service \<Rightarrow>
          (case server_run (grpc_handle V) grpc_signalReceived (after_ms L) es (GrpcSignalHandler service dly) of
             Inl e \<Rightarrow> Inl (Thrown e)
           | Inr s \<Rightarrow> Inr (main_returns (lb_env V) s)))"

definition grpc_main ::
  "server_lib \<Rightarrow> service_env \<Rightarrow> ctl_value \<Rightarrow> server_flags \<Rightarrow> kernel \<Rightarrow> event list \<Rightarrow> main_error + kernel option" where
  "grpc_main L V junk F k es =
     (case parseIntLine L (fl_forwarding_cores F) of None \<Rightarrow> Inl Bad_number | Some forwardingCores \<Rightarrow>
     (case parseIntLine L (fl_numa_nodes F) of None \<Rightarrow> Inl Bad_number | Some numaNodes \<Rightarrow>
      RunServer L V junk (grpc_config (parse_mac V) F forwardingCores numaNodes) (fl_shutdown_delay F) k es))"

section \<open>The programs stay attached\<close>

text \<open>No request changes the configuration, whether the programs are attached, or how.\<close>

definition attached :: "KatranLb \<Rightarrow> KatranConfig \<times> bool \<times> bool" where
  "attached lb = (config lb, standalone lb, progsAttached lb)"

lemma attached_update [simp]:
  "attached (lb\<lparr>kernel := k\<rparr>) = attached lb" "attached (lb\<lparr>vips := vs\<rparr>) = attached lb" "attached (lb\<lparr>vipNums := ns\<rparr>) = attached lb"
  "attached (lb\<lparr>realNums := ns\<rparr>) = attached lb" "attached (lb\<lparr>ctlValues := cs\<rparr>) = attached lb" "attached (lb\<lparr>hcReals := hs\<rparr>) = attached lb"
  "attached (lb\<lparr>lb_reals := rs\<rparr>) = attached lb" "attached (lb\<lparr>quicMapping := qs\<rparr>) = attached lb" "attached (lb\<lparr>numToReals := ts\<rparr>) = attached lb"
  "attached (lb\<lparr>lbStats := st\<rparr>) = attached lb"
  by (simp_all add: attached_def)

lemma attached_calls [simp]:
  "attached (snd (bpf_call E f lb)) = attached lb" "attached (snd (counted_call E f lb)) = attached lb"
  "attached (set_ctlValues i c lb) = attached lb" "attached (snd (numToReals_at n lb)) = attached lb"
  "attached (count_invalid lb) = attached lb" "attached (count_failed lb) = attached lb"
  by (simp_all add: bpf_call_def counted_call_def set_ctlValues_def numToReals_at_def count_invalid_def count_failed_def Let_def
      split: option.split prod.split)

lemma attached_fold: "(\<And>x lb. attached (f x lb) = attached lb) \<Longrightarrow> attached (fold f xs lb) = attached lb"
  by (induction xs arbitrary: lb) simp_all

lemma attached_fold_snd: "(\<And>x s. attached (snd (f x s)) = attached (snd s)) \<Longrightarrow> attached (snd (fold f xs s)) = attached (snd s)"
  by (induction xs arbitrary: s) simp_all

lemma attached_parts [simp]:
  "attached (snd (updateVipMap E act vip meta lb)) = attached lb" "attached (write_ring E num ps lb) = attached lb"
  "attached (snd (updateRealsMap E a n lb)) = attached lb"
  "attached (snd (increaseRefCountForReal E a lb)) = attached lb" "attached (decreaseRefCountForReal a lb) = attached lb"
  "attached (drop_real n lb) = attached lb" "attached (snd (validateAddress E addr b lb)) = attached lb"
  "attached (snd (snd (modify_one E action real s))) = attached (snd (snd s))" "attached (snd (quic_one E action q t)) = attached (snd t)"
proof -
  show "attached (snd (updateVipMap E act vip meta lb)) = attached lb" by (cases act) (simp_all add: updateVipMap_def Let_def)
  show "attached (write_ring E num ps lb) = attached lb" by (simp add: write_ring_def attached_fold Let_def)
  have up: "attached (snd (updateRealsMap E a n lb)) = attached lb" for a n lb by (simp add: updateRealsMap_def Let_def)
  then show "attached (snd (updateRealsMap E a n lb)) = attached lb" .
  have inc: "attached (snd (increaseRefCountForReal E a lb)) = attached lb" for a lb
    by (simp add: increaseRefCountForReal_def up Let_def split: option.split list.split)
  then show "attached (snd (increaseRefCountForReal E a lb)) = attached lb" .
  have dec: "attached (decreaseRefCountForReal a lb) = attached lb" for a lb
    by (simp add: decreaseRefCountForReal_def Let_def split: option.split)
  then show "attached (decreaseRefCountForReal a lb) = attached lb" .
  show "attached (drop_real n lb) = attached lb" by (simp add: drop_real_def dec case_prod_beta)
  have val: "attached (snd (validateAddress E addr b lb)) = attached lb" for addr b lb by (simp add: validateAddress_def)
  then show "attached (snd (validateAddress E addr b lb)) = attached lb" .
  show "attached (snd (snd (modify_one E action real s))) = attached (snd (snd s))"
    by (cases s) (simp add: modify_one_def del_one_def add_one_def inc dec val case_prod_beta Let_def split: option.split)
  show "attached (snd (quic_one E action q t)) = attached (snd t)"
    by (cases t) (simp add: quic_one_def inc dec val case_prod_beta Let_def)
qed

lemma attached_fold_reals: "attached (snd (snd (fold (modify_one E action) rs s))) = attached (snd (snd s))"
  by (induction rs arbitrary: s) simp_all

lemma attached_ops [simp]:
  "attached (snd (addVip E vip flags lb)) = attached lb" "attached (snd (delVip E vip lb)) = attached lb"
  "attached (snd (modifyVip E vip flag st lb)) = attached lb" "attached (snd (modifyRealsForVip E action rs vip lb)) = attached lb"
  "attached (modifyQuicRealsMapping E action qs lb) = attached lb" "attached (snd (getRealsForVip E vip lb)) = attached lb"
  "attached (snd (changeMac E mac lb)) = attached lb" "attached (snd (getLbStats look name position lb)) = attached lb"
  "attached (snd (addHealthcheckerDst E somark dst lb)) = attached lb" "attached (snd (delHealthcheckerDst E somark lb)) = attached lb"
proof -
  show "attached (snd (addVip E vip flags lb)) = attached lb" by (simp add: addVip_def case_prod_beta Let_def split: list.split)
  show "attached (snd (delVip E vip lb)) = attached lb" by (simp add: delVip_def Let_def attached_fold split: option.split)
  show "attached (snd (modifyVip E vip flag st lb)) = attached lb" by (simp add: modifyVip_def Let_def split: option.split)
  show "attached (snd (modifyRealsForVip E action rs vip lb)) = attached lb"
    by (simp add: modifyRealsForVip_def case_prod_beta attached_fold_reals Let_def split: option.split)
  show "attached (modifyQuicRealsMapping E action qs lb) = attached lb"
    by (simp add: modifyQuicRealsMapping_def case_prod_beta attached_fold attached_fold_snd)
  show "attached (snd (getRealsForVip E vip lb)) = attached lb"
    by (simp add: getRealsForVip_def case_prod_beta attached_fold_snd split: option.split)
  show "attached (snd (changeMac E mac lb)) = attached lb" by (simp add: changeMac_def case_prod_beta Let_def)
  show "attached (snd (getLbStats look name position lb)) = attached lb" by (simp add: getLbStats_def Let_def split: option.split)
  show "attached (snd (addHealthcheckerDst E somark dst lb)) = attached lb"
    by (simp add: addHealthcheckerDst_def case_prod_beta Let_def split: option.split)
  show "attached (snd (delHealthcheckerDst E somark lb)) = attached lb"
    by (simp add: delHealthcheckerDst_def case_prod_beta Let_def split: option.split)
qed

lemma attached_with_lb [simp]: "attached (svc_lb (snd (with_lb s r))) = attached (snd r)"
  by (simp add: with_lb_def case_prod_beta)

lemma attached_request: "attached (svc_lb (snd (thrift_handle V rq s))) = attached (svc_lb s)"
  by (cases rq) (simp_all add: thrift_defs addRealForVip_def delRealForVip_def getStatsForVip_def getLruStats_def getLruMissStats_def
      getLruFallbackStats_def getIcmpTooBigStats_def Let_def split: option.split)

lemma attached_request_grpc: "attached (svc_lb (snd (grpc_handle V rq s))) = attached (svc_lb s)"
  using attached_request [of V rq s] by (simp add: grpc_payload)

section \<open>The life of a server\<close>

text \<open>What the servers promise: up until somebody asks, then waiting until the delay is over, then down for good.\<close>

datatype phase = Up | Asked | Waiting nat | Down

fun life_step :: "nat \<Rightarrow> event \<Rightarrow> phase \<Rightarrow> phase" where
  "life_step w Signal Up = Asked"
| "life_step w Loop Asked = Waiting w"
| "life_step w (Tick d) (Waiting n) = (if n \<le> d then Down else Waiting (n - d))"
| "life_step w e p = p"

lemma life_step_idle [simp]: "life_step w (Rpc rq) p = p" "life_step w (Packet B H slots x) p = p"
  by (cases p; simp)+

definition life :: "nat \<Rightarrow> event list \<Rightarrow> phase \<Rightarrow> phase" where
  "life w es p = fold (life_step w) es p"

lemma life_simps [simp]: "life w [] p = p" "life w (e # es) p = life w es (life_step w e p)"
  "life w (es @ fs) p = life w fs (life w es p)"
  by (simp_all add: life_def)

lemma life_down [simp]: "life w es Down = Down"
  by (induction es) simp_all

lemma life_up: "Signal \<notin> set es \<Longrightarrow> life w es Up = Up"
proof (induction es)
  case (Cons e es)
  then show ?case by (cases e) auto
qed simp

fun elapsed :: "event list \<Rightarrow> nat" where
  "elapsed [] = 0"
| "elapsed (Tick d # es) = d + elapsed es"
| "elapsed (e # es) = elapsed es"

text \<open>It goes down once the delay is over, and not before.\<close>

lemma life_goes_down: "n \<le> elapsed es \<Longrightarrow> Tick d \<in> set es \<Longrightarrow> life w es (Waiting n) = Down"
proof (induction es arbitrary: n d)
  case (Cons e es)
  show ?case
  proof (cases e)
    case (Tick x)
    show ?thesis
    proof (cases "n \<le> x")
      case False
      then have "n - x \<le> elapsed es" "elapsed es \<noteq> 0" using Cons.prems(1) Tick by auto
      moreover from this(2) have "\<exists>d. Tick d \<in> set es" by (induction es rule: elapsed.induct) auto
      ultimately show ?thesis using Cons.IH False Tick by auto
    qed (simp add: Tick)
  qed (use Cons in auto)
qed simp

lemma life_waits: "elapsed es < n \<Longrightarrow> life w es (Waiting n) \<noteq> Down"
  by (induction es arbitrary: n rule: elapsed.induct) (auto simp: less_diff_conv)

lemma life_asked_waits: "elapsed es < w \<Longrightarrow> life w es Asked \<noteq> Down"
proof (induction es)
  case (Cons e es)
  then show ?case using life_waits [of es w w] by (cases e) auto
qed simp

text \<open>Once asked, never up again, and never more than the delay to wait.\<close>

definition asked :: "nat \<Rightarrow> phase \<Rightarrow> bool" where
  "asked w p \<longleftrightarrow> p \<noteq> Up \<and> (\<forall>n. p = Waiting n \<longrightarrow> n \<le> w)"

lemma life_asked: "asked w p \<Longrightarrow> asked w (life w es p)"
proof (induction es arbitrary: p)
  case (Cons e es)
  have "asked w (life_step w e p)" using Cons.prems by (cases e; cases p) (auto simp: asked_def)
  then show ?case using Cons.IH by simp
qed simp

lemma life_up_bounded: "p = Up \<or> asked w p \<Longrightarrow> life w es p = Up \<or> asked w (life w es p)"
proof (induction es arbitrary: p)
  case (Cons e es)
  have "life_step w e p = Up \<or> asked w (life_step w e p)" using Cons.prems by (cases e; cases p) (auto simp: asked_def)
  then show ?case using Cons.IH by simp
qed simp

lemma life_ends:
  assumes "w \<le> elapsed es3" "Tick d \<in> set es3"
  shows "life w (es1 @ Signal # es2 @ Loop # es3) Up = Down"
proof -
  have "asked w (life_step w Signal (life w es1 Up))"
    using life_up_bounded [of Up w es1] by (cases "life w es1 Up") (auto simp: asked_def)
  then have "asked w (life w es2 (life_step w Signal (life w es1 Up)))" (is "asked w ?p") by (rule life_asked)
  then show ?thesis using life_goes_down [OF _ assms(2)] assms(1) by (cases ?p) (auto simp: asked_def)
qed

text \<open>The state a server is in, and what holds in it: there is never more than one function queued, one timer set or one call made.\<close>

definition phase_of :: "'r server \<Rightarrow> phase" where
  "phase_of s = (if stops s > 0 then Down else if timers s \<noteq> [] then Waiting (hd (timers s) - now s)
     else if queued s > 0 then Asked else Up)"

definition server_ok :: "'r server \<Rightarrow> bool" where
  "server_ok s \<longleftrightarrow> queued s + length (timers s) + stops s = (if shutdownScheduled s then 1 else 0) \<and> (\<forall>t \<in> set (timers s). now s \<le> t)"

lemma same_phase [simp]:
  "server_ok (s\<lparr>svc := x\<rparr>) = server_ok s" "phase_of (s\<lparr>svc := x\<rparr>) = phase_of s"
  "server_ok (s\<lparr>answers := rs\<rparr>) = server_ok s" "phase_of (s\<lparr>answers := rs\<rparr>) = phase_of s"
  by (simp_all add: server_ok_def phase_of_def)

text \<open>What a service and a signal handler have to promise to make a server: requests leave the programs attached, the first signal
  hands one function to the event loop, and the other signals are ignored.\<close>

locale running_server =
  fixes handle :: "request \<Rightarrow> KatranService \<Rightarrow> 'r answer" and received :: "'r server \<Rightarrow> 'r server"
  assumes request_keeps: "attached (svc_lb (snd (handle rq t))) = attached (svc_lb t)"
    and first_signal: "\<not> shutdownScheduled s \<Longrightarrow> received s = s\<lparr>queued := queued s + 1, shutdownScheduled := True\<rparr>"
    and other_signal: "shutdownScheduled s \<Longrightarrow> received s = s"
begin

lemma one_timer: "server_ok s \<Longrightarrow> timers s = [] \<or> (\<exists>t. timers s = [t] \<and> queued s = 0 \<and> stops s = 0 \<and> now s \<le> t)"
  by (cases "timers s" rule: remdups_adj.cases) (auto simp: server_ok_def split: if_splits)

lemma step_simulates:
  assumes "server_ok s" "server_step handle received wait e s = Inr t"
  shows "server_ok t" "phase_of t = life_step (wait (delay s)) e (phase_of s)" "delay t = delay s"
    "attached (svc_lb (svc t)) = attached (svc_lb (svc s))"
proof -
  have "server_ok t \<and> phase_of t = life_step (wait (delay s)) e (phase_of s) \<and> delay t = delay s \<and>
    attached (svc_lb (svc t)) = attached (svc_lb (svc s))"
  proof (cases e)
    case (Rpc rq)
    then show ?thesis using assms request_keeps [of rq "svc s"]
      by (auto split: if_splits prod.splits sum.splits)
  next
    case (Packet B H slots p)
    then show ?thesis using assms by (auto simp: Let_def split: option.splits)
  next
    case Signal
    then show ?thesis using assms first_signal [of s] other_signal [of s]
      by (cases "shutdownScheduled s") (auto simp: server_ok_def phase_of_def)
  next
    case Loop
    then show ?thesis using assms(2) one_timer [OF assms(1)] assms(1) by (cases "queued s = 0") (auto simp: server_ok_def phase_of_def split: if_splits)
  next
    case (Tick d)
    from one_timer [OF assms(1)] show ?thesis
    proof
      assume "timers s = []"
      then show ?thesis using assms Tick by (auto simp: server_ok_def phase_of_def Let_def split: if_splits)
    next
      assume "\<exists>t. timers s = [t] \<and> queued s = 0 \<and> stops s = 0 \<and> now s \<le> t"
      then show ?thesis using assms Tick by (auto simp: server_ok_def phase_of_def Let_def split: if_splits)
    qed
  qed
  then show "server_ok t" "phase_of t = life_step (wait (delay s)) e (phase_of s)" "delay t = delay s"
    "attached (svc_lb (svc t)) = attached (svc_lb (svc s))" by blast+
qed

lemma run_simulates:
  "server_run handle received wait es s = Inr t \<Longrightarrow> server_ok s \<Longrightarrow>
   server_ok t \<and> phase_of t = life (wait (delay s)) es (phase_of s) \<and> attached (svc_lb (svc t)) = attached (svc_lb (svc s))"
proof (induction es arbitrary: s)
  case (Cons e es)
  then show ?case using step_simulates [of s wait e] by (auto split: sum.splits)
qed simp

end

interpretation thrift_server: running_server "thrift_handle V" thrift_signalReceived
  by unfold_locales (simp_all add: attached_request thrift_signalReceived_def)

interpretation grpc_server: running_server "grpc_handle V" grpc_signalReceived
  by unfold_locales (simp_all add: attached_request_grpc grpc_signalReceived_def)

section \<open>From the start to the end of main\<close>

lemma attached_loading [simp]:
  "attached (snd (must E e f lb)) = attached lb" "attached (lb\<lparr>lruMapsFd := l\<rparr>) = attached lb" "attached (lb\<lparr>progsLoaded := b\<rparr>) = attached lb"
  "attached (featureDiscovering E lb) = attached lb"
proof -
  show "attached (snd (must E e f lb)) = attached lb" by (simp add: must_def case_prod_beta)
qed (simp_all add: attached_def featureDiscovering_def Let_def)

lemma attached_and_then [simp]: "(\<And>lb. attached (snd (f lb)) = attached lb) \<Longrightarrow> attached (snd (and_then m f)) = attached (snd m)"
  by (auto simp: and_then_def split: prod.split sum.split)

lemma attached_lrus [simp]: "attached (snd (create_lrus E cores lb)) = attached lb" "attached (snd (attach_lrus E cores lb)) = attached lb"
  by (induction cores arbitrary: lb) (simp_all add: createLruMap_def)

lemma attached_loading_parts [simp]:
  "attached (snd (write_src E w idx addr lb)) = attached lb"
  "attached (snd (initLrus E lb)) = attached lb" "attached (snd (initialSanityChecking E lb)) = attached lb"
  "attached (snd (attachLrus E lb)) = attached lb" "attached (snd (setupGueEnvironment E lb)) = attached lb"
  "attached (snd (setupHcEnvironment E lb)) = attached lb" "attached (snd (enableRecirculation E lb)) = attached lb"
  "attached (detach_main E lb) = attached lb"
  by (simp_all add: write_src_def initLrus_def initialSanityChecking_def attachLrus_def setupGueEnvironment_def setupHcEnvironment_def
      enableRecirculation_def detach_main_def createLruMap_def Let_def split: option.split)

lemma attached_load: "attached (snd (loadBpfProgs E lb)) = attached lb"
  by (simp add: loadBpfProgs_def Let_def)

lemma must_all_last:
  "must_all [f, g, h] lb = (Inr u, lb') \<Longrightarrow> attached (snd (f lb)) = attached lb \<Longrightarrow> (\<And>x. attached (snd (g x)) = attached x) \<Longrightarrow>
   \<exists>x. h x = (Inr u, lb') \<and> attached x = attached lb"
  by (auto simp: and_then_def split: prod.splits sum.splits) (metis snd_conv)

lemma attach_sets: "attachBpfProgs E lb = (Inr u, lb') \<Longrightarrow> attached lb' = (config lb, standalone lb, True)"
  by (auto simp: attachBpfProgs_def Let_def case_prod_beta simp del: must_all.simps split: if_splits dest!: must_all_last)
    (simp_all add: attached_def)

lemma new_attached:
  assumes "KatranLb_new E junk cfg k = Inr lb"
  shows "attached lb = attached (KatranLb_fields cfg k)"
  using assms by (auto simp: KatranLb_new_def resolve_if_def set_ctlValues_def Let_def split: if_splits sum.splits)

lemma service_started:
  assumes "KatranSimpleServiceHandler_new V junk cfg k = Inr s"
  shows "attached (svc_lb s) = (cfg\<lparr>hcInterface := (if hcInterface cfg = [] then mainInterface cfg else hcInterface cfg)\<rparr>, rootMapPath cfg = [], True)"
proof -
  obtain lb0 lb1 u u' where new: "KatranLb_new (lb_env V) junk cfg k = Inr lb0" and load: "loadBpfProgs (lb_env V) lb0 = (Inr u, lb1)"
    and attach: "attachBpfProgs (lb_env V) lb1 = (Inr u', svc_lb s)"
    using assms by (auto simp: KatranSimpleServiceHandler_new_def split: sum.splits prod.splits)
  have "attached lb1 = attached (KatranLb_fields cfg k)" using new_attached [OF new] attached_load [of "lb_env V" lb0] load by simp
  with attach_sets [OF attach] show ?thesis by (simp add: attached_def KatranLb_fields_def)
qed

lemma destroy_detaches:
  assumes "all_calls_ok E" "\<not> testing (config lb)" "progsAttached lb"
  shows "if standalone lb then \<not> xdp_attached (KatranLb_destroy E lb) else root_array (KatranLb_destroy E lb) (rootMapPos (config lb)) = None"
    "enableHc (config lb) \<Longrightarrow> \<not> hc_attached (KatranLb_destroy E lb)"
  using assms by (auto simp: KatranLb_destroy_def detach_main_def bpf_call_def hash_del_def all_calls_ok_def Let_def split: option.splits)

text \<open>Both programs, seen through the life they follow.\<close>

lemma config_of_flags [simp]:
  "testing (thrift_config parse F cores numa) = False" "rootMapPath (thrift_config parse F cores numa) = fl_map_path F"
  "rootMapPos (thrift_config parse F cores numa) = of_int (fl_prog_pos F)" "enableHc (thrift_config parse F cores numa) = fl_hc_forwarding F"
  "testing (grpc_config parse F cores numa) = False" "rootMapPath (grpc_config parse F cores numa) = fl_map_path F"
  "rootMapPos (grpc_config parse F cores numa) = of_int (fl_prog_pos F)" "enableHc (grpc_config parse F cores numa) = fl_hc_forwarding F"
  by (simp_all add: thrift_config_def grpc_config_def KatranConfig_default_def)

lemma fresh_server [simp]:
  "server_ok (KatranSimpleServiceSignalHandler s d)" "phase_of (KatranSimpleServiceSignalHandler s d) = Up"
  "delay (KatranSimpleServiceSignalHandler s d) = d" "svc (KatranSimpleServiceSignalHandler s d) = s"
  "server_ok (GrpcSignalHandler s d)" "phase_of (GrpcSignalHandler s d) = Up" "delay (GrpcSignalHandler s d) = d" "svc (GrpcSignalHandler s d) = s"
  by (simp_all add: server_ok_def phase_of_def KatranSimpleServiceSignalHandler_def GrpcSignalHandler_def)

text \<open>\<open>main\<close> returns exactly when the server is down, and what it leaves then.\<close>

lemma returns_when_down:
  assumes "attached (svc_lb (svc s)) = (cfg, path = [], True)" "\<not> testing cfg" "rootMapPos cfg = place" "enableHc cfg = hcs" "phase_of s = p"
  shows "(main_returns E s \<noteq> None \<longleftrightarrow> p = Down) \<and> (\<forall>k. main_returns E s = Some k \<and> all_calls_ok E \<longrightarrow>
      (path = [] \<longrightarrow> \<not> xdp_attached k) \<and> (path \<noteq> [] \<longrightarrow> root_array k place = None) \<and> (hcs \<longrightarrow> \<not> hc_attached k))"
  using assms destroy_detaches [of E "svc_lb (svc s)"] by (auto simp: main_returns_def phase_of_def attached_def split: if_splits)

lemma main_follows_life:
  assumes "thrift_main L V junk F k es = Inr r \<or> grpc_main L V junk F k es = Inr r"
  shows "(r \<noteq> None \<longleftrightarrow> life (after_ms L (fl_shutdown_delay F)) es Up = Down) \<and>
    (\<forall>k'. r = Some k' \<and> all_calls_ok (lb_env V) \<longrightarrow>
      (fl_map_path F = [] \<longrightarrow> \<not> xdp_attached k') \<and> (fl_map_path F \<noteq> [] \<longrightarrow> root_array k' (of_int (fl_prog_pos F)) = None) \<and>
      (fl_hc_forwarding F \<longrightarrow> \<not> hc_attached k'))"
  using assms
proof
  assume "thrift_main L V junk F k es = Inr r"
  then obtain cores numa h s where new: "KatranSimpleServiceHandler_new V junk (thrift_config (parse_mac V) F cores numa) k = Inr h"
    and run: "server_run (thrift_handle V) thrift_signalReceived (after_ms L) es (KatranSimpleServiceSignalHandler h (fl_shutdown_delay F)) = Inr s"
    and r: "r = main_returns (lb_env V) s"
    by (auto simp: thrift_main_def split: option.splits sum.splits)
  have sim: "phase_of s = life (after_ms L (fl_shutdown_delay F)) es Up" "attached (svc_lb (svc s)) = attached (svc_lb h)"
    using thrift_server.run_simulates [OF run] by simp_all
  show ?thesis unfolding r
    by (rule returns_when_down [OF trans [OF sim(2) service_started [OF new], unfolded config_of_flags] _ _ _ sim(1)]) simp_all
next
  assume "grpc_main L V junk F k es = Inr r"
  then obtain cores numa h s where "KatranGrpcService_new V junk (grpc_config (parse_mac V) F cores numa) k = Inr h"
    and run: "server_run (grpc_handle V) grpc_signalReceived (after_ms L) es (GrpcSignalHandler h (fl_shutdown_delay F)) = Inr s"
    and r: "r = main_returns (lb_env V) s"
    by (auto simp: grpc_main_def RunServer_def split: option.splits sum.splits)
  then have new: "KatranSimpleServiceHandler_new V junk (grpc_config (parse_mac V) F cores numa) k = Inr h"
    by (simp add: KatranGrpcService_new_def KatranSimpleServiceHandler_new_def)
  have sim: "phase_of s = life (after_ms L (fl_shutdown_delay F)) es Up" "attached (svc_lb (svc s)) = attached (svc_lb h)"
    using grpc_server.run_simulates [OF run] by simp_all
  show ?thesis unfolding r
    by (rule returns_when_down [OF trans [OF sim(2) service_started [OF new], unfolded config_of_flags] _ _ _ sim(1)]) simp_all
qed

text \<open>C36. A signal ends a server once and after the delay. For a server that started and whose handlers all come back (one that adds a real
  may never, when the probe of its ring does not end), whatever requests, packets and further signals come, answered with an exception or not, and whether it
  is the thrift or the gRPC program: without a signal \<open>main\<close> does not return; it does not return before the delay has passed since
  the first signal, however often the signal is repeated; and once the event loop has run and the delay has passed it has
  returned. If all system calls succeed (a detach that fails is only logged), it has then left no program of the
  balancer in the kernel, neither on the interface or in the root array nor for health checks.\<close>

theorem signalled_server_ends:
  assumes "thrift_main L V junk F k es = Inr r \<or> grpc_main L V junk F k es = Inr r"
  shows "(Signal \<notin> set es \<longrightarrow> r = None) \<and>
    (\<forall>es1 es2. es = es1 @ Signal # es2 \<and> Signal \<notin> set es1 \<and> elapsed es2 < after_ms L (fl_shutdown_delay F) \<longrightarrow> r = None) \<and>
    (\<forall>es1 es2 es3 d. es = es1 @ Signal # es2 @ Loop # es3 \<and> after_ms L (fl_shutdown_delay F) \<le> elapsed es3 \<and> Tick d \<in> set es3 \<longrightarrow> r \<noteq> None) \<and>
    (\<forall>k'. r = Some k' \<and> all_calls_ok (lb_env V) \<longrightarrow>
      (fl_map_path F = [] \<longrightarrow> \<not> xdp_attached k') \<and> (fl_map_path F \<noteq> [] \<longrightarrow> root_array k' (of_int (fl_prog_pos F)) = None) \<and>
      (fl_hc_forwarding F \<longrightarrow> \<not> hc_attached k'))"
proof -
  let ?w = "after_ms L (fl_shutdown_delay F)"
  have "life ?w (es1 @ Signal # es2) Up \<noteq> Down" if "Signal \<notin> set es1" "elapsed es2 < ?w" for es1 es2
    using life_up [OF that(1)] life_asked_waits [OF that(2)] by simp
  then show ?thesis
    using main_follows_life [OF assms] life_up [of es ?w] life_ends [of ?w] by auto
qed

section \<open>Builds with GUE\<close>

lemma must_all_reaches:
  "must_all (fs @ (\<lambda>lb. (Inr (), g lb)) # h # hs) lb = (Inr u, lb') \<Longrightarrow>
   (\<And>f x. f \<in> set fs \<Longrightarrow> attached (snd (f x)) = attached x) \<Longrightarrow> \<exists>y. attached y = attached lb \<and> fst (h (g y)) = Inr ()"
proof (induction fs arbitrary: lb)
  case Nil
  then show ?case by (auto simp: and_then_def split: prod.splits sum.splits)
next
  case (Cons f fs)
  obtain x v where f: "f lb = (Inr v, x)" and rest: "must_all (fs @ (\<lambda>lb. (Inr (), g lb)) # h # hs) x = (Inr u, lb')"
    using Cons.prems(1) by (auto simp: and_then_def split: prod.splits sum.splits)
  have "attached x = attached lb" using Cons.prems(2) [of f lb] f by simp
  then show ?case using Cons.IH [OF rest] Cons.prems(2) by auto
qed

lemma load_needs_src:
  assumes load: "loadBpfProgs E lb = (Inr u, lb')" and "0 \<le> map_fd E ''pckt_srcs''" "\<not> disableForwarding (config lb)"
  shows "katranSrcV4 (config lb) \<noteq> [] \<or> katranSrcV6 (config lb) \<noteq> []"
proof -
  let ?step = "\<lambda>c f lb. if c lb then f lb else (Inr (), lb)"
  obtain hs where "must_all ([?step (\<lambda>lb. True) (initLrus E), ?step (\<lambda>lb. True) (must E invalid_argument Some),
      ?step (\<lambda>_. enableHc (config lb)) (must E invalid_argument Some), initialSanityChecking E] @ (\<lambda>lb. (Inr (), featureDiscovering E lb)) #
      ?step (\<lambda>lb. gueEncap (features lb)) (setupGueEnvironment E) # hs) lb = (Inr u, lb')"
    using load assms(3) by (auto simp: loadBpfProgs_def Let_def)
  then have "\<exists>y. attached y = attached lb \<and>
      fst (?step (\<lambda>lb. gueEncap (features lb)) (setupGueEnvironment E) (featureDiscovering E y)) = Inr ()"
    by (rule must_all_reaches) auto
  then show ?thesis using assms(2) by (auto simp: attached_def featureDiscovering_def setupGueEnvironment_def Let_def split: if_splits)
qed

text \<open>C37. The example servers cannot run a balancer that is built for GUE: such a program has the map of source addresses, loading it
  needs a source address in the configuration, and neither command line has an option for one. So no flags, no kernel and no events
  bring the thrift or the gRPC server up.\<close>

theorem gue_build_never_starts:
  assumes "0 \<le> map_fd (lb_env V) ''pckt_srcs''"
  shows "(\<forall>r. thrift_main L V junk F k es \<noteq> Inr r) \<and> (\<forall>r. grpc_main L V junk F k es \<noteq> Inr r)"
proof -
  have "KatranSimpleServiceHandler_new V junk cfg k \<noteq> Inr h" if "katranSrcV4 cfg = []" "katranSrcV6 cfg = []" "\<not> disableForwarding cfg" for cfg h
  proof
    assume "KatranSimpleServiceHandler_new V junk cfg k = Inr h"
    then obtain lb0 u lb1 where new: "KatranLb_new (lb_env V) junk cfg k = Inr lb0" and load: "loadBpfProgs (lb_env V) lb0 = (Inr u, lb1)"
      by (auto simp: KatranSimpleServiceHandler_new_def split: sum.splits prod.splits)
    have "katranSrcV4 (config lb0) = []" "katranSrcV6 (config lb0) = []" "\<not> disableForwarding (config lb0)"
      using new_attached [OF new] that by (simp_all add: attached_def KatranLb_fields_def)
    with load_needs_src [OF load assms] show False by simp
  qed
  note thrift = this
  then have grpc: "KatranGrpcService_new V junk cfg k \<noteq> Inr h" if "katranSrcV4 cfg = []" "katranSrcV6 cfg = []" "\<not> disableForwarding cfg" for cfg h
    using that by (simp add: KatranGrpcService_new_def KatranSimpleServiceHandler_new_def)
  have "katranSrcV4 (thrift_config p F cores numa) = []" "katranSrcV6 (thrift_config p F cores numa) = []" "\<not> disableForwarding (thrift_config p F cores numa)"
    "katranSrcV4 (grpc_config p F cores numa) = []" "katranSrcV6 (grpc_config p F cores numa) = []" "\<not> disableForwarding (grpc_config p F cores numa)" for p cores numa
    by (simp_all add: thrift_config_def grpc_config_def KatranConfig_default_def)
  then show ?thesis using thrift grpc by (auto simp: thrift_main_def grpc_main_def RunServer_def split: option.splits sum.splits)
qed

section \<open>An example\<close>

definition ex_lib :: server_lib where
  "ex_lib = \<lparr>split_commas = (\<lambda>line. [line]), to_int32 = (\<lambda>_. None), after_ms = nat\<rparr>"

definition ex_plain_env :: service_env where
  "ex_plain_env = ex_service_env\<lparr>lb_env := ex_env\<lparr>map_fd := (\<lambda>name. if name = ''pckt_srcs'' then -1 else 1)\<rparr>\<rparr>"

lemma ex_plain_started:
  "\<exists>h. KatranSimpleServiceHandler_new ex_plain_env \<lparr>ctl_u64 = 0\<rparr> (thrift_config (parse_mac ex_plain_env) (default_flags\<lparr>fl_hc_forwarding := False\<rparr>) [] []) ex_kernel = Inr h"
  by (simp add: KatranSimpleServiceHandler_new_def KatranLb_new_def resolve_if_def ex_plain_env_def ex_service_env_def
    thrift_config_def default_flags_def KatranConfig_default_def convertMacToUint_def KatranLb_fields_def set_ctlValues_def
    loadBpfProgs_def initLrus_def createLruMap_def must_def bpf_call_def and_then_def initialSanityChecking_def featureDiscovering_def
    enableRecirculation_def attachLrus_def attachBpfProgs_def set_ctl_entry_def ctlValue_def on_dp_def array_set_def ex_env_def ex_kernel_def Let_def)

theorem signalled_server_ends_witness:
  "\<exists>k'. thrift_main ex_lib ex_plain_env \<lparr>ctl_u64 = 0\<rparr> (default_flags\<lparr>fl_hc_forwarding := False\<rparr>) ex_kernel
      [Signal, Signal, Loop, Tick 6000, Tick 6000] = Inr (Some k') \<and> \<not> xdp_attached k'"
proof -
  let ?F = "default_flags\<lparr>fl_hc_forwarding := False\<rparr>" and ?es = "[Signal, Signal, Loop, Tick 6000, Tick 6000]"
  obtain r where r: "thrift_main ex_lib ex_plain_env \<lparr>ctl_u64 = 0\<rparr> ?F ex_kernel ?es = Inr r"
    using ex_plain_started by (auto simp: thrift_main_def parseIntLine_def default_flags_def)
  have "?es = [] @ Signal # [Signal] @ Loop # [Tick 6000, Tick 6000]" "after_ms ex_lib (fl_shutdown_delay ?F) \<le> elapsed [Tick 6000, Tick 6000]"
    by (simp_all add: ex_lib_def default_flags_def)
  then have "r \<noteq> None" using signalled_server_ends [OF disjI1 [OF r]] by (meson list.set_intros(1))
  then obtain k' where "r = Some k'" by blast
  moreover have "all_calls_ok (lb_env ex_plain_env)" by (simp add: all_calls_ok_def ex_plain_env_def ex_env_def)
  ultimately show ?thesis using signalled_server_ends [OF disjI1 [OF r]] r by (auto simp: default_flags_def)
qed

theorem gue_build_never_starts_witness:
  "map_fd (lb_env ex_service_env) ''pckt_srcs'' = 1 \<and> (\<forall>r. thrift_main ex_lib ex_service_env \<lparr>ctl_u64 = 0\<rparr> default_flags ex_kernel [] \<noteq> Inr r)"
  using gue_build_never_starts [of ex_service_env ex_lib "\<lparr>ctl_u64 = 0\<rparr>" default_flags ex_kernel "[]"] by (simp add: ex_service_env_def ex_env_def)

end
