(* ===== verification/Tester.thy ===== *)
theory Tester
  imports "HOL-Library.Monad_Syntax" Server Bpf_Adapter Simulator Monitor Healthcheck
begin

text \<open>
  The test framework of the data plane: \<open>src/katran/lib/testing/Base64Helpers.cpp\<close>, the rest of \<open>PcapParser.cpp\<close>,
  \<open>BpfTester.cpp\<close>, the data of \<open>KatranTestProvision.cpp\<close> and the checks of \<open>katran_tester.cpp\<close>. The kernel that runs the program
  under test is a parameter \<open>run_prog\<close>, which the theorems take to be the models of the balancer and of the health checker.
  The log is what the tests are about, so every function returns what it logs.
\<close>

section \<open>Base64\<close>

text \<open>The iterators of boost: \<open>to64\<close> regroups bytes by six bits and encodes them without padding, \<open>from64\<close> decodes a text in which
  an equals sign stands for zero bits, with \<open>None\<close> for its exception.\<close>

record b64_lib =
  to64 :: "u8 list \<Rightarrow> string"
  from64 :: "string \<Rightarrow> u8 list option"

definition base64Encode :: "b64_lib \<Rightarrow> u8 list \<Rightarrow> string" where
  "base64Encode L buf =
     (let output_size = (length buf * 8 + 5) div 6;
          encoded = to64 L buf @ drop (length (to64 L buf)) (replicate output_size (CHR ''*''))
      in encoded @ replicate ((3 - length buf mod 3) mod 3) (CHR ''=''))"

text \<open>The loop over the text from its end; on a text of equals signs only it reads in front of the text.\<close>

fun strip_padding :: "string \<Rightarrow> nat \<Rightarrow> u8 list \<Rightarrow> u8 list option" where
  "strip_padding [] padded_chars decoded = None"
| "strip_padding (c # cs) padded_chars decoded =
     (if c \<noteq> CHR ''='' then Some (if padded_chars \<le> length decoded then take (length decoded - padded_chars) decoded else decoded)
      else strip_padding cs (padded_chars + 1) decoded)"

definition base64Decode :: "b64_lib \<Rightarrow> string \<Rightarrow> u8 list option" where
  "base64Decode L encoded = (case from64 L encoded of None \<Rightarrow> None | Some decoded \<Rightarrow> strip_padding (rev encoded) 0 decoded)"

section \<open>Packets of files\<close>

definition getPacketFromPcapBase64 :: "b64_lib \<Rightarrow> PcapParser \<Rightarrow> string \<times> PcapParser" where
  "getPacketFromPcapBase64 L p = (case getPacketFromPcap p of
       (Some buf, p) \<Rightarrow> (base64Encode L buf, p)
     | (None, p) \<Rightarrow> ([], p))"

text \<open>The file a parser writes. \<open>wr\<close> tells for the bytes of the file and the bytes to write whether \<open>writeFull\<close> fails, and after how
  many bytes; \<open>writeFull\<close> returns the number of bytes it wrote, or -1.\<close>

record pcap_out =
  firstWrite :: bool
  out_bytes :: "u8 list"

type_synonym file_writer = "u8 list \<Rightarrow> u8 list \<Rightarrow> nat option"

definition writeFull :: "file_writer \<Rightarrow> u8 list \<Rightarrow> pcap_out \<Rightarrow> int \<times> pcap_out" where
  "writeFull wr bs f = (case wr (out_bytes f) bs of
       None \<Rightarrow> (int (length bs), f\<lparr>out_bytes := out_bytes f @ bs\<rparr>)
     | Some n \<Rightarrow> (-1, f\<lparr>out_bytes := out_bytes f @ take n bs\<rparr>))"

definition parser_kSnapLen :: u32 where [simp]: "parser_kSnapLen = 65535"

definition writePacket_hdr :: "file_writer \<Rightarrow> pcap_out \<Rightarrow> bool \<times> pcap_out" where
  "writePacket_hdr wr f =
     (if firstWrite f then
        (case writeFull wr (enc_pcap_hdr \<lparr>magic_number = kPcapWriterMagic, version_major = kVersionMajor, version_minor = kVersionMinor,
            thiszone = kGmt, sigfigs = kAccuracy, hdr_snaplen = parser_kSnapLen, network = kEthernet\<rparr>) (f\<lparr>firstWrite := False\<rparr>) of
           (res, f) \<Rightarrow> (res \<noteq> 0, f))
      else (True, f))"

definition parser_writePacket :: "file_writer \<Rightarrow> u64 \<Rightarrow> u8 list \<Rightarrow> pcap_out \<Rightarrow> bool \<times> pcap_out" where
  "parser_writePacket wr unix_usec p f =
     (let len = of_nat (length p) :: u32 in
      case writePacket_hdr wr f of
        (False, f) \<Rightarrow> (False, f)
      | (True, f) \<Rightarrow>
          (let now_sec = ucast (unix_usec div 1000000) :: u32;
               now_usec = ucast (unix_usec - ucast (now_sec * 1000000)) :: u32
           in case writeFull wr (enc_pcaprec_hdr \<lparr>ts_sec = now_sec, ts_usec = now_usec, incl_len = len, orig_len = len\<rparr>) f of
                (res, f) \<Rightarrow> if res = 0 then (False, f) else (case writeFull wr p f of (res, f) \<Rightarrow> (res \<noteq> 0, f))))"

section \<open>BpfTester\<close>

record TesterConfig =
  outputData :: "(string \<times> string) list"
  inputData :: "(string \<times> string) list"
  outputFileName :: string
  inputFileName :: string
  bpfProgFd :: int

record 'k BpfTester =
  tester_config :: TesterConfig
  input_file :: PcapParser
  output_file :: pcap_out
  under_test :: 'k

text \<open>\<open>run_prog\<close> is \<open>bpf_prog_test_run_xattr\<close> on a kernel.\<close>

record 'k tester_lib =
  b64 :: b64_lib
  run_prog :: "'k \<Rightarrow> int \<Rightarrow> int \<Rightarrow> u8 list \<Rightarrow> u8 list \<Rightarrow> (int \<times> test_run) \<times> 'k"
  out_wr :: file_writer
  clock_usec :: u64

definition kTestRepeatCount :: int where [simp]: "kTestRepeatCount = 1"
definition kNanosecInSec :: u32 where [simp]: "kNanosecInSec = 1000000000"

definition kXdpCodes :: "int \<rightharpoonup> string" where
  "kXdpCodes = map_of [(0, ''XDP_ABORTED''), (1, ''XDP_DROP''), (2, ''XDP_PASS''), (3, ''XDP_TX'')]"

definition kTcCodes :: "int \<rightharpoonup> string" where
  "kTcCodes = map_of [(-1, ''TC_ACT_UNSPEC''), (0, ''TC_ACT_OK''), (1, ''TC_ACT_RECLASSIFY''), (2, ''TC_ACT_SHOT''), (3, ''TC_ACT_PIPE''),
     (4, ''TC_ACT_STOLEN''), (5, ''TC_ACT_QUEUED''), (6, ''TC_ACT_REPEAT''), (7, ''TC_ACT_REDIRECT'')]"

definition BpfTester_new :: "TesterConfig \<Rightarrow> u8 list \<Rightarrow> 'k \<Rightarrow> 'k BpfTester" where
  "BpfTester_new cfg input k = \<lparr>tester_config = cfg, input_file = \<lparr>firstRead = True, parser_snaplen = 0, rest = input\<rparr>,
     output_file = \<lparr>firstWrite = True, out_bytes = []\<rparr>, under_test = k\<rparr>"

definition writePcapOutput :: "'k tester_lib \<Rightarrow> u8 list \<Rightarrow> 'k BpfTester \<Rightarrow> 'k BpfTester" where
  "writePcapOutput L buf t =
     (if outputFileName (tester_config t) = [] then t
      else t\<lparr>output_file := snd (parser_writePacket (out_wr L) (clock_usec L) buf (output_file t))\<rparr>)"

definition setBpfProgFd :: "int \<Rightarrow> 'k BpfTester \<Rightarrow> 'k BpfTester" where
  "setBpfProgFd progFd t = t\<lparr>tester_config := (tester_config t)\<lparr>bpfProgFd := progFd\<rparr>\<rparr>"

definition resetTestFixtures :: "(string \<times> string) list \<Rightarrow> (string \<times> string) list \<Rightarrow> 'k BpfTester \<Rightarrow> 'k BpfTester" where
  "resetTestFixtures input output t = t\<lparr>tester_config := (tester_config t)\<lparr>inputData := input, outputData := output\<rparr>\<rparr>"

text \<open>One call of the program under test.\<close>

definition test_once :: "'k tester_lib \<Rightarrow> int \<Rightarrow> int \<Rightarrow> u8 list \<Rightarrow> u8 list \<Rightarrow> 'k BpfTester \<Rightarrow> (int \<times> test_run) \<times> 'k BpfTester" where
  "test_once L progFd repeat data ctx t = (case run_prog L (under_test t) progFd repeat data ctx of (res, k) \<Rightarrow> (res, t\<lparr>under_test := k\<rparr>))"

function print_rest :: "b64_lib \<Rightarrow> PcapParser \<Rightarrow> string list" where
  "print_rest L p = (case getPacketFromPcap p of
       (None, _) \<Rightarrow> []
     | (Some buf, q) \<Rightarrow> if base64Encode L buf = [] then [] else base64Encode L buf # print_rest L q)"
  by auto
termination by (relation "measure (\<lambda>(L, p). length (rest p))") (auto dest: getPacketFromPcap_shorter [OF sym])

declare print_rest.simps [simp del]

definition printPcktBase64 :: "'k tester_lib \<Rightarrow> 'k BpfTester \<Rightarrow> string list" where
  "printPcktBase64 L t = (if inputFileName (tester_config t) = [] then [] else print_rest (b64 L) (input_file t))"

datatype pcap_log = Run_failed nat | Unsupported u32 | Result nat string

lemma input_file_kept [simp]: "input_file (writePcapOutput L buf t) = input_file t"
  by (simp add: writePcapOutput_def)

lemma test_once_input: "test_once L fd n data ctx t = (r, t') \<Longrightarrow> input_file t' = input_file t"
  by (auto simp: test_once_def split: prod.splits)

function test_rest :: "'k tester_lib \<Rightarrow> nat \<Rightarrow> 'k BpfTester \<Rightarrow> pcap_log list \<times> 'k BpfTester" where
  "test_rest L pckt_num t = (case getPacketFromPcap (input_file t) of
       (None, q) \<Rightarrow> ([], t\<lparr>input_file := q\<rparr>)
     | (Some p, q) \<Rightarrow>
         (case test_once L (bpfProgFd (tester_config t)) kTestRepeatCount p [] (t\<lparr>input_file := q\<rparr>) of ((res, attr), t) \<Rightarrow>
            if res < 0 then apfst ((#) (Run_failed pckt_num)) (test_rest L (pckt_num + 1) t)
            else
              let line = (if tr_retval attr > 3 then Unsupported (tr_retval attr)
                    else Result pckt_num (the (kXdpCodes (sint (tr_retval attr)))))
              in apfst ((#) line) (test_rest L (pckt_num + 1) (writePcapOutput L (tr_data_out attr) t))))"
  by auto
termination by (relation "measure (\<lambda>(L, n, t). length (rest (input_file t)))")
    (auto dest!: getPacketFromPcap_shorter [OF sym] test_once_input [OF sym])

declare test_rest.simps [simp del]

definition testPcktsFromPcap :: "'k tester_lib \<Rightarrow> 'k BpfTester \<Rightarrow> pcap_log list \<times> 'k BpfTester" where
  "testPcktsFromPcap L t =
     (if inputFileName (tester_config t) = [] \<or> bpfProgFd (tester_config t) < 0 then ([], t) else test_rest L 1 t)"

text \<open>What is logged of a fixture: its result with its description, or only that the program could not be run.\<close>

datatype verdict = Passed string | Failed_test string | Not_run nat

fun run_fixtures ::
  "'k tester_lib \<Rightarrow> int \<Rightarrow> (int \<rightharpoonup> string) \<Rightarrow> ((string \<times> string) \<times> (string \<times> string) \<times> u8 list) list \<Rightarrow> nat \<Rightarrow> 'k BpfTester
    \<Rightarrow> (verdict list \<times> 'k BpfTester) option" where
  "run_fixtures L progFd codes [] pckt_num t = Some ([], t)"
| "run_fixtures L progFd codes (((input, desc), (expected, code), ctx) # fs) pckt_num t = do {
     input_pckt \<leftarrow> base64Decode (b64 L) input;
     let t = writePcapOutput L input_pckt t;
     let ((res, attr), t) = test_once L progFd kTestRepeatCount input_pckt ctx t;
     (if res < 0 then map_option (apfst ((#) (Not_run pckt_num))) (run_fixtures L progFd codes fs (pckt_num + 1) t)
      else
        let ret_val_str = (case codes (sint (tr_retval attr)) of None \<Rightarrow> ''UNKNOWN'' | Some c \<Rightarrow> c);
            t = writePcapOutput L (tr_data_out attr) t;
            v = (if ret_val_str \<noteq> code then Failed_test desc
                 else if base64Encode (b64 L) (tr_data_out attr) \<noteq> expected then Failed_test desc else Passed desc)
        in map_option (apfst ((#) v)) (run_fixtures L progFd codes fs (pckt_num + 1) t))
   }"

definition runBpfTesterFromFixtures ::
  "'k tester_lib \<Rightarrow> int \<Rightarrow> (int \<rightharpoonup> string) \<Rightarrow> u8 list list \<Rightarrow> nat \<Rightarrow> 'k BpfTester \<Rightarrow> (verdict list \<times> 'k BpfTester) option" where
  "runBpfTesterFromFixtures L progFd retvalTranslation ctxs_in ctx_size t =
     (let ins = inputData (tester_config t); outs = outputData (tester_config t) in
      if ctxs_in \<noteq> [] \<and> (ctx_size = 0 \<or> length ctxs_in \<noteq> length ins) then Some ([], t)
      else if length ins \<noteq> length outs then Some ([], t)
      else run_fixtures L progFd retvalTranslation
        (zip ins (zip outs (if ctxs_in \<noteq> [] then map (take ctx_size) ctxs_in else replicate (length ins) []))) 1 t)"

definition testFromFixture :: "'k tester_lib \<Rightarrow> 'k BpfTester \<Rightarrow> (verdict list \<times> 'k BpfTester) option" where
  "testFromFixture L t = runBpfTesterFromFixtures L (bpfProgFd (tester_config t)) kXdpCodes [] 0 t"

text \<open>The contexts are collected, and an empty vector is passed on.\<close>

definition testClsFromFixture :: "'k tester_lib \<Rightarrow> int \<Rightarrow> u8 list list \<Rightarrow> 'k BpfTester \<Rightarrow> (verdict list \<times> 'k BpfTester) option" where
  "testClsFromFixture L progFd ctxs_in t = (let ctxs = ctxs_in in runBpfTesterFromFixtures L progFd kTcCodes [] 0 t)"

fun perf_fixtures :: "'k tester_lib \<Rightarrow> int \<Rightarrow> (string \<times> string) list \<Rightarrow> nat \<Rightarrow> 'k BpfTester \<Rightarrow> ((nat + string \<times> u32 \<times> u32) list \<times> 'k BpfTester) option" where
  "perf_fixtures L repeat [] pckt_num t = Some ([], t)"
| "perf_fixtures L repeat ((input, desc) # fs) pckt_num t = do {
     input_pckt \<leftarrow> base64Decode (b64 L) input;
     let ((res, attr), t) = test_once L (bpfProgFd (tester_config t)) repeat input_pckt [] t;
     let duration = tr_duration attr;
     (if res < 0 then map_option (apfst ((#) (Inl pckt_num))) (perf_fixtures L repeat fs (pckt_num + 1) t)
      else
        let duration = (if duration = 0 then 1 else duration)
        in map_option (apfst ((#) (Inr (desc, duration, kNanosecInSec div duration)))) (perf_fixtures L repeat fs (pckt_num + 1) t))
   }"

definition testPerfFromFixture :: "'k tester_lib \<Rightarrow> int \<Rightarrow> int \<Rightarrow> 'k BpfTester \<Rightarrow> ((nat + string \<times> u32 \<times> u32) list \<times> 'k BpfTester) option" where
  "testPerfFromFixture L repeat position t =
     (let ins = inputData (tester_config t) in
      perf_fixtures L repeat (if position < 0 \<or> position \<ge> int (length ins) then ins else [ins ! nat position]) 1 t)"

section \<open>Provisioning\<close>

definition kMainInterface :: string where [simp]: "kMainInterface = ''lo''"
definition kV4TunInterface :: string where [simp]: "kV4TunInterface = ''lo''"
definition kV6TunInterface :: string where [simp]: "kV6TunInterface = ''lo''"
definition kDefaultMac :: "u8 list" where [simp]: "kDefaultMac = [0x00, 0x00, 0xDE, 0xAD, 0xBE, 0xAF]"
definition kLocalMac :: "u8 list" where [simp]: "kLocalMac = [0x00, 0xFF, 0xDE, 0xAD, 0xBE, 0xAF]"
definition kMonitorLimit :: u32 where [simp]: "kMonitorLimit = 1024"
definition testing_kDefaultKatranPos :: u32 where [simp]: "testing_kDefaultKatranPos = 8"
definition kVipPort :: u16 where [simp]: "kVipPort = 80"
definition kUdp :: u8 where [simp]: "kUdp = 17"
definition kTcp :: u8 where [simp]: "kTcp = 6"
definition kDefaultWeight :: u32 where [simp]: "kDefaultWeight = 1"
definition kDportHash :: u32 where [simp]: "kDportHash = 8"
definition kQuicVip :: u32 where [simp]: "kQuicVip = 4"
definition kSrcRouting :: u32 where [simp]: "kSrcRouting = 16"

definition kReals :: "string list" where
  "kReals = [''10.0.0.1'', ''10.0.0.2'', ''10.0.0.3'', ''fc00::1'', ''fc00::2'', ''fc00::3'']"

definition kRealStats :: "lb_stats list" where
  "kRealStats = [\<lparr>v1 = 3, v2 = 152\<rparr>, \<lparr>v1 = 7, v2 = 346\<rparr>, \<lparr>v1 = 5, v2 = 291\<rparr>, \<lparr>v1 = 2, v2 = 92\<rparr>, \<lparr>v1 = 1, v2 = 38\<rparr>, \<lparr>v1 = 3, v2 = 156\<rparr>]"

text \<open>A call that throws or does not come back ends the provisioning.\<close>

fun addReals :: "katran_env \<Rightarrow> VipKey \<Rightarrow> string list \<Rightarrow> KatranLb \<Rightarrow> lb_error + KatranLb" where
  "addReals E vip [] lb = Inr lb"
| "addReals E vip (r # rs) lb =
     (case addRealForVip E \<lparr>nr_address = r, nr_weight = kDefaultWeight\<rparr> vip lb of
        (Inl e, _) \<Rightarrow> Inl e
      | (Inr _, lb) \<Rightarrow> addReals E vip rs lb)"

definition addQuicMappings :: "katran_env \<Rightarrow> KatranLb \<Rightarrow> KatranLb" where
  "addQuicMappings E lb =
     (let ids = [1022, 1023, 1025, 1024, 1026, 1027]
      in modifyQuicRealsMapping E ADD (map (\<lambda>i. \<lparr>qr_address = kReals ! i, qr_id = ids ! i\<rparr>) [0..<length kReals]) lb)"

text \<open>A service, its flag and its reals, as \<open>prepareLbData\<close> adds them one after the other; whether the flag is set before the reals
  are added is \<open>early\<close>.\<close>

definition add_test_vip :: "katran_env \<Rightarrow> VipKey \<Rightarrow> u32 \<Rightarrow> bool \<Rightarrow> string list \<Rightarrow> KatranLb \<Rightarrow> lb_error + KatranLb" where
  "add_test_vip E vip flag early rs lb =
     (let lb = snd (addVip E vip 0 lb);
          lb = (if early then snd (modifyVip E vip flag True lb) else lb)
      in map_sum id (\<lambda>lb. if flag \<noteq> 0 \<and> \<not> early then snd (modifyVip E vip flag True lb) else lb) (addReals E vip rs lb))"

definition prepareLbData :: "katran_env \<Rightarrow> KatranLb \<times> KatranMonitor \<Rightarrow> lb_error + KatranLb \<times> KatranMonitor" where
  "prepareLbData E s =
     (let reals4 = [''10.0.0.1'', ''10.0.0.2'', ''10.0.0.3'']; reals6 = [''fc00::1'', ''fc00::2'', ''fc00::3''];
          key = (\<lambda>address port proto. \<lparr>vk_address = address, vk_port = port, vk_proto = proto\<rparr>);
          add = (\<lambda>vip flag early rs r. Sum_Type.case_sum Inl (add_test_vip E vip flag early rs) r)
      in case restartKatranMonitor E kMonitorLimit s of
           None \<Rightarrow> Inl no_return
         | Some (_, lb, mon) \<Rightarrow>
             map_sum id (\<lambda>lb.
                 (snd (addHealthcheckerDst E 3 ''fc00::1'' (snd (addHealthcheckerDst E 2 ''10.0.0.2'' (snd (addHealthcheckerDst E 1 ''10.0.0.1'' lb))))), mon))
               (add (key ''fc00:1::2'' 443 kUdp) kQuicVip True reals6
               (add (key ''10.200.1.5'' 443 kUdp) kQuicVip True reals4
               (map_sum id (addQuicMappings E)
               (add (key ''fc00:1::1'' kVipPort kTcp) 0 False reals6
               (add (key ''10.200.1.3'' kVipPort kTcp) 0 False reals6
               (add (key ''10.200.1.4'' 0 kTcp) kDportHash False reals4
               (add (key ''10.200.1.2'' 0 kTcp) 0 False reals4
               (add (key ''10.200.1.1'' kVipPort kTcp) 0 False reals4
               (add (key ''10.200.1.1'' kVipPort kUdp) 0 False reals4 (Inr lb)))))))))))"

definition prepareOptionalLbData :: "katran_env \<Rightarrow> KatranLb \<Rightarrow> KatranLb" where
  "prepareOptionalLbData E lb =
     (let lb = snd (modifyVip E \<lparr>vk_address = ''10.200.1.1'', vk_port = kVipPort, vk_proto = kUdp\<rparr> kSrcRouting True lb);
          lb = snd (modifyVip E \<lparr>vk_address = ''fc00:1::1'', vk_port = kVipPort, vk_proto = kTcp\<rparr> kSrcRouting True lb);
          lb = snd (addSrcRoutingRule E [''192.168.0.0/17''] ''fc00::2307:1'' lb);
          lb = snd (addSrcRoutingRule E [''192.168.100.0/24''] ''fc00::2307:2'' lb);
          lb = snd (addSrcRoutingRule E [''fc00:2307::/32''] ''fc00::2307:3'' lb);
          lb = snd (addSrcRoutingRule E [''fc00:2307::/64''] ''fc00::2307:4'' lb);
          lb = snd (addSrcRoutingRule E [''fc00:2::/64''] ''fc00::2307:10'' lb)
      in snd (addInlineDecapDst E ''fc00:1404::1'' lb))"

definition preparePerfTestingLbData :: "katran_env \<Rightarrow> KatranLb \<Rightarrow> KatranLb" where
  "preparePerfTestingLbData E lb = fold (\<lambda>dst lb. snd (addInlineDecapDst E dst lb)) kReals lb"

section \<open>The checks of the tester\<close>

text \<open>The flows of \<open>testSimulator\<close> with the real each is expected to have, the empty text for none.\<close>

definition simulator_cases :: "(KatranFlow \<times> string \<times> string) list" where
  "simulator_cases =
     (let flow = (\<lambda>src dst proto. \<lparr>fl_src = src, fl_dst = dst, fl_srcPort = 31337, fl_dstPort = 80, fl_proto = proto\<rparr>) in
      [(flow ''172.16.0.1'' ''10.200.1.1'' kUdp, ''10.0.0.2'', ''simulation is incorrect for v4 real and v4 udp vip''),
       (flow ''172.16.0.1'' ''10.200.1.1'' kTcp, ''10.0.0.2'', ''simulation is incorrect for v4 real and v4 tcp vip''),
       (flow ''172.16.0.1'' ''10.200.1.3'' kTcp, ''fc00::2'', ''simulation is incorrect for v6 real and v4 tcp vip''),
       (flow ''fc00:2::1'' ''fc00:1::1'' kTcp, ''fc00::3'', ''simulation is incorrect for v6 real and v6 tcp vip''),
       (flow ''fc00:2::1'' ''fc00:1::2'' kTcp, '''', ''incorrect real for non existing vip''),
       (flow ''10.0.0.1'' ''fc00:1::1'' kTcp, '''', ''incorrect real for malformed flow #1''),
       (flow ''aaaa'' ''bbbb'' kTcp, '''', ''incorrect real for malformed flow #2'')])"

fun simulate_cases ::
  "katran_env \<Rightarrow> (bpf_state \<Rightarrow> (xdp_action \<times> bpf_state) option) \<Rightarrow> bool \<Rightarrow> packet \<Rightarrow> (KatranFlow \<times> string \<times> string) list \<Rightarrow> KatranLb
    \<Rightarrow> (string list \<times> KatranLb) option" where
  "simulate_cases E prog tested fresh [] lb = Some ([], lb)"
| "simulate_cases E prog tested fresh ((fl, expected, complaint) # cs) lb = do {
     (real, lb) \<leftarrow> getRealForFlow E prog tested fresh fl lb;
     (out, lb) \<leftarrow> simulate_cases E prog tested fresh cs lb;
     Some ((if real \<noteq> expected then [complaint] else []) @ out, lb)
   }"

definition testSimulator ::
  "katran_env \<Rightarrow> (bpf_state \<Rightarrow> (xdp_action \<times> bpf_state) option) \<Rightarrow> bool \<Rightarrow> packet \<Rightarrow> KatranLb \<Rightarrow> (string list \<times> KatranLb) option" where
  "testSimulator E prog tested fresh lb = simulate_cases E prog tested fresh simulator_cases lb"

text \<open>The two complaints are about the maximal and about the current size; \<open>Inl\<close> is the exception of \<open>getBpfMapStats\<close>.\<close>

definition validateMapSize :: "'k bpf_map_calls \<Rightarrow> string \<Rightarrow> int \<Rightarrow> int \<Rightarrow> (unit + string list) option" where
  "validateMapSize C map_name expected_current expected_max =
     map_option (map_sum id (\<lambda>map_stats.
       (if expected_max \<noteq> maxEntries map_stats then [map_name @ '': max size is incorrect''] else []) @
       (if expected_current \<noteq> currentEntries map_stats then [map_name @ '': current size is incorrect''] else [])))
     (getBpfMapStats C map_name)"

definition and_validate :: "(unit + string list) option \<Rightarrow> (unit + string list) option \<Rightarrow> (unit + string list) option" where
  "and_validate a b = do { x \<leftarrow> a; (case x of Inl u \<Rightarrow> Some (Inl u) | Inr out \<Rightarrow> map_option (map_sum id ((@) out)) b) }"

definition test_map_sizes :: "int \<Rightarrow> int \<Rightarrow> string \<Rightarrow> 'k bpf_map_calls \<Rightarrow> (unit + string list) option" where
  "test_map_sizes vs hcs healthchecking_prog C =
     and_validate (validateMapSize C ''vip_map'' vs (uint kDefaultMaxVips))
       (and_validate (validateMapSize C ''reals'' (uint kDefaultMaxReals) (uint kDefaultMaxReals))
         (if healthchecking_prog \<noteq> [] then validateMapSize C ''hc_reals_map'' hcs (uint kDefaultMaxReals) else Some (Inr [])))"

definition preTestOptionalLbCounters :: "string \<Rightarrow> 'k bpf_map_calls \<Rightarrow> (unit + string list) option" where
  "preTestOptionalLbCounters healthchecking_prog C = test_map_sizes 0 0 healthchecking_prog C"

definition postTestOptionalLbCounters :: "string \<Rightarrow> 'k bpf_map_calls \<Rightarrow> (unit + string list) option" where
  "postTestOptionalLbCounters healthchecking_prog C = test_map_sizes 8 3 healthchecking_prog C"

definition complain :: "bool \<Rightarrow> string \<Rightarrow> string list \<Rightarrow> string list" where
  "complain wrong complaint out = (if wrong then out @ [complaint] else out)"

definition testOptionalLbCounters :: "(string \<Rightarrow> u32 \<Rightarrow> lb_stats list option) \<Rightarrow> KatranLb \<Rightarrow> string list \<times> KatranLb" where
  "testOptionalLbCounters look lb =
     (case getIcmpTooBigStats look lb of (st, lb) \<Rightarrow>
      let out = complain (v1 st \<noteq> 1 \<or> v2 st \<noteq> 1) ''icmp packet too big counter is incorrect'' [] in
      case getSrcRoutingStats look lb of (st, lb) \<Rightarrow>
      let out = complain (v1 st \<noteq> 2 \<or> v2 st \<noteq> 6) ''source based routing counter is incorrect'' out in
      case getInlineDecapStats look lb of (st, lb) \<Rightarrow>
      (complain (v1 st \<noteq> 4) ''inline decapsulated packet's counter is incorrect'' out, lb))"

fun test_real_counters :: "katran_env \<Rightarrow> (string \<Rightarrow> u32 \<Rightarrow> lb_stats list option) \<Rightarrow> (string \<times> lb_stats) list \<Rightarrow> string list \<Rightarrow> KatranLb \<Rightarrow> string list \<times> KatranLb" where
  "test_real_counters E look [] out lb = (out, lb)"
| "test_real_counters E look ((real, expected) # rs) out lb =
     (case getIndexForReal E real lb of (i, lb) \<Rightarrow>
        if i < 0 then test_real_counters E look rs (out @ [''Real does not exists: '' @ real]) lb
        else (case getRealStats look (of_int i) lb of (st, lb) \<Rightarrow>
          test_real_counters E look rs
            (complain (v1 st \<noteq> v1 expected \<or> v2 st \<noteq> v2 expected) (''incorrect stats for real: '' @ real) out) lb))"

definition testLbCounters :: "katran_env \<Rightarrow> (string \<Rightarrow> u32 \<Rightarrow> lb_stats list option) \<Rightarrow> KatranLb \<Rightarrow> string list \<times> KatranLb" where
  "testLbCounters E look lb =
     (case getStatsForVip look \<lparr>vk_address = ''10.200.1.1'', vk_port = kVipPort, vk_proto = kTcp\<rparr> lb of (st, lb) \<Rightarrow>
      let out = complain (v1 st \<noteq> 4 \<or> v2 st \<noteq> 248) ''per Vip counter is incorrect for vip:10.200.1.1'' [] in
      case getLruStats look lb of (st, lb) \<Rightarrow>
      let out = complain (v1 st \<noteq> 21 \<or> v2 st \<noteq> 11) ''LRU counter is incorrect'' out in
      case getLruMissStats look lb of (st, lb) \<Rightarrow>
      let out = complain (v1 st \<noteq> 2 \<or> v2 st \<noteq> 6) ''per pckt type LRU miss counter is incorrect'' out in
      case getLruFallbackStats look lb of (st, lb) \<Rightarrow>
      let out = complain (v1 st \<noteq> 17) ''LRU fallback counter is incorrect'' out in
      case getQuicRoutingStats look lb of (st, lb) \<Rightarrow>
      let out = complain (v1 st \<noteq> 5 \<or> v2 st \<noteq> 4) ''Counters for routing of QUIC packets is wrong.'' out in
      case test_real_counters E look (zip kReals kRealStats) out lb of (out, lb) \<Rightarrow>
      let out = complain (bpfFailedCalls (lbStats lb) \<noteq> 0) ''number of failed bpf syscalls is non zero'' out in
      (complain (addrValidationFailed (lbStats lb) \<noteq> 0) ''number of failed ip address validations is non zero'' out, lb))"

text \<open>The contexts of the health-check tests: structures whose mark is 0, 1 and 2. \<open>skb\<close> gives the bytes of a structure with a mark.\<close>

definition getInputCtxsForHcTest :: "(u32 \<Rightarrow> u8 list) \<Rightarrow> u8 list list" where
  "getInputCtxsForHcTest skb = map skb [0, 1, 2]"

definition testHcFromFixture ::
  "'k tester_lib \<Rightarrow> int \<Rightarrow> (string \<times> string) list \<Rightarrow> (string \<times> string) list \<Rightarrow> (u32 \<Rightarrow> u8 list) \<Rightarrow> 'k BpfTester \<Rightarrow> (verdict list \<times> 'k BpfTester) option" where
  "testHcFromFixture L hcProgFd inputHCTestFixtures outputHCTestFixtures skb t =
     (if hcProgFd < 0 then Some ([], t)
      else testClsFromFixture L hcProgFd (getInputCtxsForHcTest skb) (resetTestFixtures inputHCTestFixtures outputHCTestFixtures t))"

section \<open>Round trips\<close>

text \<open>What is documented of the iterators: six bits per character, none of which is an equals sign, and equals signs decode to zero bits.\<close>

definition b64_ok :: "b64_lib \<Rightarrow> bool" where
  "b64_ok L \<longleftrightarrow> (\<forall>bs. length (to64 L bs) = (length bs * 8 + 5) div 6 \<and> CHR ''='' \<notin> set (to64 L bs) \<and>
     from64 L (to64 L bs @ replicate ((3 - length bs mod 3) mod 3) (CHR ''='')) = Some (bs @ replicate ((3 - length bs mod 3) mod 3) 0))"

lemma base64Encode_ok: "b64_ok L \<Longrightarrow> base64Encode L bs = to64 L bs @ replicate ((3 - length bs mod 3) mod 3) (CHR ''='')"
  by (simp add: b64_ok_def base64Encode_def Let_def)

lemma strip_padding_all:
  "cs \<noteq> [] \<Longrightarrow> CHR ''='' \<notin> set cs \<Longrightarrow> strip_padding (replicate n (CHR ''='') @ cs) m bs =
    Some (if m + n \<le> length bs then take (length bs - (m + n)) bs else bs)"
proof (induction n arbitrary: m)
  case 0
  then show ?case by (cases cs) auto
qed simp

text \<open>Every packet that is not empty survives the encoding.\<close>

lemma base64_round_trip:
  assumes "b64_ok L" "bs \<noteq> []"
  shows "base64Decode L (base64Encode L bs) = Some bs"
proof -
  let ?n = "(3 - length bs mod 3) mod 3"
  have l: "length (to64 L bs) = (length bs * 8 + 5) div 6" "CHR ''='' \<notin> set (to64 L bs)"
    and d: "from64 L (to64 L bs @ replicate ?n (CHR ''='')) = Some (bs @ replicate ?n 0)"
    using assms(1) by (simp_all add: b64_ok_def)
  have "0 < length bs" using assms(2) by simp
  then have "to64 L bs \<noteq> []" using l(1) by (auto simp: div_eq_0_iff)
  then show ?thesis using l(2) d
    by (simp add: base64Decode_def base64Encode_ok [OF assms(1)] strip_padding_all)
qed

lemma base64_empty: "b64_ok L \<Longrightarrow> base64Encode L xs = [] \<longleftrightarrow> xs = []"
proof -
  assume ok: "b64_ok L"
  then have "length (to64 L xs) = (length xs * 8 + 5) div 6" by (simp add: b64_ok_def)
  then have "to64 L xs = [] \<longleftrightarrow> xs = []" by (cases xs) (auto simp: div_eq_0_iff simp flip: length_0_conv)
  then show ?thesis by (auto simp: base64Encode_ok [OF ok])
qed

lemma base64_inj:
  assumes "b64_ok L"
  shows "base64Encode L bs = base64Encode L cs \<longleftrightarrow> bs = cs"
  using base64_round_trip [OF assms] base64_empty [OF assms] by (metis option.inject)

text \<open>What the parser writes it reads back, as long as packets have at most \<open>kSnapLen\<close> bytes.\<close>

definition parser_file :: "u8 list list \<Rightarrow> pcap_out \<Rightarrow> bool" where
  "parser_file ps f \<longleftrightarrow> (if firstWrite f then ps = [] \<and> out_bytes f = []
     else \<exists>bs. out_bytes f = file_hdr parser_kSnapLen @ bs \<and> pcap_body parser_kSnapLen bs ps)"

lemma parser_write_appends:
  assumes "parser_file ps f" "length p \<le> 65535"
  shows "parser_file (ps @ [p]) (snd (parser_writePacket (\<lambda>_ _. None) usec p f))"
proof -
  obtain bs where bs: "pcap_body parser_kSnapLen bs ps" "snd (writePacket_hdr (\<lambda>_ _. None) f) = \<lparr>firstWrite = False, out_bytes = file_hdr parser_kSnapLen @ bs\<rparr>"
    "fst (writePacket_hdr (\<lambda>_ _. None) f)"
    using assms(1) pcap_body.body_end
    by (cases f) (auto simp: parser_file_def writePacket_hdr_def writeFull_def file_hdr_def split: if_splits)
  have "unat (of_nat (length p) :: u32) = length p" using assms(2) by (simp add: unsigned_of_nat take_bit_eq_mod)
  then show ?thesis using pcap_body_snoc [OF bs(1), where p = p] assms(2) bs(2,3)
    by (auto simp: parser_file_def parser_writePacket_def writeFull_def Let_def split: prod.split)
qed

lemma parser_file_reads_back:
  assumes "\<forall>p \<in> set ps. length p \<le> 65535"
  shows "pcap_packets (out_bytes (fold (\<lambda>p f. snd (parser_writePacket (\<lambda>_ _. None) usec p f)) ps \<lparr>firstWrite = True, out_bytes = []\<rparr>)) = ps"
proof -
  have "parser_file (qs @ ps) (fold (\<lambda>p f. snd (parser_writePacket (\<lambda>_ _. None) usec p f)) ps f)" if "parser_file qs f" for qs f
    using that assms
  proof (induction ps arbitrary: qs f)
    case (Cons p ps)
    then show ?case using Cons.IH [OF parser_write_appends [OF Cons.prems(1), of p usec]] by simp
  qed simp
  from this [of "[]" "\<lparr>firstWrite = True, out_bytes = []\<rparr>"] show ?thesis
    by (auto simp: parser_file_def read_file read_empty split: if_splits)
qed

text \<open>\<open>writeFull\<close> returns -1 when it fails, and the parser takes only 0 for a failure: a packet that could not be written is reported as
  written, and an empty packet that was written is reported as lost.\<close>

lemma writeFull_fails: "\<forall>f bs. wr f bs \<noteq> None \<Longrightarrow> fst (writeFull wr bs f) = -1"
  by (auto simp: writeFull_def split: option.split)

lemma hdr_fails: "\<forall>f bs. wr f bs \<noteq> None \<Longrightarrow> fst (writePacket_hdr wr f)"
  using writeFull_fails [of wr] by (simp add: writePacket_hdr_def case_prod_beta)

theorem lost_packet_reported_written:
  assumes "\<forall>f bs. wr f bs \<noteq> None"
  shows "fst (parser_writePacket wr usec p f) \<and> \<not> fst (parser_writePacket (\<lambda>_ _. None) usec [] f)"
proof
  obtain g where "writePacket_hdr wr f = (True, g)" using hdr_fails [OF assms, of f] by (cases "writePacket_hdr wr f") simp
  then show "fst (parser_writePacket wr usec p f)"
    using writeFull_fails [OF assms] by (simp add: parser_writePacket_def case_prod_beta Let_def)
  show "\<not> fst (parser_writePacket (\<lambda>_ _. None) usec [] f)"
    by (cases "writePacket_hdr (\<lambda>_ _. None) f"; cases "fst (writePacket_hdr (\<lambda>_ _. None) f)")
      (simp_all add: parser_writePacket_def writeFull_def Let_def)
qed

section \<open>What a passed test says\<close>

text \<open>The program under test as a function of the kernel and the packet, and what it does to one packet after the other.\<close>

fun replay :: "('k \<Rightarrow> u8 list \<Rightarrow> test_run \<times> 'k) \<Rightarrow> u8 list list \<Rightarrow> 'k \<Rightarrow> test_run list" where
  "replay step [] k = []"
| "replay step (p # ps) k = (case step k p of (attr, k) \<Rightarrow> attr # replay step ps k)"

definition judge :: "(int \<rightharpoonup> string) \<Rightarrow> (u8 list \<times> string) \<times> (u8 list \<times> string) \<Rightarrow> test_run \<Rightarrow> verdict" where
  "judge codes f attr = (case f of ((p, desc), (q, code)) \<Rightarrow>
     if (case codes (sint (tr_retval attr)) of None \<Rightarrow> ''UNKNOWN'' | Some c \<Rightarrow> c) = code \<and> tr_data_out attr = q
     then Passed desc else Failed_test desc)"

definition encode_all :: "b64_lib \<Rightarrow> (u8 list \<times> string) list \<Rightarrow> (string \<times> string) list" where
  "encode_all L fs = map (apfst (base64Encode L)) fs"

lemma writePcapOutput_keeps [simp]:
  "under_test (writePcapOutput L buf t) = under_test t" "tester_config (writePcapOutput L buf t) = tester_config t"
  by (simp_all add: writePcapOutput_def)

lemma run_fixtures_replay:
  assumes ok: "b64_ok (b64 L)" and run: "\<And>k data. I k \<Longrightarrow> run_prog L k progFd kTestRepeatCount data [] = ((0, fst (step k data)), snd (step k data)) \<and> I (snd (step k data))"
  shows "length ps = length qs \<Longrightarrow> \<forall>p \<in> set ps. fst p \<noteq> [] \<Longrightarrow> I (under_test t) \<Longrightarrow>
    \<exists>t'. run_fixtures L progFd codes (zip (encode_all (b64 L) ps) (zip (encode_all (b64 L) qs) (replicate (length ps) []))) n t =
      Some (map2 (judge codes) (zip ps qs) (replay step (map fst ps) (under_test t)), t')"
proof (induction ps qs arbitrary: n t rule: list_induct2)
  case (Cons p ps q qs)
  obtain bs desc cs code where p: "p = (bs, desc)" and q: "q = (cs, code)" by fastforce
  have bs: "base64Decode (b64 L) (base64Encode (b64 L) bs) = Some bs" using Cons.prems p base64_round_trip [OF ok] by simp
  obtain attr k where step: "step (under_test t) bs = (attr, k)" by fastforce
  let ?t = "writePcapOutput L (tr_data_out attr) ((writePcapOutput L bs t)\<lparr>under_test := k\<rparr>)"
  have I: "I (under_test t)" "I k" using Cons.prems run [of "under_test t" bs] step by auto
  obtain t' where "run_fixtures L progFd codes (zip (encode_all (b64 L) ps) (zip (encode_all (b64 L) qs) (replicate (length ps) []))) (n + 1) ?t =
      Some (map2 (judge codes) (zip ps qs) (replay step (map fst ps) k), t')"
    using Cons.IH [of ?t "n + 1"] Cons.prems I by auto
  then show ?case
    using bs step base64_inj [OF ok] run [OF I(1), of bs]
    by (simp add: encode_all_def p q test_once_def judge_def Let_def)
qed (simp add: encode_all_def)

lemma length_replay [simp]: "length (replay step ps k) = length ps"
  by (induction ps arbitrary: k) (simp_all add: case_prod_beta)

lemma fixtures_are_replayed:
  assumes "b64_ok (b64 L)" "\<And>k data. I k \<Longrightarrow> run_prog L k progFd kTestRepeatCount data [] = ((0, fst (step k data)), snd (step k data)) \<and> I (snd (step k data))"
    and "I (under_test t)" "inputData (tester_config t) = encode_all (b64 L) ps" "outputData (tester_config t) = encode_all (b64 L) qs"
    "length ps = length qs" "\<forall>p \<in> set ps. fst p \<noteq> []"
  shows "\<exists>t'. runBpfTesterFromFixtures L progFd codes [] 0 t =
    Some (map2 (judge codes) (zip ps qs) (replay step (map fst ps) (under_test t)), t')"
  using run_fixtures_replay [OF assms(1,2,6,7,3), of codes 1] assms(4,5,6)
  by (simp add: runBpfTesterFromFixtures_def encode_all_def Let_def)

section \<open>The balancer and the health checker under test\<close>

definition xdp_code :: "xdp_action \<Rightarrow> u32" where
  "xdp_code a = (case a of XDP_ABORTED \<Rightarrow> 0 | XDP_DROP \<Rightarrow> 1 | XDP_PASS \<Rightarrow> 2 | XDP_TX \<Rightarrow> 3 | XDP_REDIRECT \<Rightarrow> 4)"

definition blank_run :: test_run where
  "blank_run = \<lparr>tr_data_out = [], tr_retval = 0, tr_duration = 0, tr_ctx_out = []\<rparr>"

text \<open>A test run of the kernel on the maps of the balancer. The kernel refuses a run on fewer bytes than an Ethernet header has; every fixture is longer.\<close>

definition balancer_under_test ::
  "build_flags \<Rightarrow> bpf_helpers \<Rightarrow> (u32 \<Rightarrow> bool) \<Rightarrow> bpf_state \<Rightarrow> int \<Rightarrow> int \<Rightarrow> u8 list \<Rightarrow> u8 list \<Rightarrow> (int \<times> test_run) \<times> bpf_state" where
  "balancer_under_test B H slots s progFd repeat data ctx =
     (case balancer_run B H slots (s\<lparr>pkt := data\<rparr>) of
        None \<Rightarrow> ((-1, blank_run), s)
      | Some (a, t) \<Rightarrow> ((0, blank_run\<lparr>tr_data_out := pkt t, tr_retval := xdp_code a\<rparr>), t))"

definition tc_code :: "tc_action \<Rightarrow> u32" where
  "tc_code a = (case a of TC_ACT_UNSPEC \<Rightarrow> -1 | TC_ACT_SHOT \<Rightarrow> 2 | Redirect _ \<Rightarrow> 7)"

text \<open>A test run without a context has a zeroed \<open>__sk_buff\<close>; the mark is its third word.\<close>

definition ctx_mark :: "u8 list \<Rightarrow> u32" where
  "ctx_mark ctx = (if ctx = [] then 0 else le32 (slice ctx 8 4))"

definition checker_under_test ::
  "(hc_state \<Rightarrow> (tc_action \<times> hc_state) option) \<Rightarrow> hc_state \<Rightarrow> int \<Rightarrow> int \<Rightarrow> u8 list \<Rightarrow> u8 list \<Rightarrow> (int \<times> test_run) \<times> hc_state" where
  "checker_under_test prog s progFd repeat data ctx =
     (case prog (s\<lparr>skb_data := data, skb_len := of_nat (length data), skb_mark := ctx_mark ctx, skb_tunnel_key := None\<rparr>) of
        None \<Rightarrow> ((-1, blank_run), s)
      | Some (a, t) \<Rightarrow> ((0, blank_run\<lparr>tr_data_out := skb_data t, tr_retval := tc_code a\<rparr>), t))"

definition inputHCTestFixtures :: "(string \<times> string) list" where
  "inputHCTestFixtures = [
     (''AgAAAAAAAQAAAAAACABFAAArAAEAAEARrU/AqAEBCsgBAXppAFAAF5fea2F0cmFuIHRlc3QgcGt0'',
      ''v4 packet. no fwmark''),
     (''AgAAAAAAAQAAAAAACABFAAA3AAEAAEAGrU7AqAEBCsgBAXppAFAAAAAAAAAAAFAQIAAn5AAAa2F0cmFuIHRlc3QgcGt0'',
      ''v4 packet. fwmark 1''),
     (''AgAAAAAAAQAAAAAAht1gAAAAACMGQPwAAAIAAAAAAAAAAAAAAAH8AAABAAAAAAAAAAAAAAABemkAUAAAAAAAAAAAUBAgAP1PAABrYXRyYW4gdGVzdCBwa3Q='',
      ''v4 packet. fwmkark 2'')]"

definition outputHCTestFixtures :: "(string \<times> string) list" where
  "outputHCTestFixtures = [
     (''AgAAAAAAAQAAAAAACABFAAArAAEAAEARrU/AqAEBCsgBAXppAFAAF5fea2F0cmFuIHRlc3QgcGt0'',
      ''TC_ACT_UNSPEC''),
     (''AgAAAAAAAQAAAAAACABFAAA3AAEAAEAGrU7AqAEBCsgBAXppAFAAAAAAAAAAAFAQIAAn5AAAa2F0cmFuIHRlc3QgcGt0'',
      ''TC_ACT_UNSPEC''),
     (''AgAAAAAAAQAAAAAAht1gAAAAACMGQPwAAAIAAAAAAAAAAAAAAAH8AAABAAAAAAAAAAAAAAABemkAUAAAAAAAAAAAUBAgAP1PAABrYXRyYW4gdGVzdCBwa3Q='',
      ''TC_ACT_UNSPEC'')]"

text \<open>The balancer serving packets one after the other: the name of every verdict and the bytes that leave.\<close>

fun served :: "build_flags \<Rightarrow> bpf_helpers \<Rightarrow> (u32 \<Rightarrow> bool) \<Rightarrow> u8 list list \<Rightarrow> bpf_state \<Rightarrow> (string \<times> u8 list) list" where
  "served B H slots [] s = []"
| "served B H slots (p # ps) s = (case balancer_run B H slots (s\<lparr>pkt := p\<rparr>) of
       None \<Rightarrow> []
     | Some (a, t) \<Rightarrow> (case a of XDP_ABORTED \<Rightarrow> ''XDP_ABORTED'' | XDP_DROP \<Rightarrow> ''XDP_DROP'' | XDP_PASS \<Rightarrow> ''XDP_PASS'' | XDP_TX \<Rightarrow> ''XDP_TX''
         | XDP_REDIRECT \<Rightarrow> ''UNKNOWN'', pkt t) # served B H slots ps t)"

lemma balancer_runs: "\<exists>a t. balancer_run B H slots s = Some (a, t)"
  using balancer.run_safe [of slots B H MAX_TAIL_CALL_CNT s] unfolding balancer_run_def wp_iff by auto

lemma served_replay:
  "map2 (judge kXdpCodes) fs (replay (\<lambda>k data. (snd (fst (balancer_under_test B H slots k 0 1 data [])), snd (balancer_under_test B H slots k 0 1 data []))) ps s) =
   map2 (\<lambda>((p, desc), (q, code)) r. if r = (code, q) then Passed desc else Failed_test desc) fs (served B H slots ps s)"
proof (induction ps arbitrary: fs s)
  case (Cons p ps)
  obtain a t where run: "balancer_run B H slots (s\<lparr>pkt := p\<rparr>) = Some (a, t)" using balancer_runs by blast
  show ?case
  proof (cases fs)
    case (Cons f fs')
    obtain p' desc q code where "f = ((p', desc), (q, code))" by (metis prod.exhaust)
    then show ?thesis using Cons.IH [of fs' t] run Cons
      by (cases a) (auto simp: balancer_under_test_def judge_def kXdpCodes_def xdp_code_def)
  qed simp
qed simp

text \<open>C38. The test suite of the data plane tests conformance: run on the balancer, whose maps the packets change on the way, it logs
  for every fixture that it passed exactly if the balancer gives the packet the verdict the fixture names and sends on exactly the
  bytes the fixture has in base64. No fixture is left out, and none passes for another reason.\<close>

theorem fixtures_pass_iff_served:
  assumes "b64_ok (b64 L)" "run_prog L = balancer_under_test B H slots" "\<forall>p \<in> set ps. fst p \<noteq> []" "length ps = length qs"
    and "inputData (tester_config t) = encode_all (b64 L) ps" "outputData (tester_config t) = encode_all (b64 L) qs"
  shows "\<exists>t'. testFromFixture L t = Some (map2 (\<lambda>((p, desc), (q, code)) r. if r = (code, q) then Passed desc else Failed_test desc)
      (zip ps qs) (served B H slots (map fst ps) (under_test t)), t') \<and>
    length (served B H slots (map fst ps) (under_test t)) = length ps"
proof -
  let ?step = "\<lambda>k data. (snd (fst (balancer_under_test B H slots k 0 1 data [])), snd (balancer_under_test B H slots k 0 1 data []))"
  have "run_prog L k fd kTestRepeatCount data [] = ((0, fst (?step k data)), snd (?step k data)) \<and> True" for k fd data
    using balancer_runs [of B H slots "k\<lparr>pkt := data\<rparr>"] assms(2) by (auto simp: balancer_under_test_def)
  from fixtures_are_replayed [OF assms(1) this TrueI assms(5,6,4,3)] obtain t' where "testFromFixture L t =
      Some (map2 (judge kXdpCodes) (zip ps qs) (replay ?step (map fst ps) (under_test t)), t')" unfolding testFromFixture_def by blast
  moreover have "length (served B H slots xs s) = length xs" for xs s
  proof (induction xs arbitrary: s)
    case (Cons x xs)
    then show ?case using balancer_runs [of B H slots "s\<lparr>pkt := x\<rparr>"] by auto
  qed simp
  ultimately show ?thesis by (simp add: served_replay)
qed

text \<open>Without a context the packet is not marked, and leaves as it came.\<close>

definition check_step :: "(hc_state \<Rightarrow> (tc_action \<times> hc_state) option) \<Rightarrow> hc_state \<Rightarrow> u8 list \<Rightarrow> test_run \<times> hc_state" where
  "check_step prog k data = (blank_run\<lparr>tr_data_out := data, tr_retval := -1\<rparr>, snd (checker_under_test prog k 0 1 data []))"

lemma unmarked_run:
  assumes "prog = healthchecker B A \<or> prog = healthchecker_ipip" "hc_stats_map k GENERIC_STATS_INDEX \<noteq> None"
  shows "checker_under_test prog k fd n data [] = ((0, fst (check_step prog k data)), snd (check_step prog k data)) \<and>
    hc_stats_map (snd (check_step prog k data)) GENERIC_STATS_INDEX \<noteq> None"
  using assms by (auto simp: check_step_def checker_under_test_def healthchecker_def healthchecker_ipip_def hc_skip_def hc_count_def
      ctx_mark_def tc_code_def deref_def)

lemma unmarked_passes:
  "map2 (judge kTcCodes) (zip ps (map (\<lambda>p. (fst p, ''TC_ACT_UNSPEC'')) ps)) (replay (check_step prog) (map fst ps) k) = map (Passed \<circ> snd) ps"
  by (induction ps arbitrary: k) (auto simp: judge_def check_step_def kTcCodes_def split: prod.split)

lemma encode_all_ex: "\<forall>f \<in> set fs. \<exists>p. p \<noteq> [] \<and> base64Encode L p = fst f \<Longrightarrow>
  \<exists>ps. encode_all L ps = fs \<and> map snd ps = map snd fs \<and> (\<forall>p \<in> set ps. fst p \<noteq> [])"
proof (induction fs)
  case (Cons f fs)
  then obtain p ps where "p \<noteq> []" "base64Encode L p = fst f" "encode_all L ps = fs" "map snd ps = map snd fs" "\<forall>p \<in> set ps. fst p \<noteq> []"
    by auto
  then show ?case by (intro exI [of _ "(p, snd f) # ps"]) (simp add: encode_all_def)
qed (simp add: encode_all_def)

text \<open>The health-check tests test nothing of the health checks. The tester prepares a mark for every packet, but runs the program
  without contexts, so every packet goes unmarked, and the fixtures expect what happens to unmarked packets. Whatever reals and
  interfaces are configured, with either of the two programs, and whatever the contexts say, all the tests pass.\<close>

theorem hc_tests_ignore_marks:
  assumes "b64_ok (b64 L)" "run_prog L = checker_under_test prog" "prog = healthchecker B A \<or> prog = healthchecker_ipip"
    and "\<forall>f \<in> set inputHCTestFixtures. \<exists>p. p \<noteq> [] \<and> base64Encode (b64 L) p = fst f"
    "hc_stats_map (under_test t) GENERIC_STATS_INDEX \<noteq> None" "0 \<le> fd"
  shows "\<exists>t'. testHcFromFixture L fd inputHCTestFixtures outputHCTestFixtures skb t = Some (map (Passed \<circ> snd) inputHCTestFixtures, t')"
proof -
  let ?t = "resetTestFixtures inputHCTestFixtures outputHCTestFixtures t"
  obtain ps where ps: "encode_all (b64 L) ps = inputHCTestFixtures" "map snd ps = map snd inputHCTestFixtures" "\<forall>p \<in> set ps. fst p \<noteq> []"
    using encode_all_ex [OF assms(4)] by blast
  let ?qs = "map (\<lambda>p. (fst p, ''TC_ACT_UNSPEC'')) ps"
  have "outputHCTestFixtures = map (\<lambda>f. (fst f, ''TC_ACT_UNSPEC'')) inputHCTestFixtures"
    by (simp add: inputHCTestFixtures_def outputHCTestFixtures_def)
  then have qs: "outputHCTestFixtures = encode_all (b64 L) ?qs" unfolding ps(1) [symmetric] by (simp add: encode_all_def comp_def)
  have "run_prog L k fd' kTestRepeatCount data [] = ((0, fst (check_step prog k data)), snd (check_step prog k data)) \<and>
      hc_stats_map (snd (check_step prog k data)) GENERIC_STATS_INDEX \<noteq> None" if "hc_stats_map k GENERIC_STATS_INDEX \<noteq> None" for k fd' data
    using unmarked_run [OF assms(3) that] assms(2) by simp
  from fixtures_are_replayed [where I = "\<lambda>k. hc_stats_map k GENERIC_STATS_INDEX \<noteq> None", OF assms(1) this, of ?t ps ?qs fd kTcCodes] assms(5) ps qs
  obtain t' where "runBpfTesterFromFixtures L fd kTcCodes [] 0 ?t = Some (map (Passed \<circ> snd) ps, t')"
    unfolding unmarked_passes by (auto simp: resetTestFixtures_def)
  moreover have "map (Passed \<circ> snd) ps = map (Passed \<circ> snd) inputHCTestFixtures" using ps(2) by (metis map_map)
  ultimately show ?thesis using assms(6) by (simp add: testHcFromFixture_def testClsFromFixture_def)
qed

section \<open>An example\<close>

text \<open>Base64 as the standard defines it.\<close>

definition b64_alphabet :: string where
  "b64_alphabet = ''ABCDEFGHIJKLMNOPQRSTUVWXYZabcdefghijklmnopqrstuvwxyz0123456789+/''"

fun sextets :: "nat list \<Rightarrow> nat list" where
  "sextets [] = []"
| "sextets [a] = [a div 4, a mod 4 * 16]"
| "sextets [a, b] = [a div 4, a mod 4 * 16 + b div 16, b mod 16 * 4]"
| "sextets (a # b # c # xs) = (a div 4) # (a mod 4 * 16 + b div 16) # (b mod 16 * 4 + c div 64) # (c mod 64) # sextets xs"

fun octets :: "nat list \<Rightarrow> nat list" where
  "octets (a # b # c # d # xs) = (a * 4 + b div 16) # (b mod 16 * 16 + c div 4) # (c mod 4 * 64 + d) # octets xs"
| "octets _ = []"

definition b64_index :: "char \<Rightarrow> nat" where
  "b64_index c = (if c = CHR ''='' then 0 else length (takeWhile (\<lambda>x. x \<noteq> c) b64_alphabet))"

definition ex_b64 :: b64_lib where
  "ex_b64 = \<lparr>to64 = (\<lambda>bs. map (\<lambda>n. b64_alphabet ! n) (sextets (map unat bs))),
     from64 = (\<lambda>txt. Some (map of_nat (octets (map b64_index txt))))\<rparr>"

lemma length_sextets: "length (sextets xs) = (length xs * 8 + 5) div 6"
  by (induction xs rule: sextets.induct) auto

lemma sextets_small: "\<forall>x \<in> set xs. x < 256 \<Longrightarrow> \<forall>y \<in> set (sextets xs). y < 64"
  by (induction xs rule: sextets.induct) auto

lemma octets_sextets: "\<forall>x \<in> set xs. x < 256 \<Longrightarrow> octets (sextets xs @ replicate ((3 - length xs mod 3) mod 3) 0) = xs @ replicate ((3 - length xs mod 3) mod 3) 0"
  by (induction xs rule: sextets.induct) (auto simp: numeral_2_eq_2)

lemma b64_index_nth: "n < 64 \<Longrightarrow> b64_index (b64_alphabet ! n) = n \<and> b64_alphabet ! n \<noteq> CHR ''=''"
proof -
  assume "n < 64"
  moreover have "\<forall>n \<in> set [0..<64]. b64_index (b64_alphabet ! n) = n \<and> b64_alphabet ! n \<noteq> CHR ''=''" by code_simp
  ultimately show ?thesis by simp
qed

lemma ex_b64_ok: "b64_ok ex_b64"
proof -
  have byte: "unat x < 256" for x :: u8 using unsigned_less [of x] by simp
  have small: "\<forall>y \<in> set (sextets (map unat bs)). y < 64" for bs :: "u8 list"
    by (rule sextets_small) (auto simp: byte)
  have "from64 ex_b64 (to64 ex_b64 bs @ replicate n (CHR ''='')) = Some (map of_nat (octets (sextets (map unat bs) @ replicate n 0)))" for bs n
  proof -
    have "map (b64_index \<circ> (!) b64_alphabet) (sextets (map unat bs)) = sextets (map unat bs)"
      using small [of bs] by (intro map_idI) (simp add: b64_index_nth)
    then show ?thesis by (simp add: ex_b64_def b64_index_def)
  qed
  moreover have "octets (sextets (map unat bs) @ replicate ((3 - length bs mod 3) mod 3) 0) = map unat bs @ replicate ((3 - length bs mod 3) mod 3) 0" for bs :: "u8 list"
    using octets_sextets [of "map unat bs"] by (simp add: byte)
  moreover have "CHR ''='' \<notin> set (to64 ex_b64 bs)" for bs
    using small [of bs] b64_index_nth by (fastforce simp: ex_b64_def)
  moreover have "length (to64 ex_b64 bs) = (length bs * 8 + 5) div 6" for bs by (simp add: ex_b64_def length_sextets)
  ultimately show ?thesis by (simp add: b64_ok_def map_idI)
qed

definition ex_checker_lib :: "hc_state tester_lib" where
  "ex_checker_lib = \<lparr>b64 = ex_b64, run_prog = checker_under_test healthchecker_ipip, out_wr = (\<lambda>_ _. None), clock_usec = 0\<rparr>"

text \<open>Every mark has a real.\<close>

definition ex_marked_state :: hc_state where
  "ex_marked_state = ex_hc_state\<lparr>hc_ctrl_map := (\<lambda>_. Some 2), hc_reals_map := (\<lambda>_. Some \<lparr>v6daddr = in6_zero\<lparr>s6_0 := 7\<rparr>, hc_real_flags = 0\<rparr>)\<rparr>"

definition ex_tester :: "'k \<Rightarrow> 'k BpfTester" where
  "ex_tester k = BpfTester_new \<lparr>outputData = [], inputData = [], outputFileName = [], inputFileName = [], bpfProgFd = 5\<rparr> [] k"

lemma ex_hc_packets: "list_all (\<lambda>f. base64Encode ex_b64 (the (base64Decode ex_b64 (fst f))) = fst f \<and> the (base64Decode ex_b64 (fst f)) \<noteq> []) inputHCTestFixtures"
  by code_simp

theorem hc_tests_ignore_marks_witness:
  "\<exists>t'. testHcFromFixture ex_checker_lib 5 inputHCTestFixtures outputHCTestFixtures (\<lambda>m. replicate 8 0 @ bytes32 m) (ex_tester ex_marked_state) =
    Some ([Passed ''v4 packet. no fwmark'', Passed ''v4 packet. fwmark 1'', Passed ''v4 packet. fwmkark 2''], t')"
proof -
  have "\<forall>f \<in> set inputHCTestFixtures. \<exists>p. p \<noteq> [] \<and> base64Encode (b64 ex_checker_lib) p = fst f"
    using ex_hc_packets by (auto simp: ex_checker_lib_def list_all_iff)
  moreover have "hc_stats_map (under_test (ex_tester ex_marked_state)) GENERIC_STATS_INDEX \<noteq> None"
    by (simp add: ex_tester_def BpfTester_new_def ex_marked_state_def ex_hc_state_def)
  ultimately show ?thesis
    using hc_tests_ignore_marks [of ex_checker_lib healthchecker_ipip _ _ "ex_tester ex_marked_state" 5] ex_b64_ok
    by (simp add: ex_checker_lib_def inputHCTestFixtures_def [THEN arg_cong [where f = "map (Passed \<circ> snd)"]])
qed

definition ex_balancer_lib :: "bpf_state tester_lib" where
  "ex_balancer_lib = \<lparr>b64 = ex_b64, run_prog = balancer_under_test default_build ref_helpers (\<lambda>_. False), out_wr = (\<lambda>_ _. None), clock_usec = 0\<rparr>"

theorem fixtures_pass_iff_served_witness:
  "\<exists>t'. testFromFixture ex_balancer_lib (resetTestFixtures (encode_all ex_b64 [(replicate 14 1, ''no ip''), (replicate 14 1, ''changed'')])
      (encode_all ex_b64 [(replicate 14 1, ''XDP_PASS''), (replicate 14 2, ''XDP_PASS'')]) (ex_tester ex_state)) =
    Some ([Passed ''no ip'', Failed_test ''changed''], t')"
proof -
  let ?ps = "[(replicate 14 1, ''no ip''), (replicate 14 1, ''changed'')] :: (u8 list \<times> string) list"
  let ?qs = "[(replicate 14 1, ''XDP_PASS''), (replicate 14 2, ''XDP_PASS'')] :: (u8 list \<times> string) list"
  let ?t = "resetTestFixtures (encode_all ex_b64 ?ps) (encode_all ex_b64 ?qs) (ex_tester ex_state)"
  have "ld16 (replicate 14 1) 12 = Some 0x101" by code_simp
  then have "balancer_run B H slots (s\<lparr>pkt := replicate 14 1\<rparr>) = Some (XDP_PASS, s\<lparr>pkt := replicate 14 1\<rparr>)" for B H slots s
    by (simp add: balancer_run_def balancer_ingress_def run_tail_calls.simps)
  then have "served B H slots (map fst ?ps) s = [(''XDP_PASS'', replicate 14 1), (''XDP_PASS'', replicate 14 1)]" for B H slots s by simp
  moreover have "replicate 14 1 \<noteq> (replicate 14 2 :: u8 list)" by code_simp
  ultimately show ?thesis
    using fixtures_pass_iff_served [of ex_balancer_lib default_build ref_helpers "\<lambda>_. False" ?ps ?qs ?t] ex_b64_ok
    by (simp add: ex_balancer_lib_def resetTestFixtures_def)
qed

end
