(* ===== verification/Fixtures.thy ===== *)
theory Fixtures
  imports Main
begin

text \<open>
  The packets of the tests of the data plane, as they stand in the headers under \<open>src/katran/lib/testing\<close>: for every test the packet that
  arrives, in base64, with a description, and the packet that is expected to leave with the name of the verdict. The lists of
  \<open>KatranHCTestFixtures.h\<close> are in theory \<open>Tester\<close>.
\<close>

section \<open>\<open>KatranTestFixtures.h\<close>: the default build\<close>

definition inputTestFixtures :: "(string \<times> string) list" where
  "inputTestFixtures = [
     (''AgAAAAAAAQAAAAAACABFAAArAAEAAEARrU/AqAEBCsgBAXppAFAAF5fea2F0cmFuIHRlc3QgcGt0'',
      ''packet to UDP based v4 VIP (and v4 real)''),
     (''AgAAAAAAAQAAAAAACABFAAA3AAEAAEAGrU7AqAEBCsgBAXppAFAAAAAAAAAAAFAQIAAn5AAAa2F0cmFuIHRlc3QgcGt0'',
      ''packet to TCP based v4 VIP (and v4 real)''),
     (''AgAAAAAAAQAAAAAACABFjAA3AAEAAEAGrMLAqAEBCsgBAXppAFAAAAAAAAAAAFAQIAAn5AAAa2F0cmFuIHRlc3QgcGt0'',
      ''packet to TCP based v4 VIP (and v4 real) + ToS in IPV4''),
     (''AgAAAAAAAQAAAAAACABFAAA3AAEAAEAGrU3AqAEBCsgBAnppACoAAAAAAAAAAFAQIAAoCQAAa2F0cmFuIHRlc3QgcGt0'',
      ''packet to TCP based v4 VIP (and v4 real; any dst ports).''),
     (''AgAAAAAAAQAAAAAACABFAAA3AAEAAEAGrUzAqAEBCsgBA3ppAFAAAAAAAAAAAFAQIAAn4gAAa2F0cmFuIHRlc3QgcGt0'',
      ''packet to TCP based v4 VIP (and v6 real)''),
     (''AgAAAAAAAQAAAAAAht1gAAAAACMGQPwAAAIAAAAAAAAAAAAAAAH8AAABAAAAAAAAAAAAAAABemkAUAAAAAAAAAAAUBAgAP1PAABrYXRyYW4gdGVzdCBwa3Q='',
      ''packet to TCP based v6 VIP (and v6 real)''),
     (''AgAAAAAAAQAAAAAAht1owAAAACMGQPwAAAIAAAAAAAAAAAAAAAH8AAABAAAAAAAAAAAAAAABemkAUAAAAAAAAAAAUBAgAP1PAABrYXRyYW4gdGVzdCBwa3Q='',
      ''packet to TCP based v6 VIP (and v6 real) with ToS / tc set''),
     (''AgAAAAAAAQAAAAAACABFAAAcAAEAAEABrWzAqAEBCsgBAwgA9/8AAAAA'',
      ''v4 ICMP echo-request''),
     (''AgAAAAAAAQAAAAAAht1gAAAAAAg6QPwAAAIAAAAAAAAAAAAAAAH8AAABAAAAAAAAAAAAAAABgACHtgAAAAA='',
      ''v6 ICMP echo-request''),
     (''AgAAAAAAAQAAAAAACABFAABTAAEAAEABSjfAqGQBCsgBAQMEypcAAAAARQAANwABAABABq1OCsgBAcCoAQEAUHppAAAAAAAAAABQAiAAGQEAAHRlc3Qga2F0cmFuIHBrdA=='',
      ''v4 ICMP dest-unreachabe fragmentation-needed''),
     (''AgAAAAAAAQAAAAAAht1gAAAAAFY6QPwAAgAAAAAAAAAAAAAAAAH8AAABAAAAAAAAAAAAAAABAgCYMAAABQBgAAAAACYGQPwAAAEAAAAAAAAAAAAAAAH8AAACAAAAAAAAAAAAAAABAFB6aQAAAAAAAAAAUAIgAKiFAABrYXRyYW4gdGVzdCBwYWNrZXQ='',
      ''v6 ICMP packet-too-big''),
     (''AgAAAAAAAQAAAAAACABGAAA3AAEAAEAGrE7AqAEBCsgBAXppAFAAAAAAAAAAAFAQIAAn5AAAa2F0cmFuIHRlc3QgcGt0'',
      ''drop of IPv4 packet w/ options''),
     (''AgAAAAAAAQAAAAAACABFAAA3AAEgAEAGjU7AqAEBCsgBAXppAFAAAAAAAAAAAFAQIAAn5AAAa2F0cmFuIHRlc3QgcGt0'',
      ''drop of IPv4 fragmented packet''),
     (''AgAAAAAAAQAAAAAAht1gAAAAACMsQPwAAAIAAAAAAAAAAAAAAAH8AAABAAAAAAAAAAAAAAABemkAUAAAAAAAAAAAUBAgAP1PAABrYXRyYW4gdGVzdCBwa3Q='',
      ''drop of IPv6 fragmented packet''),
     (''AgAAAAAAAQAAAAAACABFAAA3AAEAAEAGrU7AqAEBCsgBAXppAFIAAAAAAAAAAFAQIAAn4gAAa2F0cmFuIHRlc3QgcGt0'',
      ''pass of v4 packet with dst not equal to any configured VIP''),
     (''AgAAAAAAAQAAAAAAht1gAAAAACMGQPwAAAIAAAAAAAAAAAAAAAH8AAABAAAAAAAAAAAAAAABemkAUgAAAAAAAAAAUBAgAP1NAABrYXRyYW4gdGVzdCBwa3Q='',
      ''pass of v6 packet with dst not equal to any configured VIP''),
     (''AgAAAAAAAQAAAAAACAYAAQgABgQAAQAAAAAAAAAAAAAAAAAAAAAAAAAA'',
      ''pass of arp packet''),
     (''AgAAAAAAAQAAAAAACABFAAA3AAEAAEAGrU7AqAEBCsgBAXppAFAAAAAAAAAAAFAQIAAn5AAAa2F0cmFuIHRlc3QgcGt0'',
      ''LRU hit''),
     (''AgAAAAAAAQAAAAAACABFAAA3AAEAAEAGrUvAqAEBCsgBBHppACoAAAAAAAAAAFAQIAAoBwAAa2F0cmFuIHRlc3QgcGt0'',
      ''packet #1 dst port hashing only''),
     (''AgAAAAAAAQAAAAAACABFAAA3AAEAAEAGrOjAqAFkCsgBBAU5ACoAAAAAAAAAAFAQIACc1AAAa2F0cmFuIHRlc3QgcGt0'',
      ''packet #2 dst port hashing only''),
     (''AgAAAAAAAQAAAAAACABFAAA/AAEAAEAEvZesEAEBrBBkAUUAACsAAQAAQBGtT8CoAQEKyAEBemkAUAAXl95rYXRyYW4gdGVzdCBwa3Q='',
      ''ipinip packet''),
     (''AgAAAAAAAQAAAAAAht1gAAAAAEspQAEAAAAAAAAAAAAAAAAAAAEBAAAAAAAAAAAAAAAAAAACYAAAAAAjBkD8AAACAAAAAAAAAAAAAAAB/AAAAQAAAAAAAAAAAAAAAXppAFAAAAAAAAAAAFAQIAD9TwAAa2F0cmFuIHRlc3QgcGt0'',
      ''ipv6inipv6 packet''),
     (''AgAAAAAAAQAAAAAAht1gAAAAACsEQAEAAAAAAAAAAAAAAAAAAAEBAAAAAAAAAAAAAAAAAAACRQAAKwABAABAEa1PwKgBAQrIAQF6aQBQABeX3mthdHJhbiB0ZXN0IHBrdA=='',
      ''ipv4inipv6 packet''),
     (''AgAAAAAAAQAAAAAACABFAAA5AAEAAEARrRTAqAEqCsgBBXppAbsAJbdsz/rOsAEIQQIDBAUGBwAAAREBcXVpYyBkYXRhAEA='',
      ''QUIC: long header. Client Initial type. LRU miss''),
     (''AgAAAAAAAQAAAAAACABFAAA5AAEAAEARrRTAqAEqCsgBBXppAbsAJbNG3/rOsAEIQ/8zRFVmd4gAAREBcXVpYyBkYXRhAEA='',
      ''QUIC: long header. 0-RTT Protected. CH. LRU hit.''),
     (''AgAAAAAAAQAAAAAACABFAAA5AAEAAEARrRTAqAEqCsgBBXppAbsAJZRt7/rOsAEIRAEDBAUGBwAAAREBcXVpYyBkYXRhAEA='',
      ''QUIC: long header. Handshake. v4 vip v6 real. Conn Id based.''),
     (''AgAAAAAAAQAAAAAACABFAAA5AAEAAEARrRTAqAEqCsgBBXppAbsAJYRt//rOsAEIRAEDBAUGBwAAAREBcXVpYyBkYXRhAEA='',
      ''QUIC: long header. Retry. v4 vip v6 real. Conn Id based.''),
     (''AgAAAAAAAQAAAAAAht1gAAAAACURQPwAAAIAAAAAAAAAAAAAAEL8AAABAAAAAAAAAAAAAAACemkBuwAlicTP+s6wAQhEAQMEBQYHAAABEQFxdWljIGRhdGEAQA=='',
      ''QUIC: long header. client initial. v6 vip v6 real. LRU miss''),
     (''AgAAAAAAAQAAAAAACABFAAAdAAEAAEARrTDAqAEqCsgBBXppAbsACbYYAA=='',
      ''QUIC: short header. No connection id. CH. LRU hit''),
     (''AgAAAAAAAQAAAAAACABFAAAmAAEAAEARrSfAqAEqCsgBBXppAbsAEqr2AEEAgwQFBgcAQA=='',
      ''QUIC: short header w/ connection id''),
     (''AgAAAAAAAQAAAAAACABFAAAmAAEAAEARrSfAqAEqCsgBBXppAbsAEqSFAEERAAAAAAAAQA=='',
      ''QUIC: short header w/ connection id but non-existing mapping''),
     (''AgAAAAAAAQAAAAAACABFAAAmAAEAAEARrSfAqAEqCsgBBXppAbsAEqt3AEAAAwQFBgcAQA=='',
      ''QUIC: short header w/ conn id. host id = 0. CH. LRU hit''),
     (''AgAAAAAAAQAAAAAACABFAAXdAAEAAEARp53AqAEBCsgBAXppAFAFybmiNzk3ODgzMzcwMzI5NTc3MTA2MzQ0NzM4MDI1MjMwNTczNTY0OTMzMTY3MDI0ODI5Mzg4MDgxMTk5NjQ4NjEzODQwMTgxOTQ4NzUzODg0NjAzMjQ3NzczNjY5NTc2MzY3MDQ1ODE2OTA2Mjg0MjEwOTYyMDg4MjY5NDUyMTQ2OTgzMTQ2NzczMzAzNTcyNDQ1NDE0NDkzNzAwMTI2Mzc5OTQ3NTE5NTk0NjE3Mjc5MzU3OTI5Nzc3NTcwOTI5MzI1ODYwODMwMDM5MDk2MDkxMjAzNTI2MjkxMjY0ODY0NTEzNTQyOTA2NjkyNjQ1NzY5NTgyNTE5NzEwNzA4MTQ2ODA2MjExNzI0NzY2NDgyMzk0MTY0MDA1NDE2Njg4MDc5MTk3MzkxMjA2MzkwMjkxODAwMTUzNTQ3NjAzMTYxMzU3NjU3OTA1MzQ3ODM2NDM1MzYzMzYyMjU4MzUwMzMzMzI3OTY4MzAyMDQ5MTAyNzMwOTE2NDY5NjQ5NjMxNTMyODgzMzg3Mzk3NTgzOTE2MDA0NTU0MDMwODUwMTM5ODUxMzc2NDM4MzIyMjQ1NzU4OTQ2MDYwNDMwOTIxMjY0OTc3MDYxMDE1Nzc4NzQ5ODE2MjMxNDc1NTc0NjgzODE2ODM4NjE5MjU5ODA3NjU1OTMxMjIwNzk1Njk3NjgyMjg0OTU0OTA2ODgwMjYwNjMyNDU5NTAzMzgyNTM1NjczMzQ3MjMyMzQwNjcyNzEyODcyMDg1OTcwNjIxMDA5MDc2NzgyNDM3NDExNzcxNzkxNTUxMzI5ODQyNzExODIxMDc0OTkzMDA0Nzc3MTQ3ODQ2Nzc3OTY4NTk5MDY2MjExNDc2OTc0ODYyNDAwMDI1OTY1NTg5ODcxMzI1MzgwMjY5MDY2MzgzMjAxMjM2MDQ2MTk0MjI2MDk3NDEyMDE3Mzg3MDg4MzI3NTM4MTMwNTIxMTIyNDIwODI3NDA2NjgzMzcwNjczODQ0MTkzNzI0NTk1NTYzNzgzMDQ0NzE0MzA1Mjk3MTA3MTc5NDE2Njc2NzY0NTYxMDQ4ODkyODM1NzM3MTQyNzYxMTUwNTAzNzQ0MTU0OTUzOTQ2MDM1OTcyOTI0NzMxMjM4NTM5ODUwNDYxNDQ4MzE4NDk0NDk2MjY4MzczMTAwMjA2NjUzMjM1NTE2Nzc1NzE2NTI2OTM0NjMyNzI4MjYwNjAyNDgwOTc0NzY5MjU1MzQ5NTIzNzE4OTIxNjk1MDAzMzAzMjU2OTA4NzgwOTQzMDU1NzA4MzU2ODA5NTMxOTk0MzYzNzY1ODYxNzU4NDIxNjcyNTI1NzQ3MzExNzU4ODg4NTM1NTY3MjA1NzQxMjY0OTUwMTU5NzAyNDg5ODE2MzU2MjEzMTc1NDY1NzM5ODU1ODY2MTUzMDEyODUyMzE5ODM3MTMzMTY5NjA5MTA4Mzk5MDQ5NTY5MzkyNzg3MDU5MDA3MzIwMzQ4NDg1NTg3MTQwMjI1NjMwMDAxODA2NjIzOTk3MjYxNDQzMTM1MzgwNTU5MDYxNDczMjMyMzE2MzIzMjgwNTQ4NjYxNDUyODA5ODQyOTcxMDg5OTE1OTk0MTQzODk5ODUzNDI5MTE1MDA0OTQxOTU4NjI5MjI4ODk3NDY5MTczNjk1ODM2OTg2OTA5NzE3NjA1Nzg0NDcxOTk1MjI2NTc5NjgzNTAzMDAxMzQ2MjI5Njk2OTk0NTkyNDc3MDU1NzcxNDk2NDU5MzMxODgxNTE4MjMyODM3NTEzMzg1NjU4MjkwNjUxMTc5MTk4MjEzMzg3MTQwNzYyNDQ1NTAwMjgxNzExMDI3NTcxMTg1NDAwNjMxMTk0NTQ2MDA2ODU1NTgzNzQwNTk3OTQxMjQ5Njk4NzA5MDEyODM0MTIxNzY3MzQyNDU4ODYyMzExNzYwMjQ0Nzk5OTc2MzI1OTc4NTMxNjY1NTM3NjI5OTQ4NjAy'',
      ''UDP: big packet of length 1515. trigger PACKET TOOBIG'')]"

definition outputTestFixtures :: "(string \<times> string) list" where
  "outputTestFixtures = [
     (''AADerb6vAgAAAAAACABFAAA/AAAAAEAEXC2sEGh7CgAAA0UAACsAAQAAQBGtT8CoAQEKyAEBemkAUAAXl95rYXRyYW4gdGVzdCBwa3Q='',
      ''XDP_TX''),
     (''AADerb6vAgAAAAAACABFAABLAAAAAEAEXCGsEGh7CgAAA0UAADcAAQAAQAatTsCoAQEKyAEBemkAUAAAAAAAAAAAUBAgACfkAABrYXRyYW4gdGVzdCBwa3Q='',
      ''XDP_TX''),
     (''AADerb6vAgAAAAAACABFjABLAAAAAEAEW5WsEGh7CgAAA0WMADcAAQAAQAaswsCoAQEKyAEBemkAUAAAAAAAAAAAUBAgACfkAABrYXRyYW4gdGVzdCBwa3Q='',
      ''XDP_TX''),
     (''AADerb6vAgAAAAAACABFAABLAAAAAEAEXCKsEGh7CgAAAkUAADcAAQAAQAatTcCoAQEKyAECemkAKgAAAAAAAAAAUBAgACgJAABrYXRyYW4gdGVzdCBwa3Q='',
      ''XDP_TX''),
     (''AADerb6vAgAAAAAAht1gAAAAADcEQAEAAAAAAAAAAAAAALrBAQH8AAAAAAAAAAAAAAAAAAABRQAANwABAABABq1MwKgBAQrIAQN6aQBQAAAAAAAAAABQECAAJ+IAAGthdHJhbiB0ZXN0IHBrdA=='',
      ''XDP_TX''),
     (''AADerb6vAgAAAAAAht1gAAAAAEspQAEAAAAAAAAAAAAAAHppAAH8AAAAAAAAAAAAAAAAAAADYAAAAAAjBkD8AAACAAAAAAAAAAAAAAAB/AAAAQAAAAAAAAAAAAAAAXppAFAAAAAAAAAAAFAQIAD9TwAAa2F0cmFuIHRlc3QgcGt0'',
      ''XDP_TX''),
     (''AADerb6vAgAAAAAAht1owAAAAEspQAEAAAAAAAAAAAAAAHppAAH8AAAAAAAAAAAAAAAAAAADaMAAAAAjBkD8AAACAAAAAAAAAAAAAAAB/AAAAQAAAAAAAAAAAAAAAXppAFAAAAAAAAAAAFAQIAD9TwAAa2F0cmFuIHRlc3QgcGt0'',
      ''XDP_TX''),
     (''AQAAAAAAAgAAAAAACABFAAAcAAEAAEABrWwKyAEDwKgBAQAA//8AAAAA'',
      ''XDP_TX''),
     (''AQAAAAAAAgAAAAAAht1gAAAAAAg6QPwAAAEAAAAAAAAAAAAAAAH8AAACAAAAAAAAAAAAAAABgQCGtgAAAAA='',
      ''XDP_TX''),
     (''AADerb6vAgAAAAAACABFAABnAAAAAEAEXAWsEGh7CgAAA0UAAFMAAQAAQAFKN8CoZAEKyAEBAwTKlwAAAABFAAA3AAEAAEAGrU4KyAEBwKgBAQBQemkAAAAAAAAAAFACIAAZAQAAdGVzdCBrYXRyYW4gcGt0'',
      ''XDP_TX''),
     (''AADerb6vAgAAAAAAht1gAAAAAH4pQAEAAAAAAAAAAAAAAHppAAH8AAAAAAAAAAAAAAAAAAADYAAAAABWOkD8AAIAAAAAAAAAAAAAAAAB/AAAAQAAAAAAAAAAAAAAAQIAmDAAAAUAYAAAAAAmBkD8AAABAAAAAAAAAAAAAAAB/AAAAgAAAAAAAAAAAAAAAQBQemkAAAAAAAAAAFACIACohQAAa2F0cmFuIHRlc3QgcGFja2V0'',
      ''XDP_TX''),
     (''AgAAAAAAAQAAAAAACABGAAA3AAEAAEAGrE7AqAEBCsgBAXppAFAAAAAAAAAAAFAQIAAn5AAAa2F0cmFuIHRlc3QgcGt0'',
      ''XDP_DROP''),
     (''AgAAAAAAAQAAAAAACABFAAA3AAEgAEAGjU7AqAEBCsgBAXppAFAAAAAAAAAAAFAQIAAn5AAAa2F0cmFuIHRlc3QgcGt0'',
      ''XDP_DROP''),
     (''AgAAAAAAAQAAAAAAht1gAAAAACMsQPwAAAIAAAAAAAAAAAAAAAH8AAABAAAAAAAAAAAAAAABemkAUAAAAAAAAAAAUBAgAP1PAABrYXRyYW4gdGVzdCBwa3Q='',
      ''XDP_DROP''),
     (''AgAAAAAAAQAAAAAACABFAAA3AAEAAEAGrU7AqAEBCsgBAXppAFIAAAAAAAAAAFAQIAAn4gAAa2F0cmFuIHRlc3QgcGt0'',
      ''XDP_PASS''),
     (''AgAAAAAAAQAAAAAAht1gAAAAACMGQPwAAAIAAAAAAAAAAAAAAAH8AAABAAAAAAAAAAAAAAABemkAUgAAAAAAAAAAUBAgAP1NAABrYXRyYW4gdGVzdCBwa3Q='',
      ''XDP_PASS''),
     (''AgAAAAAAAQAAAAAACAYAAQgABgQAAQAAAAAAAAAAAAAAAAAAAAAAAAAA'',
      ''XDP_PASS''),
     (''AADerb6vAgAAAAAACABFAABLAAAAAEAEXCGsEGh7CgAAA0UAADcAAQAAQAatTsCoAQEKyAEBemkAUAAAAAAAAAAAUBAgACfkAABrYXRyYW4gdGVzdCBwa3Q='',
      ''XDP_TX''),
     (''AADerb6vAgAAAAAACABFAABLAAAAAEAEmp2sECoACgAAAkUAADcAAQAAQAatS8CoAQEKyAEEemkAKgAAAAAAAAAAUBAgACgHAABrYXRyYW4gdGVzdCBwa3Q='',
      ''XDP_TX''),
     (''AADerb6vAgAAAAAACABFAABLAAAAAEAEmp2sECoACgAAAkUAADcAAQAAQAas6MCoAWQKyAEEBTkAKgAAAAAAAAAAUBAgAJzUAABrYXRyYW4gdGVzdCBwa3Q='',
      ''XDP_TX''),
     (''AgAAAAAAAQAAAAAACABFAAA/AAEAAEAEvZesEAEBrBBkAUUAACsAAQAAQBGtT8CoAQEKyAEBemkAUAAXl95rYXRyYW4gdGVzdCBwa3Q='',
      ''XDP_PASS''),
     (''AgAAAAAAAQAAAAAAht1gAAAAAEspQAEAAAAAAAAAAAAAAAAAAAEBAAAAAAAAAAAAAAAAAAACYAAAAAAjBkD8AAACAAAAAAAAAAAAAAAB/AAAAQAAAAAAAAAAAAAAAXppAFAAAAAAAAAAAFAQIAD9TwAAa2F0cmFuIHRlc3QgcGt0'',
      ''XDP_PASS''),
     (''AgAAAAAAAQAAAAAAht1gAAAAACsEQAEAAAAAAAAAAAAAAAAAAAEBAAAAAAAAAAAAAAAAAAACRQAAKwABAABAEa1PwKgBAQrIAQF6aQBQABeX3mthdHJhbiB0ZXN0IHBrdA=='',
      ''XDP_PASS''),
     (''AADerb6vAgAAAAAACABFAABNAAAAAEAEXEusEGhQCgAAAkUAADkAAQAAQBGtFMCoASoKyAEFemkBuwAlt2zP+s6wAQhBAgMEBQYHAAABEQFxdWljIGRhdGEAQA=='',
      ''XDP_TX''),
     (''AADerb6vAgAAAAAACABFAABNAAAAAEAEXEusEGhQCgAAAkUAADkAAQAAQBGtFMCoASoKyAEFemkBuwAls0bf+s6wAQhD/zNEVWZ3iAABEQFxdWljIGRhdGEAQA=='',
      ''XDP_TX''),
     (''AADerb6vAgAAAAAACABFAABNAAAAAEAEXEysEGhQCgAAAUUAADkAAQAAQBGtFMCoASoKyAEFemkBuwAllG3v+s6wAQhEAQMEBQYHAAABEQFxdWljIGRhdGEAQA=='',
      ''XDP_TX''),
     (''AADerb6vAgAAAAAACABFAABNAAAAAEAEXEysEGhQCgAAAUUAADkAAQAAQBGtFMCoASoKyAEFemkBuwAlhG3/+s6wAQhEAQMEBQYHAAABEQFxdWljIGRhdGEAQA=='',
      ''XDP_TX''),
     (''AADerb6vAgAAAAAAht1gAAAAAE0pQAEAAAAAAAAAAAAAAHppAEL8AAAAAAAAAAAAAAAAAAABYAAAAAAlEUD8AAACAAAAAAAAAAAAAABC/AAAAQAAAAAAAAAAAAAAAnppAbsAJYnEz/rOsAEIRAEDBAUGBwAAAREBcXVpYyBkYXRhAEA='',
      ''XDP_TX''),
     (''AADerb6vAgAAAAAACABFAAAxAAAAAEAEXGesEGhQCgAAAkUAAB0AAQAAQBGtMMCoASoKyAEFemkBuwAJthgA'',
      ''XDP_TX''),
     (''AADerb6vAgAAAAAAht1gAAAAACYEQAEAAAAAAAAAAAAAALrBASr8AAAAAAAAAAAAAAAAAAACRQAAJgABAABAEa0nwKgBKgrIAQV6aQG7ABKq9gBBAIMEBQYHAEA='',
      ''XDP_TX''),
     (''AADerb6vAgAAAAAACABFAAA6AAAAAEAEXF+sEGhQCgAAAUUAACYAAQAAQBGtJ8CoASoKyAEFemkBuwASpIUAQREAAAAAAABA'',
      ''XDP_TX''),
     (''AADerb6vAgAAAAAACABFAAA6AAAAAEAEXF6sEGhQCgAAAkUAACYAAQAAQBGtJ8CoASoKyAEFemkBuwASq3cAQAADBAUGBwBA'',
      ''XDP_TX''),
     (''AgAAAAAAAQAAAAAACABFAAXdAAEAAEARp53AqAEBCsgBAXppAFAFybmiNzk3ODgzMzcwMzI5NTc3MTA2MzQ0NzM4MDI1MjMwNTczNTY0OTMzMTY3MDI0ODI5Mzg4MDgxMTk5NjQ4NjEzODQwMTgxOTQ4NzUzODg0NjAzMjQ3NzczNjY5NTc2MzY3MDQ1ODE2OTA2Mjg0MjEwOTYyMDg4MjY5NDUyMTQ2OTgzMTQ2NzczMzAzNTcyNDQ1NDE0NDkzNzAwMTI2Mzc5OTQ3NTE5NTk0NjE3Mjc5MzU3OTI5Nzc3NTcwOTI5MzI1ODYwODMwMDM5MDk2MDkxMjAzNTI2MjkxMjY0ODY0NTEzNTQyOTA2NjkyNjQ1NzY5NTgyNTE5NzEwNzA4MTQ2ODA2MjExNzI0NzY2NDgyMzk0MTY0MDA1NDE2Njg4MDc5MTk3MzkxMjA2MzkwMjkxODAwMTUzNTQ3NjAzMTYxMzU3NjU3OTA1MzQ3ODM2NDM1MzYzMzYyMjU4MzUwMzMzMzI3OTY4MzAyMDQ5MTAyNzMwOTE2NDY5NjQ5NjMxNTMyODgzMzg3Mzk3NTgzOTE2MDA0NTU0MDMwODUwMTM5ODUxMzc2NDM4MzIyMjQ1NzU4OTQ2MDYwNDMwOTIxMjY0OTc3MDYxMDE1Nzc4NzQ5ODE2MjMxNDc1NTc0NjgzODE2ODM4NjE5MjU5ODA3NjU1OTMxMjIwNzk1Njk3NjgyMjg0OTU0OTA2ODgwMjYwNjMyNDU5NTAzMzgyNTM1NjczMzQ3MjMyMzQwNjcyNzEyODcyMDg1OTcwNjIxMDA5MDc2NzgyNDM3NDExNzcxNzkxNTUxMzI5ODQyNzExODIxMDc0OTkzMDA0Nzc3MTQ3ODQ2Nzc3OTY4NTk5MDY2MjExNDc2OTc0ODYyNDAwMDI1OTY1NTg5ODcxMzI1MzgwMjY5MDY2MzgzMjAxMjM2MDQ2MTk0MjI2MDk3NDEyMDE3Mzg3MDg4MzI3NTM4MTMwNTIxMTIyNDIwODI3NDA2NjgzMzcwNjczODQ0MTkzNzI0NTk1NTYzNzgzMDQ0NzE0MzA1Mjk3MTA3MTc5NDE2Njc2NzY0NTYxMDQ4ODkyODM1NzM3MTQyNzYxMTUwNTAzNzQ0MTU0OTUzOTQ2MDM1OTcyOTI0NzMxMjM4NTM5ODUwNDYxNDQ4MzE4NDk0NDk2MjY4MzczMTAwMjA2NjUzMjM1NTE2Nzc1NzE2NTI2OTM0NjMyNzI4MjYwNjAyNDgwOTc0NzY5MjU1MzQ5NTIzNzE4OTIxNjk1MDAzMzAzMjU2OTA4NzgwOTQzMDU1NzA4MzU2ODA5NTMxOTk0MzYzNzY1ODYxNzU4NDIxNjcyNTI1NzQ3MzExNzU4ODg4NTM1NTY3MjA1NzQxMjY0OTUwMTU5NzAyNDg5ODE2MzU2MjEzMTc1NDY1NzM5ODU1ODY2MTUzMDEyODUyMzE5ODM3MTMzMTY5NjA5MTA4Mzk5MDQ5NTY5MzkyNzg3MDU5MDA3MzIwMzQ4NDg1NTg3MTQwMjI1NjMwMDAxODA2NjIzOTk3MjYxNDQzMTM1MzgwNTU5MDYxNDczMjMyMzE2MzIzMjgwNTQ4NjYxNDUyODA5ODQyOTcxMDg5OTE1OTk0MTQzODk5ODUzNDI5MTE1MDA0OTQxOTU4NjI5MjI4ODk3NDY5MTczNjk1ODM2OTg2OTA5NzE3NjA1Nzg0NDcxOTk1MjI2NTc5NjgzNTAzMDAxMzQ2MjI5Njk2OTk0NTkyNDc3MDU1NzcxNDk2NDU5MzMxODgxNTE4MjMyODM3NTEzMzg1NjU4MjkwNjUxMTc5MTk4MjEzMzg3MTQwNzYyNDQ1NTAwMjgxNzExMDI3NTcxMTg1NDAwNjMxMTk0NTQ2MDA2ODU1NTgzNzQwNTk3OTQxMjQ5Njk4NzA5MDEyODM0MTIxNzY3MzQyNDU4ODYyMzExNzYwMjQ0Nzk5OTc2MzI1OTc4NTMxNjY1NTM3NjI5OTQ4NjAy'',
      ''XDP_DROP'')]"

section \<open>\<open>KatranGueTestFixtures.h\<close>: GUE encapsulation\<close>

definition inputGueTestFixtures :: "(string \<times> string) list" where
  "inputGueTestFixtures = [
     (''AgAAAAAAAQAAAAAACABFAAArAAEAAEARrU/AqAEBCsgBAXppAFAAF5fea2F0cmFuIHRlc3QgcGt0'',
      ''packet to UDP based v4 VIP (and v4 real)''),
     (''AgAAAAAAAQAAAAAACABFAAA3AAEAAEAGrU7AqAEBCsgBAXppAFAAAAAAAAAAAFAQIAAn5AAAa2F0cmFuIHRlc3QgcGt0'',
      ''packet to TCP based v4 VIP (and v4 real)''),
     (''AgAAAAAAAQAAAAAACABFAAA3AAEAAEAGrU3AqAEBCsgBAnppACoAAAAAAAAAAFAQIAAoCQAAa2F0cmFuIHRlc3QgcGt0'',
      ''packet to TCP based v4 VIP (and v4 real; any dst ports).''),
     (''AgAAAAAAAQAAAAAACABFAAA3AAEAAEAGrUzAqAEBCsgBA3ppAFAAAAAAAAAAAFAQIAAn4gAAa2F0cmFuIHRlc3QgcGt0'',
      ''packet to TCP based v4 VIP (and v6 real)''),
     (''AgAAAAAAAQAAAAAAht1gAAAAACMGQPwAAAIAAAAAAAAAAAAAAAH8AAABAAAAAAAAAAAAAAABemkAUAAAAAAAAAAAUBAgAP1PAABrYXRyYW4gdGVzdCBwa3Q='',
      ''packet to TCP based v6 VIP (and v6 real)''),
     (''AgAAAAAAAQAAAAAACABFAAAcAAEAAEABrWzAqAEBCsgBAwgA9/8AAAAA'',
      ''v4 ICMP echo-request''),
     (''AgAAAAAAAQAAAAAAht1gAAAAAAg6QPwAAAIAAAAAAAAAAAAAAAH8AAABAAAAAAAAAAAAAAABgACHtgAAAAA='',
      ''v6 ICMP echo-request''),
     (''AgAAAAAAAQAAAAAACABFAABTAAEAAEABSjfAqGQBCsgBAQMEypcAAAAARQAANwABAABABq1OCsgBAcCoAQEAUHppAAAAAAAAAABQAiAAGQEAAHRlc3Qga2F0cmFuIHBrdA=='',
      ''v4 ICMP dest-unreachabe fragmentation-needed''),
     (''AgAAAAAAAQAAAAAAht1gAAAAAFY6QPwAAgAAAAAAAAAAAAAAAAH8AAABAAAAAAAAAAAAAAABAgCYMAAABQBgAAAAACYGQPwAAAEAAAAAAAAAAAAAAAH8AAACAAAAAAAAAAAAAAABAFB6aQAAAAAAAAAAUAIgAKiFAABrYXRyYW4gdGVzdCBwYWNrZXQ='',
      ''v6 ICMP packet-too-big''),
     (''AgAAAAAAAQAAAAAACABGAAA3AAEAAEAGrE7AqAEBCsgBAXppAFAAAAAAAAAAAFAQIAAn5AAAa2F0cmFuIHRlc3QgcGt0'',
      ''drop of IPv4 packet w/ options''),
     (''AgAAAAAAAQAAAAAACABFAAA3AAEgAEAGjU7AqAEBCsgBAXppAFAAAAAAAAAAAFAQIAAn5AAAa2F0cmFuIHRlc3QgcGt0'',
      ''drop of IPv4 fragmented packet''),
     (''AgAAAAAAAQAAAAAAht1gAAAAACMsQPwAAAIAAAAAAAAAAAAAAAH8AAABAAAAAAAAAAAAAAABemkAUAAAAAAAAAAAUBAgAP1PAABrYXRyYW4gdGVzdCBwa3Q='',
      ''drop of IPv6 fragmented packet''),
     (''AgAAAAAAAQAAAAAACABFAAA3AAEAAEAGrU7AqAEBCsgBAXppAFIAAAAAAAAAAFAQIAAn4gAAa2F0cmFuIHRlc3QgcGt0'',
      ''pass of v4 packet with dst not equal to any configured VIP''),
     (''AgAAAAAAAQAAAAAAht1gAAAAACMGQPwAAAIAAAAAAAAAAAAAAAH8AAABAAAAAAAAAAAAAAABemkAUgAAAAAAAAAAUBAgAP1NAABrYXRyYW4gdGVzdCBwa3Q='',
      ''pass of v6 packet with dst not equal to any configured VIP''),
     (''AgAAAAAAAQAAAAAACAYAAQgABgQAAQAAAAAAAAAAAAAAAAAAAAAAAAAA'',
      ''pass of arp packet''),
     (''AgAAAAAAAQAAAAAACABFAAA3AAEAAEAGrU7AqAEBCsgBAXppAFAAAAAAAAAAAFAQIAAn5AAAa2F0cmFuIHRlc3QgcGt0'',
      ''LRU hit''),
     (''AgAAAAAAAQAAAAAACABFAAA3AAEAAEAGrUvAqAEBCsgBBHppACoAAAAAAAAAAFAQIAAoBwAAa2F0cmFuIHRlc3QgcGt0'',
      ''packet #1 dst port hashing only''),
     (''AgAAAAAAAQAAAAAACABFAAA3AAEAAEAGrOjAqAFkCsgBBAU5ACoAAAAAAAAAAFAQIACc1AAAa2F0cmFuIHRlc3QgcGt0'',
      ''packet #2 dst port hashing only''),
     (''AgAAAAAAAQAAAAAACABFAABHAAEAAEARvYKsEAEBrBBkAQU5F8AAM/MGRQAAKwABAABAEa1PwKgBAQrIAQF6aQBQABeX3mthdHJhbiB0ZXN0IHBrdA=='',
      ''gue ipv4 inner ipv4 outer packet''),
     (''AgAAAAAAAQAAAAAAht1gAAAAAFMRQAEAAAAAAAAAAAAAAAAAAAEBAAAAAAAAAAAAAAAAAAACBTkXwABTehJgAAAAACMGQPwAAAIAAAAAAAAAAAAAAAH8AAABAAAAAAAAAAAAAAABemkAUAAAAAAAAAAAUBAgAP1PAABrYXRyYW4gdGVzdCBwa3Q='',
      ''gue ipv6 inner ipv6 outer packet''),
     (''AgAAAAAAAQAAAAAAht1gAAAAADMRQAEAAAAAAAAAAAAAAAAAAAEBAAAAAAAAAAAAAAAAAAACBTkXwAAzridFAAArAAEAAEARrU/AqAEBCsgBAXppAFAAF5fea2F0cmFuIHRlc3QgcGt0'',
      ''gue ipv4 inner ipv6 outer packet''),
     (''AgAAAAAAAQAAAAAACABFAAA5AAEAAEARrRTAqAEqCsgBBXppAbsAJbdsz/rOsAEIQQIDBAUGBwAAAREBcXVpYyBkYXRhAEA='',
      ''QUIC: long header. Client Initial type. LRU miss''),
     (''AgAAAAAAAQAAAAAACABFAAA5AAEAAEARrRTAqAEqCsgBBXppAbsAJbNG3/rOsAEIQ/8zRFVmd4gAAREBcXVpYyBkYXRhAEA='',
      ''QUIC: long header. 0-RTT Protected. CH. LRU hit.''),
     (''AgAAAAAAAQAAAAAACABFAAA5AAEAAEARrRTAqAEqCsgBBXppAbsAJZRt7/rOsAEIRAEDBAUGBwAAAREBcXVpYyBkYXRhAEA='',
      ''QUIC: long header. Handshake. v4 vip v6 real. Conn Id based.''),
     (''AgAAAAAAAQAAAAAACABFAAA5AAEAAEARrRTAqAEqCsgBBXppAbsAJYRt//rOsAEIRAEDBAUGBwAAAREBcXVpYyBkYXRhAEA='',
      ''QUIC: long header. Retry. v4 vip v6 real. Conn Id based.''),
     (''AgAAAAAAAQAAAAAAht1gAAAAACURQPwAAAIAAAAAAAAAAAAAAEL8AAABAAAAAAAAAAAAAAACemkBuwAlicTP+s6wAQhEAQMEBQYHAAABEQFxdWljIGRhdGEAQA=='',
      ''QUIC: long header. client initial. v6 vip v6 real. LRU miss''),
     (''AgAAAAAAAQAAAAAACABFAAAdAAEAAEARrTDAqAEqCsgBBXppAbsACbYYAA=='',
      ''QUIC: short header. No connection id. CH. LRU hit''),
     (''AgAAAAAAAQAAAAAACABFAAAmAAEAAEARrSfAqAEqCsgBBXppAbsAEqr2AEEAgwQFBgcAQA=='',
      ''QUIC: short header w/ connection id''),
     (''AgAAAAAAAQAAAAAACABFAAAmAAEAAEARrSfAqAEqCsgBBXppAbsAEqSFAEERAAAAAAAAQA=='',
      ''QUIC: short header w/ connection id but non-existing mapping''),
     (''AgAAAAAAAQAAAAAACABFAAAmAAEAAEARrSfAqAEqCsgBBXppAbsAEqt3AEAAAwQFBgcAQA=='',
      ''QUIC: short header w/ conn id. host id = 0. CH. LRU hit''),
     (''AgAAAAAAAQAAAAAACABFjAA3AAEAAEAGrMLAqAEBCsgBAXppAFAAAAAAAAAAAFAQIAAn5AAAa2F0cmFuIHRlc3QgcGt0'',
      ''packet to TCP based v4 VIP (and v4 real) + ToS in IPV4''),
     (''AgAAAAAAAQAAAAAAht1owAAAACMGQPwAAAIAAAAAAAAAAAAAAAH8AAABAAAAAAAAAAAAAAABemkAUAAAAAAAAAAAUBAgAP1PAABrYXRyYW4gdGVzdCBwa3Q='',
      ''packet to TCP based v6 VIP (and v6 real) with ToS / tc set'')]"

definition outputGueTestFixtures :: "(string \<times> string) list" where
  "outputGueTestFixtures = [
     (''AADerb6vAgAAAAAACABFAABHAAAAAEARWX8KAA0lCgAAA2h7F8AAMwAARQAAKwABAABAEa1PwKgBAQrIAQF6aQBQABeX3mthdHJhbiB0ZXN0IHBrdA=='',
      ''XDP_TX''),
     (''AADerb6vAgAAAAAACABFAABTAAAAAEARWXMKAA0lCgAAA2h7F8AAPwAARQAANwABAABABq1OwKgBAQrIAQF6aQBQAAAAAAAAAABQECAAJ+QAAGthdHJhbiB0ZXN0IHBrdA=='',
      ''XDP_TX''),
     (''AADerb6vAgAAAAAACABFAABTAAAAAEARWXQKAA0lCgAAAmh7F8AAPwAARQAANwABAABABq1NwKgBAQrIAQJ6aQAqAAAAAAAAAABQECAAKAkAAGthdHJhbiB0ZXN0IHBrdA=='',
      ''XDP_TX''),
     (''AADerb6vAgAAAAAAht1gAAAAAD8RQPwAIwcAAAAAAAAAAAAAEzf8AAAAAAAAAAAAAAAAAAABe2gXwAA/AABFAAA3AAEAAEAGrUzAqAEBCsgBA3ppAFAAAAAAAAAAAFAQIAAn4gAAa2F0cmFuIHRlc3QgcGt0'',
      ''XDP_TX''),
     (''AADerb6vAgAAAAAAht1gAAAAAFMRQPwAIwcAAAAAAAAAAAAAEzf8AAAAAAAAAAAAAAAAAAADemkXwABTAABgAAAAACMGQPwAAAIAAAAAAAAAAAAAAAH8AAABAAAAAAAAAAAAAAABemkAUAAAAAAAAAAAUBAgAP1PAABrYXRyYW4gdGVzdCBwa3Q='',
      ''XDP_TX''),
     (''AQAAAAAAAgAAAAAACABFAAAcAAEAAEABrWwKyAEDwKgBAQAA//8AAAAA'',
      ''XDP_TX''),
     (''AQAAAAAAAgAAAAAAht1gAAAAAAg6QPwAAAEAAAAAAAAAAAAAAAH8AAACAAAAAAAAAAAAAAABgQCGtgAAAAA='',
      ''XDP_TX''),
     (''AADerb6vAgAAAAAACABFAABvAAAAAEARWVcKAA0lCgAAA2h7F8AAWwAARQAAUwABAABAAUo3wKhkAQrIAQEDBMqXAAAAAEUAADcAAQAAQAatTgrIAQHAqAEBAFB6aQAAAAAAAAAAUAIgABkBAAB0ZXN0IGthdHJhbiBwa3Q='',
      ''XDP_TX''),
     (''AADerb6vAgAAAAAAht1gAAAAAIYRQPwAIwcAAAAAAAAAAAAAEzf8AAAAAAAAAAAAAAAAAAADemkXwACGAABgAAAAAFY6QPwAAgAAAAAAAAAAAAAAAAH8AAABAAAAAAAAAAAAAAABAgCYMAAABQBgAAAAACYGQPwAAAEAAAAAAAAAAAAAAAH8AAACAAAAAAAAAAAAAAABAFB6aQAAAAAAAAAAUAIgAKiFAABrYXRyYW4gdGVzdCBwYWNrZXQ='',
      ''XDP_TX''),
     (''AgAAAAAAAQAAAAAACABGAAA3AAEAAEAGrE7AqAEBCsgBAXppAFAAAAAAAAAAAFAQIAAn5AAAa2F0cmFuIHRlc3QgcGt0'',
      ''XDP_DROP''),
     (''AgAAAAAAAQAAAAAACABFAAA3AAEgAEAGjU7AqAEBCsgBAXppAFAAAAAAAAAAAFAQIAAn5AAAa2F0cmFuIHRlc3QgcGt0'',
      ''XDP_DROP''),
     (''AgAAAAAAAQAAAAAAht1gAAAAACMsQPwAAAIAAAAAAAAAAAAAAAH8AAABAAAAAAAAAAAAAAABemkAUAAAAAAAAAAAUBAgAP1PAABrYXRyYW4gdGVzdCBwa3Q='',
      ''XDP_DROP''),
     (''AgAAAAAAAQAAAAAACABFAAA3AAEAAEAGrU7AqAEBCsgBAXppAFIAAAAAAAAAAFAQIAAn4gAAa2F0cmFuIHRlc3QgcGt0'',
      ''XDP_PASS''),
     (''AgAAAAAAAQAAAAAAht1gAAAAACMGQPwAAAIAAAAAAAAAAAAAAAH8AAABAAAAAAAAAAAAAAABemkAUgAAAAAAAAAAUBAgAP1NAABrYXRyYW4gdGVzdCBwa3Q='',
      ''XDP_PASS''),
     (''AgAAAAAAAQAAAAAACAYAAQgABgQAAQAAAAAAAAAAAAAAAAAAAAAAAAAA'',
      ''XDP_PASS''),
     (''AADerb6vAgAAAAAACABFAABTAAAAAEARWXMKAA0lCgAAA2h7F8AAPwAARQAANwABAABABq1OwKgBAQrIAQF6aQBQAAAAAAAAAABQECAAJ+QAAGthdHJhbiB0ZXN0IHBrdA=='',
      ''XDP_TX''),
     (''AADerb6vAgAAAAAACABFAABTAAAAAEARWXQKAA0lCgAAAioAF8AAPwAARQAANwABAABABq1LwKgBAQrIAQR6aQAqAAAAAAAAAABQECAAKAcAAGthdHJhbiB0ZXN0IHBrdA=='',
      ''XDP_TX''),
     (''AADerb6vAgAAAAAACABFAABTAAAAAEARWXQKAA0lCgAAAioAF8AAPwAARQAANwABAABABqzowKgBZArIAQQFOQAqAAAAAAAAAABQECAAnNQAAGthdHJhbiB0ZXN0IHBrdA=='',
      ''XDP_TX''),
     (''AgAAAAAAAQAAAAAACABFAABHAAEAAEARvYKsEAEBrBBkAQU5F8AAM/MGRQAAKwABAABAEa1PwKgBAQrIAQF6aQBQABeX3mthdHJhbiB0ZXN0IHBrdA=='',
      ''XDP_PASS''),
     (''AgAAAAAAAQAAAAAAht1gAAAAAFMRQAEAAAAAAAAAAAAAAAAAAAEBAAAAAAAAAAAAAAAAAAACBTkXwABTehJgAAAAACMGQPwAAAIAAAAAAAAAAAAAAAH8AAABAAAAAAAAAAAAAAABemkAUAAAAAAAAAAAUBAgAP1PAABrYXRyYW4gdGVzdCBwa3Q='',
      ''XDP_PASS''),
     (''AgAAAAAAAQAAAAAAht1gAAAAADMRQAEAAAAAAAAAAAAAAAAAAAEBAAAAAAAAAAAAAAAAAAACBTkXwAAzridFAAArAAEAAEARrU/AqAEBCsgBAXppAFAAF5fea2F0cmFuIHRlc3QgcGt0'',
      ''XDP_PASS''),
     (''AADerb6vAgAAAAAACABFAABVAAAAAEARWXIKAA0lCgAAAmhQF8AAQQAARQAAOQABAABAEa0UwKgBKgrIAQV6aQG7ACW3bM/6zrABCEECAwQFBgcAAAERAXF1aWMgZGF0YQBA'',
      ''XDP_TX''),
     (''AADerb6vAgAAAAAACABFAABVAAAAAEARWXIKAA0lCgAAAmhQF8AAQQAARQAAOQABAABAEa0UwKgBKgrIAQV6aQG7ACWzRt/6zrABCEP/M0RVZneIAAERAXF1aWMgZGF0YQBA'',
      ''XDP_TX''),
     (''AADerb6vAgAAAAAACABFAABVAAAAAEARWXMKAA0lCgAAAWhQF8AAQQAARQAAOQABAABAEa0UwKgBKgrIAQV6aQG7ACWUbe/6zrABCEQBAwQFBgcAAAERAXF1aWMgZGF0YQBA'',
      ''XDP_TX''),
     (''AADerb6vAgAAAAAACABFAABVAAAAAEARWXMKAA0lCgAAAWhQF8AAQQAARQAAOQABAABAEa0UwKgBKgrIAQV6aQG7ACWEbf/6zrABCEQBAwQFBgcAAAERAXF1aWMgZGF0YQBA'',
      ''XDP_TX''),
     (''AADerb6vAgAAAAAAht1gAAAAAFURQPwAIwcAAAAAAAAAAAAAEzf8AAAAAAAAAAAAAAAAAAABemkXwABVAABgAAAAACURQPwAAAIAAAAAAAAAAAAAAEL8AAABAAAAAAAAAAAAAAACemkBuwAlicTP+s6wAQhEAQMEBQYHAAABEQFxdWljIGRhdGEAQA=='',
      ''XDP_TX''),
     (''AADerb6vAgAAAAAACABFAAA5AAAAAEARWY4KAA0lCgAAAmhQF8AAJQAARQAAHQABAABAEa0wwKgBKgrIAQV6aQG7AAm2GAA='',
      ''XDP_TX''),
     (''AADerb6vAgAAAAAAht1gAAAAAC4RQPwAIwcAAAAAAAAAAAAAEzf8AAAAAAAAAAAAAAAAAAACe0MXwAAuAABFAAAmAAEAAEARrSfAqAEqCsgBBXppAbsAEqr2AEEAgwQFBgcAQA=='',
      ''XDP_TX''),
     (''AADerb6vAgAAAAAACABFAABCAAAAAEARWYYKAA0lCgAAAWhQF8AALgAARQAAJgABAABAEa0nwKgBKgrIAQV6aQG7ABKkhQBBEQAAAAAAAEA='',
      ''XDP_TX''),
     (''AADerb6vAgAAAAAACABFAABCAAAAAEARWYUKAA0lCgAAAmhQF8AALgAARQAAJgABAABAEa0nwKgBKgrIAQV6aQG7ABKrdwBAAAMEBQYHAEA='',
      ''XDP_TX''),
     (''AADerb6vAgAAAAAACABFjABTAAAAAEARWOcKAA0lCgAAA2h7F8AAPwAARYwANwABAABABqzCwKgBAQrIAQF6aQBQAAAAAAAAAABQECAAJ+QAAGthdHJhbiB0ZXN0IHBrdA=='',
      ''XDP_TX''),
     (''AADerb6vAgAAAAAAht1owAAAAFMRQPwAIwcAAAAAAAAAAAAAEzf8AAAAAAAAAAAAAAAAAAADemkXwABTAABowAAAACMGQPwAAAIAAAAAAAAAAAAAAAH8AAABAAAAAAAAAAAAAAABemkAUAAAAAAAAAAAUBAgAP1PAABrYXRyYW4gdGVzdCBwa3Q='',
      ''XDP_TX'')]"

end
