(* ===== verification/Test_Suite.thy ===== *)
theory Test_Suite
  imports Tester Fixtures
begin

text \<open>
  The test suite of the repository, run on the model of the balancer: the 33 packets of \<open>KatranTestFixtures.h\<close> go one after the other
  through \<open>balancer_ingress\<close> and the result is compared byte for byte. The maps are written down here after what \<open>prepareLbData\<close> configures,
  and the slots of the rings that the packets hit name the reals of the expected packets, so the run validates the processing of packets and not the
  choice of a real. The evaluation
  is done by the simplifier: the definitions of the program in the collection \<open>suite\<close>, with congruence rules that evaluate the
  argument of a bind or of a let before its body.
\<close>

unbundle bit_operations_syntax

section \<open>The maps after provisioning\<close>

definition v4_vip :: "u32 \<Rightarrow> u16 \<Rightarrow> u8 \<Rightarrow> vip_definition" where
  "v4_vip a port prot = \<lparr>vipv6 = in6_v4 a, vip_port = bpf_htons port, vip_proto = prot\<rparr>"

definition v6_addr :: "u32 \<Rightarrow> u32 \<Rightarrow> in6" where
  "v6_addr a d = \<lparr>s6_0 = a, s6_1 = 0, s6_2 = 0, s6_3 = d\<rparr>"

definition v6_vip :: "u32 \<Rightarrow> u32 \<Rightarrow> u16 \<Rightarrow> u8 \<Rightarrow> vip_definition" where
  "v6_vip a d port prot = \<lparr>vipv6 = v6_addr a d, vip_port = bpf_htons port, vip_proto = prot\<rparr>"

text \<open>The services in the order in which \<open>prepareLbData\<close> adds them; addresses are in the byte order of the wire.\<close>

definition test_vips :: "vip_definition \<Rightarrow> vip_meta option" where
  "test_vips v = map_of [
     (v4_vip 0x0101C80A kVipPort kUdp, \<lparr>vip_flags = 0, vip_num = 0\<rparr>), (v4_vip 0x0101C80A kVipPort kTcp, \<lparr>vip_flags = 0, vip_num = 1\<rparr>),
     (v4_vip 0x0201C80A 0 kTcp, \<lparr>vip_flags = 0, vip_num = 2\<rparr>), (v4_vip 0x0401C80A 0 kTcp, \<lparr>vip_flags = kDportHash, vip_num = 3\<rparr>),
     (v4_vip 0x0301C80A kVipPort kTcp, \<lparr>vip_flags = 0, vip_num = 4\<rparr>), (v6_vip 0x010000FC 0x01000000 kVipPort kTcp, \<lparr>vip_flags = 0, vip_num = 5\<rparr>),
     (v4_vip 0x0501C80A 443 kUdp, \<lparr>vip_flags = kQuicVip, vip_num = 6\<rparr>), (v6_vip 0x010000FC 0x02000000 443 kUdp, \<lparr>vip_flags = kQuicVip, vip_num = 7\<rparr>)] v"

text \<open>The six addresses of \<open>kReals\<close>.\<close>

definition test_reals :: "u32 \<Rightarrow> real_definition option" where
  "test_reals k =
     (if k < 3 then Some \<lparr>real_dstv6 = in6_v4 (0x0100000A + k * 0x01000000), real_flags = 0\<rparr>
      else if k < 6 then Some \<lparr>real_dstv6 = v6_addr 0x000000FC ((k - 2) * 0x01000000), real_flags = 1\<rparr>
      else Some \<lparr>real_dstv6 = in6_zero, real_flags = 0\<rparr>)"

text \<open>The slots of the rings the packets hit, with the reals the expected packets name; the other slots do not matter. The rings
  depend on the hash function of the addresses, which belongs to folly.\<close>

definition test_ring :: "u32 \<Rightarrow> u32 option" where
  "test_ring k = Some (case map_of [(48717, 2), (114254, 2), (171036, 1), (242959, 1), (310865, 3), (365190, 5), (399300, 1), (501749, 3)] k of Some real \<Rightarrow> real | None \<Rightarrow> 0)"

definition test_quic :: "u32 \<Rightarrow> u32 option" where
  "test_quic k = Some (case map_of [(1022, 0), (1023, 1), (1025, 2), (1024, 3), (1026, 4), (1027, 5)] k of Some real \<Rightarrow> real | None \<Rightarrow> 0)"

definition no_counts :: "u32 \<Rightarrow> lb_stats option" where
  "no_counts k = Some \<lparr>v1 = 0, v2 = 0\<rparr>"

definition no_entry :: "'a \<Rightarrow> 'b option" where
  "no_entry k = None"

text \<open>\<open>kDefaultMac\<close>.\<close>

definition test_mac :: "u32 \<Rightarrow> ctl_value option" where
  "test_mac k = Some \<lparr>ctl_u64 = 0xAFBEADDE0000\<rparr>"

definition prepared :: bpf_state where
  "prepared = \<lparr>pkt = [], clock_reads = 0, event_pipe = [], vip_map = test_vips, lru_maps_mapping = no_entry, fallback_lru_cache = no_entry,
     ch_rings = test_ring, reals = test_reals, reals_stats = no_counts, stats = no_counts, quic_mapping = test_quic,
     lpm_src_v4 = no_entry, lpm_src_v6 = no_entry, ctl_array = test_mac, decap_dst = no_entry, pckt_srcs = no_entry\<rparr>"

section \<open>Running fixtures\<close>

definition verdict_of :: "(string \<times> string) \<times> (string \<times> string) \<Rightarrow> xdp_action \<Rightarrow> packet \<Rightarrow> verdict" where
  "verdict_of f a q = (case f of ((input, desc), (expected, code)) \<Rightarrow>
     if (case kXdpCodes (sint (xdp_code a)) of None \<Rightarrow> ''UNKNOWN'' | Some c \<Rightarrow> c) = code \<and> base64Encode ex_b64 q = expected
     then Passed desc else Failed_test desc)"

fun check_all :: "build_flags \<Rightarrow> bpf_helpers \<Rightarrow> ((string \<times> string) \<times> (string \<times> string)) list \<Rightarrow> bpf_state \<Rightarrow> (verdict list \<times> bpf_state) option" where
  "check_all B H [] s = Some ([], s)"
| "check_all B H (f # fs) s =
     (case base64Decode ex_b64 (fst (fst f)) of None \<Rightarrow> None
      | Some p \<Rightarrow> (case balancer_run B H (\<lambda>_. False) (s\<lparr>pkt := p\<rparr>) of None \<Rightarrow> None
          | Some (a, t) \<Rightarrow> map_option (apfst ((#) (verdict_of f a (pkt t)))) (check_all B H fs (t\<lparr>pkt := []\<rparr>))))"

lemma check_all_append:
  "check_all B H (fs @ gs) s = (case check_all B H fs s of None \<Rightarrow> None | Some (vs, t) \<Rightarrow> map_option (apfst ((@) vs)) (check_all B H gs t))"
proof (induction fs arbitrary: s)
  case Nil
  have "apfst ((@) []) = (id :: verdict list \<times> bpf_state \<Rightarrow> _)" by auto
  then show ?case by (simp add: option.map_id)
next
  case (Cons f fs)
  have "(@) (v # vs) = (\<lambda>ws. v # vs @ ws)" for v :: verdict and vs by auto
  then show ?case using Cons by (auto simp: option.map_comp comp_def apfst_compose split: option.split)
qed

text \<open>The tester gives the verdicts of \<open>check_all\<close>; the packet that the last test leaves is of no interest.\<close>

lemma run_fixtures_check_all:
  assumes L: "b64 L = ex_b64" "run_prog L = balancer_under_test B H (\<lambda>_. False)"
  shows "length ins = length outs \<Longrightarrow> outputFileName (tester_config t) = [] \<Longrightarrow>
    check_all B H (zip ins outs) ((under_test t)\<lparr>pkt := []\<rparr>) = Some (vs, s) \<Longrightarrow>
    \<exists>t'. run_fixtures L fd kXdpCodes (zip ins (zip outs (replicate (length ins) []))) n t = Some (vs, t') \<and> (under_test t')\<lparr>pkt := []\<rparr> = s"
proof (induction ins outs arbitrary: n t vs rule: list_induct2)
  case (Cons i ins e outs)
  obtain input desc expected code where f: "i = (input, desc)" "e = (expected, code)" by fastforce
  obtain p a t1 vs' where run: "base64Decode ex_b64 input = Some p" "balancer_run B H (\<lambda>_. False) ((under_test t)\<lparr>pkt := p\<rparr>) = Some (a, t1)"
    and rest: "check_all B H (zip ins outs) (t1\<lparr>pkt := []\<rparr>) = Some (vs', s)" and vs: "vs = verdict_of (i, e) a (pkt t1) # vs'"
    using Cons.prems(2) f by (auto split: option.splits prod.splits)
  let ?t = "t\<lparr>under_test := t1\<rparr>"
  have out: "writePcapOutput L q u = u" if "tester_config u = tester_config t" for q u
    using that Cons.prems(1) by (simp add: writePcapOutput_def)
  obtain t' where "run_fixtures L fd kXdpCodes (zip ins (zip outs (replicate (length ins) []))) (n + 1) ?t = Some (vs', t')" "(under_test t')\<lparr>pkt := []\<rparr> = s"
    using Cons.IH [of ?t vs' "n + 1"] Cons.prems rest by auto
  then show ?case
    using run L by (auto simp: f vs out test_once_def balancer_under_test_def blank_run_def verdict_of_def Let_def)
qed auto

text \<open>The fixtures from \<open>i\<close> on, \<open>n\<close> of them, pass and lead from the maps \<open>s\<close> to \<open>t\<close>.\<close>

definition passes ::
  "build_flags \<Rightarrow> bpf_helpers \<Rightarrow> (string \<times> string) list \<Rightarrow> (string \<times> string) list \<Rightarrow> nat \<Rightarrow> nat \<Rightarrow> bpf_state \<Rightarrow> bpf_state \<Rightarrow> bool" where
  "passes B H ins outs i n s t \<longleftrightarrow>
     check_all B H (take n (drop i (zip ins outs))) s = Some (map (Passed \<circ> snd) (take n (drop i ins)), t)"

lemma passes_next: "passes B H ins outs 0 i s t \<Longrightarrow> passes B H ins outs i n t u \<Longrightarrow> passes B H ins outs 0 (i + n) s u"
  by (simp add: passes_def check_all_append take_add)

lemma passes_32:
  assumes "passes B H ins outs 0 8 s a" "passes B H ins outs 8 8 a b" "passes B H ins outs 16 8 b c" "passes B H ins outs 24 8 c d"
  shows "passes B H ins outs 0 32 s d"
proof -
  have "passes B H ins outs 0 16 s b" using passes_next [OF assms(1,2)] by simp
  from passes_next [OF this assms(3)] have "passes B H ins outs 0 24 s c" by simp
  from passes_next [OF this assms(4)] show ?thesis by simp
qed

text \<open>The object whose counters \<open>testLbCounters\<close> reads: the service and the reals with the numbers they have in the maps. The
  counters are those of one CPU.\<close>

definition test_addresses :: "IPAddress list" where
  "test_addresses = [IPv4 0x0A000001, IPv4 0x0A000002, IPv4 0x0A000003,
     IPv6 (v6_addr 0x000000FC 0x01000000), IPv6 (v6_addr 0x000000FC 0x02000000), IPv6 (v6_addr 0x000000FC 0x03000000)]"

definition test_env :: katran_env where
  "test_env = ex_env\<lparr>ip_create := map_of (zip kReals test_addresses)\<rparr>"

definition test_lb :: KatranLb where
  "test_lb = (KatranLb_fields KatranConfig_default ex_kernel)\<lparr>
     vips := [(\<lparr>vk_address = ''10.200.1.1'', vk_port = kVipPort, vk_proto = kTcp\<rparr>, Vip_new 1 0 kLbDefaultChRingSize)],
     lb_reals := zip test_addresses (map (\<lambda>n. \<lparr>rm_num = n, refCount = 1\<rparr>) [0, 1, 2, 3, 4, 5])\<rparr>"

definition counter_maps :: "bpf_state \<Rightarrow> string \<Rightarrow> u32 \<Rightarrow> lb_stats list option" where
  "counter_maps s name k =
     map_option (\<lambda>c. [c]) (if name = ''stats'' then stats s k else if name = ''reals_stats'' then reals_stats s k else None)"

lemma counter_maps_pkt [simp]: "counter_maps (s\<lparr>pkt := p\<rparr>) = counter_maps s"
  by (simp add: counter_maps_def fun_eq_iff)

lemmas counter_eqs = testLbCounters_def getStatsForVip_def getLruStats_def getLruMissStats_def getLruFallbackStats_def getQuicRoutingStats_def
  getRealStats_def getLbStats_def getIndexForReal_def validateAddress_def ip_of_def complain_def kReals_def kRealStats_def counter_maps_def
  test_lb_def test_env_def test_addresses_def v6_addr_def KatranLb_fields_def KatranConfig_default_def Vip_new_def Let_def

definition suite_lib :: "build_flags \<Rightarrow> bpf_state tester_lib" where
  "suite_lib B = ex_balancer_lib\<lparr>run_prog := balancer_under_test B ref_helpers (\<lambda>_. False)\<rparr>"

lemma passes_suite:
  assumes "passes B ref_helpers ins outs 0 n s u" "length ins = n" "length outs = n" "s\<lparr>pkt := []\<rparr> = s"
    and "fst (testLbCounters test_env (counter_maps u) test_lb) = []"
  shows "\<exists>t'. testFromFixture (suite_lib B) (resetTestFixtures ins outs (ex_tester s)) = Some (map (Passed \<circ> snd) ins, t') \<and>
    fst (testLbCounters test_env (counter_maps (under_test t')) test_lb) = []"
proof -
  let ?t = "resetTestFixtures ins outs (ex_tester s)"
  have cfg: "inputData (tester_config ?t) = ins" "outputData (tester_config ?t) = outs" "outputFileName (tester_config ?t) = []"
    by (simp_all add: resetTestFixtures_def ex_tester_def BpfTester_new_def)
  have lib: "b64 (suite_lib B) = ex_b64" "run_prog (suite_lib B) = balancer_under_test B ref_helpers (\<lambda>_. False)"
    by (simp_all add: suite_lib_def ex_balancer_lib_def)
  have len: "length ins = length outs" using assms(2,3) by simp
  have "check_all B ref_helpers (zip ins outs) ((under_test ?t)\<lparr>pkt := []\<rparr>) = Some (map (Passed \<circ> snd) ins, u)"
    using assms(1-4) by (simp add: passes_def resetTestFixtures_def ex_tester_def BpfTester_new_def)
  from run_fixtures_check_all [OF lib len cfg(3) this, of "bpfProgFd (tester_config ?t)" 1] obtain t' where
    "testFromFixture (suite_lib B) ?t = Some (map (Passed \<circ> snd) ins, t')" and t': "(under_test t')\<lparr>pkt := []\<rparr> = u"
    using len cfg by (auto simp: testFromFixture_def runBpfTesterFromFixtures_def Let_def)
  moreover have "counter_maps (under_test t') = counter_maps u" using t' counter_maps_pkt by metis
  ultimately show ?thesis using assms(5) by auto
qed

section \<open>Evaluation\<close>

named_theorems suite \<open>the program under test and its data\<close>

text \<open>Base64, one character at a time.\<close>

lemma b64_chars [suite]:
  "b64_alphabet ! 0 = CHR ''A''" "b64_alphabet ! Suc 0 = CHR ''B''" "b64_alphabet ! 2 = CHR ''C''" "b64_alphabet ! 3 = CHR ''D''"
  "b64_alphabet ! 4 = CHR ''E''" "b64_alphabet ! 5 = CHR ''F''" "b64_alphabet ! 6 = CHR ''G''" "b64_alphabet ! 7 = CHR ''H''"
  "b64_alphabet ! 8 = CHR ''I''" "b64_alphabet ! 9 = CHR ''J''" "b64_alphabet ! 10 = CHR ''K''" "b64_alphabet ! 11 = CHR ''L''"
  "b64_alphabet ! 12 = CHR ''M''" "b64_alphabet ! 13 = CHR ''N''" "b64_alphabet ! 14 = CHR ''O''" "b64_alphabet ! 15 = CHR ''P''"
  "b64_alphabet ! 16 = CHR ''Q''" "b64_alphabet ! 17 = CHR ''R''" "b64_alphabet ! 18 = CHR ''S''" "b64_alphabet ! 19 = CHR ''T''"
  "b64_alphabet ! 20 = CHR ''U''" "b64_alphabet ! 21 = CHR ''V''" "b64_alphabet ! 22 = CHR ''W''" "b64_alphabet ! 23 = CHR ''X''"
  "b64_alphabet ! 24 = CHR ''Y''" "b64_alphabet ! 25 = CHR ''Z''" "b64_alphabet ! 26 = CHR ''a''" "b64_alphabet ! 27 = CHR ''b''"
  "b64_alphabet ! 28 = CHR ''c''" "b64_alphabet ! 29 = CHR ''d''" "b64_alphabet ! 30 = CHR ''e''" "b64_alphabet ! 31 = CHR ''f''"
  "b64_alphabet ! 32 = CHR ''g''" "b64_alphabet ! 33 = CHR ''h''" "b64_alphabet ! 34 = CHR ''i''" "b64_alphabet ! 35 = CHR ''j''"
  "b64_alphabet ! 36 = CHR ''k''" "b64_alphabet ! 37 = CHR ''l''" "b64_alphabet ! 38 = CHR ''m''" "b64_alphabet ! 39 = CHR ''n''"
  "b64_alphabet ! 40 = CHR ''o''" "b64_alphabet ! 41 = CHR ''p''" "b64_alphabet ! 42 = CHR ''q''" "b64_alphabet ! 43 = CHR ''r''"
  "b64_alphabet ! 44 = CHR ''s''" "b64_alphabet ! 45 = CHR ''t''" "b64_alphabet ! 46 = CHR ''u''" "b64_alphabet ! 47 = CHR ''v''"
  "b64_alphabet ! 48 = CHR ''w''" "b64_alphabet ! 49 = CHR ''x''" "b64_alphabet ! 50 = CHR ''y''" "b64_alphabet ! 51 = CHR ''z''"
  "b64_alphabet ! 52 = CHR ''0''" "b64_alphabet ! 53 = CHR ''1''" "b64_alphabet ! 54 = CHR ''2''" "b64_alphabet ! 55 = CHR ''3''"
  "b64_alphabet ! 56 = CHR ''4''" "b64_alphabet ! 57 = CHR ''5''" "b64_alphabet ! 58 = CHR ''6''" "b64_alphabet ! 59 = CHR ''7''"
  "b64_alphabet ! 60 = CHR ''8''" "b64_alphabet ! 61 = CHR ''9''" "b64_alphabet ! 62 = CHR ''+''" "b64_alphabet ! 63 = CHR ''/''"
  "b64_alphabet ! Suc (Suc 0) = CHR ''C''"
  by (simp_all add: b64_alphabet_def)

lemma b64_codes [suite]:
  "b64_index (CHR ''A'') = 0" "b64_index (CHR ''B'') = 1" "b64_index (CHR ''C'') = 2" "b64_index (CHR ''D'') = 3" "b64_index (CHR ''E'') = 4"
  "b64_index (CHR ''F'') = 5" "b64_index (CHR ''G'') = 6" "b64_index (CHR ''H'') = 7" "b64_index (CHR ''I'') = 8" "b64_index (CHR ''J'') = 9"
  "b64_index (CHR ''K'') = 10" "b64_index (CHR ''L'') = 11" "b64_index (CHR ''M'') = 12" "b64_index (CHR ''N'') = 13" "b64_index (CHR ''O'') = 14"
  "b64_index (CHR ''P'') = 15" "b64_index (CHR ''Q'') = 16" "b64_index (CHR ''R'') = 17" "b64_index (CHR ''S'') = 18" "b64_index (CHR ''T'') = 19"
  "b64_index (CHR ''U'') = 20" "b64_index (CHR ''V'') = 21" "b64_index (CHR ''W'') = 22" "b64_index (CHR ''X'') = 23" "b64_index (CHR ''Y'') = 24"
  "b64_index (CHR ''Z'') = 25" "b64_index (CHR ''a'') = 26" "b64_index (CHR ''b'') = 27" "b64_index (CHR ''c'') = 28" "b64_index (CHR ''d'') = 29"
  "b64_index (CHR ''e'') = 30" "b64_index (CHR ''f'') = 31" "b64_index (CHR ''g'') = 32" "b64_index (CHR ''h'') = 33" "b64_index (CHR ''i'') = 34"
  "b64_index (CHR ''j'') = 35" "b64_index (CHR ''k'') = 36" "b64_index (CHR ''l'') = 37" "b64_index (CHR ''m'') = 38" "b64_index (CHR ''n'') = 39"
  "b64_index (CHR ''o'') = 40" "b64_index (CHR ''p'') = 41" "b64_index (CHR ''q'') = 42" "b64_index (CHR ''r'') = 43" "b64_index (CHR ''s'') = 44"
  "b64_index (CHR ''t'') = 45" "b64_index (CHR ''u'') = 46" "b64_index (CHR ''v'') = 47" "b64_index (CHR ''w'') = 48" "b64_index (CHR ''x'') = 49"
  "b64_index (CHR ''y'') = 50" "b64_index (CHR ''z'') = 51" "b64_index (CHR ''0'') = 52" "b64_index (CHR ''1'') = 53" "b64_index (CHR ''2'') = 54"
  "b64_index (CHR ''3'') = 55" "b64_index (CHR ''4'') = 56" "b64_index (CHR ''5'') = 57" "b64_index (CHR ''6'') = 58" "b64_index (CHR ''7'') = 59"
  "b64_index (CHR ''8'') = 60" "b64_index (CHR ''9'') = 61" "b64_index (CHR ''+'') = 62" "b64_index (CHR ''/'') = 63" "b64_index (CHR ''='') = 0"
  by (simp_all add: b64_alphabet_def b64_index_def)

lemma encode_text [suite]:
  "base64Encode ex_b64 bs = map ((!) b64_alphabet) (sextets (map unat bs)) @ replicate ((3 - length bs mod 3) mod 3) (CHR ''='')"
  by (simp add: base64Encode_def ex_b64_def length_sextets Let_def)

lemma decode_text [suite]: "base64Decode ex_b64 txt = strip_padding (rev txt) 0 (map of_nat (octets (map b64_index txt)))"
  by (simp add: base64Decode_def ex_b64_def)

text \<open>The hashes of the flows. An IPv6 address is hashed in one round and a rest of four bytes.\<close>

lemma jhash_16 [suite]: "length key = 16 \<Longrightarrow> jhash key iv =
    (let i = JHASH_INITVAL + 16 + iv; (a, b, c) = jhash_mix (i + le32 (slice key 0 4), i + le32 (slice key 4 4), i + le32 (slice key 8 4))
     in snd (snd (jhash_final (a + push_bit 24 (ucast (key ! 15)) + push_bit 16 (ucast (key ! 14)) + push_bit 8 (ucast (key ! 13)) + ucast (key ! 12), b, c))))"
  by (cases "jhash_mix (JHASH_INITVAL + 16 + iv + le32 (slice key 0 4), JHASH_INITVAL + 16 + iv + le32 (slice key 4 4), JHASH_INITVAL + 16 + iv + le32 (slice key 8 4))")
    (simp add: jhash_def jhash_loop.simps jhash_tail_def tail_byte_def le32_def slice_def)

lemma source_hashes [suite]:
  "jhash_mix (3769483771, 3735929087, 3735929087) = (2072603642, 1443220972, 272640612)"
  "jhash_final (2089380858, 1443220972, 272640612) = (2718198067, 1991654949, 3205996144)"
  "jhash_final (3179899898, 1443220972, 272640612) = (3999765914, 2306612854, 356288349)"
  by code_simp+

lemma flow_hashes [suite]:
  "jhash_2words 16885952 1342204282 33554944 = 3353773618"
  "jhash_2words 16885952 27002 33554944 = 29859297"
  "jhash_2words 0 704653824 33554944 = 3747517545"
  "jhash_2words 704751808 3137431930 33554944 = 2416682953"
  "jhash_2words 3205996144 1342204282 33554944 = 2623155930"
  "jhash_2words 356288349 3137431930 33554944 = 3609689876"
  by code_simp+

text \<open>Checksums and copies are computed for numerals only, so that nothing is unfolded on a symbolic argument.\<close>

lemma fold_numeral [suite]:
  "csum_fold_helper (numeral n) = ucast (NOT (csum_fold_step (csum_fold_step (csum_fold_step (csum_fold_step (numeral n))))))"
  "csum_fold_step (numeral n) = (if drop_bit 16 (numeral n :: u64) \<noteq> 0 then (numeral n AND 0xffff) + drop_bit 16 (numeral n) else numeral n)"
  by (simp_all add: csum_fold_helper_def csum_fold_step_def numeral_eq_Suc)

lemma ctl_mac_bytes [suite]: "ctl_mac c = [ucast (ctl_u64 c), ucast (drop_bit 8 (ctl_u64 c)), ucast (drop_bit 16 (ctl_u64 c)),
    ucast (drop_bit 24 (ctl_u64 c)), ucast (drop_bit 32 (ctl_u64 c)), ucast (drop_bit 40 (ctl_u64 c))]"
  by (simp add: ctl_mac_def upt_rec)

lemma replicate_steps [suite]: "replicate (numeral n) x = x # replicate (pred_numeral n) x"
  by (simp add: numeral_eq_Suc)

lemma bind_weak: "m = m' \<Longrightarrow> Option.bind m f = Option.bind m' f"
  by simp

lemmas program_eqs [suite] = Let_def run_tail_calls.simps kXdpCodes_def xdp_code_def verdict_of_def passes_def
  v4_vip_def v6_addr_def v6_vip_def test_vips_def test_reals_def test_ring_def test_quic_def no_counts_def no_entry_def test_mac_def prepared_def
  deref_def slice_def put_def ldn_def stn_def le16_def le32_def bytes16_def bytes32_def resolve_flags_def default_build_def bswap16_def bswap32_def
  bpf_htons_def bpf_ntohs_def bpf_htonl_def in6_zero_def flow_src_def flow_ports_def flow_zero_def packet_description_zero_def real_dst_def
  nibbles_def dec_iphdr_def enc_iphdr_def dec_in6_def enc_in6_def dec_ipv6hdr_def enc_ipv6hdr_def dec_udphdr_def enc_udphdr_def dec_tcphdr_def
  dec_icmphdr_def enc_icmphdr_def ld8_def ld16_def st16_def ld_iphdr_def st_iphdr_def ld_ipv6hdr_def st_ipv6hdr_def ld_udphdr_def st_udphdr_def
  ld_tcphdr_def ld_icmphdr_def st_icmphdr_def ref_adjust_head_def ref_adjust_tail_def ref_helpers_def min_helper_def ipv4_csum_def
  ipv4_csum_inline_def ipv4_l4_csum_def ipv6_csum_def wsum_def ref_csum_diff_def nfold_def is_icmp_def calc_offset_def set_ports_def parse_udp_def
  parse_tcp_def dec_quic_long_header_def dec_quic_short_header_def quic_server_id_def parse_quic_def create_v4_hdr_def create_v6_hdr_def
  create_udp_hdr_def new_eth_hdr_def encap_v6_def ipip_v4_src_def encap_v4_def copy_eth_hdr_def decap_v6_def decap_v4_def gue_encap_v4_def
  gue_encap_v6_def gue_decap_v4_def gue_decap_v6_def decrement_ttl_def bump_check_def swap_mac_and_send_def swap_mac_def send_icmp_reply_def
  send_icmp6_reply_def send_icmp4_too_big_def send_icmp6_too_big_def send_icmp_too_big_def parse_icmpv6_def set_flow_v4_def parse_icmp_def
  submit_event_def REPORT_EVENT_def stat_add_def real_stat_add_def get_packet_hash_def is_under_flood_def lru_get_def lru_set_def src_route_def
  dport_only_flow_def get_packet_dst_def connection_table_lookup_def process_l3_headers_def in6_v4_def dst_addr_def check_decap_dst_def
  recirculate_def after_decap_def process_encaped_ipip_pckt_def process_encaped_gue_pckt_def vip_lookup_def packet_too_big_def quic_route_def
  pick_lru_def count_tcp_miss_def new_real_def select_real_def PCKT_ENCAP_V4_def PCKT_ENCAP_V6_def forward_to_real_def process_vip_packet_def
  inline_decap_def process_l4_def process_packet_def balancer_ingress_def balancer_run_def

section \<open>Thirty-two small packets\<close>

text \<open>The connection table and the counters on the way; ports are in the byte order of the wire.\<close>

definition flow4 :: "u32 \<Rightarrow> u32 \<Rightarrow> u16 \<Rightarrow> u16 \<Rightarrow> u8 \<Rightarrow> flow_key" where
  "flow4 src dst sport dport prot =
     \<lparr>srcv6 = in6_v4 src, dstv6 = in6_v4 dst, port16_0 = sport, port16_1 = dport, proto = prot\<rparr>"

definition flow6 :: "u32 \<Rightarrow> u32 \<Rightarrow> u32 \<Rightarrow> u32 \<Rightarrow> u16 \<Rightarrow> u16 \<Rightarrow> u8 \<Rightarrow> flow_key" where
  "flow6 a d a' d' sport dport prot =
     \<lparr>srcv6 = v6_addr a d, dstv6 = v6_addr a' d', port16_0 = sport, port16_1 = dport, proto = prot\<rparr>"

definition progress :: "nat \<Rightarrow> lru_map \<Rightarrow> (u32 \<rightharpoonup> lb_stats) \<Rightarrow> (u32 \<rightharpoonup> lb_stats) \<Rightarrow> bpf_state" where
  "progress n lru rs st = prepared\<lparr>clock_reads := n, fallback_lru_cache := lru, reals_stats := rs, stats := st\<rparr>"

definition after_8 :: bpf_state where
  "after_8 = progress 5 (no_entry(
       flow4 0x0101A8C0 0x0101C80A 0x697A 0x5000 kUdp \<mapsto> \<lparr>pos = 2, atime = 0\<rparr>,
       flow4 0x0101A8C0 0x0101C80A 0x697A 0x5000 kTcp \<mapsto> \<lparr>pos = 2, atime = 0\<rparr>,
       flow4 0x0101A8C0 0x0201C80A 0x697A 0 kTcp \<mapsto> \<lparr>pos = 1, atime = 0\<rparr>,
       flow4 0x0101A8C0 0x0301C80A 0x697A 0x5000 kTcp \<mapsto> \<lparr>pos = 3, atime = 0\<rparr>,
       flow6 0x020000FC 0x01000000 0x010000FC 0x01000000 0x697A 0x5000 kTcp \<mapsto> \<lparr>pos = 5, atime = 0\<rparr>))
     (no_counts(2 \<mapsto> \<lparr>v1 = 3, v2 = 153\<rparr>, 1 \<mapsto> \<lparr>v1 = 1, v2 = 55\<rparr>, 3 \<mapsto> \<lparr>v1 = 1, v2 = 55\<rparr>, 5 \<mapsto> \<lparr>v1 = 2, v2 = 70\<rparr>))
     (no_counts(0 \<mapsto> \<lparr>v1 = 1, v2 = 43\<rparr>, 1 \<mapsto> \<lparr>v1 = 2, v2 = 110\<rparr>, 2 \<mapsto> \<lparr>v1 = 1, v2 = 55\<rparr>, 4 \<mapsto> \<lparr>v1 = 1, v2 = 55\<rparr>, 513 \<mapsto> \<lparr>v1 = 0, v2 = 4\<rparr>, 514 \<mapsto> \<lparr>v1 = 5, v2 = 0\<rparr>, 512 \<mapsto> \<lparr>v1 = 7, v2 = 5\<rparr>, 515 \<mapsto> \<lparr>v1 = 7, v2 = 0\<rparr>, 5 \<mapsto> \<lparr>v1 = 2, v2 = 70\<rparr>))"

definition after_16 :: bpf_state where
  "after_16 = progress 7 (no_entry(
       flow4 0x0101A8C0 0x0101C80A 0x697A 0x5000 kUdp \<mapsto> \<lparr>pos = 2, atime = 0\<rparr>,
       flow4 0x0101A8C0 0x0201C80A 0x697A 0 kTcp \<mapsto> \<lparr>pos = 1, atime = 0\<rparr>,
       flow4 0x0101A8C0 0x0301C80A 0x697A 0x5000 kTcp \<mapsto> \<lparr>pos = 3, atime = 0\<rparr>,
       flow4 0x0101A8C0 0x0101C80A 0x697A 0x5000 kTcp \<mapsto> \<lparr>pos = 2, atime = 0\<rparr>,
       flow6 0x020000FC 0x01000000 0x010000FC 0x01000000 0x697A 0x5000 kTcp \<mapsto> \<lparr>pos = 5, atime = 0\<rparr>))
     (no_counts(1 \<mapsto> \<lparr>v1 = 1, v2 = 55\<rparr>, 3 \<mapsto> \<lparr>v1 = 1, v2 = 55\<rparr>, 2 \<mapsto> \<lparr>v1 = 4, v2 = 236\<rparr>, 5 \<mapsto> \<lparr>v1 = 3, v2 = 156\<rparr>))
     (no_counts(0 \<mapsto> \<lparr>v1 = 1, v2 = 43\<rparr>, 2 \<mapsto> \<lparr>v1 = 1, v2 = 55\<rparr>, 4 \<mapsto> \<lparr>v1 = 1, v2 = 55\<rparr>, 1 \<mapsto> \<lparr>v1 = 3, v2 = 193\<rparr>, 515 \<mapsto> \<lparr>v1 = 9, v2 = 0\<rparr>, 513 \<mapsto> \<lparr>v1 = 2, v2 = 4\<rparr>, 514 \<mapsto> \<lparr>v1 = 7, v2 = 0\<rparr>, 512 \<mapsto> \<lparr>v1 = 9, v2 = 7\<rparr>, 5 \<mapsto> \<lparr>v1 = 3, v2 = 156\<rparr>))"

definition after_24 :: bpf_state where
  "after_24 = progress 10 (no_entry(
       flow4 0x0101A8C0 0x0101C80A 0x697A 0x5000 kUdp \<mapsto> \<lparr>pos = 2, atime = 0\<rparr>,
       flow4 0x0101A8C0 0x0201C80A 0x697A 0 kTcp \<mapsto> \<lparr>pos = 1, atime = 0\<rparr>,
       flow4 0x0101A8C0 0x0301C80A 0x697A 0x5000 kTcp \<mapsto> \<lparr>pos = 3, atime = 0\<rparr>,
       flow4 0x0101A8C0 0x0101C80A 0x697A 0x5000 kTcp \<mapsto> \<lparr>pos = 2, atime = 0\<rparr>,
       flow6 0x020000FC 0x01000000 0x010000FC 0x01000000 0x697A 0x5000 kTcp \<mapsto> \<lparr>pos = 5, atime = 0\<rparr>,
       flow4 0 0x0401C80A 0x2A00 0x2A00 kTcp \<mapsto> \<lparr>pos = 1, atime = 0\<rparr>,
       flow4 0x2A01A8C0 0x0501C80A 0x697A 0xBB01 kUdp \<mapsto> \<lparr>pos = 1, atime = 9000\<rparr>))
     (no_counts(3 \<mapsto> \<lparr>v1 = 1, v2 = 55\<rparr>, 5 \<mapsto> \<lparr>v1 = 3, v2 = 156\<rparr>, 2 \<mapsto> \<lparr>v1 = 5, v2 = 291\<rparr>, 1 \<mapsto> \<lparr>v1 = 4, v2 = 222\<rparr>))
     (no_counts(0 \<mapsto> \<lparr>v1 = 1, v2 = 43\<rparr>, 2 \<mapsto> \<lparr>v1 = 1, v2 = 55\<rparr>, 4 \<mapsto> \<lparr>v1 = 1, v2 = 55\<rparr>, 5 \<mapsto> \<lparr>v1 = 3, v2 = 156\<rparr>, 1 \<mapsto> \<lparr>v1 = 4, v2 = 248\<rparr>, 513 \<mapsto> \<lparr>v1 = 2, v2 = 6\<rparr>, 3 \<mapsto> \<lparr>v1 = 2, v2 = 110\<rparr>, 519 \<mapsto> \<lparr>v1 = 1, v2 = 0\<rparr>, 515 \<mapsto> \<lparr>v1 = 13, v2 = 0\<rparr>, 514 \<mapsto> \<lparr>v1 = 10, v2 = 0\<rparr>, 512 \<mapsto> \<lparr>v1 = 13, v2 = 10\<rparr>, 6 \<mapsto> \<lparr>v1 = 1, v2 = 57\<rparr>))"

definition after_32 :: bpf_state where
  "after_32 = progress 14 (no_entry(
       flow4 0x0101A8C0 0x0101C80A 0x697A 0x5000 kUdp \<mapsto> \<lparr>pos = 2, atime = 0\<rparr>,
       flow4 0x0101A8C0 0x0201C80A 0x697A 0 kTcp \<mapsto> \<lparr>pos = 1, atime = 0\<rparr>,
       flow4 0x0101A8C0 0x0301C80A 0x697A 0x5000 kTcp \<mapsto> \<lparr>pos = 3, atime = 0\<rparr>,
       flow4 0x0101A8C0 0x0101C80A 0x697A 0x5000 kTcp \<mapsto> \<lparr>pos = 2, atime = 0\<rparr>,
       flow6 0x020000FC 0x01000000 0x010000FC 0x01000000 0x697A 0x5000 kTcp \<mapsto> \<lparr>pos = 5, atime = 0\<rparr>,
       flow4 0 0x0401C80A 0x2A00 0x2A00 kTcp \<mapsto> \<lparr>pos = 1, atime = 0\<rparr>,
       flow6 0x020000FC 0x42000000 0x010000FC 0x02000000 0x697A 0xBB01 kUdp \<mapsto> \<lparr>pos = 3, atime = 11000\<rparr>,
       flow4 0x2A01A8C0 0x0501C80A 0x697A 0xBB01 kUdp \<mapsto> \<lparr>pos = 1, atime = 13000\<rparr>))
     (no_counts(5 \<mapsto> \<lparr>v1 = 3, v2 = 156\<rparr>, 2 \<mapsto> \<lparr>v1 = 5, v2 = 291\<rparr>, 3 \<mapsto> \<lparr>v1 = 2, v2 = 92\<rparr>, 4 \<mapsto> \<lparr>v1 = 1, v2 = 38\<rparr>, 0 \<mapsto> \<lparr>v1 = 3, v2 = 152\<rparr>, 1 \<mapsto> \<lparr>v1 = 7, v2 = 346\<rparr>))
     (no_counts(0 \<mapsto> \<lparr>v1 = 1, v2 = 43\<rparr>, 2 \<mapsto> \<lparr>v1 = 1, v2 = 55\<rparr>, 4 \<mapsto> \<lparr>v1 = 1, v2 = 55\<rparr>, 5 \<mapsto> \<lparr>v1 = 3, v2 = 156\<rparr>, 1 \<mapsto> \<lparr>v1 = 4, v2 = 248\<rparr>, 513 \<mapsto> \<lparr>v1 = 2, v2 = 6\<rparr>, 3 \<mapsto> \<lparr>v1 = 2, v2 = 110\<rparr>, 514 \<mapsto> \<lparr>v1 = 11, v2 = 0\<rparr>, 7 \<mapsto> \<lparr>v1 = 1, v2 = 37\<rparr>, 512 \<mapsto> \<lparr>v1 = 21, v2 = 11\<rparr>, 519 \<mapsto> \<lparr>v1 = 5, v2 = 4\<rparr>, 515 \<mapsto> \<lparr>v1 = 17, v2 = 0\<rparr>, 6 \<mapsto> \<lparr>v1 = 8, v2 = 371\<rparr>))"

lemmas progress_eqs [suite] = flow4_def flow6_def progress_def after_8_def after_16_def after_24_def after_32_def

lemma tests_8: "passes default_build ref_helpers inputTestFixtures outputTestFixtures 0 8 prepared after_8"
  by (simp add: suite inputTestFixtures_def outputTestFixtures_def cong: bind_weak let_weak_cong)

lemma tests_16: "passes default_build ref_helpers inputTestFixtures outputTestFixtures 8 8 after_8 after_16"
  by (simp add: suite inputTestFixtures_def outputTestFixtures_def cong: bind_weak let_weak_cong)

lemma tests_24: "passes default_build ref_helpers inputTestFixtures outputTestFixtures 16 8 after_16 after_24"
  by (simp add: suite inputTestFixtures_def outputTestFixtures_def cong: bind_weak let_weak_cong)

lemma tests_32: "passes default_build ref_helpers inputTestFixtures outputTestFixtures 24 8 after_24 after_32"
  by (simp add: suite inputTestFixtures_def outputTestFixtures_def cong: bind_weak let_weak_cong)

section \<open>The big packet\<close>

text \<open>The last packet has 1515 bytes, of which only the headers matter. Its text is decoded in two parts, and encoded again by a law instead
  of a computation.\<close>

lemma octets_append: "length xs mod 4 = 0 \<Longrightarrow> octets (xs @ ys) = octets xs @ octets ys"
  by (induction xs rule: octets.induct) auto

lemma length_octets: "length (octets xs) = 3 * (length xs div 4)"
proof (induction xs rule: octets.induct)
  case (1 a b c d xs)
  have "length (a # b # c # d # xs) = length xs + 1 * 4" by simp
  then show ?case unfolding \<open>length (a # b # c # d # xs) = length xs + 1 * 4\<close> div_mult_self1 [OF zero_neq_numeral [symmetric]] using 1 by simp
qed auto

lemma octets_small: "\<forall>x \<in> set ns. x < 64 \<Longrightarrow> \<forall>y \<in> set (octets ns). y < 256"
  by (induction ns rule: octets.induct) auto

lemma sextets_octets: "\<forall>x \<in> set ns. x < 64 \<Longrightarrow> length ns mod 4 = 0 \<Longrightarrow> sextets (octets ns) = ns"
  by (induction ns rule: octets.induct) auto

lemma b64_char_of_index: "c \<in> set b64_alphabet \<Longrightarrow> b64_index c < 64 \<and> b64_alphabet ! b64_index c = c"
proof -
  have "list_all (\<lambda>c. b64_index c < 64 \<and> b64_alphabet ! b64_index c = c) b64_alphabet" by code_simp
  then show "c \<in> set b64_alphabet \<Longrightarrow> ?thesis" by (simp add: list_all_iff)
qed

lemma encode_decoded:
  assumes "set txt \<subseteq> set b64_alphabet" "length txt mod 4 = 0"
  shows "base64Encode ex_b64 (map of_nat (octets (map b64_index txt))) = txt"
proof -
  have ns: "\<forall>n \<in> set (map b64_index txt). n < 64" and cs: "map (\<lambda>c. b64_alphabet ! b64_index c) txt = txt"
    using assms(1) b64_char_of_index by (auto intro!: map_idI)
  have "map (unat \<circ> (of_nat :: nat \<Rightarrow> u8)) (octets (map b64_index txt)) = octets (map b64_index txt)"
    using octets_small [OF ns] by (intro map_idI) (simp add: unat_of_nat)
  then show ?thesis
    using sextets_octets [OF ns] assms(2) cs by (simp add: encode_text length_octets comp_def)
qed

lemma decode_unpadded:
  assumes "set txt \<subseteq> set b64_alphabet" "txt \<noteq> []"
  shows "base64Decode ex_b64 txt = Some (map of_nat (octets (map b64_index txt)))"
proof -
  obtain c cs where "rev txt = c # cs" using assms(2) by (cases "rev txt") auto
  moreover have "c \<noteq> CHR ''=''"
  proof -
    have "c \<in> set b64_alphabet" using assms(1) calculation by (metis in_mono list.set_intros(1) set_rev)
    then show ?thesis by (auto simp: b64_alphabet_def)
  qed
  ultimately show ?thesis by (simp add: decode_text)
qed

lemma too_big_dropped:
  assumes "length payload = 1473" "vip_map s = test_vips"
  shows "balancer_run default_build ref_helpers (\<lambda>_. False) (s\<lparr>pkt := [2, 0, 0, 0, 0, 0, 1, 0, 0, 0, 0, 0, 8, 0, 69, 0, 5, 221, 0, 1, 0, 0, 64, 17, 167, 157, 192, 168, 1, 1, 10, 200, 1, 1, 122, 105, 0, 80, 5, 201, 185, 162] @ payload\<rparr>) =
    Some (XDP_DROP, s\<lparr>pkt := [2, 0, 0, 0, 0, 0, 1, 0, 0, 0, 0, 0, 8, 0, 69, 0, 5, 221, 0, 1, 0, 0, 64, 17, 167, 157, 192, 168, 1, 1, 10, 200, 1, 1, 122, 105, 0, 80, 5, 201, 185, 162] @ payload\<rparr>)"
  using assms by (simp add: suite cong: bind_weak let_weak_cong)

definition big_text :: string where
  "big_text = fst (inputTestFixtures ! 32)"

lemma big_text_facts:
  "set big_text \<subseteq> set b64_alphabet" "length big_text = 2020"
  "map (of_nat :: nat \<Rightarrow> u8) (octets (map b64_index (take 56 big_text))) = [2, 0, 0, 0, 0, 0, 1, 0, 0, 0, 0, 0, 8, 0, 69, 0, 5, 221, 0, 1, 0, 0, 64, 17, 167, 157, 192, 168, 1, 1, 10, 200, 1, 1, 122, 105, 0, 80, 5, 201, 185, 162]"
  "take 1 (drop 32 (zip inputTestFixtures outputTestFixtures)) = [((big_text, ''UDP: big packet of length 1515. trigger PACKET TOOBIG''), (big_text, ''XDP_DROP''))]"
    prefer 4 subgoal by (simp add: big_text_def inputTestFixtures_def outputTestFixtures_def)
    prefer 3 subgoal by (simp add: big_text_def inputTestFixtures_def b64_codes)
    subgoal by (simp add: big_text_def inputTestFixtures_def b64_alphabet_def)
    subgoal by (simp add: big_text_def inputTestFixtures_def)
  done

lemma test_33: "passes default_build ref_helpers inputTestFixtures outputTestFixtures 32 1 after_32 after_32"
proof -
  let ?p = "map (of_nat :: nat \<Rightarrow> u8) (octets (map b64_index big_text))"
  have split: "octets (map b64_index big_text) = octets (map b64_index (take 56 big_text)) @ octets (map b64_index (drop 56 big_text))"
    by (subst octets_append [symmetric]) (simp_all add: big_text_facts(2) flip: map_append)
  have len: "length (map (of_nat :: nat \<Rightarrow> u8) (octets (map b64_index (drop 56 big_text)))) = 1473"
    by (simp add: length_octets big_text_facts(2))
  have "balancer_run default_build ref_helpers (\<lambda>_. False) (after_32\<lparr>pkt := ?p\<rparr>) = Some (XDP_DROP, after_32\<lparr>pkt := ?p\<rparr>)"
    using too_big_dropped [OF len, of after_32] unfolding split map_append big_text_facts(3)
    by (simp add: after_32_def progress_def prepared_def)
  moreover have "big_text \<noteq> []" using big_text_facts(2) by auto
  moreover from this have "base64Decode ex_b64 big_text = Some ?p" "base64Encode ex_b64 ?p = big_text"
    using decode_unpadded [OF big_text_facts(1)] encode_decoded [OF big_text_facts(1)] big_text_facts(2) by auto
  moreover have "after_32\<lparr>pkt := []\<rparr> = after_32" by (simp add: after_32_def progress_def prepared_def)
  moreover have "map (Passed \<circ> snd) (take 1 (drop 32 inputTestFixtures)) = [Passed ''UDP: big packet of length 1515. trigger PACKET TOOBIG'']" by (simp add: inputTestFixtures_def)
  ultimately show ?thesis
    unfolding passes_def big_text_facts(4) by (simp add: verdict_of_def kXdpCodes_def xdp_code_def)
qed

section \<open>The suite passes\<close>

text \<open>A validation of the model: it passes the repository's own test suite. \<open>BpfTester\<close>, run with all 33 fixtures of
  \<open>KatranTestFixtures.h\<close> on the balancer in its default build, over the maps as the test program fills them and a ring that gives the
  new connections the reals of the expected packets, logs every fixture as passed: verdict and bytes are those the
  fixture expects, for TCP, UDP, QUIC and ICMP, IPv4 and IPv6, fragments, options, tunnelled and oversized packets. Afterwards
  \<open>testLbCounters\<close> has nothing to complain about: the counters of the service, the connection table, QUIC routing and all six reals have
  exactly the expected values.\<close>

theorem shipped_tests_pass:
  "\<exists>t'. testFromFixture (suite_lib default_build) (resetTestFixtures inputTestFixtures outputTestFixtures (ex_tester prepared)) =
      Some (map (Passed \<circ> snd) inputTestFixtures, t') \<and>
    fst (testLbCounters test_env (counter_maps (under_test t')) test_lb) = []"
proof (rule passes_suite)
  show "passes default_build ref_helpers inputTestFixtures outputTestFixtures 0 33 prepared after_32"
    using passes_next [OF passes_32 [OF tests_8 tests_16 tests_24 tests_32] test_33] by simp
  show "length inputTestFixtures = 33" "length outputTestFixtures = 33" by (simp_all add: inputTestFixtures_def outputTestFixtures_def)
  show "prepared\<lparr>pkt := []\<rparr> = prepared" by (simp add: prepared_def)
  show "fst (testLbCounters test_env (counter_maps after_32) test_lb) = []"
    by (simp add: counter_eqs after_32_def progress_def prepared_def)
qed

end
