(* ===== verification/Gue_Suite.thy ===== *)
theory Gue_Suite
  imports Test_Suite
begin

text \<open>
  The tests of the build that encapsulates with GUE, the 32 packets of \<open>KatranGueTestFixtures.h\<close>, run in the same way.
\<close>

text \<open>The source addresses \<open>katran_tester.cpp\<close> configures, \<open>10.0.13.37\<close> and \<open>fc00:2307::1337\<close>.\<close>

definition gue_srcs :: "u32 \<Rightarrow> real_definition option" where
  "gue_srcs k = map_of [(V4_SRC_INDEX, \<lparr>real_dstv6 = in6_v4 0x250D000A, real_flags = 0\<rparr>),
     (V6_SRC_INDEX, \<lparr>real_dstv6 = v6_addr 0x072300FC 0x37130000, real_flags = 1\<rparr>)] k"

definition gue_build :: build_flags where
  "gue_build = default_build\<lparr>GUE_ENCAP := True\<rparr>"

definition gue_prepared :: bpf_state where
  "gue_prepared = prepared\<lparr>pckt_srcs := gue_srcs\<rparr>"

lemmas gue_eqs [suite] = gue_srcs_def gue_build_def gue_prepared_def

definition gue_after_8 :: bpf_state where
  "gue_after_8 = (progress 6 (no_entry(
       flow4 0x0101A8C0 0x0101C80A 0x697A 0x5000 kUdp \<mapsto> \<lparr>pos = 2, atime = 0\<rparr>,
       flow4 0x0101A8C0 0x0201C80A 0x697A 0 kTcp \<mapsto> \<lparr>pos = 1, atime = 0\<rparr>,
       flow4 0x0101A8C0 0x0301C80A 0x697A 0x5000 kTcp \<mapsto> \<lparr>pos = 3, atime = 0\<rparr>,
       flow6 0x020000FC 0x01000000 0x010000FC 0x01000000 0x697A 0x5000 kTcp \<mapsto> \<lparr>pos = 5, atime = 0\<rparr>,
       flow4 0x0101A8C0 0x0101C80A 0x697A 0x5000 kTcp \<mapsto> \<lparr>pos = 2, atime = 0\<rparr>))
     (no_counts(1 \<mapsto> \<lparr>v1 = 1, v2 = 55\<rparr>, 3 \<mapsto> \<lparr>v1 = 1, v2 = 55\<rparr>, 5 \<mapsto> \<lparr>v1 = 1, v2 = 35\<rparr>, 2 \<mapsto> \<lparr>v1 = 3, v2 = 181\<rparr>))
     (no_counts(0 \<mapsto> \<lparr>v1 = 1, v2 = 43\<rparr>, 2 \<mapsto> \<lparr>v1 = 1, v2 = 55\<rparr>, 4 \<mapsto> \<lparr>v1 = 1, v2 = 55\<rparr>, 5 \<mapsto> \<lparr>v1 = 1, v2 = 35\<rparr>, 515 \<mapsto> \<lparr>v1 = 6, v2 = 0\<rparr>, 513 \<mapsto> \<lparr>v1 = 1, v2 = 4\<rparr>, 514 \<mapsto> \<lparr>v1 = 6, v2 = 0\<rparr>, 512 \<mapsto> \<lparr>v1 = 6, v2 = 6\<rparr>, 1 \<mapsto> \<lparr>v1 = 2, v2 = 138\<rparr>)))\<lparr>pckt_srcs := gue_srcs\<rparr>"

definition gue_after_16 :: bpf_state where
  "gue_after_16 = (progress 7 (no_entry(
       flow4 0x0101A8C0 0x0101C80A 0x697A 0x5000 kUdp \<mapsto> \<lparr>pos = 2, atime = 0\<rparr>,
       flow4 0x0101A8C0 0x0201C80A 0x697A 0 kTcp \<mapsto> \<lparr>pos = 1, atime = 0\<rparr>,
       flow4 0x0101A8C0 0x0301C80A 0x697A 0x5000 kTcp \<mapsto> \<lparr>pos = 3, atime = 0\<rparr>,
       flow4 0x0101A8C0 0x0101C80A 0x697A 0x5000 kTcp \<mapsto> \<lparr>pos = 2, atime = 0\<rparr>,
       flow6 0x020000FC 0x01000000 0x010000FC 0x01000000 0x697A 0x5000 kTcp \<mapsto> \<lparr>pos = 5, atime = 0\<rparr>))
     (no_counts(1 \<mapsto> \<lparr>v1 = 1, v2 = 55\<rparr>, 3 \<mapsto> \<lparr>v1 = 1, v2 = 55\<rparr>, 5 \<mapsto> \<lparr>v1 = 2, v2 = 121\<rparr>, 2 \<mapsto> \<lparr>v1 = 4, v2 = 236\<rparr>))
     (no_counts(0 \<mapsto> \<lparr>v1 = 1, v2 = 43\<rparr>, 2 \<mapsto> \<lparr>v1 = 1, v2 = 55\<rparr>, 4 \<mapsto> \<lparr>v1 = 1, v2 = 55\<rparr>, 513 \<mapsto> \<lparr>v1 = 2, v2 = 4\<rparr>, 514 \<mapsto> \<lparr>v1 = 7, v2 = 0\<rparr>, 5 \<mapsto> \<lparr>v1 = 2, v2 = 121\<rparr>, 512 \<mapsto> \<lparr>v1 = 8, v2 = 7\<rparr>, 515 \<mapsto> \<lparr>v1 = 8, v2 = 0\<rparr>, 1 \<mapsto> \<lparr>v1 = 3, v2 = 193\<rparr>)))\<lparr>pckt_srcs := gue_srcs\<rparr>"

definition gue_after_24 :: bpf_state where
  "gue_after_24 = (progress 11 (no_entry(
       flow4 0x0101A8C0 0x0101C80A 0x697A 0x5000 kUdp \<mapsto> \<lparr>pos = 2, atime = 0\<rparr>,
       flow4 0x0101A8C0 0x0201C80A 0x697A 0 kTcp \<mapsto> \<lparr>pos = 1, atime = 0\<rparr>,
       flow4 0x0101A8C0 0x0301C80A 0x697A 0x5000 kTcp \<mapsto> \<lparr>pos = 3, atime = 0\<rparr>,
       flow4 0x0101A8C0 0x0101C80A 0x697A 0x5000 kTcp \<mapsto> \<lparr>pos = 2, atime = 0\<rparr>,
       flow6 0x020000FC 0x01000000 0x010000FC 0x01000000 0x697A 0x5000 kTcp \<mapsto> \<lparr>pos = 5, atime = 0\<rparr>,
       flow4 0 0x0401C80A 0x2A00 0x2A00 kTcp \<mapsto> \<lparr>pos = 1, atime = 0\<rparr>,
       flow4 0x2A01A8C0 0x0501C80A 0x697A 0xBB01 kUdp \<mapsto> \<lparr>pos = 1, atime = 10000\<rparr>))
     (no_counts(3 \<mapsto> \<lparr>v1 = 1, v2 = 55\<rparr>, 5 \<mapsto> \<lparr>v1 = 2, v2 = 121\<rparr>, 2 \<mapsto> \<lparr>v1 = 4, v2 = 236\<rparr>, 1 \<mapsto> \<lparr>v1 = 5, v2 = 279\<rparr>, 0 \<mapsto> \<lparr>v1 = 1, v2 = 57\<rparr>))
     (no_counts(0 \<mapsto> \<lparr>v1 = 1, v2 = 43\<rparr>, 2 \<mapsto> \<lparr>v1 = 1, v2 = 55\<rparr>, 4 \<mapsto> \<lparr>v1 = 1, v2 = 55\<rparr>, 5 \<mapsto> \<lparr>v1 = 2, v2 = 121\<rparr>, 1 \<mapsto> \<lparr>v1 = 3, v2 = 193\<rparr>, 513 \<mapsto> \<lparr>v1 = 2, v2 = 6\<rparr>, 3 \<mapsto> \<lparr>v1 = 2, v2 = 110\<rparr>, 514 \<mapsto> \<lparr>v1 = 10, v2 = 0\<rparr>, 515 \<mapsto> \<lparr>v1 = 12, v2 = 0\<rparr>, 512 \<mapsto> \<lparr>v1 = 13, v2 = 10\<rparr>, 519 \<mapsto> \<lparr>v1 = 2, v2 = 1\<rparr>, 6 \<mapsto> \<lparr>v1 = 3, v2 = 171\<rparr>)))\<lparr>pckt_srcs := gue_srcs\<rparr>"

definition gue_after_32 :: bpf_state where
  "gue_after_32 = (progress 14 (no_entry(
       flow4 0x0101A8C0 0x0101C80A 0x697A 0x5000 kUdp \<mapsto> \<lparr>pos = 2, atime = 0\<rparr>,
       flow4 0x0101A8C0 0x0201C80A 0x697A 0 kTcp \<mapsto> \<lparr>pos = 1, atime = 0\<rparr>,
       flow4 0x0101A8C0 0x0301C80A 0x697A 0x5000 kTcp \<mapsto> \<lparr>pos = 3, atime = 0\<rparr>,
       flow4 0x0101A8C0 0x0101C80A 0x697A 0x5000 kTcp \<mapsto> \<lparr>pos = 2, atime = 0\<rparr>,
       flow6 0x020000FC 0x01000000 0x010000FC 0x01000000 0x697A 0x5000 kTcp \<mapsto> \<lparr>pos = 5, atime = 0\<rparr>,
       flow4 0 0x0401C80A 0x2A00 0x2A00 kTcp \<mapsto> \<lparr>pos = 1, atime = 0\<rparr>,
       flow6 0x020000FC 0x42000000 0x010000FC 0x02000000 0x697A 0xBB01 kUdp \<mapsto> \<lparr>pos = 3, atime = 11000\<rparr>,
       flow4 0x2A01A8C0 0x0501C80A 0x697A 0xBB01 kUdp \<mapsto> \<lparr>pos = 1, atime = 13000\<rparr>))
     (no_counts(3 \<mapsto> \<lparr>v1 = 2, v2 = 92\<rparr>, 4 \<mapsto> \<lparr>v1 = 1, v2 = 38\<rparr>, 0 \<mapsto> \<lparr>v1 = 3, v2 = 152\<rparr>, 1 \<mapsto> \<lparr>v1 = 7, v2 = 346\<rparr>, 2 \<mapsto> \<lparr>v1 = 5, v2 = 291\<rparr>, 5 \<mapsto> \<lparr>v1 = 3, v2 = 156\<rparr>))
     (no_counts(0 \<mapsto> \<lparr>v1 = 1, v2 = 43\<rparr>, 2 \<mapsto> \<lparr>v1 = 1, v2 = 55\<rparr>, 4 \<mapsto> \<lparr>v1 = 1, v2 = 55\<rparr>, 513 \<mapsto> \<lparr>v1 = 2, v2 = 6\<rparr>, 3 \<mapsto> \<lparr>v1 = 2, v2 = 110\<rparr>, 514 \<mapsto> \<lparr>v1 = 11, v2 = 0\<rparr>, 7 \<mapsto> \<lparr>v1 = 1, v2 = 37\<rparr>, 519 \<mapsto> \<lparr>v1 = 5, v2 = 4\<rparr>, 6 \<mapsto> \<lparr>v1 = 8, v2 = 371\<rparr>, 1 \<mapsto> \<lparr>v1 = 4, v2 = 248\<rparr>, 512 \<mapsto> \<lparr>v1 = 21, v2 = 11\<rparr>, 515 \<mapsto> \<lparr>v1 = 17, v2 = 0\<rparr>, 5 \<mapsto> \<lparr>v1 = 3, v2 = 156\<rparr>)))\<lparr>pckt_srcs := gue_srcs\<rparr>"

lemmas gue_progress_eqs [suite] = gue_after_8_def gue_after_16_def gue_after_24_def gue_after_32_def

lemma gue_tests_8: "passes gue_build ref_helpers inputGueTestFixtures outputGueTestFixtures 0 8 gue_prepared gue_after_8"
  by (simp add: suite inputGueTestFixtures_def outputGueTestFixtures_def cong: bind_weak let_weak_cong)

lemma gue_tests_16: "passes gue_build ref_helpers inputGueTestFixtures outputGueTestFixtures 8 8 gue_after_8 gue_after_16"
  by (simp add: suite inputGueTestFixtures_def outputGueTestFixtures_def cong: bind_weak let_weak_cong)

lemma gue_tests_24: "passes gue_build ref_helpers inputGueTestFixtures outputGueTestFixtures 16 8 gue_after_16 gue_after_24"
  by (simp add: suite inputGueTestFixtures_def outputGueTestFixtures_def cong: bind_weak let_weak_cong)

lemma gue_tests_32: "passes gue_build ref_helpers inputGueTestFixtures outputGueTestFixtures 24 8 gue_after_24 gue_after_32"
  by (simp add: suite inputGueTestFixtures_def outputGueTestFixtures_def cong: bind_weak let_weak_cong)

text \<open>The same validation for GUE: built with \<open>GUE_ENCAP\<close> and configured with the source addresses of the test program, over the same maps and ring, the balancer passes all
  32 fixtures of \<open>KatranGueTestFixtures.h\<close>, with outer UDP headers and lengths byte for byte as expected, and its counters are again those
  \<open>testLbCounters\<close> expects.\<close>

theorem shipped_gue_tests_pass:
  "\<exists>t'. testFromFixture (suite_lib gue_build) (resetTestFixtures inputGueTestFixtures outputGueTestFixtures (ex_tester gue_prepared)) =
      Some (map (Passed \<circ> snd) inputGueTestFixtures, t') \<and>
    fst (testLbCounters test_env (counter_maps (under_test t')) test_lb) = []"
proof (rule passes_suite)
  show "passes gue_build ref_helpers inputGueTestFixtures outputGueTestFixtures 0 32 gue_prepared gue_after_32"
    by (rule passes_32 [OF gue_tests_8 gue_tests_16 gue_tests_24 gue_tests_32])
  show "length inputGueTestFixtures = 32" "length outputGueTestFixtures = 32" by (simp_all add: inputGueTestFixtures_def outputGueTestFixtures_def)
  show "gue_prepared\<lparr>pkt := []\<rparr> = gue_prepared" by (simp add: gue_prepared_def prepared_def)
  show "fst (testLbCounters test_env (counter_maps gue_after_32) test_lb) = []"
    by (simp add: counter_eqs gue_after_32_def progress_def prepared_def)
qed

end
