(* ===== verification/Xdpdump_Readers.thy ===== *)
theory Xdpdump_Readers
  imports "HOL-Library.Sublist" Xdpdump Bpf_Adapter
begin

text \<open>
  The readers of xdpdump and the system calls behind them: the perf event functions of \<open>src/tools/xdpdump/XdpEventReader.cpp\<close>, which
  are a copy of the ones of \<open>BpfAdapter.cpp\<close>, \<open>XdpEventReader::open\<close> and its destructor, and the loop of
  \<open>XdpDump::startEventReaders\<close> over them. \<open>os\<close> is the state of the system calls of \<open>Bpf_Adapter\<close>.
\<close>

section \<open>Perf events\<close>

definition dump_get_perf_event_fd :: "os_env \<Rightarrow> int \<Rightarrow> int \<Rightarrow> os \<Rightarrow> int \<times> os" where
  "dump_get_perf_event_fd E cpu wakeUpNumEvents s =
     (case sys E (Perf_event_open cpu wakeUpNumEvents) s of (pmu_fd, s) \<Rightarrow>
        if pmu_fd < 0 then (pmu_fd, s)
        else (case sys E (Ioctl_enable pmu_fd) s of (err, s) \<Rightarrow>
          if err \<noteq> 0 then (-1, close_fd pmu_fd s) else (pmu_fd, s)))"

definition dump_mmap_perf_event :: "os_env \<Rightarrow> int \<Rightarrow> int \<Rightarrow> os \<Rightarrow> bool \<times> os" where
  "dump_mmap_perf_event E fd pages s =
     (if fd < 0 then (False, s)
      else (case sys E (Mmap fd (page_size E * (pages + 1))) s of (base, s) \<Rightarrow> (base \<noteq> -1, s)))"

definition dump_perfEventUnmmap :: "os_env \<Rightarrow> int \<Rightarrow> bool \<Rightarrow> os \<Rightarrow> bool \<times> bool \<times> os" where
  "dump_perfEventUnmmap E pages mapped s =
     (if mapped then (case sys E (Munmap (pages * page_size E + 1)) s of (res, s) \<Rightarrow> (res = 0, res \<noteq> 0, s))
      else (False, mapped, s))"

definition dump_openPerfEvent :: "os_env \<Rightarrow> int \<Rightarrow> int \<Rightarrow> int \<Rightarrow> int \<Rightarrow> bool \<Rightarrow> os \<Rightarrow> bool \<times> bool \<times> int \<times> os" where
  "dump_openPerfEvent E cpu event_map wakeUpNumEvents pages mapped s =
     (if mapped then (False, mapped, 0, s)
      else (case dump_get_perf_event_fd E cpu wakeUpNumEvents s of (event_fd, s) \<Rightarrow>
        if event_fd < 0 then (False, mapped, event_fd, s)
        else (case dump_mmap_perf_event E event_fd pages s of (mapped, s) \<Rightarrow>
          if \<not> mapped then (False, mapped, event_fd, s)
          else (case sys E (Map_update event_map (bytes32 (of_int cpu)) (bytes32 (of_int event_fd)) 0) s of (err, s) \<Rightarrow> (err = 0, mapped, event_fd, s)))))"

section \<open>Readers\<close>

text \<open>\<open>registered\<close> says whether the event loop takes the descriptor. The result has whether the reader is open and whether its pages are
  mapped.\<close>

definition XdpEventReader_open :: "os_env \<Rightarrow> (int \<Rightarrow> bool) \<Rightarrow> int \<Rightarrow> int \<Rightarrow> int \<Rightarrow> int \<Rightarrow> os \<Rightarrow> bool \<times> bool \<times> os" where
  "XdpEventReader_open E registered cpu eventMapFd wakeUpNumEvents pages s =
     (case dump_openPerfEvent E cpu eventMapFd wakeUpNumEvents pages False s of (ok, mapped, fd, s) \<Rightarrow>
        if \<not> ok then (False, mapped, s) else if \<not> registered fd then (False, mapped, s) else (True, mapped, s))"

definition XdpEventReader_destroy :: "os_env \<Rightarrow> int \<Rightarrow> bool \<Rightarrow> os \<Rightarrow> os" where
  "XdpEventReader_destroy E pages mapped s = snd (snd (dump_perfEventUnmmap E pages mapped s))"

definition kNoSample :: int where [simp]: "kNoSample = 1"

text \<open>The CPUs whose readers are kept; a reader that could not be opened is destroyed.\<close>

fun open_readers :: "os_env \<Rightarrow> (int \<Rightarrow> bool) \<Rightarrow> int \<Rightarrow> int \<Rightarrow> nat list \<Rightarrow> os \<Rightarrow> nat list \<times> os" where
  "open_readers E registered perfEventMapFd pages [] s = ([], s)"
| "open_readers E registered perfEventMapFd pages (cpu # cpus) s =
     (case XdpEventReader_open E registered (int cpu) perfEventMapFd kNoSample pages s of (ok, mapped, s) \<Rightarrow>
        if ok then apfst ((#) cpu) (open_readers E registered perfEventMapFd pages cpus s)
        else open_readers E registered perfEventMapFd pages cpus (XdpEventReader_destroy E pages mapped s))"

section \<open>The copy and the leak\<close>

text \<open>The two copies of the functions agree.\<close>

lemma perf_functions_agree:
  "dump_get_perf_event_fd = get_perf_event_fd" "dump_mmap_perf_event = mmap_perf_event" "dump_perfEventUnmmap = perfEventUnmmap"
  "dump_openPerfEvent = openPerfEvent"
proof -
  show fd: "dump_get_perf_event_fd = get_perf_event_fd" by (intro ext) (simp add: dump_get_perf_event_fd_def get_perf_event_fd_def)
  show mm: "dump_mmap_perf_event = mmap_perf_event" by (intro ext) (simp add: dump_mmap_perf_event_def mmap_perf_event_def)
  show "dump_perfEventUnmmap = perfEventUnmmap" by (intro ext) (simp add: dump_perfEventUnmmap_def perfEventUnmmap_def)
  show "dump_openPerfEvent = openPerfEvent" unfolding dump_openPerfEvent_def openPerfEvent_def fd mm by (intro ext) (rule refl)
qed

lemma destroy_fds: "fds (XdpEventReader_destroy E pages mapped s) = fds s"
  by (auto simp: XdpEventReader_destroy_def dump_perfEventUnmmap_def split: prod.split dest!: sys_eqD)

text \<open>A reader that fails once its perf event is open leaves the descriptor behind: neither \<open>open\<close> nor the destructor closes it.\<close>

theorem failed_reader_leaks:
  assumes "XdpEventReader_open E registered cpu event_map wake pages s = (False, mapped, t)"
    and "dump_get_perf_event_fd E cpu wake s = (fd, u)" "0 \<le> fd"
  shows "fds (XdpEventReader_destroy E pages mapped t) = fd # fds s"
proof -
  have "fds u = fd # fds s"
    using assms(2,3) by (auto simp: dump_get_perf_event_fd_def split: prod.splits if_splits dest!: sys_eqD)
  then show ?thesis using assms unfolding destroy_fds
    by (auto simp: XdpEventReader_open_def dump_openPerfEvent_def dump_mmap_perf_event_def split: prod.splits if_splits dest!: sys_eqD)
qed

text \<open>The readers that are kept are the ones of the CPUs whose reader could be opened, in order.\<close>

lemma open_readers_sublist: "subseq (fst (open_readers E registered event_map pages cpus s)) cpus"
  by (induction cpus arbitrary: s) (auto simp: case_prod_beta)

end
