(* ===== verification/Spec2Isabelle.thy ===== *)
theory Spec2Isabelle
  imports Balancer_Correct Wire_Correct Decap Katran_Errors Monitor Xdpdump Simulator Xdp_Decap Client Server Gue_Suite Xdpdump_Readers
begin

text \<open>
  Verification of katran, a layer-4 load balancer.

  \<^bold>\<open>The program.\<close> Katran forwards packets for virtual services (VIPs) to real servers (reals). The data plane is a set of BPF programs in C
  that run in the kernel for every packet; the control plane is a C++ library, \<open>KatranLb\<close>, that writes the BPF maps the
  programs read. Around them are the program that decapsulates packets on the reals, health-check programs, a capture of sampled packets, the
  tool \<open>xdpdump\<close>, a simulator, and example servers (thrift, gRPC) with a command line client.

  A packet of a client is parsed, its VIP is looked up in \<open>vip_map\<close>, a real is found in a connection table or on the
  ring of the VIP in \<open>ch_rings\<close>, and the packet is sent to the real behind an outer IP header. The rings come from Maglev
  hashing of the reals and their weights in \<open>Vip\<close>; \<open>KatranLb\<close> counts who uses a real, gives reals and VIPs their numbers and
  writes the differences of rings to the kernel. Events go back through perf ring buffers to \<open>KatranMonitor\<close>, which writes pcap files.

  \<^bold>\<open>Theories and sources\<close> (paths under \<open>src/katran/lib\<close> unless given):

  \<^item> \<open>Prelude\<close>: words, byte strings in little endian order, the option monad of accesses that may fault and its weakest
    preconditions \<open>wp\<close>, lemmas on lists.
  \<^item> \<open>Balancer_Consts\<close>, \<open>Headers\<close>, \<open>Bpf_State\<close>: \<open>bpf/balancer_consts.h\<close>, \<open>balancer_structs.h\<close>, \<open>balancer_maps.h\<close>, the packet headers as
    records with their encodings; the state of the data plane \<open>bpf_state\<close> has the packet and one map per BPF map; kernel helpers
    are the fields of \<open>bpf_helpers\<close>, the build macros those of \<open>build_flags\<close>.
  \<^item> \<open>Jhash\<close>, \<open>Csum\<close>, \<open>Pckt_Parsing\<close>, \<open>Encap\<close>, \<open>Handle_Icmp\<close>: the headers \<open>jhash.h\<close>, \<open>csum_helpers.h\<close>, \<open>pckt_parsing.h\<close>,
    \<open>pckt_encap.h\<close> with \<open>encap_helpers.h\<close>, \<open>handle_icmp.h\<close>. The locale \<open>tunnel\<close> is the contract of the four encapsulations.
  \<^item> \<open>Xdp_Program\<close>: programs, tail calls and sequences of packets; the locale \<open>xdp_program\<close> is what every program promises.
  \<^item> \<open>Balancer\<close> (\<open>bpf/balancer_kern.c\<close>, \<open>introspection.h\<close>), \<open>Balancer_Correct\<close> and \<open>Wire_Correct\<close>: the balancer, what it does with
    packets, and the formats on the wire.
  \<^item> \<open>Decap\<close>: \<open>src/katran/decap/bpf/decap_kern.c\<close>, \<open>bpf/xdp_root.c\<close>, \<open>bpf/xdp_pktcntr.c\<close>; \<open>Healthcheck\<close>: both health-check programs.
  \<^item> \<open>Maglev\<close>: \<open>MurmurHash3.cpp\<close> and \<open>CHHelpers.cpp\<close>; \<open>Vip\<close>: \<open>Vip.cpp\<close>, with the locale \<open>ring_owner\<close> for a ring and the deltas that follow it.
  \<^item> \<open>Katran_Lb\<close> and \<open>Katran_Setup\<close>: \<open>KatranLb.cpp\<close>, \<open>IpHelpers.cpp\<close> and their structs; the record \<open>KatranLb\<close> has the members of the class and the
    state of the kernel, a call is a function on it. \<open>Katran_Pool\<close> (locale \<open>real_pool\<close>), \<open>Katran_Inv\<close> and \<open>Katran_Steps\<close>: the
    invariant of reference counts and numbers. A run is any sequence of calls (\<open>lb_step\<close>, \<open>lb_run\<close>); \<open>careful\<close> is what the counts
    need of the caller and the object does not check, a hypothesis on the trace of the run. \<open>Katran_Sync\<close>: that the maps in the kernel say the same as the
    object, and the interleaving of calls with packets; \<open>Katran_Errors\<close>: calls with a surprising effect, those of a caller who is not careful among them.
  \<^item> \<open>Perf_Ring\<close> (\<open>BpfAdapter::handlePerfEvent\<close>), \<open>Pcap\<close> (\<open>PcapWriter.cpp\<close>, the writers and the parser; locale \<open>data_writer\<close>), \<open>Monitor\<close>
    (\<open>KatranMonitor.cpp\<close>, \<open>KatranEventReader.cpp\<close>): the way of an event from the kernel to the file.
  \<^item> \<open>Xdpdump\<close>: \<open>src/tools/xdpdump\<close>, from the command line over the generated macros to the captured file; \<open>Xdpdump_Readers\<close>: how its readers are opened and
    closed, over the system calls of \<open>Bpf_Adapter\<close>.
  \<^item> \<open>Bpf_Loader\<close> and \<open>Bpf_Adapter\<close>: \<open>BpfLoader.cpp\<close>, \<open>BpfAdapter.cpp\<close> and \<open>Netlink.cpp\<close>, over a trace of system calls whose replies are
    an argument; \<open>Xdp_Decap\<close>: \<open>src/katran/decap/XdpDecap.cpp\<close> over these calls.
  \<^item> \<open>Simulator\<close>: \<open>KatranSimulator.cpp\<close>, which runs the balancer on a packet made for a flow.
  \<^item> \<open>Service\<close>: the handlers of \<open>src/example/KatranSimpleServiceHandler.cpp\<close> and \<open>src/example_grpc/KatranGrpcService.cpp\<close> with \<open>MacHelpers.cpp\<close>; the
    locale \<open>front_end\<close> is what both promise. \<open>Client\<close>: \<open>src/example/client\<close>. \<open>Server\<close>: the programs \<open>src/example/KatranSimpleServer.cpp\<close> and
    \<open>src/example_grpc/katran_server.cpp\<close> with their signal handlers, over a list of events; the locale \<open>running_server\<close> is what both promise.
  \<^item> \<open>Tester\<close>: the test framework under \<open>testing\<close>: base64, \<open>BpfTester.cpp\<close>, the provisioning and the checks of \<open>katran_tester.cpp\<close>.
    \<open>Fixtures\<close> holds the packets of \<open>KatranTestFixtures.h\<close> and \<open>KatranGueTestFixtures.h\<close>; \<open>Test_Suite\<close> and \<open>Gue_Suite\<close> run them
    through the model, over maps and ring slots written down for the tests, as a validation of the model.

  \<^bold>\<open>What is shown.\<close> For the data plane: no access leaves the packet or dereferences a missing entry, on any sequence of packets, for
  every build and every behaviour of the kernel helpers; a packet for a VIP leaves unchanged behind an outer header to a real of the table, and the
  real gets it back (this theory); a TCP connection keeps its real while the
  connection table keeps its entry, whatever other flows do; the ring index stays inside its array; tunnels and checksums
  are right for the receiver. For the control plane: rings are full, with the exact number of slots of every real; for a careful caller
  reference counts are exact and numbers used once after every run, and, when system calls succeed, however calls, requests over the network and packets interleave, a
  new flow of a VIP with a live real gets a live real. Careful means: no batch names a real twice, source rules are new and distinct, and there are fewer than \<open>2 ^ 32\<close> users. For the rest: events are delivered once and in order, captures read back, filters select what the command line asks for, descriptors are
  closed, loading is all or nothing, both services are equal, the client's texts arrive, a signalled server whose handlers come back ends and, when system calls succeed, takes its programs out of the kernel, the tester reports
  what the balancer does. The model is validated against the packets of the program's own tests: it gives the 65 packets of the default and the GUE suite the expected verdicts and bytes. Where the code does something its authors do not say, a theorem shows
  it.

  \<^bold>\<open>Conventions and bounds.\<close> Fixed-width integers are words and wrap. \<open>None\<close> is a faulting access, an undefined operation or, for
  \<open>partial_function (option)\<close>, a loop that does not end; that loops end is proved as such. Tail calls are counted down from the limit of
  33 that the kernel has. Exceptions are values of \<open>lb_error\<close> or of the unit type. Hash tables are association lists, and the order in which the code iterates them is an argument.
  A system call may fail whenever its argument says so; theorems that need it to succeed say so (\<open>all_calls_ok\<close>).

  \<^bold>\<open>Parameters.\<close> What folly, gflags, glog, libbpf, libmnl, thrift, gRPC, RE2 and the kernel do is an argument of the definitions: parsing and printing of
  addresses, hashing of addresses, the replies of system calls, wire formats. The hypotheses about them are their documented behaviour.

  \<^bold>\<open>Not modelled.\<close> Concurrency inside a map lookup of the kernel; the threads of the event loops of folly, thrift and gRPC, which are lists of events
  here; rounding of the floating point numbers of \<open>showLruStats\<close>, which are real numbers here; the printing of events by \<open>xdpdump\<close>; the declarations of the
  kernel under \<open>linux_includes\<close> beyond the constants in use; the dispatch of \<open>main\<close> and \<open>testKatranMonitor\<close> in \<open>katran_tester.cpp\<close> (files and sleeping), the packets
  of the tests of optional build flags, and the unit tests.
\<close>

section \<open>From the client to the real\<close>

text \<open>C10. The whole way of a packet. A TCP packet of a client for a configured service leaves the balancer, in every
  build that encapsulates with IP, with \<open>XDP_TX\<close> and addressed to a real of the table, of either family; the \<open>xdpdecap\<close> program of a
  real that gets this frame passes it to its stack, with the client's IP packet exactly as it was and as an IPv4 frame, and counts it as decapsulated.\<close>

theorem client_packet_reaches_real:
  assumes H: "adjust_head_ok (xdp_adjust_head H)" "\<And>p d. -48 \<le> d \<Longrightarrow> d < 0 \<Longrightarrow> xdp_adjust_head H p d \<noteq> None"
    and ok: "tables_ok H s" and num: "vip_num vip < MAX_VIPS"
    and p: "pkt s = eth @ bytes16 BE_ETH_P_IP @ enc_iphdr iph @ l4" "length eth = 12" "20 \<le> length l4"
      "length (pkt s) \<le> MAX_PCKT_SIZE"
    and iph: "iph_ihl iph = 5" "iph_frag_off iph AND PCKT_FRAGMENTED = 0" "iph_protocol iph = IPPROTO_TCP"
    and vip: "vip_map s \<lparr>vipv6 = in6_v4 (iph_daddr iph), vip_port = tcp_dest (dec_tcphdr (take 20 l4)),
      vip_proto = IPPROTO_TCP\<rparr> = Some vip"
    and gue: "\<not> GUE_ENCAP B"
    and K: "adjust_head_ok (xdp_adjust_head K)" "\<And>r n. n \<le> 40 \<Longrightarrow> 54 \<le> length r \<Longrightarrow> xdp_adjust_head K r (int n) \<noteq> None"
    and d: "counters 0 = Some d"
  shows "\<exists>t idx r u. balancer_ingress B H s = Some (Finish XDP_TX, t) \<and> reals s idx = Some r \<and> addressed_to B False r (pkt t) \<and>
    xdpdecap K \<lparr>dpkt = pkt t, dstats = counters\<rparr> = Some (XDP_PASS, u) \<and>
    drop 14 (dpkt u) = enc_iphdr iph @ l4 \<and> ld16 (dpkt u) 12 = Some BE_ETH_P_IP \<and>
    dstats u 0 = Some (if real_flags r AND F_IPV6 \<noteq> 0
      then d\<lparr>ds_decap_v6 := ds_decap_v6 d + 1, ds_total := ds_total d + 1\<rparr>
      else d\<lparr>ds_decap_v4 := ds_decap_v4 d + 1, ds_total := ds_total d + 1\<rparr>)"
proof -
  obtain t idx r where t: "balancer_ingress B H s = Some (Finish XDP_TX, t)" "sent_to_real B False vip (bpf_ntohs (iph_tot_len iph)) idx r s t"
    using tcp4_forwarded [OF H ok num p iph vip] by blast
  let ?q = "pkt t" and ?D = "\<lparr>dpkt = pkt t, dstats = counters\<rparr>"
  have r: "reals s idx = Some r" and tun: "tunnelled (outer_len B r) (pkt s) ?q" and to: "addressed_to B False r ?q"
    using t(2) by (simp_all add: sent_to_real_def)
  have inner: "drop 14 (pkt s) = enc_iphdr iph @ l4" using p(1,2) by simp
  have len: "length ?q = length (pkt s) + outer_len B r" "54 \<le> length (pkt s)" using tun p by (simp_all add: tunnelled_def)
  show ?thesis
  proof (cases "real_flags r AND F_IPV6 = 0")
    case True
    then have o: "outer_len B r = 20" using gue by (simp add: outer_len_def)
    have "\<exists>u. xdpdecap K ?D = Some (XDP_PASS, u) \<and> drop 14 (dpkt u) = drop 34 ?q \<and> ld16 (dpkt u) 12 = Some BE_ETH_P_IP \<and>
        dstats u 0 = Some (d\<lparr>ds_decap_v4 := ds_decap_v4 d + 1, ds_total := ds_total d + 1\<rparr>)"
      using to True gue len o d K(2) [of 20] by (intro decap_pops_v4 [OF K(1)]) (auto simp: addressed_to_def)
    then show ?thesis using t(1) r to True tun o inner by (auto simp: tunnelled_def)
  next
    case False
    then have o: "outer_len B r = 40" using gue by (simp add: outer_len_def)
    have "\<exists>u. xdpdecap K ?D = Some (XDP_PASS, u) \<and> drop 14 (dpkt u) = drop 54 ?q \<and> ld16 (dpkt u) 12 = Some BE_ETH_P_IP \<and>
        dstats u 0 = Some (d\<lparr>ds_decap_v6 := ds_decap_v6 d + 1, ds_total := ds_total d + 1\<rparr>)"
      using to False gue len o d K(2) [of 40] by (intro decap_pops_v6 [OF K(1)]) (auto simp: addressed_to_def)
    then show ?thesis using t(1) r to False tun o inner by (auto simp: tunnelled_def)
  qed
qed

theorem client_packet_reaches_real_witness:
  "\<exists>t u. balancer_ingress default_build ref_helpers (ex_state\<lparr>pkt := ex_frame\<rparr>) = Some (Finish XDP_TX, t) \<and>
    xdpdecap ref_helpers (ex_decap_state (pkt t)) = Some (XDP_PASS, u) \<and> drop 14 (dpkt u) = enc_iphdr ex_iph @ ex_tcp"
proof -
  have head: "adjust_head_ok (xdp_adjust_head ref_helpers)" using ref_adjust_head_ok by (simp add: ref_helpers_def)
  have vip: "vip_map (ex_state\<lparr>pkt := ex_frame\<rparr>) \<lparr>vipv6 = in6_v4 (iph_daddr ex_iph),
      vip_port = tcp_dest (dec_tcphdr (take 20 ex_tcp)), vip_proto = IPPROTO_TCP\<rparr> = Some ex_meta"
  proof -
    have "tcp_dest (dec_tcphdr (take 20 ex_tcp)) = bpf_htons 80" by code_simp
    then show ?thesis by (simp add: ex_state_def ex_vip_def ex_iph_def)
  qed
  have pop: "xdp_adjust_head ref_helpers r (int n) \<noteq> None" if "n \<le> 40" "54 \<le> length r" for r n
    using ref_pop [of n r] that by simp
  have facts: "vip_num ex_meta < MAX_VIPS" "pkt (ex_state\<lparr>pkt := ex_frame\<rparr>) = replicate 12 2 @ bytes16 BE_ETH_P_IP @ enc_iphdr ex_iph @ ex_tcp"
    "length (replicate 12 2 :: u8 list) = 12" "20 \<le> length ex_tcp" "length (pkt (ex_state\<lparr>pkt := ex_frame\<rparr>)) \<le> MAX_PCKT_SIZE"
    "iph_ihl ex_iph = 5" "iph_frag_off ex_iph AND PCKT_FRAGMENTED = 0" "iph_protocol ex_iph = IPPROTO_TCP" "\<not> GUE_ENCAP default_build"
    by (simp_all add: ex_meta_def ex_frame_def ex_tcp_def ex_iph_def default_build_def)
  show ?thesis
    using client_packet_reaches_real [OF head ref_headroom ex_tables_ok facts(1-8) vip facts(9) head pop,
        where counters = "dstats (ex_decap_state [])"] by (auto simp: ex_decap_state_def)
qed

end
